(* ===== verification/Prelude.thy ===== *)
theory Prelude
  imports Main "HOL-Library.Multiset"
begin

text \<open>
  Shared vocabulary of the development: the error values of the source, the result type
  every fallible operation returns, JavaScript array helpers (swap, splice, substring,
  join), the decimal rendering of integers, and the list lemmas the components share.
  Strings are Isabelle strings: a JavaScript string whose code units are all below 256
  (Latin-1, which covers the Spanish interface and content of this program) is the list
  of its code units, so \<open>length\<close>, indexing and comparison by code unit agree.
\<close>

named_theorems js_simps \<open>unfolding rules of the JavaScript primitives\<close>
named_theorems wf_intros \<open>well-formedness introduction rules\<close>

section \<open>Errors and results\<close>

text \<open>
  \<open>JsError m\<close> is \<open>throw new Error(m)\<close>, \<open>TypeErr\<close> the TypeError raised by a property
  access on \<open>undefined\<close> or \<open>null\<close>, and \<open>UndefinedSlot\<close> marks the point where the
  source would go on with an array slot (or an array property) holding \<open>undefined\<close>: the
  model stops there with an error value instead of inventing a value.
\<close>

datatype js_error = JsError string | TypeErr | UndefinedSlot

type_synonym 'a res = "js_error + 'a"

definition bind_res :: "'a res \<Rightarrow> ('a \<Rightarrow> 'b res) \<Rightarrow> 'b res" where
  "bind_res r f = (case r of Inl e \<Rightarrow> Inl e | Inr x \<Rightarrow> f x)"

definition is_ok :: "'a res \<Rightarrow> bool" where
  "is_ok r = (case r of Inl _ \<Rightarrow> False | Inr _ \<Rightarrow> True)"

lemma bind_res_simps [simp, js_simps]:
  "bind_res (Inl e) f = Inl e" "bind_res (Inr x) f = f x"
  by (simp_all add: bind_res_def)

lemma bind_res_eq_Inr: "bind_res r f = Inr y \<longleftrightarrow> (\<exists>x. r = Inr x \<and> f x = Inr y)"
  by (cases r) auto

lemma is_ok_simps [simp]: "\<not> is_ok (Inl e)" "is_ok (Inr x)"
  by (simp_all add: is_ok_def)

lemma is_ok_iff: "is_ok r \<longleftrightarrow> (\<exists>x. r = Inr x)"
  by (cases r) auto

section \<open>Arrays\<close>

text \<open>\<open>[a[i], a[j]] = [a[j], a[i]]\<close> for indices inside the array.\<close>

definition swap :: "nat \<Rightarrow> nat \<Rightarrow> 'a list \<Rightarrow> 'a list" where
  "swap i j xs = (xs[i := xs ! j])[j := xs ! i]"

lemma length_swap [simp]: "length (swap i j xs) = length xs"
  by (simp add: swap_def)

lemma mset_swap_same [simp]:
  "i < length xs \<Longrightarrow> j < length xs \<Longrightarrow> mset (swap i j xs) = mset xs"
  by (simp add: swap_def mset_swap)

lemma set_swap [simp]:
  "i < length xs \<Longrightarrow> j < length xs \<Longrightarrow> set (swap i j xs) = set xs"
  by (metis mset_swap_same set_mset_mset)

lemma nth_swap:
  "i < length xs \<Longrightarrow> j < length xs \<Longrightarrow> k < length xs \<Longrightarrow>
   swap i j xs ! k = (if k = i then xs ! j else if k = j then xs ! i else xs ! k)"
  by (auto simp: swap_def nth_list_update)

text \<open>
  \<open>const [m] = a.splice(from, 1); a.splice(to, 0, m)\<close>: the element at \<open>from\<close> is removed
  and inserted again so that it ends at index \<open>to\<close>.
\<close>

definition remove_at :: "nat \<Rightarrow> 'a list \<Rightarrow> 'a list" where
  "remove_at i xs = take i xs @ drop (Suc i) xs"

definition insert_at :: "nat \<Rightarrow> 'a \<Rightarrow> 'a list \<Rightarrow> 'a list" where
  "insert_at i x xs = take i xs @ x # drop i xs"

definition splice_move :: "nat \<Rightarrow> nat \<Rightarrow> 'a list \<Rightarrow> 'a list" where
  "splice_move i j xs = insert_at j (xs ! i) (remove_at i xs)"

lemma length_remove_at [simp]: "i < length xs \<Longrightarrow> length (remove_at i xs) = length xs - 1"
  by (simp add: remove_at_def)

lemma length_insert_at [simp]: "j \<le> length xs \<Longrightarrow> length (insert_at j x xs) = Suc (length xs)"
  by (simp add: insert_at_def)

lemma set_remove_at: "set (remove_at n xs) \<subseteq> set xs"
  by (auto simp: remove_at_def dest: in_set_takeD in_set_dropD)

lemma mset_remove_at: "i < length xs \<Longrightarrow> add_mset (xs ! i) (mset (remove_at i xs)) = mset xs"
  by (metis (no_types, lifting) append_take_drop_id Cons_nth_drop_Suc mset.simps(2)
      mset_append remove_at_def union_mset_add_mset_right)

lemma mset_insert_at [simp]: "mset (insert_at j x xs) = add_mset x (mset xs)"
proof -
  have "mset xs = mset (take j xs) + mset (drop j xs)"
    by (metis append_take_drop_id mset_append)
  then show ?thesis by (simp add: insert_at_def)
qed

lemma mset_splice_move [simp]: "i < length xs \<Longrightarrow> mset (splice_move i j xs) = mset xs"
  by (simp add: splice_move_def mset_remove_at)

lemma length_splice_move [simp]:
  "i < length xs \<Longrightarrow> length (splice_move i j xs) = length xs"
  by (metis mset_splice_move size_mset)

lemma length_filter_update:
  "i < length xs \<Longrightarrow>
   length (filter P (xs[i := y])) + (if P (xs ! i) then 1 else 0)
     = length (filter P xs) + (if P y then 1 else 0)"
proof (induction xs arbitrary: i)
  case Nil
  then show ?case by simp
next
  case (Cons x xs)
  then show ?case by (cases i) auto
qed

lemma length_filter_pos: "x \<in> set xs \<Longrightarrow> P x \<Longrightarrow> 0 < length (filter P xs)"
  by (auto simp: length_greater_0_conv filter_empty_conv)

section \<open>Strings\<close>

text \<open>\<open>s.substring(a, b)\<close> for \<open>a \<le> b\<close>; both ends are clamped to the length.\<close>

definition substring :: "nat \<Rightarrow> nat \<Rightarrow> 'a list \<Rightarrow> 'a list" where
  "substring a b s = take (b - a) (drop a s)"

lemma append_substring: "a \<le> b \<Longrightarrow> substring a b s @ drop b s = drop a s"
  by (simp add: substring_def) (metis append_take_drop_id drop_drop le_add_diff_inverse2)

text \<open>\<open>String(n)\<close> for integers.\<close>

fun nat_digits :: "nat \<Rightarrow> string" where
  "nat_digits n =
     (if n < 10 then [char_of (48 + n)] else nat_digits (n div 10) @ [char_of (48 + n mod 10)])"

declare nat_digits.simps [simp del]

definition show_nat :: "nat \<Rightarrow> string" where
  "show_nat n = nat_digits n"

definition show_int :: "int \<Rightarrow> string" where
  "show_int i = (if i < 0 then CHR ''-'' # nat_digits (nat (- i)) else nat_digits (nat i))"

definition is_digit :: "char \<Rightarrow> bool" where
  "is_digit c \<longleftrightarrow> 48 \<le> (of_char c :: nat) \<and> (of_char c :: nat) \<le> 57"

lemma of_char_digit: "d < 10 \<Longrightarrow> (of_char (char_of (48 + d :: nat)) :: nat) = 48 + d"
  by simp

lemma nat_digits_digit: "\<forall>c \<in> set (nat_digits n). is_digit c"
proof (induction n rule: nat_digits.induct)
  case (1 n)
  then show ?case
    by (subst nat_digits.simps) (auto simp: is_digit_def of_char_digit)
qed

lemma nat_digits_nonempty [simp]: "nat_digits n \<noteq> []"
  by (subst nat_digits.simps) simp

fun digits_value :: "string \<Rightarrow> nat" where
  "digits_value [] = 0"
| "digits_value (c # cs) = (of_char c - 48) * 10 ^ length cs + digits_value cs"

lemma digits_value_snoc: "digits_value (cs @ [c]) = 10 * digits_value cs + (of_char c - 48)"
  by (induction cs) (simp_all add: algebra_simps)

lemma digits_value_nat_digits: "digits_value (nat_digits n) = n"
proof (induction n rule: nat_digits.induct)
  case (1 n)
  show ?case
  proof (cases "n < 10")
    case True
    then show ?thesis by (subst nat_digits.simps) simp
  next
    case False
    then have "digits_value (nat_digits n) = 10 * (n div 10) + n mod 10"
      using 1 by (subst nat_digits.simps) (simp add: digits_value_snoc)
    then show ?thesis by simp
  qed
qed

lemma nat_digits_inj: "nat_digits m = nat_digits n \<longleftrightarrow> m = n"
  by (metis digits_value_nat_digits)

lemma show_nat_inj [simp]: "show_nat m = show_nat n \<longleftrightarrow> m = n"
  by (simp add: show_nat_def nat_digits_inj)

lemma minus_not_digit: "\<not> is_digit (CHR ''-'')"
  by (simp add: is_digit_def)

lemma nat_digits_not_minus: "nat_digits n \<noteq> CHR ''-'' # cs"
  using nat_digits_digit [of n] minus_not_digit by (metis list.set_intros(1))

lemma show_int_inj [simp]: "show_int i = show_int j \<longleftrightarrow> i = j"
  using nat_digits_not_minus
  by (auto simp: show_int_def nat_digits_inj dest: sym)

lemma show_int_set: "c \<in> set (show_int i) \<Longrightarrow> is_digit c \<or> c = CHR ''-''"
  using nat_digits_digit by (auto simp: show_int_def split: if_splits)

lemma show_nat_set: "c \<in> set (show_nat n) \<Longrightarrow> is_digit c"
  using nat_digits_digit by (auto simp: show_nat_def)

text \<open>\<open>xs.join(sep)\<close> for a list of strings.\<close>

fun join :: "string \<Rightarrow> string list \<Rightarrow> string" where
  "join sep [] = []"
| "join sep [x] = x"
| "join sep (x # y # ys) = x @ sep @ join sep (y # ys)"

text \<open>\<open>xs.findIndex(p)\<close>: \<open>None\<close> is the source's \<open>-1\<close>.\<close>

fun find_index :: "('a \<Rightarrow> bool) \<Rightarrow> 'a list \<Rightarrow> nat option" where
  "find_index p [] = None"
| "find_index p (x # xs) = (if p x then Some 0 else map_option Suc (find_index p xs))"

lemma find_index_SomeD:
  "find_index p xs = Some i \<Longrightarrow> i < length xs \<and> p (xs ! i) \<and> (\<forall>k < i. \<not> p (xs ! k))"
proof (induction xs arbitrary: i)
  case Nil
  then show ?case by simp
next
  case (Cons x xs)
  then show ?case by (auto split: if_splits simp: nth_Cons less_Suc_eq_0_disj split: nat.splits)
qed

lemma find_index_None: "find_index p xs = None \<longleftrightarrow> (\<forall>x \<in> set xs. \<not> p x)"
  by (induction xs) auto

lemma find_index_first:
  "i < length xs \<Longrightarrow> p (xs ! i) \<Longrightarrow> (\<And>k. k < i \<Longrightarrow> \<not> p (xs ! k)) \<Longrightarrow> find_index p xs = Some i"
proof (induction xs arbitrary: i)
  case Nil
  then show ?case by simp
next
  case (Cons x xs)
  show ?case
  proof (cases i)
    case 0
    with Cons.prems show ?thesis by simp
  next
    case (Suc j)
    have "\<not> p x" using Cons.prems(3) [of 0] Suc by simp
    moreover have "find_index p xs = Some j"
      using Cons.prems Suc Cons.prems(3) [of "Suc _"] by (intro Cons.IH) auto
    ultimately show ?thesis using Suc by simp
  qed
qed

section \<open>Clamping\<close>

text \<open>The documented behaviour of Phaser's clamp, and the function that has it.\<close>

definition clamp_law :: "(int \<Rightarrow> int \<Rightarrow> int \<Rightarrow> int) \<Rightarrow> bool" where
  "clamp_law clamp \<longleftrightarrow> (\<forall>v lo hi. lo \<le> hi \<longrightarrow> clamp v lo hi = max lo (min hi v))"

lemma clamp_lawD: "clamp_law clamp \<Longrightarrow> lo \<le> hi \<Longrightarrow> clamp v lo hi = max lo (min hi v)"
  by (simp add: clamp_law_def)

definition std_clamp :: "int \<Rightarrow> int \<Rightarrow> int \<Rightarrow> int" where
  "std_clamp v lo hi = max lo (min hi v)"

lemma std_clamp_law: "clamp_law std_clamp"
  by (simp add: clamp_law_def std_clamp_def)

end
