(* ===== verification/JsNumber.thy ===== *)
theory JsNumber
  imports Prelude Complex_Main "HOL-Library.Log_Nat"
begin

text \<open>
  JavaScript Numbers. A finite Number is a rational; \<open>fl\<close> is rounding to the nearest
  IEEE-754 double, ties to even, with an unbounded exponent range (only a seed beyond
  \<open>10^304\<close> in stored content would overflow; no value comes near the subnormal range). Integer arithmetic on game coordinates,
  counters and scores stays far below \<open>2 ^ 53\<close>, where \<open>fl\<close> is the identity
  (\<open>fl_of_int\<close>), so those components use \<open>int\<close> and \<open>nat\<close> directly; \<open>fl\<close> appears
  wherever the source divides or multiplies fractions.
\<close>

section \<open>Rounding\<close>

definition round_half_even :: "rat \<Rightarrow> int" where
  "round_half_even x =
     (let r = \<lfloor>x\<rfloor>; d = x - of_int r
      in if d < 1/2 then r else if d = 1/2 \<and> even r then r else r + 1)"

text \<open>The binary exponent: \<open>2 ^ e \<le> \<bar>x\<bar> < 2 ^ (e + 1)\<close>.\<close>

definition binexp :: "rat \<Rightarrow> int" where
  "binexp x =
     (let (a, b) = quotient_of \<bar>x\<bar>; l = bitlen a - bitlen b
      in if 2 powi l \<le> \<bar>x\<bar> then l else l - 1)"

definition fl :: "rat \<Rightarrow> rat" where
  "fl x = (if x = 0 then 0
           else let u = 2 powi (binexp x - 52) in of_int (round_half_even (x / u)) * u)"

text \<open>\<open>Math.trunc\<close> and the remainder operator \<open>%\<close> (sign of the dividend, exact).\<close>

definition js_trunc :: "rat \<Rightarrow> int" where
  "js_trunc x = (if 0 \<le> x then \<lfloor>x\<rfloor> else \<lceil>x\<rceil>)"

definition js_rem :: "rat \<Rightarrow> rat \<Rightarrow> rat" where
  "js_rem x y = x - y * of_int (js_trunc (x / y))"

lemma round_half_even_error: "\<bar>of_int (round_half_even x) - x\<bar> \<le> 1/2"
proof -
  have "of_int \<lfloor>x\<rfloor> \<le> x" "x < of_int \<lfloor>x\<rfloor> + 1" by linarith+
  then show ?thesis by (auto simp: round_half_even_def Let_def)
qed

lemma round_half_even_of_int [simp]: "round_half_even (of_int n) = n"
  by (simp add: round_half_even_def)

lemma round_half_even_nonneg: "0 \<le> x \<Longrightarrow> 0 \<le> round_half_even x"
  by (auto simp: round_half_even_def Let_def)

lemma binexp_lower: "x \<noteq> 0 \<Longrightarrow> 2 powi (binexp x) \<le> \<bar>x\<bar>"
proof -
  assume x: "x \<noteq> 0"
  obtain a b where q: "quotient_of \<bar>x\<bar> = (a, b)" by fastforce
  have b: "b > 0" using q quotient_of_denom_pos by blast
  have xab: "\<bar>x\<bar> = of_int a / of_int b" using q by (rule quotient_of_div)
  have a: "a > 0" using x b xab by (metis divide_le_0_iff less_le_not_le linorder_not_le of_int_0_less_iff of_int_le_0_iff zero_less_abs_iff)
  let ?l = "bitlen a - bitlen b"
  show ?thesis
  proof (cases "2 powi ?l \<le> \<bar>x\<bar>")
    case True
    then show ?thesis using q by (simp add: binexp_def)
  next
    case False
    have "2 ^ nat (bitlen a - 1) \<le> a" using bitlen_bounds [OF a] by simp
    moreover have "b < 2 ^ nat (bitlen b)" using bitlen_bounds [OF b] by simp
    ultimately have ab: "(2 ^ nat (bitlen a - 1) :: rat) \<le> of_int a" "of_int b \<le> (2 ^ nat (bitlen b) :: rat)"
      by (metis of_int_le_iff of_int_numeral of_int_power) (metis \<open>b < 2 ^ nat (bitlen b)\<close> less_imp_le of_int_le_iff of_int_numeral of_int_power)
    have pa: "(2 ^ nat (bitlen a - 1) :: rat) = 2 powi (bitlen a - 1)"
      using a by (simp add: power_int_def bitlen_nonneg) (smt (verit) bitlen_eq_zero_iff bitlen_nonneg)
    have pb: "(2 ^ nat (bitlen b) :: rat) = 2 powi (bitlen b)"
      by (simp add: power_int_def bitlen_nonneg)
    have "2 powi (?l - 1) = (2 powi (bitlen a - 1) :: rat) / 2 powi (bitlen b)"
      by (simp add: power_int_diff power_int_add)
    also have "\<dots> \<le> of_int a / of_int b"
      unfolding pa [symmetric] pb [symmetric] using ab a b by (intro frac_le) auto
    finally show ?thesis using False q xab by (simp add: binexp_def)
  qed
qed

text \<open>Relative error at most one half unit in the last place: \<open>2 ^ -53\<close>.\<close>

lemma fl_error: "\<bar>fl x - x\<bar> \<le> \<bar>x\<bar> / 2 ^ 53"
proof (cases "x = 0")
  case True
  then show ?thesis by (simp add: fl_def)
next
  case False
  let ?u = "2 powi (binexp x - 52) :: rat"
  have u: "?u > 0" by simp
  have "fl x - x = (of_int (round_half_even (x / ?u)) - x / ?u) * ?u"
    using False u by (simp add: fl_def Let_def left_diff_distrib)
  then have "\<bar>fl x - x\<bar> = \<bar>of_int (round_half_even (x / ?u)) - x / ?u\<bar> * ?u"
    using u by (simp add: abs_mult)
  also have "\<dots> \<le> 1/2 * ?u"
    using round_half_even_error u by (intro mult_right_mono) auto
  also have "\<dots> = 2 powi (binexp x) / 2 ^ 53"
    by (simp add: power_int_diff)
  also have "\<dots> \<le> \<bar>x\<bar> / 2 ^ 53"
    using binexp_lower [OF False] by (simp add: divide_right_mono)
  finally show ?thesis .
qed

lemma fl_zero [simp]: "fl 0 = 0"
  by (simp add: fl_def)

lemma fl_nonneg: "0 \<le> x \<Longrightarrow> 0 \<le> fl x"
  by (auto simp: fl_def Let_def intro!: mult_nonneg_nonneg round_half_even_nonneg)

lemma fl_upper: "0 \<le> x \<Longrightarrow> fl x \<le> x + x / 2 ^ 53"
  using fl_error [of x] by linarith

lemma fl_lower: "0 \<le> x \<Longrightarrow> x - x / 2 ^ 53 \<le> fl x"
  using fl_error [of x] by linarith


text \<open>Integers up to \<open>2 ^ 53\<close> are represented exactly, and every integer rounds to an integer.\<close>

lemma fl_scaled_int:
  assumes "x / 2 powi (binexp x - 52) = of_int k"
  shows "fl x = x"
proof -
  have "of_int k * 2 powi (binexp x - 52) = x"
    unfolding assms [symmetric] by simp
  then show ?thesis using assms by (simp add: fl_def Let_def)
qed

lemma fl_of_int_small_exp: "binexp (of_int n) \<le> 52 \<Longrightarrow> fl (of_int n) = of_int n"
proof (rule fl_scaled_int)
  let ?e = "binexp (of_int n)"
  assume e: "?e \<le> 52"
  have "of_int n / 2 powi (?e - 52) = (of_int n * 2 powi (52 - ?e) :: rat)"
    by (metis minus_diff_eq power_int_minus_divide divide_inverse power_int_minus mult_1)
  also have "(2 powi (52 - ?e) :: rat) = of_int (2 ^ nat (52 - ?e))"
    using e by (simp add: power_int_def)
  finally show "of_int n / 2 powi (?e - 52) = (of_int (n * 2 ^ nat (52 - ?e)) :: rat)"
    by simp
qed

lemma fl_of_int:
  assumes "\<bar>n\<bar> \<le> 2 ^ 53"
  shows "fl (of_int n) = of_int n"
proof (cases "n = 0 \<or> binexp (of_int n) \<le> 52")
  case True
  then show ?thesis using fl_of_int_small_exp by auto
next
  case False
  let ?e = "binexp (of_int n)"
  have n: "(of_int n :: rat) \<noteq> 0" using False by simp
  have up: "\<bar>of_int n :: rat\<bar> \<le> 2 ^ 53"
    using assms by (metis of_int_abs of_int_le_iff of_int_numeral of_int_power)
  have "(2 powi 53 :: rat) \<le> 2 powi ?e"
    using False by (intro power_int_increasing) auto
  with binexp_lower [OF n] up have n53: "\<bar>of_int n :: rat\<bar> = 2 ^ 53" and e53: "(2 powi ?e :: rat) = 2 powi 53"
    by simp_all
  have e: "?e = 53"
  proof (rule ccontr)
    assume "?e \<noteq> 53"
    then have "(2 powi 54 :: rat) \<le> 2 powi ?e"
      using False by (intro power_int_increasing) auto
    then show False using e53 by simp
  qed
  from n53 have "of_int n = (2 ^ 53 :: rat) \<or> of_int n = (- (2 ^ 53) :: rat)" by linarith
  then have "of_int n / 2 powi (?e - 52) = (of_int (2 ^ 52) :: rat)
      \<or> of_int n / 2 powi (?e - 52) = (of_int (- (2 ^ 52)) :: rat)"
    unfolding e by auto
  then show ?thesis using fl_scaled_int by blast
qed

lemma fl_of_int_int: "\<exists>m. fl (of_int n) = of_int m"
proof (cases "n = 0 \<or> binexp (of_int n) \<le> 52")
  case True
  then show ?thesis using fl_of_int_small_exp [of n] by (metis fl_zero of_int_0)
next
  case False
  then have "(2 powi (binexp (of_int n) - 52) :: rat) = of_int (2 ^ nat (binexp (of_int n) - 52))"
    by (simp add: power_int_def)
  then show ?thesis using False
    by (simp only: fl_def Let_def) (metis of_int_mult of_int_0)
qed


section \<open>Integer remainders and floored products\<close>

lemma js_rem_of_int:
  assumes "0 \<le> a" "0 < b"
  shows "js_rem (of_int a) (of_int b) = of_int (a mod b)"
proof -
  have "js_trunc (of_int a / of_int b) = a div b"
    using assms by (simp add: js_trunc_def floor_divide_of_int_eq)
  then have "js_rem (of_int a) (of_int b) = of_int (a - b * (a div b))"
    by (simp add: js_rem_def)
  then show ?thesis by (simp add: minus_mult_div_eq_mod)
qed

lemma js_rem_of_int_neg:
  assumes "a < 0" "0 < b"
  shows "js_rem (of_int a) (of_int b) = - of_int ((- a) mod b)"
proof -
  have neg: "\<not> 0 \<le> (of_int a / of_int b :: rat)"
    using assms by (simp add: zero_le_divide_iff)
  have "- (of_int a / of_int b) = (of_int (- a) / of_int b :: rat)" by simp
  then have "\<lceil>of_int a / of_int b :: rat\<rceil> = - ((- a) div b)"
    unfolding ceiling_def by (simp only: floor_divide_of_int_eq)
  then have "js_trunc (of_int a / of_int b) = - ((- a) div b)"
    using neg by (simp add: js_trunc_def)
  then have "js_rem (of_int a) (of_int b) = of_int (a + b * ((- a) div b))"
    by (simp add: js_rem_def)
  also have "a + b * ((- a) div b) = - ((- a) mod b)"
    using mult_div_mod_eq [of b "- a"] by linarith
  finally show ?thesis by simp
qed

text \<open>\<open>Math.floor(r * n)\<close>: how every random index of the program is computed.\<close>

definition rand_index :: "rat \<Rightarrow> nat \<Rightarrow> int" where
  "rand_index r n = \<lfloor>fl (r * of_nat n)\<rfloor>"

text \<open>The largest double below 1 still lands inside \<open>0 .. n - 1\<close> after rounding.\<close>

lemma rand_index_range:
  assumes "0 \<le> r" "r \<le> 1 - 1 / 2 ^ 53" "0 < n"
  shows "0 \<le> rand_index r n \<and> rand_index r n < int n"
proof -
  have rn: "0 \<le> r * of_nat n" using assms by simp
  have "fl (r * of_nat n) \<le> r * of_nat n * (1 + 1 / 2 ^ 53)"
    using fl_upper [OF rn] by (simp add: distrib_left)
  also have "\<dots> \<le> (1 - 1 / 2 ^ 53) * of_nat n * (1 + 1 / 2 ^ 53)"
    using assms by (intro mult_right_mono) auto
  also have "\<dots> < of_nat n" using assms by simp
  finally have "fl (r * of_nat n) < of_nat n" .
  then show ?thesis
    using fl_nonneg [OF rn] by (simp add: rand_index_def floor_less_iff)
qed

text \<open>
  Away from exact multiples the double computation agrees with integer division, so the
  generators can be evaluated on integers.
\<close>

lemma floor_near:
  fixes q v :: rat
  assumes "of_int k + d \<le> q" "q \<le> of_int k + 1 - d" "\<bar>v - q\<bar> < d"
  shows "\<lfloor>v\<rfloor> = k"
proof -
  have "v - q < d" "q - v < d" using assms(3) by (simp_all add: abs_less_iff)
  then have "of_int k \<le> v" "v < of_int k + 1" using assms(1,2) by linarith+
  then show ?thesis by (rule floor_unique)
qed

lemma fl_fl_error:
  assumes "0 \<le> x" "0 \<le> y"
  shows "\<bar>fl (fl x * y) - x * y\<bar> \<le> x * y / 2 ^ 51"
proof -
  define p where "p = x * y"
  define w where "w = fl x * y"
  have p: "0 \<le> p" using assms by (simp add: p_def)
  have "\<bar>fl x - x\<bar> * y \<le> x / 2 ^ 53 * y"
    using fl_error [of x] assms by (intro mult_right_mono) auto
  moreover have "\<bar>w - p\<bar> = \<bar>fl x - x\<bar> * y"
    using assms(2) by (simp add: w_def p_def abs_mult flip: left_diff_distrib)
  ultimately have 1: "\<bar>w - p\<bar> \<le> p / 2 ^ 53"
    by (simp add: p_def)
  have w: "0 \<le> w" using fl_nonneg [OF assms(1)] assms(2) by (simp add: w_def)
  from 1 have 2: "\<bar>w - p\<bar> \<le> p / 9007199254740992" by simp
  then have "w \<le> 2 * p" using p by linarith
  moreover have "\<bar>fl w - w\<bar> \<le> w / 9007199254740992" using fl_error [of w] w by simp
  ultimately have "\<bar>fl w - p\<bar> \<le> p / 2251799813685248" using 2 p w by linarith
  then show ?thesis by (simp add: w_def p_def)
qed

lemma rand_index_exact:
  assumes "0 \<le> s" "s < m" "0 < n" "int n * m < 2 ^ 51" "(s * int n) mod m \<noteq> 0"
  shows "rand_index (fl (of_int s / of_int m)) n = (s * int n) div m"
proof -
  define q where "q = (of_int s / of_int m * of_nat n :: rat)"
  define k where "k = (s * int n) div m"
  define r where "r = (s * int n) mod m"
  have m: "m > 0" using assms by linarith
  have r: "1 \<le> r" "r \<le> m - 1"
    using assms(5) pos_mod_bound [OF m, of "s * int n"] pos_mod_sign [OF m, of "s * int n"]
    by (simp_all add: r_def)
  have "s * int n = k * m + r" by (simp add: k_def r_def)
  then have q: "q = of_int k + of_int r / of_int m"
    using m by (simp add: q_def field_simps) (metis of_int_add of_int_mult of_int_of_nat_eq)
  have "(1 :: rat) / of_int m \<le> of_int r / of_int m" "of_int r / of_int m \<le> (of_int m - 1) / (of_int m :: rat)"
    using m r by (auto intro!: divide_right_mono)
  then have lo: "of_int k + 1 / of_int m \<le> q" and hi: "q \<le> of_int k + 1 - 1 / of_int m"
    using m by (simp_all add: q diff_divide_distrib)
  have "of_int s / of_int m \<le> (1 :: rat)" using assms by (simp add: divide_le_eq)
  then have "q \<le> of_nat n" using mult_right_mono [of "of_int s / of_int m" 1 "of_nat n :: rat"]
    by (simp add: q_def)
  moreover have "of_nat n * of_int m < (2 ^ 51 :: rat)"
    using assms(4) by (metis of_int_less_iff of_int_mult of_int_numeral of_int_of_nat_eq of_int_power)
  ultimately have "q * of_int m < 2 ^ 51"
    using m mult_right_mono [of q "of_nat n" "of_int m"] by linarith
  then have "q / 2 ^ 51 < 1 / of_int m"
    using m by (simp add: field_simps)
  then have "\<bar>fl (fl (of_int s / of_int m) * of_nat n) - q\<bar> < 1 / of_int m"
    using fl_fl_error [of "of_int s / of_int m" "of_nat n"] assms m by (simp add: q_def)
  then show ?thesis
    unfolding rand_index_def k_def [symmetric] by (rule floor_near [OF lo hi])
qed

text \<open>\<open>Math.round\<close>: the nearest integer, halves upwards.\<close>

definition js_round :: "rat \<Rightarrow> int" where
  "js_round x = \<lfloor>x + 1/2\<rfloor>"

end
