(* ===== verification/RandomSource.thy ===== *)
theory RandomSource
  imports JsNumber
begin

text \<open>
  The interface every random choice of the program goes through: a state-passing
  \<open>random()\<close> that returns a double in \<open>[0, 1)\<close>. \<open>Math.random\<close> is a parameter of this
  shape; the seeded generators of the engines are interpretations of the locale
  \<open>random_source\<close>, so the facts about shuffles and random indices are proved once here.
\<close>

section \<open>Fisher-Yates shuffle\<close>

text \<open>
  \<open>for (let i = a.length - 1; i > 0; i--) { const j = Math.floor(random() * (i + 1)); swap }\<close>.
  The loop counter is the argument; an index outside the array (a generator that left
  \<open>[0, 1)\<close>) would store \<open>undefined\<close> into the array, which is the error value.
\<close>

fun shuffle_loop :: "('s \<Rightarrow> rat \<times> 's) \<Rightarrow> nat \<Rightarrow> 'a list \<Rightarrow> 's \<Rightarrow> ('a list \<times> 's) res" where
  "shuffle_loop rnd 0 xs s = Inr (xs, s)"
| "shuffle_loop rnd (Suc i) xs s =
     (let r = rnd s; j = rand_index (fst r) (Suc i + 1)
      in if 0 \<le> j \<and> j < int (length xs)
         then shuffle_loop rnd i (swap (Suc i) (nat j) xs) (snd r)
         else Inl UndefinedSlot)"

definition shuffle :: "('s \<Rightarrow> rat \<times> 's) \<Rightarrow> 'a list \<Rightarrow> 's \<Rightarrow> ('a list \<times> 's) res" where
  "shuffle rnd xs s = shuffle_loop rnd (length xs - 1) xs s"

lemma shuffle_loop_mset:
  "shuffle_loop rnd i xs s = Inr (ys, s') \<Longrightarrow> i < length xs \<or> xs = [] \<Longrightarrow> mset ys = mset xs"
proof (induction rnd i xs s rule: shuffle_loop.induct)
  case (1 rnd xs s)
  then show ?case by simp
next
  case (2 rnd i xs s)
  then show ?case by (fastforce simp: Let_def split: if_splits)
qed

lemma shuffle_mset: "shuffle rnd xs s = Inr (ys, s') \<Longrightarrow> mset ys = mset xs"
  unfolding shuffle_def by (erule shuffle_loop_mset) auto

section \<open>The interface\<close>

locale random_source =
  fixes rnd :: "'s \<Rightarrow> rat \<times> 's"
    and ok :: "'s \<Rightarrow> bool"
  assumes rnd_ok: "ok s \<Longrightarrow> ok (snd (rnd s))"
    and rnd_nonneg: "ok s \<Longrightarrow> 0 \<le> fst (rnd s)"
    and rnd_below: "ok s \<Longrightarrow> fst (rnd s) \<le> 1 - 1 / 2 ^ 53"
begin

lemma index_range:
  "ok s \<Longrightarrow> 0 < n \<Longrightarrow> 0 \<le> rand_index (fst (rnd s)) n \<and> rand_index (fst (rnd s)) n < int n"
  using rnd_nonneg rnd_below by (intro rand_index_range)

lemma index_nat:
  "ok s \<Longrightarrow> 0 < n \<Longrightarrow> nat (rand_index (fst (rnd s)) n) < n"
  using index_range [of s n] by auto

lemma shuffle_loop_total:
  "ok s \<Longrightarrow> i < length xs \<or> i = 0 \<Longrightarrow>
   \<exists>ys s'. shuffle_loop rnd i xs s = Inr (ys, s') \<and> ok s'"
proof (induction i arbitrary: xs s)
  case 0
  then show ?case by simp
next
  case (Suc i)
  have j: "0 \<le> rand_index (fst (rnd s)) (Suc i + 1)"
      "rand_index (fst (rnd s)) (Suc i + 1) < int (length xs)"
    using index_range [of s "Suc i + 1"] Suc.prems by auto
  have "\<exists>ys s'. shuffle_loop rnd i (swap (Suc i) (nat (rand_index (fst (rnd s)) (Suc i + 1))) xs)
      (snd (rnd s)) = Inr (ys, s') \<and> ok s'"
    using Suc.prems by (intro Suc.IH) (auto intro: rnd_ok)
  then show ?case using j by (simp add: Let_def)
qed

text \<open>With a source in \<open>[0, 1)\<close> the shuffle returns, and returns a permutation.\<close>

lemma shuffle_total: "ok s \<Longrightarrow> \<exists>ys s'. shuffle rnd xs s = Inr (ys, s') \<and> ok s'"
  unfolding shuffle_def by (rule shuffle_loop_total) auto

lemma shuffle_perm:
  assumes "ok s"
  obtains ys s' where "shuffle rnd xs s = Inr (ys, s')" "ok s'" "mset ys = mset xs"
proof -
  obtain ys s' where r: "shuffle rnd xs s = Inr (ys, s')" "ok s'"
    using shuffle_total [OF assms] by blast
  then show ?thesis using shuffle_mset [OF r(1)] by (rule that)
qed

end

section \<open>Nonnegative integer states\<close>

definition nonneg_int :: "rat \<Rightarrow> bool" where
  "nonneg_int s \<longleftrightarrow> 0 \<le> s \<and> s = of_int \<lfloor>s\<rfloor>"

lemma nonneg_intI [intro]: "0 \<le> k \<Longrightarrow> nonneg_int (of_int k)"
  by (simp add: nonneg_int_def)

lemma nonneg_intE [elim]:
  assumes "nonneg_int s"
  obtains k where "0 \<le> k" "s = of_int k"
  using assms unfolding nonneg_int_def by (metis zero_le_floor)

lemma nonneg_int_fl [wf_intros]: "nonneg_int s \<Longrightarrow> nonneg_int (fl s)"
  by (metis fl_nonneg fl_of_int_int floor_of_int nonneg_int_def)

lemma nonneg_int_mult [wf_intros]: "nonneg_int s \<Longrightarrow> 0 \<le> a \<Longrightarrow> nonneg_int (s * of_int a)"
  by (erule nonneg_intE) (metis mult_nonneg_nonneg nonneg_intI of_int_mult)

lemma nonneg_int_add [wf_intros]: "nonneg_int s \<Longrightarrow> 0 \<le> a \<Longrightarrow> nonneg_int (s + of_int a)"
  by (erule nonneg_intE) (metis add_nonneg_nonneg nonneg_intI of_int_add)

text \<open>One step of a linear congruential generator over doubles.\<close>

definition lcg_step :: "int \<Rightarrow> int \<Rightarrow> int \<Rightarrow> rat \<Rightarrow> rat" where
  "lcg_step a c m s = js_rem (fl (fl (s * of_int a) + of_int c)) (of_int m)"

lemma lcg_step_range:
  assumes "nonneg_int s" "0 \<le> a" "0 \<le> c" "0 < m"
  shows "\<exists>k. lcg_step a c m s = of_int k \<and> 0 \<le> k \<and> k < m"
proof -
  have "nonneg_int (fl (fl (s * of_int a) + of_int c))"
    using assms by (intro wf_intros)
  then obtain k where "0 \<le> k" "fl (fl (s * of_int a) + of_int c) = of_int k" ..
  then show ?thesis
    using assms(4) by (auto simp: lcg_step_def js_rem_of_int)
qed

lemma lcg_step_exact:
  assumes "0 \<le> k" "0 \<le> a" "0 \<le> c" "0 < m" "k * a + c \<le> 2 ^ 53"
  shows "lcg_step a c m (of_int k) = of_int ((k * a + c) mod m)"
proof -
  have ka: "0 \<le> k * a" using assms by simp
  have 1: "fl (of_int (k * a)) = of_int (k * a)"
    using assms ka by (intro fl_of_int) auto
  have 2: "fl (of_int (k * a + c)) = of_int (k * a + c)"
    using assms ka by (intro fl_of_int) auto
  have "fl (fl (of_int k * of_int a) + of_int c) = of_int (k * a + c)"
    using 1 2 by simp
  then show ?thesis
    unfolding lcg_step_def using assms ka js_rem_of_int [of "k * a + c" m] by simp
qed

lemma lcg_unit:
  assumes "0 \<le> k" "k < m" "m \<le> 2 ^ 40"
  shows "0 \<le> fl (of_int k / of_int m)" "fl (of_int k / of_int m) \<le> 1 - 1 / 2 ^ 53"
proof -
  have m: "0 < m" using assms by linarith
  have x: "0 \<le> (of_int k / of_int m :: rat)" using assms m by simp
  show "0 \<le> fl (of_int k / of_int m)" using x by (rule fl_nonneg)
  have "(of_int k :: rat) \<le> of_int m - 1" using assms(2) by (metis of_int_1 of_int_diff of_int_le_iff zle_diff1_eq)
  then have "(of_int k / of_int m :: rat) \<le> 1 - 1 / of_int m"
    using m by (simp add: field_simps)
  also have "\<dots> \<le> 1 - 1 / 2 ^ 40"
  proof -
    have "(of_int m :: rat) \<le> 2 ^ 40"
      using assms(3) by (metis of_int_le_iff of_int_numeral of_int_power)
    then show ?thesis using m by (simp add: frac_le)
  qed
  finally have up: "(of_int k / of_int m :: rat) \<le> 1 - 1 / 1099511627776" by simp
  have "fl (of_int k / of_int m) \<le> of_int k / of_int m + of_int k / of_int m / 9007199254740992"
    using fl_upper [OF x] by simp
  with up show "fl (of_int k / of_int m) \<le> 1 - 1 / 2 ^ 53" by simp
qed


text \<open>A negative state stays negative or reaches zero: \<open>%\<close> keeps the sign of the dividend.\<close>

lemma lcg_step_negative:
  assumes "k * a + c < 0" "k \<le> 0" "0 \<le> a" "0 \<le> c" "0 < m" "- (2 ^ 53) \<le> k * a"
  shows "lcg_step a c m (of_int k) = - of_int ((- (k * a + c)) mod m)"
proof -
  have ka: "k * a \<le> 0" using assms by (simp add: mult_nonpos_nonneg)
  have 1: "fl (of_int (k * a)) = of_int (k * a)"
    using assms ka by (intro fl_of_int) auto
  have 2: "fl (of_int (k * a + c)) = of_int (k * a + c)"
    using assms ka by (intro fl_of_int) auto
  have "fl (fl (of_int k * of_int a) + of_int c) = of_int (k * a + c)"
    using 1 2 by simp
  then show ?thesis
    unfolding lcg_step_def using assms js_rem_of_int_neg [of "k * a + c" m] by simp
qed

text \<open>Rounding keeps the sign, so a negative draw gives a negative index.\<close>

lemma fl_neg: "x < 0 \<Longrightarrow> fl x < 0"
  using fl_error [of x] by (simp add: abs_le_iff)

lemma rand_index_neg: "r < 0 \<Longrightarrow> 0 < n \<Longrightarrow> rand_index r n < 0"
  unfolding rand_index_def by (simp add: floor_less_iff fl_neg mult_neg_pos)

end
