(* ===== verification/Observable.thy ===== *)
theory Observable
  imports Prelude
begin

text \<open>
  The listener set every engine carries (\<open>Set<(state) => void>\<close>) with \<open>subscribe\<close>,
  \<open>notify\<close> and the \<open>clear\<close> of \<open>destroy\<close>. A listener is an identifier, the set keeps
  insertion order and no duplicates, as a JavaScript \<open>Set\<close> does. Calling a listener is
  recorded in \<open>deliveries\<close> together with the state it is handed, so that what the user
  interface is told becomes part of the state and can be reasoned about.
\<close>

record 'st subject =
  listeners :: "nat list"
  deliveries :: "(nat \<times> 'st) list"

definition new_subject :: "'st subject" where
  "new_subject = \<lparr>listeners = [], deliveries = []\<rparr>"

definition subject_add :: "nat \<Rightarrow> 'st \<Rightarrow> 'st subject \<Rightarrow> 'st subject" where
  "subject_add l st b = b\<lparr>listeners := (if l \<in> set (listeners b) then listeners b else listeners b @ [l]),
     deliveries := deliveries b @ [(l, st)]\<rparr>"

definition subject_remove :: "nat \<Rightarrow> 'st subject \<Rightarrow> 'st subject" where
  "subject_remove l b = b\<lparr>listeners := removeAll l (listeners b)\<rparr>"

definition subject_notify :: "'st \<Rightarrow> 'st subject \<Rightarrow> 'st subject" where
  "subject_notify st b = b\<lparr>deliveries := deliveries b @ map (\<lambda>l. (l, st)) (listeners b)\<rparr>"

definition subject_clear :: "'st subject \<Rightarrow> 'st subject" where
  "subject_clear b = b\<lparr>listeners := []\<rparr>"

definition subject_wf :: "'st subject \<Rightarrow> bool" where
  "subject_wf b \<longleftrightarrow> distinct (listeners b)"

text \<open>What a given listener has been told, in order.\<close>

definition told :: "nat \<Rightarrow> 'st subject \<Rightarrow> 'st list" where
  "told l b = map snd (filter (\<lambda>d. fst d = l) (deliveries b))"

lemma subject_wf_new [simp]: "subject_wf new_subject"
  by (simp add: subject_wf_def new_subject_def)

lemma subject_wf_steps [wf_intros]:
  "subject_wf b \<Longrightarrow> subject_wf (subject_add l st b)"
  "subject_wf b \<Longrightarrow> subject_wf (subject_remove l b)"
  "subject_wf b \<Longrightarrow> subject_wf (subject_notify st b)"
  "subject_wf (subject_clear b)"
  by (auto simp: subject_wf_def subject_add_def subject_remove_def subject_notify_def
      subject_clear_def distinct_removeAll)

lemma listeners_steps [simp]:
  "listeners (subject_notify st b) = listeners b"
  "listeners (subject_clear b) = []"
  "listeners new_subject = []" "deliveries new_subject = []"
  "deliveries (subject_clear b) = deliveries b"
  "deliveries (subject_remove l b) = deliveries b"
  by (simp_all add: subject_notify_def subject_clear_def new_subject_def subject_remove_def)

lemma filter_map_pair:
  "distinct ls \<Longrightarrow> filter (\<lambda>d. fst d = l) (map (\<lambda>l. (l, st)) ls) = (if l \<in> set ls then [(l, st)] else [])"
  by (induction ls) auto

text \<open>Each notification reaches each registered listener once and nobody else.\<close>

lemma told_notify:
  "subject_wf b \<Longrightarrow> told l (subject_notify st b) = told l b @ (if l \<in> set (listeners b) then [st] else [])"
  by (simp add: told_def subject_notify_def subject_wf_def filter_map_pair)

lemma told_add: "told l' (subject_add l st b) = told l' b @ (if l' = l then [st] else [])"
  by (simp add: told_def subject_add_def)

lemma told_quiet [simp]:
  "told l (subject_clear b) = told l b" "told l (subject_remove l' b) = told l b"
  by (simp_all add: told_def)

lemma set_listeners_add [simp]: "set (listeners (subject_add l st b)) = insert l (set (listeners b))"
  by (auto simp: subject_add_def)

lemma deliveries_notify_empty: "listeners b = [] \<Longrightarrow> deliveries (subject_notify st b) = deliveries b"
  by (simp add: subject_notify_def)

end
