(* ===== verification/Puzzle.thy ===== *)
theory Puzzle
  imports RandomSource Observable
begin

text \<open>
  The phrase puzzle: \<open>packages/engine/src/games/PuzzleEngine.ts\<close> and the drag handler of
  \<open>src/features/games/PuzzleGame.tsx\<close>. The phrase is cut into pieces, the pieces are
  shuffled by the engine's own congruential generator until they are out of order, and the
  player moves pieces until they read as the phrase again.
\<close>

section \<open>State\<close>

record puzzle_piece =
  piece_id :: string
  piece_text :: string
  originalIndex :: nat

record puzzle_state =
  pz_phrase :: string
  pz_piecesCount :: int
  pz_pieces :: "puzzle_piece list"
  pz_isFinished :: bool
  pz_score :: int
  pz_moves :: int

record puzzle_engine =
  pz_state :: puzzle_state
  pz_seed :: rat
  pz_subject :: "puzzle_state subject"

section \<open>Operations\<close>

definition puzzle_random :: "rat \<Rightarrow> rat \<times> rat" where
  "puzzle_random seed =
     (let seed' = lcg_step 9301 49297 233280 seed in (fl (seed' / 233280), seed'))"

text \<open>
  The \<open>for\<close> loop that cuts the phrase: the last argument counts the pieces still to make.
\<close>

fun cut_loop :: "string \<Rightarrow> nat \<Rightarrow> int \<Rightarrow> nat \<Rightarrow> nat \<Rightarrow> nat \<Rightarrow> puzzle_piece list" where
  "cut_loop ph base remainder start i 0 = []"
| "cut_loop ph base remainder start i (Suc k) =
     (let len = base + (if remainder > 0 then 1 else 0)
      in \<lparr>piece_id = ''piece-'' @ show_nat i,
          piece_text = substring start (start + len) ph,
          originalIndex = i\<rparr>
         # cut_loop ph base (remainder - 1) (start + len) (Suc i) k)"

definition cut_pieces :: "string \<Rightarrow> nat \<Rightarrow> puzzle_piece list" where
  "cut_pieces ph n = cut_loop ph (length ph div n) (int (length ph mod n)) 0 0 n"

definition solved :: "puzzle_piece list \<Rightarrow> bool" where
  "solved ps = list_all (\<lambda>(i, p). originalIndex p = i) (enumerate 0 ps)"

text \<open>\<open>while (isSolved && maxAttempts > 0)\<close> around the shuffle.\<close>

fun shuffle_attempts :: "nat \<Rightarrow> puzzle_piece list \<Rightarrow> rat \<Rightarrow> (puzzle_piece list \<times> rat) res" where
  "shuffle_attempts 0 ps seed = Inr (ps, seed)"
| "shuffle_attempts (Suc n) ps seed =
     bind_res (shuffle puzzle_random ps seed)
       (\<lambda>(ps', seed'). if solved ps' then shuffle_attempts n ps' seed' else Inr (ps', seed'))"

definition generatePieces :: "puzzle_engine \<Rightarrow> puzzle_engine res" where
  "generatePieces e =
     bind_res (shuffle_attempts 100
         (cut_pieces (pz_phrase (pz_state e)) (nat (pz_piecesCount (pz_state e)))) (pz_seed e))
       (\<lambda>(ps, seed). Inr (e\<lparr>pz_state := (pz_state e)\<lparr>pz_pieces := ps\<rparr>, pz_seed := seed\<rparr>))"

definition puzzle_new :: "string \<Rightarrow> int \<Rightarrow> rat \<Rightarrow> puzzle_engine res" where
  "puzzle_new ph piecesCount seed =
     (if piecesCount < 3 \<or> piecesCount > 20
      then Inl (JsError ''Invalid configuration: pieces must be between 3 and 20'')
      else if ph = [] then Inl (JsError ''Invalid configuration: phrase cannot be empty'')
      else generatePieces
        \<lparr>pz_state = \<lparr>pz_phrase = ph, pz_piecesCount = piecesCount, pz_pieces = [],
           pz_isFinished = False, pz_score = 0, pz_moves = 0\<rparr>,
         pz_seed = seed, pz_subject = new_subject\<rparr>)"

definition puzzle_notify :: "puzzle_engine \<Rightarrow> puzzle_engine" where
  "puzzle_notify e = e\<lparr>pz_subject := subject_notify (pz_state e) (pz_subject e)\<rparr>"

definition checkCompletion :: "puzzle_state \<Rightarrow> puzzle_state" where
  "checkCompletion st =
     (let st = st\<lparr>pz_isFinished := solved (pz_pieces st)\<rparr>
      in if pz_isFinished st
         then (let sc = 1000 - pz_moves st * 10
               in st\<lparr>pz_score := (if sc < 100 then 100 else sc)\<rparr>)
         else st)"

definition reorderPieces :: "int \<Rightarrow> int \<Rightarrow> puzzle_engine \<Rightarrow> puzzle_engine" where
  "reorderPieces fromIndex toIndex e =
     (let st = pz_state e; n = int (length (pz_pieces st))
      in if pz_isFinished st then e
         else if fromIndex < 0 \<or> fromIndex \<ge> n \<or> toIndex < 0 \<or> toIndex \<ge> n then e
         else puzzle_notify
           (e\<lparr>pz_state := checkCompletion
                (st\<lparr>pz_pieces := splice_move (nat fromIndex) (nat toIndex) (pz_pieces st),
                    pz_moves := pz_moves st + 1\<rparr>)\<rparr>))"

definition puzzle_subscribe :: "nat \<Rightarrow> puzzle_engine \<Rightarrow> puzzle_engine" where
  "puzzle_subscribe l e = e\<lparr>pz_subject := subject_add l (pz_state e) (pz_subject e)\<rparr>"

definition puzzle_unsubscribe :: "nat \<Rightarrow> puzzle_engine \<Rightarrow> puzzle_engine" where
  "puzzle_unsubscribe l e = e\<lparr>pz_subject := subject_remove l (pz_subject e)\<rparr>"

definition puzzle_reset :: "puzzle_engine \<Rightarrow> puzzle_engine res" where
  "puzzle_reset e =
     bind_res (generatePieces
         (e\<lparr>pz_state := (pz_state e)\<lparr>pz_moves := 0, pz_score := 0, pz_isFinished := False\<rparr>\<rparr>))
       (\<lambda>e'. Inr (puzzle_notify e'))"

definition puzzle_destroy :: "puzzle_engine \<Rightarrow> puzzle_engine" where
  "puzzle_destroy e = e\<lparr>pz_subject := subject_clear (pz_subject e)\<rparr>"

text \<open>
  The drag handler: \<open>items.findIndex((p, i) => p.id !== newItems[i]?.id)\<close>; a missing entry of
  \<open>newItems\<close> differs from every id.
\<close>

definition diff_index :: "puzzle_piece list \<Rightarrow> puzzle_piece list \<Rightarrow> nat option" where
  "diff_index items newItems =
     find_index (\<lambda>(i, p). \<not> (i < length newItems \<and> piece_id p = piece_id (newItems ! i)))
       (enumerate 0 items)"

definition handleReorder :: "puzzle_piece list \<Rightarrow> puzzle_engine \<Rightarrow> puzzle_engine" where
  "handleReorder newItems e =
     (let items = pz_pieces (pz_state e)
      in case diff_index items newItems of
           None \<Rightarrow> e
         | Some diffIndex \<Rightarrow>
             (case find_index (\<lambda>p. piece_id p = piece_id (items ! diffIndex)) newItems of
                None \<Rightarrow> e
              | Some newIndex \<Rightarrow>
                  if pz_isFinished (pz_state e) then e
                  else reorderPieces (int diffIndex) (int newIndex) e))"

section \<open>Cutting the phrase\<close>

lemma length_cut_loop [simp]: "length (cut_loop ph base r st i k) = k"
  by (induction k arbitrary: r st i) (simp_all add: Let_def)

lemma originalIndex_cut_loop: "map originalIndex (cut_loop ph base r st i k) = [i..<i + k]"
proof (induction k arbitrary: r st i)
  case 0
  then show ?case by simp
next
  case (Suc k)
  show ?case by (simp add: Let_def Suc.IH upt_conv_Cons del: upt_Suc)
qed

lemma text_cut_loop:
  "concat (map piece_text (cut_loop ph base r st i k))
   = take (k * base + min (nat r) k) (drop st ph)"
proof (induction k arbitrary: r st i)
  case 0
  then show ?case by simp
next
  case (Suc k)
  let ?l = "base + (if 0 < r then 1 else 0)"
  have "concat (map piece_text (cut_loop ph base r st i (Suc k)))
      = take ?l (drop st ph) @ take (k * base + min (nat (r - 1)) k) (drop ?l (drop st ph))"
    by (simp add: Let_def Suc.IH substring_def add.commute)
  also have "\<dots> = take (?l + (k * base + min (nat (r - 1)) k)) (drop st ph)"
    by (rule take_add [symmetric])
  also have "?l + (k * base + min (nat (r - 1)) k) = Suc k * base + min (nat r) (Suc k)"
    by (auto simp: min_def)
  finally show ?case .
qed

lemma length_cut_pieces [simp]: "length (cut_pieces ph n) = n"
  by (simp add: cut_pieces_def)

lemma originalIndex_cut_pieces: "map originalIndex (cut_pieces ph n) = [0..<n]"
  by (simp add: cut_pieces_def originalIndex_cut_loop)

lemma text_cut_pieces:
  assumes "0 < n"
  shows "concat (map piece_text (cut_pieces ph n)) = ph"
proof -
  have "length ph mod n < n" using assms by simp
  then have "n * (length ph div n) + min (nat (int (length ph mod n))) n = length ph"
    by (simp add: min_def)
  then show ?thesis by (simp add: cut_pieces_def text_cut_loop)
qed

lemma id_cut_loop:
  "p \<in> set (cut_loop ph base r st i k) \<Longrightarrow> piece_id p = ''piece-'' @ show_nat (originalIndex p)"
  by (induction k arbitrary: r st i) (auto simp: Let_def)

lemma id_cut_pieces: "p \<in> set (cut_pieces ph n) \<Longrightarrow> piece_id p = ''piece-'' @ show_nat (originalIndex p)"
  by (simp add: cut_pieces_def id_cut_loop)


section \<open>The generator\<close>

interpretation puzzle_rng: random_source puzzle_random nonneg_int
proof unfold_locales
  fix s :: rat
  assume s: "nonneg_int s"
  obtain k where k: "lcg_step 9301 49297 233280 s = of_int k" "0 \<le> k" "k < 233280"
    using lcg_step_range [OF s, of 9301 49297 233280] by auto
  then show "nonneg_int (snd (puzzle_random s))"
    by (auto simp: puzzle_random_def Let_def)
  show "0 \<le> fst (puzzle_random s)" "fst (puzzle_random s) \<le> 1 - 1 / 2 ^ 53"
    using k lcg_unit [of k 233280] by (simp_all add: puzzle_random_def Let_def)
qed

lemma shuffle_attempts_total:
  "nonneg_int s \<Longrightarrow> \<exists>ps' s'. shuffle_attempts n ps s = Inr (ps', s') \<and> nonneg_int s' \<and> mset ps' = mset ps"
proof (induction n arbitrary: ps s)
  case 0
  then show ?case by simp
next
  case (Suc n)
  obtain qs t where q: "shuffle puzzle_random ps s = Inr (qs, t)" "nonneg_int t" "mset qs = mset ps"
    using puzzle_rng.shuffle_perm [OF Suc.prems] by blast
  from Suc.IH [OF q(2), of qs] q show ?case by auto
qed

section \<open>Invariant\<close>

definition puzzle_wf :: "puzzle_engine \<Rightarrow> bool" where
  "puzzle_wf e \<longleftrightarrow>
     (let st = pz_state e in
      3 \<le> pz_piecesCount st \<and> pz_piecesCount st \<le> 20 \<and> pz_phrase st \<noteq> []
      \<and> mset (pz_pieces st) = mset (cut_pieces (pz_phrase st) (nat (pz_piecesCount st)))
      \<and> 0 \<le> pz_moves st
      \<and> (if pz_isFinished st
         then solved (pz_pieces st) \<and> pz_score st = max 100 (1000 - 10 * pz_moves st)
         else pz_score st = 0)
      \<and> nonneg_int (pz_seed e) \<and> subject_wf (pz_subject e))"

lemma list_all_enumerate:
  "list_all (\<lambda>(i, p). f p = i) (enumerate k ps) \<longleftrightarrow> map f ps = [k..<k + length ps]"
proof (induction ps arbitrary: k)
  case Nil
  then show ?case by simp
next
  case (Cons p ps)
  then show ?case by (simp add: upt_conv_Cons del: upt_Suc)
qed

lemma solved_iff: "solved ps \<longleftrightarrow> map originalIndex ps = [0..<length ps]"
  by (simp add: solved_def list_all_enumerate)

lemma pieces_length:
  "mset ps = mset (cut_pieces ph n) \<Longrightarrow> length ps = n"
  by (metis length_cut_pieces mset_eq_length)

lemma pieces_originalIndex:
  "mset ps = mset (cut_pieces ph n) \<Longrightarrow> mset (map originalIndex ps) = mset [0..<n]"
  by (metis mset_map originalIndex_cut_pieces)

lemma inj_originalIndex: "inj_on originalIndex (set (cut_pieces ph n))"
proof -
  have "distinct (map originalIndex (cut_pieces ph n))"
    by (simp add: originalIndex_cut_pieces)
  then show ?thesis by (simp add: distinct_map)
qed

lemma solved_unique:
  assumes "mset ps = mset (cut_pieces ph n)" "solved ps"
  shows "ps = cut_pieces ph n"
proof (rule inj_on_map_eq_map [THEN iffD1])
  show "map originalIndex ps = map originalIndex (cut_pieces ph n)"
    using assms pieces_length [OF assms(1)] by (simp add: solved_iff originalIndex_cut_pieces)
  show "inj_on originalIndex (set ps \<union> set (cut_pieces ph n))"
    using inj_originalIndex assms(1) by (metis mset_eq_setD sup.idem)
qed

lemma wf_generatePieces:
  assumes "3 \<le> pz_piecesCount (pz_state e)" "pz_piecesCount (pz_state e) \<le> 20"
    "pz_phrase (pz_state e) \<noteq> []" "0 \<le> pz_moves (pz_state e)"
    "\<not> pz_isFinished (pz_state e)" "pz_score (pz_state e) = 0"
    "nonneg_int (pz_seed e)" "subject_wf (pz_subject e)"
  shows "\<exists>e'. generatePieces e = Inr e' \<and> puzzle_wf e' \<and> pz_subject e' = pz_subject e
    \<and> (\<exists>ps. pz_state e' = (pz_state e)\<lparr>pz_pieces := ps\<rparr>)"
proof -
  let ?cut = "cut_pieces (pz_phrase (pz_state e)) (nat (pz_piecesCount (pz_state e)))"
  obtain ps s where r: "shuffle_attempts 100 ?cut (pz_seed e) = Inr (ps, s)" "nonneg_int s"
      "mset ps = mset ?cut"
    using shuffle_attempts_total [OF assms(7)] by blast
  let ?e = "e\<lparr>pz_state := (pz_state e)\<lparr>pz_pieces := ps\<rparr>, pz_seed := s\<rparr>"
  have "generatePieces e = Inr ?e" by (simp add: generatePieces_def r(1))
  moreover have "puzzle_wf ?e"
    using assms r(2,3) by (simp add: puzzle_wf_def)
  moreover have "pz_subject ?e = pz_subject e" "pz_state ?e = (pz_state e)\<lparr>pz_pieces := ps\<rparr>"
    by simp_all
  ultimately show ?thesis by blast
qed

lemma wf_puzzle_new:
  assumes "3 \<le> n" "n \<le> 20" "ph \<noteq> []" "nonneg_int seed"
  shows "\<exists>e. puzzle_new ph n seed = Inr e \<and> puzzle_wf e \<and> pz_phrase (pz_state e) = ph
    \<and> pz_piecesCount (pz_state e) = n \<and> \<not> pz_isFinished (pz_state e) \<and> pz_moves (pz_state e) = 0"
  using assms wf_generatePieces [of "\<lparr>pz_state = \<lparr>pz_phrase = ph, pz_piecesCount = n, pz_pieces = [],
           pz_isFinished = False, pz_score = 0, pz_moves = 0\<rparr>, pz_seed = seed, pz_subject = new_subject\<rparr>"]
  by (auto simp: puzzle_new_def)

lemma wf_puzzle_reset:
  assumes "puzzle_wf e"
  shows "\<exists>e'. puzzle_reset e = Inr e' \<and> puzzle_wf e' \<and> \<not> pz_isFinished (pz_state e')
    \<and> pz_moves (pz_state e') = 0 \<and> pz_score (pz_state e') = 0
    \<and> pz_phrase (pz_state e') = pz_phrase (pz_state e)"
proof -
  let ?e = "e\<lparr>pz_state := (pz_state e)\<lparr>pz_moves := 0, pz_score := 0, pz_isFinished := False\<rparr>\<rparr>"
  obtain e' ps where e': "generatePieces ?e = Inr e'" "puzzle_wf e'"
      "pz_state e' = (pz_state ?e)\<lparr>pz_pieces := ps\<rparr>"
    using wf_generatePieces [of ?e] assms by (auto simp: puzzle_wf_def Let_def)
  have "puzzle_wf (puzzle_notify e')"
    using e'(2) by (auto simp: puzzle_wf_def puzzle_notify_def Let_def intro: wf_intros)
  with e' show ?thesis by (simp add: puzzle_reset_def puzzle_notify_def)
qed

lemma wf_checkCompletion:
  "pz_score st = 0 \<Longrightarrow>
   (if pz_isFinished (checkCompletion st)
    then solved (pz_pieces st) \<and> pz_score (checkCompletion st) = max 100 (1000 - 10 * pz_moves st)
    else pz_score (checkCompletion st) = 0)"
  by (auto simp: checkCompletion_def Let_def)

lemma checkCompletion_frame [simp]:
  "pz_phrase (checkCompletion st) = pz_phrase st"
  "pz_piecesCount (checkCompletion st) = pz_piecesCount st"
  "pz_pieces (checkCompletion st) = pz_pieces st"
  "pz_moves (checkCompletion st) = pz_moves st"
  "pz_isFinished (checkCompletion st) = solved (pz_pieces st)"
  by (auto simp: checkCompletion_def Let_def)

lemma wf_reorderPieces: "puzzle_wf e \<Longrightarrow> puzzle_wf (reorderPieces i j e)"
  using wf_checkCompletion [of "(pz_state e)\<lparr>pz_pieces := splice_move (nat i) (nat j) (pz_pieces (pz_state e)),
      pz_moves := pz_moves (pz_state e) + 1\<rparr>"]
  by (auto simp: puzzle_wf_def reorderPieces_def puzzle_notify_def Let_def intro: wf_intros)

lemma wf_puzzle_listeners:
  "puzzle_wf e \<Longrightarrow> puzzle_wf (puzzle_subscribe l e)"
  "puzzle_wf e \<Longrightarrow> puzzle_wf (puzzle_unsubscribe l e)"
  "puzzle_wf e \<Longrightarrow> puzzle_wf (puzzle_destroy e)"
  by (auto simp: puzzle_wf_def puzzle_subscribe_def puzzle_unsubscribe_def puzzle_destroy_def Let_def
      intro: wf_intros)

lemma wf_handleReorder: "puzzle_wf e \<Longrightarrow> puzzle_wf (handleReorder ni e)"
  by (auto simp: handleReorder_def Let_def wf_reorderPieces split: option.splits)


section \<open>Solving\<close>

text \<open>The first \<open>k\<close> pieces are in place.\<close>

definition placed_prefix :: "nat \<Rightarrow> puzzle_piece list \<Rightarrow> bool" where
  "placed_prefix k ps \<longleftrightarrow> (\<forall>i < k. originalIndex (ps ! i) = i)"

lemma splice_move_back:
  assumes "k \<le> j" "j < length xs"
  shows "splice_move j k xs = take k xs @ xs ! j # drop k (remove_at j xs)"
  using assms by (simp add: splice_move_def insert_at_def remove_at_def min_def)

lemma nth_splice_move_back:
  assumes "k \<le> j" "j < length xs" "i \<le> k"
  shows "splice_move j k xs ! i = (if i = k then xs ! j else xs ! i)"
  using assms by (simp add: splice_move_back nth_append min_def)

lemma next_piece_exists:
  assumes m: "mset ps = mset (cut_pieces ph n)" and k: "k < n" and g: "placed_prefix k ps"
  shows "\<exists>j. k \<le> j \<and> j < n \<and> originalIndex (ps ! j) = k"
proof -
  have "k \<in> set (map originalIndex ps)"
    using pieces_originalIndex [OF m] k by (metis atLeastLessThan_iff mset_eq_setD set_upt zero_le)
  then obtain j where j: "j < length ps" "originalIndex (ps ! j) = k"
    by (auto simp: in_set_conv_nth)
  have "\<not> j < k" using g j(2) by (auto simp: placed_prefix_def)
  then show ?thesis using j pieces_length [OF m] by (intro exI [of _ j]) auto
qed

lemma placed_prefix_solved:
  "length ps = n \<Longrightarrow> placed_prefix n ps \<Longrightarrow> solved ps"
  by (simp add: solved_iff placed_prefix_def list_eq_iff_nth_eq)

lemma reorder_state:
  assumes "\<not> pz_isFinished (pz_state e)" "i < length (pz_pieces (pz_state e))"
    "j < length (pz_pieces (pz_state e))"
  shows "pz_pieces (pz_state (reorderPieces (int i) (int j) e)) = splice_move i j (pz_pieces (pz_state e))"
    "pz_isFinished (pz_state (reorderPieces (int i) (int j) e))
       = solved (splice_move i j (pz_pieces (pz_state e)))"
    "pz_moves (pz_state (reorderPieces (int i) (int j) e)) = pz_moves (pz_state e) + 1"
  using assms by (simp_all add: reorderPieces_def puzzle_notify_def Let_def)

lemma reorder_frame [simp]:
  "pz_phrase (pz_state (reorderPieces i j e)) = pz_phrase (pz_state e)"
  "pz_piecesCount (pz_state (reorderPieces i j e)) = pz_piecesCount (pz_state e)"
  by (simp_all add: reorderPieces_def puzzle_notify_def Let_def)

definition reorder_all :: "(int \<times> int) list \<Rightarrow> puzzle_engine \<Rightarrow> puzzle_engine" where
  "reorder_all ms e = fold (\<lambda>(i, j). reorderPieces i j) ms e"

lemma solve_from:
  assumes "puzzle_wf e" "\<not> pz_isFinished (pz_state e)" "placed_prefix k (pz_pieces (pz_state e))"
    "k < nat (pz_piecesCount (pz_state e))"
  shows "\<exists>ms. length ms \<le> nat (pz_piecesCount (pz_state e)) - k
    \<and> pz_isFinished (pz_state (reorder_all ms e))"
  using assms
proof (induction "nat (pz_piecesCount (pz_state e)) - k" arbitrary: e k rule: less_induct)
  case less
  let ?n = "nat (pz_piecesCount (pz_state e))" and ?ps = "pz_pieces (pz_state e)"
  have m: "mset ?ps = mset (cut_pieces (pz_phrase (pz_state e)) ?n)"
    using less.prems(1) by (simp add: puzzle_wf_def Let_def)
  obtain j where j: "k \<le> j" "j < ?n" "originalIndex (?ps ! j) = k"
    using next_piece_exists [OF m less.prems(4,3)] by blast
  have len: "length ?ps = ?n" by (rule pieces_length [OF m])
  let ?e = "reorderPieces (int j) (int k) e"
  have st: "pz_pieces (pz_state ?e) = splice_move j k ?ps"
    "pz_isFinished (pz_state ?e) = solved (splice_move j k ?ps)"
    using reorder_state [of e j k] less.prems(2,4) j len by auto
  have pre: "placed_prefix (Suc k) (splice_move j k ?ps)"
    using less.prems(3) j len nth_splice_move_back [OF j(1), of ?ps]
    by (auto simp: placed_prefix_def less_Suc_eq_le)
  show ?case
  proof (cases "pz_isFinished (pz_state ?e)")
    case True
    then have "pz_isFinished (pz_state (reorder_all [(int j, int k)] e))"
      by (simp add: reorder_all_def)
    then show ?thesis using less.prems(4) by (intro exI [of _ "[(int j, int k)]"]) simp
  next
    case False
    have "Suc k \<noteq> ?n"
      using False pre st len j placed_prefix_solved [of "splice_move j k ?ps" ?n] by auto
    then have k': "Suc k < ?n" using less.prems(4) by simp
    then have "?n - Suc k < ?n - k" by arith
    then obtain ms where "length ms \<le> ?n - Suc k" "pz_isFinished (pz_state (reorder_all ms ?e))"
      using k' less.hyps [of ?e "Suc k"] wf_reorderPieces [OF less.prems(1), of "int j" "int k"] False pre st
      by auto
    then show ?thesis using k'
      by (intro exI [of _ "(int j, int k) # ms"]) (simp add: reorder_all_def)
  qed
qed

section \<open>The drag handler\<close>

lemma splice_move_forward:
  assumes "i < j" "j < length xs"
  shows "splice_move i j xs = take i xs @ take (j - i) (drop (Suc i) xs) @ xs ! i # drop (Suc j) xs"
  using assms
  by (simp add: splice_move_def insert_at_def remove_at_def min_def)

lemma nth_splice_move_forward:
  assumes "i < j" "j < length xs" "k < length xs"
  shows "splice_move i j xs ! k =
    (if k < i then xs ! k else if k < j then xs ! Suc k else if k = j then xs ! i else xs ! k)"
  using assms by (auto simp: splice_move_forward nth_append min_def nth_Cons')

lemma ids_inj:
  assumes m: "mset ps = mset (cut_pieces ph n)" and "a < n" "b < n"
    and "piece_id (ps ! a) = piece_id (ps ! b)"
  shows "a = b"
proof -
  have len: "length ps = n" by (rule pieces_length [OF m])
  have d: "distinct (map originalIndex ps)"
    using pieces_originalIndex [OF m] by (metis distinct_upt mset_eq_imp_distinct_iff)
  have "\<forall>p \<in> set ps. piece_id p = ''piece-'' @ show_nat (originalIndex p)"
    using id_cut_pieces m by (metis mset_eq_setD)
  then have "originalIndex (ps ! a) = originalIndex (ps ! b)"
    using assms len by simp
  then show ?thesis using d assms len by (metis length_map nth_eq_iff_index_eq nth_map)
qed


lemma splice_move_self [simp]: "i < length xs \<Longrightarrow> splice_move i i xs = xs"
  by (simp add: splice_move_def insert_at_def remove_at_def min_def id_take_nth_drop [symmetric])

lemma diff_index_forward:
  assumes m: "mset ps = mset (cut_pieces ph n)" and ij: "i < j" "j < n"
  shows "diff_index ps (splice_move i j ps) = Some i"
    and "find_index (\<lambda>p. piece_id p = piece_id (ps ! i)) (splice_move i j ps) = Some j"
proof -
  have len: "length ps = n" by (rule pieces_length [OF m])
  let ?q = "splice_move i j ps"
  have lq: "length ?q = n" using ij len by simp
  show "diff_index ps ?q = Some i"
    unfolding diff_index_def
  proof (rule find_index_first)
    show "i < length (enumerate 0 ps)" using ij len by simp
    have "piece_id (ps ! i) \<noteq> piece_id (?q ! i)"
      using ij len nth_splice_move_forward [of i j ps i] ids_inj [OF m, of i "Suc i"]
      by (cases "Suc i = j") auto
    then show "case enumerate 0 ps ! i of (i, p) \<Rightarrow> \<not> (i < length ?q \<and> piece_id p = piece_id (?q ! i))"
      using ij len by (simp add: nth_enumerate_eq)
    fix k assume "k < i"
    then show "\<not> (case enumerate 0 ps ! k of (i, p) \<Rightarrow> \<not> (i < length ?q \<and> piece_id p = piece_id (?q ! i)))"
      using ij len by (simp add: nth_enumerate_eq nth_splice_move_forward)
  qed
  show "find_index (\<lambda>p. piece_id p = piece_id (ps ! i)) ?q = Some j"
  proof (rule find_index_first)
    show "j < length ?q" using ij lq by simp
    show "piece_id (?q ! j) = piece_id (ps ! i)"
      using ij len by (simp add: nth_splice_move_forward)
    fix k assume k: "k < j"
    then have "?q ! k = ps ! (if k < i then k else Suc k)"
      using ij len by (simp add: nth_splice_move_forward)
    then show "piece_id (?q ! k) \<noteq> piece_id (ps ! i)"
      using ids_inj [OF m, of "if k < i then k else Suc k" i] k ij by (auto split: if_splits)
  qed
qed

section \<open>Playing\<close>

datatype puzzle_op = PzMove int int | PzDrag "puzzle_piece list" | PzReset

fun puzzle_do :: "puzzle_op \<Rightarrow> puzzle_engine \<Rightarrow> puzzle_engine res" where
  "puzzle_do (PzMove i j) e = Inr (reorderPieces i j e)"
| "puzzle_do (PzDrag newItems) e = Inr (handleReorder newItems e)"
| "puzzle_do PzReset e = puzzle_reset e"

fun puzzle_play :: "puzzle_op list \<Rightarrow> puzzle_engine \<Rightarrow> puzzle_engine res" where
  "puzzle_play [] e = Inr e"
| "puzzle_play (k # ks) e = bind_res (puzzle_do k e) (puzzle_play ks)"

text \<open>The operations since the last reset.\<close>

definition since_reset :: "puzzle_op list \<Rightarrow> puzzle_op list" where
  "since_reset ks = rev (takeWhile (\<lambda>k. k \<noteq> PzReset) (rev ks))"

lemma since_reset_simps [simp]:
  "since_reset [] = []" "since_reset (ks @ [PzReset]) = []"
  "k \<noteq> PzReset \<Longrightarrow> since_reset (ks @ [k]) = since_reset ks @ [k]"
  by (simp_all add: since_reset_def)

lemma puzzle_play_snoc: "puzzle_play (ks @ [k]) e = bind_res (puzzle_play ks e) (puzzle_do k)"
proof (induction ks arbitrary: e)
  case Nil
  then show ?case by (cases "puzzle_do k e") simp_all
next
  case (Cons a ks)
  then show ?case by (cases "puzzle_do a e") simp_all
qed

text \<open>What holds of the game with \<open>m\<close> operations since its last reset.\<close>

definition puzzle_ok :: "string \<Rightarrow> int \<Rightarrow> nat \<Rightarrow> puzzle_engine \<Rightarrow> bool" where
  "puzzle_ok ph n m e \<longleftrightarrow> puzzle_wf e \<and> pz_phrase (pz_state e) = ph \<and> pz_piecesCount (pz_state e) = n
     \<and> pz_moves (pz_state e) \<le> int m
     \<and> (pz_isFinished (pz_state e) \<longleftrightarrow> 0 < pz_moves (pz_state e) \<and> solved (pz_pieces (pz_state e)))"

text \<open>One move: in range and before the end it counts, otherwise nothing happens.\<close>

definition movable :: "int \<Rightarrow> int \<Rightarrow> puzzle_engine \<Rightarrow> bool" where
  "movable i j e \<longleftrightarrow> \<not> pz_isFinished (pz_state e) \<and> 0 \<le> i \<and> i < int (length (pz_pieces (pz_state e)))
     \<and> 0 \<le> j \<and> j < int (length (pz_pieces (pz_state e)))"

lemma reorder_exact:
  "pz_pieces (pz_state (reorderPieces i j e)) =
     (if movable i j e then splice_move (nat i) (nat j) (pz_pieces (pz_state e)) else pz_pieces (pz_state e))"
  "pz_moves (pz_state (reorderPieces i j e)) = pz_moves (pz_state e) + (if movable i j e then 1 else 0)"
  "pz_isFinished (pz_state (reorderPieces i j e)) =
     (if movable i j e then solved (splice_move (nat i) (nat j) (pz_pieces (pz_state e))) else pz_isFinished (pz_state e))"
  by (auto simp: reorderPieces_def movable_def puzzle_notify_def Let_def)

lemma puzzle_ok_reorder: "puzzle_ok ph n m e \<Longrightarrow> puzzle_ok ph n (Suc m) (reorderPieces i j e)"
  using wf_reorderPieces [of e i j] by (auto simp: puzzle_ok_def reorder_exact puzzle_wf_def Let_def)

lemma puzzle_ok_more: "puzzle_ok ph n m e \<Longrightarrow> puzzle_ok ph n (Suc m) e"
  by (auto simp: puzzle_ok_def)

lemma handleReorder_moves: "handleReorder newItems e = e \<or> (\<exists>i j. handleReorder newItems e = reorderPieces i j e)"
  by (auto simp: handleReorder_def Let_def split: option.splits)

lemma generatePieces_frame:
  "generatePieces e = Inr e' \<Longrightarrow> pz_phrase (pz_state e') = pz_phrase (pz_state e)
     \<and> pz_piecesCount (pz_state e') = pz_piecesCount (pz_state e)"
  by (auto simp: generatePieces_def bind_res_eq_Inr)

lemma puzzle_ok_do:
  assumes "puzzle_ok ph n (length (since_reset ks)) e"
  shows "\<exists>e'. puzzle_do k e = Inr e' \<and> puzzle_ok ph n (length (since_reset (ks @ [k]))) e'"
proof (cases k)
  case (PzMove i j)
  then show ?thesis using puzzle_ok_reorder [OF assms] by simp
next
  case (PzDrag newItems)
  then show ?thesis
    using handleReorder_moves [of newItems e] puzzle_ok_reorder [OF assms] puzzle_ok_more [OF assms] by auto
next
  case PzReset
  have wf: "puzzle_wf e" using assms by (simp add: puzzle_ok_def)
  obtain e' where e': "puzzle_reset e = Inr e'" "puzzle_wf e'" "\<not> pz_isFinished (pz_state e')"
      "pz_moves (pz_state e') = 0" "pz_phrase (pz_state e') = pz_phrase (pz_state e)"
    using wf_puzzle_reset [OF wf] by blast
  moreover have "pz_piecesCount (pz_state e') = pz_piecesCount (pz_state e)"
    using e'(1) by (auto simp: puzzle_reset_def bind_res_eq_Inr puzzle_notify_def dest!: generatePieces_frame)
  ultimately show ?thesis using PzReset assms by (simp add: puzzle_ok_def)
qed

lemma puzzle_ok_play:
  assumes "puzzle_ok ph n 0 e0"
  shows "\<exists>e. puzzle_play ks e0 = Inr e \<and> puzzle_ok ph n (length (since_reset ks)) e"
proof (induction ks rule: rev_induct)
  case Nil
  then show ?case using assms by simp
next
  case (snoc k ks)
  then obtain e where "puzzle_play ks e0 = Inr e" "puzzle_ok ph n (length (since_reset ks)) e" by blast
  then show ?case using puzzle_ok_do [of ph n ks e k] by (auto simp: puzzle_play_snoc)
qed

section \<open>Properties\<close>

text \<open>The constructor accepts every phrase and piece count the schema allows, with any
  nonnegative seed of any size: it returns an engine that satisfies the invariant, whose pieces
  are a permutation of the phrase cut into the requested number of pieces.\<close>

theorem puzzle_new_ok:
  assumes "3 \<le> n" "n \<le> 20" "ph \<noteq> []" "nonneg_int seed"
  shows "\<exists>e. puzzle_new ph n seed = Inr e \<and> puzzle_wf e
    \<and> mset (pz_pieces (pz_state e)) = mset (cut_pieces ph (nat n))
    \<and> concat (map piece_text (cut_pieces ph (nat n))) = ph
    \<and> \<not> pz_isFinished (pz_state e) \<and> pz_moves (pz_state e) = 0"
proof -
  obtain e where e: "puzzle_new ph n seed = Inr e" "puzzle_wf e" "pz_phrase (pz_state e) = ph"
    "pz_piecesCount (pz_state e) = n" "\<not> pz_isFinished (pz_state e)" "pz_moves (pz_state e) = 0"
    using wf_puzzle_new [OF assms] by blast
  have "concat (map piece_text (cut_pieces ph (nat n))) = ph"
    using assms by (intro text_cut_pieces) simp
  with e show ?thesis by (intro exI [of _ e]) (simp add: puzzle_wf_def Let_def)
qed

theorem puzzle_new_ok_witness:
  "\<exists>e. puzzle_new ''hola mundo'' 4 123 = Inr e \<and> puzzle_wf e
    \<and> mset (pz_pieces (pz_state e)) = mset (cut_pieces ''hola mundo'' (nat 4))
    \<and> concat (map piece_text (cut_pieces ''hola mundo'' (nat 4))) = ''hola mundo''
    \<and> \<not> pz_isFinished (pz_state e) \<and> pz_moves (pz_state e) = 0"
  by (rule puzzle_new_ok) (simp_all add: nonneg_int_def)

text \<open>The constructor throws exactly on the configurations its guards name, the piece count
  being checked before the phrase.\<close>

theorem puzzle_new_rejects:
  "nonneg_int seed \<Longrightarrow>
   (\<exists>e. puzzle_new ph n seed = Inr e) \<longleftrightarrow> 3 \<le> n \<and> n \<le> 20 \<and> ph \<noteq> []"
  using wf_puzzle_new [of n ph seed] by (auto simp: puzzle_new_def split: if_splits)

theorem puzzle_new_rejects_witness:
  "(\<exists>e. puzzle_new ''abc'' 2 7 = Inr e) \<longleftrightarrow> (3 :: int) \<le> 2 \<and> (2 :: int) \<le> 20 \<and> ''abc'' \<noteq> []"
  by (rule puzzle_new_rejects) (simp add: nonneg_int_def)

text \<open>Every operation of the engine and the drag handler keep the invariant: the pieces stay a
  permutation of the cut phrase, a finished puzzle is in order with the score of its move count,
  an unfinished one has score 0.\<close>

theorem puzzle_operations_wf:
  assumes "puzzle_wf e"
  shows "puzzle_wf (reorderPieces i j e) \<and> puzzle_wf (handleReorder ni e)
    \<and> puzzle_wf (puzzle_subscribe l e) \<and> puzzle_wf (puzzle_unsubscribe l e)
    \<and> puzzle_wf (puzzle_destroy e) \<and> (\<exists>e'. puzzle_reset e = Inr e' \<and> puzzle_wf e')"
proof -
  have "\<exists>e'. puzzle_reset e = Inr e' \<and> puzzle_wf e'"
    using wf_puzzle_reset [OF assms] by blast
  then show ?thesis
    using assms by (simp add: wf_reorderPieces wf_handleReorder wf_puzzle_listeners)
qed

text \<open>A concrete engine for the witnesses: three pieces, the first two exchanged.\<close>

definition sample_puzzle :: puzzle_engine where
  "sample_puzzle = \<lparr>pz_state = \<lparr>pz_phrase = ''abc'', pz_piecesCount = 3,
      pz_pieces = splice_move 1 0 (cut_pieces ''abc'' 3),
      pz_isFinished = False, pz_score = 0, pz_moves = 0\<rparr>,
    pz_seed = 5, pz_subject = new_subject\<rparr>"

lemma sample_puzzle_wf: "puzzle_wf sample_puzzle"
  by (simp add: sample_puzzle_def puzzle_wf_def nonneg_int_def)

theorem puzzle_operations_wf_witness:
  "puzzle_wf (reorderPieces 0 1 sample_puzzle) \<and> puzzle_wf (handleReorder [] sample_puzzle)
    \<and> puzzle_wf (puzzle_subscribe 1 sample_puzzle) \<and> puzzle_wf (puzzle_unsubscribe 1 sample_puzzle)
    \<and> puzzle_wf (puzzle_destroy sample_puzzle)
    \<and> (\<exists>e'. puzzle_reset sample_puzzle = Inr e' \<and> puzzle_wf e')"
  by (rule puzzle_operations_wf) (rule sample_puzzle_wf)

text \<open>C24: A puzzle that is played, by any moves (in range or not), drags and resets, from any phrase, piece
  count from 3 to 20 and nonnegative integer seed: nothing fails, the pieces stay a permutation of the cut phrase, the
  game is finished exactly when a move has been made since the last reset and the pieces are in order; then they read
  as the phrase from left to right and the score is 1000 less ten per move, never under 100; before
  that the score is 0. A move between two positions of an unfinished board takes the piece there and counts one; any other
  changes neither pieces nor moves, and there are never more moves than operations since the reset.\<close>

theorem puzzle_finished_reads_phrase:
  assumes "3 \<le> n" "n \<le> 20" "ph \<noteq> []" "nonneg_int seed"
  shows "\<exists>e. bind_res (puzzle_new ph n seed) (puzzle_play ks) = Inr e
    \<and> mset (pz_pieces (pz_state e)) = mset (cut_pieces ph (nat n))
    \<and> (pz_isFinished (pz_state e) \<longleftrightarrow>
         0 < pz_moves (pz_state e) \<and> map originalIndex (pz_pieces (pz_state e)) = [0..<nat n])
    \<and> (pz_isFinished (pz_state e) \<longrightarrow> concat (map piece_text (pz_pieces (pz_state e))) = ph)
    \<and> pz_score (pz_state e) = (if pz_isFinished (pz_state e) then max 100 (1000 - 10 * pz_moves (pz_state e)) else 0)
    \<and> 0 \<le> pz_moves (pz_state e) \<and> pz_moves (pz_state e) \<le> int (length (since_reset ks))
    \<and> (\<forall>i j. if \<not> pz_isFinished (pz_state e) \<and> i \<in> {0..<n} \<and> j \<in> {0..<n}
        then pz_pieces (pz_state (reorderPieces i j e)) = splice_move (nat i) (nat j) (pz_pieces (pz_state e))
           \<and> pz_moves (pz_state (reorderPieces i j e)) = pz_moves (pz_state e) + 1
        else pz_pieces (pz_state (reorderPieces i j e)) = pz_pieces (pz_state e)
           \<and> pz_moves (pz_state (reorderPieces i j e)) = pz_moves (pz_state e))"
proof -
  obtain e0 where e0: "puzzle_new ph n seed = Inr e0" "puzzle_wf e0" "pz_phrase (pz_state e0) = ph"
      "pz_piecesCount (pz_state e0) = n" "\<not> pz_isFinished (pz_state e0)" "pz_moves (pz_state e0) = 0"
    using wf_puzzle_new [OF assms] by blast
  then obtain e where e: "puzzle_play ks e0 = Inr e" "puzzle_ok ph n (length (since_reset ks)) e"
    using puzzle_ok_play [of ph n e0 ks] by (auto simp: puzzle_ok_def)
  let ?ps = "pz_pieces (pz_state e)"
  have m: "mset ?ps = mset (cut_pieces ph (nat n))" using e(2) by (simp add: puzzle_ok_def puzzle_wf_def Let_def)
  have len: "length ?ps = nat n" by (rule pieces_length [OF m])
  have "concat (map piece_text ?ps) = ph" if "solved ?ps"
    unfolding solved_unique [OF m that] using assms(1) by (intro text_cut_pieces) simp
  then have "(pz_isFinished (pz_state e) \<longleftrightarrow> 0 < pz_moves (pz_state e) \<and> map originalIndex ?ps = [0..<nat n])
      \<and> (pz_isFinished (pz_state e) \<longrightarrow> concat (map piece_text ?ps) = ph)
      \<and> pz_score (pz_state e) = (if pz_isFinished (pz_state e) then max 100 (1000 - 10 * pz_moves (pz_state e)) else 0)
      \<and> 0 \<le> pz_moves (pz_state e) \<and> pz_moves (pz_state e) \<le> int (length (since_reset ks))"
    using e(2) by (auto simp: puzzle_ok_def puzzle_wf_def Let_def solved_iff len)
  moreover have "if \<not> pz_isFinished (pz_state e) \<and> i \<in> {0..<n} \<and> j \<in> {0..<n}
        then pz_pieces (pz_state (reorderPieces i j e)) = splice_move (nat i) (nat j) ?ps
           \<and> pz_moves (pz_state (reorderPieces i j e)) = pz_moves (pz_state e) + 1
        else pz_pieces (pz_state (reorderPieces i j e)) = ?ps
           \<and> pz_moves (pz_state (reorderPieces i j e)) = pz_moves (pz_state e)" for i j
  proof -
    have "movable i j e \<longleftrightarrow> \<not> pz_isFinished (pz_state e) \<and> i \<in> {0..<n} \<and> j \<in> {0..<n}"
      using len assms(1) by (auto simp: movable_def)
    then show ?thesis by (simp add: reorder_exact)
  qed
  moreover have "bind_res (puzzle_new ph n seed) (puzzle_play ks) = Inr e" using e0(1) e(1) by simp
  ultimately show ?thesis using m by blast
qed

theorem puzzle_finished_reads_phrase_witness:
  "\<exists>e. bind_res (puzzle_new ''hola mundo'' 3 123) (puzzle_play [PzMove 0 1, PzReset, PzMove 2 0]) = Inr e
    \<and> mset (pz_pieces (pz_state e)) = mset (cut_pieces ''hola mundo'' (nat 3)) \<and> pz_moves (pz_state e) \<le> 1"
  using puzzle_finished_reads_phrase [of 3 "''hola mundo''" 123 "[PzMove 0 1, PzReset, PzMove 2 0]"]
  by (auto simp: nonneg_int_def since_reset_def)

text \<open>Every unfinished puzzle can be finished: some sequence of at most as many moves as there
  are pieces ends the game, whatever the shuffle produced.\<close>

theorem puzzle_solvable:
  assumes "puzzle_wf e" "\<not> pz_isFinished (pz_state e)"
  shows "\<exists>ms. length ms \<le> nat (pz_piecesCount (pz_state e))
    \<and> pz_isFinished (pz_state (reorder_all ms e))"
  using solve_from [of e 0] assms by (auto simp: puzzle_wf_def Let_def placed_prefix_def)

theorem puzzle_solvable_witness:
  "\<exists>ms. length ms \<le> nat (pz_piecesCount (pz_state sample_puzzle))
    \<and> pz_isFinished (pz_state (reorder_all ms sample_puzzle))"
  by (rule puzzle_solvable [OF sample_puzzle_wf]) (simp add: sample_puzzle_def)

text \<open>Dragging a piece to the right is carried out exactly: when the list the drag library
  reports is the current order with one piece moved from \<open>i\<close> to a later position \<open>j\<close>, the
  handler leaves the engine in precisely that order and counts one move.\<close>

theorem handleReorder_forward:
  assumes "puzzle_wf e" "\<not> pz_isFinished (pz_state e)" "i < j"
    "j < length (pz_pieces (pz_state e))"
  shows "pz_pieces (pz_state (handleReorder (splice_move i j (pz_pieces (pz_state e))) e))
       = splice_move i j (pz_pieces (pz_state e))
    \<and> pz_moves (pz_state (handleReorder (splice_move i j (pz_pieces (pz_state e))) e))
       = pz_moves (pz_state e) + 1"
proof -
  let ?ps = "pz_pieces (pz_state e)" and ?n = "nat (pz_piecesCount (pz_state e))"
  have m: "mset ?ps = mset (cut_pieces (pz_phrase (pz_state e)) ?n)"
    using assms(1) by (simp add: puzzle_wf_def Let_def)
  have jn: "j < ?n" using assms(4) pieces_length [OF m] by simp
  have "handleReorder (splice_move i j ?ps) e = reorderPieces (int i) (int j) e"
    using diff_index_forward [OF m assms(3) jn] assms(2) by (simp add: handleReorder_def Let_def)
  then show ?thesis using reorder_state [of e i j] assms by simp
qed

theorem handleReorder_forward_witness:
  "pz_pieces (pz_state (handleReorder (splice_move 0 1 (pz_pieces (pz_state sample_puzzle))) sample_puzzle))
       = splice_move 0 1 (pz_pieces (pz_state sample_puzzle))
    \<and> pz_moves (pz_state (handleReorder (splice_move 0 1 (pz_pieces (pz_state sample_puzzle))) sample_puzzle))
       = pz_moves (pz_state sample_puzzle) + 1"
  by (rule handleReorder_forward [OF sample_puzzle_wf]) (simp_all add: sample_puzzle_def)

text \<open>A negative seed breaks the shuffle: for an integer seed below -5 whose first congruential
  step is not a multiple of the modulus, the first draw is negative, the swap index falls outside
  the array and the pieces would hold \<open>undefined\<close>, although the schema accepts any integer seed.\<close>

theorem puzzle_negative_seed:
  assumes "3 \<le> n" "n \<le> 20" "ph \<noteq> []" "k * 9301 + 49297 < 0" "- (2 ^ 39) \<le> k"
    "(- (k * 9301 + 49297)) mod 233280 \<noteq> 0"
  shows "puzzle_new ph n (of_int k) = Inl UndefinedSlot"
proof -
  let ?s = "lcg_step 9301 49297 233280 (of_int k)"
  have "?s = - of_int ((- (k * 9301 + 49297)) mod 233280)"
    using assms by (intro lcg_step_negative) auto
  moreover have "0 < (- (k * 9301 + 49297)) mod 233280"
    using assms(6) pos_mod_sign [of 233280 "- (k * 9301 + 49297)"] by linarith
  ultimately have "?s / 233280 < 0" by simp
  then have neg: "fst (puzzle_random (of_int k)) < 0"
    by (simp add: puzzle_random_def Let_def fl_neg)
  have m: "nat n - Suc 0 = Suc (nat n - 2)" using assms(1) by arith
  have "shuffle puzzle_random (cut_pieces ph (nat n)) (of_int k) = Inl UndefinedSlot"
    using rand_index_neg [OF neg, of "Suc (nat n - 2) + 1"] by (simp add: shuffle_def m Let_def)
  then have "shuffle_attempts 100 (cut_pieces ph (nat n)) (of_int k) = Inl UndefinedSlot"
    by (simp add: numeral_eq_Suc)
  then show ?thesis using assms by (simp add: puzzle_new_def generatePieces_def)
qed

theorem puzzle_negative_seed_witness: "puzzle_new ''hola'' 3 (of_int (-1000)) = Inl UndefinedSlot"
  by (rule puzzle_negative_seed) simp_all

end
