(* ===== verification/JsText.thy ===== *)
theory JsText
  imports Prelude Complex_Main
begin

text \<open>
  The text primitives of the JavaScript standard library the source uses, on Latin-1 strings:
  \<open>trim\<close>, \<open>toLowerCase\<close>, \<open>toUpperCase\<close>, the accent stripping
  \<open>normalize("NFD").replace(/[\u0300-\u036f]/g, "")\<close>, hexadecimal rendering and the hex
  colour test. Also the values \<open>JSON.parse\<close> can produce and property access on them.
\<close>

section \<open>Characters\<close>

abbreviation code :: "char \<Rightarrow> nat" where
  "code c \<equiv> of_char c"

text \<open>The Latin-1 part of WhiteSpace and LineTerminator: TAB..CR, SPACE, NBSP.\<close>

definition is_space :: "char \<Rightarrow> bool" where
  "is_space c \<longleftrightarrow> (9 \<le> code c \<and> code c \<le> 13) \<or> code c = 32 \<or> code c = 160"

definition trim :: "string \<Rightarrow> string" where
  "trim s = rev (dropWhile is_space (rev (dropWhile is_space s)))"

definition lower_char :: "char \<Rightarrow> char" where
  "lower_char c =
     (if (65 \<le> code c \<and> code c \<le> 90) \<or> (192 \<le> code c \<and> code c \<le> 222 \<and> code c \<noteq> 215)
      then char_of (code c + 32) else c)"

definition to_lower :: "string \<Rightarrow> string" where
  "to_lower s = map lower_char s"

definition is_upper :: "char \<Rightarrow> bool" where
  "is_upper c \<longleftrightarrow> 65 \<le> code c \<and> code c \<le> 90"

definition is_lower :: "char \<Rightarrow> bool" where
  "is_lower c \<longleftrightarrow> 97 \<le> code c \<and> code c \<le> 122"

text \<open>
  Upper case of one character. The sharp s becomes \<open>SS\<close>. The micro sign and y with diaeresis have
  their upper case outside Latin-1; the source never keeps either (both are removed by the
  filters next to every \<open>toUpperCase\<close> call), and they are left as they are here.
\<close>

definition upper_char :: "char \<Rightarrow> string" where
  "upper_char c =
     (if is_lower c \<or> (224 \<le> code c \<and> code c \<le> 254 \<and> code c \<noteq> 247)
      then [char_of (code c - 32)]
      else if code c = 223 then ''SS'' else [c])"

definition to_upper :: "string \<Rightarrow> string" where
  "to_upper s = concat (map upper_char s)"

text \<open>
  NFD followed by the removal of U+0300..U+036F: an accented Latin-1 letter loses its accent.
  Every canonical decomposition of a Latin-1 letter is its base letter and one such mark; the
  letters without decomposition (AE, ETH, O with stroke, THORN, sharp s and their lower case)
  stay.
\<close>

definition strip_char :: "char \<Rightarrow> char" where
  "strip_char c =
     (let n = code c in
      if 192 \<le> n \<and> n \<le> 197 then CHR ''A'' else if n = 199 then CHR ''C''
      else if 200 \<le> n \<and> n \<le> 203 then CHR ''E'' else if 204 \<le> n \<and> n \<le> 207 then CHR ''I''
      else if n = 209 then CHR ''N'' else if 210 \<le> n \<and> n \<le> 214 then CHR ''O''
      else if 217 \<le> n \<and> n \<le> 220 then CHR ''U'' else if n = 221 then CHR ''Y''
      else if 224 \<le> n \<and> n \<le> 229 then CHR ''a'' else if n = 231 then CHR ''c''
      else if 232 \<le> n \<and> n \<le> 235 then CHR ''e'' else if 236 \<le> n \<and> n \<le> 239 then CHR ''i''
      else if n = 241 then CHR ''n'' else if 242 \<le> n \<and> n \<le> 246 then CHR ''o''
      else if 249 \<le> n \<and> n \<le> 252 then CHR ''u'' else if n = 253 \<or> n = 255 then CHR ''y''
      else c)"

definition strip_accents :: "string \<Rightarrow> string" where
  "strip_accents s = map strip_char s"

lemma strip_char_ascii [simp]: "code c < 128 \<Longrightarrow> strip_char c = c"
  by (simp add: strip_char_def Let_def)

lemma is_upper_ascii: "is_upper c \<Longrightarrow> code c < 128"
  by (simp add: is_upper_def)

lemma strip_accents_upper [simp]: "\<forall>c \<in> set s. is_upper c \<Longrightarrow> strip_accents s = s"
  by (simp add: strip_accents_def is_upper_ascii map_idI)

lemma upper_char_upper [simp]: "is_upper c \<Longrightarrow> upper_char c = [c]"
  by (auto simp: upper_char_def is_upper_def is_lower_def)

lemma to_upper_upper [simp]: "\<forall>c \<in> set s. is_upper c \<Longrightarrow> to_upper s = s"
  by (induction s) (simp_all add: to_upper_def)

lemma is_upper_not_space: "is_upper c \<Longrightarrow> \<not> is_space c"
  by (simp add: is_upper_def is_space_def)

lemma trim_upper [simp]: "\<forall>c \<in> set s. is_upper c \<Longrightarrow> trim s = s"
proof -
  assume s: "\<forall>c \<in> set s. is_upper c"
  have "dropWhile is_space t = t" if "\<forall>c \<in> set t. is_upper c" for t
    using that by (cases t) (auto dest: is_upper_not_space)
  with s show ?thesis by (simp add: trim_def)
qed

section \<open>Hexadecimal\<close>

definition hex_char :: "nat \<Rightarrow> char" where
  "hex_char d = (if d < 10 then char_of (48 + d) else char_of (87 + d))"

fun hex_digits :: "nat \<Rightarrow> string" where
  "hex_digits n = (if n < 16 then [hex_char n] else hex_digits (n div 16) @ [hex_char (n mod 16)])"

declare hex_digits.simps [simp del]

definition show_hex :: "int \<Rightarrow> string" where
  "show_hex i = (if i < 0 then CHR ''-'' # hex_digits (nat (- i)) else hex_digits (nat i))"

definition padStart2 :: "string \<Rightarrow> string" where
  "padStart2 s = replicate (2 - length s) (CHR ''0'') @ s"

definition is_hex :: "char \<Rightarrow> bool" where
  "is_hex c \<longleftrightarrow> is_digit c \<or> (97 \<le> code c \<and> code c \<le> 102) \<or> (65 \<le> code c \<and> code c \<le> 70)"

text \<open>The pattern \<open>#[0-9a-fA-F]{6}\<close>, anchored at both ends.\<close>

definition hex_color_string :: "string \<Rightarrow> bool" where
  "hex_color_string s \<longleftrightarrow> length s = 7 \<and> hd s = CHR ''#'' \<and> list_all is_hex (tl s)"

definition is_lower_hex :: "char \<Rightarrow> bool" where
  "is_lower_hex c \<longleftrightarrow> is_digit c \<or> (97 \<le> code c \<and> code c \<le> 102)"

lemma hex_char_lower: "d < 16 \<Longrightarrow> is_lower_hex (hex_char d)"
  by (auto simp: hex_char_def is_lower_hex_def is_digit_def)

lemma is_lower_hex_hex: "is_lower_hex c \<Longrightarrow> is_hex c"
  by (auto simp: is_lower_hex_def is_hex_def)

lemma lower_char_lower_hex [simp]: "is_lower_hex c \<Longrightarrow> lower_char c = c"
  by (auto simp: is_lower_hex_def is_digit_def lower_char_def)

lemma lower_char_hex: "is_hex c \<Longrightarrow> is_lower_hex (lower_char c)"
  by (auto simp: is_hex_def is_lower_hex_def is_digit_def lower_char_def)

lemma two_hex_digits:
  assumes "0 \<le> i" "i \<le> 255"
  shows "length (padStart2 (show_hex i)) = 2 \<and> list_all is_lower_hex (padStart2 (show_hex i))"
proof (cases "nat i < 16")
  case True
  then have "hex_digits (nat i) = [hex_char (nat i)]" by (subst hex_digits.simps) simp
  then show ?thesis using assms True hex_char_lower [of "nat i"]
    by (simp add: show_hex_def padStart2_def is_lower_hex_def is_digit_def)
next
  case False
  then have "hex_digits (nat i) = hex_digits (nat i div 16) @ [hex_char (nat i mod 16)]"
    by (subst hex_digits.simps) simp
  moreover have "nat i div 16 < 16" using assms by simp
  moreover from this have "hex_digits (nat i div 16) = [hex_char (nat i div 16)]"
    by (subst hex_digits.simps) simp
  ultimately show ?thesis using assms hex_char_lower [of "nat i div 16"] hex_char_lower [of "nat i mod 16"]
    by (simp add: show_hex_def padStart2_def)
qed

section \<open>JSON values\<close>

text \<open>
  The values \<open>JSON.parse\<close> returns; an object is the association list of its properties, whose
  keys are distinct. Reading a missing property gives \<open>undefined\<close>, here \<open>None\<close>; reading a
  property of \<open>null\<close> raises a TypeError; the property names the source reads are not properties
  of numbers, booleans, strings or arrays, so there the result is \<open>undefined\<close> as well.
\<close>

datatype json =
    JNull
  | JBool bool
  | JNum rat
  | JStr string
  | JArr "json list"
  | JObj "(string \<times> json) list"

fun get_prop :: "json \<Rightarrow> string \<Rightarrow> json option res" where
  "get_prop JNull k = Inl TypeErr"
| "get_prop (JObj o') k = Inr (map_of o' k)"
| "get_prop _ k = Inr None"

text \<open>\<open>typeof v === 'string' ? v : d\<close> and its kin.\<close>

definition string_or :: "string \<Rightarrow> json option \<Rightarrow> string" where
  "string_or d v = (case v of Some (JStr s) \<Rightarrow> s | _ \<Rightarrow> d)"

definition string_opt :: "json option \<Rightarrow> string option" where
  "string_opt v = (case v of Some (JStr s) \<Rightarrow> Some s | _ \<Rightarrow> None)"

definition num_or :: "rat \<Rightarrow> json option \<Rightarrow> rat" where
  "num_or d v = (case v of Some (JNum n) \<Rightarrow> n | _ \<Rightarrow> d)"

definition num_opt :: "json option \<Rightarrow> rat option" where
  "num_opt v = (case v of Some (JNum n) \<Rightarrow> Some n | _ \<Rightarrow> None)"

definition bool_or :: "bool \<Rightarrow> json option \<Rightarrow> bool" where
  "bool_or d v = (case v of Some (JBool b) \<Rightarrow> b | _ \<Rightarrow> d)"

lemma json_reads [simp]:
  "string_or d (Some (JStr s)) = s" "string_or d None = d"
  "string_opt (Some (JStr s)) = Some s" "string_opt None = None"
  "num_or x (Some (JNum n)) = n" "num_or x None = x"
  "num_opt (Some (JNum n)) = Some n" "num_opt None = None"
  "bool_or b (Some (JBool c)) = c" "bool_or b None = b"
  by (simp_all add: string_or_def string_opt_def num_or_def num_opt_def bool_or_def)

text \<open>\<open>xs.map(f)\<close> with a callback that may throw: the first error stops the loop.\<close>

fun map_res :: "('a \<Rightarrow> 'b res) \<Rightarrow> 'a list \<Rightarrow> 'b list res" where
  "map_res f [] = Inr []"
| "map_res f (x # xs) = bind_res (f x) (\<lambda>y. bind_res (map_res f xs) (\<lambda>ys. Inr (y # ys)))"

lemma map_res_Inr: "map_res f xs = Inr ys \<longleftrightarrow> list_all2 (\<lambda>x y. f x = Inr y) xs ys"
proof (induction xs arbitrary: ys)
  case Nil
  then show ?case by auto
next
  case (Cons x xs)
  then show ?case by (cases ys) (auto simp: bind_res_eq_Inr)
qed

lemma map_res_all: "(\<And>x. x \<in> set xs \<Longrightarrow> f x = Inr (g x)) \<Longrightarrow> map_res f xs = Inr (map g xs)"
  by (induction xs) auto

lemma map_res_err: "map_res f xs = Inl e \<Longrightarrow> \<exists>x \<in> set xs. f x = Inl e"
  by (induction xs) (auto simp: bind_res_def split: sum.splits)

end
