(* ===== verification/MemoryPalette.thy ===== *)
theory MemoryPalette
  imports JsText RandomSource
begin

text \<open>
  \<open>packages/engine/src/games/memory/MemoryPalette.ts\<close>: reading a pair list of unknown shape, giving
  every pair an identifier and a colour of its own, and generating the colours.
\<close>

record memory_pair =
  mp_id :: string
  mp_content1 :: string
  mp_content2 :: string
  mp_color :: string

definition DEFAULT_MEMORY_BACK_COLOR :: string where
  "DEFAULT_MEMORY_BACK_COLOR = ''#18529d''"

section \<open>Colours\<close>

definition getRgbSegment :: "rat \<Rightarrow> rat \<Rightarrow> rat \<Rightarrow> rat \<times> rat \<times> rat" where
  "getRgbSegment huePrime chroma x =
     (if huePrime < 1 then (chroma, x, 0)
      else if huePrime < 2 then (x, chroma, 0)
      else if huePrime < 3 then (0, chroma, x)
      else if huePrime < 4 then (0, x, chroma)
      else if huePrime < 5 then (x, 0, chroma)
      else (chroma, 0, x))"

definition channel :: "rat \<Rightarrow> rat \<Rightarrow> int" where
  "channel c m = js_round (fl (fl (c + m) * 255))"

definition hslToHex :: "rat \<Rightarrow> rat \<Rightarrow> rat \<Rightarrow> string" where
  "hslToHex h s l =
     (let saturation = fl (s / 100);
          lightness = fl (l / 100);
          chroma = fl (fl (1 - \<bar>fl (fl (2 * lightness) - 1)\<bar>) * saturation);
          huePrime = fl (js_rem h 360 / 60);
          x = fl (chroma * fl (1 - \<bar>fl (js_rem huePrime 2 - 1)\<bar>));
          (r, g, b) = getRgbSegment huePrime chroma x;
          m = fl (lightness - fl (chroma / 2))
      in ''#'' @ concat (map (\<lambda>c. padStart2 (show_hex (channel c m))) [r, g, b]))"

definition generateMemoryColor :: "nat \<Rightarrow> string" where
  "generateMemoryColor index =
     (let hue = js_rem (fl (fl (of_nat index * fl (137508 / 1000)) + 18)) 360;
          saturation = 68;
          lightness = 44 + of_nat ((index mod 3) * 6)
      in hslToHex hue saturation lightness)"

definition isHexColor :: "json option \<Rightarrow> bool" where
  "isHexColor v = (case v of Some (JStr s) \<Rightarrow> hex_color_string s | _ \<Rightarrow> False)"

text \<open>The candidate loop \<open>for (offset = 1; offset <= 720; offset++)\<close>, counting down what is left.\<close>

fun pick_candidate :: "string list \<Rightarrow> nat \<Rightarrow> nat \<Rightarrow> nat \<Rightarrow> string option" where
  "pick_candidate used index offset 0 = None"
| "pick_candidate used index offset (Suc k) =
     (let candidate = generateMemoryColor (index + offset)
      in if candidate \<notin> set used then Some candidate
         else pick_candidate used index (Suc offset) k)"

definition pickUniqueColor :: "string \<Rightarrow> string list \<Rightarrow> nat \<Rightarrow> string" where
  "pickUniqueColor preferred used index =
     (let normalized = to_lower preferred
      in if normalized \<notin> set used then normalized
         else (case pick_candidate used index 1 720 of
                 Some candidate \<Rightarrow> candidate
               | None \<Rightarrow> normalized))"

definition normalizeMemoryBackColor :: "json option \<Rightarrow> string" where
  "normalizeMemoryBackColor color =
     (case color of
        Some (JStr s) \<Rightarrow> if hex_color_string s then to_lower s else DEFAULT_MEMORY_BACK_COLOR
      | _ \<Rightarrow> DEFAULT_MEMORY_BACK_COLOR)"

section \<open>Pairs\<close>

definition readMemoryPairs :: "json \<Rightarrow> json list" where
  "readMemoryPairs pairs =
     (case pairs of
        JArr ps \<Rightarrow> ps
      | JObj o' \<Rightarrow> (case map_of o' ''pairs'' of Some (JArr ps) \<Rightarrow> ps | _ \<Rightarrow> [])
      | _ \<Rightarrow> [])"

text \<open>\<open>typeof pair.id === 'string' && pair.id.trim().length > 0 ? pair.id : `pair-${index + 1}`\<close>.\<close>

definition pair_id_of :: "json option \<Rightarrow> nat \<Rightarrow> string" where
  "pair_id_of i index =
     (case i of Some (JStr s) \<Rightarrow> if length (trim s) > 0 then s else ''pair-'' @ show_nat (index + 1)
      | _ \<Rightarrow> ''pair-'' @ show_nat (index + 1))"

text \<open>One callback of the \<open>map\<close>: the used colours are threaded through.\<close>

definition normalize_pair :: "string list \<Rightarrow> nat \<Rightarrow> json \<Rightarrow> memory_pair res" where
  "normalize_pair used index pair =
     bind_res (get_prop pair ''id'') (\<lambda>i.
     bind_res (get_prop pair ''content1'') (\<lambda>c1.
     bind_res (get_prop pair ''content2'') (\<lambda>c2.
     bind_res (get_prop pair ''color'') (\<lambda>col.
       Inr \<lparr>mp_id = pair_id_of i index,
            mp_content1 = string_or [] c1,
            mp_content2 = string_or [] c2,
            mp_color = pickUniqueColor
              (if isHexColor col then string_or [] col else generateMemoryColor index) used index\<rparr>))))"

fun normalize_loop :: "string list \<Rightarrow> nat \<Rightarrow> json list \<Rightarrow> memory_pair list res" where
  "normalize_loop used index [] = Inr []"
| "normalize_loop used index (p # ps) =
     bind_res (normalize_pair used index p) (\<lambda>q.
     bind_res (normalize_loop (used @ [mp_color q]) (Suc index) ps) (\<lambda>qs. Inr (q # qs)))"

definition normalizeMemoryPairs :: "json \<Rightarrow> memory_pair list res" where
  "normalizeMemoryPairs pairs = normalize_loop [] 0 (readMemoryPairs pairs)"

definition filterPlayableMemoryPairs :: "memory_pair list \<Rightarrow> memory_pair list" where
  "filterPlayableMemoryPairs pairs =
     filter (\<lambda>p. length (mp_content1 p) > 0 \<and> length (mp_content2 p) > 0) pairs"

definition createMemoryPairs :: "int \<Rightarrow> memory_pair list" where
  "createMemoryPairs n =
     map (\<lambda>index. \<lparr>mp_id = ''pair-'' @ show_nat (index + 1), mp_content1 = [], mp_content2 = [],
                    mp_color = generateMemoryColor index\<rparr>) [0..<nat (max 0 n)]"

definition createMemoryColorOptions :: "int \<Rightarrow> string list" where
  "createMemoryColorOptions n = map generateMemoryColor [0..<nat (max 1 n)]"


section \<open>Generated colours are valid\<close>

definition lower_hex_color :: "string \<Rightarrow> bool" where
  "lower_hex_color s \<longleftrightarrow> length s = 7 \<and> hd s = CHR ''#'' \<and> list_all is_lower_hex (tl s)"

lemma lower_hex_color_hex: "lower_hex_color s \<Longrightarrow> hex_color_string s"
  by (auto simp: lower_hex_color_def hex_color_string_def list_all_iff is_lower_hex_hex)

lemma lower_char_hash [simp]: "lower_char (CHR ''#'') = CHR ''#''"
  by (simp add: lower_char_def)

lemma to_lower_lower_hex [simp]: "lower_hex_color s \<Longrightarrow> to_lower s = s"
  by (cases s) (auto simp: lower_hex_color_def to_lower_def list_all_iff map_idI)

lemma to_lower_hex_color: "hex_color_string s \<Longrightarrow> lower_hex_color (to_lower s)"
  by (cases s) (auto simp: lower_hex_color_def hex_color_string_def to_lower_def list_all_iff lower_char_hex)

lemma fl_close: "\<bar>x\<bar> \<le> 1000 \<Longrightarrow> \<bar>fl x - x\<bar> \<le> 1 / 1000000"
  using fl_error [of x] by simp

lemma fl_between:
  assumes "lo \<le> x" "x \<le> hi" "-1000 \<le> lo" "hi \<le> 1000"
  shows "lo - 1 / 1000000 \<le> fl x \<and> fl x \<le> hi + 1 / 1000000"
proof -
  have "\<bar>x\<bar> \<le> 1000" using assms by simp
  from fl_close [OF this] have "fl x - x \<le> 1 / 1000000" "x - fl x \<le> 1 / 1000000"
    by linarith+
  then show ?thesis using assms by linarith
qed

lemma js_rem_range:
  assumes "0 \<le> x" "0 < y"
  shows "0 \<le> js_rem x y \<and> js_rem x y < y"
proof -
  have "of_int \<lfloor>x / y\<rfloor> \<le> x / y" "x / y < of_int \<lfloor>x / y\<rfloor> + 1" by linarith+
  then have "y * of_int \<lfloor>x / y\<rfloor> \<le> y * (x / y)" "x < y * of_int \<lfloor>x / y\<rfloor> + y"
    using assms by (intro mult_left_mono, simp_all add: field_simps)
  then show ?thesis using assms by (simp add: js_rem_def js_trunc_def)
qed

lemma channel_range:
  assumes "- 1 / 100 \<le> c" "c \<le> 71 / 100" "7 / 100 \<le> m" "m \<le> 282 / 1000"
  shows "0 \<le> channel c m \<and> channel c m \<le> 255"
proof -
  have 1: "5 / 100 \<le> fl (c + m)" "fl (c + m) \<le> 996 / 1000"
    using fl_between [of "6 / 100" "c + m" "995 / 1000"] assms by auto
  have 2: "0 \<le> fl (fl (c + m) * 255)" "fl (fl (c + m) * 255) \<le> 254 + 1/4"
    using fl_between [of "5 / 100 * 255" "fl (c + m) * 255" "996 / 1000 * 255"] 1 by auto
  then have "\<lfloor>fl (fl (c + m) * 255) + 1/2\<rfloor> \<le> 255" by linarith
  then show ?thesis using 2 by (simp add: channel_def js_round_def)
qed

lemma hslToHex_valid:
  assumes h: "0 \<le> h" and l: "44 \<le> l" "l \<le> 56"
  shows "lower_hex_color (hslToHex h 68 l)"
proof -
  define sat where "sat = fl (68 / 100)"
  define li where "li = fl (l / 100)"
  define ch where "ch = fl (fl (1 - \<bar>fl (fl (2 * li) - 1)\<bar>) * sat)"
  define hp where "hp = fl (js_rem h 360 / 60)"
  define x where "x = fl (ch * fl (1 - \<bar>fl (js_rem hp 2 - 1)\<bar>))"
  define m where "m = fl (li - fl (ch / 2))"
  obtain r g b where seg: "getRgbSegment hp ch x = (r, g, b)" by (metis prod_cases3)
  have sat: "67 / 100 \<le> sat" "sat \<le> 69 / 100"
    using fl_between [of "68 / 100" "68 / 100" "68 / 100"] by (auto simp: sat_def)
  have li: "439 / 1000 \<le> li" "li \<le> 561 / 1000"
    using fl_between [of "44 / 100" "l / 100" "56 / 100"] l by (auto simp: li_def)
  have "877 / 1000 \<le> fl (2 * li)" "fl (2 * li) \<le> 1123 / 1000"
    using fl_between [of "878 / 1000" "2 * li" "1122 / 1000"] li by auto
  then have "- 124 / 1000 \<le> fl (fl (2 * li) - 1)" "fl (fl (2 * li) - 1) \<le> 124 / 1000"
    using fl_between [of "- 123 / 1000" "fl (2 * li) - 1" "123 / 1000"] by auto
  then have "\<bar>fl (fl (2 * li) - 1)\<bar> \<le> 124 / 1000" by linarith
  then have d: "875 / 1000 \<le> fl (1 - \<bar>fl (fl (2 * li) - 1)\<bar>)" "fl (1 - \<bar>fl (fl (2 * li) - 1)\<bar>) \<le> 1001 / 1000"
    using fl_between [of "876 / 1000" "1 - \<bar>fl (fl (2 * li) - 1)\<bar>" 1] by simp_all
  have "875 / 1000 * (67 / 100) \<le> fl (1 - \<bar>fl (fl (2 * li) - 1)\<bar>) * sat"
    using d sat by (intro mult_mono) auto
  moreover have "fl (1 - \<bar>fl (fl (2 * li) - 1)\<bar>) * sat \<le> 1001 / 1000 * (69 / 100)"
    using d sat by (intro mult_mono) auto
  ultimately have ch: "58 / 100 \<le> ch" "ch \<le> 70 / 100"
    using fl_between [of "586 / 1000" "fl (1 - \<bar>fl (fl (2 * li) - 1)\<bar>) * sat" "695 / 1000"]
    by (auto simp: ch_def)
  have "28 / 100 \<le> fl (ch / 2)" "fl (ch / 2) \<le> 351 / 1000"
    using fl_between [of "29 / 100" "ch / 2" "35 / 100"] ch by auto
  then have m: "7 / 100 \<le> m" "m \<le> 282 / 1000"
    using fl_between [of "88 / 1000" "li - fl (ch / 2)" "281 / 1000"] li by (auto simp: m_def)
  have "0 \<le> hp" using js_rem_range [OF h, of 360] by (simp add: hp_def fl_nonneg)
  then have "0 \<le> js_rem hp 2" "js_rem hp 2 < 2" using js_rem_range [of hp 2] by auto
  then have "- 1001 / 1000 \<le> fl (js_rem hp 2 - 1)" "fl (js_rem hp 2 - 1) \<le> 1001 / 1000"
    using fl_between [of "- 1" "js_rem hp 2 - 1" 1] by auto
  then have "\<bar>fl (js_rem hp 2 - 1)\<bar> \<le> 1001 / 1000" by linarith
  then have t: "- 2 / 1000 \<le> fl (1 - \<bar>fl (js_rem hp 2 - 1)\<bar>)" "fl (1 - \<bar>fl (js_rem hp 2 - 1)\<bar>) \<le> 1001 / 1000"
    using fl_between [of "- 1 / 1000" "1 - \<bar>fl (js_rem hp 2 - 1)\<bar>" 1] by simp_all
  have "ch * fl (1 - \<bar>fl (js_rem hp 2 - 1)\<bar>) \<le> ch * (1001 / 1000)"
    using t ch by (intro mult_left_mono) auto
  moreover have "ch * (- 2 / 1000) \<le> ch * fl (1 - \<bar>fl (js_rem hp 2 - 1)\<bar>)"
    using t ch by (intro mult_left_mono) auto
  ultimately have "- 2 / 1000 \<le> ch * fl (1 - \<bar>fl (js_rem hp 2 - 1)\<bar>)"
      "ch * fl (1 - \<bar>fl (js_rem hp 2 - 1)\<bar>) \<le> 701 / 1000"
    using ch by linarith+
  then have x: "- 1 / 100 \<le> x" "x \<le> 71 / 100"
    using fl_between [of "- 2 / 1000" "ch * fl (1 - \<bar>fl (js_rem hp 2 - 1)\<bar>)" "701 / 1000"]
    by (simp_all add: x_def)
  have rgb: "- 1 / 100 \<le> c \<and> c \<le> 71 / 100" if "c \<in> {r, g, b}" for c
    using that seg ch x by (auto simp: getRgbSegment_def split: if_splits)
  have two: "length (padStart2 (show_hex (channel c m))) = 2
      \<and> list_all is_lower_hex (padStart2 (show_hex (channel c m)))" if "c \<in> {r, g, b}" for c
    using channel_range [OF _ _ m, of c] rgb [OF that] by (intro two_hex_digits) auto
  have "hslToHex h 68 l = ''#'' @ concat (map (\<lambda>c. padStart2 (show_hex (channel c m))) [r, g, b])"
    using seg by (simp add: hslToHex_def Let_def sat_def li_def ch_def hp_def x_def m_def)
  then show ?thesis using two [of r] two [of g] two [of b]
    by (simp add: lower_hex_color_def)
qed

lemma generateMemoryColor_valid: "lower_hex_color (generateMemoryColor i)"
proof -
  have "0 \<le> fl (fl (of_nat i * fl (137508 / 1000)) + 18)"
    by (intro fl_nonneg add_nonneg_nonneg mult_nonneg_nonneg) auto
  then have "0 \<le> js_rem (fl (fl (of_nat i * fl (137508 / 1000)) + 18)) 360"
    using js_rem_range by force
  moreover have "(44 :: rat) + of_nat ((i mod 3) * 6) \<le> 56"
  proof -
    have "(i mod 3) * 6 \<le> 12" using mod_less_divisor [of 3 i] by linarith
    then have "(of_nat ((i mod 3) * 6) :: rat) \<le> of_nat 12" by (rule of_nat_mono)
    then show ?thesis by simp
  qed
  ultimately show ?thesis
    by (simp add: generateMemoryColor_def Let_def hslToHex_valid del: of_nat_mult)
qed

section \<open>Picking a colour of one's own\<close>

lemma pick_candidate_Some:
  "pick_candidate used i off k = Some c \<Longrightarrow>
   c \<notin> set used \<and> (\<exists>d. off \<le> d \<and> d < off + k \<and> c = generateMemoryColor (i + d))"
proof (induction k arbitrary: off)
  case 0
  then show ?case by simp
next
  case (Suc k)
  show ?case
  proof (cases "generateMemoryColor (i + off) \<in> set used")
    case True
    with Suc.prems obtain d where "c \<notin> set used" "Suc off \<le> d" "d < Suc off + k" "c = generateMemoryColor (i + d)"
      using Suc.IH [of "Suc off"] by (auto simp: Let_def)
    then show ?thesis by (intro conjI exI [of _ d]) auto
  next
    case False
    with Suc.prems show ?thesis by (auto simp: Let_def)
  qed
qed

lemma pick_candidate_None:
  "pick_candidate used i off k = None \<longleftrightarrow> (\<forall>d. off \<le> d \<and> d < off + k \<longrightarrow> generateMemoryColor (i + d) \<in> set used)"
proof (induction k arbitrary: off)
  case 0
  then show ?case by auto
next
  case (Suc k)
  have "(\<forall>d. off \<le> d \<and> d < off + Suc k \<longrightarrow> P d) \<longleftrightarrow> P off \<and> (\<forall>d. Suc off \<le> d \<and> d < Suc off + k \<longrightarrow> P d)"
    for P :: "nat \<Rightarrow> bool"
    by (auto simp: Suc_le_eq) (metis le_eq_less_or_eq)
  then show ?case by (simp add: Let_def Suc.IH)
qed

lemma pickUniqueColor_valid:
  "hex_color_string c \<Longrightarrow> lower_hex_color (pickUniqueColor c used i)"
  by (auto simp: pickUniqueColor_def Let_def to_lower_hex_color generateMemoryColor_valid
      dest!: pick_candidate_Some split: option.splits)

text \<open>All 720 alternatives are taken.\<close>

definition palette_exhausted :: "string list \<Rightarrow> nat \<Rightarrow> bool" where
  "palette_exhausted used i \<longleftrightarrow> (\<forall>d. 1 \<le> d \<and> d \<le> 720 \<longrightarrow> generateMemoryColor (i + d) \<in> set used)"

lemma pickUniqueColor_fresh:
  "\<not> palette_exhausted used i \<Longrightarrow> pickUniqueColor c used i \<notin> set used"
  by (auto simp: pickUniqueColor_def Let_def palette_exhausted_def pick_candidate_None less_Suc_eq_le
      dest!: pick_candidate_Some split: option.splits)


section \<open>Normalised pair lists\<close>

lemma trim_nonempty: "\<not> is_space c \<Longrightarrow> trim (c # s) \<noteq> []"
  by (auto simp: trim_def dropWhile_eq_Nil_conv)

lemma trim_pair_id [simp]: "trim (''pair-'' @ s) \<noteq> []"
  using trim_nonempty [of "CHR ''p''" "''air-'' @ s"] by (simp add: is_space_def)

definition pair_valid :: "memory_pair \<Rightarrow> bool" where
  "pair_valid p \<longleftrightarrow> trim (mp_id p) \<noteq> [] \<and> lower_hex_color (mp_color p)"

lemma isHexColor_string: "isHexColor v \<Longrightarrow> hex_color_string (string_or [] v)"
  by (auto simp: isHexColor_def split: option.splits json.splits)

lemma trim_pair_id_of: "trim (pair_id_of v i) \<noteq> []"
  using trim_pair_id [of "show_nat (i + 1)"]
  by (auto simp: pair_id_of_def simp del: append.simps split: option.split json.split)

lemma normalize_pair_valid:
  assumes "normalize_pair used i v = Inr p"
  shows "pair_valid p"
proof -
  obtain a b c d where p: "p = \<lparr>mp_id = pair_id_of a i, mp_content1 = b, mp_content2 = c,
      mp_color = pickUniqueColor (if isHexColor d then string_or [] d else generateMemoryColor i) used i\<rparr>"
    using assms by (auto simp: normalize_pair_def bind_res_eq_Inr)
  have "hex_color_string (if isHexColor d then string_or [] d else generateMemoryColor i)"
    by (simp add: isHexColor_string lower_hex_color_hex generateMemoryColor_valid)
  then show ?thesis
    unfolding p pair_valid_def by (simp add: trim_pair_id_of pickUniqueColor_valid)
qed

lemma normalize_pair_fresh:
  "normalize_pair used i v = Inr p \<Longrightarrow> \<not> palette_exhausted used i \<Longrightarrow> mp_color p \<notin> set used"
  by (auto simp: normalize_pair_def bind_res_eq_Inr pickUniqueColor_fresh)

lemma normalize_pair_null: "normalize_pair used i v = Inl e \<longleftrightarrow> v = JNull \<and> e = TypeErr"
  by (cases v) (auto simp: normalize_pair_def)

lemma normalize_loop_facts:
  "normalize_loop used i vs = Inr ps \<Longrightarrow>
   length ps = length vs \<and> (\<forall>p \<in> set ps. pair_valid p)
   \<and> (\<forall>k < length ps. \<not> palette_exhausted (used @ map mp_color (take k ps)) (i + k)
        \<longrightarrow> mp_color (ps ! k) \<notin> set (used @ map mp_color (take k ps)))"
proof (induction used i vs arbitrary: ps rule: normalize_loop.induct)
  case (1 used index)
  then show ?case by simp
next
  case (2 used index v vs)
  from "2.prems" obtain q qs where q: "normalize_pair used index v = Inr q"
      and qs: "normalize_loop (used @ [mp_color q]) (Suc index) vs = Inr qs" and ps: "ps = q # qs"
    by (auto simp: bind_res_eq_Inr)
  note IH = "2.IH" [OF qs]
  show ?case
  proof (intro conjI allI impI)
    show "length ps = length (v # vs)" using IH ps by simp
    show "\<forall>p \<in> set ps. pair_valid p" using IH ps normalize_pair_valid [OF q] by simp
    fix k assume k: "k < length ps" and ne: "\<not> palette_exhausted (used @ map mp_color (take k ps)) (index + k)"
    show "mp_color (ps ! k) \<notin> set (used @ map mp_color (take k ps))"
    proof (cases k)
      case 0
      then show ?thesis using ps ne normalize_pair_fresh [OF q] by simp
    next
      case (Suc m)
      then show ?thesis using IH k ne ps by simp
    qed
  qed
qed

lemma normalize_loop_null:
  "normalize_loop used i vs = Inl e \<longleftrightarrow> JNull \<in> set vs \<and> e = TypeErr"
proof (induction used i vs rule: normalize_loop.induct)
  case (1 used index)
  then show ?case by simp
next
  case (2 used index v vs)
  show ?case
  proof (cases "normalize_pair used index v")
    case (Inl a)
    then show ?thesis using normalize_pair_null [of used index v a] by auto
  next
    case (Inr q)
    then have "v \<noteq> JNull" by (auto simp: normalize_pair_def)
    then show ?thesis using 2 Inr by (auto simp: bind_res_def split: sum.splits)
  qed
qed

definition pair_json :: "memory_pair \<Rightarrow> json" where
  "pair_json p = JObj [(''id'', JStr (mp_id p)), (''content1'', JStr (mp_content1 p)),
     (''content2'', JStr (mp_content2 p)), (''color'', JStr (mp_color p))]"

lemma normalize_pair_json:
  "pair_valid p \<Longrightarrow> mp_color p \<notin> set used \<Longrightarrow> normalize_pair used i (pair_json p) = Inr p"
  by (simp add: normalize_pair_def pair_json_def pair_valid_def isHexColor_def lower_hex_color_hex
      pickUniqueColor_def pair_id_of_def)

lemma normalize_loop_json:
  "\<forall>p \<in> set ps. pair_valid p \<Longrightarrow> distinct (used @ map mp_color ps) \<Longrightarrow>
   normalize_loop used i (map pair_json ps) = Inr ps"
  by (induction ps arbitrary: used i) (auto simp: normalize_pair_json)

section \<open>Properties\<close>

text \<open>Normalising a list that holds no null returns one pair per entry; every pair has a
  non-blank identifier and a lower-case six-digit hex colour, and its colour differs from all
  earlier ones unless all 720 alternatives for its index were already taken.\<close>

theorem normalizeMemoryPairs_ok:
  "JNull \<notin> set (readMemoryPairs v) \<Longrightarrow>
   \<exists>ps. normalizeMemoryPairs v = Inr ps \<and> length ps = length (readMemoryPairs v)
     \<and> (\<forall>p \<in> set ps. pair_valid p)
     \<and> (\<forall>k < length ps. \<not> palette_exhausted (map mp_color (take k ps)) k
          \<longrightarrow> mp_color (ps ! k) \<notin> set (map mp_color (take k ps)))"
  using normalize_loop_null [of "[]" 0 "readMemoryPairs v"] normalize_loop_facts [of "[]" 0 "readMemoryPairs v"]
  unfolding normalizeMemoryPairs_def by (cases "normalize_loop [] 0 (readMemoryPairs v)") auto

theorem normalizeMemoryPairs_ok_witness:
  "\<exists>ps. normalizeMemoryPairs (JObj [(''pairs'', JArr [JObj [], JNum 3])]) = Inr ps
     \<and> length ps = length (readMemoryPairs (JObj [(''pairs'', JArr [JObj [], JNum 3])]))
     \<and> (\<forall>p \<in> set ps. pair_valid p)
     \<and> (\<forall>k < length ps. \<not> palette_exhausted (map mp_color (take k ps)) k
          \<longrightarrow> mp_color (ps ! k) \<notin> set (map mp_color (take k ps)))"
  by (rule normalizeMemoryPairs_ok) (simp add: readMemoryPairs_def)

text \<open>The reader is not defensive against null entries: normalisation raises a TypeError
  exactly when the pair array holds a null.\<close>

theorem normalizeMemoryPairs_null:
  "normalizeMemoryPairs v = Inl TypeErr \<longleftrightarrow> JNull \<in> set (readMemoryPairs v)"
  by (simp add: normalizeMemoryPairs_def normalize_loop_null)

text \<open>Normalisation is a retraction: a well-formed pair list with pairwise different colours,
  stored as JSON and read back, comes back unchanged, so normalising twice changes nothing.\<close>

theorem normalizeMemoryPairs_roundtrip:
  "\<forall>p \<in> set ps. pair_valid p \<Longrightarrow> distinct (map mp_color ps) \<Longrightarrow>
   normalizeMemoryPairs (JArr (map pair_json ps)) = Inr ps"
  using normalize_loop_json [of ps "[]" 0] by (simp add: normalizeMemoryPairs_def readMemoryPairs_def)

definition sample_pair :: memory_pair where
  "sample_pair = \<lparr>mp_id = ''a'', mp_content1 = ''sol'', mp_content2 = ''luna'', mp_color = ''#bc5224''\<rparr>"

theorem normalizeMemoryPairs_roundtrip_witness:
  "normalizeMemoryPairs (JArr (map pair_json [sample_pair])) = Inr [sample_pair]"
  by (rule normalizeMemoryPairs_roundtrip)
    (simp_all add: sample_pair_def pair_valid_def lower_hex_color_def is_lower_hex_def is_digit_def
      trim_def is_space_def)

text \<open>Every generated palette colour, for any index, is a well-formed lower-case hex colour:
  the hue arithmetic in double precision never leaves the channel range 0..255.\<close>

theorem generated_colors_valid:
  "lower_hex_color (generateMemoryColor i) \<and> hex_color_string (generateMemoryColor i)
   \<and> normalizeMemoryBackColor (Some (JStr (generateMemoryColor i))) = generateMemoryColor i"
  using generateMemoryColor_valid [of i]
  by (simp add: lower_hex_color_hex normalizeMemoryBackColor_def)

end
