(* ===== verification/Memory.thy ===== *)
theory Memory
  imports MemoryPalette
begin

text \<open>
  The memory card game: \<open>packages/engine/src/games/MemoryEngine.ts\<close> and the click handler of
  \<open>src/features/games/components/MemoryGame.tsx\<close> with its one-second timer. The invariant ties
  the flipped indices, the card flags and the match counter together; from it follow that the
  game ends exactly when all cards are matched, is reported once, and can always be won.
\<close>

section \<open>Engine\<close>

record memory_card =
  mc_id :: string
  mc_pairId :: string
  mc_pairColor :: string
  mc_content :: string
  mc_isFlipped :: bool
  mc_isMatched :: bool

record memory_engine =
  me_cards :: "memory_card list"
  me_flippedIndices :: "nat list"
  me_matchedPairs :: nat
  me_totalPairs :: nat

definition deck_pair :: "nat \<times> memory_pair \<Rightarrow> memory_card list" where
  "deck_pair = (\<lambda>(index, p).
     [\<lparr>mc_id = ''c1_'' @ show_nat index, mc_pairId = mp_id p, mc_pairColor = mp_color p,
       mc_content = mp_content1 p, mc_isFlipped = False, mc_isMatched = False\<rparr>,
      \<lparr>mc_id = ''c2_'' @ show_nat index, mc_pairId = mp_id p, mc_pairColor = mp_color p,
       mc_content = mp_content2 p, mc_isFlipped = False, mc_isMatched = False\<rparr>])"

definition memory_deck :: "memory_pair list \<Rightarrow> memory_card list" where
  "memory_deck ps = concat (map deck_pair (enumerate 0 ps))"

definition memory_new :: "('s \<Rightarrow> rat \<times> 's) \<Rightarrow> json \<Rightarrow> 's \<Rightarrow> (memory_engine \<times> 's) res" where
  "memory_new rnd pairs s =
     bind_res (normalizeMemoryPairs pairs) (\<lambda>ps.
     bind_res (shuffle rnd (memory_deck ps) s) (\<lambda>(deck, s').
       Inr (\<lparr>me_cards = deck, me_flippedIndices = [], me_matchedPairs = 0,
             me_totalPairs = length ps\<rparr>, s')))"

definition flipCard :: "int \<Rightarrow> memory_engine \<Rightarrow> bool \<times> memory_engine" where
  "flipCard index e =
     (if index < 0 \<or> index \<ge> int (length (me_cards e)) then (False, e)
      else let i = nat index; card = me_cards e ! i
           in if mc_isFlipped card \<or> mc_isMatched card then (False, e)
              else if length (me_flippedIndices e) \<ge> 2 then (False, e)
              else (True, e\<lparr>me_cards := (me_cards e)[i := card\<lparr>mc_isFlipped := True\<rparr>],
                            me_flippedIndices := me_flippedIndices e @ [i]\<rparr>))"

text \<open>\<open>Some (match, gameOver)\<close>, or \<open>None\<close> for the source's \<open>null\<close>.\<close>

definition checkMatch :: "memory_engine \<Rightarrow> (bool \<times> bool) option \<times> memory_engine" where
  "checkMatch e =
     (case me_flippedIndices e of
        [i1, i2] \<Rightarrow>
          (let c1 = me_cards e ! i1; c2 = me_cards e ! i2;
               match = (mc_pairId c1 = mc_pairId c2);
               e' = (if match
                     then e\<lparr>me_cards := (me_cards e)[i1 := c1\<lparr>mc_isMatched := True\<rparr>,
                                                      i2 := c2\<lparr>mc_isMatched := True\<rparr>],
                            me_matchedPairs := me_matchedPairs e + 1\<rparr>
                     else e\<lparr>me_cards := (me_cards e)[i1 := c1\<lparr>mc_isFlipped := False\<rparr>,
                                                      i2 := c2\<lparr>mc_isFlipped := False\<rparr>]\<rparr>);
               e'' = e'\<lparr>me_flippedIndices := []\<rparr>
           in (Some (match, me_matchedPairs e'' = me_totalPairs e''), e''))
      | _ \<Rightarrow> (None, e))"

section \<open>Component\<close>

text \<open>
  \<open>mg_timer\<close> is the pending \<open>setTimeout\<close>; \<open>mg_completions\<close> collects the calls of
  \<open>onComplete(score, maxScore)\<close>.
\<close>

record memory_game =
  mg_engine :: memory_engine
  mg_isProcessing :: bool
  mg_timer :: bool
  mg_pairs :: nat
  mg_completions :: "(nat \<times> nat) list"

definition handleCardClick :: "int \<Rightarrow> memory_game \<Rightarrow> memory_game" where
  "handleCardClick index g =
     (if mg_isProcessing g then g
      else let (flipped, e) = flipCard index (mg_engine g)
           in if \<not> flipped then g
              else if length (me_flippedIndices e) = 2
              then g\<lparr>mg_engine := e, mg_isProcessing := True, mg_timer := True\<rparr>
              else g\<lparr>mg_engine := e\<rparr>)"

definition timerFires :: "memory_game \<Rightarrow> memory_game" where
  "timerFires g =
     (if \<not> mg_timer g then g
      else let (result, e) = checkMatch (mg_engine g)
           in g\<lparr>mg_engine := e, mg_isProcessing := False, mg_timer := False,
                mg_completions := mg_completions g @
                  (case result of Some (_, True) \<Rightarrow> [(mg_pairs g, mg_pairs g)] | _ \<Rightarrow> [])\<rparr>)"

inductive memory_play :: "memory_game \<Rightarrow> memory_game \<Rightarrow> bool" for g0 where
  play_start: "memory_play g0 g0"
| play_click: "memory_play g0 g \<Longrightarrow> memory_play g0 (handleCardClick i g)"
| play_timer: "memory_play g0 g \<Longrightarrow> memory_play g0 (timerFires g)"

section \<open>Invariant\<close>

definition unmatched_with :: "string \<Rightarrow> memory_card list \<Rightarrow> nat" where
  "unmatched_with p cs = length (filter (\<lambda>c. \<not> mc_isMatched c \<and> mc_pairId c = p) cs)"

definition matched_count :: "memory_card list \<Rightarrow> nat" where
  "matched_count cs = length (filter mc_isMatched cs)"

definition memory_wf :: "memory_engine \<Rightarrow> bool" where
  "memory_wf e \<longleftrightarrow>
     distinct (me_flippedIndices e) \<and> length (me_flippedIndices e) \<le> 2
     \<and> (\<forall>i \<in> set (me_flippedIndices e). i < length (me_cards e) \<and> \<not> mc_isMatched (me_cards e ! i))
     \<and> (\<forall>i < length (me_cards e). mc_isFlipped (me_cards e ! i)
          \<longleftrightarrow> mc_isMatched (me_cards e ! i) \<or> i \<in> set (me_flippedIndices e))
     \<and> matched_count (me_cards e) = 2 * me_matchedPairs e
     \<and> length (me_cards e) = 2 * me_totalPairs e
     \<and> (\<forall>p. even (unmatched_with p (me_cards e)))"

lemma matched_count_update:
  "i < length cs \<Longrightarrow> matched_count (cs[i := c]) + (if mc_isMatched (cs ! i) then 1 else 0)
     = matched_count cs + (if mc_isMatched c then 1 else 0)"
  unfolding matched_count_def by (rule length_filter_update)

lemma unmatched_with_update:
  "i < length cs \<Longrightarrow>
   unmatched_with p (cs[i := c]) + (if \<not> mc_isMatched (cs ! i) \<and> mc_pairId (cs ! i) = p then 1 else 0)
     = unmatched_with p cs + (if \<not> mc_isMatched c \<and> mc_pairId c = p then 1 else 0)"
  unfolding unmatched_with_def by (rule length_filter_update)

lemma matched_count_frame [simp]:
  "i < length cs \<Longrightarrow> mc_isMatched c = mc_isMatched (cs ! i) \<Longrightarrow> matched_count (cs[i := c]) = matched_count cs"
  using matched_count_update [of i cs c] by simp

lemma unmatched_with_frame [simp]:
  "i < length cs \<Longrightarrow> mc_isMatched c = mc_isMatched (cs ! i) \<Longrightarrow> mc_pairId c = mc_pairId (cs ! i) \<Longrightarrow>
   unmatched_with p (cs[i := c]) = unmatched_with p cs"
  using unmatched_with_update [of i cs p c] by simp

lemma all_matched_iff:
  "memory_wf e \<Longrightarrow> (\<forall>c \<in> set (me_cards e). mc_isMatched c) \<longleftrightarrow> me_matchedPairs e = me_totalPairs e"
proof -
  assume w: "memory_wf e"
  have "(\<forall>c \<in> set (me_cards e). mc_isMatched c) \<longleftrightarrow> matched_count (me_cards e) = length (me_cards e)"
    unfolding matched_count_def
    by (metis filter_True length_filter_less less_irrefl)
  then show ?thesis using w by (auto simp: memory_wf_def)
qed

lemma flipCard_wf:
  assumes w: "memory_wf e"
  shows "memory_wf (snd (flipCard i e))"
  using w by (auto simp: memory_wf_def flipCard_def Let_def nth_list_update split: if_splits)

text \<open>The two outcomes of a check, as updates of the engine.\<close>

lemma checkMatch_match:
  "me_flippedIndices e = [i1, i2] \<Longrightarrow> mc_pairId (me_cards e ! i1) = mc_pairId (me_cards e ! i2) \<Longrightarrow>
   checkMatch e = (Some (True, me_matchedPairs e + 1 = me_totalPairs e),
     e\<lparr>me_cards := (me_cards e)[i1 := (me_cards e ! i1)\<lparr>mc_isMatched := True\<rparr>,
                                i2 := (me_cards e ! i2)\<lparr>mc_isMatched := True\<rparr>],
       me_flippedIndices := [], me_matchedPairs := me_matchedPairs e + 1\<rparr>)"
  by (simp add: checkMatch_def Let_def)

lemma checkMatch_miss:
  "me_flippedIndices e = [i1, i2] \<Longrightarrow> mc_pairId (me_cards e ! i1) \<noteq> mc_pairId (me_cards e ! i2) \<Longrightarrow>
   checkMatch e = (Some (False, me_matchedPairs e = me_totalPairs e),
     e\<lparr>me_cards := (me_cards e)[i1 := (me_cards e ! i1)\<lparr>mc_isFlipped := False\<rparr>,
                                i2 := (me_cards e ! i2)\<lparr>mc_isFlipped := False\<rparr>],
       me_flippedIndices := []\<rparr>)"
  by (simp add: checkMatch_def Let_def)

lemma checkMatch_none: "length (me_flippedIndices e) \<noteq> 2 \<Longrightarrow> checkMatch e = (None, e)"
  by (auto simp: checkMatch_def split: list.splits)

lemma two_flipped:
  assumes "memory_wf e" "me_flippedIndices e = [i1, i2]"
  shows "i1 < length (me_cards e)" "i2 < length (me_cards e)" "i1 \<noteq> i2"
    "\<not> mc_isMatched (me_cards e ! i1)" "\<not> mc_isMatched (me_cards e ! i2)"
    "\<And>k. k < length (me_cards e) \<Longrightarrow>
      mc_isFlipped (me_cards e ! k) \<longleftrightarrow> mc_isMatched (me_cards e ! k) \<or> k = i1 \<or> k = i2"
  using assms by (auto simp: memory_wf_def)

lemma match_counts:
  fixes cs i1 i2
  defines "cs' \<equiv> cs[i1 := (cs ! i1)\<lparr>mc_isMatched := True\<rparr>, i2 := (cs ! i2)\<lparr>mc_isMatched := True\<rparr>]"
  assumes "i1 < length cs" "i2 < length cs" "i1 \<noteq> i2" "\<not> mc_isMatched (cs ! i1)" "\<not> mc_isMatched (cs ! i2)"
  shows "matched_count cs' = matched_count cs + 2"
    and "mc_pairId (cs ! i1) = mc_pairId (cs ! i2) \<Longrightarrow> even (unmatched_with p cs') = even (unmatched_with p cs)"
proof -
  let ?c1 = "(cs ! i1)\<lparr>mc_isMatched := True\<rparr>" and ?c2 = "(cs ! i2)\<lparr>mc_isMatched := True\<rparr>"
  show "matched_count cs' = matched_count cs + 2"
    using assms matched_count_update [of i1 cs ?c1] matched_count_update [of i2 "cs[i1 := ?c1]" ?c2]
    by simp
  assume eq: "mc_pairId (cs ! i1) = mc_pairId (cs ! i2)"
  have "unmatched_with p cs' + (if mc_pairId (cs ! i1) = p then 2 else 0) = unmatched_with p cs"
    using assms eq unmatched_with_update [of i1 cs p ?c1] unmatched_with_update [of i2 "cs[i1 := ?c1]" p ?c2]
    by (simp split: if_splits)
  from this [symmetric] show "even (unmatched_with p cs') = even (unmatched_with p cs)" by simp
qed

lemma checkMatch_wf:
  assumes w: "memory_wf e"
  shows "memory_wf (snd (checkMatch e))"
proof (cases "length (me_flippedIndices e) = 2")
  case False
  then show ?thesis using w by (simp add: checkMatch_none)
next
  case True
  then obtain i1 i2 where f: "me_flippedIndices e = [i1, i2]"
    by (metis (no_types, lifting) One_nat_def Suc_1 length_0_conv length_Suc_conv)
  note i = two_flipped [OF w f]
  show ?thesis
  proof (cases "mc_pairId (me_cards e ! i1) = mc_pairId (me_cards e ! i2)")
    case True
    note c = match_counts [OF i(1-5)]
    have "\<forall>p. even (unmatched_with p (me_cards (snd (checkMatch e))))"
      using w c(2) [OF True] by (simp add: checkMatch_match [OF f True] memory_wf_def)
    then show ?thesis using w f i(1,2,3,6) c(1)
      by (auto simp: checkMatch_match [OF f True] memory_wf_def nth_list_update)
  next
    case False
    then show ?thesis using w f i
      by (auto simp: checkMatch_miss [OF f False] memory_wf_def nth_list_update)
  qed
qed


section \<open>Construction\<close>

lemma deck_counts:
  "length (concat (map deck_pair (enumerate k ps))) = 2 * length ps
   \<and> (\<forall>c \<in> set (concat (map deck_pair (enumerate k ps))). \<not> mc_isFlipped c \<and> \<not> mc_isMatched c)
   \<and> even (unmatched_with p (concat (map deck_pair (enumerate k ps))))"
  by (induction ps arbitrary: k) (auto simp: deck_pair_def unmatched_with_def)

lemma unmatched_with_mset: "mset cs = mset ds \<Longrightarrow> unmatched_with p cs = unmatched_with p ds"
  unfolding unmatched_with_def by (metis mset_filter size_mset)

lemma memory_wf_new:
  assumes d: "mset deck = mset (memory_deck ps)"
  shows "memory_wf \<lparr>me_cards = deck, me_flippedIndices = [], me_matchedPairs = 0, me_totalPairs = length ps\<rparr>"
proof -
  have l: "length deck = 2 * length ps"
    using deck_counts [of 0 ps] d by (metis memory_deck_def mset_eq_length)
  have f: "\<forall>c \<in> set deck. \<not> mc_isFlipped c \<and> \<not> mc_isMatched c"
    using deck_counts [of 0 ps] mset_eq_setD [OF d] by (simp add: memory_deck_def)
  have "even (unmatched_with p deck)" for p
    using deck_counts [of 0 ps p] unmatched_with_mset [OF d] by (simp add: memory_deck_def)
  moreover have "filter mc_isMatched deck = []" using f by (simp add: filter_empty_conv)
  ultimately show ?thesis
    using l f by (simp add: memory_wf_def matched_count_def)
qed

section \<open>Play\<close>

definition memory_game_wf :: "memory_game \<Rightarrow> bool" where
  "memory_game_wf g \<longleftrightarrow>
     memory_wf (mg_engine g) \<and> mg_pairs g = me_totalPairs (mg_engine g)
     \<and> mg_timer g = mg_isProcessing g
     \<and> (mg_isProcessing g \<longleftrightarrow> length (me_flippedIndices (mg_engine g)) = 2)
     \<and> mg_completions g = (if me_matchedPairs (mg_engine g) = me_totalPairs (mg_engine g)
                              \<and> 0 < me_totalPairs (mg_engine g)
                           then [(mg_pairs g, mg_pairs g)] else [])"

lemma flipCard_frame:
  "me_matchedPairs (snd (flipCard i e)) = me_matchedPairs e"
  "me_totalPairs (snd (flipCard i e)) = me_totalPairs e"
  by (simp_all add: flipCard_def Let_def)

lemma flipCard_False: "\<not> fst (flipCard i e) \<Longrightarrow> snd (flipCard i e) = e"
  by (auto simp: flipCard_def Let_def split: if_splits)

lemma checkMatch_total: "me_totalPairs (snd (checkMatch e)) = me_totalPairs e"
  by (simp add: checkMatch_def Let_def split: list.split)

lemma handleCardClick_wf: "memory_game_wf g \<Longrightarrow> memory_game_wf (handleCardClick i g)"
proof -
  assume w: "memory_game_wf g"
  let ?r = "flipCard i (mg_engine g)"
  have le: "length (me_flippedIndices (mg_engine g)) \<le> 2" "length (me_flippedIndices (snd ?r)) \<le> 2"
    using w flipCard_wf [of "mg_engine g" i] by (auto simp: memory_game_wf_def memory_wf_def)
  show ?thesis
  proof (cases "mg_isProcessing g \<or> \<not> fst ?r")
    case True
    then have "handleCardClick i g = g" by (auto simp: handleCardClick_def split_beta)
    then show ?thesis using w by simp
  next
    case False
    then show ?thesis using w le flipCard_wf [of "mg_engine g" i]
      by (simp add: memory_game_wf_def handleCardClick_def split_beta flipCard_frame)
  qed
qed

text \<open>Two different unmatched cards are still face up, so the counter is not at its end yet.\<close>

lemma two_flipped_not_over:
  "memory_wf e \<Longrightarrow> me_flippedIndices e = [i1, i2] \<Longrightarrow> me_matchedPairs e \<noteq> me_totalPairs e"
  using all_matched_iff [of e] two_flipped [of e i1 i2] by (metis nth_mem)

lemma timerFires_wf: "memory_game_wf g \<Longrightarrow> memory_game_wf (timerFires g)"
proof -
  assume w: "memory_game_wf g"
  let ?e = "mg_engine g"
  have we: "memory_wf ?e" using w by (simp add: memory_game_wf_def)
  show ?thesis
  proof (cases "mg_timer g")
    case False
    then show ?thesis using w by (simp add: timerFires_def)
  next
    case True
    then have "length (me_flippedIndices ?e) = 2" using w by (auto simp: memory_game_wf_def)
    then obtain i1 i2 where f: "me_flippedIndices ?e = [i1, i2]"
      by (metis (no_types, lifting) One_nat_def Suc_1 length_0_conv length_Suc_conv)
    have no: "mg_completions g = []" and pairs: "mg_pairs g = me_totalPairs ?e"
      using w two_flipped_not_over [OF we f] by (simp_all add: memory_game_wf_def)
    show ?thesis
    proof (cases "mc_pairId (me_cards ?e ! i1) = mc_pairId (me_cards ?e ! i2)")
      case True
      then show ?thesis using checkMatch_wf [OF we] no pairs \<open>mg_timer g\<close>
        by (auto simp: memory_game_wf_def timerFires_def checkMatch_match [OF f True])
    next
      case False
      then show ?thesis using checkMatch_wf [OF we] no pairs \<open>mg_timer g\<close> two_flipped_not_over [OF we f]
        by (auto simp: memory_game_wf_def timerFires_def checkMatch_miss [OF f False])
    qed
  qed
qed

lemma memory_play_wf: "memory_play g0 g \<Longrightarrow> memory_game_wf g0 \<Longrightarrow> memory_game_wf g"
  by (induction rule: memory_play.induct) (auto intro: handleCardClick_wf timerFires_wf)

lemma memory_play_trans: "memory_play g g' \<Longrightarrow> memory_play g0 g \<Longrightarrow> memory_play g0 g'"
  by (induction rule: memory_play.induct) (auto intro: memory_play.intros)


section \<open>Winning\<close>

lemma partner_exists:
  assumes w: "memory_wf e" and i: "i < length (me_cards e)" "\<not> mc_isMatched (me_cards e ! i)"
  shows "\<exists>j < length (me_cards e). j \<noteq> i \<and> \<not> mc_isMatched (me_cards e ! j)
    \<and> mc_pairId (me_cards e ! j) = mc_pairId (me_cards e ! i)"
proof (rule ccontr)
  let ?p = "mc_pairId (me_cards e ! i)"
  assume "\<not> ?thesis"
  then have "{k. k < length (me_cards e) \<and> \<not> mc_isMatched (me_cards e ! k) \<and> mc_pairId (me_cards e ! k) = ?p} = {i}"
    using i by auto
  then have "unmatched_with ?p (me_cards e) = 1"
    by (simp add: unmatched_with_def length_filter_conv_card)
  moreover have "even (unmatched_with ?p (me_cards e))" using w by (simp add: memory_wf_def)
  ultimately show False by simp
qed

lemma click_flips:
  assumes w: "memory_game_wf g" and l: "length (me_flippedIndices (mg_engine g)) < 2"
    and i: "i < length (me_cards (mg_engine g))" "\<not> mc_isMatched (me_cards (mg_engine g) ! i)"
      "i \<notin> set (me_flippedIndices (mg_engine g))"
  shows "me_flippedIndices (mg_engine (handleCardClick (int i) g)) = me_flippedIndices (mg_engine g) @ [i]
    \<and> me_cards (mg_engine (handleCardClick (int i) g))
        = (me_cards (mg_engine g))[i := (me_cards (mg_engine g) ! i)\<lparr>mc_isFlipped := True\<rparr>]
    \<and> me_matchedPairs (mg_engine (handleCardClick (int i) g)) = me_matchedPairs (mg_engine g)
    \<and> me_totalPairs (mg_engine (handleCardClick (int i) g)) = me_totalPairs (mg_engine g)"
proof -
  have "\<not> mg_isProcessing g" "\<not> mc_isFlipped (me_cards (mg_engine g) ! i)"
    using w l i by (auto simp: memory_game_wf_def memory_wf_def)
  then show ?thesis using l i
    by (simp add: handleCardClick_def flipCard_def Let_def)
qed

text \<open>With one card up, clicking its partner and letting the timer fire scores the pair.\<close>

lemma finish_pair:
  assumes w: "memory_game_wf g" and f: "me_flippedIndices (mg_engine g) = [i]"
  shows "\<exists>g'. memory_play g g' \<and> memory_game_wf g' \<and> me_flippedIndices (mg_engine g') = []
    \<and> me_matchedPairs (mg_engine g') = me_matchedPairs (mg_engine g) + 1
    \<and> me_totalPairs (mg_engine g') = me_totalPairs (mg_engine g)"
proof -
  have we: "memory_wf (mg_engine g)" using w by (simp add: memory_game_wf_def)
  have i: "i < length (me_cards (mg_engine g))" "\<not> mc_isMatched (me_cards (mg_engine g) ! i)"
    using we f by (auto simp: memory_wf_def)
  obtain j where j: "j < length (me_cards (mg_engine g))" "j \<noteq> i" "\<not> mc_isMatched (me_cards (mg_engine g) ! j)"
      "mc_pairId (me_cards (mg_engine g) ! j) = mc_pairId (me_cards (mg_engine g) ! i)"
    using partner_exists [OF we i] by blast
  let ?g1 = "handleCardClick (int j) g"
  have g1: "me_flippedIndices (mg_engine ?g1) = [i, j]"
      "me_cards (mg_engine ?g1) = (me_cards (mg_engine g))[j := (me_cards (mg_engine g) ! j)\<lparr>mc_isFlipped := True\<rparr>]"
      "me_matchedPairs (mg_engine ?g1) = me_matchedPairs (mg_engine g)"
      "me_totalPairs (mg_engine ?g1) = me_totalPairs (mg_engine g)"
    using click_flips [OF w _ j(1,3)] f j(2) by auto
  have w1: "memory_game_wf ?g1" by (rule handleCardClick_wf [OF w])
  then have "mg_timer ?g1" using g1(1) by (auto simp: memory_game_wf_def)
  moreover have "mc_pairId (me_cards (mg_engine ?g1) ! i) = mc_pairId (me_cards (mg_engine ?g1) ! j)"
    using g1(2) i j by (simp add: nth_list_update)
  ultimately have "me_flippedIndices (mg_engine (timerFires ?g1)) = []"
      "me_matchedPairs (mg_engine (timerFires ?g1)) = me_matchedPairs (mg_engine g) + 1"
      "me_totalPairs (mg_engine (timerFires ?g1)) = me_totalPairs (mg_engine g)"
    using g1 by (simp_all add: timerFires_def checkMatch_match [OF g1(1)])
  moreover have "memory_play g (timerFires ?g1)"
    by (intro memory_play.intros)
  ultimately show ?thesis using timerFires_wf [OF w1] by blast
qed

lemma start_pair:
  assumes w: "memory_game_wf g" and f: "me_flippedIndices (mg_engine g) = []"
    and no: "me_matchedPairs (mg_engine g) \<noteq> me_totalPairs (mg_engine g)"
  shows "\<exists>g' i. memory_play g g' \<and> memory_game_wf g' \<and> me_flippedIndices (mg_engine g') = [i]
    \<and> me_matchedPairs (mg_engine g') = me_matchedPairs (mg_engine g)
    \<and> me_totalPairs (mg_engine g') = me_totalPairs (mg_engine g)"
proof -
  have we: "memory_wf (mg_engine g)" using w by (simp add: memory_game_wf_def)
  then obtain i where i: "i < length (me_cards (mg_engine g))" "\<not> mc_isMatched (me_cards (mg_engine g) ! i)"
    using all_matched_iff [OF we] no by (metis in_set_conv_nth)
  show ?thesis
    using click_flips [OF w _ i] f handleCardClick_wf [OF w, of "int i"]
    by (intro exI [of _ "handleCardClick (int i) g"] exI [of _ i]) (auto intro: memory_play.intros)
qed

lemma win_from_rest:
  assumes "memory_game_wf g" "me_flippedIndices (mg_engine g) = []"
  shows "\<exists>g'. memory_play g g' \<and> me_matchedPairs (mg_engine g') = me_totalPairs (mg_engine g')"
  using assms
proof (induction "me_totalPairs (mg_engine g) - me_matchedPairs (mg_engine g)" arbitrary: g rule: less_induct)
  case less
  show ?case
  proof (cases "me_matchedPairs (mg_engine g) = me_totalPairs (mg_engine g)")
    case True
    then show ?thesis using play_start by blast
  next
    case False
    obtain g1 i where g1: "memory_play g g1" "memory_game_wf g1" "me_flippedIndices (mg_engine g1) = [i]"
        "me_matchedPairs (mg_engine g1) = me_matchedPairs (mg_engine g)" "me_totalPairs (mg_engine g1) = me_totalPairs (mg_engine g)"
      using start_pair [OF less.prems False] by blast
    obtain g2 where g2: "memory_play g1 g2" "memory_game_wf g2" "me_flippedIndices (mg_engine g2) = []"
        "me_matchedPairs (mg_engine g2) = me_matchedPairs (mg_engine g) + 1" "me_totalPairs (mg_engine g2) = me_totalPairs (mg_engine g)"
      using finish_pair [OF g1(2,3)] g1 by auto
    have "2 * me_matchedPairs (mg_engine g) \<le> 2 * me_totalPairs (mg_engine g)"
      using less.prems(1) length_filter_le [of mc_isMatched "me_cards (mg_engine g)"]
      by (auto simp: memory_game_wf_def memory_wf_def matched_count_def)
    then have "me_totalPairs (mg_engine g2) - me_matchedPairs (mg_engine g2)
        < me_totalPairs (mg_engine g) - me_matchedPairs (mg_engine g)"
      using False g2 by linarith
    then obtain g' where "memory_play g2 g'" "me_matchedPairs (mg_engine g') = me_totalPairs (mg_engine g')"
      using less.hyps g2 by blast
    then show ?thesis using g1(1) g2(1) memory_play_trans by blast
  qed
qed

lemma come_to_rest:
  assumes w: "memory_game_wf g"
  shows "\<exists>g'. memory_play g g' \<and> memory_game_wf g' \<and> me_flippedIndices (mg_engine g') = []"
proof -
  have "length (me_flippedIndices (mg_engine g)) \<le> 2"
    using w by (simp add: memory_game_wf_def memory_wf_def)
  then consider "me_flippedIndices (mg_engine g) = []" | i where "me_flippedIndices (mg_engine g) = [i]"
    | i j where "me_flippedIndices (mg_engine g) = [i, j]"
    by (metis (no_types, opaque_lifting) One_nat_def Suc_1 le_SucE length_0_conv length_Suc_conv le_zero_eq)
  then show ?thesis
  proof cases
    case 1
    then show ?thesis using w play_start by blast
  next
    case 2
    then show ?thesis using finish_pair [OF w] by blast
  next
    case 3
    then have "mg_timer g" using w by (auto simp: memory_game_wf_def)
    then have "me_flippedIndices (mg_engine (timerFires g)) = []"
      using 3 by (simp add: timerFires_def checkMatch_def Let_def)
    then show ?thesis using timerFires_wf [OF w] play_timer [OF play_start] by blast
  qed
qed


section \<open>Properties\<close>

text \<open>Dealing works for every pair list without null entries and every random source in
  \<open>[0, 1)\<close>: the constructor returns an engine that satisfies the invariant and whose cards are
  a permutation of two cards per normalised pair, all face down.\<close>

theorem memory_new_ok:
  assumes "random_source rnd ok" "ok s" "normalizeMemoryPairs v = Inr ps"
  shows "\<exists>e s'. memory_new rnd v s = Inr (e, s') \<and> ok s' \<and> memory_wf e
    \<and> mset (me_cards e) = mset (memory_deck ps) \<and> me_totalPairs e = length ps
    \<and> me_flippedIndices e = [] \<and> me_matchedPairs e = 0"
proof -
  obtain deck s' where d: "shuffle rnd (memory_deck ps) s = Inr (deck, s')" "ok s'"
      "mset deck = mset (memory_deck ps)"
    using random_source.shuffle_perm [OF assms(1,2)] by blast
  show ?thesis
    using d memory_wf_new [OF d(3)] assms(3) by (simp add: memory_new_def)
qed

theorem memory_new_ok_witness:
  "\<exists>e s'. memory_new (\<lambda>s. (0, s)) (JArr (map pair_json [sample_pair])) (7 :: nat) = Inr (e, s') \<and> True
    \<and> memory_wf e \<and> mset (me_cards e) = mset (memory_deck [sample_pair])
    \<and> me_totalPairs e = length [sample_pair] \<and> me_flippedIndices e = [] \<and> me_matchedPairs e = 0"
proof (rule memory_new_ok [where ok = "\<lambda>_. True"])
  show "random_source (\<lambda>s. (0, s :: nat)) (\<lambda>_. True)" by unfold_locales simp_all
  show "normalizeMemoryPairs (JArr (map pair_json [sample_pair])) = Inr [sample_pair]"
    by (simp add: normalizeMemoryPairs_def readMemoryPairs_def normalize_pair_json sample_pair_def
        pair_valid_def lower_hex_color_def is_lower_hex_def is_digit_def trim_def is_space_def)
qed simp

text \<open>Flipping and checking keep the engine's invariant for every index, in or out of range:
  at most two unmatched cards are face up, a card is face up exactly when it is matched or just
  flipped, and the counter is half the number of matched cards.\<close>

theorem memory_engine_invariant:
  "memory_wf e \<Longrightarrow> memory_wf (snd (flipCard i e)) \<and> memory_wf (snd (checkMatch e))
    \<and> (fst (flipCard i e) \<longleftrightarrow> 0 \<le> i \<and> i < int (length (me_cards e))
         \<and> \<not> mc_isFlipped (me_cards e ! nat i) \<and> length (me_flippedIndices e) < 2)"
proof -
  assume w: "memory_wf e"
  have "mc_isFlipped (me_cards e ! nat i)" if "0 \<le> i" "i < int (length (me_cards e))" "mc_isMatched (me_cards e ! nat i)"
    using w that unfolding memory_wf_def by simp
  then have "fst (flipCard i e) \<longleftrightarrow> 0 \<le> i \<and> i < int (length (me_cards e)) \<and> \<not> mc_isFlipped (me_cards e ! nat i) \<and> length (me_flippedIndices e) < 2"
    by (simp add: flipCard_def Let_def) linarith?
  then show ?thesis using flipCard_wf [OF w] checkMatch_wf [OF w] by blast
qed

definition sample_memory :: memory_engine where
  "sample_memory = \<lparr>me_cards = memory_deck [sample_pair], me_flippedIndices = [],
     me_matchedPairs = 0, me_totalPairs = 1\<rparr>"

lemma sample_memory_wf: "memory_wf sample_memory"
  using memory_wf_new [of "memory_deck [sample_pair]" "[sample_pair]"] by (simp add: sample_memory_def)

theorem memory_engine_invariant_witness:
  "memory_wf (snd (flipCard 1 sample_memory)) \<and> memory_wf (snd (checkMatch sample_memory))
    \<and> (fst (flipCard 1 sample_memory) \<longleftrightarrow> 0 \<le> (1 :: int) \<and> 1 < int (length (me_cards sample_memory))
         \<and> \<not> mc_isFlipped (me_cards sample_memory ! nat 1) \<and> length (me_flippedIndices sample_memory) < 2)"
  by (rule memory_engine_invariant) (rule sample_memory_wf)

text \<open>The game-over flag is exact: a check that is carried out reports the end of the game if
  and only if afterwards every card is matched.\<close>

theorem memory_game_over_exact:
  assumes "memory_wf e" "checkMatch e = (Some (m, over), e')"
  shows "over \<longleftrightarrow> (\<forall>c \<in> set (me_cards e'). mc_isMatched c)"
proof -
  have "memory_wf e'" using checkMatch_wf [OF assms(1)] assms(2) by simp
  moreover have "over \<longleftrightarrow> me_matchedPairs e' = me_totalPairs e'"
    using assms(2) by (auto simp: checkMatch_def Let_def split: list.splits)
  ultimately show ?thesis using all_matched_iff by blast
qed

theorem memory_game_over_exact_witness:
  "True \<longleftrightarrow> (\<forall>c \<in> set (me_cards (snd (checkMatch (snd (flipCard 1 (snd (flipCard 0 sample_memory))))))). mc_isMatched c)"
proof (rule memory_game_over_exact)
  show "memory_wf (snd (flipCard 1 (snd (flipCard 0 sample_memory))))"
    by (intro flipCard_wf sample_memory_wf)
  show "checkMatch (snd (flipCard 1 (snd (flipCard 0 sample_memory))))
      = (Some (True, True), snd (checkMatch (snd (flipCard 1 (snd (flipCard 0 sample_memory))))))"
    by code_simp
qed

text \<open>C7: Whatever the player clicks and whenever the timer fires, the component reports completion
  at most once, and it has reported it exactly when all pairs are matched.\<close>

theorem memory_completion_once:
  assumes "memory_game_wf g0" "memory_play g0 g"
  shows "length (mg_completions g) \<le> 1
    \<and> (0 < me_totalPairs (mg_engine g) \<longrightarrow>
         (mg_completions g \<noteq> [] \<longleftrightarrow> (\<forall>c \<in> set (me_cards (mg_engine g)). mc_isMatched c)))"
proof -
  have w: "memory_game_wf g" by (rule memory_play_wf [OF assms(2,1)])
  then have "memory_wf (mg_engine g)" by (simp add: memory_game_wf_def)
  then show ?thesis using w all_matched_iff by (auto simp: memory_game_wf_def)
qed

definition sample_memory_game :: memory_game where
  "sample_memory_game = \<lparr>mg_engine = sample_memory, mg_isProcessing = False, mg_timer = False,
     mg_pairs = 1, mg_completions = []\<rparr>"

lemma sample_memory_game_wf: "memory_game_wf sample_memory_game"
  using sample_memory_wf by (simp add: memory_game_wf_def sample_memory_game_def sample_memory_def)

definition sample_memory_won :: memory_game where
  "sample_memory_won = timerFires (handleCardClick 1 (handleCardClick 0 sample_memory_game))"

theorem memory_completion_once_witness:
  "length (mg_completions sample_memory_won) \<le> 1 \<and> 0 < me_totalPairs (mg_engine sample_memory_won)
    \<and> (mg_completions sample_memory_won \<noteq> []) = (\<forall>c \<in> set (me_cards (mg_engine sample_memory_won)). mc_isMatched c)"
proof -
  have "memory_play sample_memory_game sample_memory_won"
    unfolding sample_memory_won_def by (intro memory_play.intros)
  moreover have "0 < me_totalPairs (mg_engine sample_memory_won)" by code_simp
  ultimately show ?thesis using memory_completion_once [OF sample_memory_game_wf] by blast
qed

text \<open>C22: The game can always be won: from any state the component can be in, some sequence of
  clicks and timer events matches every card, whatever the deal and the moves so far.\<close>

theorem memory_winnable:
  assumes "memory_game_wf g"
  shows "\<exists>g'. memory_play g g' \<and> (\<forall>c \<in> set (me_cards (mg_engine g')). mc_isMatched c)"
proof -
  obtain g1 where g1: "memory_play g g1" "memory_game_wf g1" "me_flippedIndices (mg_engine g1) = []"
    using come_to_rest [OF assms] by blast
  then obtain g2 where g2: "memory_play g1 g2" "me_matchedPairs (mg_engine g2) = me_totalPairs (mg_engine g2)"
    using win_from_rest by blast
  have "memory_wf (mg_engine g2)"
    using memory_play_wf [OF g2(1) g1(2)] by (simp add: memory_game_wf_def)
  then show ?thesis using memory_play_trans [OF g2(1) g1(1)] all_matched_iff g2(2) by blast
qed

theorem memory_winnable_witness:
  "\<exists>g'. memory_play sample_memory_game g' \<and> (\<forall>c \<in> set (me_cards (mg_engine g')). mc_isMatched c)"
  by (rule memory_winnable) (rule sample_memory_game_wf)

end
