(* ===== verification/FakeNews.thy ===== *)
theory FakeNews
  imports Prelude
begin

text \<open>
  The fake-news quiz: \<open>packages/engine/src/games/FakeNewsEngine.ts\<close> and the swipe handler of
  \<open>src/features/games/components/FakeNewsGame.tsx\<close>.
\<close>

record news_item =
  ni_title :: string
  ni_content :: string
  ni_isFake :: bool
  ni_explanation :: "string option"
  ni_imageUrl :: "string option"
  ni_reference :: string

record fake_news_engine =
  fn_news :: "news_item list"
  fn_currentIndex :: nat
  fn_score :: nat

definition fake_news_new :: "news_item list \<Rightarrow> fake_news_engine" where
  "fake_news_new news = \<lparr>fn_news = news, fn_currentIndex = 0, fn_score = 0\<rparr>"

definition getCurrentItem :: "fake_news_engine \<Rightarrow> news_item option" where
  "getCurrentItem e =
     (if fn_currentIndex e \<ge> length (fn_news e) then None else Some (fn_news e ! fn_currentIndex e))"

definition answer :: "bool \<Rightarrow> fake_news_engine \<Rightarrow> bool \<times> fake_news_engine" where
  "answer isFake e =
     (case getCurrentItem e of
        None \<Rightarrow> (False, e)
      | Some item \<Rightarrow>
          let correct = (ni_isFake item = isFake);
              e' = (if correct then e\<lparr>fn_score := fn_score e + 1\<rparr> else e)
          in (correct, e'\<lparr>fn_currentIndex := fn_currentIndex e' + 1\<rparr>))"

definition isGameOver :: "fake_news_engine \<Rightarrow> bool" where
  "isGameOver e \<longleftrightarrow> fn_currentIndex e \<ge> length (fn_news e)"

definition getMaxScore :: "fake_news_engine \<Rightarrow> nat" where
  "getMaxScore e = length (fn_news e)"

text \<open>The component: the item on screen and the calls of \<open>onComplete\<close>.\<close>

record fake_news_game =
  fg_engine :: fake_news_engine
  fg_currentItem :: "news_item option"
  fg_completions :: "(nat \<times> nat) list"

definition fake_news_game_new :: "news_item list \<Rightarrow> fake_news_game" where
  "fake_news_game_new news =
     \<lparr>fg_engine = fake_news_new news, fg_currentItem = getCurrentItem (fake_news_new news),
      fg_completions = []\<rparr>"

definition handleSwipe :: "bool \<Rightarrow> fake_news_game \<Rightarrow> fake_news_game" where
  "handleSwipe isFake g =
     (let e = snd (answer isFake (fg_engine g))
      in if isGameOver e
         then g\<lparr>fg_engine := e, fg_currentItem := None,
                fg_completions := fg_completions g @ [(fn_score e, getMaxScore e)]\<rparr>
         else g\<lparr>fg_engine := e, fg_currentItem := getCurrentItem e\<rparr>)"

text \<open>The swipe buttons are only on screen while there is a current item.\<close>

definition swipe :: "bool \<Rightarrow> fake_news_game \<Rightarrow> fake_news_game" where
  "swipe b g = (if fg_currentItem g = None then g else handleSwipe b g)"

section \<open>Lemmas\<close>

definition correct_count :: "news_item list \<Rightarrow> bool list \<Rightarrow> nat" where
  "correct_count news bs = length (filter (\<lambda>(n, b). ni_isFake n = b) (zip news bs))"

lemma answer_simps:
  "fn_news (snd (answer b e)) = fn_news e"
  "fn_currentIndex (snd (answer b e)) = (if isGameOver e then fn_currentIndex e else fn_currentIndex e + 1)"
  "isGameOver e \<Longrightarrow> answer b e = (False, e)"
  by (auto simp: answer_def getCurrentItem_def isGameOver_def Let_def)

lemma answer_run:
  "fn_currentIndex e \<le> length (fn_news e) \<Longrightarrow>
   fold (\<lambda>b e. snd (answer b e)) bs e =
     e\<lparr>fn_currentIndex := min (length (fn_news e)) (fn_currentIndex e + length bs),
       fn_score := fn_score e + correct_count (drop (fn_currentIndex e) (fn_news e)) bs\<rparr>"
proof (induction bs arbitrary: e)
  case Nil
  then show ?case by (simp add: correct_count_def)
next
  case (Cons b bs)
  show ?case
  proof (cases "fn_currentIndex e < length (fn_news e)")
    case False
    then have "snd (answer b e) = e" "drop (fn_currentIndex e) (fn_news e) = []"
      using answer_simps(3) [of e b] Cons.prems by (simp_all add: isGameOver_def)
    then show ?thesis using Cons False by (simp add: correct_count_def)
  next
    case True
    let ?i = "fn_currentIndex e"
    have d: "drop ?i (fn_news e) = fn_news e ! ?i # drop (Suc ?i) (fn_news e)"
      using True by (rule Cons_nth_drop_Suc [symmetric])
    have s: "snd (answer b e) = e\<lparr>fn_currentIndex := Suc ?i,
        fn_score := fn_score e + (if ni_isFake (fn_news e ! ?i) = b then 1 else 0)\<rparr>"
      using True by (auto simp: answer_def getCurrentItem_def Let_def)
    show ?thesis using True
      by (simp add: s Cons.IH d correct_count_def)
  qed
qed

lemma answer_run_new:
  "fold (\<lambda>b e. snd (answer b e)) bs (fake_news_new news) =
     \<lparr>fn_news = news, fn_currentIndex = min (length news) (length bs), fn_score = correct_count news bs\<rparr>"
  using answer_run [of "fake_news_new news" bs] by (simp add: fake_news_new_def)

lemma correct_count_snoc: "length news \<le> length bs \<Longrightarrow> correct_count news (bs @ [b]) = correct_count news bs"
  by (simp add: correct_count_def zip_append2)

lemma swipe_run:
  "fold swipe bs (fake_news_game_new news) =
     \<lparr>fg_engine = fold (\<lambda>b e. snd (answer b e)) bs (fake_news_new news),
      fg_currentItem = getCurrentItem (fold (\<lambda>b e. snd (answer b e)) bs (fake_news_new news)),
      fg_completions = (if news \<noteq> [] \<and> length news \<le> length bs then [(correct_count news bs, length news)] else [])\<rparr>"
proof (induction bs rule: rev_induct)
  case Nil
  then show ?case by (simp add: fake_news_game_new_def)
next
  case (snoc b bs)
  let ?e = "fold (\<lambda>b e. snd (answer b e)) bs (fake_news_new news)"
  let ?e' = "fold (\<lambda>b e. snd (answer b e)) (bs @ [b]) (fake_news_new news)"
  have e': "?e' = snd (answer b ?e)" by simp
  show ?case
  proof (cases "length news \<le> length bs")
    case True
    then have over: "isGameOver ?e" by (simp add: answer_run_new isGameOver_def)
    then have "?e' = ?e" "getCurrentItem ?e = None"
      using answer_simps(3) e' by (auto simp: isGameOver_def getCurrentItem_def)
    then show ?thesis using snoc True by (simp add: swipe_def correct_count_snoc)
  next
    case False
    then have "getCurrentItem ?e \<noteq> None" by (simp add: answer_run_new getCurrentItem_def)
    moreover have "isGameOver ?e' \<longleftrightarrow> length news \<le> Suc (length bs)" "fn_score ?e' = correct_count news (bs @ [b])"
        "getMaxScore ?e' = length news"
      unfolding answer_run_new by (auto simp: isGameOver_def getMaxScore_def)
    moreover have "isGameOver ?e' \<Longrightarrow> getCurrentItem ?e' = None"
      by (simp only: isGameOver_def getCurrentItem_def if_True)
    ultimately show ?thesis using snoc False e'
      by (auto simp: swipe_def handleSwipe_def Let_def)
  qed
qed

section \<open>Properties\<close>

text \<open>A whole quiz, specified by a zip: after any sequence of answers the score is the number of
  answers that agree with their item, answers beyond the last item change nothing, and the game
  is over exactly when as many answers were given as there are items.\<close>

theorem fake_news_run:
  "let e = fold (\<lambda>b e. snd (answer b e)) bs (fake_news_new news)
   in fn_score e = correct_count news bs \<and> fn_score e \<le> getMaxScore e
      \<and> (isGameOver e \<longleftrightarrow> length news \<le> length bs)"
proof -
  have "correct_count news bs \<le> length news"
    unfolding correct_count_def by (rule order_trans [OF length_filter_le]) simp
  then show ?thesis
    using answer_run [of "fake_news_new news" bs]
    by (simp add: fake_news_new_def getMaxScore_def isGameOver_def Let_def min_def)
qed


text \<open>The screen calls \<open>onComplete\<close> exactly once, when the last item has been swiped, with the
  number of agreeing answers and the number of items; with no items it never does, and further
  swipes change nothing.\<close>

theorem fake_news_completion_once:
  "let g = fold swipe bs (fake_news_game_new news)
   in fg_completions g =
        (if news \<noteq> [] \<and> length news \<le> length bs then [(correct_count news bs, length news)] else [])
      \<and> (fg_currentItem g = None \<longleftrightarrow> length news \<le> length bs)
      \<and> (length news \<le> length bs \<longrightarrow> swipe b g = g)"
  using swipe_run [of bs news] by (simp add: answer_run_new getCurrentItem_def swipe_def)

definition sample_news :: "news_item list" where
  "sample_news = [\<lparr>ni_title = ''t'', ni_content = ''c'', ni_isFake = True, ni_explanation = None,
     ni_imageUrl = None, ni_reference = ''r''\<rparr>]"

theorem fake_news_completion_once_witness:
  "fg_completions (fold swipe [True] (fake_news_game_new sample_news)) = [(1, 1)]
   \<and> swipe False (fold swipe [True] (fake_news_game_new sample_news)) = fold swipe [True] (fake_news_game_new sample_news)"
  using fake_news_completion_once [of "[True]" sample_news False]
  by (simp add: correct_count_def sample_news_def Let_def)

end
