(* ===== verification/Trivia.thy ===== *)
theory Trivia
  imports Observable Complex_Main
begin

text \<open>
  The trivia game: \<open>packages/engine/src/games/TriviaEngine.ts\<close>. Time enters through events: one
  firing of the one-second interval (\<open>Tick\<close>) and one firing of a pending 1500 ms timeout that
  calls \<open>nextQuestion\<close> (\<open>Fire\<close>); the state records whether the interval runs and how many
  timeouts are pending, and the events may come in any order.
\<close>

section \<open>State\<close>

record multiple_choice =
  mcq_question :: string
  mcq_options :: "string list"
  mcq_correct_index :: rat
  mcq_media_url :: "string option"

record trivia_state =
  tr_currentQuestionIndex :: nat
  tr_score :: int
  tr_selectedAnswer :: "int option"
  tr_isFinished :: bool
  tr_timeLeft :: int
  tr_questions :: "multiple_choice list"

record trivia_engine =
  tr_state :: trivia_state
  tr_subject :: "trivia_state subject"
  tr_timer :: bool
  tr_pending :: nat

definition defaultTimePerQuestion :: int where
  "defaultTimePerQuestion = 30"

section \<open>Operations\<close>

definition trivia_new :: "multiple_choice list \<Rightarrow> trivia_engine" where
  "trivia_new questions =
     \<lparr>tr_state = \<lparr>tr_currentQuestionIndex = 0, tr_score = 0, tr_selectedAnswer = None,
        tr_isFinished = (length questions = 0), tr_timeLeft = defaultTimePerQuestion,
        tr_questions = questions\<rparr>,
      tr_subject = new_subject, tr_timer = False, tr_pending = 0\<rparr>"

definition trivia_subscribe :: "nat \<Rightarrow> trivia_engine \<Rightarrow> trivia_engine" where
  "trivia_subscribe l e = e\<lparr>tr_subject := subject_add l (tr_state e) (tr_subject e)\<rparr>"

definition trivia_unsubscribe :: "nat \<Rightarrow> trivia_engine \<Rightarrow> trivia_engine" where
  "trivia_unsubscribe l e = e\<lparr>tr_subject := subject_remove l (tr_subject e)\<rparr>"

definition trivia_notify :: "trivia_engine \<Rightarrow> trivia_engine" where
  "trivia_notify e = e\<lparr>tr_subject := subject_notify (tr_state e) (tr_subject e)\<rparr>"

definition stopTimer :: "trivia_engine \<Rightarrow> trivia_engine" where
  "stopTimer e = e\<lparr>tr_timer := False\<rparr>"

definition startTimer :: "trivia_engine \<Rightarrow> trivia_engine" where
  "startTimer e = (stopTimer e)\<lparr>tr_timer := True\<rparr>"

text \<open>A missing current question would raise a TypeError at \<open>currentQ.correct_index\<close>.\<close>

definition submitAnswer :: "int \<Rightarrow> trivia_engine \<Rightarrow> trivia_engine res" where
  "submitAnswer answerIndex e =
     (if tr_isFinished (tr_state e) \<or> tr_selectedAnswer (tr_state e) \<noteq> None then Inr e
      else let e = stopTimer e;
               st = (tr_state e)\<lparr>tr_selectedAnswer := Some answerIndex\<rparr>
           in if tr_currentQuestionIndex st \<ge> length (tr_questions st) then Inl TypeErr
              else let currentQ = tr_questions st ! tr_currentQuestionIndex st;
                       st = (if of_int answerIndex = mcq_correct_index currentQ
                             then st\<lparr>tr_score := tr_score st + (100 + tr_timeLeft st * 2)\<rparr>
                             else st);
                       e = trivia_notify (e\<lparr>tr_state := st\<rparr>)
                   in Inr (e\<lparr>tr_pending := tr_pending e + 1\<rparr>))"

definition nextQuestion :: "trivia_engine \<Rightarrow> trivia_engine" where
  "nextQuestion e =
     (let st = tr_state e
      in if int (tr_currentQuestionIndex st) < int (length (tr_questions st)) - 1
         then startTimer (trivia_notify
                (e\<lparr>tr_state := st\<lparr>tr_currentQuestionIndex := tr_currentQuestionIndex st + 1,
                                  tr_selectedAnswer := None,
                                  tr_timeLeft := defaultTimePerQuestion\<rparr>\<rparr>))
         else trivia_notify (e\<lparr>tr_state := st\<lparr>tr_isFinished := True\<rparr>\<rparr>))"

text \<open>The callback of \<open>setInterval\<close>; it only runs while the interval is set.\<close>

definition trivia_tick :: "trivia_engine \<Rightarrow> trivia_engine res" where
  "trivia_tick e =
     (if \<not> tr_timer e then Inr e
      else if tr_timeLeft (tr_state e) > 0
      then Inr (trivia_notify (e\<lparr>tr_state := (tr_state e)\<lparr>tr_timeLeft := tr_timeLeft (tr_state e) - 1\<rparr>\<rparr>))
      else submitAnswer (-1) e)"

definition trivia_fire :: "trivia_engine \<Rightarrow> trivia_engine" where
  "trivia_fire e =
     (if tr_pending e = 0 then e else nextQuestion (e\<lparr>tr_pending := tr_pending e - 1\<rparr>))"

definition trivia_reset :: "trivia_engine \<Rightarrow> trivia_engine" where
  "trivia_reset e =
     (let e = stopTimer e;
          st = (tr_state e)\<lparr>tr_currentQuestionIndex := 0, tr_score := 0, tr_selectedAnswer := None,
                 tr_isFinished := (length (tr_questions (tr_state e)) = 0),
                 tr_timeLeft := defaultTimePerQuestion\<rparr>
      in startTimer (trivia_notify (e\<lparr>tr_state := st\<rparr>)))"

definition trivia_destroy :: "trivia_engine \<Rightarrow> trivia_engine" where
  "trivia_destroy e = (let e = stopTimer e in e\<lparr>tr_subject := subject_clear (tr_subject e)\<rparr>)"

datatype trivia_event =
    Tick | Fire | Submit int | Reset | Start | Subscribe nat | Unsubscribe nat | Destroy

fun trivia_step :: "trivia_event \<Rightarrow> trivia_engine \<Rightarrow> trivia_engine res" where
  "trivia_step Tick e = trivia_tick e"
| "trivia_step Fire e = Inr (trivia_fire e)"
| "trivia_step (Submit a) e = submitAnswer a e"
| "trivia_step Reset e = Inr (trivia_reset e)"
| "trivia_step Start e = Inr (startTimer e)"
| "trivia_step (Subscribe l) e = Inr (trivia_subscribe l e)"
| "trivia_step (Unsubscribe l) e = Inr (trivia_unsubscribe l e)"
| "trivia_step Destroy e = Inr (trivia_destroy e)"

fun trivia_run :: "trivia_event list \<Rightarrow> trivia_engine \<Rightarrow> trivia_engine res" where
  "trivia_run [] e = Inr e"
| "trivia_run (ev # evs) e = bind_res (trivia_step ev e) (trivia_run evs)"

lemmas trivia_defs = trivia_tick_def trivia_fire_def submitAnswer_def nextQuestion_def trivia_reset_def
  trivia_destroy_def trivia_subscribe_def trivia_unsubscribe_def trivia_notify_def
  startTimer_def stopTimer_def defaultTimePerQuestion_def Let_def

lemma trivia_run_append:
  "trivia_run (xs @ ys) e = bind_res (trivia_run xs e) (trivia_run ys)"
  by (induction xs arbitrary: e) (auto simp: bind_res_def split: sum.splits)

section \<open>Invariant\<close>

definition trivia_wf :: "trivia_engine \<Rightarrow> bool" where
  "trivia_wf e \<longleftrightarrow>
     (let st = tr_state e; n = length (tr_questions st); i = tr_currentQuestionIndex st in
      (\<not> tr_isFinished st \<longrightarrow> i < n) \<and> (i < n \<or> i = 0)
      \<and> (n = 0 \<longrightarrow> tr_selectedAnswer st = None)
      \<and> 0 \<le> tr_timeLeft st \<and> tr_timeLeft st \<le> 30
      \<and> 0 \<le> tr_score st
      \<and> tr_score st \<le> 160 * (int i + (if tr_selectedAnswer st = None then 0 else 1))
      \<and> subject_wf (tr_subject e))"

lemma trivia_new_wf: "trivia_wf (trivia_new qs)"
  by (simp add: trivia_wf_def trivia_new_def defaultTimePerQuestion_def Let_def)

lemma submitAnswer_wf: "trivia_wf e \<Longrightarrow> \<exists>e'. submitAnswer a e = Inr e' \<and> trivia_wf e'"
  by (auto simp: trivia_wf_def trivia_defs intro: wf_intros)

lemma nextQuestion_wf: "trivia_wf e \<Longrightarrow> trivia_wf (nextQuestion e)"
  by (auto simp: trivia_wf_def trivia_defs intro: wf_intros split: if_splits)

lemma trivia_fire_wf: "trivia_wf e \<Longrightarrow> trivia_wf (trivia_fire e)"
proof -
  assume "trivia_wf e"
  then have "trivia_wf (e\<lparr>tr_pending := tr_pending e - 1\<rparr>)" by (simp add: trivia_wf_def)
  then show ?thesis using \<open>trivia_wf e\<close> nextQuestion_wf by (simp add: trivia_fire_def)
qed

lemma trivia_step_wf: "trivia_wf e \<Longrightarrow> \<exists>e'. trivia_step ev e = Inr e' \<and> trivia_wf e'"
proof (cases ev)
  case Tick
  assume w: "trivia_wf e"
  show ?thesis
  proof (cases "tr_timer e \<and> tr_timeLeft (tr_state e) \<le> 0")
    case True
    then show ?thesis using submitAnswer_wf [OF w] Tick by (simp add: trivia_tick_def)
  next
    case False
    then show ?thesis using w Tick
      by (auto simp: trivia_wf_def trivia_tick_def trivia_notify_def Let_def intro: wf_intros)
  qed
next
  case (Submit a)
  then show "trivia_wf e \<Longrightarrow> ?thesis" using submitAnswer_wf by simp
next
  case Fire
  then show "trivia_wf e \<Longrightarrow> ?thesis" using trivia_fire_wf by simp
qed (auto simp: trivia_wf_def trivia_defs intro: wf_intros)

lemma trivia_run_wf: "trivia_wf e \<Longrightarrow> \<exists>e'. trivia_run evs e = Inr e' \<and> trivia_wf e'"
proof (induction evs arbitrary: e)
  case Nil
  then show ?case by simp
next
  case (Cons ev evs)
  then show ?case using trivia_step_wf [of e ev] by force
qed


lemma trivia_step_questions:
  "trivia_step ev e = Inr e' \<Longrightarrow> tr_questions (tr_state e') = tr_questions (tr_state e)"
  by (cases ev) (auto simp: trivia_defs split: if_splits)

lemma trivia_run_questions:
  "trivia_run evs e = Inr e' \<Longrightarrow> tr_questions (tr_state e') = tr_questions (tr_state e)"
  by (induction evs arbitrary: e) (auto simp: bind_res_eq_Inr dest: trivia_step_questions)

lemma trivia_wf_score:
  assumes "trivia_wf e"
  shows "tr_score (tr_state e) \<le> 160 * int (length (tr_questions (tr_state e)))"
proof (cases "tr_questions (tr_state e)")
  case Nil
  then show ?thesis using assms by (auto simp: trivia_wf_def Let_def)
next
  case (Cons q qs)
  let ?i = "tr_currentQuestionIndex (tr_state e)" and ?n = "length (tr_questions (tr_state e))"
  have "?i < ?n" using assms Cons by (auto simp: trivia_wf_def Let_def)
  then have "160 * (int ?i + 1) \<le> 160 * int ?n" by simp
  moreover have "tr_score (tr_state e) \<le> 160 * (int ?i + 1)"
    using assms by (auto simp: trivia_wf_def Let_def split: if_splits)
  ultimately show ?thesis by (rule order_trans [rotated])
qed

section \<open>Progress\<close>

text \<open>While the game is not destroyed, either the interval runs or a timeout is pending.\<close>

definition trivia_live :: "trivia_engine \<Rightarrow> bool" where
  "trivia_live e \<longleftrightarrow>
     (let st = tr_state e in
      (\<not> tr_isFinished st \<longrightarrow> (if tr_selectedAnswer st = None then tr_timer e else 0 < tr_pending e))
      \<and> (tr_isFinished st \<longrightarrow> length (tr_questions st) \<le> tr_currentQuestionIndex st + 1))"

lemma submitAnswer_live: "trivia_live e \<Longrightarrow> submitAnswer a e = Inr e' \<Longrightarrow> trivia_live e'"
  by (auto simp: trivia_live_def trivia_defs split: if_splits)

lemma trivia_fire_live: "trivia_wf e \<Longrightarrow> trivia_live e \<Longrightarrow> trivia_live (trivia_fire e)"
  by (auto simp: trivia_live_def trivia_wf_def trivia_defs split: if_splits)

lemma trivia_step_live:
  assumes "trivia_wf e" "trivia_live e" "ev \<noteq> Destroy" "trivia_step ev e = Inr e'"
  shows "trivia_live e'"
proof (cases ev)
  case Tick
  show ?thesis
  proof (cases "tr_timer e \<and> tr_timeLeft (tr_state e) \<le> 0")
    case True
    then show ?thesis using submitAnswer_live assms Tick by (auto simp: trivia_tick_def)
  next
    case False
    then show ?thesis using assms Tick
      by (auto simp: trivia_live_def trivia_tick_def trivia_notify_def Let_def split: if_splits)
  qed
next
  case Fire
  then show ?thesis using trivia_fire_live assms by auto
next
  case Submit
  then show ?thesis using submitAnswer_live assms by auto
qed (use assms in \<open>auto simp: trivia_live_def trivia_defs split: if_splits\<close>)

lemma trivia_run_live:
  "trivia_wf e \<Longrightarrow> trivia_live e \<Longrightarrow> Destroy \<notin> set evs \<Longrightarrow> trivia_run evs e = Inr e' \<Longrightarrow>
   trivia_wf e' \<and> trivia_live e'"
proof (induction evs arbitrary: e)
  case Nil
  then show ?case by simp
next
  case (Cons ev evs)
  obtain e1 where s: "trivia_step ev e = Inr e1" "trivia_wf e1"
    using trivia_step_wf [OF Cons.prems(1)] by blast
  have "trivia_live e1" using trivia_step_live [OF Cons.prems(1,2) _ s(1)] Cons.prems(3) by auto
  then show ?case using Cons s by auto
qed


text \<open>The interval alone: 31 seconds are enough for the time-out answer of the current question.\<close>

lemma submitAnswer_ignored:
  "tr_isFinished (tr_state e) \<or> tr_selectedAnswer (tr_state e) \<noteq> None \<Longrightarrow> submitAnswer a e = Inr e"
  by (auto simp: submitAnswer_def)

definition trivia_answered :: "nat \<Rightarrow> nat \<Rightarrow> trivia_engine \<Rightarrow> bool" where
  "trivia_answered i n e \<longleftrightarrow>
     tr_selectedAnswer (tr_state e) \<noteq> None \<and> 0 < tr_pending e \<and> \<not> tr_isFinished (tr_state e)
     \<and> tr_currentQuestionIndex (tr_state e) = i \<and> length (tr_questions (tr_state e)) = n"

lemma ticks_answered:
  "trivia_answered i n e \<Longrightarrow> trivia_run (replicate k Tick) e = Inr e' \<Longrightarrow> trivia_answered i n e'"
proof (induction k arbitrary: e)
  case 0
  then show ?case by simp
next
  case (Suc k)
  obtain e1 where s: "trivia_tick e = Inr e1" "trivia_run (replicate k Tick) e1 = Inr e'"
    using Suc.prems(2) by (auto simp: bind_res_eq_Inr)
  have "trivia_answered i n e1"
    using s(1) Suc.prems(1)
    by (auto simp: trivia_tick_def submitAnswer_ignored trivia_answered_def trivia_notify_def split: if_splits)
  then show ?case using Suc.IH s(2) by blast
qed

lemma ticks_time_out:
  "trivia_wf e \<Longrightarrow> \<not> tr_isFinished (tr_state e) \<Longrightarrow> tr_selectedAnswer (tr_state e) = None \<Longrightarrow> tr_timer e \<Longrightarrow>
   tr_timeLeft (tr_state e) < int k \<Longrightarrow> trivia_run (replicate k Tick) e = Inr e' \<Longrightarrow>
   trivia_answered (tr_currentQuestionIndex (tr_state e)) (length (tr_questions (tr_state e))) e'"
proof (induction k arbitrary: e)
  case 0
  then show ?case by (auto simp: trivia_wf_def Let_def)
next
  case (Suc k)
  obtain e1 where s: "trivia_tick e = Inr e1" "trivia_run (replicate k Tick) e1 = Inr e'"
    using Suc.prems(6) by (auto simp: bind_res_eq_Inr)
  show ?case
  proof (cases "0 < tr_timeLeft (tr_state e)")
    case True
    then have e1: "e1 = trivia_notify (e\<lparr>tr_state := (tr_state e)\<lparr>tr_timeLeft := tr_timeLeft (tr_state e) - 1\<rparr>\<rparr>)"
      using s(1) Suc.prems by (simp add: trivia_tick_def)
    have "trivia_wf e1" using trivia_step_wf [OF Suc.prems(1), of Tick] s(1) by auto
    then show ?thesis
      using Suc.IH [of e1] Suc.prems s(2) by (simp add: e1 trivia_notify_def)
  next
    case False
    then have "submitAnswer (-1) e = Inr e1" using s(1) Suc.prems by (simp add: trivia_tick_def)
    then have "trivia_answered (tr_currentQuestionIndex (tr_state e)) (length (tr_questions (tr_state e))) e1"
      using Suc.prems by (auto simp: submitAnswer_def trivia_answered_def Let_def trivia_notify_def stopTimer_def split: if_splits)
    then show ?thesis using ticks_answered s(2) by blast
  qed
qed

definition time_out_round :: "trivia_event list" where
  "time_out_round = replicate 31 Tick @ [Fire]"

definition trivia_left :: "trivia_engine \<Rightarrow> nat" where
  "trivia_left e = (if tr_isFinished (tr_state e) then 0
     else length (tr_questions (tr_state e)) - tr_currentQuestionIndex (tr_state e))"

lemma answered_fire:
  "trivia_answered i n e \<Longrightarrow> i < n \<Longrightarrow> trivia_left (trivia_fire e) = n - i - 1"
  by (auto simp: trivia_answered_def trivia_left_def trivia_fire_def nextQuestion_def trivia_notify_def
      startTimer_def stopTimer_def Let_def)

lemma finished_step:
  "trivia_live e \<Longrightarrow> tr_isFinished (tr_state e) \<Longrightarrow> ev = Tick \<or> ev = Fire \<Longrightarrow> trivia_step ev e = Inr e' \<Longrightarrow>
   tr_isFinished (tr_state e')"
  by (auto simp: trivia_live_def trivia_defs split: if_splits)


lemma finished_run:
  "trivia_wf e \<Longrightarrow> trivia_live e \<Longrightarrow> tr_isFinished (tr_state e) \<Longrightarrow> set evs \<subseteq> {Tick, Fire} \<Longrightarrow>
   trivia_run evs e = Inr e' \<Longrightarrow> tr_isFinished (tr_state e')"
proof (induction evs arbitrary: e)
  case Nil
  then show ?case by simp
next
  case (Cons ev evs)
  obtain e1 where s: "trivia_step ev e = Inr e1" "trivia_wf e1"
    using trivia_step_wf [OF Cons.prems(1)] by blast
  have "trivia_live e1" using trivia_step_live [OF Cons.prems(1,2) _ s(1)] Cons.prems(4) by auto
  moreover have "tr_isFinished (tr_state e1)"
    using finished_step [OF Cons.prems(2,3) _ s(1)] Cons.prems(4) by auto
  ultimately show ?case using Cons s by auto
qed

lemma time_out_round_progress:
  assumes w: "trivia_wf e" and l: "trivia_live e" and r: "trivia_run time_out_round e = Inr e'"
  shows "trivia_left e' \<le> trivia_left e - 1"
proof (cases "tr_isFinished (tr_state e)")
  case True
  then have "tr_isFinished (tr_state e')"
    using finished_run [OF w l True _ r] by (auto simp: time_out_round_def)
  then show ?thesis by (simp add: trivia_left_def)
next
  case False
  let ?i = "tr_currentQuestionIndex (tr_state e)" and ?n = "length (tr_questions (tr_state e))"
  have i: "?i < ?n" using w False by (simp add: trivia_wf_def Let_def)
  obtain e1 where e1: "trivia_run (replicate 31 Tick) e = Inr e1" "e' = trivia_fire e1"
    using r by (auto simp: time_out_round_def trivia_run_append bind_res_eq_Inr)
  have "trivia_answered ?i ?n e1"
  proof (cases "tr_selectedAnswer (tr_state e) = None")
    case True
    then show ?thesis
      using ticks_time_out [OF w False True _ _ e1(1)] l w False
      by (simp add: trivia_live_def trivia_wf_def Let_def)
  next
    case ans: False
    then have "trivia_answered ?i ?n e"
      using l False by (simp add: trivia_answered_def trivia_live_def Let_def)
    then show ?thesis using ticks_answered e1(1) by blast
  qed
  then show ?thesis using answered_fire [OF _ i] e1(2) False by (simp add: trivia_left_def)
qed

lemma time_out_rounds:
  "trivia_wf e \<Longrightarrow> trivia_live e \<Longrightarrow> trivia_left e \<le> k \<Longrightarrow>
   \<exists>e'. trivia_run (concat (replicate k time_out_round)) e = Inr e' \<and> trivia_wf e' \<and> trivia_left e' = 0"
proof (induction k arbitrary: e)
  case 0
  then show ?case by simp
next
  case (Suc k)
  obtain e1 where r: "trivia_run time_out_round e = Inr e1" "trivia_wf e1"
    using trivia_run_wf [OF Suc.prems(1)] by blast
  have l1: "trivia_live e1"
    using trivia_run_live [OF Suc.prems(1,2) _ r(1)] by (auto simp: time_out_round_def)
  have "trivia_left e1 \<le> k"
    using time_out_round_progress [OF Suc.prems(1,2) r(1)] Suc.prems(3) by linarith
  from Suc.IH [OF r(2) l1 this] show ?case by (simp add: trivia_run_append r(1))
qed

lemma trivia_left_0: "trivia_wf e \<Longrightarrow> trivia_left e = 0 \<longleftrightarrow> tr_isFinished (tr_state e)"
  by (auto simp: trivia_left_def trivia_wf_def Let_def)

lemma trivia_start:
  "trivia_wf (startTimer (trivia_new qs))" "trivia_live (startTimer (trivia_new qs))"
  "tr_questions (tr_state (startTimer (trivia_new qs))) = qs"
  by (simp_all add: trivia_wf_def trivia_live_def trivia_new_def startTimer_def stopTimer_def
      defaultTimePerQuestion_def Let_def)

section \<open>What the listener is told\<close>

text \<open>The events of a game on screen: the interval, the pending timeout, and clicks.\<close>

fun on_screen :: "trivia_event \<Rightarrow> bool" where
  "on_screen Tick = True"
| "on_screen Fire = True"
| "on_screen (Submit a) = True"
| "on_screen _ = False"

definition finishes :: "nat \<Rightarrow> trivia_engine \<Rightarrow> nat" where
  "finishes l e = length (filter tr_isFinished (told l (tr_subject e)))"

definition trivia_ui :: "nat \<Rightarrow> trivia_engine \<Rightarrow> bool" where
  "trivia_ui l e \<longleftrightarrow>
     (let st = tr_state e in
      l \<in> set (listeners (tr_subject e)) \<and> subject_wf (tr_subject e)
      \<and> tr_currentQuestionIndex st < length (tr_questions st)
      \<and> finishes l e = (if tr_isFinished st then 1 else 0)
      \<and> tr_pending e = (if \<not> tr_isFinished st \<and> tr_selectedAnswer st \<noteq> None then 1 else 0)
      \<and> tr_timer e = (\<not> tr_isFinished st \<and> tr_selectedAnswer st = None))"

lemma finishes_notify:
  "subject_wf (tr_subject e) \<Longrightarrow> l \<in> set (listeners (tr_subject e)) \<Longrightarrow>
   finishes l (trivia_notify e) = finishes l e + (if tr_isFinished (tr_state e) then 1 else 0)"
  by (simp add: finishes_def trivia_notify_def told_notify)

lemma finishes_updates [simp]:
  "finishes l (tr_state_update f e) = finishes l e"
  "finishes l (tr_timer_update g e) = finishes l e"
  "finishes l (tr_pending_update h e) = finishes l e"
  by (simp_all add: finishes_def)

lemma trivia_notify_simps:
  "tr_state (trivia_notify e) = tr_state e" "tr_timer (trivia_notify e) = tr_timer e"
  "tr_pending (trivia_notify e) = tr_pending e"
  "listeners (tr_subject (trivia_notify e)) = listeners (tr_subject e)"
  "subject_wf (tr_subject e) \<Longrightarrow> subject_wf (tr_subject (trivia_notify e))"
  by (auto simp: trivia_notify_def intro: wf_intros)

lemmas trivia_ui_simps = trivia_ui_def Let_def startTimer_def stopTimer_def defaultTimePerQuestion_def
  finishes_notify trivia_notify_simps

lemma submitAnswer_ui: "trivia_ui l e \<Longrightarrow> submitAnswer a e = Inr e' \<Longrightarrow> trivia_ui l e'"
  by (auto simp: submitAnswer_def trivia_ui_simps split: if_splits)

lemma trivia_step_ui:
  "trivia_ui l e \<Longrightarrow> on_screen ev \<Longrightarrow> trivia_step ev e = Inr e' \<Longrightarrow> trivia_ui l e'"
proof (cases ev)
  case Tick
  assume u: "trivia_ui l e" "trivia_step ev e = Inr e'"
  show ?thesis
  proof (cases "tr_timer e \<and> tr_timeLeft (tr_state e) \<le> 0")
    case True
    then show ?thesis using submitAnswer_ui u Tick by (auto simp: trivia_tick_def)
  next
    case False
    then show ?thesis using u Tick by (auto simp: trivia_tick_def trivia_ui_simps split: if_splits)
  qed
next
  case Fire
  assume u: "trivia_ui l e" "trivia_step ev e = Inr e'"
  then show ?thesis using Fire
    by (auto simp: trivia_fire_def nextQuestion_def trivia_ui_simps split: if_splits)
qed (auto intro: submitAnswer_ui)

lemma trivia_run_ui:
  "trivia_ui l e \<Longrightarrow> list_all on_screen evs \<Longrightarrow> trivia_run evs e = Inr e' \<Longrightarrow> trivia_ui l e'"
  by (induction evs arbitrary: e) (auto simp: bind_res_eq_Inr dest: trivia_step_ui)


lemma trivia_subscribed: "qs \<noteq> [] \<Longrightarrow> trivia_ui l (startTimer (trivia_subscribe l (trivia_new qs)))"
  by (simp add: trivia_ui_simps trivia_subscribe_def trivia_new_def finishes_def told_add wf_intros)
     (simp add: told_def)

section \<open>Scoring\<close>

fun trivia_plays :: "(nat \<times> int) list \<Rightarrow> trivia_event list" where
  "trivia_plays [] = []"
| "trivia_plays ((t, a) # ps) = replicate t Tick @ [Submit a, Fire] @ trivia_plays ps"

fun points :: "multiple_choice list \<Rightarrow> (nat \<times> int) list \<Rightarrow> int" where
  "points (q # qs) ((t, a) # ps) =
     (if of_int a = mcq_correct_index q then 100 + 2 * (30 - int t) else 0) + points qs ps"
| "points qs ps = 0"

lemma trivia_run_ticks:
  "tr_timer e \<Longrightarrow> int t \<le> tr_timeLeft (tr_state e) \<Longrightarrow>
   \<exists>e'. trivia_run (replicate t Tick) e = Inr e' \<and> tr_timer e' \<and> tr_pending e' = tr_pending e
        \<and> tr_state e' = (tr_state e)\<lparr>tr_timeLeft := tr_timeLeft (tr_state e) - int t\<rparr>"
proof (induction t arbitrary: e)
  case 0
  then show ?case by simp
next
  case (Suc t)
  let ?e = "trivia_notify (e\<lparr>tr_state := (tr_state e)\<lparr>tr_timeLeft := tr_timeLeft (tr_state e) - 1\<rparr>\<rparr>)"
  have s: "trivia_tick e = Inr ?e" using Suc.prems by (simp add: trivia_tick_def)
  obtain e' where "trivia_run (replicate t Tick) ?e = Inr e'" "tr_timer e'" "tr_pending e' = tr_pending e"
      "tr_state e' = (tr_state e)\<lparr>tr_timeLeft := tr_timeLeft (tr_state e) - 1 - int t\<rparr>"
    using Suc.IH [of ?e] Suc.prems by (auto simp: trivia_notify_simps)
  then show ?case using s by (simp add: algebra_simps)
qed

lemma trivia_round:
  assumes "tr_timer e" "tr_pending e = 0" "tr_selectedAnswer (tr_state e) = None" "\<not> tr_isFinished (tr_state e)"
    and "tr_timeLeft (tr_state e) = 30" "t \<le> 30"
    and i: "tr_currentQuestionIndex (tr_state e) = i" "i < length qs" "tr_questions (tr_state e) = qs"
  shows "\<exists>e'. trivia_run (replicate t Tick @ [Submit a, Fire]) e = Inr e' \<and> tr_pending e' = 0
      \<and> tr_score (tr_state e') = tr_score (tr_state e) + points [qs ! i] [(t, a)]
      \<and> tr_questions (tr_state e') = qs
      \<and> (if Suc i < length qs
         then tr_timer e' \<and> tr_selectedAnswer (tr_state e') = None \<and> \<not> tr_isFinished (tr_state e')
              \<and> tr_timeLeft (tr_state e') = 30 \<and> tr_currentQuestionIndex (tr_state e') = Suc i
         else tr_isFinished (tr_state e'))"
proof -
  obtain e1 where e1: "trivia_run (replicate t Tick) e = Inr e1" "tr_timer e1" "tr_pending e1 = 0"
      "tr_state e1 = (tr_state e)\<lparr>tr_timeLeft := 30 - int t\<rparr>"
    using trivia_run_ticks [of e t] assms by auto
  show ?thesis using e1 assms
    by (auto simp: trivia_run_append submitAnswer_def trivia_fire_def nextQuestion_def trivia_notify_simps
        startTimer_def stopTimer_def defaultTimePerQuestion_def Let_def)
qed

lemma finished_plays:
  "tr_isFinished (tr_state e) \<Longrightarrow> tr_pending e = 0 \<Longrightarrow>
   \<exists>e'. trivia_run (trivia_plays ps) e = Inr e' \<and> tr_isFinished (tr_state e') \<and> tr_score (tr_state e') = tr_score (tr_state e)"
proof (induction ps arbitrary: e)
  case Nil
  then show ?case by simp
next
  case (Cons p ps)
  obtain t a where p: "p = (t, a)" by force
  have t: "\<exists>e'. trivia_run (replicate t Tick) e = Inr e' \<and> tr_isFinished (tr_state e') \<and> tr_pending e' = 0
      \<and> tr_score (tr_state e') = tr_score (tr_state e)"
    using Cons.prems
  proof (induction t arbitrary: e)
    case 0
    then show ?case by simp
  next
    case (Suc t)
    have "\<exists>e1. trivia_tick e = Inr e1 \<and> tr_isFinished (tr_state e1) \<and> tr_pending e1 = 0
        \<and> tr_score (tr_state e1) = tr_score (tr_state e)"
      using Suc.prems by (simp add: trivia_tick_def submitAnswer_ignored trivia_notify_simps)
    then show ?case using Suc.IH by force
  qed
  then obtain e1 where "trivia_run (replicate t Tick) e = Inr e1" "tr_isFinished (tr_state e1)" "tr_pending e1 = 0"
      "tr_score (tr_state e1) = tr_score (tr_state e)" by blast
  then show ?case using Cons.IH [of e1] p
    by (simp add: trivia_run_append submitAnswer_ignored trivia_fire_def)
qed

lemma trivia_scores:
  assumes "tr_timer e" "tr_pending e = 0" "tr_selectedAnswer (tr_state e) = None" "\<not> tr_isFinished (tr_state e)"
    and "tr_timeLeft (tr_state e) = 30" "\<forall>p \<in> set ps. fst p \<le> 30"
    and "tr_questions (tr_state e) = qs" "tr_currentQuestionIndex (tr_state e) < length qs"
  shows "\<exists>e'. trivia_run (trivia_plays ps) e = Inr e'
      \<and> tr_score (tr_state e') = tr_score (tr_state e) + points (drop (tr_currentQuestionIndex (tr_state e)) qs) ps
      \<and> (tr_isFinished (tr_state e') \<longleftrightarrow> length qs - tr_currentQuestionIndex (tr_state e) \<le> length ps)"
  using assms
proof (induction ps arbitrary: e)
  case Nil
  then show ?case by simp
next
  case (Cons p ps)
  obtain t a where p: "p = (t, a)" by force
  let ?i = "tr_currentQuestionIndex (tr_state e)"
  have d: "drop ?i qs = qs ! ?i # drop (Suc ?i) qs" using Cons.prems by (simp add: Cons_nth_drop_Suc)
  have "t \<le> 30" using Cons.prems p by simp
  then obtain e1 where e1: "trivia_run (replicate t Tick @ [Submit a, Fire]) e = Inr e1" "tr_pending e1 = 0"
      "tr_score (tr_state e1) = tr_score (tr_state e) + points [qs ! ?i] [(t, a)]"
      "tr_questions (tr_state e1) = qs"
      "if Suc ?i < length qs
       then tr_timer e1 \<and> tr_selectedAnswer (tr_state e1) = None \<and> \<not> tr_isFinished (tr_state e1)
            \<and> tr_timeLeft (tr_state e1) = 30 \<and> tr_currentQuestionIndex (tr_state e1) = Suc ?i
       else tr_isFinished (tr_state e1)"
    using trivia_round [OF Cons.prems(1-5) _ refl Cons.prems(8,7)] by blast
  have run: "trivia_run (trivia_plays (p # ps)) e = trivia_run (trivia_plays ps) e1"
    using e1(1) p by (simp only: trivia_plays.simps append_assoc [symmetric] trivia_run_append bind_res_simps)
  show ?case
  proof (cases "Suc ?i < length qs")
    case True
    then have "\<exists>e'. trivia_run (trivia_plays ps) e1 = Inr e'
      \<and> tr_score (tr_state e') = tr_score (tr_state e1) + points (drop (Suc ?i) qs) ps
      \<and> (tr_isFinished (tr_state e') \<longleftrightarrow> length qs - Suc ?i \<le> length ps)"
      using Cons.IH [of e1] e1 Cons.prems(6) by simp
    then show ?thesis unfolding run using e1(3) True p d by auto
  next
    case False
    then have "length qs - ?i = 1" "drop (Suc ?i) qs = []" using Cons.prems(8) by auto
    then show ?thesis unfolding run using d p finished_plays [of e1 ps] e1 False by auto
  qed
qed


section \<open>Properties\<close>

text \<open>Whatever the interval, the pending timeouts, the clicks and the resets do, and in whatever
  order, the engine never reaches a missing question (no TypeError), its clock stays between 0 and
  30 and its score between 0 and 160 points per question.\<close>

theorem trivia_safe:
  "\<exists>e. trivia_run evs (trivia_new qs) = Inr e
      \<and> 0 \<le> tr_timeLeft (tr_state e) \<and> tr_timeLeft (tr_state e) \<le> 30
      \<and> 0 \<le> tr_score (tr_state e) \<and> tr_score (tr_state e) \<le> 160 * int (length qs)
      \<and> tr_questions (tr_state e) = qs"
proof -
  obtain e where e: "trivia_run evs (trivia_new qs) = Inr e" "trivia_wf e"
    using trivia_run_wf [OF trivia_new_wf] by blast
  have "tr_questions (tr_state e) = qs"
    using trivia_run_questions [OF e(1)] by (simp add: trivia_new_def)
  then show ?thesis using e trivia_wf_score [OF e(2)] by (auto simp: trivia_wf_def Let_def)
qed

text \<open>A game in which question after question is answered within its 30 seconds ends exactly when
  every question has been answered, with 100 points plus two per remaining second for each correct
  answer and nothing for the others.\<close>

theorem trivia_score_exact:
  assumes "qs \<noteq> []" "\<forall>p \<in> set ps. fst p \<le> 30"
  shows "\<exists>e. trivia_run (Start # trivia_plays ps) (trivia_new qs) = Inr e
      \<and> tr_score (tr_state e) = points qs ps
      \<and> (tr_isFinished (tr_state e) \<longleftrightarrow> length qs \<le> length ps)"
  using trivia_scores [of "startTimer (trivia_new qs)" ps qs] assms
  by (simp add: trivia_new_def startTimer_def stopTimer_def defaultTimePerQuestion_def)

definition sample_question :: "rat \<Rightarrow> multiple_choice" where
  "sample_question c = \<lparr>mcq_question = ''?'', mcq_options = [''a'', ''b''], mcq_correct_index = c,
     mcq_media_url = None\<rparr>"

theorem trivia_score_exact_witness:
  "\<exists>e. trivia_run (Start # trivia_plays [(3, 1), (30, 1)]) (trivia_new [sample_question 1, sample_question 0]) = Inr e
      \<and> tr_score (tr_state e) = 154 \<and> tr_isFinished (tr_state e)"
  using trivia_score_exact [of "[sample_question 1, sample_question 0]" "[(3, 1), (30, 1)]"]
  by (simp add: sample_question_def)

text \<open>C16: Time alone ends the game: from whatever point the user left it (clicks, resets, time-outs in
  any order, the engine not destroyed), as many rounds of 31 seconds and one timeout as there are
  questions finish it.\<close>

theorem trivia_ends_by_itself:
  assumes "Destroy \<notin> set evs"
  shows "\<exists>e. trivia_run (Start # evs @ concat (replicate (length qs) time_out_round)) (trivia_new qs) = Inr e
      \<and> tr_isFinished (tr_state e)"
proof -
  obtain e1 where e1: "trivia_run evs (startTimer (trivia_new qs)) = Inr e1" "trivia_wf e1"
    using trivia_run_wf [OF trivia_start(1)] by blast
  have l: "trivia_live e1" using trivia_run_live [OF trivia_start(1,2) assms e1(1)] by simp
  have "trivia_left e1 \<le> length qs"
    using trivia_run_questions [OF e1(1)] trivia_start(3) by (simp add: trivia_left_def)
  from time_out_rounds [OF e1(2) l this] show ?thesis
    using e1(1) trivia_left_0 by (auto simp: trivia_run_append)
qed

theorem trivia_ends_by_itself_witness:
  "\<exists>e. trivia_run (Start # [Submit 0, Reset] @ concat (replicate (length [sample_question 1]) time_out_round))
        (trivia_new [sample_question 1]) = Inr e \<and> tr_isFinished (tr_state e)"
  using trivia_ends_by_itself [of "[Submit 0, Reset]" "[sample_question 1]"] by simp

text \<open>The screen reports a game once: while it is played with the interval, the timeouts and the
  clicks, the listener has received exactly one finished state if the game is over and none before,
  and at most one timeout is ever pending.\<close>

theorem trivia_finish_told_once:
  assumes "qs \<noteq> []" "list_all on_screen evs"
  shows "\<exists>e. trivia_run (Subscribe l # Start # evs) (trivia_new qs) = Inr e
      \<and> length (filter tr_isFinished (told l (tr_subject e))) = (if tr_isFinished (tr_state e) then 1 else 0)
      \<and> tr_pending e \<le> 1"
proof -
  let ?e = "startTimer (trivia_subscribe l (trivia_new qs))"
  have "trivia_wf ?e" using trivia_step_wf [of _ Start] trivia_step_wf [OF trivia_new_wf, of "Subscribe l"] by force
  then obtain e where e: "trivia_run evs ?e = Inr e" using trivia_run_wf by blast
  have "trivia_ui l e" using trivia_run_ui [OF trivia_subscribed [OF assms(1)] assms(2) e] .
  then show ?thesis using e by (auto simp: trivia_ui_def finishes_def Let_def)
qed

theorem trivia_finish_told_once_witness:
  "\<exists>e. trivia_run (Subscribe 7 # Start # [Submit 1, Fire]) (trivia_new [sample_question 1]) = Inr e
      \<and> length (filter tr_isFinished (told 7 (tr_subject e))) = (if tr_isFinished (tr_state e) then 1 else 0)
      \<and> tr_pending e \<le> 1"
  using trivia_finish_told_once [of "[sample_question 1]" "[Submit 1, Fire]" 7] by simp

text \<open>The 1500 ms timeout of an answer is never cancelled. Destroying the engine within it leaves an
  engine whose interval starts again when the timeout fires; resetting within it makes the timeout
  skip the first question of the new game unanswered.\<close>

theorem trivia_stale_timeout:
  assumes "2 \<le> length qs"
  shows "(\<exists>e. trivia_run [Start, Submit a, Destroy, Fire] (trivia_new qs) = Inr e \<and> tr_timer e)
    \<and> (\<exists>e. trivia_run [Start, Submit a, Reset, Fire] (trivia_new qs) = Inr e
         \<and> tr_currentQuestionIndex (tr_state e) = 1 \<and> tr_score (tr_state e) = 0
         \<and> tr_selectedAnswer (tr_state e) = None \<and> \<not> tr_isFinished (tr_state e))"
proof -
  obtain p q ps where "qs = p # q # ps" using assms by (cases qs; cases "tl qs") auto
  then show ?thesis
    by (simp add: trivia_defs trivia_new_def bind_res_def)
qed

theorem trivia_stale_timeout_witness:
  "\<exists>e. trivia_run [Start, Submit 0, Destroy, Fire] (trivia_new [sample_question 0, sample_question 1]) = Inr e
     \<and> tr_timer e"
  using trivia_stale_timeout [of "[sample_question 0, sample_question 1]" 0] by simp

end
