(* ===== verification/SnakesLayout.thy ===== *)
theory SnakesLayout
  imports RandomSource
begin

text \<open>
  The board of snakes and ladders: the numbering of the cells
  (\<open>packages/engine/src/games/snakes/BoardMap.ts\<close> and its inverse in
  \<open>src/features/content/maker/snakesLayout.ts\<close>) and the seeded generator of the links.
\<close>

section \<open>Cells\<close>

definition mapToGrid :: "int \<Rightarrow> int \<Rightarrow> int \<Rightarrow> (int \<times> int) res" where
  "mapToGrid index width height =
     (if index < 1 \<or> index > width * height then Inl (JsError ''Index out of bounds'')
      else let i = index - 1;
               row = i div width;
               isEvenRow = (row mod 2 = 0);
               y = height - 1 - row;
               x = i mod width;
               x = (if \<not> isEvenRow then width - 1 - x else x)
           in Inr (x, y))"

definition cellAt :: "int \<Rightarrow> int \<Rightarrow> int \<Rightarrow> int \<Rightarrow> int" where
  "cellAt row col boardWidth boardHeight =
     (let rowFromBottom = boardHeight - 1 - row;
          base = rowFromBottom * boardWidth;
          cellOffset = (if rowFromBottom mod 2 = 0 then col else boardWidth - 1 - col)
      in base + cellOffset + 1)"

definition cellCenterPercent :: "int \<Rightarrow> int \<Rightarrow> int \<Rightarrow> rat \<times> rat" where
  "cellCenterPercent position boardWidth boardHeight =
     (let index = max 1 (min position (boardWidth * boardHeight)) - 1;
          rowFromBottom = index div boardWidth;
          y = boardHeight - 1 - rowFromBottom;
          colInRow = index mod boardWidth;
          x = (if rowFromBottom mod 2 = 0 then colInRow else boardWidth - 1 - colInRow)
      in (fl (fl ((of_int x + 1/2) / of_int boardWidth) * 100),
          fl (fl ((of_int y + 1/2) / of_int boardHeight) * 100)))"

section \<open>Link generator\<close>

record snake_link =
  link_start :: int
  link_end :: int

text \<open>A JavaScript number read from a form field: \<open>None\<close> stands for NaN and the infinities.\<close>

type_synonym js_num = "rat option"

definition clampInt :: "js_num \<Rightarrow> int \<Rightarrow> int \<Rightarrow> int" where
  "clampInt value mn mx =
     (let normalized = (case value of Some v \<Rightarrow> js_trunc v | None \<Rightarrow> mn)
      in max mn (min mx normalized))"

definition clampBoardSize :: "js_num \<Rightarrow> int" where
  "clampBoardSize value = clampInt value 2 10"

definition maxFeatureCount :: "int \<Rightarrow> int \<Rightarrow> int" where
  "maxFeatureCount boardWidth boardHeight = max 0 ((boardWidth * boardHeight - 2) div 2)"

definition seeded_start :: "rat \<Rightarrow> rat" where
  "seeded_start seed = (let a = of_int \<bar>js_trunc seed\<bar> in if a = 0 then 1 else a)"

definition seededRandom :: "rat \<Rightarrow> rat \<times> rat" where
  "seededRandom s =
     (let s' = lcg_step 1664525 1013904223 4294967296 s in (fl (s' / 4294967296), s'))"

definition randomInt :: "int \<Rightarrow> int \<Rightarrow> rat \<Rightarrow> int" where
  "randomInt mn mx r = rand_index r (nat (mx - mn + 1)) + mn"

datatype link_type = SnakeLink | LadderLink

definition link_candidates :: "int \<Rightarrow> int list \<Rightarrow> int list" where
  "link_candidates totalCells origins =
     filter (\<lambda>cell. cell < totalCells \<and> cell \<notin> set origins)
       (map (\<lambda>idx. int idx + 2) [0..<nat (max 0 (totalCells - 2))])"

text \<open>
  The retry loop of \<open>makeLink\<close>, counting down from 80. An index outside the candidates would make
  \<open>start\<close> undefined.
\<close>

fun link_attempts ::
  "('s \<Rightarrow> rat \<times> 's) \<Rightarrow> nat \<Rightarrow> int \<Rightarrow> int list \<Rightarrow> link_type \<Rightarrow> 's \<Rightarrow> (snake_link option \<times> 's) res" where
  "link_attempts rnd 0 totalCells candidates ty s = Inr (None, s)"
| "link_attempts rnd (Suc n) totalCells candidates ty s =
     (if candidates = [] then Inr (None, s)
      else let (r1, s1) = rnd s;
               j = rand_index r1 (length candidates)
           in if j < 0 \<or> j \<ge> int (length candidates) then Inl UndefinedSlot
              else let start = candidates ! nat j;
                       (r2, s2) = rnd s1;
                       e = (case ty of SnakeLink \<Rightarrow> randomInt 1 (start - 1) r2
                            | LadderLink \<Rightarrow> randomInt (start + 1) totalCells r2)
                   in if start \<noteq> e then Inr (Some \<lparr>link_start = start, link_end = e\<rparr>, s2)
                      else link_attempts rnd n totalCells candidates ty s2)"

definition makeLink ::
  "('s \<Rightarrow> rat \<times> 's) \<Rightarrow> int \<Rightarrow> link_type \<Rightarrow> int list \<times> 's \<Rightarrow> (snake_link option \<times> int list \<times> 's) res" where
  "makeLink rnd totalCells ty = (\<lambda>(origins, s).
     bind_res (link_attempts rnd 80 totalCells (link_candidates totalCells origins) ty s)
       (\<lambda>(l, s'). Inr (l, (case l of Some k \<Rightarrow> origins @ [link_start k] | None \<Rightarrow> origins), s')))"

text \<open>\<open>Array.from({ length: n }).map(() => makeLink(...)).filter(link => link !== null)\<close>.\<close>

fun make_links ::
  "('s \<Rightarrow> rat \<times> 's) \<Rightarrow> int \<Rightarrow> link_type \<Rightarrow> nat \<Rightarrow> int list \<times> 's \<Rightarrow> (snake_link list \<times> int list \<times> 's) res" where
  "make_links rnd totalCells ty 0 os = Inr ([], os)"
| "make_links rnd totalCells ty (Suc n) os =
     bind_res (makeLink rnd totalCells ty os) (\<lambda>(l, os').
     bind_res (make_links rnd totalCells ty n os') (\<lambda>(ls, os'').
       Inr ((case l of Some k \<Rightarrow> k # ls | None \<Rightarrow> ls), os'')))"

definition generateSnakeLadderLinks ::
  "int \<Rightarrow> int \<Rightarrow> js_num \<Rightarrow> js_num \<Rightarrow> rat \<Rightarrow> (snake_link list \<times> snake_link list) res" where
  "generateSnakeLadderLinks boardWidth boardHeight snakeCount ladderCount seed =
     (let totalCells = boardWidth * boardHeight;
          maxCount = maxFeatureCount boardWidth boardHeight
      in bind_res (make_links seededRandom totalCells SnakeLink (nat (clampInt snakeCount 0 maxCount))
             ([], seeded_start seed)) (\<lambda>(snakes, os).
         bind_res (make_links seededRandom totalCells LadderLink (nat (clampInt ladderCount 0 maxCount)) os)
             (\<lambda>(ladders, _). Inr (snakes, ladders))))"

section \<open>Lemmas on cells\<close>

lemma mapToGrid_ok:
  assumes "0 < w" "1 \<le> i" "i \<le> w * h"
  obtains x y where "mapToGrid i w h = Inr (x, y)" "0 \<le> x" "x < w" "0 \<le> y" "y < h" "cellAt y x w h = i"
proof -
  define r c where "r = (i - 1) div w" and "c = (i - 1) mod w"
  have c: "0 \<le> c" "c < w" using assms by (simp_all add: c_def)
  have i: "r * w + c = i - 1" by (simp add: r_def c_def)
  have r0: "0 \<le> r" using assms by (simp add: r_def pos_imp_zdiv_nonneg_iff)
  have "r * w < h * w" using i c assms(3) mult.commute [of w h] by linarith
  then have r1: "r < h" by (rule mult_right_less_imp_less) (use assms in simp)
  define x where "x = (if r mod 2 \<noteq> 0 then w - 1 - c else c)"
  have m: "mapToGrid i w h = Inr (x, h - 1 - r)"
    using assms by (simp add: mapToGrid_def Let_def x_def r_def c_def)
  show ?thesis
  proof (rule that [OF m])
    show "0 \<le> x" "x < w" using c by (auto simp: x_def)
    show "0 \<le> h - 1 - r" "h - 1 - r < h" using r0 r1 by auto
    show "cellAt (h - 1 - r) x w h = i" using i by (simp add: cellAt_def Let_def x_def)
  qed
qed

lemma cellAt_ok:
  assumes "0 \<le> x" "x < w" "0 \<le> y" "y < h"
  shows "1 \<le> cellAt y x w h \<and> cellAt y x w h \<le> w * h \<and> mapToGrid (cellAt y x w h) w h = Inr (x, y)"
proof -
  define r c where "r = h - 1 - y" and "c = (if (h - 1 - y) mod 2 = 0 then x else w - 1 - x)"
  have c: "0 \<le> c" "c < w" using assms by (auto simp: c_def)
  have r: "0 \<le> r" "r \<le> h - 1" using assms by (auto simp: r_def)
  have v: "cellAt y x w h = r * w + c + 1" by (simp add: cellAt_def Let_def r_def c_def)
  have "r * w \<le> (h - 1) * w" using r c by (intro mult_right_mono) auto
  then have "r * w + c + 1 \<le> w * h" using c by (simp add: algebra_simps)
  moreover have "0 \<le> r * w" using r c by simp
  moreover have "(r * w + c) div w = r" "(r * w + c) mod w = c" using c by simp_all
  ultimately show ?thesis using c unfolding v
    by (simp add: mapToGrid_def Let_def) (auto simp: r_def c_def)
qed

lemma mapToGrid_error: "(\<exists>e. mapToGrid i w h = Inl e) \<longleftrightarrow> \<not> (1 \<le> i \<and> i \<le> w * h)"
  by (auto simp: mapToGrid_def Let_def)


lemma div_mod_next:
  fixes k w :: int
  assumes "0 < w"
  shows "((k + 1) div w, (k + 1) mod w) =
     (if k mod w = w - 1 then (k div w + 1, 0) else (k div w, k mod w + 1))"
proof -
  define q r where "q = k div w" and "r = k mod w"
  have k: "k = q * w + r" and r: "0 \<le> r" "r < w" using assms by (simp_all add: q_def r_def)
  show ?thesis
  proof (cases "r = w - 1")
    case True
    then have e: "k + 1 = (q + 1) * w" using k by (simp add: algebra_simps)
    show ?thesis unfolding q_def [symmetric] r_def [symmetric] e using True assms by simp
  next
    case False
    then have "(q * w + (r + 1)) div w = q" "(q * w + (r + 1)) mod w = r + 1" using r by simp_all
    then show ?thesis unfolding q_def [symmetric] r_def [symmetric] using False k by (simp add: add.assoc)
  qed
qed

lemma mapToGrid_adjacent:
  assumes "0 < w" "1 \<le> i" "i < w * h" "mapToGrid i w h = Inr (x, y)" "mapToGrid (i + 1) w h = Inr (x', y')"
  shows "\<bar>x - x'\<bar> + \<bar>y - y'\<bar> = 1"
proof -
  define q r where "q = (i - 1) div w" and "r = (i - 1) mod w"
  have r: "0 \<le> r" "r < w" using assms by (simp_all add: r_def)
  have n: "(i div w, i mod w) = (if r = w - 1 then (q + 1, 0) else (q, r + 1))"
    using div_mod_next [OF assms(1), of "i - 1"] by (simp add: q_def r_def)
  have xy: "y = h - 1 - q" "x = (if q mod 2 \<noteq> 0 then w - 1 - r else r)"
    using assms(2-4) by (simp_all add: mapToGrid_def Let_def q_def r_def split: if_splits)
  have xy': "y' = h - 1 - i div w" "x' = (if i div w mod 2 \<noteq> 0 then w - 1 - i mod w else i mod w)"
    using assms(2,3,5) by (simp_all add: mapToGrid_def Let_def split: if_splits)
  show ?thesis
  proof (cases "r = w - 1")
    case True
    then have n': "i div w = q + 1" "i mod w = 0" using n by simp_all
    have "(q + 1) mod 2 \<noteq> 0 \<longleftrightarrow> q mod 2 = 0" by presburger
    then show ?thesis using True by (simp add: xy xy' n')
  next
    case False
    then have n': "i div w = q" "i mod w = r + 1" using n by simp_all
    show ?thesis by (simp add: xy xy' n')
  qed
qed

lemma cellCenterPercent_grid:
  assumes "0 < w" "0 < h" "mapToGrid (max 1 (min p (w * h))) w h = Inr (x, y)"
  shows "cellCenterPercent p w h =
     (fl (fl ((of_int x + 1/2) / of_int w) * 100), fl (fl ((of_int y + 1/2) / of_int h) * 100))"
  using assms by (auto simp: mapToGrid_def cellCenterPercent_def Let_def split: if_splits)

section \<open>Lemmas on the generator\<close>

interpretation snake_rng: random_source seededRandom nonneg_int
proof unfold_locales
  fix s :: rat
  assume s: "nonneg_int s"
  obtain k where k: "lcg_step 1664525 1013904223 4294967296 s = of_int k" "0 \<le> k" "k < 4294967296"
    using lcg_step_range [OF s, of 1664525 1013904223 4294967296] by auto
  then show "nonneg_int (snd (seededRandom s))"
    by (auto simp: seededRandom_def Let_def)
  show "0 \<le> fst (seededRandom s)" "fst (seededRandom s) \<le> 1 - 1 / 2 ^ 53"
    using k lcg_unit [of k 4294967296] by (simp_all add: seededRandom_def Let_def)
qed

lemma seeded_start_ok: "nonneg_int (seeded_start seed)"
  unfolding seeded_start_def Let_def by (metis abs_ge_zero nonneg_intI of_int_1 zero_le_one)

lemma link_candidates_set:
  "set (link_candidates t os) = {c. 2 \<le> c \<and> c < t \<and> c \<notin> set os}"
proof -
  have "c \<in> (\<lambda>idx. int idx + 2) ` {0..<nat (max 0 (t - 2))}" if "2 \<le> c" "c < t" for c
    using that by (intro image_eqI [of _ _ "nat (c - 2)"]) auto
  then show ?thesis by (auto simp: link_candidates_def)
qed

definition link_ok :: "link_type \<Rightarrow> int \<Rightarrow> snake_link \<Rightarrow> bool" where
  "link_ok ty t k \<longleftrightarrow> 2 \<le> link_start k \<and> link_start k < t \<and>
     (case ty of SnakeLink \<Rightarrow> 1 \<le> link_end k \<and> link_end k < link_start k
      | LadderLink \<Rightarrow> link_start k < link_end k \<and> link_end k \<le> t)"

context random_source
begin

lemma randomInt_range:
  "ok s \<Longrightarrow> a \<le> b \<Longrightarrow> a \<le> randomInt a b (fst (rnd s)) \<and> randomInt a b (fst (rnd s)) \<le> b"
  using index_range [of s "nat (b - a + 1)"] by (auto simp: randomInt_def)

text \<open>The first attempt always succeeds: a snake ends strictly below its start, a ladder above.\<close>

lemma link_attempts_first:
  assumes "ok s" "set cs \<noteq> {}" "\<forall>c \<in> set cs. 2 \<le> c \<and> c < t"
  shows "\<exists>k s'. link_attempts rnd (Suc n) t cs ty s = Inr (Some k, s') \<and> ok s'
     \<and> link_start k \<in> set cs \<and> link_ok ty t k"
proof -
  obtain r1 s1 where 1: "rnd s = (r1, s1)" by force
  obtain r2 s2 where 2: "rnd s1 = (r2, s2)" by force
  have ok: "ok s1" "ok s2" using rnd_ok [OF assms(1)] rnd_ok [of s1] 1 2 by auto
  define j where "j = rand_index r1 (length cs)"
  have j: "0 \<le> j" "j < int (length cs)"
    using index_range [OF assms(1), of "length cs"] assms(2) 1 by (auto simp: j_def)
  define c where "c = cs ! nat j"
  have c: "c \<in> set cs" using j by (simp add: c_def)
  then have cr: "2 \<le> c" "c < t" using assms(3) by auto
  have s: "1 \<le> randomInt 1 (c - 1) r2" "randomInt 1 (c - 1) r2 \<le> c - 1"
    using randomInt_range [OF ok(1), of 1 "c - 1"] 2 cr by simp_all
  have l: "c + 1 \<le> randomInt (c + 1) t r2" "randomInt (c + 1) t r2 \<le> t"
    using randomInt_range [OF ok(1), of "c + 1" t] 2 cr by simp_all
  show ?thesis
    using assms(2) 1 2 ok j s l cr c
    by (cases ty) (auto simp: link_ok_def Let_def j_def [symmetric] c_def [symmetric])
qed

lemma makeLink_ok:
  assumes "ok s" "set (link_candidates t os) \<noteq> {}"
  shows "\<exists>k s'. makeLink rnd t ty (os, s) = Inr (Some k, os @ [link_start k], s') \<and> ok s'
     \<and> link_start k \<notin> set os \<and> link_ok ty t k"
proof -
  have "\<exists>k s'. link_attempts rnd (Suc 79) t (link_candidates t os) ty s = Inr (Some k, s') \<and> ok s'
     \<and> link_start k \<in> set (link_candidates t os) \<and> link_ok ty t k"
    using assms by (intro link_attempts_first) (auto simp: link_candidates_set)
  then show ?thesis by (auto simp: makeLink_def link_candidates_set simp del: link_attempts.simps)
qed

text \<open>There are cells left as long as fewer origins are taken than there are inner cells.\<close>

lemma candidates_left:
  assumes "distinct os" "set os \<subseteq> {2..<t}" "int (length os) < t - 2"
  shows "set (link_candidates t os) \<noteq> {}"
proof
  assume "set (link_candidates t os) = {}"
  then have "{2..<t} \<subseteq> set os" by (auto simp: link_candidates_set)
  then have "card {2..<t} \<le> card (set os)" by (intro card_mono) auto
  then show False using assms by (simp add: distinct_card)
qed

lemma make_links_ok:
  "ok s \<Longrightarrow> distinct os \<Longrightarrow> set os \<subseteq> {2..<t} \<Longrightarrow> int (length os) + int n \<le> t - 2 \<Longrightarrow>
   \<exists>ls s'. make_links rnd t ty n (os, s) = Inr (ls, os @ map link_start ls, s') \<and> ok s'
     \<and> length ls = n \<and> distinct (os @ map link_start ls) \<and> list_all (link_ok ty t) ls"
proof (induction n arbitrary: os s)
  case 0
  then show ?case by simp
next
  case (Suc n)
  obtain k s1 where k: "makeLink rnd t ty (os, s) = Inr (Some k, os @ [link_start k], s1)" "ok s1"
      "link_start k \<notin> set os" "link_ok ty t k"
    using makeLink_ok [OF Suc.prems(1) candidates_left [OF Suc.prems(2,3)], where ty = ty] Suc.prems(4) by auto
  have "link_start k \<in> {2..<t}" using k(4) by (simp add: link_ok_def)
  then obtain ls s' where "make_links rnd t ty n (os @ [link_start k], s1)
        = Inr (ls, (os @ [link_start k]) @ map link_start ls, s')" "ok s'" "length ls = n"
      "distinct ((os @ [link_start k]) @ map link_start ls)" "list_all (link_ok ty t) ls"
    using Suc.IH [OF k(2), of "os @ [link_start k]"] Suc.prems k(3) by auto
  then show ?case using k by simp
qed

end


lemma clampInt_range: "mn \<le> mx \<Longrightarrow> mn \<le> clampInt v mn mx \<and> clampInt v mn mx \<le> mx"
  by (simp add: clampInt_def Let_def)

lemma maxFeatureCount_fits: "2 * maxFeatureCount w h \<le> max 0 (w * h - 2)"
  by (auto simp: maxFeatureCount_def)

section \<open>Properties\<close>

text \<open>The numbering of the board and its inverse agree: every number from 1 to width times height
  has exactly one cell on the board and back, every cell has a number, numbers outside raise the
  error, and consecutive numbers are neighbouring cells (the boustrophedon path).\<close>

theorem board_numbering:
  assumes "0 < w"
  shows "((1 \<le> i \<and> i \<le> w * h) = (\<exists>x y. mapToGrid i w h = Inr (x, y)))
    \<and> (mapToGrid i w h = Inr (x, y) \<longleftrightarrow> 0 \<le> x \<and> x < w \<and> 0 \<le> y \<and> y < h \<and> cellAt y x w h = i)
    \<and> (mapToGrid i w h = Inr (x, y) \<longrightarrow> mapToGrid (i + 1) w h = Inr (x', y') \<longrightarrow>
         \<bar>x - x'\<bar> + \<bar>y - y'\<bar> = 1)"
proof (intro conjI impI)
  show "(1 \<le> i \<and> i \<le> w * h) = (\<exists>x y. mapToGrid i w h = Inr (x, y))"
    using mapToGrid_error [of i w h] by (cases "mapToGrid i w h") auto
  show "mapToGrid i w h = Inr (x, y) \<longleftrightarrow> 0 \<le> x \<and> x < w \<and> 0 \<le> y \<and> y < h \<and> cellAt y x w h = i"
  proof
    assume m: "mapToGrid i w h = Inr (x, y)"
    then have "1 \<le> i" "i \<le> w * h" by (auto simp: mapToGrid_def split: if_splits)
    then show "0 \<le> x \<and> x < w \<and> 0 \<le> y \<and> y < h \<and> cellAt y x w h = i"
      using mapToGrid_ok [OF assms] m by (metis Inr_inject Pair_inject)
  qed (use cellAt_ok in blast)
  assume m: "mapToGrid i w h = Inr (x, y)" "mapToGrid (i + 1) w h = Inr (x', y')"
  then have "1 \<le> i" "i < w * h" by (auto simp: mapToGrid_def split: if_splits)
  then show "\<bar>x - x'\<bar> + \<bar>y - y'\<bar> = 1" using mapToGrid_adjacent [OF assms] m by blast
qed

theorem board_numbering_witness:
  "cellAt 1 2 3 4 = 9 \<and> mapToGrid 9 3 4 = Inr (2, 1)"
  using board_numbering [of 3 9 4 2 1 2 0] by (simp add: mapToGrid_def)

lemma links_valid:
  "\<exists>snakes ladders. generateSnakeLadderLinks w h sc lc seed = Inr (snakes, ladders)
     \<and> int (length snakes) = clampInt sc 0 (maxFeatureCount w h)
     \<and> int (length ladders) = clampInt lc 0 (maxFeatureCount w h)
     \<and> list_all (link_ok SnakeLink (w * h)) snakes \<and> list_all (link_ok LadderLink (w * h)) ladders
     \<and> distinct (map link_start snakes @ map link_start ladders)"
proof -
  define m where "m = maxFeatureCount w h"
  define a b where "a = clampInt sc 0 m" and "b = clampInt lc 0 m"
  have m0: "0 \<le> m" by (simp add: m_def maxFeatureCount_def)
  have ab: "0 \<le> a" "a \<le> m" "0 \<le> b" "b \<le> m"
    using clampInt_range [OF m0] by (simp_all add: a_def b_def)
  have t: "2 * m \<le> max 0 (w * h - 2)" unfolding m_def by (rule maxFeatureCount_fits)
  show ?thesis
  proof (cases "m = 0")
    case True
    then have "clampInt sc 0 m = 0" "clampInt lc 0 m = 0" by (simp_all add: clampInt_def Let_def)
    then show ?thesis by (simp add: generateSnakeLadderLinks_def Let_def flip: m_def)
  next
    case False
    then have fits: "a + b \<le> w * h - 2" using ab t m0 by linarith
    obtain ss s1 where ss: "make_links seededRandom (w * h) SnakeLink (nat a) ([], seeded_start seed)
          = Inr (ss, [] @ map link_start ss, s1)" "nonneg_int s1" "length ss = nat a"
        "distinct ([] @ map link_start ss)" "list_all (link_ok SnakeLink (w * h)) ss"
      using snake_rng.make_links_ok [OF seeded_start_ok [of seed], where os = "[]" and t = "w * h" and n = "nat a" and ty = SnakeLink]
        fits ab by auto
    have "set (map link_start ss) \<subseteq> {2..<w * h}"
      using ss(5) by (auto simp: list_all_iff link_ok_def)
    then obtain ls s2 where ls: "make_links seededRandom (w * h) LadderLink (nat b) (map link_start ss, s1)
          = Inr (ls, map link_start ss @ map link_start ls, s2)" "length ls = nat b"
        "distinct (map link_start ss @ map link_start ls)" "list_all (link_ok LadderLink (w * h)) ls"
      using snake_rng.make_links_ok [OF ss(2), where os = "map link_start ss" and t = "w * h" and n = "nat b" and ty = LadderLink]
        ss(3,4) fits ab by auto
    have "generateSnakeLadderLinks w h sc lc seed = Inr (ss, ls)"
      using ss(1) ls(1) by (simp add: generateSnakeLadderLinks_def Let_def flip: m_def a_def b_def)
    then show ?thesis using ss(3,5) ls(2-4) ab by (auto simp flip: m_def a_def b_def)
  qed
qed

text \<open>C19: The generator delivers what the form asks for: on every board, for every seed and any
  requested counts (NaN included), it returns exactly the clamped numbers of snakes and ladders;
  snakes go down, ladders go up, all ends are on the board, no start is the first or the last cell
  and no two links share a start. The 80 attempts are never exhausted.\<close>

theorem generated_links_valid:
  "\<exists>snakes ladders. generateSnakeLadderLinks w h sc lc seed = Inr (snakes, ladders)
     \<and> int (length snakes) = clampInt sc 0 (maxFeatureCount w h)
     \<and> int (length ladders) = clampInt lc 0 (maxFeatureCount w h)
     \<and> list_all (link_ok SnakeLink (w * h)) snakes \<and> list_all (link_ok LadderLink (w * h)) ladders
     \<and> distinct (map link_start snakes @ map link_start ladders)"
  by (rule links_valid)

end
