(* ===== verification/SnakesEngine.thy ===== *)
theory SnakesEngine
  imports SnakesLayout
begin

text \<open>
  The snakes-and-ladders engine: \<open>packages/engine/src/games/snakes/SnakeLadderEngine.ts\<close> with the
  weighted choice of \<open>WeightedRandom.ts\<close>, and the forfeited turn of
  \<open>src/features/games/components/SnakeLadderGame.tsx\<close>. The engine is refined to an abstract board
  game in which a turn is one die between 1 and 6.
\<close>

section \<open>Weighted choice\<close>

fun weight_sum :: "rat \<Rightarrow> rat list \<Rightarrow> rat res" where
  "weight_sum acc [] = Inr acc"
| "weight_sum acc (w # ws) =
     (if w < 0 then Inl (JsError ''Negative weight not allowed'') else weight_sum (fl (acc + w)) ws)"

text \<open>The selection loop; \<open>last\<close> is the value after the loop, \<open>options[options.length - 1]\<close>.\<close>

fun weighted_pick :: "'a \<Rightarrow> ('a \<times> rat) list \<Rightarrow> rat \<Rightarrow> 'a" where
  "weighted_pick final [] r = final"
| "weighted_pick final ((x, w) # rest) r =
     (let r' = fl (r - w) in if r' \<le> 0 then x else weighted_pick final rest r')"

definition weightedRandom :: "'a list \<Rightarrow> rat list \<Rightarrow> ('s \<Rightarrow> rat \<times> 's) \<Rightarrow> 's \<Rightarrow> ('a \<times> 's) res" where
  "weightedRandom options weights random s =
     (if length options = 0 \<or> length options \<noteq> length weights
      then Inl (JsError ''Invalid options or weights'')
      else bind_res (weight_sum 0 weights) (\<lambda>total.
        if total = 0 then Inl (JsError ''Total weight cannot be zero'')
        else let (r, s') = random s
             in Inr (weighted_pick (last options) (zip options weights) (fl (r * total)), s')))"

section \<open>Engine\<close>

datatype GameState = Idle | Starting | PlayerTurn | PlayerRolling | PlayerMoving | ResolvingPlayerTile
  | AiTurn | AiThinking | AiRolling | AiMoving | ResolvingAiTile | GameOver

datatype sl_who = Player | AI

datatype ai_level = EASY | MEDIUM | HARD

record sl_state =
  sl_phase :: GameState
  sl_playerPosition :: int
  sl_aiPosition :: int
  sl_winner :: "sl_who option"
  sl_lastRoll :: int
  sl_message :: string

record sl_config =
  sl_boardSize :: int
  sl_startPosition :: "int option"
  sl_endPosition :: "int option"
  sl_snakes :: "snake_link list"
  sl_ladders :: "snake_link list"
  sl_aiDifficulty :: ai_level

definition winPosition :: "sl_config \<Rightarrow> int" where
  "winPosition c = (case sl_endPosition c of Some e \<Rightarrow> e | None \<Rightarrow> sl_boardSize c)"

definition sl_new :: "sl_config \<Rightarrow> sl_state" where
  "sl_new c =
     (let startPosition = (case sl_startPosition c of Some p \<Rightarrow> p | None \<Rightarrow> 1)
      in \<lparr>sl_phase = Idle, sl_playerPosition = startPosition, sl_aiPosition = startPosition,
          sl_winner = None, sl_lastRoll = 0, sl_message = []\<rparr>)"

definition sl_start :: "sl_state \<Rightarrow> sl_state res" where
  "sl_start st =
     (if sl_phase st \<noteq> Idle then Inl (JsError ''Can only start from idle'')
      else Inr (st\<lparr>sl_phase := PlayerTurn,
                   sl_message := CHR 0xA1 # ''Juego iniciado. Tu turno!''\<rparr>))"

definition find_link :: "int \<Rightarrow> snake_link list \<Rightarrow> snake_link option" where
  "find_link position links = find (\<lambda>l. link_start l = position) links"

definition who_name :: "sl_who \<Rightarrow> string" where
  "who_name who = (case who of Player \<Rightarrow> CHR 0xA1 # ''El jugador'' | AI \<Rightarrow> CHR 0xA1 # ''La IA'')"

definition resolveTile :: "sl_config \<Rightarrow> sl_who \<Rightarrow> int \<Rightarrow> sl_state \<Rightarrow> sl_state" where
  "resolveTile c who position st =
     (let finalPos = position;
          (finalPos, st) = (case find_link position (sl_snakes c) of
              Some snake \<Rightarrow> (link_end snake, st\<lparr>sl_message := who_name who @ '' cay'' @ [CHR 0xF3] @ '' en una serpiente!''\<rparr>)
            | None \<Rightarrow> (finalPos, st));
          (finalPos, st) = (case find_link position (sl_ladders c) of
              Some ladder \<Rightarrow> (link_end ladder, st\<lparr>sl_message := who_name who @ '' encontr'' @ [CHR 0xF3] @ '' una escalera!''\<rparr>)
            | None \<Rightarrow> (finalPos, st))
      in case who of
           Player \<Rightarrow>
             (let st = st\<lparr>sl_playerPosition := finalPos\<rparr>
              in if finalPos = winPosition c
                 then st\<lparr>sl_phase := GameOver, sl_winner := Some Player,
                         sl_message := CHR 0xA1 # ''El jugador gana!''\<rparr>
                 else st\<lparr>sl_phase := AiTurn, sl_message := ''AI'' @ [CHR 0x27] @ ''s turn''\<rparr>)
         | AI \<Rightarrow>
             (let st = st\<lparr>sl_aiPosition := finalPos\<rparr>
              in if finalPos = winPosition c
                 then st\<lparr>sl_phase := GameOver, sl_winner := Some AI,
                         sl_message := CHR 0xA1 # ''La IA gana!''\<rparr>
                 else st\<lparr>sl_phase := PlayerTurn, sl_message := ''Player'' @ [CHR 0x27] @ ''s turn''\<rparr>))"

definition rollPlayer :: "sl_config \<Rightarrow> ('s \<Rightarrow> rat \<times> 's) \<Rightarrow> sl_state \<times> 's \<Rightarrow> (sl_state \<times> 's) res" where
  "rollPlayer c random = (\<lambda>(st, s).
     if sl_phase st \<noteq> PlayerTurn then Inl (JsError (''Not player'' @ [CHR 0x27] @ ''s turn to roll''))
     else let st = st\<lparr>sl_phase := PlayerRolling\<rparr>;
              (r, s) = random s;
              roll = rand_index r 6 + 1;
              st = st\<lparr>sl_lastRoll := roll\<rparr>;
              st = st\<lparr>sl_phase := PlayerMoving\<rparr>;
              target = sl_playerPosition st + roll;
              endPosition = winPosition c;
              target = (if target > endPosition then endPosition - (target - endPosition) else target);
              st = st\<lparr>sl_playerPosition := target\<rparr>;
              st = st\<lparr>sl_phase := ResolvingPlayerTile\<rparr>
          in Inr (resolveTile c Player target st, s))"

datatype ai_decision = FAIL | OPTIMAL

definition failProbability :: "sl_config \<Rightarrow> int \<Rightarrow> rat" where
  "failProbability c remaining =
     (let p = 0;
          p = (if sl_aiDifficulty c = HARD then fl (1/10) else p);
          p = (if sl_aiDifficulty c = EASY then fl (8/10) else p)
      in if remaining \<le> 10 then fl (8/10) else p)"

definition playAITurn :: "sl_config \<Rightarrow> ('s \<Rightarrow> rat \<times> 's) \<Rightarrow> sl_state \<times> 's \<Rightarrow> (sl_state \<times> 's) res" where
  "playAITurn c random = (\<lambda>(st, s).
     if sl_phase st \<noteq> AiTurn then Inl (JsError (''Not AI'' @ [CHR 0x27] @ ''s turn''))
     else let st = st\<lparr>sl_phase := AiThinking\<rparr>;
              endPosition = winPosition c;
              remaining = endPosition - sl_aiPosition st;
              p = failProbability c remaining
          in bind_res (weightedRandom [FAIL, OPTIMAL] [p, fl (1 - p)] random s) (\<lambda>(decision, s).
               let (r, s) = random s;
                   roll = rand_index r 6 + 1;
                   roll = (if decision = OPTIMAL \<and> remaining \<le> 6 then remaining else roll);
                   st = st\<lparr>sl_lastRoll := roll\<rparr>;
                   st = st\<lparr>sl_phase := AiRolling\<rparr>;
                   st = st\<lparr>sl_phase := AiMoving\<rparr>;
                   target = sl_aiPosition st + roll;
                   target = (if target > endPosition then endPosition - (target - endPosition) else target);
                   st = st\<lparr>sl_aiPosition := target\<rparr>;
                   st = st\<lparr>sl_phase := ResolvingAiTile\<rparr>
               in Inr (resolveTile c AI target st, s)))"

text \<open>The wrong answer in \<open>handleAnswer\<close>: the screen writes the engine's state.\<close>

definition forfeit_message :: string where
  "forfeit_message = CHR 0xA1 # ''Respuesta incorrecta! La pregunta vuelve a la cola. Pierdes el turno.''"

definition forfeit_turn :: "sl_state \<Rightarrow> sl_state" where
  "forfeit_turn st = st\<lparr>sl_message := forfeit_message, sl_phase := AiTurn\<rparr>"

section \<open>Abstract game\<close>

text \<open>
  What a turn promises: the die moves the token forward, overshooting the last cell bounces back,
  and a ladder, or else a snake, that starts on the reached cell carries the token to its end.
\<close>

definition land :: "int \<Rightarrow> int \<Rightarrow> int \<Rightarrow> int" where
  "land goal p roll = (if p + roll > goal then 2 * goal - (p + roll) else p + roll)"

definition carried :: "sl_config \<Rightarrow> int \<Rightarrow> int" where
  "carried c p =
     (case find_link p (sl_ladders c) of Some l \<Rightarrow> link_end l
      | None \<Rightarrow> (case find_link p (sl_snakes c) of Some k \<Rightarrow> link_end k | None \<Rightarrow> p))"

datatype abs_turn = ATurn sl_who | AOver sl_who

record abs_game =
  ab_player :: int
  ab_ai :: int
  ab_turn :: abs_turn

inductive abs_step :: "sl_config \<Rightarrow> abs_game \<Rightarrow> abs_game \<Rightarrow> bool" for c where
  abs_player: "ab_turn g = ATurn Player \<Longrightarrow> 1 \<le> d \<Longrightarrow> d \<le> 6 \<Longrightarrow>
     p = carried c (land (winPosition c) (ab_player g) d) \<Longrightarrow>
     abs_step c g (g\<lparr>ab_player := p,
                    ab_turn := (if p = winPosition c then AOver Player else ATurn AI)\<rparr>)"
| abs_ai: "ab_turn g = ATurn AI \<Longrightarrow> 1 \<le> d \<Longrightarrow> d \<le> 6 \<Longrightarrow>
     p = carried c (land (winPosition c) (ab_ai g) d) \<Longrightarrow>
     abs_step c g (g\<lparr>ab_ai := p,
                    ab_turn := (if p = winPosition c then AOver AI else ATurn Player)\<rparr>)"
| abs_forfeit: "ab_turn g = ATurn Player \<Longrightarrow> abs_step c g (g\<lparr>ab_turn := ATurn AI\<rparr>)"

definition abs_of :: "sl_state \<Rightarrow> abs_game option" where
  "abs_of st =
     (case sl_phase st of
        PlayerTurn \<Rightarrow> Some \<lparr>ab_player = sl_playerPosition st, ab_ai = sl_aiPosition st, ab_turn = ATurn Player\<rparr>
      | AiTurn \<Rightarrow> Some \<lparr>ab_player = sl_playerPosition st, ab_ai = sl_aiPosition st, ab_turn = ATurn AI\<rparr>
      | GameOver \<Rightarrow> (case sl_winner st of
            Some w \<Rightarrow> Some \<lparr>ab_player = sl_playerPosition st, ab_ai = sl_aiPosition st, ab_turn = AOver w\<rparr>
          | None \<Rightarrow> None)
      | _ \<Rightarrow> None)"

inductive_cases abs_step_cases: "abs_step c g g'"

section \<open>Lemmas\<close>

lemma resolveTile_fields:
  "sl_playerPosition (resolveTile c Player p st) = carried c p"
  "sl_aiPosition (resolveTile c Player p st) = sl_aiPosition st"
  "sl_aiPosition (resolveTile c AI p st) = carried c p"
  "sl_playerPosition (resolveTile c AI p st) = sl_playerPosition st"
  "sl_lastRoll (resolveTile c who p st) = sl_lastRoll st"
  "sl_phase (resolveTile c who p st) =
     (if carried c p = winPosition c then GameOver else (case who of Player \<Rightarrow> AiTurn | AI \<Rightarrow> PlayerTurn))"
  "sl_winner (resolveTile c who p st) = (if carried c p = winPosition c then Some who else sl_winner st)"
  by (auto simp: resolveTile_def carried_def Let_def split: option.splits sl_who.splits)

lemma rollPlayer_cases:
  assumes "rollPlayer c random (st, s) = Inr (st', s')"
  shows "sl_phase st = PlayerTurn" "s' = snd (random s)"
    "st' = resolveTile c Player (land (winPosition c) (sl_playerPosition st) (rand_index (fst (random s)) 6 + 1))
       (st\<lparr>sl_lastRoll := rand_index (fst (random s)) 6 + 1,
           sl_playerPosition := land (winPosition c) (sl_playerPosition st) (rand_index (fst (random s)) 6 + 1),
           sl_phase := ResolvingPlayerTile\<rparr>)"
  using assms
  by (auto simp: rollPlayer_def Let_def land_def algebra_simps split: if_splits prod.splits)


text \<open>The weights of the decision always add up to one, so the weighted choice never throws.\<close>

lemma fail_weights:
  "weight_sum 0 [failProbability c remaining, fl (1 - failProbability c remaining)] = Inr 1"
proof -
  have "failProbability c remaining \<in> {0, fl (1/10), fl (8/10)}"
    by (auto simp: failProbability_def Let_def)
  moreover have "weight_sum 0 [0, fl (1 - 0)] = Inr 1" by code_simp
  moreover have "weight_sum 0 [fl (1/10), fl (1 - fl (1/10))] = Inr 1" by code_simp
  moreover have "weight_sum 0 [fl (8/10), fl (1 - fl (8/10))] = Inr 1" by code_simp
  ultimately show ?thesis by (auto simp del: weight_sum.simps)
qed

definition ai_decides :: "sl_config \<Rightarrow> int \<Rightarrow> rat \<Rightarrow> ai_decision" where
  "ai_decides c remaining r =
     weighted_pick OPTIMAL [(FAIL, failProbability c remaining), (OPTIMAL, fl (1 - failProbability c remaining))]
       (fl (r * 1))"

lemma decision_draw:
  "weightedRandom [FAIL, OPTIMAL] [failProbability c remaining, fl (1 - failProbability c remaining)] random s
     = Inr (ai_decides c remaining (fst (random s)), snd (random s))"
proof -
  obtain r s' where "random s = (r, s')" by force
  then show ?thesis
    by (simp add: weightedRandom_def fail_weights ai_decides_def del: weight_sum.simps weighted_pick.simps)
qed

definition ai_roll :: "sl_config \<Rightarrow> int \<Rightarrow> rat \<Rightarrow> rat \<Rightarrow> int" where
  "ai_roll c remaining r1 r2 =
     (if ai_decides c remaining r1 = OPTIMAL \<and> remaining \<le> 6 then remaining else rand_index r2 6 + 1)"

lemma playAITurn_eq:
  assumes "sl_phase st = AiTurn"
  shows "playAITurn c random (st, s) =
    (let s1 = snd (random s);
         roll = ai_roll c (winPosition c - sl_aiPosition st) (fst (random s)) (fst (random s1));
         p = land (winPosition c) (sl_aiPosition st) roll
     in Inr (resolveTile c AI p (st\<lparr>sl_lastRoll := roll, sl_aiPosition := p, sl_phase := ResolvingAiTile\<rparr>),
             snd (random s1)))"
  using assms
  by (simp add: playAITurn_def Let_def decision_draw ai_roll_def land_def algebra_simps split: prod.splits)

lemma playAITurn_phase: "playAITurn c random (st, s) = Inr q \<Longrightarrow> sl_phase st = AiTurn"
  by (simp add: playAITurn_def split: if_splits)

lemma rollPlayer_total:
  "sl_phase st = PlayerTurn \<Longrightarrow> \<exists>st'. rollPlayer c random (st, s) = Inr (st', snd (random s))"
  by (simp add: rollPlayer_def Let_def split: prod.splits)

section \<open>Invariant\<close>

definition sl_config_ok :: "sl_config \<Rightarrow> bool" where
  "sl_config_ok c \<longleftrightarrow> 6 \<le> winPosition c
     \<and> (case sl_startPosition c of Some p \<Rightarrow> 1 \<le> p \<and> p < winPosition c | None \<Rightarrow> True)
     \<and> list_all (\<lambda>l. 1 \<le> link_end l \<and> link_end l \<le> winPosition c) (sl_snakes c @ sl_ladders c)"

definition sl_inv :: "sl_config \<Rightarrow> sl_state \<Rightarrow> bool" where
  "sl_inv c st \<longleftrightarrow>
     1 \<le> sl_playerPosition st \<and> sl_playerPosition st \<le> winPosition c
     \<and> 1 \<le> sl_aiPosition st \<and> sl_aiPosition st \<le> winPosition c
     \<and> (sl_winner st = Some Player \<longleftrightarrow> sl_playerPosition st = winPosition c)
     \<and> (sl_winner st = Some AI \<longleftrightarrow> sl_aiPosition st = winPosition c)
     \<and> (sl_phase st = GameOver \<longleftrightarrow> sl_winner st \<noteq> None)
     \<and> sl_phase st \<in> {Idle, PlayerTurn, AiTurn, GameOver}"

lemma sl_new_inv: "sl_config_ok c \<Longrightarrow> sl_inv c (sl_new c)"
  by (auto simp: sl_inv_def sl_new_def sl_config_ok_def Let_def split: option.splits)

lemma carried_range:
  "sl_config_ok c \<Longrightarrow> 1 \<le> p \<Longrightarrow> p \<le> winPosition c \<Longrightarrow> 1 \<le> carried c p \<and> carried c p \<le> winPosition c"
  by (auto simp: carried_def sl_config_ok_def find_link_def list_all_iff split: option.splits
      dest!: find_Some_iff [THEN iffD1])

lemma land_range:
  "6 \<le> goal \<Longrightarrow> 1 \<le> p \<Longrightarrow> p < goal \<Longrightarrow> 1 \<le> d \<Longrightarrow> d \<le> 6 \<Longrightarrow> 1 \<le> land goal p d \<and> land goal p d \<le> goal"
  by (auto simp: land_def)

lemma sl_inv_turn:
  assumes "sl_inv c st" "sl_phase st \<noteq> GameOver"
  shows "sl_playerPosition st < winPosition c" "sl_aiPosition st < winPosition c" "sl_winner st = None"
  using assms by (auto simp: sl_inv_def)

lemma resolve_inv:
  assumes "sl_config_ok c" "sl_inv c st" "sl_phase st \<noteq> GameOver" "1 \<le> d" "d \<le> 6"
  shows "sl_inv c (resolveTile c Player (land (winPosition c) (sl_playerPosition st) d)
           (st\<lparr>sl_lastRoll := d, sl_playerPosition := x, sl_phase := ph\<rparr>))"
    and "sl_inv c (resolveTile c AI (land (winPosition c) (sl_aiPosition st) d)
           (st\<lparr>sl_lastRoll := d, sl_aiPosition := x, sl_phase := ph\<rparr>))"
proof -
  note t = sl_inv_turn [OF assms(2,3)]
  have pos: "1 \<le> sl_playerPosition st" "1 \<le> sl_aiPosition st" using assms(2) by (simp_all add: sl_inv_def)
  have "6 \<le> winPosition c" using assms(1) by (simp add: sl_config_ok_def)
  then have "1 \<le> carried c (land (winPosition c) (sl_playerPosition st) d)
      \<and> carried c (land (winPosition c) (sl_playerPosition st) d) \<le> winPosition c"
    using land_range assms(4,5) t pos by (intro carried_range assms(1)) blast+
  then show "sl_inv c (resolveTile c Player (land (winPosition c) (sl_playerPosition st) d)
           (st\<lparr>sl_lastRoll := d, sl_playerPosition := x, sl_phase := ph\<rparr>))"
    using t pos by (auto simp: sl_inv_def resolveTile_fields)
  have "6 \<le> winPosition c" using assms(1) by (simp add: sl_config_ok_def)
  then have "1 \<le> carried c (land (winPosition c) (sl_aiPosition st) d)
      \<and> carried c (land (winPosition c) (sl_aiPosition st) d) \<le> winPosition c"
    using land_range assms(4,5) t pos by (intro carried_range assms(1)) blast+
  then show "sl_inv c (resolveTile c AI (land (winPosition c) (sl_aiPosition st) d)
           (st\<lparr>sl_lastRoll := d, sl_aiPosition := x, sl_phase := ph\<rparr>))"
    using t pos by (auto simp: sl_inv_def resolveTile_fields)
qed


lemma find_link_range:
  "find_link p ls = Some l \<Longrightarrow> l \<in> set ls"
  by (auto simp: find_link_def find_Some_iff)

section \<open>Runs\<close>

text \<open>
  The calls the screen makes: \<open>start\<close>, a roll of the player, a turn of the AI, and the forfeit of a
  turn after a wrong answer, which the screen writes into the engine's state without asking for its
  phase. Any other call in the wrong phase throws.
\<close>

datatype sl_op = CallStart | CallRoll | CallAI | CallForfeit

fun sl_call :: "sl_config \<Rightarrow> ('s \<Rightarrow> rat \<times> 's) \<Rightarrow> sl_op \<Rightarrow> sl_state \<times> 's \<Rightarrow> (sl_state \<times> 's) res" where
  "sl_call c random CallStart (st, s) = bind_res (sl_start st) (\<lambda>st'. Inr (st', s))"
| "sl_call c random CallRoll (st, s) = rollPlayer c random (st, s)"
| "sl_call c random CallAI (st, s) = playAITurn c random (st, s)"
| "sl_call c random CallForfeit (st, s) = Inr (forfeit_turn st, s)"

fun sl_calls :: "sl_config \<Rightarrow> ('s \<Rightarrow> rat \<times> 's) \<Rightarrow> sl_op list \<Rightarrow> sl_state \<times> 's \<Rightarrow> (sl_state \<times> 's) res" where
  "sl_calls c random [] q = Inr q"
| "sl_calls c random (k # ks) q = bind_res (sl_call c random k q) (sl_calls c random ks)"

text \<open>A sequence of calls that forfeits a turn only while it is the player's.\<close>

fun forfeits_on_turn :: "sl_config \<Rightarrow> ('s \<Rightarrow> rat \<times> 's) \<Rightarrow> sl_op list \<Rightarrow> sl_state \<times> 's \<Rightarrow> bool" where
  "forfeits_on_turn c random [] q = True"
| "forfeits_on_turn c random (k # ks) q =
     ((k = CallForfeit \<longrightarrow> sl_phase (fst q) = PlayerTurn)
      \<and> (case sl_call c random k q of Inl e \<Rightarrow> True | Inr q' \<Rightarrow> forfeits_on_turn c random ks q'))"

context random_source
begin

lemma die_range: "ok s \<Longrightarrow> 1 \<le> rand_index (fst (rnd s)) 6 + 1 \<and> rand_index (fst (rnd s)) 6 + 1 \<le> 6"
  using index_range [of s 6] by auto

lemma ai_roll_range:
  "ok s \<Longrightarrow> 1 \<le> remaining \<Longrightarrow>
   1 \<le> ai_roll c remaining r (fst (rnd s)) \<and> ai_roll c remaining r (fst (rnd s)) \<le> 6"
  using die_range by (auto simp: ai_roll_def)

lemma rollPlayer_spec:
  assumes "rollPlayer c rnd (st, s) = Inr (st', s')" "ok s" "sl_config_ok c" "sl_inv c st"
  shows "sl_inv c st'" "ok s'"
    and "\<exists>g g'. abs_of st = Some g \<and> abs_of st' = Some g' \<and> abs_step c g g'"
proof -
  note r = rollPlayer_cases [OF assms(1)]
  let ?d = "rand_index (fst (rnd s)) 6 + 1"
  have d: "1 \<le> ?d" "?d \<le> 6" using die_range [OF assms(2)] by auto
  show "sl_inv c st'" unfolding r(3) using r(1) d by (intro resolve_inv assms) auto
  show "ok s'" using r(2) rnd_ok assms(2) by simp
  have w: "sl_winner st = None" using assms(4) r(1) by (auto simp: sl_inv_def)
  define g where "g = \<lparr>ab_player = sl_playerPosition st, ab_ai = sl_aiPosition st, ab_turn = ATurn Player\<rparr>"
  have g: "abs_of st = Some g" using r(1) by (simp add: abs_of_def g_def)
  define p where "p = carried c (land (winPosition c) (ab_player g) ?d)"
  have "abs_of st' = Some (g\<lparr>ab_player := p, ab_turn := (if p = winPosition c then AOver Player else ATurn AI)\<rparr>)"
    unfolding r(3) using w by (simp add: abs_of_def resolveTile_fields p_def g_def)
  moreover have "abs_step c g (g\<lparr>ab_player := p, ab_turn := (if p = winPosition c then AOver Player else ATurn AI)\<rparr>)"
    by (rule abs_player [of g ?d]) (use d in \<open>simp_all add: g_def p_def\<close>)
  ultimately show "\<exists>g g'. abs_of st = Some g \<and> abs_of st' = Some g' \<and> abs_step c g g'"
    using g by blast
qed

lemma playAITurn_spec:
  assumes "playAITurn c rnd (st, s) = Inr (st', s')" "ok s" "sl_config_ok c" "sl_inv c st"
  shows "sl_inv c st'" "ok s'"
    and "\<exists>g g'. abs_of st = Some g \<and> abs_of st' = Some g' \<and> abs_step c g g'"
proof -
  have ph: "sl_phase st = AiTurn" by (rule playAITurn_phase [OF assms(1)])
  define d where "d = ai_roll c (winPosition c - sl_aiPosition st) (fst (rnd s)) (fst (rnd (snd (rnd s))))"
  have st': "st' = resolveTile c AI (land (winPosition c) (sl_aiPosition st) d)
      (st\<lparr>sl_lastRoll := d, sl_aiPosition := land (winPosition c) (sl_aiPosition st) d, sl_phase := ResolvingAiTile\<rparr>)"
    and s': "s' = snd (rnd (snd (rnd s)))"
    using assms(1) by (simp_all add: playAITurn_eq [OF ph] Let_def d_def)
  have "sl_aiPosition st < winPosition c" using sl_inv_turn [OF assms(4)] ph by simp
  then have d: "1 \<le> d" "d \<le> 6" unfolding d_def using ai_roll_range rnd_ok assms(2) by auto
  show "sl_inv c st'" unfolding st' using ph d by (intro resolve_inv assms) auto
  show "ok s'" using s' rnd_ok assms(2) by simp
  have w: "sl_winner st = None" using assms(4) ph by (auto simp: sl_inv_def)
  define g where "g = \<lparr>ab_player = sl_playerPosition st, ab_ai = sl_aiPosition st, ab_turn = ATurn AI\<rparr>"
  have g: "abs_of st = Some g" using ph by (simp add: abs_of_def g_def)
  define p where "p = carried c (land (winPosition c) (ab_ai g) d)"
  have "abs_of st' = Some (g\<lparr>ab_ai := p, ab_turn := (if p = winPosition c then AOver AI else ATurn Player)\<rparr>)"
    unfolding st' using w by (simp add: abs_of_def resolveTile_fields p_def g_def)
  moreover have "abs_step c g (g\<lparr>ab_ai := p, ab_turn := (if p = winPosition c then AOver AI else ATurn Player)\<rparr>)"
    by (rule abs_ai [of g d]) (use d in \<open>simp_all add: g_def p_def\<close>)
  ultimately show "\<exists>g g'. abs_of st = Some g \<and> abs_of st' = Some g' \<and> abs_step c g g'"
    using g by blast
qed

lemma sl_call_inv:
  assumes "sl_call c rnd k (st, s) = Inr (st', s')" "ok s" "sl_config_ok c" "sl_inv c st"
    and "k = CallForfeit \<longrightarrow> sl_phase st = PlayerTurn"
  shows "sl_inv c st' \<and> ok s'"
proof (cases k)
  case CallStart
  then show ?thesis using assms by (auto simp: sl_start_def sl_inv_def split: if_splits)
next
  case CallForfeit
  then show ?thesis using assms by (auto simp: forfeit_turn_def sl_inv_def split: if_splits)
next
  case CallRoll
  then show ?thesis using assms rollPlayer_spec by simp
next
  case CallAI
  then show ?thesis using assms playAITurn_spec by simp
qed

lemma sl_calls_inv:
  "sl_calls c rnd ks (st, s) = Inr (st', s') \<Longrightarrow> forfeits_on_turn c rnd ks (st, s) \<Longrightarrow> ok s \<Longrightarrow>
   sl_config_ok c \<Longrightarrow> sl_inv c st \<Longrightarrow> sl_inv c st' \<and> ok s'"
proof (induction ks arbitrary: st s)
  case Nil
  then show ?case by simp
next
  case (Cons k ks)
  obtain st1 s1 where k: "sl_call c rnd k (st, s) = Inr (st1, s1)" "sl_calls c rnd ks (st1, s1) = Inr (st', s')"
    using Cons.prems(1) by (auto simp: bind_res_eq_Inr)
  moreover have "forfeits_on_turn c rnd ks (st1, s1)" "k = CallForfeit \<longrightarrow> sl_phase st = PlayerTurn"
    using Cons.prems(2) k(1) by simp_all
  ultimately show ?case using Cons.IH [of st1 s1] sl_call_inv [OF k(1)] Cons.prems(3-5) by simp
qed

end

lemma sl_call_error:
  "(\<exists>e. sl_call c random k (st, s) = Inl e) \<longleftrightarrow>
   (k = CallStart \<and> sl_phase st \<noteq> Idle) \<or> (k = CallRoll \<and> sl_phase st \<noteq> PlayerTurn)
   \<or> (k = CallAI \<and> sl_phase st \<noteq> AiTurn)"
proof (cases k)
  case CallRoll
  then show ?thesis using rollPlayer_total [of st c random s] by (auto simp: rollPlayer_def)
next
  case CallAI
  then show ?thesis
  proof (cases "sl_phase st = AiTurn")
    case True
    then show ?thesis using CallAI by (simp add: playAITurn_eq Let_def)
  next
    case False
    then show ?thesis using CallAI by (simp add: playAITurn_def)
  qed
qed (auto simp: sl_start_def)

section \<open>Properties\<close>

text \<open>C15: A whole game stays on the board. For every level whose last cell is at least 6, whose start lies
  before it and whose links end on the board, every random source in \<open>[0, 1)\<close> and every sequence of
  calls that does not throw and forfeits turns only while it is the player's: both tokens stay between 1 and the last cell, there is a winner exactly
  when the game is over, and it is the one whose token is on the last cell; and a call throws exactly
  when it is made in the wrong phase.\<close>

theorem snakes_game_safe:
  assumes "random_source rnd ok" "ok s" "sl_config_ok c"
    and "sl_calls c rnd ks (sl_new c, s) = Inr (st, s')" "forfeits_on_turn c rnd ks (sl_new c, s)"
  shows "1 \<le> sl_playerPosition st \<and> sl_playerPosition st \<le> winPosition c
    \<and> 1 \<le> sl_aiPosition st \<and> sl_aiPosition st \<le> winPosition c
    \<and> (sl_phase st = GameOver \<longleftrightarrow> sl_winner st \<noteq> None)
    \<and> (sl_winner st = Some Player \<longleftrightarrow> sl_playerPosition st = winPosition c)
    \<and> (sl_winner st = Some AI \<longleftrightarrow> sl_aiPosition st = winPosition c)
    \<and> (is_ok (sl_call c rnd k (st, s')) \<longleftrightarrow>
         (case k of CallStart \<Rightarrow> sl_phase st = Idle | CallRoll \<Rightarrow> sl_phase st = PlayerTurn
          | CallAI \<Rightarrow> sl_phase st = AiTurn | CallForfeit \<Rightarrow> True))"
proof -
  have "sl_inv c st"
    using random_source.sl_calls_inv [OF assms(1) assms(4,5,2,3) sl_new_inv [OF assms(3)]] by simp
  moreover have "is_ok (sl_call c rnd k (st, s')) \<longleftrightarrow> \<not> (\<exists>e. sl_call c rnd k (st, s') = Inl e)"
    by (cases "sl_call c rnd k (st, s')") auto
  ultimately show ?thesis
    unfolding sl_call_error by (auto simp: sl_inv_def split: sl_op.splits)
qed


definition sample_board :: sl_config where
  "sample_board = \<lparr>sl_boardSize = 9, sl_startPosition = None, sl_endPosition = None,
     sl_snakes = [\<lparr>link_start = 5, link_end = 2\<rparr>], sl_ladders = [\<lparr>link_start = 3, link_end = 8\<rparr>],
     sl_aiDifficulty = HARD\<rparr>"

definition half :: "nat \<Rightarrow> rat \<times> nat" where
  "half s = (1/2, Suc s)"

lemma half_source: "random_source half (\<lambda>_. True)"
  by unfold_locales (simp_all add: half_def)

lemma sample_board_ok: "sl_config_ok sample_board"
  by (simp add: sl_config_ok_def sample_board_def winPosition_def)

definition sample_calls :: "sl_op list" where
  "sample_calls = [CallStart, CallRoll, CallAI, CallForfeit, CallAI, CallRoll]"

theorem snakes_game_safe_witness:
  "\<exists>st s. sl_calls sample_board half sample_calls (sl_new sample_board, 0) = Inr (st, s)
     \<and> 1 \<le> sl_playerPosition st \<and> sl_playerPosition st \<le> winPosition sample_board"
proof -
  have "is_ok (sl_calls sample_board half sample_calls (sl_new sample_board, 0))"
    and f: "forfeits_on_turn sample_board half sample_calls (sl_new sample_board, 0)"
    by code_simp+
  then obtain st s where r: "sl_calls sample_board half sample_calls (sl_new sample_board, 0) = Inr (st, s)"
    by (cases "sl_calls sample_board half sample_calls (sl_new sample_board, 0)") auto
  show ?thesis using r snakes_game_safe [OF half_source _ sample_board_ok r f] by simp
qed



text \<open>The difficulty setting has no effect. Whatever the level says, the AI's turn has the same result:
  the exact roll is only considered within six cells of the goal, where the rule for the last ten
  cells has already replaced the probability the difficulty chose.\<close>

theorem ai_difficulty_ignored:
  "playAITurn (c\<lparr>sl_aiDifficulty := d\<rparr>) random (st, s) = playAITurn c random (st, s)"
proof (cases "sl_phase st = AiTurn")
  case True
  have w: "winPosition (c\<lparr>sl_aiDifficulty := d\<rparr>) = winPosition c"
    by (simp add: winPosition_def split: option.splits)
  have "ai_roll (c\<lparr>sl_aiDifficulty := d\<rparr>) remaining r1 r2 = ai_roll c remaining r1 r2" for remaining r1 r2
    by (simp add: ai_roll_def ai_decides_def failProbability_def Let_def)
  moreover have "resolveTile (c\<lparr>sl_aiDifficulty := d\<rparr>) = resolveTile c"
    unfolding resolveTile_def w by (intro ext) simp
  ultimately show ?thesis by (simp add: playAITurn_eq [OF True] w)
next
  case False
  then show ?thesis by (simp add: playAITurn_def)
qed

end
