(* ===== verification/SnakesScreen.thy ===== *)
theory SnakesScreen
  imports SnakesEngine
begin

text \<open>
  The screen of snakes and ladders: \<open>src/features/games/components/SnakeLadderGame.tsx\<close> (the queue
  of questions that gates every roll) and the turn protocol of
  \<open>src/features/games/phaser/SnakeLadderScene.ts\<close> (dice animation, token animation, the delayed turn
  of the AI). What runs later (timers, tweens, delayed calls) is a list of pending tasks that may
  complete in any order; drawing, sound and the random faces of the tumbling die are left out. The end
  of the game is reported to React, which removes the board when it next commits: until then what is
  pending in the scene goes on, so the commit is an event of its own.
\<close>

section \<open>Token animation\<close>

definition from_to :: "int \<Rightarrow> int \<Rightarrow> int list" where
  "from_to a b = [a..b]"

definition animate_path :: "int \<Rightarrow> int \<Rightarrow> int \<Rightarrow> int \<Rightarrow> int list" where
  "animate_path winPos startPos roll endPos =
     (let intermediatePos = startPos + roll;
          intermediatePos = (if intermediatePos > winPos then winPos - (intermediatePos - winPos) else intermediatePos);
          positions = (if intermediatePos > startPos then from_to (startPos + 1) intermediatePos
                       else if intermediatePos < startPos
                       then from_to (startPos + 1) winPos @ rev (from_to intermediatePos (winPos - 1))
                       else [endPos])
      in if intermediatePos \<noteq> endPos then positions @ [endPos] else positions)"

section \<open>State\<close>

datatype sl_task =
    DiceTick sl_who int int
  | Settle sl_who int int
  | TokenMove sl_who
  | AiDelay

record 's sl_screen =
  ss_engine :: sl_state
  ss_random :: 's
  ss_queue :: "nat list"
  ss_question :: "nat option"
  ss_canRoll :: bool
  ss_animating :: bool
  ss_tasks :: "sl_task list"
  ss_over :: bool
  ss_unmounted :: bool
  ss_completions :: "(int \<times> int) list"

text \<open>The level: the engine's configuration and the correct option of each question.\<close>

record sl_level =
  lv_config :: sl_config
  lv_correct :: "int list"

section \<open>Scene\<close>

fun is_tick :: "sl_task \<Rightarrow> bool" where
  "is_tick (DiceTick w a b) = True"
| "is_tick t = False"

text \<open>\<open>this.diceRollTimer?.remove()\<close>, then the new timer.\<close>

definition playDiceRollAnimation :: "sl_who \<Rightarrow> int \<Rightarrow> int \<Rightarrow> 's sl_screen \<Rightarrow> 's sl_screen" where
  "playDiceRollAnimation who startPos endPos g =
     g\<lparr>ss_tasks := filter (\<lambda>t. \<not> is_tick t) (ss_tasks g) @ [DiceTick who startPos endPos]\<rparr>"

definition rollDice :: "sl_level \<Rightarrow> ('s \<Rightarrow> rat \<times> 's) \<Rightarrow> 's sl_screen \<Rightarrow> 's sl_screen res" where
  "rollDice lv rnd g =
     (if sl_phase (ss_engine g) = PlayerTurn \<and> \<not> ss_animating g
      then let startPos = sl_playerPosition (ss_engine g)
           in bind_res (rollPlayer (lv_config lv) rnd (ss_engine g, ss_random g)) (\<lambda>(e, s).
                Inr (playDiceRollAnimation Player startPos (sl_playerPosition e)
                       (g\<lparr>ss_engine := e, ss_random := s\<rparr>)))
      else Inr g)"

definition playAITurnAnimated :: "sl_level \<Rightarrow> ('s \<Rightarrow> rat \<times> 's) \<Rightarrow> 's sl_screen \<Rightarrow> 's sl_screen res" where
  "playAITurnAnimated lv rnd g =
     (let aiStartPos = sl_aiPosition (ss_engine g)
      in bind_res (playAITurn (lv_config lv) rnd (ss_engine g, ss_random g)) (\<lambda>(e, s).
           Inr (playDiceRollAnimation AI aiStartPos (sl_aiPosition e) (g\<lparr>ss_engine := e, ss_random := s\<rparr>))))"

definition aiPlay :: "sl_level \<Rightarrow> ('s \<Rightarrow> rat \<times> 's) \<Rightarrow> 's sl_screen \<Rightarrow> 's sl_screen res" where
  "aiPlay lv rnd g =
     (if sl_phase (ss_engine g) = AiTurn \<and> \<not> ss_animating g then playAITurnAnimated lv rnd g else Inr g)"

definition handleGameOver :: "sl_who option \<Rightarrow> 's sl_screen \<Rightarrow> 's sl_screen" where
  "handleGameOver winner g =
     g\<lparr>ss_over := True,
       ss_completions := ss_completions g @ [(if winner = Some Player then 100 else 0, 100)]\<rparr>"

text \<open>What happens when the token has arrived (the completion callback of \<open>updateState\<close>).\<close>

definition tokenArrived :: "sl_who \<Rightarrow> 's sl_screen \<Rightarrow> 's sl_screen" where
  "tokenArrived who g =
     (let g = g\<lparr>ss_animating := False\<rparr>
      in if who = Player \<and> sl_phase (ss_engine g) = AiTurn
         then g\<lparr>ss_tasks := ss_tasks g @ [AiDelay]\<rparr>
         else if sl_phase (ss_engine g) = GameOver then handleGameOver (sl_winner (ss_engine g)) g
         else g)"

definition updateState :: "sl_level \<Rightarrow> sl_who \<Rightarrow> int \<Rightarrow> int \<Rightarrow> 's sl_screen \<Rightarrow> 's sl_screen" where
  "updateState lv who startPos endPos g =
     (let g = g\<lparr>ss_animating := True\<rparr>
      in if length (animate_path (winPosition (lv_config lv)) startPos (sl_lastRoll (ss_engine g)) endPos) = 0
         then tokenArrived who g
         else g\<lparr>ss_tasks := ss_tasks g @ [TokenMove who]\<rparr>)"

definition complete_task :: "sl_level \<Rightarrow> ('s \<Rightarrow> rat \<times> 's) \<Rightarrow> sl_task \<Rightarrow> 's sl_screen \<Rightarrow> 's sl_screen res" where
  "complete_task lv rnd t g =
     (case t of
        DiceTick who a b \<Rightarrow> Inr (g\<lparr>ss_tasks := ss_tasks g @ [Settle who a b]\<rparr>)
      | Settle who a b \<Rightarrow> Inr (updateState lv who a b g)
      | TokenMove who \<Rightarrow> Inr (tokenArrived who g)
      | AiDelay \<Rightarrow> if \<not> ss_animating g then playAITurnAnimated lv rnd g else Inr g)"

section \<open>Component\<close>

definition shuffledIndices :: "('s \<Rightarrow> rat \<times> 's) \<Rightarrow> nat \<Rightarrow> 's \<Rightarrow> (nat list \<times> 's) res" where
  "shuffledIndices rnd n s = shuffle rnd [0..<n] s"

definition screen_new :: "sl_level \<Rightarrow> ('s \<Rightarrow> rat \<times> 's) \<Rightarrow> 's \<Rightarrow> 's sl_screen res" where
  "screen_new lv rnd s =
     bind_res (sl_start (sl_new (lv_config lv))) (\<lambda>e.
     bind_res (shuffledIndices rnd (length (lv_correct lv)) s) (\<lambda>(queue, s').
       Inr \<lparr>ss_engine = e, ss_random = s', ss_queue = queue, ss_question = None, ss_canRoll = False,
            ss_animating = False, ss_tasks = [], ss_over = False, ss_unmounted = False,
            ss_completions = []\<rparr>))"

text \<open>\<open>phaserRef.current?.scene\<close> is there until the board is unmounted.\<close>

definition executeRoll :: "sl_level \<Rightarrow> ('s \<Rightarrow> rat \<times> 's) \<Rightarrow> 's sl_screen \<Rightarrow> 's sl_screen res" where
  "executeRoll lv rnd g =
     (if \<not> ss_unmounted g \<and> ss_canRoll g then rollDice lv rnd (g\<lparr>ss_canRoll := False\<rparr>) else Inr g)"

definition handleRollClick :: "sl_level \<Rightarrow> ('s \<Rightarrow> rat \<times> 's) \<Rightarrow> 's sl_screen \<Rightarrow> 's sl_screen res" where
  "handleRollClick lv rnd g =
     (if length (lv_correct lv) = 0 then executeRoll lv rnd g
      else bind_res (if length (ss_queue g) > 0 then Inr (ss_queue g, ss_random g)
                     else shuffledIndices rnd (length (lv_correct lv)) (ss_random g)) (\<lambda>(pending, s).
             case pending of
               [] \<Rightarrow> Inl UndefinedSlot
             | nextIndex # rest \<Rightarrow>
                 Inr (g\<lparr>ss_random := s, ss_queue := rest, ss_question := Some nextIndex\<rparr>)))"

definition handleAnswer :: "sl_level \<Rightarrow> ('s \<Rightarrow> rat \<times> 's) \<Rightarrow> int \<Rightarrow> 's sl_screen \<Rightarrow> 's sl_screen res" where
  "handleAnswer lv rnd index g =
     (case ss_question g of
        None \<Rightarrow> Inr g
      | Some answeredIndex \<Rightarrow>
          if answeredIndex \<ge> length (lv_correct lv) then Inr g
          else let g = g\<lparr>ss_question := None\<rparr>
               in if index = lv_correct lv ! answeredIndex then executeRoll lv rnd g
                  else let g = g\<lparr>ss_queue := ss_queue g @ [answeredIndex], ss_canRoll := False,
                                 ss_engine := forfeit_turn (ss_engine g)\<rparr>
                       in if \<not> ss_unmounted g then aiPlay lv rnd g else Inr g)"

text \<open>The 100 ms interval that mirrors the engine into the button.\<close>

definition sample_canRoll :: "'s sl_screen \<Rightarrow> 's sl_screen" where
  "sample_canRoll g = g\<lparr>ss_canRoll := (sl_phase (ss_engine g) = PlayerTurn \<and> \<not> ss_animating g)\<rparr>"

text \<open>
  The commit of React after \<open>setIsGameOver(true)\<close>: the board and the roll button are replaced by the
  result, and unmounting the board destroys the Phaser game with everything pending in it.
\<close>

definition commit_over :: "'s sl_screen \<Rightarrow> 's sl_screen" where
  "commit_over g = (if ss_over g then g\<lparr>ss_unmounted := True, ss_tasks := []\<rparr> else g)"

text \<open>
  Events on screen: the interval, a click on the (enabled) roll button while the board is on screen, an
  answer, the completion of a pending task, a commit of React.
\<close>

datatype sl_event = Sample | RollClick | Answer int | Complete nat | Commit

definition screen_step :: "sl_level \<Rightarrow> ('s \<Rightarrow> rat \<times> 's) \<Rightarrow> sl_event \<Rightarrow> 's sl_screen \<Rightarrow> 's sl_screen res" where
  "screen_step lv rnd ev g =
     (case ev of
        Sample \<Rightarrow> Inr (sample_canRoll g)
      | RollClick \<Rightarrow> if \<not> ss_unmounted g \<and> ss_canRoll g then handleRollClick lv rnd g else Inr g
      | Answer i \<Rightarrow> handleAnswer lv rnd i g
      | Complete n \<Rightarrow>
          if n < length (ss_tasks g)
          then complete_task lv rnd (ss_tasks g ! n) (g\<lparr>ss_tasks := remove_at n (ss_tasks g)\<rparr>)
          else Inr g
      | Commit \<Rightarrow> Inr (commit_over g))"

fun screen_run :: "sl_level \<Rightarrow> ('s \<Rightarrow> rat \<times> 's) \<Rightarrow> sl_event list \<Rightarrow> 's sl_screen \<Rightarrow> 's sl_screen res" where
  "screen_run lv rnd [] g = Inr g"
| "screen_run lv rnd (ev # evs) g = bind_res (screen_step lv rnd ev g) (screen_run lv rnd evs)"

text \<open>The same events when React commits after each of them.\<close>

fun with_commits :: "sl_event list \<Rightarrow> sl_event list" where
  "with_commits [] = []"
| "with_commits (ev # evs) = ev # Commit # with_commits evs"


section \<open>Invariant\<close>

text \<open>The tasks that lead from a roll of the player to the turn of the AI.\<close>

fun to_ai :: "sl_task \<Rightarrow> bool" where
  "to_ai (DiceTick w a b) = (w = Player)"
| "to_ai (Settle w a b) = (w = Player)"
| "to_ai (TokenMove w) = (w = Player)"
| "to_ai AiDelay = True"

definition to_ai_count :: "'s sl_screen \<Rightarrow> nat" where
  "to_ai_count g = length (filter to_ai (ss_tasks g))"

definition sl_result :: "'s sl_screen \<Rightarrow> int \<times> int" where
  "sl_result g = (if sl_winner (ss_engine g) = Some Player then 100 else 0, 100)"

definition screen_inv :: "sl_level \<Rightarrow> ('s \<Rightarrow> bool) \<Rightarrow> 's sl_screen \<Rightarrow> bool" where
  "screen_inv lv ok g \<longleftrightarrow>
     sl_inv (lv_config lv) (ss_engine g) \<and> ok (ss_random g) \<and> sl_phase (ss_engine g) \<noteq> Idle
     \<and> (\<forall>i \<in> set (ss_queue g). i < length (lv_correct lv))
     \<and> (\<forall>i. ss_question g = Some i \<longrightarrow> i < length (lv_correct lv) \<and> sl_phase (ss_engine g) = PlayerTurn)
     \<and> (ss_canRoll g \<longrightarrow> sl_phase (ss_engine g) = PlayerTurn)
     \<and> to_ai_count g \<le> 1
     \<and> (0 < to_ai_count g \<longrightarrow> sl_phase (ss_engine g) \<noteq> PlayerTurn)
     \<and> (AiDelay \<in> set (ss_tasks g) \<longrightarrow> sl_phase (ss_engine g) = AiTurn)
     \<and> (ss_over g \<longrightarrow> sl_phase (ss_engine g) = GameOver)
     \<and> (ss_unmounted g \<longrightarrow> ss_over g \<and> ss_tasks g = [])
     \<and> (ss_completions g = [] \<longleftrightarrow> \<not> ss_over g)
     \<and> (\<forall>r \<in> set (ss_completions g). r = sl_result g)"

text \<open>A game that is over has nothing more to do in the engine: no question is open, no turn is due.\<close>

lemma screen_inv_over:
  assumes "screen_inv lv ok g" "ss_over g"
  shows "ss_question g = None" "\<not> ss_canRoll g" "sl_phase (ss_engine g) = GameOver" "AiDelay \<notin> set (ss_tasks g)"
  using assms by (cases "ss_question g"; auto simp: screen_inv_def)+

lemma filter_remove_at:
  "n < length xs \<Longrightarrow> length (filter P xs) = (if P (xs ! n) then 1 else 0) + length (filter P (remove_at n xs))"
proof -
  assume n: "n < length xs"
  have "size (filter_mset P (mset xs)) = size (filter_mset P (add_mset (xs ! n) (mset (remove_at n xs))))"
    using mset_remove_at [OF n] by simp
  also have "\<dots> = (if P (xs ! n) then 1 else 0) + size (filter_mset P (mset (remove_at n xs)))" by simp
  finally show ?thesis by (metis mset_filter size_mset)
qed

lemma count_without_ticks: "length (filter to_ai (filter (\<lambda>t. \<not> is_tick t) ts)) \<le> length (filter to_ai ts)"
  by (induction ts) auto

context random_source
begin

lemma rollDice_inv:
  assumes "screen_inv lv ok g" "sl_config_ok (lv_config lv)" "ss_question g = None" "\<not> ss_canRoll g"
  shows "\<exists>g'. rollDice lv rnd g = Inr g' \<and> screen_inv lv ok g'"
proof (cases "sl_phase (ss_engine g) = PlayerTurn \<and> \<not> ss_animating g")
  case False
  then have "rollDice lv rnd g = Inr g" by (auto simp: rollDice_def)
  then show ?thesis using assms(1) by simp
next
  case True
  have i: "sl_inv (lv_config lv) (ss_engine g)" "ok (ss_random g)" using assms(1) by (simp_all add: screen_inv_def)
  have z: "to_ai_count g = 0" using assms(1) True by (auto simp: screen_inv_def)
  obtain e where e: "rollPlayer (lv_config lv) rnd (ss_engine g, ss_random g) = Inr (e, snd (rnd (ss_random g)))"
    using rollPlayer_total [of "ss_engine g" "lv_config lv" rnd "ss_random g"] True by blast
  note r = rollPlayer_spec [OF e i(2) assms(2) i(1)]
  have ph: "sl_phase e \<in> {AiTurn, GameOver}"
    unfolding rollPlayer_cases(3) [OF e] by (simp add: resolveTile_fields)
  have d: "AiDelay \<notin> set (ss_tasks g)" using assms(1) True by (auto simp: screen_inv_def)
  have "filter to_ai (ss_tasks g) = []" using z by (simp add: to_ai_count_def)
  then have f: "filter to_ai (filter (\<lambda>t. \<not> is_tick t) (ss_tasks g)) = []"
    by (auto simp: filter_empty_conv)
  show ?thesis
    using True e r(1,2) ph d f assms
    by (auto simp: rollDice_def screen_inv_def to_ai_count_def playDiceRollAnimation_def Let_def)
qed

lemma playAITurnAnimated_inv:
  assumes "sl_inv (lv_config lv) (ss_engine g)" "ok (ss_random g)" "sl_config_ok (lv_config lv)"
    and "sl_phase (ss_engine g) = AiTurn" "\<forall>i \<in> set (ss_queue g). i < length (lv_correct lv)"
    and "ss_question g = None" "\<not> ss_canRoll g" "\<not> ss_over g" "\<not> ss_unmounted g" "ss_completions g = []"
    and "to_ai_count g = 0"
  shows "\<exists>g'. playAITurnAnimated lv rnd g = Inr g' \<and> screen_inv lv ok g'"
proof -
  obtain e s where e: "playAITurn (lv_config lv) rnd (ss_engine g, ss_random g) = Inr (e, s)"
    unfolding playAITurn_eq [OF assms(4)] Let_def by blast
  note r = playAITurn_spec [OF e assms(2,3,1)]
  have "sl_phase e \<in> {PlayerTurn, GameOver}"
    using e unfolding playAITurn_eq [OF assms(4)] Let_def by (auto simp: resolveTile_fields)
  moreover have "filter to_ai (ss_tasks g) = []" using assms(11) by (simp add: to_ai_count_def)
  then have "filter to_ai (filter (\<lambda>t. \<not> is_tick t) (ss_tasks g)) = []" "AiDelay \<notin> set (ss_tasks g)"
    by (auto simp: filter_empty_conv)
  ultimately show ?thesis
    using e r(1,2) assms
    by (auto simp: playAITurnAnimated_def screen_inv_def to_ai_count_def playDiceRollAnimation_def Let_def)
qed

lemma tokenArrived_inv:
  assumes "screen_inv lv ok (g\<lparr>ss_tasks := TokenMove who # ss_tasks g\<rparr>)"
  shows "screen_inv lv ok (tokenArrived who g)"
proof -
  have "\<not> ss_unmounted g" using assms by (auto simp: screen_inv_def)
  then show ?thesis using assms
    by (cases who) (auto simp: tokenArrived_def screen_inv_def to_ai_count_def handleGameOver_def sl_result_def Let_def)
qed

lemma executeRoll_inv:
  assumes "screen_inv lv ok g" "sl_config_ok (lv_config lv)" "ss_question g = None"
  shows "\<exists>g'. executeRoll lv rnd g = Inr g' \<and> screen_inv lv ok g'"
proof (cases "\<not> ss_unmounted g \<and> ss_canRoll g")
  case True
  have "screen_inv lv ok (g\<lparr>ss_canRoll := False\<rparr>)"
    using assms(1) by (simp add: screen_inv_def to_ai_count_def sl_result_def)
  then show ?thesis using rollDice_inv [of lv "g\<lparr>ss_canRoll := False\<rparr>"] assms True by (simp add: executeRoll_def)
next
  case False
  then have "executeRoll lv rnd g = Inr g" by (auto simp: executeRoll_def)
  then show ?thesis using assms by simp
qed

end


context random_source
begin

lemma handleRollClick_inv:
  assumes "screen_inv lv ok g" "sl_config_ok (lv_config lv)" "ss_canRoll g"
  shows "\<exists>g'. handleRollClick lv rnd g = Inr g' \<and> screen_inv lv ok g'"
proof (cases "lv_correct lv = []")
  case True
  then have "ss_question g = None" using assms(1) by (cases "ss_question g") (auto simp: screen_inv_def)
  then show ?thesis using executeRoll_inv [OF assms(1,2)] True by (simp add: handleRollClick_def)
next
  case False
  have s: "ok (ss_random g)" using assms(1) by (simp add: screen_inv_def)
  obtain q t where q: "shuffledIndices rnd (length (lv_correct lv)) (ss_random g) = Inr (q, t)" "ok t"
      "mset q = mset [0..<length (lv_correct lv)]"
    unfolding shuffledIndices_def by (rule shuffle_perm [OF s])
  have sq: "set q = {0..<length (lv_correct lv)}" using q(3) by (metis mset_eq_setD set_upt)
  obtain p ps u where p: "(if length (ss_queue g) > 0 then Inr (ss_queue g, ss_random g)
        else shuffledIndices rnd (length (lv_correct lv)) (ss_random g)) = (Inr (p # ps, u) :: (nat list \<times> 's) res)"
      "ok u" "set (p # ps) \<subseteq> {0..<length (lv_correct lv)}"
  proof (cases "ss_queue g")
    case Nil
    have "q \<noteq> []" using sq False by auto
    then obtain p ps where qp: "q = p # ps" by (cases q) auto
    then have "set (p # ps) \<subseteq> {0..<length (lv_correct lv)}" using sq by blast
    then show ?thesis using that [of p ps t] q(1,2) qp Nil by simp
  next
    case (Cons p ps)
    have "\<forall>i \<in> set (ss_queue g). i < length (lv_correct lv)" using assms(1) by (simp add: screen_inv_def)
    then have "set (p # ps) \<subseteq> {0..<length (lv_correct lv)}" using Cons by auto
    then show ?thesis using that [of p ps "ss_random g"] s Cons by simp
  qed
  have "handleRollClick lv rnd g = Inr (g\<lparr>ss_random := u, ss_queue := ps, ss_question := Some p\<rparr>)"
    using p(1) False by (simp add: handleRollClick_def)
  moreover have "screen_inv lv ok (g\<lparr>ss_random := u, ss_queue := ps, ss_question := Some p\<rparr>)"
    using assms p(2,3) by (auto simp: screen_inv_def to_ai_count_def sl_result_def)
  ultimately show ?thesis by blast
qed

lemma handleAnswer_inv:
  assumes "screen_inv lv ok g" "sl_config_ok (lv_config lv)"
  shows "\<exists>g'. handleAnswer lv rnd i g = Inr g' \<and> screen_inv lv ok g'"
proof (cases "ss_question g")
  case None
  then show ?thesis using assms by (simp add: handleAnswer_def)
next
  case (Some a)
  have a: "a < length (lv_correct lv)" and ph: "sl_phase (ss_engine g) = PlayerTurn"
    using assms(1) Some by (simp_all add: screen_inv_def)
  have no: "\<not> ss_over g" "\<not> ss_unmounted g" "ss_completions g = []" using assms(1) ph by (auto simp: screen_inv_def)
  show ?thesis
  proof (cases "i = lv_correct lv ! a")
    case True
    have "screen_inv lv ok (g\<lparr>ss_question := None\<rparr>)"
      using assms(1) by (simp add: screen_inv_def to_ai_count_def sl_result_def)
    then show ?thesis
      using executeRoll_inv [of lv "g\<lparr>ss_question := None\<rparr>"] assms Some a True by (simp add: handleAnswer_def)
  next
    case False
    let ?g = "g\<lparr>ss_question := None, ss_queue := ss_queue g @ [a], ss_canRoll := False,
        ss_engine := forfeit_turn (ss_engine g)\<rparr>"
    have z: "to_ai_count g = 0" using assms(1) ph by (auto simp: screen_inv_def)
    have fi: "sl_inv (lv_config lv) (forfeit_turn (ss_engine g))" "sl_phase (forfeit_turn (ss_engine g)) = AiTurn"
      using assms(1) ph by (auto simp: screen_inv_def sl_inv_def forfeit_turn_def)
    have h: "handleAnswer lv rnd i g = aiPlay lv rnd ?g"
      using Some a False no by (simp add: handleAnswer_def)
    show ?thesis
    proof (cases "ss_animating g")
      case True
      have d: "AiDelay \<notin> set (ss_tasks g)" using assms(1) ph by (auto simp: screen_inv_def)
      have "aiPlay lv rnd ?g = Inr ?g" using True by (simp add: aiPlay_def)
      moreover have "screen_inv lv ok ?g"
        using assms a z fi d no by (auto simp: screen_inv_def to_ai_count_def)
      ultimately show ?thesis using h by simp
    next
      case F: False
      then have "aiPlay lv rnd ?g = playAITurnAnimated lv rnd ?g" using fi by (simp add: aiPlay_def)
      moreover have "\<exists>g'. playAITurnAnimated lv rnd ?g = Inr g' \<and> screen_inv lv ok g'"
        using assms a z fi no by (intro playAITurnAnimated_inv) (auto simp: screen_inv_def to_ai_count_def)
      ultimately show ?thesis using h by simp
    qed
  qed
qed

lemma complete_task_inv:
  assumes "screen_inv lv ok g" "sl_config_ok (lv_config lv)" "n < length (ss_tasks g)"
  shows "\<exists>g'. complete_task lv rnd (ss_tasks g ! n) (g\<lparr>ss_tasks := remove_at n (ss_tasks g)\<rparr>) = Inr g'
     \<and> screen_inv lv ok g'"
proof -
  let ?t = "ss_tasks g ! n" and ?ts = "remove_at n (ss_tasks g)"
  have sub: "set ?ts \<subseteq> set (ss_tasks g)" by (rule set_remove_at)
  have cnt: "to_ai_count g = (if to_ai ?t then 1 else 0) + length (filter to_ai ?ts)"
    unfolding to_ai_count_def by (rule filter_remove_at [OF assms(3)])
  have tin: "?t \<in> set (ss_tasks g)" using assms(3) by simp
  have on: "\<not> ss_unmounted g" using assms(1,3) by (auto simp: screen_inv_def)
  have moved: "screen_inv lv ok (g\<lparr>ss_tasks := t' # ?ts\<rparr>)" if "to_ai t' = to_ai ?t" "t' \<noteq> AiDelay" for t'
    using assms(1) sub cnt that on by (auto simp: screen_inv_def to_ai_count_def sl_result_def)
  show ?thesis
  proof (cases ?t)
    case (DiceTick who a b)
    have "screen_inv lv ok (g\<lparr>ss_tasks := Settle who a b # ?ts\<rparr>)" by (rule moved) (simp_all add: DiceTick)
    then show ?thesis using DiceTick by (auto simp: complete_task_def screen_inv_def to_ai_count_def sl_result_def)
  next
    case (Settle who a b)
    have m: "screen_inv lv ok (g\<lparr>ss_tasks := TokenMove who # ?ts\<rparr>)" by (rule moved) (simp_all add: Settle)
    let ?g = "g\<lparr>ss_tasks := ?ts, ss_animating := True\<rparr>"
    have m': "screen_inv lv ok (?g\<lparr>ss_tasks := TokenMove who # ss_tasks ?g\<rparr>)"
      using m by (simp add: screen_inv_def to_ai_count_def sl_result_def)
    then have "screen_inv lv ok (tokenArrived who ?g)" by (intro tokenArrived_inv) simp_all
    moreover have "screen_inv lv ok (?g\<lparr>ss_tasks := ss_tasks ?g @ [TokenMove who]\<rparr>)"
      using m' by (auto simp: screen_inv_def to_ai_count_def sl_result_def)
    ultimately show ?thesis using Settle by (simp add: complete_task_def updateState_def Let_def)
  next
    case (TokenMove who)
    have m: "screen_inv lv ok (g\<lparr>ss_tasks := TokenMove who # ?ts\<rparr>)" by (rule moved) (simp_all add: TokenMove)
    then have "screen_inv lv ok (tokenArrived who (g\<lparr>ss_tasks := ?ts\<rparr>))"
      by (intro tokenArrived_inv) simp_all
    then show ?thesis using TokenMove by (simp add: complete_task_def)
  next
    case AiDelay
    have ph: "sl_phase (ss_engine g) = AiTurn" using assms(1) tin AiDelay by (simp add: screen_inv_def)
    have q: "ss_question g = None" using assms(1) ph by (cases "ss_question g") (auto simp: screen_inv_def)
    have no: "\<not> ss_over g" "ss_completions g = []" using assms(1) ph by (auto simp: screen_inv_def)
    have z: "length (filter to_ai ?ts) = 0" using cnt assms(1) AiDelay by (simp add: screen_inv_def)
    have "screen_inv lv ok (g\<lparr>ss_tasks := ?ts\<rparr>)"
      using assms(1) sub z on by (auto simp: screen_inv_def to_ai_count_def sl_result_def)
    moreover have "\<exists>g'. playAITurnAnimated lv rnd (g\<lparr>ss_tasks := ?ts\<rparr>) = Inr g' \<and> screen_inv lv ok g'"
      using assms ph q z no on by (intro playAITurnAnimated_inv) (auto simp: screen_inv_def to_ai_count_def)
    ultimately show ?thesis using AiDelay by (simp add: complete_task_def)
  qed
qed

lemma screen_step_inv:
  assumes "screen_inv lv ok g" "sl_config_ok (lv_config lv)"
  shows "\<exists>g'. screen_step lv rnd ev g = Inr g' \<and> screen_inv lv ok g'"
proof (cases ev)
  case Sample
  have "screen_inv lv ok (sample_canRoll g)"
    using assms(1) by (simp add: sample_canRoll_def screen_inv_def to_ai_count_def sl_result_def)
  then show ?thesis using Sample by (simp add: screen_step_def)
next
  case RollClick
  then show ?thesis using assms handleRollClick_inv by (simp add: screen_step_def)
next
  case (Answer i)
  then show ?thesis using assms handleAnswer_inv by (simp add: screen_step_def)
next
  case (Complete n)
  then show ?thesis using assms complete_task_inv by (simp add: screen_step_def)
next
  case Commit
  have "screen_inv lv ok (commit_over g)"
    using assms(1) by (auto simp: commit_over_def screen_inv_def to_ai_count_def sl_result_def)
  then show ?thesis using Commit by (simp add: screen_step_def)
qed

lemma screen_run_inv:
  assumes "sl_config_ok (lv_config lv)"
  shows "screen_inv lv ok g \<Longrightarrow> \<exists>g'. screen_run lv rnd evs g = Inr g' \<and> screen_inv lv ok g'"
proof (induction evs arbitrary: g)
  case Nil
  then show ?case by simp
next
  case (Cons ev evs)
  obtain g1 where "screen_step lv rnd ev g = Inr g1" "screen_inv lv ok g1"
    using screen_step_inv [OF Cons.prems assms] by blast
  then show ?case using Cons.IH by simp
qed

lemma screen_new_inv:
  assumes "ok s" "sl_config_ok (lv_config lv)"
  shows "\<exists>g. screen_new lv rnd s = Inr g \<and> screen_inv lv ok g"
proof -
  obtain q t where q: "shuffledIndices rnd (length (lv_correct lv)) s = Inr (q, t)" "ok t"
      "mset q = mset [0..<length (lv_correct lv)]"
    unfolding shuffledIndices_def by (rule shuffle_perm [OF assms(1)])
  have "set q = {0..<length (lv_correct lv)}" using q(3) by (metis mset_eq_setD set_upt)
  moreover obtain e where e: "sl_start (sl_new (lv_config lv)) = Inr e" "sl_phase e = PlayerTurn"
      "sl_inv (lv_config lv) e"
    using sl_new_inv [OF assms(2)] by (simp add: sl_start_def sl_new_def sl_inv_def Let_def)
  ultimately show ?thesis using q by (auto simp: screen_new_def screen_inv_def to_ai_count_def sl_result_def)
qed

end


lemma set_from_to [simp]: "set (from_to a b) = {a..b}"
  by (simp add: from_to_def)

lemma last_from_to: "a \<le> b \<Longrightarrow> last (from_to a b) = b"
  unfolding from_to_def by (simp add: upto_rec2)

lemma hd_from_to: "a \<le> b \<Longrightarrow> hd (from_to a b) = a"
  unfolding from_to_def by (simp add: upto_rec1)

lemma from_to_empty: "from_to a b = [] \<longleftrightarrow> b < a"
  by (simp add: from_to_def)

lemma animate_path_ok:
  assumes "6 \<le> w" "1 \<le> a" "a < w" "1 \<le> d" "d \<le> 6" "1 \<le> e" "e \<le> w"
  shows "animate_path w a d e \<noteq> [] \<and> last (animate_path w a d e) = e \<and> set (animate_path w a d e) \<subseteq> {1..w}"
proof -
  define m where "m = land w a d"
  have m: "1 \<le> m" "m \<le> w" using land_range [OF assms(1-5)] by (simp_all add: m_def)
  have me: "(if a + d > w then w - (a + d - w) else a + d) = m" by (simp add: m_def land_def)
  have p: "animate_path w a d e =
      (let ps = (if m > a then from_to (a + 1) m
                 else if m < a then from_to (a + 1) w @ rev (from_to m (w - 1)) else [e])
       in if m \<noteq> e then ps @ [e] else ps)"
    by (simp only: animate_path_def Let_def me)
  have l: "m < a \<Longrightarrow> last (from_to (a + 1) w @ rev (from_to m (w - 1))) = m"
    using assms hd_from_to [of m "w - 1"] by (simp add: from_to_empty last_rev)
  show ?thesis unfolding p Let_def
    using m assms l by (auto simp: last_from_to from_to_empty)
qed

lemma rollPlayer_lastRoll:
  "rollPlayer c random (st, s) = Inr (st', s') \<Longrightarrow> sl_lastRoll st' = rand_index (fst (random s)) 6 + 1"
  by (drule rollPlayer_cases(3)) (simp add: resolveTile_fields)

section \<open>Deadlock\<close>

definition screen_stuck :: "'s sl_screen \<Rightarrow> bool" where
  "screen_stuck g \<longleftrightarrow> sl_phase (ss_engine g) = AiTurn \<and> ss_question g = None \<and> \<not> ss_canRoll g
     \<and> ss_tasks g = [] \<and> \<not> ss_over g"

lemma stuck_step:
  "screen_stuck g \<Longrightarrow> \<exists>g'. screen_step lv rnd ev g = Inr g' \<and> screen_stuck g' \<and> ss_engine g' = ss_engine g"
  by (cases ev) (auto simp: screen_stuck_def screen_step_def sample_canRoll_def handleAnswer_def commit_over_def)

lemma stuck_run:
  "screen_stuck g \<Longrightarrow> \<exists>g'. screen_run lv rnd evs g = Inr g' \<and> screen_stuck g' \<and> ss_engine g' = ss_engine g"
proof (induction evs arbitrary: g)
  case Nil
  then show ?case by simp
next
  case (Cons ev evs)
  obtain g1 where "screen_step lv rnd ev g = Inr g1" "screen_stuck g1" "ss_engine g1 = ss_engine g"
    using stuck_step [OF Cons.prems] by blast
  then show ?case using Cons.IH [of g1] by simp
qed

definition sample_level :: sl_level where
  "sample_level = \<lparr>lv_config = sample_board, lv_correct = [0]\<rparr>"

text \<open>A roll, its animation and the AI's turn; a click on the button while the AI's die still tumbles;
  a wrong answer while the AI's token moves; the arrival of the token.\<close>

definition late_answer :: "sl_event list" where
  "late_answer = [Sample, RollClick, Answer 0, Complete 0, Complete 0, Complete 0, Complete 0,
     Sample, RollClick, Complete 0, Complete 0, Answer 1, Complete 0]"

definition res_all :: "('a \<Rightarrow> bool) \<Rightarrow> 'a res \<Rightarrow> bool" where
  "res_all P r = (case r of Inr x \<Rightarrow> P x | Inl e \<Rightarrow> False)"

lemma late_answer_stuck:
  "res_all screen_stuck (bind_res (screen_new sample_level half 0) (screen_run sample_level half late_answer))"
  by code_simp

section \<open>Completion\<close>

text \<open>Rolls of 4 on a track of nine cells: the player's second roll wins, while the AI's die has settled
  but its token has not started to move. Both tokens then arrive after the end.\<close>

definition short_level :: sl_level where
  "short_level = \<lparr>lv_config = sample_board\<lparr>sl_snakes := [], sl_ladders := []\<rparr>, lv_correct = []\<rparr>"

definition two_arrivals :: "sl_event list" where
  "two_arrivals = [Sample, RollClick, Complete 0, Complete 0, Complete 0, Complete 0, Complete 0,
     Sample, RollClick, Complete 0, Complete 0, Complete 1, Complete 0, Complete 0]"

lemma two_arrivals_two_reports:
  "res_all (\<lambda>g. ss_completions g = [(100, 100), (100, 100)])
     (bind_res (screen_new short_level half 0) (screen_run short_level half two_arrivals))"
  by code_simp

text \<open>\<open>engine.start()\<close> runs in an effect; run a second time on the same engine, as React's strict mode
  does in development, it throws.\<close>

lemma second_start_throws: "sl_start st = Inr st' \<Longrightarrow> \<not> is_ok (sl_start st')"
  by (auto simp: sl_start_def split: if_splits)

lemma tokenArrived_once: "length (ss_completions (tokenArrived who g)) \<le> Suc (length (ss_completions g))"
  by (simp add: tokenArrived_def handleGameOver_def Let_def)

lemma rolled_silent:
  "rollDice lv rnd g = Inr g' \<Longrightarrow> ss_completions g' = ss_completions g"
  "playAITurnAnimated lv rnd g = Inr g' \<Longrightarrow> ss_completions g' = ss_completions g"
  by (auto simp: rollDice_def playAITurnAnimated_def playDiceRollAnimation_def Let_def
      simp: bind_res_eq_Inr split: if_splits)

lemma executeRoll_silent: "executeRoll lv rnd g = Inr g' \<Longrightarrow> ss_completions g' = ss_completions g"
  by (auto simp: executeRoll_def split: if_splits dest!: rolled_silent)

lemma handleRollClick_silent: "handleRollClick lv rnd g = Inr g' \<Longrightarrow> ss_completions g' = ss_completions g"
  by (auto simp: handleRollClick_def bind_res_eq_Inr neq_Nil_conv split: if_splits list.splits dest!: executeRoll_silent)

lemma handleAnswer_silent: "handleAnswer lv rnd i g = Inr g' \<Longrightarrow> ss_completions g' = ss_completions g"
  by (auto simp: handleAnswer_def aiPlay_def Let_def split: if_splits option.splits
      dest!: executeRoll_silent rolled_silent)

lemma screen_step_once:
  assumes "screen_step lv rnd ev g = Inr g'"
  shows "length (ss_completions g') \<le> Suc (length (ss_completions g))"
proof (cases ev)
  case (Complete n)
  then show ?thesis using assms
    by (auto simp: screen_step_def complete_task_def updateState_def Let_def
        split: if_splits sl_task.splits dest!: rolled_silent intro: order_trans [OF tokenArrived_once])
next
  case RollClick
  then show ?thesis using assms by (auto simp: screen_step_def split: if_splits dest!: handleRollClick_silent)
next
  case (Answer i)
  then show ?thesis using assms by (auto simp: screen_step_def dest!: handleAnswer_silent)
qed (use assms in \<open>auto simp: screen_step_def sample_canRoll_def commit_over_def\<close>)

text \<open>A screen that React has just committed.\<close>

definition committed :: "sl_level \<Rightarrow> ('s \<Rightarrow> bool) \<Rightarrow> 's sl_screen \<Rightarrow> bool" where
  "committed lv ok g \<longleftrightarrow> screen_inv lv ok g \<and> (ss_over g \<longrightarrow> ss_unmounted g) \<and> length (ss_completions g) \<le> 1"

lemma committed_result:
  assumes "committed lv ok g"
  shows "ss_completions g = (if ss_over g then [sl_result g] else [])"
  using assms by (cases "ss_completions g") (auto simp: committed_def screen_inv_def)

lemma over_silent:
  assumes "screen_inv lv ok g" "ss_unmounted g" "screen_step lv rnd ev g = Inr g'"
  shows "ss_completions g' = ss_completions g"
  using assms screen_inv_over [OF assms(1)]
  by (cases ev) (auto simp: screen_inv_def screen_step_def sample_canRoll_def handleAnswer_def commit_over_def)

context random_source
begin

lemma committed_step:
  assumes "committed lv ok g" "sl_config_ok (lv_config lv)"
  shows "\<exists>g'. bind_res (screen_step lv rnd ev g) (screen_step lv rnd Commit) = Inr g' \<and> committed lv ok g'"
proof -
  have i: "screen_inv lv ok g" using assms(1) by (simp add: committed_def)
  obtain g1 where g1: "screen_step lv rnd ev g = Inr g1" "screen_inv lv ok g1"
    using screen_step_inv [OF i assms(2)] by blast
  have "length (ss_completions g1) \<le> 1"
  proof (cases "ss_over g")
    case True
    then show ?thesis using over_silent [OF i _ g1(1)] assms(1) by (simp add: committed_def)
  next
    case False
    then show ?thesis using screen_step_once [OF g1(1)] i by (simp add: screen_inv_def)
  qed
  moreover have "screen_inv lv ok (commit_over g1)"
    using screen_step_inv [OF g1(2) assms(2), of Commit] by (simp add: screen_step_def)
  ultimately have "committed lv ok (commit_over g1)" by (simp add: committed_def commit_over_def)
  then show ?thesis using g1(1) by (simp add: screen_step_def [of _ _ Commit])
qed

lemma committed_run:
  assumes "sl_config_ok (lv_config lv)"
  shows "committed lv ok g \<Longrightarrow> \<exists>g'. screen_run lv rnd (with_commits evs) g = Inr g' \<and> committed lv ok g'"
proof (induction evs arbitrary: g)
  case Nil
  then show ?case by simp
next
  case (Cons ev evs)
  obtain g1 g2 where "screen_step lv rnd ev g = Inr g1" "screen_step lv rnd Commit g1 = Inr g2" "committed lv ok g2"
    using committed_step [OF Cons.prems assms, of ev] by (auto simp: bind_res_eq_Inr)
  then show ?case using Cons.IH [of g2] by simp
qed

lemma screen_new_committed:
  assumes "ok s" "sl_config_ok (lv_config lv)"
  shows "\<exists>g. screen_new lv rnd s = Inr g \<and> committed lv ok g"
proof -
  obtain g where g: "screen_new lv rnd s = Inr g" "screen_inv lv ok g" using screen_new_inv [OF assms] by blast
  have "ss_completions g = []" "\<not> ss_over g" using g(1) by (auto simp: screen_new_def bind_res_eq_Inr)
  then show ?thesis using g by (auto simp: committed_def)
qed

end

section \<open>Properties\<close>

text \<open>C1: The screen never makes a call the engine rejects. For every admissible level (a last cell from
  6 on, a start before it, links that end on the board), every random source in \<open>[0, 1)\<close> and every
  order of clicks, answers, interval ticks, task completions and commits of React, no exception is
  thrown, the tokens stay on the board and the queue only holds existing questions. A completion is
  reported if and only if the screen has seen the end of the game, and every report is 100 points if
  the player won and 0 otherwise. When React commits after each event, it is reported exactly once.\<close>

theorem screen_safe:
  assumes "random_source rnd ok" "ok s" "sl_config_ok (lv_config lv)"
  shows "(\<exists>g. bind_res (screen_new lv rnd s) (screen_run lv rnd evs) = Inr g
      \<and> sl_inv (lv_config lv) (ss_engine g)
      \<and> (\<forall>i \<in> set (ss_queue g). i < length (lv_correct lv))
      \<and> (ss_completions g \<noteq> [] \<longleftrightarrow> ss_over g)
      \<and> set (ss_completions g) \<subseteq> {(if sl_winner (ss_engine g) = Some Player then 100 else 0, 100)}
      \<and> (ss_over g \<longrightarrow> sl_phase (ss_engine g) = GameOver))
    \<and> (\<exists>g. bind_res (screen_new lv rnd s) (screen_run lv rnd (with_commits evs)) = Inr g
      \<and> ss_completions g =
          (if ss_over g then [(if sl_winner (ss_engine g) = Some Player then 100 else 0, 100)] else []))"
proof -
  obtain g0 where g0: "screen_new lv rnd s = Inr g0" "committed lv ok g0"
    using random_source.screen_new_committed [OF assms] by blast
  have i0: "screen_inv lv ok g0" using g0(2) by (simp add: committed_def)
  obtain g where g: "screen_run lv rnd evs g0 = Inr g" "screen_inv lv ok g"
    using random_source.screen_run_inv [OF assms(1,3) i0] by blast
  obtain h where h: "screen_run lv rnd (with_commits evs) g0 = Inr h" "committed lv ok h"
    using random_source.committed_run [OF assms(1,3) g0(2)] by blast
  show ?thesis
    using g0(1) g h committed_result [OF h(2)] by (auto simp: screen_inv_def sl_result_def)
qed

theorem screen_safe_witness:
  "\<exists>g. bind_res (screen_new sample_level half 0) (screen_run sample_level half late_answer) = Inr g
    \<and> sl_inv sample_board (ss_engine g)"
  using screen_safe [OF half_source, where s = 0 and lv = sample_level and evs = late_answer] sample_board_ok
  by (auto simp: sample_level_def)

text \<open>The animation of a roll is right: it visits at least one cell, only cells between 1 and the
  goal, and ends on the position the engine has computed.\<close>

theorem token_path_ok:
  assumes "random_source rnd ok" "ok s" "sl_config_ok c" "sl_inv c st"
    and "rollPlayer c rnd (st, s) = Inr (st', s')"
  shows "let path = animate_path (winPosition c) (sl_playerPosition st) (sl_lastRoll st') (sl_playerPosition st')
    in path \<noteq> [] \<and> last path = sl_playerPosition st' \<and> set path \<subseteq> {1..winPosition c}"
proof -
  have ph: "sl_phase st = PlayerTurn" by (rule rollPlayer_cases(1) [OF assms(5)])
  have "sl_inv c st'" by (rule random_source.rollPlayer_spec(1) [OF assms(1,5,2,3,4)])
  moreover have "6 \<le> winPosition c" using assms(3) by (simp add: sl_config_ok_def)
  moreover have "sl_playerPosition st < winPosition c" using sl_inv_turn(1) [OF assms(4)] ph by simp
  ultimately show ?thesis unfolding Let_def
    using animate_path_ok [of "winPosition c" "sl_playerPosition st" "sl_lastRoll st'" "sl_playerPosition st'"]
      random_source.die_range [OF assms(1,2)] rollPlayer_lastRoll [OF assms(5)] assms(4)
    by (simp add: sl_inv_def)
qed

theorem token_path_ok_witness:
  "\<exists>st'. rollPlayer sample_board half ((sl_new sample_board)\<lparr>sl_phase := PlayerTurn\<rparr>, 0) = Inr (st', 1)
     \<and> last (animate_path 9 1 (sl_lastRoll st') (sl_playerPosition st')) = sl_playerPosition st'"
proof -
  let ?st = "(sl_new sample_board)\<lparr>sl_phase := PlayerTurn\<rparr>"
  have i: "sl_inv sample_board ?st"
    by (simp add: sl_inv_def sl_new_def sample_board_def winPosition_def)
  obtain st' where r: "rollPlayer sample_board half (?st, 0) = Inr (st', 1)"
    using rollPlayer_total [of ?st sample_board half 0] by (auto simp: half_def)
  have "winPosition sample_board = 9" "sl_playerPosition ?st = 1"
    by (simp_all add: winPosition_def sample_board_def sl_new_def)
  then show ?thesis using token_path_ok [OF half_source _ sample_board_ok i r] r by (simp add: Let_def)
qed

text \<open>The screen can deadlock. The engine hands the turn back before the AI's animation has run, so
  the button is enabled and a question can be open while the AI's token moves; a wrong answer at that
  moment gives the turn to the AI, but the request to play it is dropped because a token is moving.
  From then on no click, answer or timer ever changes the engine again and the game is not over.\<close>

theorem screen_deadlock:
  "\<exists>g. bind_res (screen_new sample_level half 0) (screen_run sample_level half late_answer) = Inr g
     \<and> (\<forall>evs. \<exists>g'. screen_run sample_level half evs g = Inr g'
            \<and> ss_engine g' = ss_engine g \<and> sl_phase (ss_engine g') = AiTurn \<and> \<not> ss_over g')"
proof -
  obtain g where g: "bind_res (screen_new sample_level half 0) (screen_run sample_level half late_answer) = Inr g"
      "screen_stuck g"
    using late_answer_stuck by (auto simp: res_all_def split: sum.splits)
  have "\<exists>g'. screen_run sample_level half evs g = Inr g' \<and> ss_engine g' = ss_engine g
      \<and> sl_phase (ss_engine g') = AiTurn \<and> \<not> ss_over g'" for evs
    using stuck_run [OF g(2), of sample_level half evs] by (auto simp: screen_stuck_def)
  then show ?thesis using g(1) by blast
qed

end
