(* ===== verification/CrosswordLayout.thy ===== *)
theory CrosswordLayout
  imports JsText "HOL-Library.AList"
begin

text \<open>
  The layout algorithm of the crossword (\<open>packages/engine/src/games/CrosswordEngine.ts\<close>, from
  \<open>normalizeCrosswordAnswer\<close> on): words are placed one after the other across letters they share
  with words already placed. The grid is the source's \<open>Map\<close> in insertion order; its key
  \<open>`${x},${y}`\<close> is the pair of coordinates.
\<close>

section \<open>Data\<close>

record crossword_word =
  cw_word :: string
  cw_clue :: string

record normalized_word =
  nw_word :: string
  nw_clue :: string
  nw_normalizedWord :: string

record placed_word =
  pl_word :: string
  pl_clue :: string
  pl_x :: int
  pl_y :: int
  pl_isVertical :: bool

type_synonym cw_grid = "((int \<times> int) \<times> char) list"

record cw_layout =
  ly_grid :: cw_grid
  ly_placedWords :: "placed_word list"
  ly_unplacedWords :: "crossword_word list"
  ly_maxX :: int
  ly_maxY :: int

record cw_placement =
  pc_x :: int
  pc_y :: int
  pc_isVertical :: bool
  pc_score :: int

section \<open>Operations\<close>

definition answer_letter :: "char \<Rightarrow> bool" where
  "answer_letter c \<longleftrightarrow> is_upper c \<or> code c = 209"

definition normalizeCrosswordAnswer :: "string \<Rightarrow> string" where
  "normalizeCrosswordAnswer v = filter answer_letter (to_upper (strip_accents (trim v)))"

text \<open>Cell number \<open>i\<close> of a word that starts at \<open>(x, y)\<close>.\<close>

definition cell_of :: "bool \<Rightarrow> int \<Rightarrow> int \<Rightarrow> int \<Rightarrow> int \<times> int" where
  "cell_of isVertical x y i = (if isVertical then (x, y + i) else (x + i, y))"

definition placeWord ::
  "normalized_word \<Rightarrow> int \<Rightarrow> int \<Rightarrow> bool \<Rightarrow> cw_grid \<times> placed_word list \<Rightarrow> cw_grid \<times> placed_word list" where
  "placeWord word x y isVertical = (\<lambda>(grid, placedWords).
     (fold (\<lambda>(index, ch). AList.update (cell_of isVertical x y (int index)) ch)
        (enumerate 0 (nw_normalizedWord word)) grid,
      placedWords @ [\<lparr>pl_word = nw_normalizedWord word, pl_clue = nw_clue word, pl_x = x, pl_y = y,
        pl_isVertical = isVertical\<rparr>]))"

definition has_cell :: "cw_grid \<Rightarrow> int \<times> int \<Rightarrow> bool" where
  "has_cell grid k \<longleftrightarrow> map_of grid k \<noteq> None"

text \<open>The loop of \<open>canPlaceWord\<close>: \<open>None\<close> for an early \<open>return false\<close>, else the intersections.\<close>

fun can_place_loop :: "cw_grid \<Rightarrow> bool \<Rightarrow> int \<Rightarrow> int \<Rightarrow> int \<Rightarrow> string \<Rightarrow> nat \<Rightarrow> nat option" where
  "can_place_loop grid isVertical startX startY i [] intersections = Some intersections"
| "can_place_loop grid isVertical startX startY i (c # cs) intersections =
     (let (x, y) = cell_of isVertical startX startY i
      in case map_of grid (x, y) of
           Some ch \<Rightarrow> if ch \<noteq> c then None
             else can_place_loop grid isVertical startX startY (i + 1) cs (intersections + 1)
         | None \<Rightarrow>
             let adjacentA = (if isVertical then (x - 1, y) else (x, y - 1));
                 adjacentB = (if isVertical then (x + 1, y) else (x, y + 1))
             in if has_cell grid adjacentA \<or> has_cell grid adjacentB then None
                else can_place_loop grid isVertical startX startY (i + 1) cs intersections)"

definition canPlaceWord :: "string \<Rightarrow> int \<Rightarrow> int \<Rightarrow> bool \<Rightarrow> cw_grid \<Rightarrow> bool" where
  "canPlaceWord letters startX startY isVertical grid =
     (case can_place_loop grid isVertical startX startY 0 letters 0 of
        None \<Rightarrow> False
      | Some intersections \<Rightarrow>
          let before = (if isVertical then startX else startX - 1, if isVertical then startY - 1 else startY);
              after = (if isVertical then startX else startX + int (length letters),
                       if isVertical then startY + int (length letters) else startY)
          in if has_cell grid before \<or> has_cell grid after then False else intersections > 0)"

text \<open>The placements the three nested loops of \<open>findBestPlacement\<close> try, in their order.\<close>

definition crossings :: "string \<Rightarrow> placed_word list \<Rightarrow> (int \<times> int \<times> bool) list" where
  "crossings letters placedWords =
     concat (map (\<lambda>(wordIndex, letter).
       concat (map (\<lambda>placed.
         concat (map (\<lambda>(placedIndex, placedLetter).
           if placedLetter \<noteq> letter then []
           else let (intersectionX, intersectionY) =
                      cell_of (pl_isVertical placed) (pl_x placed) (pl_y placed) (int placedIndex);
                    isVertical = (\<not> pl_isVertical placed);
                    x = (if isVertical then intersectionX else intersectionX - int wordIndex);
                    y = (if isVertical then intersectionY - int wordIndex else intersectionY)
                in [(x, y, isVertical)])
         (enumerate 0 (pl_word placed)))) placedWords)) (enumerate 0 letters))"

definition better_placement ::
  "string \<Rightarrow> cw_grid \<Rightarrow> int \<times> int \<times> bool \<Rightarrow> cw_placement option \<Rightarrow> cw_placement option" where
  "better_placement letters grid = (\<lambda>(x, y, isVertical) best.
     if canPlaceWord letters x y isVertical grid
     then let score = \<bar>x\<bar> + \<bar>y\<bar>;
              new = \<lparr>pc_x = x, pc_y = y, pc_isVertical = isVertical, pc_score = score\<rparr>
          in case best of
               None \<Rightarrow> Some new
             | Some b \<Rightarrow> if score < pc_score b then Some new else best
     else best)"

definition findBestPlacement :: "normalized_word \<Rightarrow> cw_grid \<Rightarrow> placed_word list \<Rightarrow> cw_placement option" where
  "findBestPlacement word grid placedWords =
     fold (better_placement (nw_normalizedWord word) grid) (crossings (nw_normalizedWord word) placedWords) None"

definition greedy_step :: "normalized_word \<Rightarrow> cw_grid \<times> placed_word list \<Rightarrow> cw_grid \<times> placed_word list" where
  "greedy_step word = (\<lambda>(grid, placedWords).
     case findBestPlacement word grid placedWords of
       Some pl \<Rightarrow> placeWord word (pc_x pl) (pc_y pl) (pc_isVertical pl) (grid, placedWords)
     | None \<Rightarrow> (grid, placedWords))"

definition normalizeLayout :: "cw_grid \<Rightarrow> placed_word list \<Rightarrow> cw_layout" where
  "normalizeLayout grid placedWords =
     (if grid = []
      then \<lparr>ly_grid = grid, ly_placedWords = placedWords, ly_unplacedWords = [], ly_maxX = 0, ly_maxY = 0\<rparr>
      else let minX = Min (set (map (fst \<circ> fst) grid));
               minY = Min (set (map (snd \<circ> fst) grid));
               normalizedGrid = fold (\<lambda>((x, y), ch). AList.update (x - minX, y - minY) ch) grid []
           in \<lparr>ly_grid = normalizedGrid,
               ly_placedWords = map (\<lambda>w. w\<lparr>pl_x := pl_x w - minX, pl_y := pl_y w - minY\<rparr>) placedWords,
               ly_unplacedWords = [],
               ly_maxX = Max (set (map (fst \<circ> fst) normalizedGrid)),
               ly_maxY = Max (set (map (snd \<circ> fst) normalizedGrid))\<rparr>)"

text \<open>The list is never empty where it is called, so \<open>words[0]\<close> exists.\<close>

definition buildGreedyLayout :: "normalized_word list \<Rightarrow> crossword_word list \<Rightarrow> cw_layout" where
  "buildGreedyLayout words originalWords =
     (let start = placeWord (hd words) 0 0 False ([], []);
          (grid, placedWords) = fold greedy_step (tl words) start;
          normalized = normalizeLayout grid placedWords
      in normalized\<lparr>ly_unplacedWords :=
           filter (\<lambda>word. \<not> list_ex (\<lambda>placed. pl_word placed = normalizeCrosswordAnswer (cw_word word))
                             (ly_placedWords normalized)) originalWords\<rparr>)"

definition emptyLayout :: "crossword_word list \<Rightarrow> cw_layout" where
  "emptyLayout unplacedWords =
     \<lparr>ly_grid = [], ly_placedWords = [], ly_unplacedWords = unplacedWords, ly_maxX = 0, ly_maxY = 0\<rparr>"

definition normalize_words :: "crossword_word list \<Rightarrow> normalized_word list" where
  "normalize_words words =
     filter (\<lambda>w. length (nw_normalizedWord w) \<ge> 2 \<and> length (trim (nw_clue w)) > 0)
       (map (\<lambda>w. \<lparr>nw_word = cw_word w, nw_clue = cw_clue w,
                   nw_normalizedWord = normalizeCrosswordAnswer (cw_word w)\<rparr>) words)"

fun layout_loop ::
  "normalized_word list \<Rightarrow> crossword_word list \<Rightarrow> nat list \<Rightarrow> cw_layout \<Rightarrow> cw_layout" where
  "layout_loop sortedWords words [] bestLayout = bestLayout"
| "layout_loop sortedWords words (firstIndex # rest) bestLayout =
     (let orderedWords = sortedWords ! firstIndex # take firstIndex sortedWords @ drop (firstIndex + 1) sortedWords;
          layout = buildGreedyLayout orderedWords words;
          bestLayout = (if length (ly_placedWords layout) > length (ly_placedWords bestLayout) then layout else bestLayout)
      in if length (ly_unplacedWords layout) = 0 then layout
         else layout_loop sortedWords words rest bestLayout)"

definition buildCrosswordLayout :: "crossword_word list \<Rightarrow> cw_layout" where
  "buildCrosswordLayout words =
     (let normalizedWords = normalize_words words
      in if length normalizedWords = 0 then emptyLayout words
         else let sortedWords = sort_key (\<lambda>w. - int (length (nw_normalizedWord w))) normalizedWords
              in layout_loop sortedWords words [0..<length sortedWords] (emptyLayout words))"

definition canBuildConnectedCrossword :: "crossword_word list \<Rightarrow> bool" where
  "canBuildConnectedCrossword words =
     (let layout = buildCrosswordLayout words
      in length (ly_unplacedWords layout) = 0 \<and> length (ly_placedWords layout) = length words)"


section \<open>Well-formed layouts\<close>

definition word_cells :: "placed_word \<Rightarrow> (int \<times> int) set" where
  "word_cells p = (\<lambda>i. cell_of (pl_isVertical p) (pl_x p) (pl_y p) (int i)) ` {..<length (pl_word p)}"

definition next_cell :: "bool \<Rightarrow> int \<times> int \<Rightarrow> int \<times> int" where
  "next_cell v = (\<lambda>(x, y). cell_of v x y 1)"

text \<open>The cell before the first and the cell after the last letter are empty.\<close>

definition ends_free :: "(int \<times> int) set \<Rightarrow> placed_word \<Rightarrow> bool" where
  "ends_free D p \<longleftrightarrow>
     cell_of (pl_isVertical p) (pl_x p) (pl_y p) (-1) \<notin> D
     \<and> cell_of (pl_isVertical p) (pl_x p) (pl_y p) (int (length (pl_word p))) \<notin> D"

text \<open>
  A word is spelled if each of its letters stands in its cell. Two neighbouring letters always belong
  to one placed word with free ends, so the grid shows no word that was not placed.
\<close>

definition spelled :: "cw_grid \<Rightarrow> placed_word \<Rightarrow> bool" where
  "spelled g p \<longleftrightarrow> (\<forall>i < length (pl_word p).
     map_of g (cell_of (pl_isVertical p) (pl_x p) (pl_y p) (int i)) = Some (pl_word p ! i))"

definition no_accidents :: "(int \<times> int) set \<Rightarrow> placed_word list \<Rightarrow> bool" where
  "no_accidents D ps \<longleftrightarrow> (\<forall>v c. c \<in> D \<longrightarrow> next_cell v c \<in> D \<longrightarrow>
     (\<exists>p \<in> set ps. pl_isVertical p = v \<and> c \<in> word_cells p \<and> next_cell v c \<in> word_cells p \<and> ends_free D p))"

definition linked :: "placed_word list \<Rightarrow> bool" where
  "linked ps \<longleftrightarrow> (\<forall>k. 0 < k \<longrightarrow> k < length ps \<longrightarrow> (\<exists>j < k. word_cells (ps ! k) \<inter> word_cells (ps ! j) \<noteq> {}))"

definition layout_ok :: "cw_grid \<Rightarrow> placed_word list \<Rightarrow> bool" where
  "layout_ok g ps \<longleftrightarrow>
     distinct (map fst g) \<and> (\<forall>p \<in> set ps. spelled g p)
     \<and> dom (map_of g) = (\<Union>p \<in> set ps. word_cells p)
     \<and> no_accidents (dom (map_of g)) ps \<and> linked ps"

section \<open>Placing\<close>

lemma cell_of_inj [simp]: "cell_of v x y i = cell_of v x y j \<longleftrightarrow> i = j"
  by (simp add: cell_of_def)

lemma next_cell_of [simp]: "next_cell v (cell_of v x y i) = cell_of v x y (i + 1)"
  by (simp add: next_cell_def cell_of_def)

definition write_word :: "bool \<Rightarrow> int \<Rightarrow> int \<Rightarrow> nat \<Rightarrow> string \<Rightarrow> cw_grid \<Rightarrow> cw_grid" where
  "write_word v x y n cs g = fold (\<lambda>(index, ch). AList.update (cell_of v x y (int index)) ch) (enumerate n cs) g"

lemma write_word_simps [simp]:
  "write_word v x y n [] g = g"
  "write_word v x y n (c # cs) g = write_word v x y (Suc n) cs (AList.update (cell_of v x y (int n)) c g)"
  by (simp_all add: write_word_def)

lemma write_word_other:
  "\<forall>i < length cs. k \<noteq> cell_of v x y (int (n + i)) \<Longrightarrow> map_of (write_word v x y n cs g) k = map_of g k"
proof (induction cs arbitrary: n g)
  case Nil
  then show ?case by simp
next
  case (Cons c cs)
  have "\<forall>i < length cs. k \<noteq> cell_of v x y (int (Suc n + i))"
    using Cons.prems by (metis Suc_less_eq add_Suc add_Suc_right length_Cons)
  moreover have "k \<noteq> cell_of v x y (int n)" using Cons.prems by (metis add_0_right length_Cons zero_less_Suc)
  ultimately show ?case using Cons.IH [of "Suc n"] by (simp add: update_conv)
qed

lemma write_word_cell:
  "i < length cs \<Longrightarrow> map_of (write_word v x y n cs g) (cell_of v x y (int (n + i))) = Some (cs ! i)"
proof (induction cs arbitrary: n g i)
  case Nil
  then show ?case by simp
next
  case (Cons c cs)
  show ?case
  proof (cases i)
    case 0
    have "\<forall>i < length cs. cell_of v x y (int n) \<noteq> cell_of v x y (int (Suc n + i))" by simp
    then show ?thesis using 0 by (simp add: write_word_other update_conv)
  next
    case (Suc j)
    then show ?thesis using Cons.IH [of j "Suc n"] Cons.prems by simp
  qed
qed

lemma write_word_distinct: "distinct (map fst g) \<Longrightarrow> distinct (map fst (write_word v x y n cs g))"
  by (induction cs arbitrary: n g) (simp_all add: distinct_update)

lemma placeWord_eq:
  "placeWord w x y v (g, ps) = (write_word v x y 0 (nw_normalizedWord w) g,
     ps @ [\<lparr>pl_word = nw_normalizedWord w, pl_clue = nw_clue w, pl_x = x, pl_y = y, pl_isVertical = v\<rparr>])"
  by (simp add: placeWord_def write_word_def)

lemma write_word_spelled:
  "spelled (write_word v x y 0 cs g) \<lparr>pl_word = cs, pl_clue = cl, pl_x = x, pl_y = y, pl_isVertical = v\<rparr>"
  using write_word_cell [of _ cs v x y 0 g] by (simp add: spelled_def)

lemma write_word_dom:
  "dom (map_of (write_word v x y 0 cs g)) = dom (map_of g) \<union> (\<lambda>i. cell_of v x y (int i)) ` {..<length cs}"
proof (intro set_eqI)
  fix k
  show "k \<in> dom (map_of (write_word v x y 0 cs g)) \<longleftrightarrow> k \<in> dom (map_of g) \<union> (\<lambda>i. cell_of v x y (int i)) ` {..<length cs}"
  proof (cases "k \<in> (\<lambda>i. cell_of v x y (int i)) ` {..<length cs}")
    case True
    then obtain i where "i < length cs" "k = cell_of v x y (int i)" by auto
    then show ?thesis using write_word_cell [of i cs v x y 0 g] True by (simp add: domIff)
  next
    case False
    then have "\<forall>i < length cs. k \<noteq> cell_of v x y (int (0 + i))" by auto
    then show ?thesis using False write_word_other [of cs k v x y 0 g] by (simp add: domIff)
  qed
qed

section \<open>The placement test\<close>

definition side :: "bool \<Rightarrow> int \<Rightarrow> int \<times> int \<Rightarrow> int \<times> int" where
  "side v d = (\<lambda>(x, y). if v then (x + d, y) else (x, y + d))"

lemma has_cell_dom: "has_cell g k \<longleftrightarrow> k \<in> dom (map_of g)"
  by (auto simp: has_cell_def)

definition cell_fits :: "cw_grid \<Rightarrow> bool \<Rightarrow> int \<times> int \<Rightarrow> char \<Rightarrow> bool" where
  "cell_fits g v k c \<longleftrightarrow> map_of g k = Some c
     \<or> (k \<notin> dom (map_of g) \<and> side v (-1) k \<notin> dom (map_of g) \<and> side v 1 k \<notin> dom (map_of g))"

lemma can_place_loop_SomeD:
  "can_place_loop g v x y i cs n = Some m \<Longrightarrow>
   (\<forall>j < length cs. cell_fits g v (cell_of v x y (i + int j)) (cs ! j)) \<and> n \<le> m
   \<and> (n < m \<longrightarrow> (\<exists>j < length cs. cell_of v x y (i + int j) \<in> dom (map_of g)))"
proof (induction cs arbitrary: i n)
  case Nil
  then show ?case by simp
next
  case (Cons c cs)
  let ?k = "cell_of v x y i"
  show ?case
  proof (cases "map_of g ?k")
    case (Some ch)
    then have r: "ch = c" "can_place_loop g v x y (i + 1) cs (n + 1) = Some m"
      using Cons.prems by (auto simp: Let_def split: prod.splits if_splits)
    have ih: "\<forall>j < length cs. cell_fits g v (cell_of v x y (i + 1 + int j)) (cs ! j)" "n + 1 \<le> m"
      using Cons.IH [OF r(2)] by auto
    have "cell_fits g v (cell_of v x y (i + int j)) ((c # cs) ! j)" if "j < length (c # cs)" for j
      using that ih(1) Some r(1) by (cases j) (auto simp: cell_fits_def add.assoc)
    moreover have "\<exists>j < length (c # cs). cell_of v x y (i + int j) \<in> dom (map_of g)"
      using Some by (intro exI [of _ 0]) auto
    ultimately show ?thesis using ih(2) by auto
  next
    case None
    then have r: "\<not> has_cell g (side v (-1) ?k)" "\<not> has_cell g (side v 1 ?k)"
        "can_place_loop g v x y (i + 1) cs n = Some m"
      using Cons.prems by (auto simp: Let_def side_def cell_of_def split: prod.splits if_splits)
    have ih: "\<forall>j < length cs. cell_fits g v (cell_of v x y (i + 1 + int j)) (cs ! j)" "n \<le> m"
        "n < m \<longrightarrow> (\<exists>j < length cs. cell_of v x y (i + 1 + int j) \<in> dom (map_of g))"
      using Cons.IH [OF r(3)] by auto
    have "cell_fits g v (cell_of v x y (i + int j)) ((c # cs) ! j)" if "j < length (c # cs)" for j
      using that ih(1) None r(1,2) by (cases j) (auto simp: cell_fits_def has_cell_dom domIff add.assoc)
    moreover have "\<exists>j < length (c # cs). cell_of v x y (i + int j) \<in> dom (map_of g)"
      if "j < length cs" "cell_of v x y (i + 1 + int j) \<in> dom (map_of g)" for j
      using that by (intro exI [of _ "Suc j"]) (simp add: add.assoc)
    ultimately show ?thesis using ih(2,3) by blast
  qed
qed

lemma canPlaceWordD:
  assumes "canPlaceWord cs x y v g"
  shows "\<forall>j < length cs. cell_fits g v (cell_of v x y (int j)) (cs ! j)"
    and "\<exists>j < length cs. cell_of v x y (int j) \<in> dom (map_of g)"
    and "cell_of v x y (-1) \<notin> dom (map_of g)"
    and "cell_of v x y (int (length cs)) \<notin> dom (map_of g)"
proof -
  obtain m where m: "can_place_loop g v x y 0 cs 0 = Some m" "0 < m"
      "\<not> has_cell g (cell_of v x y (-1))" "\<not> has_cell g (cell_of v x y (int (length cs)))"
    using assms by (cases v) (auto simp: canPlaceWord_def cell_of_def Let_def split: option.splits if_splits)
  note d = can_place_loop_SomeD [OF m(1)]
  show "\<forall>j < length cs. cell_fits g v (cell_of v x y (int j)) (cs ! j)" using d by simp
  show "\<exists>j < length cs. cell_of v x y (int j) \<in> dom (map_of g)" using d m(2) by simp
  show "cell_of v x y (-1) \<notin> dom (map_of g)" "cell_of v x y (int (length cs)) \<notin> dom (map_of g)"
    using m(3,4) by (simp_all add: has_cell_dom)
qed


section \<open>Placing keeps the layout well-formed\<close>

lemma side_next:
  "v \<noteq> w \<Longrightarrow> side v 1 k = next_cell w k"
  "v \<noteq> w \<Longrightarrow> side v (-1) (next_cell w k) = k"
  by (cases v; cases w; auto simp: side_def next_cell_def cell_of_def split: prod.splits)+

lemma next_cell_inj [simp]: "next_cell v k = next_cell v k' \<longleftrightarrow> k = k'"
  by (cases k; cases k') (auto simp: next_cell_def cell_of_def)

definition new_cells :: "bool \<Rightarrow> int \<Rightarrow> int \<Rightarrow> string \<Rightarrow> (int \<times> int) set" where
  "new_cells v x y cs = (\<lambda>i. cell_of v x y (int i)) ` {..<length cs}"

definition after_cells :: "cw_grid \<Rightarrow> bool \<Rightarrow> int \<Rightarrow> int \<Rightarrow> string \<Rightarrow> (int \<times> int) set" where
  "after_cells g v x y cs = dom (map_of g) \<union> new_cells v x y cs"

definition placed_across :: "cw_grid \<Rightarrow> string \<Rightarrow> bool \<Rightarrow> int \<Rightarrow> int \<Rightarrow> bool" where
  "placed_across g cs v x y \<longleftrightarrow>
     (\<forall>j < length cs. cell_fits g v (cell_of v x y (int j)) (cs ! j))
     \<and> cell_of v x y (-1) \<notin> dom (map_of g) \<and> cell_of v x y (int (length cs)) \<notin> dom (map_of g)"

lemma ends_outside:
  assumes "placed_across g cs v x y"
  shows "cell_of v x y (-1) \<notin> after_cells g v x y cs" "cell_of v x y (int (length cs)) \<notin> after_cells g v x y cs"
  using assms by (auto simp: placed_across_def after_cells_def new_cells_def)

text \<open>Along the word, a letter of the grid next to one of its cells is one of its cells.\<close>

lemma forward: "placed_across g cs v x y \<Longrightarrow> k \<in> new_cells v x y cs \<Longrightarrow> next_cell v k \<in> after_cells g v x y cs \<Longrightarrow> next_cell v k \<in> new_cells v x y cs"
proof -
  assume pa: "placed_across g cs v x y" and k: "k \<in> new_cells v x y cs" "next_cell v k \<in> after_cells g v x y cs"
  then obtain i where i: "i < length cs" "k = cell_of v x y (int i)" by (auto simp: new_cells_def)
  have "Suc i \<noteq> length cs"
  proof
    assume "Suc i = length cs"
    then have "next_cell v k = cell_of v x y (int (length cs))" using i(2) by (simp flip: \<open>Suc i = length cs\<close>)
    then show False using k(2) ends_outside [OF pa] by simp
  qed
  then have "Suc i < length cs" using i(1) by simp
  then show ?thesis using i(2) by (auto simp: new_cells_def image_iff intro!: bexI [of _ "Suc i"])
qed

lemma backward: "placed_across g cs v x y \<Longrightarrow> next_cell v k \<in> new_cells v x y cs \<Longrightarrow> k \<in> after_cells g v x y cs \<Longrightarrow> k \<in> new_cells v x y cs"
proof -
  assume pa: "placed_across g cs v x y" and k: "next_cell v k \<in> new_cells v x y cs" "k \<in> after_cells g v x y cs"
  then obtain i where i: "i < length cs" "next_cell v k = cell_of v x y (int i)" by (auto simp: new_cells_def)
  then have e: "k = cell_of v x y (int i - 1)"
    by (cases k) (auto simp: next_cell_def cell_of_def split: if_splits)
  have "i \<noteq> 0" using e k(2) ends_outside [OF pa] by (cases "i = 0") auto
  then have "k = cell_of v x y (int (i - 1))" "i - 1 < length cs" using e i(1) by (auto simp: of_nat_diff)
  then show ?thesis by (auto simp: new_cells_def)
qed

text \<open>Across the word, a new letter has no neighbours.\<close>

lemma across:
  assumes pa: "placed_across g cs v x y" and wv: "w \<noteq> v" and kk: "k \<in> after_cells g v x y cs" "next_cell w k \<in> after_cells g v x y cs"
  shows "k \<in> dom (map_of g)" "next_cell w k \<in> dom (map_of g)"
proof -
  have new: "side v (-1) c \<notin> dom (map_of g) \<and> side v 1 c \<notin> dom (map_of g)" if "c \<in> new_cells v x y cs" "c \<notin> dom (map_of g)" for c
  proof -
    obtain i where i: "i < length cs" "c = cell_of v x y (int i)" using \<open>c \<in> new_cells v x y cs\<close> by (auto simp: new_cells_def)
    then show ?thesis using pa i(1) \<open>c \<notin> dom (map_of g)\<close> by (auto simp: placed_across_def cell_fits_def)
  qed
  have both: "\<not> (k \<in> new_cells v x y cs \<and> next_cell w k \<in> new_cells v x y cs)"
    using wv unfolding new_cells_def by (cases v) (auto simp: cell_of_def next_cell_def)
  have s: "side v 1 k = next_cell w k" "side v (-1) (next_cell w k) = k"
    using side_next wv by metis+
  show 1: "k \<in> dom (map_of g)"
  proof (rule ccontr)
    assume n: "k \<notin> dom (map_of g)"
    then have "k \<in> new_cells v x y cs" using kk(1) by (simp add: after_cells_def)
    moreover have "next_cell w k \<in> dom (map_of g)" using both calculation kk(2) by (auto simp: after_cells_def)
    ultimately show False using new [of k] n s(1) by simp
  qed
  show "next_cell w k \<in> dom (map_of g)"
  proof (rule ccontr)
    assume n: "next_cell w k \<notin> dom (map_of g)"
    then have "next_cell w k \<in> new_cells v x y cs" using kk(2) by (simp add: after_cells_def)
    then show False using new [of "next_cell w k"] n s(2) 1 by simp
  qed
qed

text \<open>A word on the same line that the new word touches at an end is swallowed by it.\<close>

lemma swallowed:
  assumes pa: "placed_across g cs v x y" and pv: "pl_isVertical p = v" "word_cells p \<subseteq> after_cells g v x y cs"
    and touch: "cell_of v (pl_x p) (pl_y p) (-1) \<in> new_cells v x y cs \<or> cell_of v (pl_x p) (pl_y p) (int (length (pl_word p))) \<in> new_cells v x y cs"
  shows "word_cells p \<subseteq> new_cells v x y cs"
proof -
  let ?c = "\<lambda>i. cell_of v (pl_x p) (pl_y p) i"
  have inw: "?c (int i) \<in> after_cells g v x y cs" if "i < length (pl_word p)" for i
    using that pv by (auto simp: word_cells_def)
  from touch have "\<forall>i < length (pl_word p). ?c (int i) \<in> new_cells v x y cs"
  proof
    assume b: "?c (-1) \<in> new_cells v x y cs"
    have "?c (int i) \<in> new_cells v x y cs" if "i < length (pl_word p)" for i
      using that
    proof (induction i)
      case 0
      then show ?case using forward [OF pa b] inw [of 0] by simp
    next
      case (Suc i)
      then show ?case using forward [OF pa, of "?c (int i)"] inw [of "Suc i"] by (simp add: add.commute)
    qed
    then show ?thesis by blast
  next
    assume b: "?c (int (length (pl_word p))) \<in> new_cells v x y cs"
    have all: "?c (int (length (pl_word p)) - int k) \<in> new_cells v x y cs" if "k \<le> length (pl_word p)" for k
      using that
    proof (induction k)
      case 0
      then show ?case using b by simp
    next
      case (Suc k)
      have e: "int (length (pl_word p)) - int (Suc k) = int (length (pl_word p) - Suc k)"
        using Suc.prems by (simp add: of_nat_diff)
      have "?c (int (length (pl_word p)) - int (Suc k)) \<in> after_cells g v x y cs"
        unfolding e using Suc.prems by (intro inw) simp
      moreover have "next_cell v (?c (int (length (pl_word p)) - int (Suc k))) \<in> new_cells v x y cs"
        using Suc by simp
      ultimately show ?case by (rule backward [OF pa, rotated])
    qed
    have "?c (int i) \<in> new_cells v x y cs" if "i < length (pl_word p)" for i
      using all [of "length (pl_word p) - i"] that by (simp add: of_nat_diff)
    then show ?thesis by blast
  qed
  then show ?thesis using pv(1) by (auto simp: word_cells_def new_cells_def)
qed

lemma no_accidents_after:
  assumes pa: "placed_across g cs v x y" and old: "no_accidents (dom (map_of g)) ps"
    and sub: "\<And>p. p \<in> set ps \<Longrightarrow> word_cells p \<subseteq> dom (map_of g)"
    and new: "pl_word q = cs" "pl_x q = x" "pl_y q = y" "pl_isVertical q = v"
  shows "no_accidents (after_cells g v x y cs) (ps @ [q])"
  unfolding no_accidents_def
proof (intro allI impI)
  fix w k
  assume k: "k \<in> after_cells g v x y cs" "next_cell w k \<in> after_cells g v x y cs"
  have qc: "word_cells q = new_cells v x y cs" using new by (simp add: word_cells_def new_cells_def)
  have qe: "ends_free (after_cells g v x y cs) q" using new ends_outside [OF pa] by (simp add: ends_free_def)
  show "\<exists>p \<in> set (ps @ [q]). pl_isVertical p = w \<and> k \<in> word_cells p \<and> next_cell w k \<in> word_cells p \<and> ends_free (after_cells g v x y cs) p"
  proof (cases "w = v \<and> (k \<in> new_cells v x y cs \<or> next_cell w k \<in> new_cells v x y cs)")
    case True
    then have "k \<in> new_cells v x y cs" "next_cell v k \<in> new_cells v x y cs" using k forward [OF pa, of k] backward [OF pa, of k] by blast+
    then show ?thesis using True qc qe new(4) by (intro bexI [of _ q]) simp_all
  next
    case False
    then have old_k: "k \<in> dom (map_of g)" "next_cell w k \<in> dom (map_of g)"
    proof -
      have "k \<in> dom (map_of g) \<and> next_cell w k \<in> dom (map_of g)"
      proof (cases "w = v")
        case True
        then show ?thesis using k False unfolding after_cells_def by blast
      next
        case ne: False
        show ?thesis using across [OF pa ne k] by blast
      qed
      then show "k \<in> dom (map_of g)" "next_cell w k \<in> dom (map_of g)" by blast+
    qed
    then obtain p where p: "p \<in> set ps" "pl_isVertical p = w" "k \<in> word_cells p" "next_cell w k \<in> word_cells p"
        "ends_free (dom (map_of g)) p"
      using old unfolding no_accidents_def by blast
    have ne: "pl_word p \<noteq> []" using p(3) by (auto simp: word_cells_def)
    have "ends_free (after_cells g v x y cs) p"
    proof (cases "w = v")
      case True
      have "\<not> word_cells p \<subseteq> new_cells v x y cs" using p(3) False True by blast
      then have "cell_of v (pl_x p) (pl_y p) (-1) \<notin> new_cells v x y cs" "cell_of v (pl_x p) (pl_y p) (int (length (pl_word p))) \<notin> new_cells v x y cs"
        using swallowed [OF pa, of p] sub [OF p(1)] p(2) True unfolding after_cells_def by blast+
      then show ?thesis using p(2,5) True unfolding ends_free_def after_cells_def by blast
    next
      case False
      let ?c = "\<lambda>i. cell_of w (pl_x p) (pl_y p) i"
      have in_old: "?c (int i) \<in> dom (map_of g)" if "i < length (pl_word p)" for i
        using sub [OF p(1)] that unfolding word_cells_def p(2) by blast
      have f: "?c 0 \<in> after_cells g v x y cs" "?c (int (length (pl_word p)) - 1) \<in> after_cells g v x y cs"
        using in_old [of 0] in_old [of "length (pl_word p) - 1"] ne
        by (simp_all add: after_cells_def of_nat_diff Suc_leI)
      have fr: "?c (-1) \<notin> dom (map_of g)" "?c (int (length (pl_word p))) \<notin> dom (map_of g)"
        using p(5) unfolding ends_free_def p(2) by blast+
      have "?c (-1) \<notin> after_cells g v x y cs"
        using across(1) [OF pa False, of "?c (-1)"] f(1) fr(1) by auto
      moreover have "?c (int (length (pl_word p))) \<notin> after_cells g v x y cs"
        using across(2) [OF pa False, of "?c (int (length (pl_word p)) - 1)"] f(2) fr(2) by auto
      ultimately show ?thesis using p(2) by (simp add: ends_free_def)
    qed
    then show ?thesis using p(1-4) by (intro bexI [of _ p]) simp_all
  qed
qed


lemma spelled_mono:
  "spelled g p \<Longrightarrow> (\<And>k c. map_of g k = Some c \<Longrightarrow> map_of g' k = Some c) \<Longrightarrow> spelled g' p"
  by (simp add: spelled_def)

lemma linked_snoc:
  assumes "linked ps" "ps = [] \<or> (\<exists>p \<in> set ps. word_cells q \<inter> word_cells p \<noteq> {})"
  shows "linked (ps @ [q])"
  unfolding linked_def
proof (intro allI impI)
  fix k
  assume k: "0 < k" "k < length (ps @ [q])"
  show "\<exists>j < k. word_cells ((ps @ [q]) ! k) \<inter> word_cells ((ps @ [q]) ! j) \<noteq> {}"
  proof (cases "k < length ps")
    case True
    then obtain j where "j < k" "word_cells (ps ! k) \<inter> word_cells (ps ! j) \<noteq> {}"
      using assms(1) k(1) unfolding linked_def by blast
    then show ?thesis using True by (intro exI [of _ j]) (simp add: nth_append)
  next
    case False
    then have kk: "k = length ps" using k by simp
    then obtain p where "p \<in> set ps" "word_cells q \<inter> word_cells p \<noteq> {}" using assms(2) k by auto
    then obtain j where "j < length ps" "word_cells q \<inter> word_cells (ps ! j) \<noteq> {}" by (metis in_set_conv_nth)
    then show ?thesis using kk by (intro exI [of _ j]) (simp add: nth_append)
  qed
qed

lemma layout_ok_empty: "layout_ok [] []"
  by (simp add: layout_ok_def no_accidents_def linked_def)

lemma canPlaceWord_across: "canPlaceWord cs x y v g \<Longrightarrow> placed_across g cs v x y"
  using canPlaceWordD by (simp add: placed_across_def)

lemma placed_across_empty: "placed_across [] cs v x y"
  by (simp add: placed_across_def cell_fits_def)

lemma placeWord_ok:
  assumes ok: "layout_ok g ps" and pa: "placed_across g (nw_normalizedWord w) v x y"
    and touch: "ps = [] \<or> (\<exists>j < length (nw_normalizedWord w). cell_of v x y (int j) \<in> dom (map_of g))"
    and r: "placeWord w x y v (g, ps) = (g', ps')"
  shows "layout_ok g' ps'"
proof -
  define cs where "cs = nw_normalizedWord w"
  define q where "q = \<lparr>pl_word = cs, pl_clue = nw_clue w, pl_x = x, pl_y = y, pl_isVertical = v\<rparr>"
  note pa = pa [folded cs_def] and touch = touch [folded cs_def]
  have e: "g' = write_word v x y 0 cs g" "ps' = ps @ [q]"
    using r by (simp_all add: placeWord_eq cs_def q_def)
  have qc: "word_cells q = (\<lambda>i. cell_of v x y (int i)) ` {..<length cs}" by (simp add: word_cells_def q_def)
  have dom: "dom (map_of g') = dom (map_of g) \<union> word_cells q" unfolding e qc by (rule write_word_dom)
  have aft: "after_cells g v x y cs = dom (map_of g')" unfolding dom qc by (simp add: after_cells_def new_cells_def)
  have keep: "map_of g' k = Some ch" if "map_of g k = Some ch" for k ch
  proof (cases "k \<in> word_cells q")
    case True
    then obtain i where i: "i < length cs" "k = cell_of v x y (int i)" unfolding qc by auto
    then have "cs ! i = ch" using pa that by (auto simp: placed_across_def cell_fits_def)
    then show ?thesis using write_word_cell [of i cs v x y 0 g] i by (simp add: e)
  next
    case False
    then show ?thesis unfolding e using that write_word_other [of cs k v x y 0 g] by (auto simp: qc)
  qed
  have sp: "spelled g' p" if "p \<in> set ps" for p
    using spelled_mono [of g p g'] keep that ok unfolding layout_ok_def by blast
  have sq: "spelled g' q" unfolding e q_def by (rule write_word_spelled)
  show ?thesis unfolding layout_ok_def
  proof (intro conjI)
    show "distinct (map fst g')" unfolding e using ok by (intro write_word_distinct) (simp add: layout_ok_def)
    show "\<forall>p \<in> set ps'. spelled g' p" using sp sq unfolding e(2) by simp
    show "dom (map_of g') = (\<Union>p \<in> set ps'. word_cells p)"
      unfolding dom using ok by (auto simp: e(2) layout_ok_def)
    have "no_accidents (after_cells g v x y cs) (ps @ [q])"
      using ok by (intro no_accidents_after [OF pa]) (auto simp: layout_ok_def q_def)
    then show "no_accidents (dom (map_of g')) ps'" unfolding aft e(2) .
    have "ps = [] \<or> (\<exists>p \<in> set ps. word_cells q \<inter> word_cells p \<noteq> {})"
      using ok touch unfolding layout_ok_def qc by blast
    then show "linked ps'" unfolding e(2) using ok by (intro linked_snoc) (simp_all add: layout_ok_def)
  qed
qed

section \<open>The best placement\<close>

definition candidate_score :: "int \<times> int \<times> bool \<Rightarrow> int" where
  "candidate_score = (\<lambda>(x, y, v). \<bar>x\<bar> + \<bar>y\<bar>)"

definition feasible :: "string \<Rightarrow> cw_grid \<Rightarrow> int \<times> int \<times> bool \<Rightarrow> bool" where
  "feasible letters grid = (\<lambda>(x, y, v). canPlaceWord letters x y v grid)"

definition best_of :: "string \<Rightarrow> cw_grid \<Rightarrow> (int \<times> int \<times> bool) list \<Rightarrow> cw_placement option \<Rightarrow> bool" where
  "best_of letters grid tried best \<longleftrightarrow>
     (case best of
        None \<Rightarrow> \<forall>c \<in> set tried. \<not> feasible letters grid c
      | Some b \<Rightarrow> (pc_x b, pc_y b, pc_isVertical b) \<in> set tried
          \<and> feasible letters grid (pc_x b, pc_y b, pc_isVertical b)
          \<and> pc_score b = candidate_score (pc_x b, pc_y b, pc_isVertical b)
          \<and> (\<forall>c \<in> set tried. feasible letters grid c \<longrightarrow> pc_score b \<le> candidate_score c))"

lemma better_placement_best:
  "best_of letters grid tried best \<Longrightarrow> best_of letters grid (tried @ [c]) (better_placement letters grid c best)"
  by (cases c; cases best)
    (auto simp: best_of_def better_placement_def feasible_def candidate_score_def Let_def)

lemma fold_better_best:
  "best_of letters grid tried best \<Longrightarrow> best_of letters grid (tried @ cs) (fold (better_placement letters grid) cs best)"
proof (induction cs arbitrary: tried best)
  case Nil
  then show ?case by simp
next
  case (Cons c cs)
  then show ?case using better_placement_best [OF Cons.prems, of c] Cons.IH [of "tried @ [c]"] by simp
qed

lemma findBestPlacement_best:
  "best_of (nw_normalizedWord w) grid (crossings (nw_normalizedWord w) ps) (findBestPlacement w grid ps)"
  using fold_better_best [of "nw_normalizedWord w" grid "[]" None] by (simp add: best_of_def findBestPlacement_def)

lemma findBestPlacement_can:
  "findBestPlacement w grid ps = Some b \<Longrightarrow> canPlaceWord (nw_normalizedWord w) (pc_x b) (pc_y b) (pc_isVertical b) grid"
  using findBestPlacement_best [of w grid ps] by (simp add: best_of_def feasible_def)

section \<open>The greedy layout\<close>

definition word_entry :: "placed_word \<Rightarrow> string \<times> string" where
  "word_entry p = (pl_word p, pl_clue p)"

lemma placeWord_entries:
  "placeWord w x y v (g, ps) = (g', ps') \<Longrightarrow> map word_entry ps' = map word_entry ps @ [(nw_normalizedWord w, nw_clue w)]"
  by (auto simp: placeWord_eq word_entry_def)

lemma greedy_step_ok:
  assumes "layout_ok g ps" "greedy_step w (g, ps) = (g', ps')"
  shows "layout_ok g' ps' \<and> mset (map word_entry ps') \<subseteq># add_mset (nw_normalizedWord w, nw_clue w) (mset (map word_entry ps))"
proof (cases "findBestPlacement w g ps")
  case None
  then show ?thesis using assms by (simp add: greedy_step_def)
next
  case (Some b)
  then have r: "placeWord w (pc_x b) (pc_y b) (pc_isVertical b) (g, ps) = (g', ps')"
    using assms(2) by (simp add: greedy_step_def)
  note can = findBestPlacement_can [OF Some]
  have "layout_ok g' ps'"
    using placeWord_ok [OF assms(1) canPlaceWord_across [OF can] _ r] canPlaceWordD(2) [OF can] by blast
  then show ?thesis using placeWord_entries [OF r] by simp
qed

lemma greedy_fold_ok:
  "layout_ok g ps \<Longrightarrow> fold greedy_step ws (g, ps) = (g', ps') \<Longrightarrow>
   layout_ok g' ps' \<and> (\<exists>more. ps' = ps @ more)
   \<and> mset (map word_entry ps') \<subseteq># mset (map word_entry ps) + mset (map (\<lambda>w. (nw_normalizedWord w, nw_clue w)) ws)"
proof (induction ws arbitrary: g ps)
  case Nil
  then show ?case by simp
next
  case (Cons w ws)
  obtain g1 ps1 where s: "greedy_step w (g, ps) = (g1, ps1)" by force
  have 1: "layout_ok g1 ps1"
      "mset (map word_entry ps1) \<subseteq># add_mset (nw_normalizedWord w, nw_clue w) (mset (map word_entry ps))"
    using greedy_step_ok [OF Cons.prems(1) s] by auto
  have 2: "\<exists>more. ps1 = ps @ more"
    using s by (auto simp: greedy_step_def placeWord_eq split: option.splits)
  have 3: "layout_ok g' ps'" "\<exists>more. ps' = ps1 @ more"
      "mset (map word_entry ps') \<subseteq># mset (map word_entry ps1) + mset (map (\<lambda>w. (nw_normalizedWord w, nw_clue w)) ws)"
    using Cons.IH [OF 1(1)] Cons.prems(2) s by auto
  have "mset (map word_entry ps1) + mset (map (\<lambda>w. (nw_normalizedWord w, nw_clue w)) ws)
      \<subseteq># mset (map word_entry ps) + mset (map (\<lambda>w. (nw_normalizedWord w, nw_clue w)) (w # ws))"
    using subset_mset.add_right_mono [OF 1(2)] by simp
  from subset_mset.order_trans [OF 3(3) this] have 4: "mset (map word_entry ps')
      \<subseteq># mset (map word_entry ps) + mset (map (\<lambda>w. (nw_normalizedWord w, nw_clue w)) (w # ws))" .
  have "\<exists>more. ps' = ps @ more" using 2 3(2) by auto
  then show ?case using 3(1) 4 by blast
qed


section \<open>Moving the layout to the origin\<close>

definition shift_cell :: "int \<Rightarrow> int \<Rightarrow> int \<times> int \<Rightarrow> int \<times> int" where
  "shift_cell a b = (\<lambda>(x, y). (x - a, y - b))"

definition shift_grid :: "int \<Rightarrow> int \<Rightarrow> cw_grid \<Rightarrow> cw_grid" where
  "shift_grid a b g = map (\<lambda>(k, c). (shift_cell a b k, c)) g"

definition shift_word :: "int \<Rightarrow> int \<Rightarrow> placed_word \<Rightarrow> placed_word" where
  "shift_word a b w = w\<lparr>pl_x := pl_x w - a, pl_y := pl_y w - b\<rparr>"

lemma shift_cell_inj [simp]: "shift_cell a b k = shift_cell a b k' \<longleftrightarrow> k = k'"
  by (cases k; cases k') (simp add: shift_cell_def)

lemma shift_cell_of [simp]: "cell_of v (x - a) (y - b) i = shift_cell a b (cell_of v x y i)"
  by (simp add: cell_of_def shift_cell_def)

lemma next_shift [simp]: "next_cell v (shift_cell a b k) = shift_cell a b (next_cell v k)"
  by (cases k) (simp add: next_cell_def shift_cell_def cell_of_def)

lemma shift_word_simps [simp]:
  "pl_word (shift_word a b w) = pl_word w" "pl_clue (shift_word a b w) = pl_clue w"
  "pl_x (shift_word a b w) = pl_x w - a" "pl_y (shift_word a b w) = pl_y w - b"
  "pl_isVertical (shift_word a b w) = pl_isVertical w" "word_entry (shift_word a b w) = word_entry w"
  by (simp_all add: shift_word_def word_entry_def)

lemma update_new: "k \<notin> fst ` set al \<Longrightarrow> AList.update k v al = al @ [(k, v)]"
  by (induction al) auto

lemma fold_shift:
  "distinct (map fst h @ map (shift_cell a b \<circ> fst) g) \<Longrightarrow>
   fold (\<lambda>((x, y), ch). AList.update (x - a, y - b) ch) g h = h @ shift_grid a b g"
proof (induction g arbitrary: h)
  case Nil
  then show ?case by (simp add: shift_grid_def)
next
  case (Cons e g)
  obtain x y ch where e: "e = ((x, y), ch)" by (metis surj_pair)
  have se: "(x - a, y - b) = shift_cell a b (x, y)" by (simp add: shift_cell_def)
  have "(x - a, y - b) \<notin> fst ` set h" using Cons.prems unfolding e se by auto
  then have u: "AList.update (x - a, y - b) ch h = h @ [((x - a, y - b), ch)]" by (rule update_new)
  have "distinct (map fst (h @ [((x - a, y - b), ch)]) @ map (shift_cell a b \<circ> fst) g)"
    using Cons.prems unfolding e se by (auto simp: comp_def)
  from Cons.IH [OF this] show ?case by (simp add: e u shift_grid_def shift_cell_def)
qed

lemma distinct_shift: "distinct (map fst g) \<Longrightarrow> distinct (map (shift_cell a b \<circ> fst) g)"
  using distinct_map [of "shift_cell a b" "map fst g"] by (simp add: inj_on_def)

lemma map_of_shift: "map_of (shift_grid a b g) (shift_cell a b k) = map_of g k"
  by (induction g) (auto simp: shift_grid_def)

lemma dom_shift: "dom (map_of (shift_grid a b g)) = shift_cell a b ` dom (map_of g)"
  by (simp add: dom_map_of_conv_image_fst shift_grid_def image_image case_prod_beta)

lemma word_cells_shift: "word_cells (shift_word a b p) = shift_cell a b ` word_cells p"
  by (simp add: word_cells_def image_image)

lemma shift_mem [simp]: "shift_cell a b k \<in> shift_cell a b ` D \<longleftrightarrow> k \<in> D"
  by (auto simp: image_iff)

lemma layout_ok_shift:
  assumes "layout_ok g ps"
  shows "layout_ok (shift_grid a b g) (map (shift_word a b) ps)"
  unfolding layout_ok_def
proof (intro conjI)
  show "distinct (map fst (shift_grid a b g))"
    using assms distinct_shift [of g a b] by (simp add: layout_ok_def shift_grid_def comp_def case_prod_beta)
  show "\<forall>p \<in> set (map (shift_word a b) ps). spelled (shift_grid a b g) p"
    using assms by (simp add: layout_ok_def spelled_def map_of_shift)
  show d: "dom (map_of (shift_grid a b g)) = (\<Union>p \<in> set (map (shift_word a b) ps). word_cells p)"
    using assms by (simp add: layout_ok_def dom_shift word_cells_shift image_UN)
  show "no_accidents (dom (map_of (shift_grid a b g))) (map (shift_word a b) ps)"
    unfolding no_accidents_def dom_shift
  proof (intro allI impI)
    fix v c
    assume c: "c \<in> shift_cell a b ` dom (map_of g)" "next_cell v c \<in> shift_cell a b ` dom (map_of g)"
    then obtain k where k: "c = shift_cell a b k" "k \<in> dom (map_of g)" by blast
    then have "next_cell v k \<in> dom (map_of g)" using c(2) by simp
    then obtain p where "p \<in> set ps" "pl_isVertical p = v" "k \<in> word_cells p" "next_cell v k \<in> word_cells p"
        "ends_free (dom (map_of g)) p"
      using assms k(2) unfolding layout_ok_def no_accidents_def by blast
    then show "\<exists>p \<in> set (map (shift_word a b) ps). pl_isVertical p = v \<and> c \<in> word_cells p
        \<and> next_cell v c \<in> word_cells p \<and> ends_free (shift_cell a b ` dom (map_of g)) p"
      using k(1) by (intro bexI [of _ "shift_word a b p"]) (simp_all add: word_cells_shift ends_free_def)
  qed
  show "linked (map (shift_word a b) ps)"
    unfolding linked_def
  proof (intro allI impI)
    fix k
    assume k: "0 < k" "k < length (map (shift_word a b) ps)"
    then obtain j where "j < k" "word_cells (ps ! k) \<inter> word_cells (ps ! j) \<noteq> {}"
      using assms unfolding layout_ok_def linked_def by (metis length_map)
    then show "\<exists>j < k. word_cells (map (shift_word a b) ps ! k) \<inter> word_cells (map (shift_word a b) ps ! j) \<noteq> {}"
      using k by (intro exI [of _ j]) (auto simp: word_cells_shift)
  qed
qed


text \<open>All cells lie in the rectangle from the origin to \<open>(maxX, maxY)\<close>, whose four sides are touched.\<close>

definition in_frame :: "cw_layout \<Rightarrow> bool" where
  "in_frame ly \<longleftrightarrow>
     (ly_grid ly \<noteq> [] \<longrightarrow>
        Min (fst ` dom (map_of (ly_grid ly))) = 0 \<and> Min (snd ` dom (map_of (ly_grid ly))) = 0
        \<and> Max (fst ` dom (map_of (ly_grid ly))) = ly_maxX ly \<and> Max (snd ` dom (map_of (ly_grid ly))) = ly_maxY ly)"

lemma Min_shift:
  fixes A :: "int set"
  shows "finite A \<Longrightarrow> A \<noteq> {} \<Longrightarrow> Min ((\<lambda>x. x - a) ` A) = Min A - a"
  by (rule Min_eqI) (auto simp: image_iff)

lemma normalizeLayout_eq:
  assumes "distinct (map fst g)" "g \<noteq> []"
  shows "normalizeLayout g ps =
     (let a = Min (fst ` dom (map_of g)); b = Min (snd ` dom (map_of g))
      in \<lparr>ly_grid = shift_grid a b g, ly_placedWords = map (shift_word a b) ps, ly_unplacedWords = [],
          ly_maxX = Max (fst ` dom (map_of (shift_grid a b g))), ly_maxY = Max (snd ` dom (map_of (shift_grid a b g)))\<rparr>)"
proof -
  have f: "fold (\<lambda>((x, y), ch). AList.update (x - a, y - b) ch) g [] = shift_grid a b g" for a b
    using fold_shift [of "[]" a b g] distinct_shift [OF assms(1)] by simp
  show ?thesis
    using assms(2) by (simp add: normalizeLayout_def f Let_def dom_map_of_conv_image_fst image_image shift_word_def)
qed

lemma normalizeLayout_ok:
  assumes "layout_ok g ps"
  shows "layout_ok (ly_grid (normalizeLayout g ps)) (ly_placedWords (normalizeLayout g ps))
     \<and> in_frame (normalizeLayout g ps) \<and> map word_entry (ly_placedWords (normalizeLayout g ps)) = map word_entry ps"
proof (cases "g = []")
  case True
  then show ?thesis using assms by (simp add: normalizeLayout_def in_frame_def)
next
  case False
  define a b where "a = Min (fst ` dom (map_of g))" and "b = Min (snd ` dom (map_of g))"
  have n: "normalizeLayout g ps = \<lparr>ly_grid = shift_grid a b g, ly_placedWords = map (shift_word a b) ps,
      ly_unplacedWords = [], ly_maxX = Max (fst ` dom (map_of (shift_grid a b g))),
      ly_maxY = Max (snd ` dom (map_of (shift_grid a b g)))\<rparr>"
    using normalizeLayout_eq [of g ps] assms False by (simp add: Let_def a_def b_def layout_ok_def)
  have fin: "finite (dom (map_of g))" "dom (map_of g) \<noteq> {}"
    using False by (simp_all add: finite_dom_map_of dom_map_of_conv_image_fst)
  have "fst ` dom (map_of (shift_grid a b g)) = (\<lambda>x. x - a) ` fst ` dom (map_of g)"
    "snd ` dom (map_of (shift_grid a b g)) = (\<lambda>x. x - b) ` snd ` dom (map_of g)"
    unfolding dom_shift image_image by (auto simp: shift_cell_def case_prod_beta)
  then have "Min (fst ` dom (map_of (shift_grid a b g))) = 0" "Min (snd ` dom (map_of (shift_grid a b g))) = 0"
    using fin Min_shift [of "fst ` dom (map_of g)" a] Min_shift [of "snd ` dom (map_of g)" b]
    by (simp_all add: a_def b_def)
  then show ?thesis using layout_ok_shift [OF assms, of a b] by (simp add: n in_frame_def comp_def)
qed

section \<open>The whole algorithm\<close>

text \<open>What a layout of a word list must satisfy.\<close>

definition missing :: "crossword_word list \<Rightarrow> placed_word list \<Rightarrow> crossword_word list" where
  "missing words ps = filter (\<lambda>w. normalizeCrosswordAnswer (cw_word w) \<notin> pl_word ` set ps) words"

definition layout_of :: "crossword_word list \<Rightarrow> cw_layout \<Rightarrow> bool" where
  "layout_of words ly \<longleftrightarrow>
     layout_ok (ly_grid ly) (ly_placedWords ly) \<and> in_frame ly
     \<and> mset (map word_entry (ly_placedWords ly))
         \<subseteq># mset (map (\<lambda>w. (nw_normalizedWord w, nw_clue w)) (normalize_words words))
     \<and> ly_unplacedWords ly = missing words (ly_placedWords ly)"

lemma missing_eq:
  "filter (\<lambda>w. \<not> list_ex (\<lambda>placed. pl_word placed = normalizeCrosswordAnswer (cw_word w)) ps) words = missing words ps"
proof -
  have "list_ex (\<lambda>placed. pl_word placed = a) ps \<longleftrightarrow> a \<in> pl_word ` set ps" for a
    by (induction ps) auto
  then show ?thesis by (simp add: missing_def)
qed

lemma emptyLayout_of: "layout_of words (emptyLayout words)"
  using layout_ok_empty by (simp add: layout_of_def emptyLayout_def in_frame_def missing_def)

lemma buildGreedyLayout_of:
  assumes "mset ws = mset (normalize_words words)" "ws \<noteq> []"
  shows "layout_of words (buildGreedyLayout ws words) \<and> ly_placedWords (buildGreedyLayout ws words) \<noteq> []"
proof -
  obtain w rest where ws: "ws = w # rest" using assms(2) by (cases ws) auto
  obtain g1 ps1 where p: "placeWord w 0 0 False ([], []) = (g1, ps1)" by force
  obtain g ps where r: "fold greedy_step rest (g1, ps1) = (g, ps)" by force
  have 1: "layout_ok g1 ps1" by (rule placeWord_ok [OF layout_ok_empty placed_across_empty _ p]) simp
  have e1: "map word_entry ps1 = [(nw_normalizedWord w, nw_clue w)]" using placeWord_entries [OF p] by simp
  have 2: "layout_ok g ps" "\<exists>more. ps = ps1 @ more"
      "mset (map word_entry ps) \<subseteq># mset (map word_entry ps1) + mset (map (\<lambda>w. (nw_normalizedWord w, nw_clue w)) rest)"
    using greedy_fold_ok [OF 1 r] by auto
  have "mset (map word_entry ps1) + mset (map (\<lambda>w. (nw_normalizedWord w, nw_clue w)) rest)
      = mset (map (\<lambda>w. (nw_normalizedWord w, nw_clue w)) ws)"
    unfolding e1 ws by simp
  also have "\<dots> = mset (map (\<lambda>w. (nw_normalizedWord w, nw_clue w)) (normalize_words words))"
    using assms(1) by simp
  finally have e: "mset (map word_entry ps)
      \<subseteq># mset (map (\<lambda>w. (nw_normalizedWord w, nw_clue w)) (normalize_words words))"
    using 2(3) by simp
  note n = normalizeLayout_ok [OF 2(1)]
  have b: "buildGreedyLayout ws words = (normalizeLayout g ps)\<lparr>ly_unplacedWords :=
      missing words (ly_placedWords (normalizeLayout g ps))\<rparr>"
    by (simp add: buildGreedyLayout_def ws p r Let_def missing_eq)
  have "ps \<noteq> []" using 2(2) e1 by auto
  then have "ly_placedWords (normalizeLayout g ps) \<noteq> []" using n by auto
  then show ?thesis using n e by (simp add: b layout_of_def in_frame_def)
qed

lemma rotated_mset: "i < length xs \<Longrightarrow> mset (xs ! i # take i xs @ drop (i + 1) xs) = mset xs"
  using id_take_nth_drop [of i xs] by (metis Suc_eq_plus1 add_mset_commute mset.simps(2) mset_append union_mset_add_mset_right)

lemma layout_loop_of:
  "mset srt = mset (normalize_words words) \<Longrightarrow> srt \<noteq> [] \<Longrightarrow> set is \<subseteq> {..<length srt} \<Longrightarrow> layout_of words best \<Longrightarrow>
   layout_of words (layout_loop srt words is best)"
proof (induction "is" arbitrary: best)
  case Nil
  then show ?case by simp
next
  case (Cons i is')
  have "layout_of words (buildGreedyLayout (srt ! i # take i srt @ drop (i + 1) srt) words)"
    using buildGreedyLayout_of [of "srt ! i # take i srt @ drop (i + 1) srt" words] rotated_mset [of i srt] Cons.prems
    by simp
  then show ?case using Cons by (simp add: Let_def)
qed

lemma buildCrosswordLayout_of: "layout_of words (buildCrosswordLayout words)"
proof (cases "normalize_words words = []")
  case True
  then show ?thesis using emptyLayout_of by (simp add: buildCrosswordLayout_def)
next
  case False
  have "mset (sort_key (\<lambda>w. - int (length (nw_normalizedWord w))) (normalize_words words)) = mset (normalize_words words)"
    by simp
  moreover have "sort_key (\<lambda>w. - int (length (nw_normalizedWord w))) (normalize_words words) \<noteq> []"
    using False by (metis length_0_conv length_sort)
  ultimately have "layout_of words (layout_loop (sort_key (\<lambda>w. - int (length (nw_normalizedWord w))) (normalize_words words))
      words [0..<length (sort_key (\<lambda>w. - int (length (nw_normalizedWord w))) (normalize_words words))] (emptyLayout words))"
    by (intro layout_loop_of emptyLayout_of) auto
  then show ?thesis using False by (simp add: buildCrosswordLayout_def Let_def)
qed


lemma normalized_entries:
  "mset (map (\<lambda>w. (nw_normalizedWord w, nw_clue w)) (normalize_words words))
     \<subseteq># mset (map (\<lambda>w. (normalizeCrosswordAnswer (cw_word w), cw_clue w)) words)"
proof (induction words)
  case Nil
  then show ?case by (simp add: normalize_words_def)
next
  case (Cons w words)
  have "mset (map (\<lambda>w. (nw_normalizedWord w, nw_clue w)) (normalize_words (w # words)))
      \<subseteq># add_mset (normalizeCrosswordAnswer (cw_word w), cw_clue w)
            (mset (map (\<lambda>w. (nw_normalizedWord w, nw_clue w)) (normalize_words words)))"
    by (simp add: normalize_words_def)
  also have "\<dots> \<subseteq># mset (map (\<lambda>w. (normalizeCrosswordAnswer (cw_word w), cw_clue w)) (w # words))"
    using Cons.IH by simp
  finally show ?case .
qed

lemma same_size_mset: "A \<subseteq># B \<Longrightarrow> size A = size B \<Longrightarrow> A = B"
  using mset_subset_size [of A B] by (cases "A = B") (auto simp: subset_mset.less_le)

section \<open>Properties\<close>

text \<open>C3: Every crossword the generator builds is one. For any word list, each placed word is spelled in
  its cells, every letter belongs to a placed word, any two neighbouring letters belong to one placed
  word whose ends are free (no accidental words), each word after the first crosses an earlier one,
  the grid sits in the frame from the origin to (maxX, maxY), the placed words are distinct entries of
  the input with a clue and at least two letters, and the unplaced list is exactly the input words
  whose answer is not in the grid.\<close>

theorem crossword_layout_correct:
  "let ly = buildCrosswordLayout words in
     distinct (map fst (ly_grid ly))
     \<and> list_all (spelled (ly_grid ly)) (ly_placedWords ly)
     \<and> dom (map_of (ly_grid ly)) = (\<Union>p \<in> set (ly_placedWords ly). word_cells p)
     \<and> no_accidents (dom (map_of (ly_grid ly))) (ly_placedWords ly)
     \<and> linked (ly_placedWords ly) \<and> in_frame ly
     \<and> mset (map word_entry (ly_placedWords ly))
         \<subseteq># mset (map (\<lambda>w. (nw_normalizedWord w, nw_clue w)) (normalize_words words))
     \<and> ly_unplacedWords ly = missing words (ly_placedWords ly)"
  using buildCrosswordLayout_of [of words]
  by (auto simp: layout_of_def layout_ok_def Let_def list_all_iff)

text \<open>When the maker's check says that a crossword can be built, it really places everything: the
  placed words with their clues are, as a multiset, exactly the normalised input, and nothing is
  reported as unplaced.\<close>

theorem crossword_build_complete:
  assumes "canBuildConnectedCrossword words"
  shows "mset (map word_entry (ly_placedWords (buildCrosswordLayout words)))
      = mset (map (\<lambda>w. (normalizeCrosswordAnswer (cw_word w), cw_clue w)) words)
    \<and> ly_unplacedWords (buildCrosswordLayout words) = []"
proof -
  let ?ly = "buildCrosswordLayout words"
  let ?all = "map (\<lambda>w. (normalizeCrosswordAnswer (cw_word w), cw_clue w)) words"
  have n: "length (ly_placedWords ?ly) = length words" "ly_unplacedWords ?ly = []"
    using assms by (simp_all add: canBuildConnectedCrossword_def Let_def)
  note normalized_entries [of words]
  then have "mset (map word_entry (ly_placedWords ?ly)) \<subseteq># mset ?all"
    using buildCrosswordLayout_of [of words] subset_mset.order_trans unfolding layout_of_def by blast
  moreover have "size (mset (map word_entry (ly_placedWords ?ly))) = size (mset ?all)" using n by simp
  ultimately have "mset (map word_entry (ly_placedWords ?ly)) = mset ?all"
    by (rule same_size_mset)
  then show ?thesis using n(2) by blast
qed

definition sample_words :: "crossword_word list" where
  "sample_words = [\<lparr>cw_word = ''sol'', cw_clue = ''a''\<rparr>, \<lparr>cw_word = ''Luna'', cw_clue = ''b''\<rparr>]"

theorem crossword_build_complete_witness:
  "canBuildConnectedCrossword sample_words \<and> ly_unplacedWords (buildCrosswordLayout sample_words) = []"
proof -
  have c: "canBuildConnectedCrossword sample_words" by code_simp
  then show ?thesis using crossword_build_complete [OF c] by blast
qed

text \<open>The search for a place is exhaustive and optimal: it finds no place exactly when no crossing
  with a placed word passes the test, and otherwise returns one that passes it and has the least
  distance \<open>|x| + |y|\<close> among all crossings that do.\<close>

theorem findBestPlacement_optimal:
  "case findBestPlacement w grid ps of
     None \<Rightarrow> list_all (\<lambda>(x, y, v). \<not> canPlaceWord (nw_normalizedWord w) x y v grid)
               (crossings (nw_normalizedWord w) ps)
   | Some b \<Rightarrow> (pc_x b, pc_y b, pc_isVertical b) \<in> set (crossings (nw_normalizedWord w) ps)
       \<and> canPlaceWord (nw_normalizedWord w) (pc_x b) (pc_y b) (pc_isVertical b) grid
       \<and> list_all (\<lambda>(x, y, v). canPlaceWord (nw_normalizedWord w) x y v grid \<longrightarrow>
               \<bar>pc_x b\<bar> + \<bar>pc_y b\<bar> \<le> \<bar>x\<bar> + \<bar>y\<bar>) (crossings (nw_normalizedWord w) ps)"
  using findBestPlacement_best [of w grid ps]
  by (auto simp: best_of_def feasible_def candidate_score_def list_all_iff split: option.splits)

theorem findBestPlacement_optimal_witness:
  "list_all (\<lambda>(x, y, v). \<not> canPlaceWord ''AB'' x y v []) (crossings ''AB'' [])"
  using findBestPlacement_optimal [of "\<lparr>nw_word = ''ab'', nw_clue = [], nw_normalizedWord = ''AB''\<rparr>" "[]" "[]"]
  by (simp add: findBestPlacement_def crossings_def)

end
