(* ===== verification/Crossword.thy ===== *)
theory Crossword
  imports CrosswordLayout Observable "HOL-Library.Product_Lexorder"
begin

text \<open>
  Solving a crossword: the class \<open>CrosswordEngine\<close> of \<open>packages/engine/src/games/CrosswordEngine.ts\<close>,
  the keyboard handler of \<open>src/features/games/CrosswordScene.ts\<close>, and the numbering of the clues, which
  \<open>src/features/games/CrosswordGame.tsx\<close> and the scene each compute for themselves.
\<close>

section \<open>State\<close>

datatype cw_orientation = Horizontal | Vertical

record crossword_state =
  cs_score :: nat
  cs_isFinished :: bool
  cs_userGrid :: "((int \<times> int) \<times> string) list"
  cs_selectedCell :: "(int \<times> int) option"
  cs_orientation :: cw_orientation
  cs_lockedCells :: "(int \<times> int) list"

record crossword_engine =
  ce_layout :: cw_layout
  ce_initialWords :: "crossword_word list"
  ce_state :: crossword_state
  ce_subject :: "crossword_state subject"

section \<open>Operations\<close>

definition fresh_crossword :: crossword_state where
  "fresh_crossword = \<lparr>cs_score = 0, cs_isFinished = False, cs_userGrid = [], cs_selectedCell = None,
     cs_orientation = Horizontal, cs_lockedCells = []\<rparr>"

definition crossword_new :: "crossword_word list \<Rightarrow> crossword_engine" where
  "crossword_new words = \<lparr>ce_layout = buildCrosswordLayout words, ce_initialWords = words,
     ce_state = fresh_crossword, ce_subject = new_subject\<rparr>"

definition isBuildComplete :: "crossword_engine \<Rightarrow> bool" where
  "isBuildComplete e \<longleftrightarrow> length (ly_unplacedWords (ce_layout e)) = 0
     \<and> length (ly_placedWords (ce_layout e)) = length (ce_initialWords e)"

definition crossword_subscribe :: "nat \<Rightarrow> crossword_engine \<Rightarrow> crossword_engine" where
  "crossword_subscribe l e = e\<lparr>ce_subject := subject_add l (ce_state e) (ce_subject e)\<rparr>"

definition crossword_notify :: "crossword_engine \<Rightarrow> crossword_engine" where
  "crossword_notify e = e\<lparr>ce_subject := subject_notify (ce_state e) (ce_subject e)\<rparr>"

definition expectedChar :: "char \<Rightarrow> string" where
  "expectedChar c = strip_accents (to_upper [c])"

text \<open>The loop of \<open>validate\<close>: all correct so far, the count, and the cells to lock.\<close>

fun validate_loop ::
  "((int \<times> int) \<times> string) list \<Rightarrow> cw_grid \<Rightarrow> bool \<times> nat \<times> (int \<times> int) list \<Rightarrow> bool \<times> nat \<times> (int \<times> int) list" where
  "validate_loop userGrid [] acc = acc"
| "validate_loop userGrid ((key, c) # cells) (allCorrect, correctCount, lockedCells) =
     validate_loop userGrid cells
       (if map_of userGrid key = Some (expectedChar c)
        then (allCorrect, correctCount + 1, lockedCells @ [key])
        else (False, correctCount, lockedCells))"

definition crossword_validate :: "cw_grid \<Rightarrow> crossword_state \<Rightarrow> crossword_state" where
  "crossword_validate grid st =
     (let (allCorrect, correctCount, lockedCells) = validate_loop (cs_userGrid st) grid (True, 0, []);
          st = st\<lparr>cs_score := correctCount * 10, cs_lockedCells := lockedCells\<rparr>
      in if allCorrect \<and> length grid > 0 then st\<lparr>cs_isFinished := True\<rparr> else st)"

definition inputChar :: "string \<Rightarrow> crossword_engine \<Rightarrow> crossword_engine" where
  "inputChar ch e =
     (let st = ce_state e; grid = ly_grid (ce_layout e)
      in case (cs_isFinished st, cs_selectedCell st) of
           (False, Some (x, y)) \<Rightarrow>
             let key = (x, y)
             in if \<not> has_cell grid key then e
                else if key \<in> set (cs_lockedCells st) then e
                else let cleanChar = take 1 (normalizeCrosswordAnswer ch)
                     in if cleanChar = []
                        then crossword_notify (e\<lparr>ce_state := crossword_validate grid
                               (st\<lparr>cs_userGrid := AList.delete key (cs_userGrid st)\<rparr>)\<rparr>)
                        else let st = st\<lparr>cs_userGrid := AList.update key cleanChar (cs_userGrid st)\<rparr>;
                                 nextX = x + (if cs_orientation st = Horizontal then 1 else 0);
                                 nextY = y + (if cs_orientation st = Vertical then 1 else 0);
                                 st = (if has_cell grid (nextX, nextY)
                                       then st\<lparr>cs_selectedCell := Some (nextX, nextY)\<rparr> else st)
                             in crossword_notify (e\<lparr>ce_state := crossword_validate grid st\<rparr>)
         | _ \<Rightarrow> e)"

definition selectCell :: "int \<Rightarrow> int \<Rightarrow> crossword_engine \<Rightarrow> crossword_engine" where
  "selectCell x y e =
     (let st = ce_state e; grid = ly_grid (ce_layout e)
      in if \<not> has_cell grid (x, y) then e
         else let st = (if cs_selectedCell st = Some (x, y)
                        then st\<lparr>cs_orientation := (if cs_orientation st = Horizontal then Vertical else Horizontal)\<rparr>
                        else let st = st\<lparr>cs_selectedCell := Some (x, y)\<rparr>;
                                 horizHas = has_cell grid (x + 1, y) \<or> has_cell grid (x - 1, y);
                                 vertHas = has_cell grid (x, y + 1) \<or> has_cell grid (x, y - 1);
                                 st = (if horizHas \<and> \<not> vertHas then st\<lparr>cs_orientation := Horizontal\<rparr> else st)
                             in if vertHas \<and> \<not> horizHas then st\<lparr>cs_orientation := Vertical\<rparr> else st)
              in crossword_notify (e\<lparr>ce_state := st\<rparr>))"

definition navigate :: "int \<Rightarrow> int \<Rightarrow> crossword_engine \<Rightarrow> crossword_engine" where
  "navigate dx dy e =
     (case cs_selectedCell (ce_state e) of
        None \<Rightarrow> e
      | Some (x, y) \<Rightarrow>
          if has_cell (ly_grid (ce_layout e)) (x + dx, y + dy)
          then crossword_notify (e\<lparr>ce_state := (ce_state e)\<lparr>cs_selectedCell := Some (x + dx, y + dy)\<rparr>\<rparr>)
          else e)"

definition crossword_reset :: "crossword_engine \<Rightarrow> crossword_engine" where
  "crossword_reset e =
     crossword_notify (e\<lparr>ce_state := (ce_state e)\<lparr>cs_userGrid := [], cs_score := 0, cs_isFinished := False,
       cs_selectedCell := None, cs_orientation := Horizontal, cs_lockedCells := []\<rparr>\<rparr>)"

definition crossword_destroy :: "crossword_engine \<Rightarrow> crossword_engine" where
  "crossword_destroy e = e\<lparr>ce_subject := subject_clear (ce_subject e)\<rparr>"

text \<open>\<open>handleKeyDown\<close>: arrows, letters and white space, backspace; other keys do nothing.\<close>

definition key_letter :: "char \<Rightarrow> bool" where
  "key_letter c \<longleftrightarrow> is_upper c \<or> is_lower c \<or> code c = 241 \<or> code c = 209 \<or> is_space c"

definition handleKeyDown :: "string \<Rightarrow> crossword_engine \<Rightarrow> crossword_engine" where
  "handleKeyDown key e =
     (if key = ''ArrowRight'' then navigate 1 0 e
      else if key = ''ArrowLeft'' then navigate (-1) 0 e
      else if key = ''ArrowDown'' then navigate 0 1 e
      else if key = ''ArrowUp'' then navigate 0 (-1) e
      else if length key = 1 \<and> list_ex key_letter key then inputChar key e
      else if key = ''Backspace''
      then let e = inputChar [] e
           in if cs_orientation (ce_state e) = Horizontal then navigate (-1) 0 e else navigate 0 (-1) e
      else e)"

datatype cw_event = CwInput string | CwSelect int int | CwNavigate int int | CwKey string | CwReset
  | CwSubscribe nat | CwDestroy

fun crossword_step :: "cw_event \<Rightarrow> crossword_engine \<Rightarrow> crossword_engine" where
  "crossword_step (CwInput s) e = inputChar s e"
| "crossword_step (CwSelect x y) e = selectCell x y e"
| "crossword_step (CwNavigate dx dy) e = navigate dx dy e"
| "crossword_step (CwKey k) e = handleKeyDown k e"
| "crossword_step CwReset e = crossword_reset e"
| "crossword_step (CwSubscribe l) e = crossword_subscribe l e"
| "crossword_step CwDestroy e = crossword_destroy e"

section \<open>Numbering the clues\<close>

definition by_position :: "placed_word list \<Rightarrow> placed_word list" where
  "by_position ps = sort_key (\<lambda>p. (pl_y p, pl_x p)) ps"

text \<open>The component: the start map and the counter are threaded through the \<open>map\<close>.\<close>

fun number_words :: "placed_word list \<Rightarrow> ((int \<times> int) \<times> nat) list \<Rightarrow> nat \<Rightarrow> (placed_word \<times> nat) list" where
  "number_words [] startMap currentNumber = []"
| "number_words (pw # pws) startMap currentNumber =
     (case map_of startMap (pl_x pw, pl_y pw) of
        Some num \<Rightarrow> (pw, num) # number_words pws startMap currentNumber
      | None \<Rightarrow> (pw, currentNumber)
          # number_words pws (AList.update (pl_x pw, pl_y pw) currentNumber startMap) (currentNumber + 1))"

text \<open>The scene: labels of the starting cells.\<close>

fun start_labels :: "placed_word list \<Rightarrow> ((int \<times> int) \<times> nat) list \<Rightarrow> nat \<Rightarrow> ((int \<times> int) \<times> nat) list" where
  "start_labels [] labels currentNum = labels"
| "start_labels (pw # pws) labels currentNum =
     (if map_of labels (pl_x pw, pl_y pw) = None
      then start_labels pws (AList.update (pl_x pw, pl_y pw) currentNum labels) (currentNum + 1)
      else start_labels pws labels currentNum)"

definition numberedWords :: "placed_word list \<Rightarrow> (placed_word \<times> nat) list" where
  "numberedWords ps = number_words (by_position ps) [] 1"

definition wordStartLabels :: "placed_word list \<Rightarrow> ((int \<times> int) \<times> nat) list" where
  "wordStartLabels ps = start_labels (by_position ps) [] 1"

definition isWordSolved :: "crossword_state \<Rightarrow> placed_word \<Rightarrow> bool" where
  "isWordSolved st pw =
     list_all (\<lambda>i. cell_of (pl_isVertical pw) (pl_x pw) (pl_y pw) (int i) \<in> set (cs_lockedCells st))
       [0..<length (pl_word pw)]"


section \<open>Invariant\<close>

definition cell_right :: "((int \<times> int) \<times> string) list \<Rightarrow> (int \<times> int) \<times> char \<Rightarrow> bool" where
  "cell_right userGrid = (\<lambda>(key, c). map_of userGrid key = Some (expectedChar c))"

definition right_cells :: "((int \<times> int) \<times> string) list \<Rightarrow> cw_grid \<Rightarrow> (int \<times> int) list" where
  "right_cells userGrid grid = map fst (filter (cell_right userGrid) grid)"

lemma validate_loop_eq:
  "validate_loop u grid (a, n, l) =
     (a \<and> list_all (cell_right u) grid, n + length (right_cells u grid), l @ right_cells u grid)"
  by (induction u grid "(a, n, l)" arbitrary: a n l rule: validate_loop.induct)
    (auto simp: right_cells_def cell_right_def)

text \<open>
  The score is ten per right letter, exactly the cells with the right letter are locked, and the game is
  finished exactly when all of them are.
\<close>

definition cs_inv :: "cw_grid \<Rightarrow> crossword_state \<Rightarrow> bool" where
  "cs_inv grid st \<longleftrightarrow>
     cs_lockedCells st = right_cells (cs_userGrid st) grid
     \<and> cs_score st = 10 * length (cs_lockedCells st)
     \<and> (cs_isFinished st \<longleftrightarrow> grid \<noteq> [] \<and> list_all (cell_right (cs_userGrid st)) grid)
     \<and> (case cs_selectedCell st of None \<Rightarrow> True | Some k \<Rightarrow> has_cell grid k)"

lemma validate_inv:
  "\<not> cs_isFinished st \<Longrightarrow> (case cs_selectedCell st of None \<Rightarrow> True | Some k \<Rightarrow> has_cell grid k) \<Longrightarrow>
   cs_inv grid (crossword_validate grid st)"
  by (auto simp: crossword_validate_def validate_loop_eq cs_inv_def Let_def split: option.splits)

lemma fresh_inv: "cs_inv grid fresh_crossword"
proof -
  have "right_cells [] grid = []" by (induction grid) (auto simp: right_cells_def cell_right_def)
  moreover have "grid \<noteq> [] \<Longrightarrow> \<not> list_all (cell_right []) grid"
    by (cases grid) (auto simp: cell_right_def)
  ultimately show ?thesis by (auto simp: cs_inv_def fresh_crossword_def)
qed

lemma crossword_notify_simps [simp]:
  "ce_state (crossword_notify e) = ce_state e" "ce_layout (crossword_notify e) = ce_layout e"
  "ce_initialWords (crossword_notify e) = ce_initialWords e"
  by (simp_all add: crossword_notify_def)

definition ce_inv :: "crossword_engine \<Rightarrow> bool" where
  "ce_inv e \<longleftrightarrow> cs_inv (ly_grid (ce_layout e)) (ce_state e)"

lemma inputChar_cases:
  obtains (same) "inputChar ch e = e"
      "cs_isFinished (ce_state e) \<or> cs_selectedCell (ce_state e) = None
       \<or> (\<exists>k. cs_selectedCell (ce_state e) = Some k
             \<and> (\<not> has_cell (ly_grid (ce_layout e)) k \<or> k \<in> set (cs_lockedCells (ce_state e))))"
  | (erased) x y where "\<not> cs_isFinished (ce_state e)" "cs_selectedCell (ce_state e) = Some (x, y)"
      "has_cell (ly_grid (ce_layout e)) (x, y)" "(x, y) \<notin> set (cs_lockedCells (ce_state e))"
      "inputChar ch e = crossword_notify (e\<lparr>ce_state := crossword_validate (ly_grid (ce_layout e))
         ((ce_state e)\<lparr>cs_userGrid := AList.delete (x, y) (cs_userGrid (ce_state e))\<rparr>)\<rparr>)"
  | (written) x y c sel where "\<not> cs_isFinished (ce_state e)" "cs_selectedCell (ce_state e) = Some (x, y)"
      "has_cell (ly_grid (ce_layout e)) (x, y)" "(x, y) \<notin> set (cs_lockedCells (ce_state e))"
      "take 1 (normalizeCrosswordAnswer ch) = c" "c \<noteq> []" "has_cell (ly_grid (ce_layout e)) sel"
      "inputChar ch e = crossword_notify (e\<lparr>ce_state := crossword_validate (ly_grid (ce_layout e))
         ((ce_state e)\<lparr>cs_userGrid := AList.update (x, y) c (cs_userGrid (ce_state e)),
                       cs_selectedCell := Some sel\<rparr>)\<rparr>)"
proof -
  let ?st = "ce_state e" and ?g = "ly_grid (ce_layout e)" and ?c = "take 1 (normalizeCrosswordAnswer ch)"
  show ?thesis
  proof (cases "cs_isFinished ?st \<or> cs_selectedCell ?st = None")
    case True
    then show ?thesis by (intro same) (auto simp: inputChar_def Let_def split: bool.splits)
  next
    case False
    then obtain x y where sel: "\<not> cs_isFinished ?st" "cs_selectedCell ?st = Some (x, y)" by auto
    show ?thesis
    proof (cases "has_cell ?g (x, y) \<and> (x, y) \<notin> set (cs_lockedCells ?st)")
      case False
      then show ?thesis using sel by (intro same) (auto simp: inputChar_def Let_def)
    next
      case True
      show ?thesis
      proof (cases "?c = []")
        case c: True
        show ?thesis using sel True c by (intro erased [of x y]) (simp_all add: inputChar_def Let_def)
      next
        case c: False
        define nxt where "nxt = (x + (if cs_orientation ?st = Horizontal then 1 else 0),
          y + (if cs_orientation ?st = Vertical then 1 else 0))"
        have same_sel: "?st\<lparr>cs_userGrid := u\<rparr> = ?st\<lparr>cs_userGrid := u, cs_selectedCell := Some (x, y)\<rparr>" for u
          using sel(2) by simp
        show ?thesis
        proof (cases "has_cell ?g nxt")
          case n: True
          show ?thesis
            using sel True c n by (intro written [of x y ?c nxt]) (simp_all add: inputChar_def Let_def nxt_def)
        next
          case n: False
          show ?thesis
            using sel True c n
            by (intro written [of x y ?c "(x, y)"]) (simp_all add: inputChar_def Let_def nxt_def flip: same_sel)
        qed
      qed
    qed
  qed
qed

lemma inputChar_inv: "ce_inv e \<Longrightarrow> ce_inv (inputChar ch e)"
proof (cases ch e rule: inputChar_cases)
  case same
  then show "ce_inv e \<Longrightarrow> ?thesis" by simp
next
  case (erased x y)
  then show ?thesis by (auto simp: ce_inv_def intro!: validate_inv)
next
  case (written x y c sel)
  then show ?thesis by (auto simp: ce_inv_def intro!: validate_inv)
qed

lemma selectCell_inv: "ce_inv e \<Longrightarrow> ce_inv (selectCell x y e)"
  by (auto simp: ce_inv_def cs_inv_def selectCell_def Let_def)

lemma navigate_inv: "ce_inv e \<Longrightarrow> ce_inv (navigate dx dy e)"
  by (auto simp: ce_inv_def cs_inv_def navigate_def split: option.splits)

lemma layout_steps [simp]:
  "ce_layout (inputChar ch e) = ce_layout e" "ce_layout (selectCell x y e) = ce_layout e"
  "ce_layout (navigate dx dy e) = ce_layout e"
proof -
  show "ce_layout (inputChar ch e) = ce_layout e" by (cases ch e rule: inputChar_cases) simp_all
  show "ce_layout (selectCell x y e) = ce_layout e" by (simp add: selectCell_def Let_def)
  show "ce_layout (navigate dx dy e) = ce_layout e" by (simp add: navigate_def split: option.splits prod.splits)
qed

lemma handleKeyDown_inv: "ce_inv e \<Longrightarrow> ce_inv (handleKeyDown k e)"
  by (simp add: handleKeyDown_def Let_def navigate_inv inputChar_inv)

lemma handleKeyDown_layout [simp]: "ce_layout (handleKeyDown k e) = ce_layout e"
  by (simp add: handleKeyDown_def Let_def)

lemma crossword_step_inv: "ce_inv e \<Longrightarrow> ce_inv (crossword_step ev e) \<and> ce_layout (crossword_step ev e) = ce_layout e"
proof (cases ev)
  case CwReset
  have "ce_inv (crossword_reset e)"
    using fresh_inv [of "ly_grid (ce_layout e)"]
    by (simp add: ce_inv_def crossword_reset_def cs_inv_def fresh_crossword_def)
  then show ?thesis using CwReset by (simp add: crossword_reset_def)
next
  case CwDestroy
  then show "ce_inv e \<Longrightarrow> ?thesis" by (simp add: ce_inv_def crossword_destroy_def)
next
  case (CwSubscribe l)
  then show "ce_inv e \<Longrightarrow> ?thesis" by (simp add: ce_inv_def crossword_subscribe_def)
qed (simp_all add: inputChar_inv selectCell_inv navigate_inv handleKeyDown_inv)

lemma crossword_run_inv:
  "ce_inv e \<Longrightarrow> ce_inv (fold crossword_step evs e) \<and> ce_layout (fold crossword_step evs e) = ce_layout e"
  by (induction evs arbitrary: e) (simp_all add: crossword_step_inv)

lemma crossword_new_inv: "ce_inv (crossword_new words)"
  by (simp add: ce_inv_def crossword_new_def fresh_inv)


section \<open>Progress\<close>

text \<open>Letters of a built grid are upper-case letters, so the expected answer is the letter itself.\<close>

lemma expectedChar_upper: "is_upper c \<Longrightarrow> expectedChar c = [c]"
  by (simp add: expectedChar_def)

lemma normalize_upper: "is_upper c \<Longrightarrow> normalizeCrosswordAnswer [c] = [c]"
  by (simp add: normalizeCrosswordAnswer_def answer_letter_def)

lemma strip_char_209: "code (strip_char c) \<noteq> 209 \<and> code (strip_char c) \<noteq> 241"
  by (auto simp: strip_char_def Let_def)

lemma normalizeCrosswordAnswer_upper: "c \<in> set (normalizeCrosswordAnswer s) \<Longrightarrow> is_upper c"
proof -
  assume "c \<in> set (normalizeCrosswordAnswer s)"
  then obtain d where c: "answer_letter c" "c \<in> set (upper_char (strip_char d))"
    by (auto simp: normalizeCrosswordAnswer_def to_upper_def strip_accents_def)
  have "code c \<noteq> 209"
  proof
    assume n: "code c = 209"
    let ?d = "strip_char d"
    have d: "code ?d \<noteq> 209" "code ?d \<noteq> 241" using strip_char_209 by auto
    show False
    proof (cases "is_lower ?d \<or> (224 \<le> code ?d \<and> code ?d \<le> 254 \<and> code ?d \<noteq> 247)")
      case True
      then have r: "97 \<le> code ?d" "code ?d \<le> 254" by (auto simp: is_lower_def)
      have "c = char_of (code ?d - 32)" using c(2) True by (simp add: upper_char_def)
      then have "code c = code ?d - 32" using r by (simp add: of_char_of)
      then show False using n d r by simp
    next
      case False
      then have "c = ?d \<or> c = CHR ''S''" using c(2) by (auto simp: upper_char_def split: if_splits)
      then show False using n d by auto
    qed
  qed
  then show "is_upper c" using c(1) by (simp add: answer_letter_def)
qed

lemma grid_upper:
  assumes "layout_of words ly" "map_of (ly_grid ly) k = Some c"
  shows "is_upper c"
proof -
  have ok: "layout_ok (ly_grid ly) (ly_placedWords ly)" using assms(1) by (simp add: layout_of_def)
  have "k \<in> dom (map_of (ly_grid ly))" using assms(2) by blast
  then obtain p where p: "p \<in> set (ly_placedWords ly)" "k \<in> word_cells p"
    using ok unfolding layout_ok_def by blast
  then obtain i where i: "i < length (pl_word p)" "k = cell_of (pl_isVertical p) (pl_x p) (pl_y p) (int i)"
    by (auto simp: word_cells_def)
  then have "c = pl_word p ! i" using ok p(1) assms(2) by (auto simp: layout_ok_def spelled_def)
  then have cin: "c \<in> set (pl_word p)" using i by simp
  have "word_entry p \<in># mset (map word_entry (ly_placedWords ly))" using p(1) by simp
  then have "word_entry p \<in># mset (map (\<lambda>w. (nw_normalizedWord w, nw_clue w)) (normalize_words words))"
    using assms(1) unfolding layout_of_def by (blast dest: mset_subset_eqD)
  then obtain w where "pl_word p = normalizeCrosswordAnswer w"
    by (auto simp: word_entry_def normalize_words_def)
  then show ?thesis using cin normalizeCrosswordAnswer_upper by simp
qed

definition crossword_solution :: "cw_grid \<Rightarrow> cw_event list" where
  "crossword_solution grid = concat (map (\<lambda>((x, y), c). [CwSelect x y, CwInput [c]]) grid)"

definition upper_grid :: "cw_grid \<Rightarrow> bool" where
  "upper_grid grid \<longleftrightarrow> distinct (map fst grid) \<and> list_all (\<lambda>(k, c). is_upper c) grid"

lemma right_cells_set:
  assumes "distinct (map fst grid)" "map_of grid k = Some c"
  shows "k \<in> set (right_cells u grid) \<longleftrightarrow> map_of u k = Some (expectedChar c)"
proof
  assume "k \<in> set (right_cells u grid)"
  then obtain d where "(k, d) \<in> set grid" "map_of u k = Some (expectedChar d)"
    by (auto simp: right_cells_def cell_right_def)
  then show "map_of u k = Some (expectedChar c)" using assms by (simp add: map_of_eq_Some_iff)
next
  assume "map_of u k = Some (expectedChar c)"
  then show "k \<in> set (right_cells u grid)"
    using map_of_SomeD [OF assms(2)] by (force simp: right_cells_def cell_right_def)
qed

text \<open>One more cell: whatever was typed before, selecting a cell and typing its letter makes it right
  and leaves every right cell right.\<close>

definition right_at :: "((int \<times> int) \<times> string) list \<Rightarrow> cw_grid \<Rightarrow> int \<times> int \<Rightarrow> bool" where
  "right_at u grid k \<longleftrightarrow> (\<exists>d. map_of grid k = Some d \<and> map_of u k = Some (expectedChar d))"

lemma right_at_locked:
  "distinct (map fst grid) \<Longrightarrow> has_cell grid k \<Longrightarrow> k \<in> set (right_cells u grid) \<longleftrightarrow> right_at u grid k"
proof -
  assume d: "distinct (map fst grid)" and h: "has_cell grid k"
  obtain c where c: "map_of grid k = Some c" using h by (metis has_cell_def option.exhaust)
  show ?thesis using right_cells_set [OF d c] c by (simp add: right_at_def)
qed

lemma all_right_at:
  "distinct (map fst grid) \<Longrightarrow> list_all (cell_right u) grid \<longleftrightarrow> (\<forall>k. has_cell grid k \<longrightarrow> right_at u grid k)"
proof -
  assume d: "distinct (map fst grid)"
  show ?thesis
  proof
    assume all: "list_all (cell_right u) grid"
    show "\<forall>k. has_cell grid k \<longrightarrow> right_at u grid k"
    proof (intro allI impI)
      fix k
      assume "has_cell grid k"
      then obtain c where c: "map_of grid k = Some c" by (metis has_cell_def option.exhaust)
      then have "cell_right u (k, c)" using all map_of_SomeD [OF c] by (simp add: list_all_iff)
      then show "right_at u grid k" using c by (simp add: right_at_def cell_right_def)
    qed
  next
    assume all: "\<forall>k. has_cell grid k \<longrightarrow> right_at u grid k"
    have "cell_right u (k, c)" if "(k, c) \<in> set grid" for k c
    proof -
      have c: "map_of grid k = Some c" using d that by simp
      then have "right_at u grid k" using all by (metis has_cell_def option.distinct(1))
      then show ?thesis using c by (simp add: right_at_def cell_right_def)
    qed
    then show "list_all (cell_right u) grid" unfolding list_all_iff by (metis surj_pair)
  qed
qed

lemma validate_userGrid [simp]: "cs_userGrid (crossword_validate grid st) = cs_userGrid st"
  by (simp add: crossword_validate_def Let_def split: prod.splits)

text \<open>Typing never makes a right cell wrong: it is locked.\<close>

lemma inputChar_keeps:
  assumes inv: "ce_inv e" and d: "distinct (map fst (ly_grid (ce_layout e)))"
    and r: "right_at (cs_userGrid (ce_state e)) (ly_grid (ce_layout e)) k"
  shows "right_at (cs_userGrid (ce_state (inputChar ch e))) (ly_grid (ce_layout e)) k"
proof -
  have l: "k \<in> set (cs_lockedCells (ce_state e))"
    using inv right_at_locked [OF d, of k] r by (auto simp: ce_inv_def cs_inv_def right_at_def has_cell_def)
  show ?thesis
  proof (cases ch e rule: inputChar_cases)
    case same
    then show ?thesis using r by simp
  next
    case (erased x y)
    then have "k \<noteq> (x, y)" using l by auto
    then show ?thesis using r erased by (simp add: right_at_def delete_conv')
  next
    case (written x y c sel)
    then have "k \<noteq> (x, y)" using l by auto
    then show ?thesis using r written by (simp add: right_at_def update_conv')
  qed
qed

lemma selectCell_fields:
  "cs_userGrid (ce_state (selectCell x y e)) = cs_userGrid (ce_state e)"
  "cs_lockedCells (ce_state (selectCell x y e)) = cs_lockedCells (ce_state e)"
  "cs_isFinished (ce_state (selectCell x y e)) = cs_isFinished (ce_state e)"
  "has_cell (ly_grid (ce_layout e)) (x, y) \<Longrightarrow> cs_selectedCell (ce_state (selectCell x y e)) = Some (x, y)"
  by (simp_all add: selectCell_def Let_def)

lemma inputChar_right:
  assumes inv: "ce_inv e" and g: "upper_grid (ly_grid (ce_layout e))" "map_of (ly_grid (ce_layout e)) k = Some c"
    and sel: "cs_selectedCell (ce_state e) = Some k"
  shows "right_at (cs_userGrid (ce_state (inputChar [c] e))) (ly_grid (ce_layout e)) k"
proof -
  have c: "is_upper c" using g by (cases k) (auto simp: upper_grid_def list_all_iff dest: map_of_SomeD)
  have d: "distinct (map fst (ly_grid (ce_layout e)))" using g(1) by (simp add: upper_grid_def)
  have has: "has_cell (ly_grid (ce_layout e)) k" using g(2) by (simp add: has_cell_def)
  show ?thesis
  proof (cases "[c]" e rule: inputChar_cases)
    case same
    then have "cs_isFinished (ce_state e) \<or> k \<in> set (cs_lockedCells (ce_state e))" using sel has by auto
    then have "right_at (cs_userGrid (ce_state e)) (ly_grid (ce_layout e)) k"
    proof
      assume "cs_isFinished (ce_state e)"
      then have "list_all (cell_right (cs_userGrid (ce_state e))) (ly_grid (ce_layout e))"
        using inv by (simp add: ce_inv_def cs_inv_def)
      then show ?thesis using all_right_at [OF d] has by blast
    next
      assume "k \<in> set (cs_lockedCells (ce_state e))"
      then show ?thesis using right_at_locked [OF d has] inv by (simp add: ce_inv_def cs_inv_def)
    qed
    then show ?thesis using same(1) by simp
  next
    case (erased x y)
    have "take 1 (normalizeCrosswordAnswer [c]) \<noteq> []" using normalize_upper [OF c] by simp
    then have "map_of (cs_userGrid (ce_state (inputChar [c] e))) k = Some [c]"
      using erased(1-4) sel has normalize_upper [OF c]
      by (simp add: inputChar_def Let_def update_conv')
    then show ?thesis using g(2) expectedChar_upper [OF c] by (simp add: right_at_def)
  next
    case (written x y c' sel')
    then have "map_of (cs_userGrid (ce_state (inputChar [c] e))) k = Some [c]"
      using sel normalize_upper [OF c] by (simp add: update_conv')
    then show ?thesis using g(2) expectedChar_upper [OF c] by (simp add: right_at_def)
  qed
qed

lemma type_cell:
  assumes inv: "ce_inv e" and g: "upper_grid (ly_grid (ce_layout e))" "map_of (ly_grid (ce_layout e)) (x, y) = Some c"
  shows "right_at (cs_userGrid (ce_state (inputChar [c] (selectCell x y e)))) (ly_grid (ce_layout e)) (x, y)"
    and "right_at (cs_userGrid (ce_state e)) (ly_grid (ce_layout e)) k \<Longrightarrow>
         right_at (cs_userGrid (ce_state (inputChar [c] (selectCell x y e)))) (ly_grid (ce_layout e)) k"
proof -
  have d: "distinct (map fst (ly_grid (ce_layout e)))" using g(1) by (simp add: upper_grid_def)
  have "cs_selectedCell (ce_state (selectCell x y e)) = Some (x, y)"
    using g(2) by (intro selectCell_fields) (simp add: has_cell_def)
  then show "right_at (cs_userGrid (ce_state (inputChar [c] (selectCell x y e)))) (ly_grid (ce_layout e)) (x, y)"
    using inputChar_right [OF selectCell_inv [OF inv], of x y "(x, y)" c] g by simp
  show "right_at (cs_userGrid (ce_state (inputChar [c] (selectCell x y e)))) (ly_grid (ce_layout e)) k"
    if "right_at (cs_userGrid (ce_state e)) (ly_grid (ce_layout e)) k"
    using inputChar_keeps [OF selectCell_inv [OF inv], of x y k "[c]"] d that selectCell_fields(1) by simp
qed

lemma solution_run:
  "ce_inv e \<Longrightarrow> upper_grid (ly_grid (ce_layout e)) \<Longrightarrow> set cells \<subseteq> set (ly_grid (ce_layout e)) \<Longrightarrow>
   (\<forall>k \<in> fst ` set cells. right_at (cs_userGrid (ce_state (fold crossword_step (crossword_solution cells) e)))
      (ly_grid (ce_layout e)) k)
   \<and> (\<forall>k. right_at (cs_userGrid (ce_state e)) (ly_grid (ce_layout e)) k \<longrightarrow>
        right_at (cs_userGrid (ce_state (fold crossword_step (crossword_solution cells) e))) (ly_grid (ce_layout e)) k)"
proof (induction cells arbitrary: e)
  case Nil
  then show ?case by (simp add: crossword_solution_def)
next
  case (Cons cell cells)
  obtain x y c where cell: "cell = ((x, y), c)" by (metis surj_pair)
  let ?e = "inputChar [c] (selectCell x y e)"
  have m: "map_of (ly_grid (ce_layout e)) (x, y) = Some c"
    using Cons.prems(2,3) cell by (simp add: upper_grid_def)
  have inv: "ce_inv ?e" by (intro inputChar_inv selectCell_inv Cons.prems)
  have run: "fold crossword_step (crossword_solution (cell # cells)) e = fold crossword_step (crossword_solution cells) ?e"
    by (simp add: crossword_solution_def cell)
  note t = type_cell [OF Cons.prems(1,2) m]
  have lay: "ce_layout ?e = ce_layout e" by simp
  have ih: "\<forall>k \<in> fst ` set cells. right_at (cs_userGrid (ce_state (fold crossword_step (crossword_solution cells) ?e)))
        (ly_grid (ce_layout e)) k"
      "\<forall>k. right_at (cs_userGrid (ce_state ?e)) (ly_grid (ce_layout e)) k \<longrightarrow>
        right_at (cs_userGrid (ce_state (fold crossword_step (crossword_solution cells) ?e))) (ly_grid (ce_layout e)) k"
    using Cons.IH [OF inv] Cons.prems(2,3) unfolding lay by simp_all
  show ?case unfolding run
  proof (intro conjI ballI allI impI)
    fix k
    assume "k \<in> fst ` set (cell # cells)"
    then have "k = (x, y) \<or> k \<in> fst ` set cells" by (simp add: cell)
    then show "right_at (cs_userGrid (ce_state (fold crossword_step (crossword_solution cells) ?e))) (ly_grid (ce_layout e)) k"
    proof
      assume "k = (x, y)"
      then show ?thesis using ih(2) t(1) by simp
    next
      assume "k \<in> fst ` set cells"
      then show ?thesis using ih(1) by (rule bspec [rotated])
    qed
  next
    fix k
    assume "right_at (cs_userGrid (ce_state e)) (ly_grid (ce_layout e)) k"
    from t(2) [OF this] show "right_at (cs_userGrid (ce_state (fold crossword_step (crossword_solution cells) ?e)))
        (ly_grid (ce_layout e)) k"
      by (rule ih(2) [rule_format])
  qed
qed

lemma has_cell_fst: "has_cell g k \<Longrightarrow> k \<in> fst ` set g"
  by (simp add: has_cell_def map_of_eq_None_iff)

lemma solution_right:
  assumes "ce_inv e" "upper_grid (ly_grid (ce_layout e))" "has_cell (ly_grid (ce_layout e)) k"
  shows "right_at (cs_userGrid (ce_state (fold crossword_step (crossword_solution (ly_grid (ce_layout e))) e)))
      (ly_grid (ce_layout e)) k"
  using solution_run [OF assms(1,2) subset_refl] has_cell_fst [OF assms(3)] by (rule conjunct1 [THEN bspec])

lemma inv_finished:
  "cs_inv grid st \<Longrightarrow> distinct (map fst grid) \<Longrightarrow> grid \<noteq> [] \<Longrightarrow>
   (\<And>k. has_cell grid k \<Longrightarrow> right_at (cs_userGrid st) grid k) \<Longrightarrow> cs_isFinished st"
  using all_right_at [of grid "cs_userGrid st"] by (simp add: cs_inv_def)

lemma ce_invD: "ce_inv e \<and> ce_layout e = ly \<Longrightarrow> cs_inv (ly_grid ly) (ce_state e)"
  by (auto simp: ce_inv_def)

lemma solution_finishes:
  assumes "ce_inv e" "upper_grid (ly_grid (ce_layout e))" "ly_grid (ce_layout e) \<noteq> []"
  shows "cs_isFinished (ce_state (fold crossword_step (crossword_solution (ly_grid (ce_layout e))) e))"
proof (rule inv_finished)
  show "cs_inv (ly_grid (ce_layout e)) (ce_state (fold crossword_step (crossword_solution (ly_grid (ce_layout e))) e))"
    by (rule ce_invD [OF crossword_run_inv [OF assms(1)]])
  show "distinct (map fst (ly_grid (ce_layout e)))" using assms(2) by (simp only: upper_grid_def)
  show "ly_grid (ce_layout e) \<noteq> []" by (rule assms(3))
qed (rule solution_right [OF assms(1,2)])


lemma crossword_grid_upper: "upper_grid (ly_grid (buildCrosswordLayout words))"
proof -
  have l: "layout_of words (buildCrosswordLayout words)" by (rule buildCrosswordLayout_of)
  have d: "distinct (map fst (ly_grid (buildCrosswordLayout words)))"
    using l by (simp add: layout_of_def layout_ok_def)
  have "is_upper c" if "(k, c) \<in> set (ly_grid (buildCrosswordLayout words))" for k c
    using grid_upper [OF l, of k c] d that by simp
  then show ?thesis using d by (auto simp: upper_grid_def list_all_iff)
qed

section \<open>Clue numbers\<close>

text \<open>Both implementations walk the words in the same order with the same map and counter.\<close>

lemma start_labels_extend: "map_of labels \<subseteq>\<^sub>m map_of (start_labels pws labels n)"
proof (induction pws arbitrary: labels n)
  case Nil
  then show ?case by simp
next
  case (Cons pw pws)
  show ?case
  proof (cases "map_of labels (pl_x pw, pl_y pw)")
    case None
    have "map_of labels \<subseteq>\<^sub>m map_of (AList.update (pl_x pw, pl_y pw) n labels)"
      using None by (auto simp: map_le_def update_conv')
    then show ?thesis using None Cons.IH map_le_trans by fastforce
  next
    case (Some m)
    then show ?thesis using Cons.IH by simp
  qed
qed

lemma number_words_labels:
  "list_all (\<lambda>(pw, num). map_of (start_labels pws labels n) (pl_x pw, pl_y pw) = Some num) (number_words pws labels n)"
proof (induction pws arbitrary: labels n)
  case Nil
  then show ?case by simp
next
  case (Cons pw pws)
  show ?case
  proof (cases "map_of labels (pl_x pw, pl_y pw)")
    case None
    let ?l = "AList.update (pl_x pw, pl_y pw) n labels"
    have "map_of ?l (pl_x pw, pl_y pw) = Some n" by (simp add: update_conv')
    then have "map_of (start_labels pws ?l (n + 1)) (pl_x pw, pl_y pw) = Some n"
      using start_labels_extend by (metis domI map_le_def)
    then show ?thesis using None Cons.IH [of ?l "n + 1"] by simp
  next
    case (Some m)
    then have "map_of (start_labels pws labels n) (pl_x pw, pl_y pw) = Some m"
      using start_labels_extend by (metis domI map_le_def)
    then show ?thesis using Some Cons.IH by simp
  qed
qed

text \<open>The labels are injective and below the counter.\<close>

definition labels_ok :: "((int \<times> int) \<times> nat) list \<Rightarrow> nat \<Rightarrow> bool" where
  "labels_ok labels n \<longleftrightarrow> inj_on (map_of labels) (dom (map_of labels)) \<and> ran (map_of labels) \<subseteq> {1..<n}"

lemma start_labels_ok: "labels_ok labels n \<Longrightarrow> 1 \<le> n \<Longrightarrow> \<exists>m. labels_ok (start_labels pws labels n) m"
proof (induction pws arbitrary: labels n)
  case Nil
  then show ?case by auto
next
  case (Cons pw pws)
  let ?k = "(pl_x pw, pl_y pw)"
  show ?case
  proof (cases "map_of labels ?k")
    case None
    have u: "map_of (AList.update ?k n labels) = (map_of labels)(?k \<mapsto> n)" by (simp add: update_conv')
    have lt: "\<And>k m. map_of labels k = Some m \<Longrightarrow> m < n" "\<And>k m. map_of labels k = Some m \<Longrightarrow> 1 \<le> m"
      using Cons.prems(1) unfolding labels_ok_def ran_def by fastforce+
    have "labels_ok (AList.update ?k n labels) (n + 1)"
      unfolding labels_ok_def u
    proof
      show "inj_on ((map_of labels)(?k \<mapsto> n)) (dom ((map_of labels)(?k \<mapsto> n)))"
        using Cons.prems(1) lt(1) None unfolding labels_ok_def inj_on_def by (auto dest: lt(1))
      show "ran ((map_of labels)(?k \<mapsto> n)) \<subseteq> {1..<n + 1}"
        using lt Cons.prems(2) None by (auto simp: ran_def less_Suc_eq)
    qed
    then show ?thesis using Cons.IH None by simp
  next
    case (Some m)
    then show ?thesis using Cons by simp
  qed
qed


section \<open>Properties\<close>

text \<open>C17: While a crossword is solved, with any sequence of clicks, keys, letters and resets, exactly the
  cells with the right letter are locked, the score is ten points per locked cell, the game is
  finished exactly when every cell is right, and the grid itself never changes.\<close>

theorem crossword_invariant:
  "let e = fold crossword_step evs (crossword_new words); grid = ly_grid (ce_layout e) in
     ce_layout e = buildCrosswordLayout words
     \<and> cs_lockedCells (ce_state e) = right_cells (cs_userGrid (ce_state e)) grid
     \<and> cs_score (ce_state e) = 10 * length (cs_lockedCells (ce_state e))
     \<and> (cs_isFinished (ce_state e) = (grid \<noteq> [] \<and> list_all (cell_right (cs_userGrid (ce_state e))) grid))"
  using crossword_run_inv [OF crossword_new_inv, of evs words]
  by (simp add: Let_def ce_inv_def cs_inv_def crossword_new_def)

text \<open>A right letter is never lost: typing or erasing anywhere keeps every locked cell locked, and the
  score never falls.\<close>

theorem crossword_locked_stays:
  assumes "e = fold crossword_step evs (crossword_new words)"
  shows "set (cs_lockedCells (ce_state e)) \<subseteq> set (cs_lockedCells (ce_state (inputChar ch e)))
    \<and> cs_score (ce_state e) \<le> cs_score (ce_state (inputChar ch e))"
proof -
  have inv: "ce_inv e" and lay: "ce_layout e = buildCrosswordLayout words"
    using crossword_run_inv [OF crossword_new_inv, of evs words] by (simp_all add: assms crossword_new_def)
  let ?g = "ly_grid (ce_layout e)"
  have d: "distinct (map fst ?g)" using crossword_grid_upper [of words] by (simp add: lay upper_grid_def)
  have L: "cs_lockedCells (ce_state e) = right_cells (cs_userGrid (ce_state e)) ?g"
    "cs_score (ce_state e) = 10 * length (cs_lockedCells (ce_state e))"
    using inv by (simp_all add: ce_inv_def cs_inv_def)
  have L': "cs_lockedCells (ce_state (inputChar ch e)) = right_cells (cs_userGrid (ce_state (inputChar ch e))) ?g"
    "cs_score (ce_state (inputChar ch e)) = 10 * length (cs_lockedCells (ce_state (inputChar ch e)))"
    using inputChar_inv [OF inv, of ch] by (simp_all add: ce_inv_def cs_inv_def)
  have cell: "k \<in> set (right_cells u ?g) \<Longrightarrow> has_cell ?g k" for u k
  proof -
    assume "k \<in> set (right_cells u ?g)"
    then obtain c where "(k, c) \<in> set ?g" by (auto simp: right_cells_def)
    then show "has_cell ?g k" using d by (simp add: has_cell_def)
  qed
  have sub: "set (cs_lockedCells (ce_state e)) \<subseteq> set (cs_lockedCells (ce_state (inputChar ch e)))"
  proof
    fix k
    assume k: "k \<in> set (cs_lockedCells (ce_state e))"
    then have h: "has_cell ?g k" using cell L(1) by simp
    then have "right_at (cs_userGrid (ce_state e)) ?g k" using k right_at_locked [OF d h] L(1) by simp
    then have "right_at (cs_userGrid (ce_state (inputChar ch e))) ?g k" by (rule inputChar_keeps [OF inv d])
    then show "k \<in> set (cs_lockedCells (ce_state (inputChar ch e)))" using right_at_locked [OF d h] L'(1) by simp
  qed
  have dist: "distinct (right_cells u ?g)" for u
    using d by (simp add: right_cells_def distinct_map_filter)
  have "length (cs_lockedCells (ce_state e)) \<le> length (cs_lockedCells (ce_state (inputChar ch e)))"
    using card_mono [OF finite_set sub] dist by (simp add: L(1) L'(1) distinct_card)
  then show ?thesis using sub L(2) L'(2) by simp
qed

theorem crossword_locked_stays_witness:
  "cs_score (ce_state (crossword_new sample_words))
     \<le> cs_score (ce_state (inputChar ''L'' (crossword_new sample_words)))"
  using crossword_locked_stays [of "crossword_new sample_words" "[]" sample_words "''L''"] by simp

text \<open>A crossword can always be solved: whatever was clicked and typed before, clicking each cell and
  typing its letter finishes the game with ten points for every cell.\<close>

theorem crossword_winnable:
  assumes "ly_grid (buildCrosswordLayout words) \<noteq> []"
  shows "let e = fold crossword_step (evs @ crossword_solution (ly_grid (buildCrosswordLayout words))) (crossword_new words)
    in cs_isFinished (ce_state e) \<and> cs_score (ce_state e) = 10 * length (ly_grid (buildCrosswordLayout words))"
proof -
  let ?before = "fold crossword_step evs (crossword_new words)"
  let ?g = "ly_grid (buildCrosswordLayout words)"
  let ?e = "fold crossword_step (crossword_solution ?g) ?before"
  have i: "ce_inv ?before" "ce_layout ?before = buildCrosswordLayout words"
    using crossword_run_inv [OF crossword_new_inv, of evs words] by (simp_all add: crossword_new_def)
  have fin: "cs_isFinished (ce_state ?e)"
    using solution_finishes [OF i(1)] crossword_grid_upper [of words] assms unfolding i(2) by blast
  have inv: "cs_inv ?g (ce_state ?e)"
    using ce_invD [OF crossword_run_inv [OF i(1), of "crossword_solution ?g"]] unfolding i(2) .
  then have "list_all (cell_right (cs_userGrid (ce_state ?e))) ?g" using fin by (simp add: cs_inv_def)
  then have "filter (cell_right (cs_userGrid (ce_state ?e))) ?g = ?g" by (simp add: list_all_iff)
  then have "cs_score (ce_state ?e) = 10 * length ?g"
    using inv by (simp add: cs_inv_def right_cells_def)
  then show ?thesis using fin by (simp add: Let_def)
qed

theorem crossword_winnable_witness:
  "cs_isFinished (ce_state (fold crossword_step
     ([CwKey ''Q''] @ crossword_solution (ly_grid (buildCrosswordLayout sample_words))) (crossword_new sample_words)))"
proof -
  have "ly_grid (buildCrosswordLayout sample_words) \<noteq> []" by code_simp
  then show ?thesis using crossword_winnable [of sample_words "[CwKey ''Q'']"] by (simp add: Let_def)
qed

text \<open>The clue list and the grid agree on the numbers: the number the clue list gives a word is the
  label the scene draws in the word's first cell, and different first cells have different labels.\<close>

theorem crossword_numbers_agree:
  "list_all (\<lambda>(pw, num). map_of (wordStartLabels ps) (pl_x pw, pl_y pw) = Some num) (numberedWords ps)
   \<and> inj_on (map_of (wordStartLabels ps)) (dom (map_of (wordStartLabels ps)))"
proof -
  obtain m where "labels_ok (start_labels (by_position ps) [] 1) m"
    using start_labels_ok [of "[]" 1 "by_position ps"] by (auto simp: labels_ok_def)
  then show ?thesis
    using number_words_labels [of "by_position ps" "[]" 1]
    by (simp add: numberedWords_def wordStartLabels_def labels_ok_def)
qed

text \<open>A clue is struck out exactly when its word has been typed: for every placed word of a crossword
  that is being solved, it counts as solved if and only if each of its cells holds the word's letter.\<close>

theorem crossword_word_solved_exact:
  assumes "e = fold crossword_step evs (crossword_new words)"
    and "pw \<in> set (ly_placedWords (buildCrosswordLayout words))"
  shows "isWordSolved (ce_state e) pw \<longleftrightarrow>
    list_all (\<lambda>i. map_of (cs_userGrid (ce_state e)) (cell_of (pl_isVertical pw) (pl_x pw) (pl_y pw) (int i))
        = Some [pl_word pw ! i]) [0..<length (pl_word pw)]"
proof -
  have inv: "ce_inv e" and lay: "ce_layout e = buildCrosswordLayout words"
    using crossword_run_inv [OF crossword_new_inv, of evs words] by (simp_all add: assms(1) crossword_new_def)
  let ?g = "ly_grid (buildCrosswordLayout words)" and ?u = "cs_userGrid (ce_state e)"
  have l: "layout_of words (buildCrosswordLayout words)" by (rule buildCrosswordLayout_of)
  have d: "distinct (map fst ?g)" using crossword_grid_upper [of words] by (simp add: upper_grid_def)
  have L: "cs_lockedCells (ce_state e) = right_cells ?u ?g" using inv by (simp add: ce_inv_def cs_inv_def lay)
  have "cell_of (pl_isVertical pw) (pl_x pw) (pl_y pw) (int i) \<in> set (right_cells ?u ?g) \<longleftrightarrow>
      map_of ?u (cell_of (pl_isVertical pw) (pl_x pw) (pl_y pw) (int i)) = Some [pl_word pw ! i]"
    if "i < length (pl_word pw)" for i
  proof -
    have m: "map_of ?g (cell_of (pl_isVertical pw) (pl_x pw) (pl_y pw) (int i)) = Some (pl_word pw ! i)"
      using l assms(2) that by (simp add: layout_of_def layout_ok_def spelled_def)
    show ?thesis
      unfolding right_cells_set [OF d m] using expectedChar_upper [OF grid_upper [OF l m]] by simp
  qed
  then show ?thesis by (simp add: isWordSolved_def L list_all_iff)
qed

theorem crossword_word_solved_exact_witness:
  "\<exists>pw. isWordSolved (ce_state (crossword_new sample_words)) pw \<longleftrightarrow>
    list_all (\<lambda>i. map_of (cs_userGrid (ce_state (crossword_new sample_words)))
          (cell_of (pl_isVertical pw) (pl_x pw) (pl_y pw) (int i)) = Some [pl_word pw ! i]) [0..<length (pl_word pw)]"
proof -
  have "ly_placedWords (buildCrosswordLayout sample_words) \<noteq> []" by code_simp
  then obtain pw where "pw \<in> set (ly_placedWords (buildCrosswordLayout sample_words))"
    by (cases "ly_placedWords (buildCrosswordLayout sample_words)") auto
  then show ?thesis
    using crossword_word_solved_exact [of "crossword_new sample_words" "[]" sample_words pw] by auto
qed

text \<open>Completion is announced again and again: once the crossword is finished, every further click on a
  cell sends each listener another finished state, and the scene's listener calls \<open>onFinish\<close> on
  each of them.\<close>

theorem crossword_finish_repeats:
  assumes "cs_isFinished (ce_state e)" "l \<in> set (listeners (ce_subject e))" "subject_wf (ce_subject e)"
    and "has_cell (ly_grid (ce_layout e)) (x, y)"
  shows "length (filter cs_isFinished (told l (ce_subject (selectCell x y e))))
    = length (filter cs_isFinished (told l (ce_subject e))) + 1"
proof -
  obtain st where st: "selectCell x y e = crossword_notify (e\<lparr>ce_state := st\<rparr>)" "cs_isFinished st"
    using assms(1,4) by (auto simp: selectCell_def Let_def)
  show ?thesis using assms(2,3) st(2) unfolding st(1)
    by (simp add: crossword_notify_def told_notify)
qed

definition finished_crossword :: crossword_engine where
  "finished_crossword = fold crossword_step (CwSubscribe 1 # crossword_solution (ly_grid (buildCrosswordLayout sample_words)))
     (crossword_new sample_words)"

theorem crossword_finish_repeats_witness:
  "length (filter cs_isFinished (told 1 (ce_subject (selectCell 0 0 finished_crossword))))
    = length (filter cs_isFinished (told 1 (ce_subject finished_crossword))) + 1"
proof (rule crossword_finish_repeats)
  show "cs_isFinished (ce_state finished_crossword)" by code_simp
  show "1 \<in> set (listeners (ce_subject finished_crossword))" by code_simp
  show "subject_wf (ce_subject finished_crossword)" by code_simp
  show "has_cell (ly_grid (ce_layout finished_crossword)) (0, 0)" by code_simp
qed

end
