(* ===== verification/CrosswordScreen.thy ===== *)
theory CrosswordScreen
  imports Crossword JsNumber
begin

text \<open>
  The crossword scene (\<open>src/features/games/CrosswordScene.ts\<close>): the cells it draws, the hidden text field that serves touch
  keyboards, and the subscription that redraws the board and reports the end. What is drawn in a cell
  is its fill and its text; positions are in pixels relative to the container.
\<close>

section \<open>Handlers of the hidden text field\<close>

definition dom_letter :: "char \<Rightarrow> bool" where
  "dom_letter c \<longleftrightarrow> is_upper c \<or> is_lower c \<or> code c = 241 \<or> code c = 209"

definition handleDomInput :: "string \<Rightarrow> crossword_engine \<Rightarrow> crossword_engine" where
  "handleDomInput v e =
     (if v = [] then e
      else let lastChar = last v in if dom_letter lastChar then inputChar [lastChar] e else e)"

definition handleDomKeyDown :: "string \<Rightarrow> crossword_engine \<Rightarrow> crossword_engine" where
  "handleDomKeyDown key e =
     (if key = ''Backspace''
      then let e = inputChar [] e
           in if cs_orientation (ce_state e) = Horizontal then navigate (-1) 0 e else navigate 0 (-1) e
      else if key = ''ArrowRight'' then navigate 1 0 e
      else if key = ''ArrowLeft'' then navigate (-1) 0 e
      else if key = ''ArrowDown'' then navigate 0 1 e
      else if key = ''ArrowUp'' then navigate 0 (-1) e
      else e)"

section \<open>Drawing\<close>

datatype fill = White | Green | Yellow

definition cell_fill :: "crossword_state \<Rightarrow> int \<times> int \<Rightarrow> fill" where
  "cell_fill st key =
     (let base = (if key \<in> set (cs_lockedCells st) then Green else White)
      in case cs_selectedCell st of
           Some k \<Rightarrow> if key = k \<and> k \<notin> set (cs_lockedCells st) then Yellow else base
         | None \<Rightarrow> base)"

type_synonym cell_view = "(int \<times> int) \<times> fill \<times> string"

definition drawState :: "(int \<times> int) list \<Rightarrow> crossword_state \<Rightarrow> cell_view list" where
  "drawState cells st =
     map (\<lambda>key. (key, cell_fill st key, case map_of (cs_userGrid st) key of Some c \<Rightarrow> c | None \<Rightarrow> [])) cells"

text \<open>The bounds of the grid and the size of a cell.\<close>

definition grid_bounds :: "(int \<times> int) list \<Rightarrow> int \<times> int \<times> int \<times> int" where
  "grid_bounds cells = (Min (fst ` set cells), Min (snd ` set cells), Max (fst ` set cells), Max (snd ` set cells))"

definition crossword_cellSize :: "int \<Rightarrow> int \<Rightarrow> (int \<times> int) list \<Rightarrow> int" where
  "crossword_cellSize camWidth camHeight cells =
     (let (minX, minY, maxX, maxY) = grid_bounds cells;
          cols = maxX - minX + 1; rows = maxY - minY + 1; padding = 36;
          availableWidth = camWidth - padding * 2; availableHeight = camHeight - padding * 2
      in max 28 (min 54 \<lfloor>min (fl (of_int availableWidth / of_int cols)) (fl (of_int availableHeight / of_int rows))\<rfloor>))"

definition cell_position :: "int \<Rightarrow> int \<times> int \<times> int \<times> int \<Rightarrow> int \<times> int \<Rightarrow> int \<times> int" where
  "cell_position cellSize bounds c = (case bounds of (minX, minY, _) \<Rightarrow> ((fst c - minX) * cellSize, (snd c - minY) * cellSize))"

section \<open>The scene\<close>

record crossword_scene =
  xs_engine :: crossword_engine
  xs_listener :: "nat option"
  xs_rects :: "(int \<times> int) list"
  xs_view :: "cell_view list"
  xs_finished :: "nat list"

text \<open>The subscribed callback.\<close>

definition scene_hears :: "crossword_state \<Rightarrow> crossword_scene \<Rightarrow> crossword_scene" where
  "scene_hears st sc =
     (let sc = sc\<lparr>xs_view := drawState (xs_rects sc) st\<rparr>
      in if cs_isFinished st then sc\<lparr>xs_finished := xs_finished sc @ [cs_score st]\<rparr> else sc)"

text \<open>A call of the engine, with what the callback does for every notification the scene gets during it.\<close>

definition scene_call :: "(crossword_engine \<Rightarrow> crossword_engine) \<Rightarrow> crossword_scene \<Rightarrow> crossword_scene" where
  "scene_call f sc =
     (let e = xs_engine sc; e' = f e; sc' = sc\<lparr>xs_engine := e'\<rparr>
      in case xs_listener sc of
           None \<Rightarrow> sc'
         | Some l \<Rightarrow> fold scene_hears (drop (length (told l (ce_subject e))) (told l (ce_subject e'))) sc')"

text \<open>\<open>create\<close>: with an empty grid only a text is shown and nothing is registered.\<close>

definition scene_create :: "nat \<Rightarrow> crossword_engine \<Rightarrow> crossword_scene" where
  "scene_create l e =
     (let cells = map fst (ly_grid (ce_layout e))
      in if cells = [] then \<lparr>xs_engine = e, xs_listener = None, xs_rects = [], xs_view = [], xs_finished = []\<rparr>
         else scene_call (crossword_subscribe l)
           \<lparr>xs_engine = e, xs_listener = Some l, xs_rects = cells, xs_view = map (\<lambda>k. (k, White, [])) cells, xs_finished = []\<rparr>)"

text \<open>The handlers are attached only when there is a grid; a click reaches the rectangle of a cell.\<close>

datatype scene_event = ClickCell int int | SceneKey string | DomInput string | DomKey string

fun scene_act :: "scene_event \<Rightarrow> crossword_scene \<Rightarrow> crossword_scene" where
  "scene_act (ClickCell x y) sc = (if (x, y) \<in> set (xs_rects sc) then scene_call (selectCell x y) sc else sc)"
| "scene_act (SceneKey k) sc = (if xs_listener sc = None then sc else scene_call (handleKeyDown k) sc)"
| "scene_act (DomInput v) sc = (if xs_listener sc = None then sc else scene_call (handleDomInput v) sc)"
| "scene_act (DomKey k) sc = (if xs_listener sc = None then sc else scene_call (handleDomKeyDown k) sc)"

definition scene_shutdown :: "crossword_scene \<Rightarrow> crossword_scene" where
  "scene_shutdown sc =
     (case xs_listener sc of
        None \<Rightarrow> sc
      | Some l \<Rightarrow> sc\<lparr>xs_engine := (xs_engine sc)\<lparr>ce_subject := subject_remove l (ce_subject (xs_engine sc))\<rparr>,
                     xs_listener := None, xs_rects := [], xs_view := []\<rparr>)"

section \<open>The two keyboards\<close>

text \<open>On the keys both serve, the hidden field and the canvas do the same.\<close>

lemma dom_keys_agree:
  "key \<in> {''ArrowRight'', ''ArrowLeft'', ''ArrowDown'', ''ArrowUp'', ''Backspace''} \<Longrightarrow> handleDomKeyDown key e = handleKeyDown key e"
  by (auto simp: handleDomKeyDown_def handleKeyDown_def)

lemma dom_letters_agree: "dom_letter c \<Longrightarrow> handleDomInput (v @ [c]) e = handleKeyDown [c] e"
  by (auto simp: handleDomInput_def handleKeyDown_def key_letter_def dom_letter_def)

section \<open>The board on the screen\<close>

text \<open>What an engine operation does to what listener \<open>l\<close> has been told: it is told every state that replaces another.\<close>

definition news_ok :: "crossword_engine \<Rightarrow> crossword_engine \<Rightarrow> crossword_state list \<Rightarrow> bool" where
  "news_ok e e' news \<longleftrightarrow> ce_state e' = last (ce_state e # news) \<and> (\<forall>st \<in> set news. cs_inv (ly_grid (ce_layout e)) st)
     \<and> (cs_isFinished (ce_state e') \<longleftrightarrow> cs_isFinished (ce_state e) \<or> (\<exists>st \<in> set news. cs_isFinished st))"

definition attached :: "nat \<Rightarrow> crossword_engine \<Rightarrow> bool" where
  "attached l e \<longleftrightarrow> subject_wf (ce_subject e) \<and> l \<in> set (listeners (ce_subject e)) \<and> ce_inv e"

definition keeps_told :: "nat \<Rightarrow> crossword_engine \<Rightarrow> crossword_engine \<Rightarrow> bool" where
  "keeps_told l e e' \<longleftrightarrow> attached l e' \<and> ce_layout e' = ce_layout e
     \<and> (\<exists>news. told l (ce_subject e') = told l (ce_subject e) @ news \<and> news_ok e e' news)"

lemma keeps_attached: "keeps_told l e e' \<Longrightarrow> attached l e'"
  by (simp add: keeps_told_def)

lemma keeps_same: "attached l e \<Longrightarrow> keeps_told l e e"
  by (auto simp: keeps_told_def news_ok_def)

lemma keeps_notify:
  assumes "attached l e" "ce_inv (crossword_notify (e\<lparr>ce_state := st\<rparr>))" "cs_isFinished (ce_state e) \<Longrightarrow> cs_isFinished st"
  shows "keeps_told l e (crossword_notify (e\<lparr>ce_state := st\<rparr>))"
proof -
  have "attached l (crossword_notify (e\<lparr>ce_state := st\<rparr>))" using assms(1,2)
    by (simp add: attached_def crossword_notify_def subject_wf_steps)
  moreover have "told l (ce_subject (crossword_notify (e\<lparr>ce_state := st\<rparr>))) = told l (ce_subject e) @ [st]"
    using assms(1) by (simp add: attached_def crossword_notify_def told_notify)
  moreover have "news_ok e (crossword_notify (e\<lparr>ce_state := st\<rparr>)) [st]"
    using assms(2,3) by (auto simp: news_ok_def ce_inv_def)
  ultimately show ?thesis by (auto simp: keeps_told_def)
qed

lemma news_ok_append:
  "news_ok e e1 n1 \<Longrightarrow> news_ok e1 e2 n2 \<Longrightarrow> ce_layout e1 = ce_layout e \<Longrightarrow> news_ok e e2 (n1 @ n2)"
  by (auto simp: news_ok_def last_append)

lemma told_trans: "keeps_told l e e1 \<Longrightarrow> keeps_told l e1 e2 \<Longrightarrow> keeps_told l e e2"
  unfolding keeps_told_def using news_ok_append by fastforce

lemma keeps_select: "attached l e \<Longrightarrow> keeps_told l e (selectCell x y e)"
proof (cases "has_cell (ly_grid (ce_layout e)) (x, y)")
  case False
  then show "attached l e \<Longrightarrow> ?thesis" by (simp add: selectCell_def keeps_same)
next
  case True
  assume a: "attached l e"
  obtain st where st: "selectCell x y e = crossword_notify (e\<lparr>ce_state := st\<rparr>)"
    using True by (simp add: selectCell_def Let_def)
  have "cs_isFinished (ce_state (selectCell x y e)) = cs_isFinished (ce_state e)" by (rule selectCell_fields)
  then have "cs_isFinished st = cs_isFinished (ce_state e)" by (simp add: st)
  moreover have "ce_inv (selectCell x y e)" using a selectCell_inv by (simp add: attached_def)
  ultimately show ?thesis using keeps_notify [OF a] by (simp add: st)
qed

lemma keeps_navigate: "attached l e \<Longrightarrow> keeps_told l e (navigate dx dy e)"
  using keeps_notify [of l e] keeps_same [of l e] navigate_inv [of e dx dy]
  by (auto simp: navigate_def attached_def split: option.splits)

lemma keeps_input: "attached l e \<Longrightarrow> keeps_told l e (inputChar ch e)"
proof (cases ch e rule: inputChar_cases)
  case same
  then show "attached l e \<Longrightarrow> ?thesis" by (simp add: keeps_same)
next
  case (erased x y)
  assume a: "attached l e"
  then have "ce_inv (inputChar ch e)" by (simp add: attached_def inputChar_inv)
  then show ?thesis using keeps_notify [OF a] erased(1,5) by simp
next
  case (written x y c sel)
  assume a: "attached l e"
  then have "ce_inv (inputChar ch e)" by (simp add: attached_def inputChar_inv)
  then show ?thesis using keeps_notify [OF a] written(1,8) by simp
qed

lemma keeps_erase_back:
  "attached l e \<Longrightarrow> keeps_told l e (let e = inputChar [] e
     in if cs_orientation (ce_state e) = Horizontal then navigate (-1) 0 e else navigate 0 (-1) e)"
  using keeps_input [of l e "[]"] keeps_navigate told_trans keeps_attached by (simp add: Let_def)

lemma keeps_key: "attached l e \<Longrightarrow> keeps_told l e (handleKeyDown k e)"
  using keeps_erase_back by (simp add: handleKeyDown_def keeps_navigate keeps_input keeps_same)

lemma keeps_dom: "attached l e \<Longrightarrow> keeps_told l e (handleDomKeyDown k e)" "attached l e \<Longrightarrow> keeps_told l e (handleDomInput v e)"
  using keeps_erase_back by (simp_all add: handleDomKeyDown_def handleDomInput_def keeps_navigate keeps_input keeps_same Let_def)

text \<open>What the callback makes of a list of notifications.\<close>

lemma hears_fold:
  "xs_rects (fold scene_hears news sc) = xs_rects sc" "xs_engine (fold scene_hears news sc) = xs_engine sc"
  "xs_listener (fold scene_hears news sc) = xs_listener sc"
  "xs_view (fold scene_hears news sc) = (if news = [] then xs_view sc else drawState (xs_rects sc) (last news))"
  "xs_finished (fold scene_hears news sc) = xs_finished sc @ map cs_score (filter cs_isFinished news)"
  by (induction news arbitrary: sc) (simp_all add: scene_hears_def Let_def)

text \<open>The scene's invariant: its board is the engine's state, and the end was reported if it came.\<close>

definition scene_shows :: "crossword_scene \<Rightarrow> bool" where
  "scene_shows sc \<longleftrightarrow> (\<exists>l. xs_listener sc = Some l \<and> attached l (xs_engine sc))
     \<and> xs_rects sc = map fst (ly_grid (ce_layout (xs_engine sc))) \<and> xs_rects sc \<noteq> []
     \<and> xs_view sc = drawState (xs_rects sc) (ce_state (xs_engine sc))
     \<and> (xs_finished sc \<noteq> [] \<longleftrightarrow> cs_isFinished (ce_state (xs_engine sc)))
     \<and> (\<forall>n \<in> set (xs_finished sc). n = 10 * length (xs_rects sc))"

lemma finished_score: "cs_inv grid st \<Longrightarrow> cs_isFinished st \<Longrightarrow> cs_score st = 10 * length grid"
  by (simp add: cs_inv_def right_cells_def list_all_iff)

lemma scene_call_shows:
  assumes "scene_shows sc" "\<And>l e. attached l e \<Longrightarrow> keeps_told l e (f e)"
  shows "scene_shows (scene_call f sc)"
proof -
  let ?e = "xs_engine sc"
  obtain l where l: "xs_listener sc = Some l" "attached l ?e" using assms(1) by (auto simp: scene_shows_def)
  obtain news where n: "told l (ce_subject (f ?e)) = told l (ce_subject ?e) @ news" "news_ok ?e (f ?e) news"
      "ce_layout (f ?e) = ce_layout ?e" "attached l (f ?e)"
    using assms(2) [OF l(2)] by (auto simp: keeps_told_def)
  have call: "scene_call f sc = fold scene_hears news (sc\<lparr>xs_engine := f ?e\<rparr>)"
    by (simp add: scene_call_def Let_def l(1) n(1))
  have rects: "xs_rects sc = map fst (ly_grid (ce_layout ?e))" using assms(1) by (simp add: scene_shows_def)
  have ne: "ly_grid (ce_layout ?e) \<noteq> []" using assms(1) rects by (auto simp: scene_shows_def)
  have fin: "xs_finished sc @ map cs_score (filter cs_isFinished news) \<noteq> [] \<longleftrightarrow> cs_isFinished (ce_state (f ?e))"
    using assms(1) n(2) by (auto simp: scene_shows_def news_ok_def filter_empty_conv)
  have scores: "m = 10 * length (xs_rects sc)" if "m \<in> set (map cs_score (filter cs_isFinished news))" for m
    using that n(2) rects by (auto simp: news_ok_def finished_score)
  have view: "xs_view (fold scene_hears news (sc\<lparr>xs_engine := f ?e\<rparr>)) = drawState (xs_rects sc) (ce_state (f ?e))"
    using assms(1) n(2) by (simp add: hears_fold scene_shows_def news_ok_def)
  have "\<forall>m \<in> set (xs_finished sc @ map cs_score (filter cs_isFinished news)). m = 10 * length (xs_rects sc)"
    using scores assms(1) by (auto simp: scene_shows_def)
  then show ?thesis using fin view l(1) n(3,4) rects ne assms(1)
    unfolding call scene_shows_def hears_fold by (simp add: hears_fold)
qed

lemma scene_create_shows:
  assumes "subject_wf (ce_subject e)" "ce_inv e" "ly_grid (ce_layout e) \<noteq> []" "ce_state e = fresh_crossword"
  shows "scene_shows (scene_create l e)"
proof -
  let ?sc = "\<lparr>xs_engine = e, xs_listener = Some l, xs_rects = map fst (ly_grid (ce_layout e)),
    xs_view = map (\<lambda>k. (k, White, [])) (map fst (ly_grid (ce_layout e))), xs_finished = []\<rparr>"
  have "scene_create l e = scene_hears (ce_state e) (?sc\<lparr>xs_engine := crossword_subscribe l e\<rparr>)"
    using assms(3) by (simp add: scene_create_def scene_call_def crossword_subscribe_def told_add)
  then show ?thesis using assms
    by (simp add: scene_shows_def scene_hears_def attached_def crossword_subscribe_def subject_wf_steps ce_inv_def fresh_crossword_def)
qed

lemma scene_act_shows: "scene_shows sc \<Longrightarrow> scene_shows (scene_act ev sc)"
  by (cases ev) (auto intro: scene_call_shows keeps_select keeps_key keeps_dom)

lemma scene_run_shows: "scene_shows sc \<Longrightarrow> scene_shows (fold scene_act evs sc)"
  by (induction evs arbitrary: sc) (simp_all add: scene_act_shows)

lemma scene_call_engine [simp]: "xs_engine (scene_call f sc) = f (xs_engine sc)"
  by (simp add: scene_call_def Let_def hears_fold split: option.splits)

lemma dom_layout [simp]: "ce_layout (handleDomKeyDown k e) = ce_layout e" "ce_layout (handleDomInput v e) = ce_layout e"
  by (simp_all add: handleDomKeyDown_def handleDomInput_def Let_def)

lemma scene_act_layout: "ce_layout (xs_engine (scene_act ev sc)) = ce_layout (xs_engine sc)"
  by (cases ev) simp_all

lemma scene_run_layout: "ce_layout (xs_engine (fold scene_act evs sc)) = ce_layout (xs_engine sc)"
  by (induction evs arbitrary: sc) (simp_all add: scene_act_layout)

text \<open>C18: What is on the board is what the engine holds: after any sequence of clicks, keys and inputs of the hidden field, every cell
  of the scene shows the letter typed there, green if it is right, yellow if it is selected and not yet
  right, white otherwise; and the end is reported exactly if the crossword is solved, with the full score.\<close>

theorem crossword_screen_in_step:
  assumes "ly_grid (buildCrosswordLayout words) \<noteq> []"
  shows "let sc = fold scene_act evs (scene_create l (crossword_new words)); st = ce_state (xs_engine sc);
             cells = map fst (ly_grid (buildCrosswordLayout words)) in
    xs_view sc = drawState cells st
    \<and> (xs_finished sc \<noteq> [] \<longleftrightarrow> list_all (cell_right (cs_userGrid st)) (ly_grid (buildCrosswordLayout words)))
    \<and> (\<forall>n \<in> set (xs_finished sc). n = 10 * length cells)"
proof -
  let ?g = "ly_grid (buildCrosswordLayout words)"
  let ?sc = "fold scene_act evs (scene_create l (crossword_new words))"
  have "scene_shows (scene_create l (crossword_new words))"
    using assms crossword_new_inv by (intro scene_create_shows) (simp_all add: crossword_new_def)
  then have s: "scene_shows ?sc" by (rule scene_run_shows)
  moreover have "ce_layout (xs_engine ?sc) = buildCrosswordLayout words"
    unfolding scene_run_layout by (simp add: scene_create_def crossword_new_def crossword_subscribe_def Let_def)
  ultimately show ?thesis using assms by (auto simp: scene_shows_def attached_def ce_inv_def cs_inv_def Let_def)
qed

theorem crossword_screen_in_step_witness:
  "let sc = fold scene_act [ClickCell 0 0, SceneKey ''s''] (scene_create 0 (crossword_new [\<lparr>cw_word = ''sol'', cw_clue = ''a''\<rparr>,
         \<lparr>cw_word = ''luna'', cw_clue = ''b''\<rparr>])) in
    xs_view sc = drawState (map fst (ly_grid (buildCrosswordLayout [\<lparr>cw_word = ''sol'', cw_clue = ''a''\<rparr>,
         \<lparr>cw_word = ''luna'', cw_clue = ''b''\<rparr>]))) (ce_state (xs_engine sc))"
proof -
  have "ly_grid (buildCrosswordLayout [\<lparr>cw_word = ''sol'', cw_clue = ''a''\<rparr>, \<lparr>cw_word = ''luna'', cw_clue = ''b''\<rparr>]) \<noteq> []"
    by code_simp
  from crossword_screen_in_step [OF this, of "[ClickCell 0 0, SceneKey ''s'']" 0] show ?thesis by (simp add: Let_def)
qed

section \<open>The layout of the board\<close>

lemma cellSize_range: "28 \<le> crossword_cellSize w h cells" "crossword_cellSize w h cells \<le> 54"
  by (simp_all add: crossword_cellSize_def grid_bounds_def Let_def)

text \<open>Cells do not overlap: different cells are at least one cell size apart in some direction.\<close>

lemma cells_apart:
  assumes "c \<noteq> d" "cell_position s b c = (px, py)" "cell_position s b d = (qx, qy)" "0 < s"
  shows "s \<le> \<bar>px - qx\<bar> \<or> s \<le> \<bar>py - qy\<bar>"
proof -
  obtain x0 y0 m where b: "b = (x0, y0, m)" by (cases b) auto
  have "px - qx = (fst c - fst d) * s" "py - qy = (snd c - snd d) * s"
    using assms(2,3) by (auto simp: cell_position_def b algebra_simps)
  moreover have "1 \<le> \<bar>fst c - fst d\<bar> \<or> 1 \<le> \<bar>snd c - snd d\<bar>"
    using assms(1) by (cases c; cases d) auto
  ultimately show ?thesis using assms(4) mult_right_mono [of 1 _ s] by (auto simp: abs_mult)
qed

text \<open>After \<open>shutdown\<close> the engine no longer tells the scene anything.\<close>

lemma shutdown_deaf:
  "xs_listener sc = Some l \<Longrightarrow> l \<notin> set (listeners (ce_subject (xs_engine (scene_shutdown sc))))"
  by (simp add: scene_shutdown_def subject_remove_def)

end
