(* ===== verification/WordSearch.thy ===== *)
theory WordSearch
  imports Puzzle JsText
begin

text \<open>
  The word search: the class \<open>WordSearchEngine\<close> of \<open>packages/engine/src/games/WordSearchEngine.ts\<close>.
  Words are normalised, placed longest first on straight lines (at most 500 random attempts each), the
  rest of the grid is filled with random letters, and a selected line counts in either reading direction.
\<close>

section \<open>State\<close>

type_synonym letter_grid = "string list list"

record word_search_state =
  ws_grid :: letter_grid
  ws_words :: "string list"
  ws_foundWords :: "string list"
  ws_isFinished :: bool
  ws_score :: nat
  ws_width :: nat
  ws_height :: nat

record word_search_engine =
  we_state :: word_search_state
  we_seed :: rat
  we_subject :: "word_search_state subject"

section \<open>Operations\<close>

definition ascii_letter :: "char \<Rightarrow> bool" where
  "ascii_letter c \<longleftrightarrow> is_lower c \<or> is_upper c"

definition normalizeWord :: "string \<Rightarrow> string" where
  "normalizeWord word = to_upper (filter ascii_letter (strip_accents word))"

definition word_search_random :: "rat \<Rightarrow> rat \<times> rat" where
  "word_search_random seed =
     (let seed' = lcg_step 9301 49297 233280 seed in (fl (seed' / 233280), seed'))"

text \<open>\<open>grid[y][x]\<close>; \<open>None\<close> stands for \<open>undefined\<close> or a missing row.\<close>

definition grid_cell :: "letter_grid \<Rightarrow> int \<Rightarrow> int \<Rightarrow> string option" where
  "grid_cell g x y =
     (if 0 \<le> y \<and> y < int (length g) \<and> 0 \<le> x \<and> x < int (length (g ! nat y))
      then Some (g ! nat y ! nat x) else None)"

definition set_cell :: "letter_grid \<Rightarrow> int \<Rightarrow> int \<Rightarrow> string \<Rightarrow> letter_grid" where
  "set_cell g x y c = g[nat y := (g ! nat y)[nat x := c]]"

definition ws_canPlaceWord :: "nat \<Rightarrow> nat \<Rightarrow> letter_grid \<Rightarrow> string \<Rightarrow> int \<Rightarrow> int \<Rightarrow> int \<Rightarrow> int \<Rightarrow> bool" where
  "ws_canPlaceWord width height g word x y dx dy =
     list_all (\<lambda>i. let cx = x + int i * dx; cy = y + int i * dy
                   in \<not> (cx < 0 \<or> cx \<ge> int width \<or> cy < 0 \<or> cy \<ge> int height)
                      \<and> (grid_cell g cx cy = Some [] \<or> grid_cell g cx cy = Some [word ! i]))
       [0..<length word]"

definition ws_placeWord :: "letter_grid \<Rightarrow> string \<Rightarrow> int \<Rightarrow> int \<Rightarrow> int \<Rightarrow> int \<Rightarrow> letter_grid" where
  "ws_placeWord g word x y dx dy =
     foldl (\<lambda>g i. set_cell g (x + int i * dx) (y + int i * dy) [word ! i]) g [0..<length word]"

text \<open>\<open>while (!placed && attempts < 500)\<close>; the first argument counts the attempts left.\<close>

fun place_attempts :: "nat \<Rightarrow> nat \<Rightarrow> nat \<Rightarrow> string \<Rightarrow> letter_grid \<Rightarrow> rat \<Rightarrow> bool \<times> letter_grid \<times> rat" where
  "place_attempts 0 width height word g seed = (False, g, seed)"
| "place_attempts (Suc n) width height word g seed =
     (let (r, seed) = word_search_random seed;
          dir = rand_index r 3;
          dx = (if dir = 0 then 1 else if dir = 1 then 0 else 1);
          dy = (if dir = 0 then 0 else if dir = 1 then 1 else 1);
          maxX = int width - int (length word) * dx;
          maxY = int height - int (length word) * dy
      in if maxX < 0 \<or> maxY < 0 then place_attempts n width height word g seed
         else let (rx, seed) = word_search_random seed;
                  (ry, seed) = word_search_random seed;
                  startX = rand_index rx (nat (maxX + 1));
                  startY = rand_index ry (nat (maxY + 1))
              in if ws_canPlaceWord width height g word startX startY dx dy
                 then (True, ws_placeWord g word startX startY dx dy, seed)
                 else place_attempts n width height word g seed)"

fun place_words :: "nat \<Rightarrow> nat \<Rightarrow> string list \<Rightarrow> letter_grid \<Rightarrow> rat \<Rightarrow> string list \<Rightarrow> letter_grid \<times> rat \<times> string list" where
  "place_words width height [] g seed placed = (g, seed, placed)"
| "place_words width height (word # words) g seed placed =
     (let (ok, g, seed) = place_attempts 500 width height word g seed
      in place_words width height words g seed (if ok then placed @ [word] else placed))"

definition fill_letters :: string where
  "fill_letters = ''ABCDEFGHIJKLMNOPQRSTUVWXYZ''"

fun fill_row :: "string list \<Rightarrow> rat \<Rightarrow> (string list \<times> rat) res" where
  "fill_row [] seed = Inr ([], seed)"
| "fill_row (c # cs) seed =
     (if c = [] then
        let (r, seed) = word_search_random seed; k = rand_index r (length fill_letters)
        in if 0 \<le> k \<and> k < int (length fill_letters)
           then bind_res (fill_row cs seed) (\<lambda>(cs, seed). Inr ([fill_letters ! nat k] # cs, seed))
           else Inl UndefinedSlot
      else bind_res (fill_row cs seed) (\<lambda>(cs, seed). Inr (c # cs, seed)))"

fun fill_rows :: "letter_grid \<Rightarrow> rat \<Rightarrow> (letter_grid \<times> rat) res" where
  "fill_rows [] seed = Inr ([], seed)"
| "fill_rows (row # rows) seed =
     bind_res (fill_row row seed)
       (\<lambda>(row, seed). bind_res (fill_rows rows seed) (\<lambda>(rows, seed). Inr (row # rows, seed)))"

definition generateGrid :: "word_search_engine \<Rightarrow> word_search_engine res" where
  "generateGrid e =
     (let st = we_state e;
          sortedWords = sort_key (\<lambda>w. - int (length w)) (ws_words st);
          (g, seed, placedWords) = place_words (ws_width st) (ws_height st) sortedWords (ws_grid st) (we_seed e) []
      in bind_res (fill_rows g seed)
           (\<lambda>(g, seed). Inr (e\<lparr>we_state := st\<lparr>ws_words := placedWords, ws_grid := g\<rparr>, we_seed := seed\<rparr>)))"

definition word_search_new :: "string list \<Rightarrow> nat \<Rightarrow> nat \<Rightarrow> rat \<Rightarrow> word_search_engine res" where
  "word_search_new words width height seed =
     (if words = [] then Inl (JsError ''Invalid configuration: no words provided'')
      else generateGrid
        \<lparr>we_state = \<lparr>ws_grid = replicate height (replicate width []),
           ws_words = rev (remdups (rev (map normalizeWord words))), ws_foundWords = [],
           ws_isFinished = False, ws_score = 0, ws_width = width, ws_height = height\<rparr>,
         we_seed = seed, we_subject = new_subject\<rparr>)"

definition word_search_notify :: "word_search_engine \<Rightarrow> word_search_engine" where
  "word_search_notify e = e\<lparr>we_subject := subject_notify (we_state e) (we_subject e)\<rparr>"

text \<open>
  \<open>map(pos => grid[pos.y][pos.x]).join('')\<close>: a missing row is a TypeError, a missing column joins as
  the empty string.
\<close>

definition read_cell :: "letter_grid \<Rightarrow> int \<times> int \<Rightarrow> string res" where
  "read_cell g = (\<lambda>(x, y). if y < 0 \<or> y \<ge> int (length g) then Inl TypeErr
     else Inr (case grid_cell g x y of None \<Rightarrow> [] | Some c \<Rightarrow> c))"

definition checkWord :: "(int \<times> int) list \<Rightarrow> word_search_engine \<Rightarrow> word_search_engine res" where
  "checkWord selectedLetters e =
     (let st = we_state e in
      if ws_isFinished st then Inr e
      else bind_res (map_res (read_cell (ws_grid st)) selectedLetters) (\<lambda>cells.
        let wordStr = concat cells; wordStrRev = rev wordStr;
            found = (\<lambda>w. st\<lparr>ws_foundWords := ws_foundWords st @ [w], ws_score := ws_score st + 100\<rparr>);
            (updated, st) =
              (if wordStr \<in> set (ws_words st) \<and> wordStr \<notin> set (ws_foundWords st) then (True, found wordStr)
               else if wordStrRev \<in> set (ws_words st) \<and> wordStrRev \<notin> set (ws_foundWords st)
               then (True, found wordStrRev) else (False, st))
        in Inr (if updated
                then word_search_notify (e\<lparr>we_state :=
                       (if length (ws_foundWords st) = length (ws_words st)
                        then st\<lparr>ws_isFinished := True\<rparr> else st)\<rparr>)
                else e)))"

definition word_search_subscribe :: "nat \<Rightarrow> word_search_engine \<Rightarrow> word_search_engine" where
  "word_search_subscribe l e = e\<lparr>we_subject := subject_add l (we_state e) (we_subject e)\<rparr>"

definition word_search_reset :: "word_search_engine \<Rightarrow> word_search_engine" where
  "word_search_reset e = word_search_notify
     (e\<lparr>we_state := (we_state e)\<lparr>ws_foundWords := [], ws_score := 0, ws_isFinished := False\<rparr>\<rparr>)"

definition word_search_destroy :: "word_search_engine \<Rightarrow> word_search_engine" where
  "word_search_destroy e = e\<lparr>we_subject := subject_clear (we_subject e)\<rparr>"


section \<open>Cells\<close>

definition grid_ok :: "nat \<Rightarrow> nat \<Rightarrow> letter_grid \<Rightarrow> bool" where
  "grid_ok width height g \<longleftrightarrow> length g = height \<and> (\<forall>row \<in> set g. length row = width)"

lemma grid_okD:
  assumes "grid_ok width height g" "0 \<le> y" "y < int height"
  shows "length (g ! nat y) = width"
  using assms by (simp add: grid_ok_def nat_less_iff)

lemma grid_cell_range:
  "grid_ok width height g \<Longrightarrow>
   grid_cell g x y \<noteq> None \<longleftrightarrow> 0 \<le> x \<and> x < int width \<and> 0 \<le> y \<and> y < int height"
  by (auto simp: grid_cell_def grid_okD) (auto simp: grid_ok_def)

lemma grid_ok_set [intro]: "grid_ok width height g \<Longrightarrow> grid_ok width height (set_cell g x y c)"
proof (cases "nat y < length g")
  case True
  assume ok: "grid_ok width height g"
  then have "length (g ! nat y) = width" using True by (auto simp: grid_ok_def)
  then show ?thesis using ok by (auto simp: grid_ok_def set_cell_def dest!: set_update_subset_insert [THEN subsetD])
next
  case False
  then show "grid_ok width height g \<Longrightarrow> ?thesis" by (simp add: set_cell_def list_update_beyond)
qed

lemma grid_cell_set:
  assumes "grid_ok width height g" "0 \<le> x" "x < int width" "0 \<le> y" "y < int height"
  shows "grid_cell (set_cell g x y c) x' y' = (if x' = x \<and> y' = y then Some c else grid_cell g x' y')"
proof -
  have l: "length g = height" "length (g ! nat y) = width"
    using assms by (simp_all add: grid_okD) (simp add: grid_ok_def)
  show ?thesis
  proof (cases "nat y' = nat y \<and> 0 \<le> y'")
    case True
    then have "y' = y" using assms(4) by auto
    then show ?thesis using l assms
      by (auto simp: grid_cell_def set_cell_def nth_list_update nat_less_iff eq_nat_nat_iff)
  next
    case False
    then show ?thesis using l assms
      by (auto simp: grid_cell_def set_cell_def nth_list_update)
  qed
qed

section \<open>Placing one word\<close>

definition on_line :: "int \<Rightarrow> int \<Rightarrow> int \<Rightarrow> int \<Rightarrow> nat \<Rightarrow> int \<times> int" where
  "on_line x y dx dy i = (x + int i * dx, y + int i * dy)"

text \<open>A word reads along a line of the grid.\<close>

definition reads :: "letter_grid \<Rightarrow> string \<Rightarrow> int \<Rightarrow> int \<Rightarrow> int \<Rightarrow> int \<Rightarrow> bool" where
  "reads g w x y dx dy \<longleftrightarrow>
     list_all (\<lambda>i. grid_cell g (x + int i * dx) (y + int i * dy) = Some [w ! i]) [0..<length w]"

lemma reads_nth: "reads g w x y dx dy \<Longrightarrow> i < length w \<Longrightarrow> grid_cell g (x + int i * dx) (y + int i * dy) = Some [w ! i]"
  by (simp add: reads_def list_all_iff)

definition direction :: "int \<Rightarrow> int \<Rightarrow> bool" where
  "direction dx dy \<longleftrightarrow> (dx, dy) \<in> {(1, 0), (0, 1), (1, 1)}"

text \<open>Letters already in the grid stay: only empty cells change.\<close>

definition keeps_letters :: "letter_grid \<Rightarrow> letter_grid \<Rightarrow> bool" where
  "keeps_letters g g' \<longleftrightarrow> (\<forall>x y c. grid_cell g x y = Some c \<longrightarrow> c \<noteq> [] \<longrightarrow> grid_cell g' x y = Some c)"

lemma keeps_refl [simp]: "keeps_letters g g"
  by (simp add: keeps_letters_def)

lemma keeps_trans [trans]: "keeps_letters a b \<Longrightarrow> keeps_letters b c \<Longrightarrow> keeps_letters a c"
  by (simp add: keeps_letters_def)

lemma keeps_reads: "keeps_letters g g' \<Longrightarrow> reads g w x y dx dy \<Longrightarrow> reads g' w x y dx dy"
  by (simp add: keeps_letters_def reads_def list_all_iff)

lemma canPlace_nth:
  assumes "ws_canPlaceWord width height g w x y dx dy" "i < length w"
  shows "0 \<le> x + int i * dx" "x + int i * dx < int width" "0 \<le> y + int i * dy" "y + int i * dy < int height"
    and "grid_cell g (x + int i * dx) (y + int i * dy) \<in> {Some [], Some [w ! i]}"
proof -
  have "i \<in> set [0..<length w]" using assms(2) by simp
  then have "\<not> (x + int i * dx < 0 \<or> x + int i * dx \<ge> int width \<or> y + int i * dy < 0 \<or> y + int i * dy \<ge> int height)
      \<and> (grid_cell g (x + int i * dx) (y + int i * dy) = Some [] \<or> grid_cell g (x + int i * dx) (y + int i * dy) = Some [w ! i])"
    using assms(1) unfolding ws_canPlaceWord_def list_all_iff Let_def by blast
  then show "0 \<le> x + int i * dx" "x + int i * dx < int width" "0 \<le> y + int i * dy" "y + int i * dy < int height"
    and "grid_cell g (x + int i * dx) (y + int i * dy) \<in> {Some [], Some [w ! i]}"
    by auto
qed

lemma placeWord_prefix:
  assumes ok: "grid_ok width height g" and can: "ws_canPlaceWord width height g w x y dx dy"
    and dir: "direction dx dy" and n: "n \<le> length w"
  defines "g' \<equiv> foldl (\<lambda>g i. set_cell g (x + int i * dx) (y + int i * dy) [w ! i]) g [0..<n]"
  shows "grid_ok width height g'
    \<and> (\<forall>i < n. grid_cell g' (x + int i * dx) (y + int i * dy) = Some [w ! i])
    \<and> (\<forall>px py. (\<forall>i < n. (px, py) \<noteq> on_line x y dx dy i) \<longrightarrow> grid_cell g' px py = grid_cell g px py)"
  unfolding g'_def using n
proof (induction n)
  case 0
  then show ?case using ok by simp
next
  case (Suc n)
  let ?g = "foldl (\<lambda>g i. set_cell g (x + int i * dx) (y + int i * dy) [w ! i]) g [0..<n]"
  let ?x = "x + int n * dx" and ?y = "y + int n * dy"
  have IH: "grid_ok width height ?g" "\<And>i. i < n \<Longrightarrow> grid_cell ?g (x + int i * dx) (y + int i * dy) = Some [w ! i]"
    "\<And>px py. \<forall>i < n. (px, py) \<noteq> on_line x y dx dy i \<Longrightarrow> grid_cell ?g px py = grid_cell g px py"
    using Suc by simp_all
  have r: "0 \<le> ?x" "?x < int width" "0 \<le> ?y" "?y < int height"
    using canPlace_nth [OF can, of n] Suc.prems by simp_all
  have e: "grid_cell (set_cell ?g ?x ?y [w ! n]) px py
      = (if px = ?x \<and> py = ?y then Some [w ! n] else grid_cell ?g px py)" for px py
    using grid_cell_set [OF IH(1) r] .
  have inj: "x + int i * dx \<noteq> ?x \<or> y + int i * dy \<noteq> ?y" if "i < n" for i
    using dir that by (auto simp: direction_def)
  have "grid_cell (set_cell ?g ?x ?y [w ! n]) (x + int i * dx) (y + int i * dy) = Some [w ! i]" if "i < Suc n" for i
    using that IH(2) inj by (cases "i = n") (auto simp: e less_Suc_eq)
  moreover have "grid_cell (set_cell ?g ?x ?y [w ! n]) px py = grid_cell g px py"
    if "\<forall>i < Suc n. (px, py) \<noteq> on_line x y dx dy i" for px py
    using that IH(3) by (auto simp: e on_line_def less_Suc_eq)
  ultimately show ?case using IH(1) by (simp add: grid_ok_set)
qed

lemma ws_placeWord_ok:
  assumes ok: "grid_ok width height g" and can: "ws_canPlaceWord width height g w x y dx dy" and dir: "direction dx dy"
  shows "grid_ok width height (ws_placeWord g w x y dx dy)"
    and "reads (ws_placeWord g w x y dx dy) w x y dx dy"
    and "keeps_letters g (ws_placeWord g w x y dx dy)"
proof -
  note p = placeWord_prefix [OF ok can dir order_refl, folded ws_placeWord_def]
  show "grid_ok width height (ws_placeWord g w x y dx dy)" using p by blast
  show "reads (ws_placeWord g w x y dx dy) w x y dx dy" using p by (simp add: reads_def list_all_iff)
  show "keeps_letters g (ws_placeWord g w x y dx dy)"
    unfolding keeps_letters_def
  proof (intro allI impI)
    fix px py c assume c: "grid_cell g px py = Some c" "c \<noteq> []"
    show "grid_cell (ws_placeWord g w x y dx dy) px py = Some c"
    proof (cases "\<exists>i < length w. (px, py) = on_line x y dx dy i")
      case True
      then obtain i where i: "i < length w" "px = x + int i * dx" "py = y + int i * dy" by (auto simp: on_line_def)
      then have "c = [w ! i]" using canPlace_nth(5) [OF can, of i] c by auto
      then show ?thesis using p i by simp
    next
      case False
      then show ?thesis using p c(1) by auto
    qed
  qed
qed

section \<open>Placing all words\<close>

lemma word_search_random_eq: "word_search_random = puzzle_random"
  by (simp add: fun_eq_iff word_search_random_def puzzle_random_def)

interpretation ws_rng: random_source word_search_random nonneg_int
  unfolding word_search_random_eq by (rule puzzle_rng.random_source_axioms)

definition hidden_in :: "letter_grid \<Rightarrow> string \<Rightarrow> bool" where
  "hidden_in g w \<longleftrightarrow> (\<exists>x y dx dy. direction dx dy \<and> reads g w x y dx dy)"

lemma keeps_hidden: "keeps_letters g g' \<Longrightarrow> hidden_in g w \<Longrightarrow> hidden_in g' w"
  unfolding hidden_in_def using keeps_reads by blast

definition one_letter :: "string \<Rightarrow> bool" where
  "one_letter c \<longleftrightarrow> length c = 1 \<and> list_all is_upper c"

text \<open>Cells hold nothing or one capital letter.\<close>

definition letters_only :: "letter_grid \<Rightarrow> bool" where
  "letters_only g \<longleftrightarrow> (\<forall>x y c. grid_cell g x y = Some c \<longrightarrow> c = [] \<or> one_letter c)"

lemma placeWord_letters:
  assumes "grid_ok width height g" "ws_canPlaceWord width height g w x y dx dy" "direction dx dy"
    and "letters_only g" "list_all is_upper w"
  shows "letters_only (ws_placeWord g w x y dx dy)"
  unfolding letters_only_def
proof (intro allI impI)
  note p = placeWord_prefix [OF assms(1-3) order_refl, folded ws_placeWord_def]
  fix px py c assume c: "grid_cell (ws_placeWord g w x y dx dy) px py = Some c"
  show "c = [] \<or> one_letter c"
  proof (cases "\<exists>i < length w. (px, py) = on_line x y dx dy i")
    case True
    then obtain i where "i < length w" "c = [w ! i]" using p c by (auto simp: on_line_def)
    then show ?thesis using assms(5) by (simp add: one_letter_def list_all_length)
  next
    case False
    then have "grid_cell g px py = Some c" using p c by auto
    then show ?thesis using assms(4) by (simp add: letters_only_def)
  qed
qed

text \<open>One attempt: it fails and the loop goes on, or it places the word.\<close>

lemma place_attempts_Suc_cases:
  obtains (fail) s' where "place_attempts (Suc n) width height w g seed = place_attempts n width height w g s'"
      "nonneg_int seed \<Longrightarrow> nonneg_int s'"
  | (hit) x y dx dy s' where "direction dx dy" "ws_canPlaceWord width height g w x y dx dy"
      "place_attempts (Suc n) width height w g seed = (True, ws_placeWord g w x y dx dy, s')"
      "nonneg_int seed \<Longrightarrow> nonneg_int s'"
proof -
  obtain r1 s1 where r1: "word_search_random seed = (r1, s1)" by fastforce
  obtain r2 s2 where r2: "word_search_random s1 = (r2, s2)" by fastforce
  obtain r3 s3 where r3: "word_search_random s2 = (r3, s3)" by fastforce
  have s: "nonneg_int seed \<Longrightarrow> nonneg_int s1" "nonneg_int seed \<Longrightarrow> nonneg_int s3"
    using ws_rng.rnd_ok r1 r2 r3 by (metis snd_conv)+
  define dx :: int where "dx = (if rand_index r1 3 = 0 then 1 else if rand_index r1 3 = 1 then 0 else 1)"
  define dy :: int where "dy = (if rand_index r1 3 = 0 then 0 else if rand_index r1 3 = 1 then 1 else 1)"
  define mx where "mx = int width - int (length w) * dx"
  define my where "my = int height - int (length w) * dy"
  let ?x = "rand_index r2 (nat (mx + 1))" and ?y = "rand_index r3 (nat (my + 1))"
  have dir: "direction dx dy" by (simp add: direction_def dx_def dy_def)
  have step: "place_attempts (Suc n) width height w g seed =
      (if mx < 0 \<or> my < 0 then place_attempts n width height w g s1
       else if ws_canPlaceWord width height g w ?x ?y dx dy then (True, ws_placeWord g w ?x ?y dx dy, s3)
       else place_attempts n width height w g s3)"
    by (simp add: r1 r2 r3 Let_def dx_def dy_def mx_def my_def cong: if_cong)
  consider "mx < 0 \<or> my < 0" | "\<not> (mx < 0 \<or> my < 0)" "ws_canPlaceWord width height g w ?x ?y dx dy"
    | "\<not> (mx < 0 \<or> my < 0)" "\<not> ws_canPlaceWord width height g w ?x ?y dx dy" by blast
  then show thesis
  proof cases
    case 1
    with step s show thesis by (intro fail [of s1]) simp_all
  next
    case 2
    with step s dir show thesis by (intro hit [of dx dy ?x ?y s3]) simp_all
  next
    case 3
    with step s show thesis by (intro fail [of s3]) simp_all
  qed
qed

lemma place_attempts_ok:
  assumes "grid_ok width height g" "letters_only g" "list_all is_upper w"
  shows "place_attempts n width height w g seed = (done, g', seed') \<Longrightarrow>
    grid_ok width height g' \<and> letters_only g' \<and> keeps_letters g g' \<and> (done \<longrightarrow> hidden_in g' w)
    \<and> (nonneg_int seed \<longrightarrow> nonneg_int seed')"
proof (induction n arbitrary: seed)
  case 0
  then show ?case using assms by simp
next
  case (Suc n)
  show ?case
  proof (cases n width height w g seed rule: place_attempts_Suc_cases)
    case (fail s')
    then show ?thesis using Suc.IH [of s'] Suc.prems by simp
  next
    case (hit x y dx dy s')
    then have "done" "g' = ws_placeWord g w x y dx dy" "seed' = s'" using Suc.prems by auto
    then show ?thesis
      using ws_placeWord_ok [OF assms(1) hit(2,1)] placeWord_letters [OF assms(1) hit(2,1) assms(2,3)] hit(1,4)
      unfolding hidden_in_def by blast
  qed
qed

lemma place_words_ok:
  assumes "place_words width height words g seed placed = (g', seed', placed')"
    and "grid_ok width height g" "letters_only g" "\<forall>w \<in> set words. list_all is_upper w"
    and "\<forall>w \<in> set placed. hidden_in g w"
  shows "grid_ok width height g' \<and> letters_only g' \<and> (\<forall>w \<in> set placed'. hidden_in g' w)
    \<and> mset placed' \<subseteq># mset placed + mset words \<and> (nonneg_int seed \<longrightarrow> nonneg_int seed')"
  using assms
proof (induction width height words g seed placed rule: place_words.induct)
  case (1 width height g seed placed)
  then show ?case by simp
next
  case (2 width height w words g seed placed)
  obtain ok g1 s1 where a: "place_attempts 500 width height w g seed = (ok, g1, s1)" by (metis prod_cases3)
  have k: "grid_ok width height g1 \<and> letters_only g1 \<and> keeps_letters g g1 \<and> (ok \<longrightarrow> hidden_in g1 w)
      \<and> (nonneg_int seed \<longrightarrow> nonneg_int s1)"
    using place_attempts_ok [OF _ _ _ a] "2.prems" by simp
  then have "\<forall>v \<in> set (if ok then placed @ [w] else placed). hidden_in g1 v"
    using "2.prems"(5) keeps_hidden [of g g1] by auto
  then have "grid_ok width height g' \<and> letters_only g' \<and> (\<forall>w \<in> set placed'. hidden_in g' w)
      \<and> mset placed' \<subseteq># mset (if ok then placed @ [w] else placed) + mset words
      \<and> (nonneg_int s1 \<longrightarrow> nonneg_int seed')"
    using k "2.prems" a by (intro "2.IH" [of "(ok, g1, s1)" ok "(g1, s1)" g1 s1]) (simp_all split: if_splits)
  moreover have "mset (if ok then placed @ [w] else placed) + mset words \<subseteq># mset placed + mset (w # words)"
    by simp
  ultimately show ?case using k subset_mset.order_trans by blast
qed

section \<open>Filling\<close>

definition fills :: "string list \<Rightarrow> string list \<Rightarrow> bool" where
  "fills = list_all2 (\<lambda>c c'. if c = [] then one_letter c' else c' = c)"

lemma fill_letters_ok: "k < 26 \<Longrightarrow> one_letter [fill_letters ! k]"
proof -
  have "list_all is_upper fill_letters" by code_simp
  moreover assume "k < 26"
  moreover have "length fill_letters = 26" by code_simp
  ultimately show ?thesis by (simp add: one_letter_def list_all_length)
qed

lemma fill_row_total:
  "nonneg_int seed \<Longrightarrow> \<exists>row' seed'. fill_row row seed = Inr (row', seed') \<and> nonneg_int seed' \<and> fills row row'"
proof (induction row arbitrary: seed)
  case Nil
  then show ?case by (simp add: fills_def)
next
  case (Cons c row)
  have len: "length fill_letters = 26" by code_simp
  show ?case
  proof (cases "c = []")
    case True
    let ?r = "word_search_random seed"
    have k: "0 \<le> rand_index (fst ?r) 26" "rand_index (fst ?r) 26 < 26"
      using ws_rng.index_range [OF Cons.prems, of 26] by simp_all
    obtain row' seed' where r: "fill_row row (snd ?r) = Inr (row', seed')" "nonneg_int seed'" "fills row row'"
      using Cons.IH [OF ws_rng.rnd_ok [OF Cons.prems]] by blast
    have "one_letter [fill_letters ! nat (rand_index (fst ?r) 26)]" using k by (intro fill_letters_ok) simp
    then show ?thesis using True k r len by (simp add: Let_def case_prod_beta fills_def)
  next
    case False
    obtain row' seed' where r: "fill_row row seed = Inr (row', seed')" "nonneg_int seed'" "fills row row'"
      using Cons by blast
    then show ?thesis using False by (simp add: fills_def)
  qed
qed

lemma fill_rows_total:
  "nonneg_int seed \<Longrightarrow> \<exists>g' seed'. fill_rows g seed = Inr (g', seed') \<and> nonneg_int seed' \<and> list_all2 fills g g'"
proof (induction g arbitrary: seed)
  case Nil
  then show ?case by simp
next
  case (Cons row g)
  obtain row' s1 where 1: "fill_row row seed = Inr (row', s1)" "nonneg_int s1" "fills row row'"
    using fill_row_total [OF Cons.prems] by blast
  then obtain g' s2 where "fill_rows g s1 = Inr (g', s2)" "nonneg_int s2" "list_all2 fills g g'"
    using Cons.IH by blast
  then show ?case using 1 by simp
qed

lemma fills_shape:
  assumes "list_all2 fills g g'"
  shows "length g' = length g" "k < length g \<Longrightarrow> length (g' ! k) = length (g ! k)"
    "k < length g \<Longrightarrow> i < length (g ! k) \<Longrightarrow> if g ! k ! i = [] then one_letter (g' ! k ! i) else g' ! k ! i = g ! k ! i"
proof -
  show "length g' = length g" using list_all2_lengthD [OF assms] by simp
next
  assume "k < length g"
  then have row: "fills (g ! k) (g' ! k)" by (rule list_all2_nthD [OF assms])
  then have eq: "length (g ! k) = length (g' ! k)" unfolding fills_def by (rule list_all2_lengthD)
  show "length (g' ! k) = length (g ! k)" by (rule eq [symmetric])
  show "if g ! k ! i = [] then one_letter (g' ! k ! i) else g' ! k ! i = g ! k ! i" if "i < length (g ! k)"
    using row that unfolding fills_def by (rule list_all2_nthD)
qed

lemma fills_cell:
  assumes f: "list_all2 fills g g'"
  shows "grid_cell g' x y = map_option (\<lambda>_. g' ! nat y ! nat x) (grid_cell g x y)"
    and "grid_cell g x y = Some c \<Longrightarrow> if c = [] then one_letter (g' ! nat y ! nat x) else g' ! nat y ! nat x = c"
proof -
  have in_eq: "(0 \<le> y \<and> y < int (length g') \<and> 0 \<le> x \<and> x < int (length (g' ! nat y)))
      \<longleftrightarrow> (0 \<le> y \<and> y < int (length g) \<and> 0 \<le> x \<and> x < int (length (g ! nat y)))"
  proof (cases "0 \<le> y \<and> y < int (length g)")
    case True
    then have "nat y < length g" by linarith
    then show ?thesis using fills_shape(1) [OF f] fills_shape(2) [OF f, of "nat y"] by simp
  next
    case False
    then show ?thesis using fills_shape(1) [OF f] by auto
  qed
  show "grid_cell g' x y = map_option (\<lambda>_. g' ! nat y ! nat x) (grid_cell g x y)"
    unfolding grid_cell_def in_eq by simp
  assume c: "grid_cell g x y = Some c"
  then have "0 \<le> y \<and> y < int (length g) \<and> 0 \<le> x \<and> x < int (length (g ! nat y))" and ce: "c = g ! nat y ! nat x"
    unfolding grid_cell_def by (auto split: if_splits)
  then have "nat y < length g" "nat x < length (g ! nat y)" by linarith+
  then show "if c = [] then one_letter (g' ! nat y ! nat x) else g' ! nat y ! nat x = c"
    unfolding ce by (rule fills_shape(3) [OF f])
qed

lemma fills_keeps: "list_all2 fills g g' \<Longrightarrow> keeps_letters g g'"
  unfolding keeps_letters_def
proof (intro allI impI)
  fix x y c assume f: "list_all2 fills g g'" and c: "grid_cell g x y = Some c" "c \<noteq> []"
  show "grid_cell g' x y = Some c"
    unfolding fills_cell(1) [OF f] using fills_cell(2) [OF f c(1)] c by simp
qed

lemma fills_full:
  assumes "list_all2 fills g g'" "letters_only g" "grid_cell g' x y = Some c"
  shows "one_letter c"
proof -
  obtain b where b: "grid_cell g x y = Some b" and c: "c = g' ! nat y ! nat x"
    using assms(3) fills_cell(1) [OF assms(1)] by auto
  have "if b = [] then one_letter c else c = b" using fills_cell(2) [OF assms(1) b] c by simp
  moreover have "b = [] \<or> one_letter b" using assms(2) b by (simp add: letters_only_def)
  ultimately show ?thesis by (auto split: if_splits)
qed

lemma fills_grid_ok:
  assumes "list_all2 fills g g'" "grid_ok width height g"
  shows "grid_ok width height g'"
proof -
  have "length (g' ! k) = width" if "k < length g'" for k
    using fills_shape [OF assms(1)] assms(2) that by (simp add: grid_ok_def)
  then show ?thesis using fills_shape(1) [OF assms(1)] assms(2) by (auto simp: grid_ok_def in_set_conv_nth)
qed


section \<open>The engine\<close>

lemma upper_char_letter: "ascii_letter c \<Longrightarrow> list_all is_upper (upper_char c)"
  by (auto simp: ascii_letter_def upper_char_def is_upper_def is_lower_def)

lemma normalizeWord_upper: "list_all is_upper (normalizeWord w)"
  using upper_char_letter by (fastforce simp: normalizeWord_def to_upper_def list_all_iff)

text \<open>
  The invariant of a started game: the grid is full of capital letters and has the declared size, every
  word to find is hidden in it, the words found are different words of the list, the score is a hundred
  per word found, and the game is finished exactly when all words (at least one) are found.
\<close>

definition ws_board :: "word_search_state \<Rightarrow> bool" where
  "ws_board st \<longleftrightarrow> grid_ok (ws_width st) (ws_height st) (ws_grid st)
     \<and> (\<forall>x y c. grid_cell (ws_grid st) x y = Some c \<longrightarrow> one_letter c)
     \<and> (\<forall>w \<in> set (ws_words st). hidden_in (ws_grid st) w) \<and> distinct (ws_words st)"

definition ws_progress :: "word_search_state \<Rightarrow> bool" where
  "ws_progress st \<longleftrightarrow> set (ws_foundWords st) \<subseteq> set (ws_words st) \<and> distinct (ws_foundWords st)
     \<and> ws_score st = 100 * length (ws_foundWords st)
     \<and> (ws_isFinished st \<longleftrightarrow> ws_words st \<noteq> [] \<and> set (ws_foundWords st) = set (ws_words st))"

lemma mset_subset_distinct: "mset xs \<subseteq># mset ys \<Longrightarrow> distinct ys \<Longrightarrow> distinct xs \<and> set xs \<subseteq> set ys"
proof -
  assume sub: "mset xs \<subseteq># mset ys" and d: "distinct ys"
  obtain zs where "mset ys = mset (xs @ zs)"
    using sub by (metis ex_mset mset_append mset_subset_eq_exists_conv)
  then have "distinct (xs @ zs)" "set ys = set (xs @ zs)"
    using d mset_eq_imp_distinct_iff mset_eq_setD by blast+
  then show "distinct xs \<and> set xs \<subseteq> set ys" by simp
qed

lemma grid_cell_replicate: "grid_cell (replicate height (replicate width c)) x y \<in> {None, Some c}"
proof (cases "0 \<le> y \<and> nat y < height")
  case True
  then show ?thesis by (auto simp: grid_cell_def intro!: nth_replicate)
next
  case False
  then show ?thesis by (auto simp: grid_cell_def)
qed

lemma word_search_new_shape:
  assumes "words \<noteq> []" "nonneg_int seed"
  shows "\<exists>e. word_search_new words width height seed = Inr e \<and> ws_board (we_state e) \<and> ws_progress (we_state e)
    \<and> set (ws_words (we_state e)) \<subseteq> set (map normalizeWord words)
    \<and> ws_width (we_state e) = width \<and> ws_height (we_state e) = height \<and> ws_foundWords (we_state e) = []
    \<and> we_subject e = new_subject"
proof -
  let ?g = "replicate height (replicate width ([] :: string))"
  let ?ws = "rev (remdups (rev (map normalizeWord words)))"
  let ?sorted = "sort_key (\<lambda>w. - int (length w)) ?ws"
  obtain g seed' placed where p: "place_words width height ?sorted ?g seed [] = (g, seed', placed)"
    by (metis prod_cases3)
  have up: "\<forall>w \<in> set ?sorted. list_all is_upper w" using normalizeWord_upper by auto
  have ok0: "grid_ok width height ?g" by (simp add: grid_ok_def)
  have l0: "letters_only ?g"
    unfolding letters_only_def
  proof (intro allI impI)
    fix x y c assume "grid_cell ?g x y = Some c"
    then show "c = [] \<or> one_letter c" using grid_cell_replicate [of height width "[]" x y] by auto
  qed
  have k: "grid_ok width height g" "letters_only g" "\<forall>w \<in> set placed. hidden_in g w"
      "mset placed \<subseteq># mset ?sorted" "nonneg_int seed'"
    using place_words_ok [OF p ok0 l0 up] assms(2) by auto
  obtain g' seed2 where f: "fill_rows g seed' = Inr (g', seed2)" "list_all2 fills g g'"
    using fill_rows_total [OF k(5)] by blast
  let ?st = "\<lparr>ws_grid = g', ws_words = placed, ws_foundWords = [], ws_isFinished = False,
    ws_score = 0, ws_width = width, ws_height = height\<rparr>"
  have "word_search_new words width height seed = Inr \<lparr>we_state = ?st, we_seed = seed2, we_subject = new_subject\<rparr>"
    using assms(1) p f(1) by (simp add: word_search_new_def generateGrid_def Let_def)
  moreover have d: "distinct placed \<and> set placed \<subseteq> set ?ws"
    using mset_subset_distinct [OF k(4)] by simp
  moreover have "ws_board ?st"
    using fills_grid_ok [OF f(2) k(1)] fills_full [OF f(2) k(2)] keeps_hidden [OF fills_keeps [OF f(2)]] k(3) d
    by (simp add: ws_board_def)
  moreover have "ws_progress ?st" by (auto simp: ws_progress_def)
  ultimately show ?thesis by auto
qed


lemma ws_notify_simps [simp]: "we_state (word_search_notify e) = we_state e"
  by (simp add: word_search_notify_def)

text \<open>The state after a word is found.\<close>

definition ws_found :: "string \<Rightarrow> word_search_state \<Rightarrow> word_search_state" where
  "ws_found w st =
     (let st = st\<lparr>ws_foundWords := ws_foundWords st @ [w], ws_score := ws_score st + 100\<rparr>
      in if length (ws_foundWords st) = length (ws_words st) then st\<lparr>ws_isFinished := True\<rparr> else st)"

lemma ws_found_fields [simp]:
  "ws_words (ws_found w st) = ws_words st" "ws_grid (ws_found w st) = ws_grid st"
  "ws_width (ws_found w st) = ws_width st" "ws_height (ws_found w st) = ws_height st"
  "ws_foundWords (ws_found w st) = ws_foundWords st @ [w]"
  by (simp_all add: ws_found_def Let_def)

definition new_word :: "word_search_state \<Rightarrow> string \<Rightarrow> bool" where
  "new_word st w \<longleftrightarrow> w \<in> set (ws_words st) \<and> w \<notin> set (ws_foundWords st)"

text \<open>\<open>checkWord\<close> on a selection inside the grid, in one equation.\<close>

lemma checkWord_eq:
  assumes "map_res (read_cell (ws_grid (we_state e))) sel = Inr cells"
  shows "checkWord sel e = Inr
    (if ws_isFinished (we_state e) then e
     else if new_word (we_state e) (concat cells)
     then word_search_notify (e\<lparr>we_state := ws_found (concat cells) (we_state e)\<rparr>)
     else if new_word (we_state e) (rev (concat cells))
     then word_search_notify (e\<lparr>we_state := ws_found (rev (concat cells)) (we_state e)\<rparr>)
     else e)"
  using assms by (auto simp: checkWord_def ws_found_def new_word_def Let_def)

lemma checkWord_cases:
  assumes "checkWord sel e = Inr e'"
  obtains (same) "e' = e"
  | (found) w where "new_word (we_state e) w" "\<not> ws_isFinished (we_state e)"
      "e' = word_search_notify (e\<lparr>we_state := ws_found w (we_state e)\<rparr>)"
proof (cases "ws_isFinished (we_state e)")
  case True
  then show thesis using assms same by (simp add: checkWord_def)
next
  case False
  then obtain cells where "map_res (read_cell (ws_grid (we_state e))) sel = Inr cells"
    using assms by (auto simp: checkWord_def Let_def bind_res_eq_Inr)
  from checkWord_eq [OF this] show thesis using assms same found False by (auto split: if_splits)
qed

lemma ws_found_progress:
  assumes "ws_progress st" "new_word st w" "distinct (ws_words st)"
  shows "ws_progress (ws_found w st)"
proof -
  let ?f = "ws_foundWords st @ [w]"
  have f: "set ?f \<subseteq> set (ws_words st)" "distinct ?f"
    using assms by (auto simp: ws_progress_def new_word_def)
  have "length ?f = length (ws_words st) \<longleftrightarrow> set ?f = set (ws_words st)"
  proof -
    have c: "card (set ?f) = length ?f" "card (set (ws_words st)) = length (ws_words st)"
      using f(2) assms(3) by (simp_all only: distinct_card)
    show ?thesis using c card_subset_eq [OF _ f(1)] by (metis List.finite_set)
  qed
  moreover have "\<not> ws_isFinished st" using assms by (auto simp: ws_progress_def new_word_def)
  moreover have "ws_words st \<noteq> []" using assms by (auto simp: new_word_def)
  ultimately show ?thesis using f assms(1) by (simp add: ws_progress_def ws_found_def Let_def)
qed

lemma checkWord_inv:
  assumes "checkWord sel e = Inr e'" "ws_board (we_state e)" "ws_progress (we_state e)"
  shows "ws_board (we_state e') \<and> ws_progress (we_state e') \<and> ws_words (we_state e') = ws_words (we_state e)
    \<and> ws_grid (we_state e') = ws_grid (we_state e) \<and> ws_width (we_state e') = ws_width (we_state e)
    \<and> ws_height (we_state e') = ws_height (we_state e)
    \<and> set (ws_foundWords (we_state e)) \<subseteq> set (ws_foundWords (we_state e'))"
  using assms(1)
proof (cases rule: checkWord_cases)
  case same
  then show ?thesis using assms by simp
next
  case (found w)
  have "ws_progress (ws_found w (we_state e))"
    using ws_found_progress found(1) assms(2,3) by (simp add: ws_board_def)
  moreover have "ws_board (ws_found w (we_state e))" using assms(2) by (simp add: ws_board_def)
  ultimately show ?thesis using found(3) by auto
qed

text \<open>Reading a line of the grid gives the word hidden there.\<close>

lemma read_line:
  assumes "reads g w x y dx dy"
  shows "map_res (read_cell g) (map (on_line x y dx dy) [0..<length w]) = Inr (map (\<lambda>i. [w ! i]) [0..<length w])"
proof -
  have "read_cell g (on_line x y dx dy i) = Inr [w ! i]" if "i < length w" for i
  proof -
    have c: "grid_cell g (x + int i * dx) (y + int i * dy) = Some [w ! i]" by (rule reads_nth [OF assms that])
    then have "0 \<le> y + int i * dy \<and> y + int i * dy < int (length g)"
      unfolding grid_cell_def by (auto split: if_splits)
    then show ?thesis using c by (auto simp: read_cell_def on_line_def)
  qed
  then show ?thesis by (simp add: map_res_Inr list_all2_conv_all_nth)
qed

lemma concat_singletons: "concat (map (\<lambda>i. [w ! i]) [0..<length w]) = w"
proof -
  have "concat (map (\<lambda>i. [w ! i]) [0..<length w]) = map ((!) w) [0..<length w]"
    by (induction "[0..<length w]") (simp_all add: concat_map_singleton)
  then show ?thesis by (simp add: map_nth)
qed

lemma checkWord_hit:
  assumes "reads (ws_grid (we_state e)) w x y dx dy" "w \<in> set (ws_words (we_state e))"
    and "ws_progress (we_state e)" "ws_board (we_state e)"
  shows "\<exists>e'. checkWord (map (on_line x y dx dy) [0..<length w]) e = Inr e' \<and> w \<in> set (ws_foundWords (we_state e'))"
proof -
  note r = checkWord_eq [OF read_line [OF assms(1)], unfolded concat_singletons]
  consider "w \<in> set (ws_foundWords (we_state e))" | "new_word (we_state e) w" using assms(2) by (auto simp: new_word_def)
  then show ?thesis
  proof cases
    case 1
    obtain e' where e': "checkWord (map (on_line x y dx dy) [0..<length w]) e = Inr e'" using r by blast
    then show ?thesis using checkWord_inv [OF e' assms(4,3)] 1 by blast
  next
    case 2
    then have "\<not> ws_isFinished (we_state e)" using assms(3) by (auto simp: ws_progress_def new_word_def)
    then show ?thesis using r 2 by simp
  qed
qed


text \<open>The empty word is placed at the first attempt, so it stays in the list.\<close>

lemma place_attempts_empty: "fst (place_attempts (Suc n) width height [] g seed)"
  by (simp add: Let_def case_prod_beta ws_canPlaceWord_def)

lemma place_words_keep: "w \<in> set placed \<Longrightarrow> w \<in> set (snd (snd (place_words width height words g seed placed)))"
  by (induction words arbitrary: g seed placed) (simp_all add: Let_def case_prod_beta)

lemma place_words_empty: "[] \<in> set words \<Longrightarrow> [] \<in> set (snd (snd (place_words width height words g seed placed)))"
proof (induction words arbitrary: g seed placed)
  case (Cons w words)
  show ?case
  proof (cases "w = []")
    case True
    then show ?thesis using place_attempts_empty [of 499 width height g seed]
      by (simp add: Let_def case_prod_beta place_words_keep)
  next
    case False
    then show ?thesis using Cons by (simp add: Let_def case_prod_beta)
  qed
qed simp

lemma word_search_new_words:
  assumes "word_search_new words width height seed = Inr e"
  shows "ws_words (we_state e) = snd (snd (place_words width height
    (sort_key (\<lambda>w. - int (length w)) (rev (remdups (rev (map normalizeWord words)))))
    (replicate height (replicate width [])) seed []))"
  using assms by (auto simp: word_search_new_def generateGrid_def Let_def bind_res_eq_Inr split: if_splits prod.splits)

lemma empty_word_kept:
  assumes "word_search_new words width height seed = Inr e" "[] \<in> normalizeWord ` set words"
  shows "[] \<in> set (ws_words (we_state e))"
  unfolding word_search_new_words [OF assms(1)] using assms(2) by (intro place_words_empty) auto

section \<open>Words left out\<close>

text \<open>Every letter of the grid belongs to a reading of one of these words.\<close>

definition covered_by :: "string list \<Rightarrow> letter_grid \<Rightarrow> bool" where
  "covered_by ws g \<longleftrightarrow> (\<forall>px py c. grid_cell g px py = Some c \<longrightarrow> c \<noteq> [] \<longrightarrow>
     (\<exists>w \<in> set ws. \<exists>x y dx dy. direction dx dy \<and> reads g w x y dx dy
        \<and> (px, py) \<in> on_line x y dx dy ` {..<length w}))"

lemma covered_keeps:
  assumes "covered_by ws g" "keeps_letters g g'" "grid_cell g px py = Some c" "c \<noteq> []"
  shows "\<exists>w \<in> set ws. \<exists>x y dx dy. direction dx dy \<and> reads g' w x y dx dy
    \<and> (px, py) \<in> on_line x y dx dy ` {..<length w}"
  using assms keeps_reads unfolding covered_by_def by meson

lemma covered_mono: "covered_by ws g \<Longrightarrow> set ws \<subseteq> set vs \<Longrightarrow> covered_by vs g"
  unfolding covered_by_def by blast

lemma covered_place:
  assumes "covered_by ws g" "grid_ok width height g" "ws_canPlaceWord width height g w x y dx dy" "direction dx dy"
  shows "covered_by (ws @ [w]) (ws_placeWord g w x y dx dy)"
  unfolding covered_by_def
proof (intro allI impI)
  let ?g = "ws_placeWord g w x y dx dy"
  note k = ws_placeWord_ok [OF assms(2,3,4)]
  fix px py c assume c: "grid_cell ?g px py = Some c" "c \<noteq> []"
  show "\<exists>v \<in> set (ws @ [w]). \<exists>x y dx dy. direction dx dy \<and> reads ?g v x y dx dy
      \<and> (px, py) \<in> on_line x y dx dy ` {..<length v}"
  proof (cases "(px, py) \<in> on_line x y dx dy ` {..<length w}")
    case True
    then have "\<exists>x y dx dy. direction dx dy \<and> reads ?g w x y dx dy \<and> (px, py) \<in> on_line x y dx dy ` {..<length w}"
      using assms(4) k(2) by blast
    then show ?thesis by simp
  next
    case False
    then have "\<forall>i < length w. (px, py) \<noteq> on_line x y dx dy i" by blast
    then have "grid_cell ?g px py = grid_cell g px py"
      using placeWord_prefix [OF assms(2-4) order_refl, folded ws_placeWord_def] by blast
    then have "\<exists>v \<in> set ws. \<exists>x y dx dy. direction dx dy \<and> reads ?g v x y dx dy
        \<and> (px, py) \<in> on_line x y dx dy ` {..<length v}"
      using c by (intro covered_keeps [OF assms(1) k(3) _ c(2)]) simp
    then show ?thesis by simp
  qed
qed

lemma covered_attempts:
  assumes "covered_by ws g" "grid_ok width height g"
  shows "place_attempts n width height w g seed = (ok, g', seed') \<Longrightarrow> covered_by (if ok then ws @ [w] else ws) g'"
proof (induction n arbitrary: seed)
  case 0
  then show ?case using assms by simp
next
  case (Suc n)
  show ?case
  proof (cases n width height w g seed rule: place_attempts_Suc_cases)
    case (fail s')
    then show ?thesis using Suc.IH [of s'] Suc.prems by simp
  next
    case (hit x y dx dy s')
    then have "ok" "g' = ws_placeWord g w x y dx dy" using Suc.prems by auto
    then show ?thesis using covered_place [OF assms hit(2,1)] by simp
  qed
qed

text \<open>
  A word is left out when 500 random positions for it fail on a grid that holds nothing but letters of
  listed words, all of which the finished grid keeps.
\<close>

definition unplaceable :: "nat \<Rightarrow> nat \<Rightarrow> string list \<Rightarrow> letter_grid \<Rightarrow> string \<Rightarrow> bool" where
  "unplaceable width height listed final w \<longleftrightarrow>
     (\<exists>g s. grid_ok width height g \<and> covered_by listed g \<and> keeps_letters g final \<and> nonneg_int s
        \<and> \<not> fst (place_attempts 500 width height w g s))"

lemma place_words_dropped:
  assumes "place_words width height words g seed placed = (g', seed', placed')"
    and "grid_ok width height g" "letters_only g" "\<forall>w \<in> set words. list_all is_upper w" "nonneg_int seed"
    and "covered_by placed g"
  shows "keeps_letters g g' \<and> set placed \<subseteq> set placed'
    \<and> (\<forall>w \<in> set words. w \<in> set placed' \<or> unplaceable width height placed' g' w)"
  using assms
proof (induction width height words g seed placed rule: place_words.induct)
  case (1 width height g seed placed)
  then show ?case by simp
next
  case (2 width height w words g seed placed)
  obtain ok g1 s1 where a: "place_attempts 500 width height w g seed = (ok, g1, s1)" by (metis prod_cases3)
  have k: "grid_ok width height g1 \<and> letters_only g1 \<and> keeps_letters g g1 \<and> nonneg_int s1"
    using place_attempts_ok [OF _ _ _ a] "2.prems" by simp
  have cv: "covered_by (if ok then placed @ [w] else placed) g1"
    by (rule covered_attempts [OF "2.prems"(6,2) a])
  have i: "keeps_letters g1 g' \<and> set (if ok then placed @ [w] else placed) \<subseteq> set placed'
      \<and> (\<forall>w \<in> set words. w \<in> set placed' \<or> unplaceable width height placed' g' w)"
    using k "2.prems" a cv by (intro "2.IH" [of "(ok, g1, s1)" ok "(g1, s1)" g1 s1]) simp_all
  have kg: "keeps_letters g g'" using k i keeps_trans by blast
  moreover have "set placed \<subseteq> set placed'" using i by (auto split: if_splits)
  moreover have "w \<in> set placed' \<or> unplaceable width height placed' g' w"
  proof (cases ok)
    case True
    then show ?thesis using i by simp
  next
    case False
    then have "\<not> fst (place_attempts 500 width height w g seed)" using a by simp
    then show ?thesis using kg covered_mono [OF "2.prems"(6)] \<open>set placed \<subseteq> set placed'\<close> "2.prems"(2,5)
      unfolding unplaceable_def by blast
  qed
  ultimately show ?case using i by auto
qed

lemma empty_cell: "grid_cell (replicate height (replicate width [])) x y = Some c \<Longrightarrow> c = []"
  using grid_cell_replicate [of height width "[]" x y] by auto

lemma empty_covered: "covered_by [] (replicate height (replicate width []))"
  by (auto simp: covered_by_def dest!: empty_cell)

lemma word_search_new_dropped:
  assumes "word_search_new words width height seed = Inr e" "nonneg_int seed" "w \<in> normalizeWord ` set words"
  shows "w \<in> set (ws_words (we_state e)) \<or> unplaceable width height (ws_words (we_state e)) (ws_grid (we_state e)) w"
proof -
  let ?g = "replicate height (replicate width ([] :: string))"
  let ?sorted = "sort_key (\<lambda>w. - int (length w)) (rev (remdups (rev (map normalizeWord words))))"
  obtain g seed' placed where p: "place_words width height ?sorted ?g seed [] = (g, seed', placed)"
    by (metis prod_cases3)
  have up: "\<forall>w \<in> set ?sorted. list_all is_upper w" using normalizeWord_upper by auto
  have ok0: "grid_ok width height ?g" by (simp add: grid_ok_def)
  have l0: "letters_only ?g" by (auto simp: letters_only_def dest!: empty_cell)
  have s: "nonneg_int seed'" using place_words_ok [OF p ok0 l0 up] assms(2) by simp
  have d: "w \<in> set placed \<or> unplaceable width height placed g w"
    using place_words_dropped [OF p ok0 l0 up assms(2) empty_covered] assms(3) by auto
  obtain g' s2 where f: "fill_rows g seed' = Inr (g', s2)" "list_all2 fills g g'" using fill_rows_total [OF s] by blast
  have e: "ws_words (we_state e) = placed" "ws_grid (we_state e) = g'"
    using assms(1) p f(1) by (auto simp: word_search_new_def generateGrid_def Let_def split: if_splits)
  have "unplaceable width height placed g' w" if "unplaceable width height placed g w"
    using that keeps_trans [OF _ fills_keeps [OF f(2)]] unfolding unplaceable_def by blast
  then show ?thesis using d by (auto simp: e)
qed

end
