(* ===== verification/WordSearchScreen.thy ===== *)
theory WordSearchScreen
  imports WordSearch
begin

text \<open>
  The screen of the word search, \<open>src/features/games/WordSearchScene.ts\<close>: selecting a line with the
  mouse or with the keyboard cursor, submitting it to the engine, and finding a word again to draw it.
  \<open>Phaser.Math.Clamp\<close> is code of the Phaser library: it is the parameter \<open>clamp\<close>, of which
  \<open>clamp_law\<close> states the documented behaviour.
\<close>

section \<open>State and operations\<close>

record ws_scene =
  sc_engine :: word_search_engine
  sc_isSelecting :: bool
  sc_selectedCoords :: "(int \<times> int) list"
  sc_cursor :: "int \<times> int"

abbreviation sc_state :: "ws_scene \<Rightarrow> word_search_state" where
  "sc_state s \<equiv> we_state (sc_engine s)"

definition ws_scene_new :: "nat \<Rightarrow> word_search_engine \<Rightarrow> ws_scene" where
  "ws_scene_new listener e = \<lparr>sc_engine = word_search_subscribe listener e, sc_isSelecting = False,
     sc_selectedCoords = [], sc_cursor = (0, 0)\<rparr>"

text \<open>The board is centred: \<open>gridOffset\<close>, and the cell under a pointer position.\<close>

definition cellSize :: rat where
  "cellSize = 40"

definition gridOffset :: "rat \<Rightarrow> nat \<Rightarrow> rat" where
  "gridOffset camera n = fl (fl (camera - of_nat n * cellSize) / 2)"

definition getGridCoord :: "rat \<Rightarrow> rat \<Rightarrow> word_search_state \<Rightarrow> rat \<Rightarrow> rat \<Rightarrow> (int \<times> int) option" where
  "getGridCoord cameraWidth cameraHeight st x y =
     (let gx = \<lfloor>fl (fl (x - gridOffset cameraWidth (ws_width st)) / cellSize)\<rfloor>;
          gy = \<lfloor>fl (fl (y - gridOffset cameraHeight (ws_height st)) / cellSize)\<rfloor>
      in if gx \<ge> 0 \<and> gx < int (ws_width st) \<and> gy \<ge> 0 \<and> gy < int (ws_height st) then Some (gx, gy) else None)"

text \<open>
  \<open>extendSelectionTo\<close>. The quotients \<open>dx / steps\<close> and \<open>dy / steps\<close> are minus one, zero or one, because
  the line is horizontal, vertical or diagonal; on those values \<open>div\<close> is the exact quotient.
\<close>

definition line_to :: "int \<times> int \<Rightarrow> int \<times> int \<Rightarrow> (int \<times> int) list" where
  "line_to start coord =
     (let dx = fst coord - fst start; dy = snd coord - snd start; steps = max \<bar>dx\<bar> \<bar>dy\<bar>
      in map (\<lambda>i. let stepX = (if steps = 0 then 0 else dx div steps); stepY = (if steps = 0 then 0 else dy div steps)
                  in (fst start + stepX * int i, snd start + stepY * int i)) [0..<nat steps + 1])"

definition extendSelectionTo :: "int \<times> int \<Rightarrow> ws_scene \<Rightarrow> ws_scene" where
  "extendSelectionTo coord s =
     (let start = sc_selectedCoords s ! 0; dx = fst coord - fst start; dy = snd coord - snd start
      in if dx = 0 \<or> dy = 0 \<or> \<bar>dx\<bar> = \<bar>dy\<bar> then s\<lparr>sc_selectedCoords := line_to start coord\<rparr> else s)"

definition submitSelection :: "ws_scene \<Rightarrow> ws_scene res" where
  "submitSelection s =
     bind_res (checkWord (sc_selectedCoords s) (sc_engine s))
       (\<lambda>e. Inr (s\<lparr>sc_isSelecting := False, sc_engine := e, sc_selectedCoords := []\<rparr>))"

definition handlePointerDown :: "(int \<times> int) option \<Rightarrow> ws_scene \<Rightarrow> ws_scene" where
  "handlePointerDown coord s = (case coord of None \<Rightarrow> s
     | Some c \<Rightarrow> s\<lparr>sc_isSelecting := True, sc_selectedCoords := [c]\<rparr>)"

definition handlePointerMove :: "(int \<times> int) option \<Rightarrow> ws_scene \<Rightarrow> ws_scene" where
  "handlePointerMove coord s = (if \<not> sc_isSelecting s then s
     else case coord of None \<Rightarrow> s | Some c \<Rightarrow> extendSelectionTo c s)"

definition handlePointerUp :: "ws_scene \<Rightarrow> ws_scene res" where
  "handlePointerUp s = (if sc_isSelecting s then submitSelection s else Inr s)"

definition moveCursor :: "(int \<Rightarrow> int \<Rightarrow> int \<Rightarrow> int) \<Rightarrow> int \<Rightarrow> int \<Rightarrow> ws_scene \<Rightarrow> ws_scene" where
  "moveCursor clamp dx dy s =
     (let nx = clamp (fst (sc_cursor s) + dx) 0 (int (ws_width (sc_state s)) - 1);
          ny = clamp (snd (sc_cursor s) + dy) 0 (int (ws_height (sc_state s)) - 1);
          s = s\<lparr>sc_cursor := (nx, ny)\<rparr>
      in if sc_isSelecting s then extendSelectionTo (sc_cursor s) s else s)"

definition ws_handleKeyDown :: "(int \<Rightarrow> int \<Rightarrow> int \<Rightarrow> int) \<Rightarrow> string \<Rightarrow> ws_scene \<Rightarrow> ws_scene res" where
  "ws_handleKeyDown clamp key s =
     (if key = ''ArrowRight'' then Inr (moveCursor clamp 1 0 s)
      else if key = ''ArrowLeft'' then Inr (moveCursor clamp (-1) 0 s)
      else if key = ''ArrowDown'' then Inr (moveCursor clamp 0 1 s)
      else if key = ''ArrowUp'' then Inr (moveCursor clamp 0 (-1) s)
      else if key = ''Enter'' \<or> key = '' ''
      then (if sc_isSelecting s then submitSelection s
            else Inr (s\<lparr>sc_isSelecting := True, sc_selectedCoords := [sc_cursor s]\<rparr>))
      else if key = ''Escape''
      then Inr (if sc_isSelecting s then s\<lparr>sc_isSelecting := False, sc_selectedCoords := []\<rparr> else s)
      else Inr s)"

datatype ws_event = WsPointerDown rat rat | WsPointerMove rat rat | WsPointerUp | WsKey string

fun ws_scene_step :: "(int \<Rightarrow> int \<Rightarrow> int \<Rightarrow> int) \<Rightarrow> rat \<Rightarrow> rat \<Rightarrow> ws_event \<Rightarrow> ws_scene \<Rightarrow> ws_scene res" where
  "ws_scene_step clamp cw ch (WsPointerDown x y) s = Inr (handlePointerDown (getGridCoord cw ch (sc_state s) x y) s)"
| "ws_scene_step clamp cw ch (WsPointerMove x y) s = Inr (handlePointerMove (getGridCoord cw ch (sc_state s) x y) s)"
| "ws_scene_step clamp cw ch WsPointerUp s = handlePointerUp s"
| "ws_scene_step clamp cw ch (WsKey k) s = ws_handleKeyDown clamp k s"

fun ws_scene_run :: "(int \<Rightarrow> int \<Rightarrow> int \<Rightarrow> int) \<Rightarrow> rat \<Rightarrow> rat \<Rightarrow> ws_event list \<Rightarrow> ws_scene \<Rightarrow> ws_scene res" where
  "ws_scene_run clamp cw ch [] s = Inr s"
| "ws_scene_run clamp cw ch (ev # evs) s = bind_res (ws_scene_step clamp cw ch ev s) (ws_scene_run clamp cw ch evs)"

text \<open>
  \<open>findWordInGrid\<close>: the first cell, row by row, from which the word reads in one of the eight
  directions. The inner loop gives the coordinates or stops at the first mismatch.
\<close>

definition all_dirs :: "(int \<times> int) list" where
  "all_dirs = [(1, 0), (0, 1), (1, 1), (1, -1), (-1, 0), (0, -1), (-1, -1), (-1, 1)]"

fun follow :: "letter_grid \<Rightarrow> int \<Rightarrow> int \<Rightarrow> int \<Rightarrow> int \<Rightarrow> int \<Rightarrow> int \<Rightarrow> nat \<Rightarrow> string \<Rightarrow> (int \<times> int) list option" where
  "follow g width height x y dx dy i [] = Some []"
| "follow g width height x y dx dy i (c # cs) =
     (let nx = x + dx * int i; ny = y + dy * int i
      in if nx < 0 \<or> nx \<ge> width \<or> ny < 0 \<or> ny \<ge> height \<or> grid_cell g nx ny \<noteq> Some [c] then None
         else map_option (Cons (nx, ny)) (follow g width height x y dx dy (Suc i) cs))"

fun first_some :: "('a \<Rightarrow> 'b option) \<Rightarrow> 'a list \<Rightarrow> 'b option" where
  "first_some f [] = None"
| "first_some f (x # xs) = (case f x of Some y \<Rightarrow> Some y | None \<Rightarrow> first_some f xs)"

definition findWordInGrid :: "string \<Rightarrow> letter_grid \<Rightarrow> nat \<Rightarrow> nat \<Rightarrow> (int \<times> int) list option" where
  "findWordInGrid word g width height =
     first_some (\<lambda>y. first_some (\<lambda>x.
       if word \<noteq> [] \<and> grid_cell g (int x) (int y) = Some [word ! 0]
       then first_some (\<lambda>(dx, dy).
              map_option (Cons (int x, int y))
                (follow g (int width) (int height) (int x) (int y) dx dy 1 (tl word))) all_dirs
       else None) [0..<width]) [0..<height]"


section \<open>Straight lines\<close>

definition straight :: "int \<times> int \<Rightarrow> int \<times> int \<Rightarrow> bool" where
  "straight a b \<longleftrightarrow> fst b - fst a = 0 \<or> snd b - snd a = 0 \<or> \<bar>fst b - fst a\<bar> = \<bar>snd b - snd a\<bar>"

definition in_board :: "word_search_state \<Rightarrow> int \<times> int \<Rightarrow> bool" where
  "in_board st c \<longleftrightarrow> 0 \<le> fst c \<and> fst c < int (ws_width st) \<and> 0 \<le> snd c \<and> snd c < int (ws_height st)"

lemma step_sgn:
  fixes d n :: int
  assumes "d = 0 \<or> \<bar>d\<bar> = n" "0 \<le> n"
  shows "(if n = 0 then 0 else d div n) = sgn d"
proof (cases "d = 0 \<or> n = 0")
  case True
  then show ?thesis using assms by auto
next
  case False
  then have "d = n \<or> d = - n" "0 < n" using assms by linarith+
  then show ?thesis by (auto simp: sgn_if zdiv_zminus1_eq_if)
qed

text \<open>On a straight line \<open>line_to\<close> walks from the start to the end in unit steps.\<close>

lemma line_to_eq:
  assumes "straight a b"
  defines "dx \<equiv> fst b - fst a" and "dy \<equiv> snd b - snd a"
  shows "line_to a b = map (on_line (fst a) (snd a) (sgn dx) (sgn dy)) [0..<nat (max \<bar>dx\<bar> \<bar>dy\<bar>) + 1]"
proof -
  let ?n = "max \<bar>dx\<bar> \<bar>dy\<bar>"
  have "dx = 0 \<or> \<bar>dx\<bar> = ?n" "dy = 0 \<or> \<bar>dy\<bar> = ?n" "0 \<le> ?n"
    using assms by (auto simp: straight_def)
  then have "(if ?n = 0 then 0 else dx div ?n) = sgn dx" "(if ?n = 0 then 0 else dy div ?n) = sgn dy"
    by (simp_all only: step_sgn)
  then show ?thesis
    unfolding line_to_def Let_def dx_def [symmetric] dy_def [symmetric] on_line_def
    by (simp add: mult.commute)
qed

lemma line_to_hd: "straight a b \<Longrightarrow> line_to a b \<noteq> [] \<and> line_to a b ! 0 = a"
  by (simp add: line_to_eq on_line_def nth_append del: upt_Suc)

lemma between:
  fixes d n i :: int
  assumes "d = 0 \<or> \<bar>d\<bar> = n" "0 \<le> i" "i \<le> n" "0 \<le> a" "a < w" "0 \<le> a + d" "a + d < w"
  shows "0 \<le> a + i * sgn d \<and> a + i * sgn d < w"
  using assms by (cases "d > 0"; cases "d < 0") (auto simp: sgn_if)

lemma line_to_in_board:
  assumes "straight a b" "in_board st a" "in_board st b"
  shows "list_all (in_board st) (line_to a b)"
proof -
  let ?dx = "fst b - fst a" and ?dy = "snd b - snd a"
  let ?n = "max \<bar>?dx\<bar> \<bar>?dy\<bar>"
  have d: "?dx = 0 \<or> \<bar>?dx\<bar> = ?n" "?dy = 0 \<or> \<bar>?dy\<bar> = ?n" using assms(1) by (auto simp: straight_def)
  have "in_board st (on_line (fst a) (snd a) (sgn ?dx) (sgn ?dy) i)" if "i < nat ?n + 1" for i
    using between [OF d(1), of "int i" "fst a" "int (ws_width st)"] between [OF d(2), of "int i" "snd a" "int (ws_height st)"]
      assms(2,3) that by (simp add: in_board_def on_line_def)
  then show ?thesis unfolding line_to_eq [OF assms(1)] list_all_iff by (simp del: upt_Suc)
qed

section \<open>Invariant of the screen\<close>

definition scene_ok :: "ws_scene \<Rightarrow> bool" where
  "scene_ok s \<longleftrightarrow> ws_board (sc_state s) \<and> ws_progress (sc_state s) \<and> in_board (sc_state s) (sc_cursor s)
     \<and> [] \<notin> set (ws_foundWords (sc_state s))
     \<and> (sc_isSelecting s \<longrightarrow> sc_selectedCoords s \<noteq> [] \<and> list_all (in_board (sc_state s)) (sc_selectedCoords s))"

text \<open>What every event leaves alone, and that found words stay found.\<close>

definition scene_frame :: "ws_scene \<Rightarrow> ws_scene \<Rightarrow> bool" where
  "scene_frame s s' \<longleftrightarrow> ws_words (sc_state s') = ws_words (sc_state s) \<and> ws_grid (sc_state s') = ws_grid (sc_state s)
     \<and> ws_width (sc_state s') = ws_width (sc_state s) \<and> ws_height (sc_state s') = ws_height (sc_state s)
     \<and> set (ws_foundWords (sc_state s)) \<subseteq> set (ws_foundWords (sc_state s'))"

lemma frame_refl [simp]: "scene_frame s s"
  by (simp add: scene_frame_def)

lemma frame_trans: "scene_frame a b \<Longrightarrow> scene_frame b c \<Longrightarrow> scene_frame a c"
  by (auto simp: scene_frame_def)

lemma read_board:
  assumes "ws_board st" "list_all (in_board st) sel"
  shows "\<exists>cells. map_res (read_cell (ws_grid st)) sel = Inr cells \<and> length cells = length sel \<and> list_all one_letter cells"
proof -
  have "\<exists>c. read_cell (ws_grid st) p = Inr c \<and> one_letter c" if "in_board st p" for p
  proof -
    have ok: "grid_ok (ws_width st) (ws_height st) (ws_grid st)" using assms(1) by (simp add: ws_board_def)
    then have "grid_cell (ws_grid st) (fst p) (snd p) \<noteq> None"
      using that grid_cell_range [OF ok] by (simp add: in_board_def)
    then obtain c where c: "grid_cell (ws_grid st) (fst p) (snd p) = Some c" by blast
    moreover have "one_letter c" using assms(1) c by (auto simp: ws_board_def)
    moreover have "0 \<le> snd p \<and> snd p < int (length (ws_grid st))"
      using that ok by (simp add: in_board_def grid_ok_def)
    ultimately show ?thesis by (auto simp: read_cell_def case_prod_beta)
  qed
  then have "\<forall>p \<in> set sel. \<exists>c. read_cell (ws_grid st) p = Inr c \<and> one_letter c"
    using assms(2) by (simp add: list_all_iff)
  then obtain f where f: "\<forall>p \<in> set sel. read_cell (ws_grid st) p = Inr (f p) \<and> one_letter (f p)" by metis
  then have "map_res (read_cell (ws_grid st)) sel = Inr (map f sel)" by (intro map_res_all) simp
  then show ?thesis using f by (auto simp: list_all_iff)
qed

lemma submit_ok:
  assumes "scene_ok s" "sc_isSelecting s"
  shows "\<exists>s'. submitSelection s = Inr s' \<and> scene_ok s' \<and> scene_frame s s'"
proof -
  let ?st = "sc_state s" and ?sel = "sc_selectedCoords s"
  have ok: "ws_board ?st" "ws_progress ?st" "?sel \<noteq> []" "list_all (in_board ?st) ?sel" "[] \<notin> set (ws_foundWords ?st)"
    using assms by (simp_all add: scene_ok_def)
  obtain cells where c: "map_res (read_cell (ws_grid ?st)) ?sel = Inr cells" "length cells = length ?sel" "list_all one_letter cells"
    using read_board [OF ok(1,4)] by blast
  have "cells \<noteq> []" using c(2) ok(3) by auto
  then have ne: "concat cells \<noteq> []" using c(3) by (cases cells) (auto simp: one_letter_def)
  note eq = checkWord_eq [OF c(1)]
  obtain e' where e': "checkWord ?sel (sc_engine s) = Inr e'" using eq by blast
  then have "[] \<notin> set (ws_foundWords (we_state e'))" using eq ne ok(5) by (auto split: if_splits)
  then show ?thesis using checkWord_inv [OF e' ok(1,2)] e' assms(1)
    by (simp add: submitSelection_def scene_ok_def scene_frame_def in_board_def)
qed

lemma extend_ok:
  assumes "scene_ok s" "sc_isSelecting s" "in_board (sc_state s) c"
  shows "scene_ok (extendSelectionTo c s) \<and> scene_frame s (extendSelectionTo c s)"
proof (cases "straight (sc_selectedCoords s ! 0) c")
  case True
  have "in_board (sc_state s) (sc_selectedCoords s ! 0)"
    using assms(1,2) by (auto simp: scene_ok_def list_all_length)
  then have "list_all (in_board (sc_state s)) (line_to (sc_selectedCoords s ! 0) c)"
    using line_to_in_board [OF True] assms(3) by blast
  then show ?thesis using True assms line_to_hd [OF True]
    by (simp add: extendSelectionTo_def Let_def straight_def scene_ok_def scene_frame_def)
next
  case False
  then have "extendSelectionTo c s = s" by (simp add: extendSelectionTo_def Let_def straight_def)
  then show ?thesis using assms by simp
qed

lemma getGridCoord_in_board: "getGridCoord cw ch st x y = Some c \<Longrightarrow> in_board st c"
  by (auto simp: getGridCoord_def in_board_def Let_def split: if_splits)

lemma moveCursor_ok:
  assumes "clamp_law clamp" "scene_ok s"
  shows "scene_ok (moveCursor clamp dx dy s) \<and> scene_frame s (moveCursor clamp dx dy s)"
proof -
  let ?c = "(clamp (fst (sc_cursor s) + dx) 0 (int (ws_width (sc_state s)) - 1),
             clamp (snd (sc_cursor s) + dy) 0 (int (ws_height (sc_state s)) - 1))"
  let ?s = "s\<lparr>sc_cursor := ?c\<rparr>"
  have "in_board (sc_state s) (sc_cursor s)" using assms(2) by (simp add: scene_ok_def)
  then have b: "in_board (sc_state s) ?c"
    using clamp_lawD [OF assms(1)] by (auto simp: in_board_def)
  then have "scene_ok ?s" "scene_frame s ?s" using assms(2) by (simp_all add: scene_ok_def scene_frame_def)
  moreover have "moveCursor clamp dx dy s = (if sc_isSelecting s then extendSelectionTo ?c ?s else ?s)"
    by (simp add: moveCursor_def Let_def)
  ultimately show ?thesis using extend_ok [of ?s ?c] b frame_trans by auto
qed

lemma scene_step_ok:
  assumes "clamp_law clamp" "scene_ok s"
  shows "\<exists>s'. ws_scene_step clamp cw ch ev s = Inr s' \<and> scene_ok s' \<and> scene_frame s s'"
proof (cases ev)
  case (WsPointerDown x y)
  show ?thesis
  proof (cases "getGridCoord cw ch (sc_state s) x y")
    case (Some c)
    then show ?thesis using WsPointerDown assms(2) getGridCoord_in_board [OF Some]
      by (simp add: handlePointerDown_def scene_ok_def scene_frame_def)
  qed (use WsPointerDown assms(2) in \<open>simp add: handlePointerDown_def\<close>)
next
  case (WsPointerMove x y)
  show ?thesis
  proof (cases "getGridCoord cw ch (sc_state s) x y")
    case (Some c)
    then show ?thesis using WsPointerMove assms(2) getGridCoord_in_board [OF Some] extend_ok [OF assms(2), of c]
      by (simp add: handlePointerMove_def)
  qed (use WsPointerMove assms(2) in \<open>simp add: handlePointerMove_def\<close>)
next
  case WsPointerUp
  then show ?thesis using assms(2) submit_ok [OF assms(2)] by (auto simp: handlePointerUp_def)
next
  case (WsKey k)
  have "scene_ok (s\<lparr>sc_isSelecting := True, sc_selectedCoords := [sc_cursor s]\<rparr>)"
    "scene_ok (s\<lparr>sc_isSelecting := False, sc_selectedCoords := []\<rparr>)"
    using assms(2) by (simp_all add: scene_ok_def)
  then show ?thesis using WsKey assms(2) submit_ok [OF assms(2)] moveCursor_ok [OF assms]
    by (auto simp: ws_handleKeyDown_def) (simp_all add: scene_frame_def)
qed

lemma scene_run_ok:
  assumes "clamp_law clamp"
  shows "scene_ok s \<Longrightarrow> \<exists>s'. ws_scene_run clamp cw ch evs s = Inr s' \<and> scene_ok s' \<and> scene_frame s s'"
proof (induction evs arbitrary: s)
  case Nil
  then show ?case by simp
next
  case (Cons ev evs)
  obtain s1 where "ws_scene_step clamp cw ch ev s = Inr s1" "scene_ok s1" "scene_frame s s1"
    using scene_step_ok [OF assms Cons.prems] by blast
  then show ?case using Cons.IH [of s1] frame_trans by fastforce
qed

lemma scene_new_ok:
  assumes "words \<noteq> []" "nonneg_int seed" "0 < width" "0 < height" "word_search_new words width height seed = Inr e"
  shows "scene_ok (ws_scene_new l e)"
  using word_search_new_shape [OF assms(1,2), of width height] assms(3-5)
  by (auto simp: scene_ok_def ws_scene_new_def word_search_subscribe_def in_board_def)


section \<open>Walking the cursor\<close>

lemma scene_run_append:
  "ws_scene_run clamp cw ch (xs @ ys) s = bind_res (ws_scene_run clamp cw ch xs s) (ws_scene_run clamp cw ch ys)"
  by (induction xs arbitrary: s) (simp_all add: bind_res_def split: sum.splits)

text \<open>A selection in progress starts at \<open>start\<close> and is the line to the cursor whenever that is straight.\<close>

definition selecting_from :: "int \<times> int \<Rightarrow> ws_scene \<Rightarrow> bool" where
  "selecting_from start s \<longleftrightarrow> sc_isSelecting s \<and> sc_selectedCoords s \<noteq> [] \<and> sc_selectedCoords s ! 0 = start
     \<and> (straight start (sc_cursor s) \<longrightarrow> sc_selectedCoords s = line_to start (sc_cursor s))"

definition walked :: "ws_scene \<Rightarrow> ws_scene \<Rightarrow> bool" where
  "walked s s' \<longleftrightarrow> sc_engine s' = sc_engine s \<and> sc_isSelecting s' = sc_isSelecting s
     \<and> (\<forall>start. selecting_from start s \<longrightarrow> selecting_from start s')"

lemma walked_trans: "walked a b \<Longrightarrow> walked b c \<Longrightarrow> walked a c"
  by (auto simp: walked_def)

lemma moveCursor_walk:
  assumes "clamp_law clamp" "in_board (sc_state s) (fst (sc_cursor s) + dx, snd (sc_cursor s) + dy)"
  shows "walked s (moveCursor clamp dx dy s)
    \<and> sc_cursor (moveCursor clamp dx dy s) = (fst (sc_cursor s) + dx, snd (sc_cursor s) + dy)"
proof -
  let ?c = "(fst (sc_cursor s) + dx, snd (sc_cursor s) + dy)"
  let ?s = "s\<lparr>sc_cursor := ?c\<rparr>"
  have "clamp (fst (sc_cursor s) + dx) 0 (int (ws_width (sc_state s)) - 1) = fst (sc_cursor s) + dx"
    "clamp (snd (sc_cursor s) + dy) 0 (int (ws_height (sc_state s)) - 1) = snd (sc_cursor s) + dy"
    using clamp_lawD [OF assms(1)] assms(2) by (auto simp: in_board_def)
  then have m: "moveCursor clamp dx dy s = (if sc_isSelecting s then extendSelectionTo ?c ?s else ?s)"
    by (simp add: moveCursor_def Let_def)
  have ext: "extendSelectionTo ?c ?s = (if straight (sc_selectedCoords s ! 0) ?c
      then ?s\<lparr>sc_selectedCoords := line_to (sc_selectedCoords s ! 0) ?c\<rparr> else ?s)"
    by (simp add: extendSelectionTo_def Let_def straight_def)
  show ?thesis unfolding m ext walked_def using line_to_hd by (auto simp: selecting_from_def)
qed

lemma walk_keys:
  assumes "clamp_law clamp" "\<And>s. ws_handleKeyDown clamp k s = Inr (moveCursor clamp dx dy s)"
    and "\<And>i. i \<le> n \<Longrightarrow> in_board (sc_state s) (on_line (fst (sc_cursor s)) (snd (sc_cursor s)) dx dy i)"
  shows "\<exists>s'. ws_scene_run clamp cw ch (replicate n (WsKey k)) s = Inr s' \<and> walked s s'
    \<and> sc_cursor s' = on_line (fst (sc_cursor s)) (snd (sc_cursor s)) dx dy n"
  using assms(3)
proof (induction n arbitrary: s)
  case 0
  then show ?case by (simp add: walked_def on_line_def)
next
  case (Suc n)
  let ?s = "moveCursor clamp dx dy s"
  have "in_board (sc_state s) (fst (sc_cursor s) + dx, snd (sc_cursor s) + dy)"
    using Suc.prems [of 1] by (simp add: on_line_def)
  note w = moveCursor_walk [OF assms(1) this]
  then have e: "sc_state ?s = sc_state s" by (simp add: walked_def)
  have "in_board (sc_state ?s) (on_line (fst (sc_cursor ?s)) (snd (sc_cursor ?s)) dx dy i)" if "i \<le> n" for i
    using Suc.prems [of "Suc i"] that w by (simp add: on_line_def e algebra_simps)
  then obtain s' where s': "ws_scene_run clamp cw ch (replicate n (WsKey k)) ?s = Inr s'" "walked ?s s'"
      "sc_cursor s' = on_line (fst (sc_cursor ?s)) (snd (sc_cursor ?s)) dx dy n"
    using Suc.IH [of ?s] by blast
  have "ws_scene_run clamp cw ch (replicate (Suc n) (WsKey k)) s = Inr s'" using assms(2) s'(1) by simp
  moreover have "sc_cursor s' = on_line (fst (sc_cursor s)) (snd (sc_cursor s)) dx dy (Suc n)"
    using s'(3) w by (simp add: on_line_def algebra_simps)
  ultimately show ?case using walked_trans w s'(2) by blast
qed

definition path_keys :: "int \<times> int \<Rightarrow> int \<times> int \<Rightarrow> ws_event list" where
  "path_keys a b =
     (replicate (nat (fst b - fst a)) (WsKey ''ArrowRight'') @ replicate (nat (fst a - fst b)) (WsKey ''ArrowLeft''))
     @ (replicate (nat (snd b - snd a)) (WsKey ''ArrowDown'') @ replicate (nat (snd a - snd b)) (WsKey ''ArrowUp''))"

lemma arrow_keys:
  "ws_handleKeyDown clamp ''ArrowRight'' s = Inr (moveCursor clamp 1 0 s)"
  "ws_handleKeyDown clamp ''ArrowLeft'' s = Inr (moveCursor clamp (-1) 0 s)"
  "ws_handleKeyDown clamp ''ArrowDown'' s = Inr (moveCursor clamp 0 1 s)"
  "ws_handleKeyDown clamp ''ArrowUp'' s = Inr (moveCursor clamp 0 (-1) s)"
  by (simp_all add: ws_handleKeyDown_def)

lemma walk_x:
  assumes "clamp_law clamp" "in_board (sc_state s) (sc_cursor s)" "in_board (sc_state s) (x, snd (sc_cursor s))"
  shows "\<exists>s'. ws_scene_run clamp cw ch (replicate (nat (x - fst (sc_cursor s))) (WsKey ''ArrowRight'')
      @ replicate (nat (fst (sc_cursor s) - x)) (WsKey ''ArrowLeft'')) s = Inr s'
    \<and> walked s s' \<and> sc_cursor s' = (x, snd (sc_cursor s))"
proof (cases "fst (sc_cursor s) \<le> x")
  case True
  then show ?thesis
    using walk_keys [OF assms(1) arrow_keys(1), of "nat (x - fst (sc_cursor s))" s cw ch] assms(2,3)
    by (simp add: on_line_def in_board_def)
next
  case False
  then show ?thesis
    using walk_keys [OF assms(1) arrow_keys(2), of "nat (fst (sc_cursor s) - x)" s cw ch] assms(2,3)
    by (simp add: on_line_def in_board_def)
qed

lemma walk_y:
  assumes "clamp_law clamp" "in_board (sc_state s) (sc_cursor s)" "in_board (sc_state s) (fst (sc_cursor s), y)"
  shows "\<exists>s'. ws_scene_run clamp cw ch (replicate (nat (y - snd (sc_cursor s))) (WsKey ''ArrowDown'')
      @ replicate (nat (snd (sc_cursor s) - y)) (WsKey ''ArrowUp'')) s = Inr s'
    \<and> walked s s' \<and> sc_cursor s' = (fst (sc_cursor s), y)"
proof (cases "snd (sc_cursor s) \<le> y")
  case True
  then show ?thesis
    using walk_keys [OF assms(1) arrow_keys(3), of "nat (y - snd (sc_cursor s))" s cw ch] assms(2,3)
    by (simp add: on_line_def in_board_def)
next
  case False
  then show ?thesis
    using walk_keys [OF assms(1) arrow_keys(4), of "nat (snd (sc_cursor s) - y)" s cw ch] assms(2,3)
    by (simp add: on_line_def in_board_def)
qed

lemma walk_path:
  assumes "clamp_law clamp" "in_board (sc_state s) (sc_cursor s)" "in_board (sc_state s) b"
  shows "\<exists>s'. ws_scene_run clamp cw ch (path_keys (sc_cursor s) b) s = Inr s' \<and> walked s s' \<and> sc_cursor s' = b"
proof -
  obtain s1 where 1: "ws_scene_run clamp cw ch (replicate (nat (fst b - fst (sc_cursor s))) (WsKey ''ArrowRight'')
      @ replicate (nat (fst (sc_cursor s) - fst b)) (WsKey ''ArrowLeft'')) s = Inr s1"
      "walked s s1" "sc_cursor s1 = (fst b, snd (sc_cursor s))"
    using walk_x [OF assms(1,2), of "fst b"] assms(2,3) by (auto simp: in_board_def)
  have e: "sc_state s1 = sc_state s" using 1(2) by (simp add: walked_def)
  obtain s2 where 2: "ws_scene_run clamp cw ch (replicate (nat (snd b - snd (sc_cursor s1))) (WsKey ''ArrowDown'')
      @ replicate (nat (snd (sc_cursor s1) - snd b)) (WsKey ''ArrowUp'')) s1 = Inr s2"
      "walked s1 s2" "sc_cursor s2 = (fst (sc_cursor s1), snd b)"
    using walk_y [OF assms(1), of s1 "snd b"] assms(2,3) 1(3) e by (auto simp: in_board_def)
  have "ws_scene_run clamp cw ch (path_keys (sc_cursor s) b) s = Inr s2"
    unfolding path_keys_def scene_run_append [of clamp cw ch "_ @ _" "_ @ _"] 1(1)
    using 2(1) 1(3) by simp
  moreover have "sc_cursor s2 = b" using 2(3) 1(3) by simp
  ultimately show ?thesis using walked_trans [OF 1(2) 2(2)] by blast
qed

section \<open>Finding every word\<close>

lemma reads_in_board:
  assumes "ws_board st" "reads (ws_grid st) w x y dx dy" "i < length w"
  shows "in_board st (on_line x y dx dy i)"
proof -
  have "grid_ok (ws_width st) (ws_height st) (ws_grid st)" using assms(1) by (simp add: ws_board_def)
  from grid_cell_range [OF this] reads_nth [OF assms(2,3)] show ?thesis
    by (auto simp: in_board_def on_line_def)
qed

lemma line_to_word:
  assumes "direction dx dy" "0 < n"
  shows "straight (x, y) (on_line x y dx dy (n - 1)) \<and> line_to (x, y) (on_line x y dx dy (n - 1)) = map (on_line x y dx dy) [0..<n]"
proof -
  have s: "straight (x, y) (on_line x y dx dy (n - 1))"
    using assms(1) by (auto simp: direction_def straight_def on_line_def)
  have "max \<bar>fst (on_line x y dx dy (n - 1)) - x\<bar> \<bar>snd (on_line x y dx dy (n - 1)) - y\<bar> = int (n - 1)"
    using assms(1) by (auto simp: direction_def on_line_def)
  then have "nat (max \<bar>fst (on_line x y dx dy (n - 1)) - x\<bar> \<bar>snd (on_line x y dx dy (n - 1)) - y\<bar>) + 1 = n"
    using assms(2) by simp
  then have l: "line_to (x, y) (on_line x y dx dy (n - 1)) =
      map (on_line x y (sgn (fst (on_line x y dx dy (n - 1)) - x)) (sgn (snd (on_line x y dx dy (n - 1)) - y))) [0..<n]"
    unfolding line_to_eq [OF s] fst_conv snd_conv by (simp only:)
  also have "\<dots> = map (on_line x y dx dy) [0..<n]"
  proof (rule map_cong [OF refl])
    fix i assume "i \<in> set [0..<n]"
    then have "i = 0 \<or> 1 < n" by auto
    then show "on_line x y (sgn (fst (on_line x y dx dy (n - 1)) - x)) (sgn (snd (on_line x y dx dy (n - 1)) - y)) i
        = on_line x y dx dy i"
      using assms(1) by (auto simp: direction_def on_line_def)
  qed
  finally show ?thesis using s by blast
qed

lemma find_one_word:
  assumes cl: "clamp_law clamp" and ok: "scene_ok s" and w: "w \<in> set (ws_words (sc_state s))" "w \<noteq> []"
  shows "\<exists>evs s'. ws_scene_run clamp cw ch evs s = Inr s' \<and> scene_ok s' \<and> scene_frame s s' \<and> w \<in> set (ws_foundWords (sc_state s'))"
proof -
  have board: "ws_board (sc_state s)" "ws_progress (sc_state s)" using ok by (simp_all add: scene_ok_def)
  obtain x y dx dy where r: "direction dx dy" "reads (ws_grid (sc_state s)) w x y dx dy"
    using board(1) w(1) by (auto simp: ws_board_def hidden_in_def)
  let ?stop = "on_line x y dx dy (length w - 1)"
  have b: "in_board (sc_state s) (x, y)" "in_board (sc_state s) ?stop"
    using reads_in_board [OF board(1) r(2), of 0] reads_in_board [OF board(1) r(2), of "length w - 1"] w(2)
    by (simp_all add: on_line_def)
  let ?s0 = "if sc_isSelecting s then s\<lparr>sc_isSelecting := False, sc_selectedCoords := []\<rparr> else s"
  have 0: "ws_scene_run clamp cw ch [WsKey ''Escape''] s = Inr ?s0" by (simp add: ws_handleKeyDown_def)
  have s0: "\<not> sc_isSelecting ?s0" "sc_engine ?s0 = sc_engine s" "sc_cursor ?s0 = sc_cursor s" by simp_all
  obtain s1 where 1: "ws_scene_run clamp cw ch (path_keys (sc_cursor ?s0) (x, y)) ?s0 = Inr s1" "walked ?s0 s1"
      "sc_cursor s1 = (x, y)"
    using walk_path [OF cl, of ?s0 "(x, y)"] b(1) ok s0 by (auto simp: scene_ok_def)
  let ?s2 = "s1\<lparr>sc_isSelecting := True, sc_selectedCoords := [(x, y)]\<rparr>"
  have e1: "sc_engine s1 = sc_engine s" "\<not> sc_isSelecting s1" using 1(2) s0 by (auto simp: walked_def)
  have 2: "ws_scene_run clamp cw ch [WsKey ''Enter''] s1 = Inr ?s2"
    using e1(2) 1(3) by (simp add: ws_handleKeyDown_def)
  have f2: "selecting_from (x, y) ?s2"
    using 1(3) by (simp add: selecting_from_def line_to_def)
  obtain s3 where 3: "ws_scene_run clamp cw ch (path_keys (x, y) ?stop) ?s2 = Inr s3" "walked ?s2 s3" "sc_cursor s3 = ?stop"
    using walk_path [OF cl, of ?s2 ?stop] b e1 1(3) by auto
  have f3: "selecting_from (x, y) s3" and e3: "sc_engine s3 = sc_engine s"
    using 3(2) f2 e1(1) by (auto simp: walked_def)
  then have sel: "sc_isSelecting s3" "sc_selectedCoords s3 = map (on_line x y dx dy) [0..<length w]"
    using line_to_word [OF r(1), of "length w" x y] w(2) 3(3) by (auto simp: selecting_from_def)
  obtain e' where e': "checkWord (sc_selectedCoords s3) (sc_engine s3) = Inr e'" "w \<in> set (ws_foundWords (we_state e'))"
    using checkWord_hit [of "sc_engine s" w x y dx dy] r(2) w(1) board unfolding sel(2) e3 by blast
  let ?s4 = "s3\<lparr>sc_isSelecting := False, sc_engine := e', sc_selectedCoords := []\<rparr>"
  have 4: "ws_scene_run clamp cw ch [WsKey ''Enter''] s3 = Inr ?s4"
    using sel(1) e'(1) by (simp add: ws_handleKeyDown_def submitSelection_def)
  let ?evs = "[WsKey ''Escape''] @ path_keys (sc_cursor ?s0) (x, y) @ [WsKey ''Enter''] @ path_keys (x, y) ?stop @ [WsKey ''Enter'']"
  have run: "ws_scene_run clamp cw ch ?evs s = Inr ?s4"
    unfolding scene_run_append 0 1(1) 2 3(1) 4 bind_res_simps ..
  obtain s' where "ws_scene_run clamp cw ch ?evs s = Inr s'" "scene_ok s'" "scene_frame s s'"
    using scene_run_ok [OF cl ok] by blast
  then have "scene_ok ?s4" "scene_frame s ?s4" unfolding run by simp_all
  then show ?thesis using run e'(2) by (intro exI [of _ ?evs] exI [of _ ?s4]) simp
qed

lemma find_words:
  assumes cl: "clamp_law clamp"
  shows "scene_ok s \<Longrightarrow> set ws \<subseteq> set (ws_words (sc_state s)) \<Longrightarrow> [] \<notin> set ws \<Longrightarrow>
    \<exists>evs s'. ws_scene_run clamp cw ch evs s = Inr s' \<and> scene_ok s' \<and> scene_frame s s' \<and> set ws \<subseteq> set (ws_foundWords (sc_state s'))"
proof (induction ws arbitrary: s)
  case Nil
  then show ?case by (intro exI [of _ "[]"]) simp
next
  case (Cons w ws)
  obtain evs s1 where 1: "ws_scene_run clamp cw ch evs s = Inr s1" "scene_ok s1" "scene_frame s s1"
      "w \<in> set (ws_foundWords (sc_state s1))"
    using find_one_word [OF cl Cons.prems(1), of w cw ch] Cons.prems(2,3) by auto
  have "set ws \<subseteq> set (ws_words (sc_state s1))" using Cons.prems(2) 1(3) by (simp add: scene_frame_def)
  then obtain evs' s2 where 2: "ws_scene_run clamp cw ch evs' s1 = Inr s2" "scene_ok s2" "scene_frame s1 s2"
      "set ws \<subseteq> set (ws_foundWords (sc_state s2))"
    using Cons.IH [OF 1(2)] Cons.prems(3) by auto
  have "ws_scene_run clamp cw ch (evs @ evs') s = Inr s2" using 1(1) 2(1) by (simp add: scene_run_append)
  moreover have "set (w # ws) \<subseteq> set (ws_foundWords (sc_state s2))"
    using 1(4) 2(3,4) by (auto simp: scene_frame_def)
  ultimately show ?case using 2(2) frame_trans [OF 1(3) 2(3)] by blast
qed


section \<open>Drawing a found word\<close>

lemma first_some_None: "first_some f xs = None \<longleftrightarrow> (\<forall>x \<in> set xs. f x = None)"
  by (induction xs) (auto split: option.splits)

lemma first_some_Some: "first_some f xs = Some y \<Longrightarrow> \<exists>x \<in> set xs. f x = Some y"
  by (induction xs) (auto split: option.splits)

lemma first_some_exists: "x \<in> set xs \<Longrightarrow> f x \<noteq> None \<Longrightarrow> first_some f xs \<noteq> None"
  by (auto simp: first_some_None)

lemma follow_spec:
  "follow g W H x y dx dy i cs = Some ps \<Longrightarrow>
   length ps = length cs \<and> (\<forall>k < length cs. ps ! k = on_line x y dx dy (i + k)
     \<and> grid_cell g (x + int (i + k) * dx) (y + int (i + k) * dy) = Some [cs ! k])"
proof (induction g W H x y dx dy i cs arbitrary: ps rule: follow.induct)
  case (1 g width height x y dx dy i)
  then show ?case by simp
next
  case (2 g width height x y dx dy i c cs)
  then obtain qs where q: "follow g width height x y dx dy (Suc i) cs = Some qs"
      "ps = (x + dx * int i, y + dy * int i) # qs" "grid_cell g (x + dx * int i) (y + dy * int i) = Some [c]"
    by (auto simp: Let_def split: if_splits)
  have IH: "length qs = length cs" "\<And>k. k < length cs \<Longrightarrow> qs ! k = on_line x y dx dy (Suc i + k)
     \<and> grid_cell g (x + int (Suc i + k) * dx) (y + int (Suc i + k) * dy) = Some [cs ! k]"
    using "2.IH" [OF refl refl _ q(1)] "2.prems" by (auto simp: Let_def split: if_splits)
  have "ps ! k = on_line x y dx dy (i + k) \<and> grid_cell g (x + int (i + k) * dx) (y + int (i + k) * dy) = Some [(c # cs) ! k]"
    if "k < length (c # cs)" for k
  proof (cases k)
    case 0
    then show ?thesis using q(2,3) by (simp add: on_line_def mult.commute)
  next
    case (Suc n)
    then show ?thesis using IH(2) [of n] q(2) that by simp
  qed
  moreover have "length ps = length (c # cs)" using IH(1) q(2) by simp
  ultimately show ?case by blast
qed

lemma follow_complete:
  assumes "grid_ok W H g" "\<forall>k < length cs. grid_cell g (x + int (i + k) * dx) (y + int (i + k) * dy) = Some [cs ! k]"
  shows "follow g (int W) (int H) x y dx dy i cs \<noteq> None"
  using assms(2)
proof (induction cs arbitrary: i)
  case Nil
  then show ?case by simp
next
  case (Cons c cs)
  have c: "grid_cell g (x + dx * int i) (y + dy * int i) = Some [c]" using Cons.prems by (force simp: mult.commute)
  have r: "0 \<le> x + dx * int i \<and> x + dx * int i < int W \<and> 0 \<le> y + dy * int i \<and> y + dy * int i < int H"
    using grid_cell_range [OF assms(1), of "x + dx * int i" "y + dy * int i"] c by simp
  have "\<forall>k < length cs. grid_cell g (x + int (Suc i + k) * dx) (y + int (Suc i + k) * dy) = Some [cs ! k]"
    using Cons.prems by (metis Suc_less_eq add_Suc_shift length_Cons nth_Cons_Suc)
  then have "follow g (int W) (int H) x y dx dy (Suc i) cs \<noteq> None" by (rule Cons.IH)
  then show ?case using c r by (auto simp: Let_def)
qed

lemma findWordInGrid_sound:
  assumes "findWordInGrid w g W H = Some ps"
  shows "length ps = length w \<and> (\<exists>x y dx dy. (dx, dy) \<in> set all_dirs \<and> ps = map (on_line x y dx dy) [0..<length w]
    \<and> reads g w x y dx dy)"
proof -
  obtain y x dx dy qs where q: "w \<noteq> []" "grid_cell g (int x) (int y) = Some [w ! 0]" "(dx, dy) \<in> set all_dirs"
      "follow g (int W) (int H) (int x) (int y) dx dy 1 (tl w) = Some qs" "ps = (int x, int y) # qs"
    using assms unfolding findWordInGrid_def by (fastforce dest!: first_some_Some split: if_splits)
  note f = follow_spec [OF q(4)]
  have k: "ps ! k = on_line (int x) (int y) dx dy k \<and> grid_cell g (int x + int k * dx) (int y + int k * dy) = Some [w ! k]"
    if "k < length w" for k
  proof (cases k)
    case 0
    then show ?thesis using q(2,5) by (simp add: on_line_def)
  next
    case (Suc n)
    then have n: "n < length (tl w)" using that by simp
    then have "qs ! n = on_line (int x) (int y) dx dy (Suc n)"
        "grid_cell g (int x + int (Suc n) * dx) (int y + int (Suc n) * dy) = Some [tl w ! n]"
      using f by (metis plus_1_eq_Suc)+
    then show ?thesis using Suc n q(5) by (simp add: on_line_def nth_tl)
  qed
  then have "ps = map (on_line (int x) (int y) dx dy) [0..<length w]"
    using f q(1,5) by (intro nth_equalityI) auto
  moreover have "reads g w (int x) (int y) dx dy" using k by (simp add: reads_def list_all_iff)
  moreover have "length ps = length w" using f q(1,5) by simp
  ultimately show ?thesis using q(3) by blast
qed

lemma findWordInGrid_complete:
  assumes "grid_ok W H g" "hidden_in g w" "w \<noteq> []"
  shows "findWordInGrid w g W H \<noteq> None"
proof -
  obtain x y dx dy where r: "direction dx dy" "reads g w x y dx dy" using assms(2) by (auto simp: hidden_in_def)
  have c0: "grid_cell g x y = Some [w ! 0]" using reads_nth [OF r(2), of 0] assms(3) by simp
  then have b: "0 \<le> x" "x < int W" "0 \<le> y" "y < int H" using grid_cell_range [OF assms(1), of x y] by simp_all
  have "\<forall>k < length (tl w). grid_cell g (x + int (1 + k) * dx) (y + int (1 + k) * dy) = Some [tl w ! k]"
  proof (intro allI impI)
    fix k assume "k < length (tl w)"
    then show "grid_cell g (x + int (1 + k) * dx) (y + int (1 + k) * dy) = Some [tl w ! k]"
      using reads_nth [OF r(2), of "Suc k"] by (simp add: nth_tl)
  qed
  then have f: "follow g (int W) (int H) x y dx dy 1 (tl w) \<noteq> None" by (rule follow_complete [OF assms(1)])
  have d: "(dx, dy) \<in> set all_dirs" using r(1) by (auto simp: direction_def all_dirs_def)
  let ?dirs = "\<lambda>x y (dx, dy). map_option (Cons (int x, int y)) (follow g (int W) (int H) (int x) (int y) dx dy 1 (tl w))"
  let ?cell = "\<lambda>x y. if w \<noteq> [] \<and> grid_cell g (int x) (int y) = Some [w ! 0] then first_some (?dirs x y) all_dirs else None"
  have "first_some (?dirs (nat x) (nat y)) all_dirs \<noteq> None"
    using first_some_exists [OF d, of "?dirs (nat x) (nat y)"] f b by simp
  then have "?cell (nat x) (nat y) \<noteq> None" using b c0 assms(3) by simp
  then have "first_some (\<lambda>x. ?cell x (nat y)) [0..<W] \<noteq> None"
    by (rule first_some_exists [of "nat x", rotated]) (use b in simp)
  then have "first_some (\<lambda>y. first_some (\<lambda>x. ?cell x y) [0..<W]) [0..<H] \<noteq> None"
    by (rule first_some_exists [of "nat y", rotated]) (use b in simp)
  then show ?thesis unfolding findWordInGrid_def .
qed

section \<open>Properties\<close>

text \<open>C6: A word search is dealt correctly. For every nonempty list of words (the constructor rejects an
  empty one), every size and every nonnegative integer seed (doubles do not overflow in the model) the constructor succeeds; the grid has the
  declared size and one capital letter in every cell; every word to find is one of the normalised input
  words, listed once, and can be read in the grid along a row, a column or a falling diagonal; an input
  word is left out only if 500 random positions for it failed on a grid that holds nothing but
  letters of the listed words; nothing is found yet.\<close>

theorem word_search_dealt:
  assumes "words \<noteq> []" "nonneg_int seed"
  shows "\<exists>e. word_search_new words width height seed = Inr e
    \<and> grid_ok width height (ws_grid (we_state e))
    \<and> (\<forall>x y c. grid_cell (ws_grid (we_state e)) x y = Some c \<longrightarrow> one_letter c)
    \<and> distinct (ws_words (we_state e)) \<and> set (ws_words (we_state e)) \<subseteq> normalizeWord ` set words
    \<and> (\<forall>w \<in> set (ws_words (we_state e)). hidden_in (ws_grid (we_state e)) w)
    \<and> (\<forall>w \<in> normalizeWord ` set words. w \<in> set (ws_words (we_state e))
         \<or> unplaceable width height (ws_words (we_state e)) (ws_grid (we_state e)) w)
    \<and> ws_foundWords (we_state e) = []"
proof -
  obtain e where e: "word_search_new words width height seed = Inr e" "ws_board (we_state e)"
      "set (ws_words (we_state e)) \<subseteq> set (map normalizeWord words)" "ws_foundWords (we_state e) = []"
      "ws_width (we_state e) = width" "ws_height (we_state e) = height"
    using word_search_new_shape [OF assms] by blast
  then show ?thesis using word_search_new_dropped [OF e(1) assms(2)] by (auto simp: ws_board_def)
qed

theorem word_search_dealt_witness:
  "\<exists>e. word_search_new [''sol'', ''luna''] 6 5 1234 = Inr e \<and> distinct (ws_words (we_state e))"
  using word_search_dealt [of "[''sol'', ''luna'']" 1234 6 5] by (auto simp: nonneg_int_def)

text \<open>Playing a word search never fails. Under every sequence of pointer and key events no line that
  leaves the board is ever submitted (no TypeError), the grid and the words stay, the words found
  are different words of the list, the score is a hundred per word found, and the game is finished
  exactly when there is a word and all are found.\<close>

theorem word_search_screen_safe:
  assumes "clamp_law clamp" "words \<noteq> []" "nonneg_int seed" "0 < width" "0 < height"
    and "word_search_new words width height seed = Inr e"
  shows "\<exists>s. ws_scene_run clamp cw ch evs (ws_scene_new l e) = Inr s
    \<and> ws_grid (sc_state s) = ws_grid (we_state e) \<and> ws_words (sc_state s) = ws_words (we_state e)
    \<and> set (ws_foundWords (sc_state s)) \<subseteq> set (ws_words (we_state e)) \<and> distinct (ws_foundWords (sc_state s))
    \<and> ws_score (sc_state s) = 100 * length (ws_foundWords (sc_state s))
    \<and> (ws_isFinished (sc_state s) \<longleftrightarrow>
         ws_words (we_state e) \<noteq> [] \<and> set (ws_foundWords (sc_state s)) = set (ws_words (we_state e)))"
proof -
  have e: "sc_state (ws_scene_new l e) = we_state e" by (simp add: ws_scene_new_def word_search_subscribe_def)
  obtain s where "ws_scene_run clamp cw ch evs (ws_scene_new l e) = Inr s" "scene_ok s" "scene_frame (ws_scene_new l e) s"
    using scene_run_ok [OF assms(1) scene_new_ok [OF assms(2-6)]] by blast
  then show ?thesis by (auto simp: scene_ok_def scene_frame_def ws_progress_def e)
qed

definition sample_search :: word_search_engine where
  "sample_search = (case word_search_new [''sol'', ''luna''] 6 5 1234 of Inr e \<Rightarrow> e | Inl _ \<Rightarrow> undefined)"

lemma sample_search_new: "word_search_new [''sol'', ''luna''] 6 5 1234 = Inr sample_search"
  using word_search_new_shape [of "[''sol'', ''luna'']" 1234 6 5] by (auto simp: sample_search_def nonneg_int_def)

theorem word_search_screen_safe_witness:
  "\<exists>s. ws_scene_run std_clamp 720 720 [WsKey ''Enter'', WsKey ''ArrowLeft'', WsKey ''Enter''] (ws_scene_new 1 sample_search) = Inr s
     \<and> ws_grid (sc_state s) = ws_grid (we_state sample_search)"
  using word_search_screen_safe [OF std_clamp_law _ _ _ _ sample_search_new, of 720 720
    "[WsKey ''Enter'', WsKey ''ArrowLeft'', WsKey ''Enter'']" 1]
  by (auto simp: nonneg_int_def)

text \<open>C23: A word search with at least one placed word, none of them empty, can be finished from every state
  a player can reach: some sequence of events finds all remaining words, and the score is then a
  hundred per word.\<close>

theorem word_search_winnable:
  assumes "clamp_law clamp" "words \<noteq> []" "nonneg_int seed" "0 < width" "0 < height"
    and "word_search_new words width height seed = Inr e" "ws_words (we_state e) \<noteq> []" "[] \<notin> set (ws_words (we_state e))"
    and "ws_scene_run clamp cw ch evs (ws_scene_new l e) = Inr s"
  shows "\<exists>evs' s'. ws_scene_run clamp cw ch evs' s = Inr s' \<and> ws_isFinished (sc_state s')
    \<and> ws_score (sc_state s') = 100 * length (ws_words (we_state e))"
proof -
  have e: "sc_state (ws_scene_new l e) = we_state e" by (simp add: ws_scene_new_def word_search_subscribe_def)
  have ok: "scene_ok s" "scene_frame (ws_scene_new l e) s"
    using scene_run_ok [OF assms(1) scene_new_ok [OF assms(2-6)], of cw ch evs l] assms(9) by auto
  then have w: "ws_words (sc_state s) = ws_words (we_state e)" by (simp add: scene_frame_def e)
  obtain evs' s' where r: "ws_scene_run clamp cw ch evs' s = Inr s'" "scene_ok s'" "scene_frame s s'"
      "set (ws_words (sc_state s)) \<subseteq> set (ws_foundWords (sc_state s'))"
    using find_words [OF assms(1) ok(1) order_refl, of cw ch] assms(8) w by auto
  have w': "ws_words (sc_state s') = ws_words (we_state e)" using r(3) w by (simp add: scene_frame_def)
  have p: "ws_progress (sc_state s')" "distinct (ws_words (sc_state s'))" using r(2) by (simp_all add: scene_ok_def ws_board_def)
  then have f: "set (ws_foundWords (sc_state s')) = set (ws_words (we_state e))" using r(4) w w' by (auto simp: ws_progress_def)
  then have "length (ws_foundWords (sc_state s')) = length (ws_words (we_state e))"
    using p w' distinct_card unfolding ws_progress_def by metis
  then show ?thesis using r(1) p(1) f w' assms(7) by (auto simp: ws_progress_def)
qed

definition tiny_search :: word_search_engine where
  "tiny_search = (case word_search_new [''a''] 1 1 12 of Inr e \<Rightarrow> e | Inl _ \<Rightarrow> undefined)"

lemma tiny_placed: "fst (place_attempts 500 1 1 ''A'' [[[]]] 12)"
proof -
  have "lcg_step 9301 49297 233280 (of_int 12) = of_int ((12 * 9301 + 49297) mod 233280)"
    by (rule lcg_step_exact) simp_all
  then have r: "word_search_random 12 = (fl (of_int 160909 / of_int 233280), 160909)"
    by (simp add: word_search_random_def)
  have d: "rand_index (fl (of_int 160909 / of_int 233280)) 3 = 2"
    using rand_index_exact [of 160909 233280 3] by simp
  have n: "nonneg_int 160909" "nonneg_int (snd (word_search_random 160909))"
    using ws_rng.rnd_ok [of 160909] by (simp_all add: nonneg_int_def)
  have x: "rand_index (fst (word_search_random 160909)) (Suc 0) = 0"
      "rand_index (fst (word_search_random (snd (word_search_random 160909)))) (Suc 0) = 0"
    using ws_rng.index_range [OF n(1), of 1] ws_rng.index_range [OF n(2), of 1] by auto
  have "fst (place_attempts (Suc n) 1 1 ''A'' [[[]]] 12)" for n
    using r d x by (simp add: Let_def case_prod_beta ws_canPlaceWord_def
        grid_cell_def)
  from this [of 499] show ?thesis by simp
qed

lemma tiny_search_new: "word_search_new [''a''] 1 1 12 = Inr tiny_search" "ws_words (we_state tiny_search) = [''A'']"
proof -
  show n: "word_search_new [''a''] 1 1 12 = Inr tiny_search"
    using word_search_new_shape [of "[''a'']" 12 1 1] by (auto simp: tiny_search_def nonneg_int_def)
  have "normalizeWord ''a'' = ''A''" by code_simp
  then show "ws_words (we_state tiny_search) = [''A'']"
    unfolding word_search_new_words [OF n] using tiny_placed by (simp add: Let_def case_prod_beta)
qed

theorem word_search_winnable_witness:
  "\<exists>evs' s'. ws_scene_run std_clamp 720 720 evs' (ws_scene_new 1 tiny_search) = Inr s' \<and> ws_isFinished (sc_state s')"
  using word_search_winnable [OF std_clamp_law _ _ _ _ tiny_search_new(1), of 720 720 "[]" 1 "ws_scene_new 1 tiny_search"]
    tiny_search_new(2)
  by (force simp: nonneg_int_def)

text \<open>A word without ASCII letters makes the level impossible: it is normalised to the empty word, which
  counts as placed, but no selection can ever read as it, so the game is never finished.\<close>

theorem word_search_empty_word_stuck:
  assumes "clamp_law clamp" "words \<noteq> []" "nonneg_int seed" "0 < width" "0 < height"
    and "word_search_new words width height seed = Inr e" "w \<in> set words" "normalizeWord w = []"
    and "ws_scene_run clamp cw ch evs (ws_scene_new l e) = Inr s"
  shows "\<not> ws_isFinished (sc_state s)"
proof -
  have e: "sc_state (ws_scene_new l e) = we_state e" by (simp add: ws_scene_new_def word_search_subscribe_def)
  have "scene_ok s" "scene_frame (ws_scene_new l e) s"
    using scene_run_ok [OF assms(1) scene_new_ok [OF assms(2-6)], of cw ch evs l] assms(9) by auto
  moreover have "[] \<in> set (ws_words (we_state e))" using empty_word_kept [OF assms(6)] assms(7,8) by force
  ultimately show ?thesis by (auto simp: scene_ok_def scene_frame_def ws_progress_def e)
qed

definition digits_search :: word_search_engine where
  "digits_search = (case word_search_new [''sol'', ''123''] 6 5 1234 of Inr e \<Rightarrow> e | Inl _ \<Rightarrow> undefined)"

theorem word_search_empty_word_stuck_witness:
  "\<not> ws_isFinished (sc_state (ws_scene_new 1 digits_search))"
proof (rule word_search_empty_word_stuck [OF std_clamp_law, of "[''sol'', ''123'']" 1234 6 5 digits_search "''123''" 720 720 "[]" 1])
  show "word_search_new [''sol'', ''123''] 6 5 1234 = Inr digits_search"
    using word_search_new_shape [of "[''sol'', ''123'']" 1234 6 5] by (auto simp: digits_search_def nonneg_int_def)
  show "normalizeWord ''123'' = []" by code_simp
qed (simp_all add: nonneg_int_def)

text \<open>A found word can always be drawn: for every non-empty hidden word the search returns one coordinate
  per letter, on a straight line in one of the eight directions along which the word reads.\<close>

theorem word_search_redraw:
  assumes "grid_ok width height g" "hidden_in g w" "w \<noteq> []"
  shows "\<exists>x y dx dy. (dx, dy) \<in> set all_dirs \<and> reads g w x y dx dy
    \<and> findWordInGrid w g width height = Some (map (on_line x y dx dy) [0..<length w])"
proof -
  obtain ps where ps: "findWordInGrid w g width height = Some ps" using findWordInGrid_complete [OF assms] by blast
  then show ?thesis using findWordInGrid_sound [OF ps] by blast
qed

theorem word_search_redraw_witness:
  "findWordInGrid ''AB'' [[''A'', ''B''], [''C'', ''D'']] 2 2 \<noteq> None"
proof -
  have "reads [[''A'', ''B''], [''C'', ''D'']] ''AB'' 0 0 1 0" by code_simp
  then have "hidden_in [[''A'', ''B''], [''C'', ''D'']] ''AB''" unfolding hidden_in_def direction_def by blast
  then show ?thesis using word_search_redraw [of 2 2 "[[''A'', ''B''], [''C'', ''D'']]" "''AB''"] by (auto simp: grid_ok_def)
qed

end
