(* ===== verification/Stores.thy ===== *)
theory Stores
  imports JsText
begin

text \<open>
  The state containers of \<open>src/stores/\<close> (session, synchronisation, current game, settings), the route
  guard \<open>src/features/auth/ProtectedRoute.tsx\<close> with the routes of \<open>src/App.tsx\<close>, and the two
  storages of \<open>src/lib/persistenceStorage.ts\<close>.
\<close>

section \<open>Session: \<open>useAuthStore.ts\<close>\<close>

datatype user_role = Admin | Operator | Director | Player

datatype user_status = Active | Suspended | PendingTutorConsent | Deleted

record user =
  user_id :: string
  full_name :: string
  is_adult :: bool
  user_role :: user_role
  user_status :: user_status
  created_at :: string

record auth_state =
  au_user :: "user option"
  au_token :: "string option"
  au_refreshToken :: "string option"
  au_isAuthenticated :: bool

definition auth_initial :: auth_state where
  "auth_initial = \<lparr>au_user = None, au_token = None, au_refreshToken = None, au_isAuthenticated = False\<rparr>"

definition login :: "user \<Rightarrow> string \<Rightarrow> string option \<Rightarrow> auth_state \<Rightarrow> auth_state" where
  "login user token refreshToken st =
     st\<lparr>au_user := Some user, au_token := Some token, au_refreshToken := refreshToken, au_isAuthenticated := True\<rparr>"

definition updateUser :: "user \<Rightarrow> auth_state \<Rightarrow> auth_state" where
  "updateUser user st = st\<lparr>au_user := Some user\<rparr>"

definition logout :: "auth_state \<Rightarrow> auth_state" where
  "logout st = st\<lparr>au_user := None, au_token := None, au_refreshToken := None, au_isAuthenticated := False\<rparr>"

datatype auth_action = Login user string "string option" | UpdateUser user | Logout

fun auth_step :: "auth_action \<Rightarrow> auth_state \<Rightarrow> auth_state" where
  "auth_step (Login u t r) st = login u t r st"
| "auth_step (UpdateUser u) st = updateUser u st"
| "auth_step Logout st = logout st"

text \<open>Whoever counts as authenticated has a user and a token.\<close>

definition auth_ok :: "auth_state \<Rightarrow> bool" where
  "auth_ok st \<longleftrightarrow> (au_isAuthenticated st \<longrightarrow> au_user st \<noteq> None \<and> au_token st \<noteq> None)"

lemma auth_ok_steps [simp, wf_intros]:
  "auth_ok auth_initial" "auth_ok (login u t r st)" "auth_ok (logout st)" "auth_ok st \<Longrightarrow> auth_ok (updateUser u st)"
  by (simp_all add: auth_ok_def auth_initial_def login_def logout_def updateUser_def)

lemma auth_run_ok: "auth_ok st \<Longrightarrow> auth_ok (fold auth_step acts st)"
proof (induction acts arbitrary: st)
  case (Cons a acts)
  then have "auth_ok (auth_step a st)" by (cases a) simp_all
  then show ?case using Cons.IH by simp
qed simp

section \<open>Routes: \<open>ProtectedRoute.tsx\<close> and \<open>App.tsx\<close>\<close>

datatype page = PLogin | PRegister | PPrivacy | PDashboard | PSection | PLevel | PLocalLevel | PProfile | PSettings
  | PArco | PAdmin | PAdminArco | PMaker | PUnauthorized

datatype route_result = RedirectLogin | RedirectUnauthorized | Children page

definition ProtectedRoute :: "auth_state \<Rightarrow> user_role list option \<Rightarrow> page \<Rightarrow> route_result" where
  "ProtectedRoute st allowedRoles children =
     (if \<not> au_isAuthenticated st then RedirectLogin
      else case (allowedRoles, au_user st) of
             (Some roles, Some user) \<Rightarrow> if user_role user \<notin> set roles then RedirectUnauthorized else Children children
           | _ \<Rightarrow> Children children)"

text \<open>
  The route table: path, guard and page. The root and every other path redirect to the login page.
  Which entry a path selects is up to the router library.
\<close>

datatype guard = Open | Guarded "user_role list option"

definition app_routes :: "(string \<times> guard \<times> page) list" where
  "app_routes =
    [(''/login'', Open, PLogin), (''/register'', Open, PRegister), (''/privacidad'', Open, PPrivacy),
     (''/dashboard'', Guarded None, PDashboard), (''/sections/:sectionId'', Guarded None, PSection),
     (''/levels/:levelId/play'', Guarded None, PLevel), (''/local-play/:levelId'', Guarded None, PLocalLevel),
     (''/profile'', Guarded None, PProfile), (''/settings'', Guarded None, PSettings), (''/arco'', Guarded None, PArco),
     (''/admin'', Guarded (Some [Admin, Operator, Director]), PAdmin),
     (''/admin/arco'', Guarded (Some [Admin, Director]), PAdminArco),
     (''/maker'', Guarded None, PMaker), (''/unauthorized'', Open, PUnauthorized)]"

definition route_element :: "auth_state \<Rightarrow> guard \<Rightarrow> page \<Rightarrow> route_result" where
  "route_element st g p = (case g of Open \<Rightarrow> Children p | Guarded roles \<Rightarrow> ProtectedRoute st roles p)"

definition opens :: "auth_state \<Rightarrow> page \<Rightarrow> bool" where
  "opens st p = list_ex (\<lambda>(path, g, q). q = p \<and> route_element st g q = Children q) app_routes"

text \<open>\<open>DashboardPage.tsx\<close>: who is offered the administration page.\<close>

definition canManageContent :: "auth_state \<Rightarrow> bool" where
  "canManageContent st =
     (case au_user st of None \<Rightarrow> False
      | Some user \<Rightarrow> user_role user = Admin \<or> user_role user = Operator \<or> user_role user = Director)"

definition public_pages :: "page list" where
  "public_pages = [PLogin, PRegister, PPrivacy, PUnauthorized]"

section \<open>Synchronisation status: \<open>useSyncStore.ts\<close>\<close>

record sync_state =
  sy_isOnline :: bool
  sy_isSyncing :: bool
  sy_lastSyncTime :: "string option"
  sy_pendingItemsCount :: nat
  sy_deviceId :: "string option"

definition sync_initial :: sync_state where
  "sync_initial = \<lparr>sy_isOnline = True, sy_isSyncing = False, sy_lastSyncTime = None, sy_pendingItemsCount = 0,
     sy_deviceId = None\<rparr>"

definition setOnlineStatus :: "bool \<Rightarrow> sync_state \<Rightarrow> sync_state" where
  "setOnlineStatus status st = st\<lparr>sy_isOnline := status\<rparr>"

definition setSyncing :: "bool \<Rightarrow> sync_state \<Rightarrow> sync_state" where
  "setSyncing b st = st\<lparr>sy_isSyncing := b\<rparr>"

definition recordSyncSuccess :: "string \<Rightarrow> sync_state \<Rightarrow> sync_state" where
  "recordSyncSuccess now st = st\<lparr>sy_lastSyncTime := Some now, sy_isSyncing := False, sy_pendingItemsCount := 0\<rparr>"

definition setPendingCount :: "nat \<Rightarrow> sync_state \<Rightarrow> sync_state" where
  "setPendingCount n st = st\<lparr>sy_pendingItemsCount := n\<rparr>"

definition setDeviceId :: "string option \<Rightarrow> sync_state \<Rightarrow> sync_state" where
  "setDeviceId d st = st\<lparr>sy_deviceId := d\<rparr>"

section \<open>Current game: \<open>useGameStore.ts\<close>\<close>

record game_store =
  gs_isGameActive :: bool
  gs_currentGameId :: "string option"
  gs_currentScore :: int

definition game_initial :: game_store where
  "game_initial = \<lparr>gs_isGameActive = False, gs_currentGameId = None, gs_currentScore = 0\<rparr>"

definition startGame :: "string \<Rightarrow> game_store \<Rightarrow> game_store" where
  "startGame gameId st = st\<lparr>gs_isGameActive := True, gs_currentGameId := Some gameId, gs_currentScore := 0\<rparr>"

definition updateScore :: "int \<Rightarrow> game_store \<Rightarrow> game_store" where
  "updateScore score st = st\<lparr>gs_currentScore := score\<rparr>"

definition endGame :: "game_store \<Rightarrow> game_store" where
  "endGame st = st\<lparr>gs_isGameActive := False, gs_currentGameId := None, gs_currentScore := 0\<rparr>"

section \<open>Settings: \<open>useSettingsStore.ts\<close>\<close>

datatype color_filter = NoFilter | Deuteranopia | Protanopia | Tritanopia

datatype text_scale = ScaleNormal | ScaleLarge | ScaleLarger

datatype theme = Light | Dark

record settings =
  se_colorBlindFilter :: color_filter
  se_theme :: theme
  se_muteGameSounds :: bool
  se_reduceMotion :: bool
  se_textScale :: text_scale

definition settings_initial :: settings where
  "settings_initial = \<lparr>se_colorBlindFilter = NoFilter, se_theme = Light, se_muteGameSounds = False,
     se_reduceMotion = False, se_textScale = ScaleNormal\<rparr>"

fun filter_class :: "color_filter \<Rightarrow> string list" where
  "filter_class NoFilter = []"
| "filter_class Deuteranopia = [''deuteranopia'']"
| "filter_class Protanopia = [''protanopia'']"
| "filter_class Tritanopia = [''tritanopia'']"

text \<open>The class list of the root element, a list of distinct tokens: \<open>add\<close>, \<open>remove\<close>, \<open>toggle\<close>.\<close>

definition class_add :: "string list \<Rightarrow> string list \<Rightarrow> string list" where
  "class_add cs html = html @ filter (\<lambda>c. c \<notin> set html) cs"

definition class_remove :: "string list \<Rightarrow> string list \<Rightarrow> string list" where
  "class_remove cs html = filter (\<lambda>c. c \<notin> set cs) html"

definition class_toggle :: "string \<Rightarrow> bool \<Rightarrow> string list \<Rightarrow> string list" where
  "class_toggle c force html = (if force then class_add [c] html else class_remove [c] html)"

definition applyDocumentClasses :: "settings \<Rightarrow> string list \<Rightarrow> string list" where
  "applyDocumentClasses st html =
     (let html = class_toggle ''dark'' (se_theme st = Dark) html;
          html = class_remove [''deuteranopia'', ''protanopia'', ''tritanopia''] html;
          html = class_add (filter_class (se_colorBlindFilter st)) html;
          html = class_toggle ''reduce-motion'' (se_reduceMotion st) html;
          html = class_remove [''text-scale-large'', ''text-scale-larger''] html;
          html = (if se_textScale st = ScaleLarge then class_add [''text-scale-large''] html else html)
      in if se_textScale st = ScaleLarger then class_add [''text-scale-larger''] html else html)"

text \<open>The setters write the store and then restyle the document; muting the sounds does not.\<close>

definition setColorBlindFilter :: "color_filter \<Rightarrow> settings \<times> string list \<Rightarrow> settings \<times> string list" where
  "setColorBlindFilter f = (\<lambda>(st, html). let st = st\<lparr>se_colorBlindFilter := f\<rparr> in (st, applyDocumentClasses st html))"

definition setTheme :: "theme \<Rightarrow> settings \<times> string list \<Rightarrow> settings \<times> string list" where
  "setTheme t = (\<lambda>(st, html). let st = st\<lparr>se_theme := t\<rparr> in (st, applyDocumentClasses st html))"

definition setMuteGameSounds :: "bool \<Rightarrow> settings \<times> string list \<Rightarrow> settings \<times> string list" where
  "setMuteGameSounds m = (\<lambda>(st, html). (st\<lparr>se_muteGameSounds := m\<rparr>, html))"

definition setReduceMotion :: "bool \<Rightarrow> settings \<times> string list \<Rightarrow> settings \<times> string list" where
  "setReduceMotion r = (\<lambda>(st, html). let st = st\<lparr>se_reduceMotion := r\<rparr> in (st, applyDocumentClasses st html))"

definition setTextScale :: "text_scale \<Rightarrow> settings \<times> string list \<Rightarrow> settings \<times> string list" where
  "setTextScale s = (\<lambda>(st, html). let st = st\<lparr>se_textScale := s\<rparr> in (st, applyDocumentClasses st html))"

datatype settings_action = SetFilter color_filter | SetTheme theme | SetMute bool | SetMotion bool | SetScale text_scale

fun settings_step :: "settings_action \<Rightarrow> settings \<times> string list \<Rightarrow> settings \<times> string list" where
  "settings_step (SetFilter f) = setColorBlindFilter f"
| "settings_step (SetTheme t) = setTheme t"
| "settings_step (SetMute m) = setMuteGameSounds m"
| "settings_step (SetMotion r) = setReduceMotion r"
| "settings_step (SetScale s) = setTextScale s"

text \<open>The classes the settings govern, and the ones they ask for.\<close>

definition managed_classes :: "string list" where
  "managed_classes = [''dark'', ''deuteranopia'', ''protanopia'', ''tritanopia'', ''reduce-motion'', ''text-scale-large'',
     ''text-scale-larger'']"

definition wanted_classes :: "settings \<Rightarrow> string set" where
  "wanted_classes st = (if se_theme st = Dark then {''dark''} else {}) \<union> set (filter_class (se_colorBlindFilter st))
     \<union> (if se_reduceMotion st then {''reduce-motion''} else {})
     \<union> (case se_textScale st of ScaleNormal \<Rightarrow> {} | ScaleLarge \<Rightarrow> {''text-scale-large''} | ScaleLarger \<Rightarrow> {''text-scale-larger''})"

lemma class_sets [simp]:
  "set (class_add cs html) = set html \<union> set cs"
  "set (class_remove cs html) = set html - set cs"
  "set (class_toggle c b html) = (if b then insert c (set html) else set html - {c})"
  by (auto simp: class_add_def class_remove_def class_toggle_def)

lemma applyDocumentClasses_set:
  "set (applyDocumentClasses st html) = (set html - set managed_classes) \<union> wanted_classes st"
proof (cases "se_textScale st"; cases "se_colorBlindFilter st"; cases "se_theme st"; cases "se_reduceMotion st")
qed (auto simp: applyDocumentClasses_def Let_def managed_classes_def wanted_classes_def)

text \<open>The document agrees with the settings.\<close>

definition styled :: "string set \<Rightarrow> settings \<times> string list \<Rightarrow> bool" where
  "styled other = (\<lambda>(st, html). set html = other \<union> wanted_classes st)"

lemma wanted_managed: "wanted_classes st \<subseteq> set managed_classes"
  by (cases "se_textScale st"; cases "se_colorBlindFilter st")
    (auto simp: wanted_classes_def managed_classes_def split: if_splits)

lemma settings_step_styled:
  assumes "other \<inter> set managed_classes = {}" "styled other s"
  shows "styled other (settings_step a s)"
proof -
  obtain st html where s: "s = (st, html)" by fastforce
  have h: "set (applyDocumentClasses st' html) = other \<union> wanted_classes st'" for st'
    using assms wanted_managed [of st] unfolding applyDocumentClasses_set s styled_def by auto
  have m: "wanted_classes (st\<lparr>se_muteGameSounds := m\<rparr>) = wanted_classes st" for m
    by (simp add: wanted_classes_def)
  show ?thesis
  proof (cases a)
    case (SetMute x)
    then show ?thesis using assms(2) by (simp add: s styled_def setMuteGameSounds_def m)
  qed (simp_all add: s styled_def Let_def h setColorBlindFilter_def setTheme_def setReduceMotion_def setTextScale_def)
qed

text \<open>The document always looks like the settings. After any sequence of changes in the settings page the
  root element carries exactly the classes the settings ask for, beside the foreign classes it had;
  applying the classes again (as a reload does) changes nothing.\<close>

theorem settings_document_in_step:
  "let (st, html) = fold settings_step acts (settings_initial, applyDocumentClasses settings_initial html0)
   in set html = (set html0 - set managed_classes) \<union> wanted_classes st \<and> set (applyDocumentClasses st html) = set html"
proof -
  let ?other = "set html0 - set managed_classes" and ?start = "(settings_initial, applyDocumentClasses settings_initial html0)"
  have run: "styled ?other s \<Longrightarrow> styled ?other (fold settings_step acts s)" for s
  proof (induction acts arbitrary: s)
    case (Cons a acts)
    have "styled ?other (settings_step a s)" by (rule settings_step_styled [OF _ Cons.prems]) blast
    then show ?case using Cons.IH by simp
  qed simp
  obtain st html where r: "fold settings_step acts ?start = (st, html)" by fastforce
  have "set html = ?other \<union> wanted_classes st"
    using run [of ?start] unfolding r by (simp add: styled_def applyDocumentClasses_set)
  then show ?thesis unfolding r using wanted_managed [of st] by (auto simp: applyDocumentClasses_set)
qed

section \<open>Access\<close>

text \<open>
  Who may see a page, written out page by page: everybody (\<open>None\<close>), or the signed-in users of these
  roles.
\<close>

fun page_roles :: "page \<Rightarrow> user_role list option" where
  "page_roles PLogin = None"
| "page_roles PRegister = None"
| "page_roles PPrivacy = None"
| "page_roles PUnauthorized = None"
| "page_roles PAdmin = Some [Admin, Operator, Director]"
| "page_roles PAdminArco = Some [Admin, Director]"
| "page_roles PDashboard = Some [Admin, Operator, Director, Player]"
| "page_roles PSection = Some [Admin, Operator, Director, Player]"
| "page_roles PLevel = Some [Admin, Operator, Director, Player]"
| "page_roles PLocalLevel = Some [Admin, Operator, Director, Player]"
| "page_roles PProfile = Some [Admin, Operator, Director, Player]"
| "page_roles PSettings = Some [Admin, Operator, Director, Player]"
| "page_roles PArco = Some [Admin, Operator, Director, Player]"
| "page_roles PMaker = Some [Admin, Operator, Director, Player]"

definition may_see :: "auth_state \<Rightarrow> page \<Rightarrow> bool" where
  "may_see st p =
     (case page_roles p of
        None \<Rightarrow> True
      | Some roles \<Rightarrow> au_isAuthenticated st \<and> (case au_user st of None \<Rightarrow> False | Some u \<Rightarrow> user_role u \<in> set roles))"

lemma any_role: "user_role u \<in> {Admin, Operator, Director, Player}"
  by (cases "user_role u") auto

lemma opens_may_see:
  assumes "auth_ok st"
  shows "opens st p \<longleftrightarrow> may_see st p"
  using assms any_role
  by (cases p) (auto simp: opens_def app_routes_def route_element_def ProtectedRoute_def may_see_def auth_ok_def
      split: option.splits)

text \<open>C8: Everybody sees exactly the pages they may. Whatever sequence of logins, profile updates and
  logouts came before, each page opens exactly for its users: the login, registration, privacy and
  refusal pages for everybody; the dashboard, section, level, local level, profile, settings, ARCO
  and maker pages for every signed-in user; the administration page for the admins, operators and
  directors; the ARCO resolution page for admins and directors. Whoever is signed in has a user and a
  token, and the dashboard offers the administration page exactly when it opens.\<close>

theorem routes_respect_roles:
  "let st = fold auth_step acts auth_initial;
       has_role = (\<lambda>roles. au_isAuthenticated st \<and> (\<exists>u. au_user st = Some u \<and> user_role u \<in> roles)) in
     (\<forall>p. opens st p \<longleftrightarrow> may_see st p)
     \<and> (\<forall>p. opens st p \<longrightarrow> p \<in> set public_pages \<or> au_isAuthenticated st \<and> au_user st \<noteq> None \<and> au_token st \<noteq> None)
     \<and> (opens st PAdmin \<longleftrightarrow> has_role {Admin, Operator, Director})
     \<and> (opens st PAdminArco \<longleftrightarrow> has_role {Admin, Director})
     \<and> (au_isAuthenticated st \<longrightarrow> (canManageContent st \<longleftrightarrow> opens st PAdmin))"
proof -
  define st where "st = fold auth_step acts auth_initial"
  have ok: "auth_ok st" unfolding st_def by (rule auth_run_ok) simp
  note o = opens_may_see [OF ok]
  have public: "p \<in> set public_pages \<or> au_isAuthenticated st \<and> au_user st \<noteq> None \<and> au_token st \<noteq> None"
    if "opens st p" for p
    using that ok by (cases p) (auto simp: o may_see_def public_pages_def auth_ok_def split: option.splits)
  have role: "opens st PAdmin \<longleftrightarrow> au_isAuthenticated st \<and> (\<exists>u. au_user st = Some u \<and> user_role u \<in> {Admin, Operator, Director})"
    "opens st PAdminArco \<longleftrightarrow> au_isAuthenticated st \<and> (\<exists>u. au_user st = Some u \<and> user_role u \<in> {Admin, Director})"
    by (auto simp: o may_see_def split: option.splits)
  have "au_isAuthenticated st \<longrightarrow> (canManageContent st \<longleftrightarrow> opens st PAdmin)"
    unfolding role(1) by (auto simp: canManageContent_def split: option.splits)
  then show ?thesis unfolding st_def [symmetric] Let_def using public role o by blast
qed

definition sample_user :: "user_role \<Rightarrow> user" where
  "sample_user r = \<lparr>user_id = ''u1'', full_name = ''Ana'', is_adult = True, user_role = r, user_status = Active,
     created_at = ''2026-01-01''\<rparr>"

theorem routes_respect_roles_witness:
  "opens (fold auth_step [Login (sample_user Operator) ''t'' None] auth_initial) PAdmin
   \<and> \<not> opens (fold auth_step [Login (sample_user Operator) ''t'' None] auth_initial) PAdminArco
   \<and> \<not> opens (fold auth_step [Login (sample_user Operator) ''t'' None, Logout] auth_initial) PDashboard"
  using routes_respect_roles [of "[Login (sample_user Operator) ''t'' None]"]
    routes_respect_roles [of "[Login (sample_user Operator) ''t'' None, Logout]"]
  by (auto simp: Let_def login_def logout_def auth_initial_def sample_user_def public_pages_def)

end
