(* ===== verification/Zod.thy ===== *)
theory Zod
  imports JsText
begin

text \<open>
  The interface to the validation library zod, on which every runtime check of the program rests. The
  schemas are data (\<open>zschema\<close>, one constructor per builder the source calls); which values a schema
  accepts is the library's business: the locale \<open>zod\<close> states its documented behaviour, one law per
  builder, over two parameters for the e-mail and UUID patterns. \<open>conforms\<close> shows that the laws can
  hold, and is what the examples evaluate.
\<close>

section \<open>Schemas\<close>

datatype zcheck = CMin rat | CMax rat | CLength nat | CInt | CEmail | CUuid

datatype zschema =
    ZString "zcheck list"
  | ZNumber "zcheck list"
  | ZBoolean
  | ZUnknown
  | ZEnum "string list"
  | ZArray zschema "zcheck list"
  | ZObject "(string \<times> zschema) list"
  | ZOptional zschema
  | ZNullable zschema
  | ZDefault zschema
  | ZUnion "zschema list"
  | ZRefine zschema "json option \<Rightarrow> bool"

text \<open>
  \<open>ZRefine\<close> is \<open>superRefine\<close>: the predicate says that the refinement function adds no issue.
  \<open>zfields\<close> are the properties an \<open>extend\<close> starts from.
\<close>

fun zfields :: "zschema \<Rightarrow> (string \<times> zschema) list" where
  "zfields (ZObject fs) = fs"
| "zfields _ = []"

text \<open>The checks on strings, numbers and arrays; a check of another kind of value does not arise.\<close>

fun string_check :: "(string \<Rightarrow> bool) \<Rightarrow> (string \<Rightarrow> bool) \<Rightarrow> zcheck \<Rightarrow> string \<Rightarrow> bool" where
  "string_check email uuid (CMin n) s = (n \<le> of_nat (length s))"
| "string_check email uuid (CMax n) s = (of_nat (length s) \<le> n)"
| "string_check email uuid (CLength n) s = (length s = n)"
| "string_check email uuid CEmail s = email s"
| "string_check email uuid CUuid s = uuid s"
| "string_check email uuid CInt s = True"

fun number_check :: "zcheck \<Rightarrow> rat \<Rightarrow> bool" where
  "number_check (CMin n) x = (n \<le> x)"
| "number_check (CMax n) x = (x \<le> n)"
| "number_check CInt x = (x = of_int \<lfloor>x\<rfloor>)"
| "number_check _ x = True"

fun array_check :: "zcheck \<Rightarrow> 'a list \<Rightarrow> bool" where
  "array_check (CMin n) xs = (n \<le> of_nat (length xs))"
| "array_check (CMax n) xs = (of_nat (length xs) \<le> n)"
| "array_check (CLength n) xs = (length xs = n)"
| "array_check _ xs = True"

section \<open>The interface\<close>

text \<open>
  Two versions of the library are installed: the schema package asks for version 3, the front end for version 4, whose \<open>int()\<close> also
  refuses integers beyond the safe range. The laws leave open what happens there.
\<close>

definition safe_integer :: "rat \<Rightarrow> bool" where
  "safe_integer x \<longleftrightarrow> \<bar>x\<bar> \<le> 9007199254740991"

text \<open>A value is \<open>None\<close> when it is \<open>undefined\<close> (a missing property), otherwise a JSON value.\<close>

locale zod =
  fixes accepts :: "zschema \<Rightarrow> json option \<Rightarrow> bool"
    and email :: "string \<Rightarrow> bool"
    and uuid :: "string \<Rightarrow> bool"
  assumes z_string: "accepts (ZString cs) v \<longleftrightarrow> (\<exists>s. v = Some (JStr s) \<and> (\<forall>c \<in> set cs. string_check email uuid c s))"
    and z_number: "accepts (ZNumber cs) v \<Longrightarrow> \<exists>x. v = Some (JNum x) \<and> (\<forall>c \<in> set cs. number_check c x)"
    and z_number_safe: "\<forall>c \<in> set cs. number_check c x \<Longrightarrow> CInt \<in> set cs \<longrightarrow> safe_integer x \<Longrightarrow> accepts (ZNumber cs) (Some (JNum x))"
    and z_boolean: "accepts ZBoolean v \<longleftrightarrow> (\<exists>b. v = Some (JBool b))"
    and z_unknown: "accepts ZUnknown v"
    and z_enum: "accepts (ZEnum ss) v \<longleftrightarrow> (\<exists>s \<in> set ss. v = Some (JStr s))"
    and z_array: "accepts (ZArray sch cs) v \<longleftrightarrow>
      (\<exists>xs. v = Some (JArr xs) \<and> (\<forall>x \<in> set xs. accepts sch (Some x)) \<and> (\<forall>c \<in> set cs. array_check c xs))"
    and z_object: "accepts (ZObject fs) v \<longleftrightarrow>
      (\<exists>kvs. v = Some (JObj kvs) \<and> (\<forall>(k, sch) \<in> set fs. accepts sch (map_of kvs k)))"
    and z_optional: "accepts (ZOptional sch) v \<longleftrightarrow> v = None \<or> accepts sch v"
    and z_nullable: "accepts (ZNullable sch) v \<longleftrightarrow> v = Some JNull \<or> accepts sch v"
    and z_default: "accepts (ZDefault sch) v \<longleftrightarrow> v = None \<or> accepts sch v"
    and z_union: "accepts (ZUnion schs) v \<longleftrightarrow> (\<exists>sch \<in> set schs. accepts sch v)"
    and z_refine: "accepts (ZRefine sch p) v \<longleftrightarrow> accepts sch v \<and> p v"
begin

lemmas z_laws = z_string z_boolean z_unknown z_enum z_array z_object z_optional z_nullable z_default z_union z_refine

text \<open>What an accepted object holds, property by property.\<close>

lemma object_prop: "accepts (ZObject fs) (Some (JObj kvs)) \<Longrightarrow> (k, sch) \<in> set fs \<Longrightarrow> accepts sch (map_of kvs k)"
  by (auto simp: z_object)

lemma object_get: "accepts (ZObject fs) (Some j) \<Longrightarrow> (k, sch) \<in> set fs \<Longrightarrow> \<exists>v. get_prop j k = Inr v \<and> accepts sch v"
  by (auto simp: z_object)

lemma string_prop: "accepts (ZString cs) v \<Longrightarrow> v = Some (JStr (string_or [] v))"
  by (auto simp: z_string)

lemma string_min: "accepts (ZString [CMin (of_nat n)]) v \<Longrightarrow> n \<le> length (string_or [] v)"
  by (auto simp: z_string)

lemma number_prop: "accepts (ZNumber cs) v \<Longrightarrow> v = Some (JNum (num_or 0 v))"
  by (auto dest!: z_number)

lemma array_items: "accepts (ZArray sch cs) (Some v) \<Longrightarrow> \<exists>xs. v = JArr xs \<and> (\<forall>x \<in> set xs. accepts sch (Some x))"
  by (auto simp: z_array)

lemma object_or_array: "accepts (ZObject fs) (Some j) \<Longrightarrow> \<exists>kvs. j = JObj kvs"
  by (auto simp: z_object)

end

section \<open>An instance\<close>

fun conforms :: "(string \<Rightarrow> bool) \<Rightarrow> (string \<Rightarrow> bool) \<Rightarrow> zschema \<Rightarrow> json option \<Rightarrow> bool"
  and conforms_fields :: "(string \<Rightarrow> bool) \<Rightarrow> (string \<Rightarrow> bool) \<Rightarrow> (string \<times> zschema) list \<Rightarrow> (string \<times> json) list \<Rightarrow> bool"
  and conforms_some :: "(string \<Rightarrow> bool) \<Rightarrow> (string \<Rightarrow> bool) \<Rightarrow> zschema list \<Rightarrow> json option \<Rightarrow> bool" where
  "conforms em uu (ZString cs) v = (case v of Some (JStr s) \<Rightarrow> list_all (\<lambda>c. string_check em uu c s) cs | _ \<Rightarrow> False)"
| "conforms em uu (ZNumber cs) v = (case v of Some (JNum x) \<Rightarrow> list_all (\<lambda>c. number_check c x) cs | _ \<Rightarrow> False)"
| "conforms em uu ZBoolean v = (case v of Some (JBool _) \<Rightarrow> True | _ \<Rightarrow> False)"
| "conforms em uu ZUnknown v = True"
| "conforms em uu (ZEnum ss) v = (case v of Some (JStr s) \<Rightarrow> s \<in> set ss | _ \<Rightarrow> False)"
| "conforms em uu (ZArray sch cs) v =
     (case v of Some (JArr xs) \<Rightarrow> list_all (\<lambda>x. conforms em uu sch (Some x)) xs \<and> list_all (\<lambda>c. array_check c xs) cs | _ \<Rightarrow> False)"
| "conforms em uu (ZObject fs) v = (case v of Some (JObj kvs) \<Rightarrow> conforms_fields em uu fs kvs | _ \<Rightarrow> False)"
| "conforms em uu (ZOptional sch) v = (v = None \<or> conforms em uu sch v)"
| "conforms em uu (ZNullable sch) v = (v = Some JNull \<or> conforms em uu sch v)"
| "conforms em uu (ZDefault sch) v = (v = None \<or> conforms em uu sch v)"
| "conforms em uu (ZUnion schs) v = conforms_some em uu schs v"
| "conforms em uu (ZRefine sch p) v = (conforms em uu sch v \<and> p v)"
| "conforms_fields em uu [] kvs = True"
| "conforms_fields em uu ((k, sch) # fs) kvs = (conforms em uu sch (map_of kvs k) \<and> conforms_fields em uu fs kvs)"
| "conforms_some em uu [] v = False"
| "conforms_some em uu (sch # schs) v = (conforms em uu sch v \<or> conforms_some em uu schs v)"

lemma conforms_fields_all: "conforms_fields em uu fs kvs \<longleftrightarrow> (\<forall>(k, sch) \<in> set fs. conforms em uu sch (map_of kvs k))"
  by (induction fs) auto

lemma conforms_some_ex: "conforms_some em uu schs v \<longleftrightarrow> (\<exists>sch \<in> set schs. conforms em uu sch v)"
  by (induction schs) auto

interpretation zod_ref: zod "conforms em uu" em uu for em uu
  by unfold_locales
    (auto simp: conforms_fields_all conforms_some_ex list_all_iff split: option.splits json.splits)

fun safe_json :: "json \<Rightarrow> bool" where
  "safe_json (JNum x) = safe_integer x"
| "safe_json (JArr xs) = list_all safe_json xs"
| "safe_json (JObj kvs) = list_all (\<lambda>(k, v). safe_json v) kvs"
| "safe_json j = True"

definition safe_value :: "json option \<Rightarrow> bool" where
  "safe_value v = (case v of None \<Rightarrow> True | Some j \<Rightarrow> safe_json j)"

lemma safe_value_simps [simp]: "safe_value None" "safe_value (Some j) = safe_json j"
  by (simp_all add: safe_value_def)

lemma safe_map_of: "list_all (\<lambda>(k, v). safe_json v) kvs \<Longrightarrow> safe_value (map_of kvs k)"
  by (induction kvs) (auto simp: safe_value_def)

text \<open>On values whose numbers are in the safe range the laws leave no freedom: a library that obeys them accepts exactly
  what \<open>conforms\<close> computes.\<close>

lemma zod_unique_with:
  assumes "zod accepts email uuid"
  shows "em = email \<Longrightarrow> uu = uuid \<Longrightarrow> safe_value v \<Longrightarrow> accepts sch v = conforms em uu sch v"
    and "em = email \<Longrightarrow> uu = uuid \<Longrightarrow> list_all (\<lambda>(k, v). safe_json v) kvs \<Longrightarrow>
      (\<forall>(k, s) \<in> set fs. accepts s (map_of kvs k)) = conforms_fields em uu fs kvs"
    and "em = email \<Longrightarrow> uu = uuid \<Longrightarrow> safe_value v \<Longrightarrow> (\<exists>s \<in> set schs. accepts s v) = conforms_some em uu schs v"
proof (induction em uu sch v and em uu fs kvs and em uu schs v
    rule: conforms_conforms_fields_conforms_some.induct)
  case (2 em uu cs v)
  show ?case
  proof (cases "\<exists>x. v = Some (JNum x)")
    case True
    then obtain x where x: "v = Some (JNum x)" "safe_integer x" using "2.prems" by auto
    then show ?thesis using zod.z_number [OF assms, of cs v] zod.z_number_safe [OF assms, of cs x]
      by (auto simp: list_all_iff)
  next
    case False
    then show ?thesis using zod.z_number [OF assms, of cs v] by (auto split: option.splits json.splits)
  qed
qed (use assms in \<open>auto simp: zod.z_laws [OF assms] list_all_iff safe_map_of split: option.splits json.splits\<close>)

lemmas zod_unique = zod_unique_with(1) [OF _ refl refl]

end
