(* ===== verification/Schema.thy ===== *)
theory Schema
  imports Zod JsNumber
begin

text \<open>
  The schemas of the program: the package \<open>packages/schema/index.ts\<close> with \<open>snakes.ts\<close> (prefix
  \<open>pkg_\<close>), and the copy \<open>src/lib/schema.ts\<close> that adds the responses of the server (prefix
  \<open>lib_\<close>). Each definition is the builder expression of the source, term by term.
\<close>

section \<open>Snakes and ladders: \<open>packages/schema/snakes.ts\<close>\<close>

definition pkg_SnakeLadderItemSchema :: zschema where
  "pkg_SnakeLadderItemSchema =
    ZObject [(''start'', ZNumber [CInt, CMin 1]), (''end'', ZNumber [CInt, CMin 1])]"

definition pkg_SnakesObject :: zschema where
  "pkg_SnakesObject =
    ZObject [(''board_width'', ZNumber [CInt, CMin 1]), (''board_height'', ZNumber [CInt, CMin 1]),
     (''start_position'', ZNumber [CInt, CMin 1]), (''end_position'', ZNumber [CInt, CMin 1]),
     (''seed'', ZOptional (ZNumber [CInt])), (''snakes'', ZOptional (ZArray (pkg_SnakeLadderItemSchema) [])),
     (''ladders'', ZOptional (ZArray (pkg_SnakeLadderItemSchema) [])), (''ai_config'', ZOptional (ZObject [
     (''difficulty'', ZEnum [''EASY'', ''MEDIUM'', ''HARD'']),
     (''fail_probability'', ZOptional (ZNumber [CMin 0, CMax 1])),
     (''weights'', ZOptional (ZArray (ZNumber [CMin 0]) []))])), (''questions'', ZArray (ZObject [
     (''question'', ZString [CMin 1]), (''options'', ZArray (ZString []) [CLength 2]),
     (''correct_index'', ZNumber [CInt, CMin 0])]) [CMin 8])]"

text \<open>
  The refinement of \<open>SnakesSchema\<close>: the issues it adds, in order. It runs over the parsed value, whose
  properties are those of the input.
\<close>

definition js_prop :: "string \<Rightarrow> json \<Rightarrow> json option" where
  "js_prop k j = (case j of JObj kvs \<Rightarrow> map_of kvs k | _ \<Rightarrow> None)"

definition js_num :: "string \<Rightarrow> json \<Rightarrow> rat" where
  "js_num k j = num_or 0 (js_prop k j)"

definition js_items :: "string \<Rightarrow> json \<Rightarrow> json list" where
  "js_items k j = (case js_prop k j of Some (JArr xs) \<Rightarrow> xs | _ \<Rightarrow> [])"

fun link_issues :: "(rat \<Rightarrow> rat \<Rightarrow> bool) \<Rightarrow> string \<Rightarrow> json list \<Rightarrow> rat list \<Rightarrow> string list \<times> rat list" where
  "link_issues wrong message [] origins = ([], origins)"
| "link_issues wrong message (l # ls) origins =
     (let start = js_num ''start'' l;
          bad = (if wrong start (js_num ''end'' l) then [message] else []);
          dup = (if start \<in> set origins then [''Duplicate origin''] else []);
          (issues, origins) = link_issues wrong message ls (start # origins)
      in (bad @ dup @ issues, origins))"

definition question_issues :: "json \<Rightarrow> string list" where
  "question_issues q =
     (let options = js_items ''options'' q
      in (if js_num ''correct_index'' q \<ge> of_nat (length options) then [''Correct option index out of range''] else [])
         @ concat (map (\<lambda>opt. if length (trim (string_or [] (Some opt))) = 0 then [''Option cannot be empty''] else []) options))"

definition snakes_issues :: "json \<Rightarrow> string list" where
  "snakes_issues data =
     (let total_cells = fl (js_num ''board_width'' data * js_num ''board_height'' data);
          range = (if js_num ''end_position'' data > total_cells then [''End position out of range''] else []);
          (snakes, origins) = link_issues (\<lambda>s e. s \<le> e) ''Snake must go down'' (js_items ''snakes'' data) [];
          (ladders, origins) = link_issues (\<lambda>s e. s \<ge> e) ''Ladder must go up'' (js_items ''ladders'' data) origins
      in range @ snakes @ ladders @ concat (map question_issues (js_items ''questions'' data)))"

definition pkg_SnakesSchema :: zschema where
  "pkg_SnakesSchema = ZRefine pkg_SnakesObject (\<lambda>v. case v of Some data \<Rightarrow> snakes_issues data = [] | None \<Rightarrow> True)"

section \<open>The package: \<open>packages/schema/index.ts\<close>\<close>

definition pkg_RegisterSchema :: zschema where
  "pkg_RegisterSchema =
    ZObject [(''full_name'', ZString [CMin 2, CMax 120]), (''email'', ZString [CEmail]),
     (''phone'', ZOptional (ZString [])), (''password'', ZString [CMin 8]), (''is_adult'', ZBoolean),
     (''privacy_notice_version'', ZString [])]"

definition pkg_LoginSchema :: zschema where
  "pkg_LoginSchema =
    ZObject [(''email'', ZString [CEmail]), (''password'', ZString [])]"

definition pkg_TutorConsentSchema :: zschema where
  "pkg_TutorConsentSchema =
    ZObject [(''user_id'', ZString [CUuid]), (''tutor_name'', ZString []), (''tutor_email'', ZString [CEmail]),
     (''privacy_notice_version'', ZString [])]"

definition pkg_ArcoSchema :: zschema where
  "pkg_ArcoSchema =
    ZObject [(''request_type'', ZEnum [''acceso'', ''rectificacion'', ''cancelacion'', ''oposicion'']),
     (''details'', ZOptional (ZString [CMax 1000]))]"

definition pkg_LevelAttemptItemSchema :: zschema where
  "pkg_LevelAttemptItemSchema =
    ZObject [(''level_id'', ZString [CUuid]), (''attempt_date'', ZString []),
     (''attempt_number'', ZNumber [CInt, CMin 1]), (''xp_awarded'', ZNumber [CInt, CMin 0]),
     (''completed'', ZBoolean)]"

definition pkg_SyncPayloadSchema :: zschema where
  "pkg_SyncPayloadSchema =
    ZObject [(''level_attempts'', ZArray (pkg_LevelAttemptItemSchema) []),
     (''daily_streak_dates'', ZOptional (ZArray (ZString []) [])),
     (''badge_ids_earned'', ZOptional (ZArray (ZString [CUuid]) []))]"

definition pkg_SyncEventSchema :: zschema where
  "pkg_SyncEventSchema =
    ZObject [(''sync_event_id'', ZString [CUuid]), (''user_id'', ZString [CUuid]),
     (''device_id'', ZString [CUuid]), (''crypto_key_version'', ZNumber [CInt]),
     (''payload'', pkg_SyncPayloadSchema), (''hmac_signature'', ZString [])]"

definition pkg_MultipleChoiceSchema :: zschema where
  "pkg_MultipleChoiceSchema =
    ZObject [(''question'', ZString [CMin 1]), (''options'', ZArray (ZString []) [CMin 2, CMax 4]),
     (''correct_index'', ZNumber [CInt, CMin 0, CMax 3]), (''media_url'', ZOptional (ZString []))]"

definition pkg_DragAndDropItemSchema :: zschema where
  "pkg_DragAndDropItemSchema =
    ZObject [(''id'', ZString []), (''content'', ZString []), (''target_id'', ZString [])]"

definition pkg_DragAndDropSchema :: zschema where
  "pkg_DragAndDropSchema =
    ZObject [(''items'', ZArray (pkg_DragAndDropItemSchema) [CMin 1]), (''targets'', ZArray (ZObject [
     (''id'', ZString []), (''label'', ZString [])]) [CMin 1])]"

definition pkg_MemoryPairSchema :: zschema where
  "pkg_MemoryPairSchema =
    ZObject [(''id'', ZString []), (''content1'', ZString []), (''content2'', ZString []),
     (''color'', ZOptional (ZString []))]"

definition pkg_MemorySchema :: zschema where
  "pkg_MemorySchema =
    ZObject [(''back_color'', ZOptional (ZString [])), (''pairs'', ZArray (pkg_MemoryPairSchema) [CMin 4])]"

definition pkg_FakeNewsItemSchema :: zschema where
  "pkg_FakeNewsItemSchema =
    ZObject [(''title'', ZString [CMin 1]), (''content'', ZString [CMin 1]), (''isFake'', ZBoolean),
     (''explanation'', ZOptional (ZString [])), (''imageUrl'', ZOptional (ZString [])),
     (''reference'', ZString [])]"

definition pkg_FakeNewsSchema :: zschema where
  "pkg_FakeNewsSchema =
    ZObject [(''news'', ZArray (pkg_FakeNewsItemSchema) [CMin 1])]"

definition pkg_CrosswordWordSchema :: zschema where
  "pkg_CrosswordWordSchema =
    ZObject [(''word'', ZString [CMin 2]), (''clue'', ZString [CMin 1])]"

definition pkg_CrosswordSchema :: zschema where
  "pkg_CrosswordSchema =
    ZObject [(''words'', ZArray (pkg_CrosswordWordSchema) [CMin 2])]"

definition pkg_WordSearchSchema :: zschema where
  "pkg_WordSearchSchema =
    ZObject [(''words'', ZArray (ZString [CMin 2]) [CMin 2]),
     (''width'', ZOptional (ZNumber [CInt, CMin 5, CMax 24])),
     (''height'', ZOptional (ZNumber [CInt, CMin 5, CMax 24])), (''seed'', ZOptional (ZNumber [CInt]))]"

definition pkg_PuzzleSchema :: zschema where
  "pkg_PuzzleSchema =
    ZObject [(''phrase'', ZString [CMin 1]), (''pieces'', ZDefault (ZNumber [CInt, CMin 3, CMax 20])),
     (''seed'', ZOptional (ZNumber [CInt]))]"

definition pkg_TemplateTypeSchema :: zschema where
  "pkg_TemplateTypeSchema =
    ZEnum [''trivia'', ''puzzle'', ''word_search'', ''fake_news'', ''crossword'', ''memory'', ''snakes_ladders'']"

definition pkg_LevelMetadataSchema :: zschema where
  "pkg_LevelMetadataSchema =
    ZObject [(''id'', ZString [CUuid]), (''title'', ZString [CMin 1]), (''author'', ZString [CMin 1]),
     (''creation_date'', ZString []), (''color'', ZString [CMin 1]),
     (''difficulty'', ZNumber [CInt, CMin 1, CMax 10]), (''template_type'', pkg_TemplateTypeSchema)]"

definition pkg_LevelExportSchema :: zschema where
  "pkg_LevelExportSchema =
    ZObject [(''metadata'', pkg_LevelMetadataSchema),
     (''content'', ZUnion [ZArray (pkg_MultipleChoiceSchema) [], pkg_DragAndDropSchema, pkg_MemorySchema, pkg_FakeNewsSchema, pkg_CrosswordSchema, pkg_WordSearchSchema, pkg_PuzzleSchema, pkg_SnakesSchema])]"

section \<open>The application: \<open>src/lib/schema.ts\<close>\<close>

definition lib_RegisterSchema :: zschema where
  "lib_RegisterSchema =
    ZObject [(''full_name'', ZString [CMin 2, CMax 120]), (''email'', ZString [CEmail]),
     (''phone'', ZOptional (ZString [])), (''password'', ZString [CMin 8]), (''is_adult'', ZBoolean),
     (''privacy_notice_version'', ZString [])]"

definition lib_LoginSchema :: zschema where
  "lib_LoginSchema =
    ZObject [(''email'', ZString [CEmail]), (''password'', ZString [])]"

definition lib_TutorConsentSchema :: zschema where
  "lib_TutorConsentSchema =
    ZObject [(''user_id'', ZString [CUuid]), (''tutor_name'', ZString []), (''tutor_email'', ZString [CEmail]),
     (''privacy_notice_version'', ZString [])]"

definition lib_ArcoSchema :: zschema where
  "lib_ArcoSchema =
    ZObject [(''request_type'', ZEnum [''acceso'', ''rectificacion'', ''cancelacion'', ''oposicion'']),
     (''details'', ZOptional (ZString [CMax 1000]))]"

definition lib_LevelAttemptItemSchema :: zschema where
  "lib_LevelAttemptItemSchema =
    ZObject [(''level_id'', ZString [CUuid]), (''attempt_date'', ZString []),
     (''attempt_number'', ZNumber [CInt, CMin 1]), (''xp_awarded'', ZNumber [CInt, CMin 0]),
     (''score'', ZNumber [CInt, CMin 0]), (''completed'', ZBoolean)]"

definition lib_SyncPayloadSchema :: zschema where
  "lib_SyncPayloadSchema =
    ZObject [(''level_attempts'', ZArray (lib_LevelAttemptItemSchema) []),
     (''daily_streak_dates'', ZOptional (ZArray (ZString []) [])),
     (''badge_ids_earned'', ZOptional (ZArray (ZString [CUuid]) []))]"

definition lib_SyncEventSchema :: zschema where
  "lib_SyncEventSchema =
    ZObject [(''sync_event_id'', ZString [CUuid]), (''user_id'', ZString [CUuid]),
     (''device_id'', ZString [CUuid]), (''crypto_key_version'', ZNumber [CInt]),
     (''payload'', lib_SyncPayloadSchema), (''hmac_signature'', ZString [])]"

definition lib_UserRoleSchema :: zschema where
  "lib_UserRoleSchema =
    ZEnum [''admin'', ''operator'', ''director'', ''player'']"

definition lib_UserStatusSchema :: zschema where
  "lib_UserStatusSchema =
    ZEnum [''active'', ''suspended'', ''pending_tutor_consent'', ''deleted'']"

definition lib_UserSchema :: zschema where
  "lib_UserSchema =
    ZObject [(''id'', ZString [CUuid]), (''full_name'', ZString []), (''is_adult'', ZBoolean),
     (''role'', lib_UserRoleSchema), (''status'', lib_UserStatusSchema), (''created_at'', ZString [])]"

definition lib_AuthResponseSchema :: zschema where
  "lib_AuthResponseSchema =
    ZObject [(''access_token'', ZString [CMin 1]), (''refresh_token'', ZString []),
     (''token_type'', ZString []), (''user'', lib_UserSchema)]"

definition lib_TemplateTypeSchema :: zschema where
  "lib_TemplateTypeSchema =
    ZEnum [''trivia'', ''puzzle'', ''word_search'', ''fake_news'', ''crossword'', ''memory'', ''snakes_ladders'']"

definition lib_BadgeSchema :: zschema where
  "lib_BadgeSchema =
    ZObject [(''id'', ZString [CUuid]), (''name'', ZString []), (''xp_threshold'', ZNumber []),
     (''icon_key'', ZString []), (''earned_at'', ZString [])]"

definition lib_SectionDTOSchema :: zschema where
  "lib_SectionDTOSchema =
    ZObject [(''id'', ZString [CUuid]), (''title'', ZString []), (''description'', ZString []),
     (''color'', ZString []), (''is_published'', ZBoolean),
     (''created_by_admin_id'', ZOptional (ZString [CUuid])), (''created_at'', ZOptional (ZString []))]"

definition lib_SectionsResponseSchema :: zschema where
  "lib_SectionsResponseSchema =
    ZObject [(''items'', ZArray (lib_SectionDTOSchema) [])]"

definition lib_LevelSummaryDTOSchema :: zschema where
  "lib_LevelSummaryDTOSchema =
    ZObject [(''id'', ZString [CUuid]), (''section_id'', ZString [CUuid]), (''title'', ZString []),
     (''color'', ZString []), (''template_type'', lib_TemplateTypeSchema), (''difficulty'', ZNumber []),
     (''is_published'', ZBoolean), (''created_at'', ZString [])]"

definition lib_LevelDTOSchema :: zschema where
  "lib_LevelDTOSchema =
    ZObject (zfields lib_LevelSummaryDTOSchema @ [(''content'', ZUnknown),
     (''created_by_admin_id'', ZOptional (ZString [CUuid])), (''updated_at'', ZOptional (ZString []))])"

definition lib_LevelsPageDTOSchema :: zschema where
  "lib_LevelsPageDTOSchema =
    ZObject [(''items'', ZArray (lib_LevelSummaryDTOSchema) []), (''next_cursor'', ZOptional (ZString []))]"

definition lib_CompleteLevelResponseSchema :: zschema where
  "lib_CompleteLevelResponseSchema =
    ZObject [(''level_id'', ZString [CUuid]), (''completed'', ZBoolean), (''attempt_number'', ZNumber []),
     (''xp_awarded'', ZNumber []), (''total_xp'', ZNumber []), (''current_streak'', ZNumber []),
     (''badges_awarded'', ZArray (lib_BadgeSchema) [])]"

definition lib_ProfileProgressResponseSchema :: zschema where
  "lib_ProfileProgressResponseSchema =
    ZObject [(''total_xp'', ZNumber []), (''completed_levels'', ZNumber []), (''total_attempts'', ZNumber []),
     (''current_streak'', ZNumber []), (''badges'', ZArray (lib_BadgeSchema) []), (''levels'', ZArray (ZObject [
     (''level_id'', ZString [CUuid]), (''title'', ZString []), (''template_type'', lib_TemplateTypeSchema),
     (''difficulty'', ZNumber []), (''best_score'', ZNumber []), (''xp_total_for_level'', ZNumber []),
     (''attempts_count'', ZNumber []), (''first_completed_at'', ZOptional (ZString [])),
     (''last_completed_at'', ZOptional (ZString []))]) [])]"

definition lib_StoredSessionSchema :: zschema where
  "lib_StoredSessionSchema =
    ZObject [(''user'', lib_UserSchema), (''token'', ZString [CMin 1]),
     (''refreshToken'', ZNullable (ZString [])), (''deviceId'', ZNullable (ZString []))]"

definition lib_RegisterResponseSchema :: zschema where
  "lib_RegisterResponseSchema =
    ZObject [(''user_id'', ZString [CUuid]), (''status'', ZEnum [''active'', ''pending_tutor_consent'']),
     (''message'', ZString []), (''registration_token'', ZOptional (ZString []))]"

definition lib_SyncEventResponseSchema :: zschema where
  "lib_SyncEventResponseSchema =
    ZObject [(''status'', ZString []), (''wipe_local_data'', ZBoolean), (''server_xp_total'', ZNumber [CInt]),
     (''badges_awarded'', ZOptional (ZArray (ZString [CUuid]) []))]"

definition lib_MultipleChoiceSchema :: zschema where
  "lib_MultipleChoiceSchema =
    ZObject [(''question'', ZString [CMin 1]), (''options'', ZArray (ZString []) [CMin 2, CMax 4]),
     (''correct_index'', ZNumber [CInt, CMin 0, CMax 3]), (''media_url'', ZOptional (ZString []))]"

definition lib_DragAndDropItemSchema :: zschema where
  "lib_DragAndDropItemSchema =
    ZObject [(''id'', ZString []), (''content'', ZString []), (''target_id'', ZString [])]"

definition lib_DragAndDropSchema :: zschema where
  "lib_DragAndDropSchema =
    ZObject [(''items'', ZArray (lib_DragAndDropItemSchema) [CMin 1]), (''targets'', ZArray (ZObject [
     (''id'', ZString []), (''label'', ZString [])]) [CMin 1])]"

definition lib_MemoryPairSchema :: zschema where
  "lib_MemoryPairSchema =
    ZObject [(''id'', ZString []), (''content1'', ZString []), (''content2'', ZString []),
     (''color'', ZOptional (ZString []))]"

definition lib_MemorySchema :: zschema where
  "lib_MemorySchema =
    ZObject [(''back_color'', ZOptional (ZString [])), (''pairs'', ZArray (lib_MemoryPairSchema) [CMin 4])]"

definition lib_FakeNewsItemSchema :: zschema where
  "lib_FakeNewsItemSchema =
    ZObject [(''title'', ZString [CMin 1]), (''content'', ZString [CMin 1]), (''isFake'', ZBoolean),
     (''explanation'', ZOptional (ZString [])), (''imageUrl'', ZOptional (ZString [])),
     (''reference'', ZString [])]"

definition lib_FakeNewsSchema :: zschema where
  "lib_FakeNewsSchema =
    ZObject [(''news'', ZArray (lib_FakeNewsItemSchema) [CMin 1])]"

definition lib_CrosswordWordSchema :: zschema where
  "lib_CrosswordWordSchema =
    ZObject [(''word'', ZString [CMin 2]), (''clue'', ZString [CMin 1])]"

definition lib_CrosswordSchema :: zschema where
  "lib_CrosswordSchema =
    ZObject [(''words'', ZArray (lib_CrosswordWordSchema) [CMin 2])]"

definition lib_WordSearchSchema :: zschema where
  "lib_WordSearchSchema =
    ZObject [(''words'', ZArray (ZString [CMin 2]) [CMin 2]),
     (''width'', ZOptional (ZNumber [CInt, CMin 5, CMax 24])),
     (''height'', ZOptional (ZNumber [CInt, CMin 5, CMax 24])), (''seed'', ZOptional (ZNumber [CInt]))]"

definition lib_PuzzleSchema :: zschema where
  "lib_PuzzleSchema =
    ZObject [(''phrase'', ZString [CMin 1]), (''pieces'', ZDefault (ZNumber [CInt, CMin 3, CMax 20])),
     (''seed'', ZOptional (ZNumber [CInt]))]"

definition lib_LevelMetadataSchema :: zschema where
  "lib_LevelMetadataSchema =
    ZObject [(''id'', ZString [CUuid]), (''title'', ZString [CMin 1]), (''author'', ZString [CMin 1]),
     (''creation_date'', ZString []), (''color'', ZString [CMin 1]),
     (''difficulty'', ZNumber [CInt, CMin 1, CMax 10]), (''template_type'', lib_TemplateTypeSchema)]"

definition lib_LevelExportSchema :: zschema where
  "lib_LevelExportSchema =
    ZObject [(''metadata'', lib_LevelMetadataSchema),
     (''content'', ZUnion [ZArray (lib_MultipleChoiceSchema) [], lib_DragAndDropSchema, lib_MemorySchema, lib_FakeNewsSchema, lib_CrosswordSchema, lib_WordSearchSchema, lib_PuzzleSchema])]"

end
