(* ===== verification/Session.thy ===== *)
theory Session
  imports Schema Stores
begin

text \<open>
  Session handling: the HTTP client with its interceptors (\<open>src/lib/apiClient.ts\<close>), the session file of
  the desktop application (\<open>src/lib/secureSession.ts\<close>) and the typed readings of the server
  responses that \<open>src/lib/schema.ts\<close> validates. Outside the program, and so parameters (record
  \<open>host\<close>): the network, the validation library, the clock, random numbers, the desktop commands.
\<close>

section \<open>The host\<close>

datatype http_result = HttpOk json | HttpError nat json | NetError

record http_request =
  rq_url :: string
  rq_body :: json
  rq_token :: "string option"

text \<open>The progress a client reports (\<open>src/lib/syncEngine.ts\<close>) and a row of the local queue (\<open>src/lib/localSyncQueue.ts\<close>).\<close>

record level_attempt =
  la_level_id :: string
  la_attempt_date :: string
  la_attempt_number :: int
  la_xp_awarded :: int
  la_score :: int
  la_completed :: bool

record sync_payload =
  sp_level_attempts :: "level_attempt list"
  sp_daily_streak_dates :: "string list option"
  sp_badge_ids_earned :: "string list option"

record queue_row =
  qr_id :: string
  qr_user_id :: string
  qr_device_id :: string
  qr_payload :: sync_payload
  qr_created_at :: string

record 'w host =
  h_tauri :: bool
  h_accepts :: "zschema \<Rightarrow> json option \<Rightarrow> bool"
  h_send :: "http_request \<Rightarrow> 'w \<Rightarrow> http_result \<times> 'w"
  h_random :: "'w \<Rightarrow> rat \<times> 'w"
  h_wait :: "rat \<Rightarrow> 'w \<Rightarrow> 'w"
  h_now :: "'w \<Rightarrow> string \<times> 'w"
  h_uuid :: "'w \<Rightarrow> string \<times> 'w"
  h_game_status :: "'w \<Rightarrow> bool option \<times> 'w"
  h_sign :: "string \<Rightarrow> 'w \<Rightarrow> string option \<times> 'w"
  h_wipe :: "queue_row list \<Rightarrow> 'w \<Rightarrow> (bool \<times> queue_row list) \<times> 'w"

text \<open>
  The state of the running client: the two stores, the value under \<open>session\<close> in the session file, the local
  queue table, and, so that the effects can be reasoned about, the exchanges with the server, the waits made and the
  number of \<open>auth:unauthorized\<close> events.
\<close>

record 'w client =
  cl_world :: 'w
  cl_auth :: auth_state
  cl_sync :: sync_state
  cl_session :: "json option"
  cl_queue :: "queue_row list"
  cl_sent :: "(http_request \<times> http_result) list"
  cl_waits :: "rat list"
  cl_unauthorized :: nat

section \<open>Reading validated values\<close>

definition bool_opt :: "json option \<Rightarrow> bool option" where
  "bool_opt v = (case v of Some (JBool b) \<Rightarrow> Some b | _ \<Rightarrow> None)"

definition nullable_string :: "json option \<Rightarrow> string option option" where
  "nullable_string v = (case v of Some JNull \<Rightarrow> Some None | Some (JStr s) \<Rightarrow> Some (Some s) | _ \<Rightarrow> None)"

definition role_names :: "(string \<times> user_role) list" where
  "role_names = [(''admin'', Admin), (''operator'', Operator), (''director'', Director), (''player'', Player)]"

definition status_names :: "(string \<times> user_status) list" where
  "status_names = [(''active'', Active), (''suspended'', Suspended), (''pending_tutor_consent'', PendingTutorConsent),
     (''deleted'', Deleted)]"

text \<open>\<open>z.infer<typeof UserSchema>\<close> and its kin: the typed value behind a validated JSON value.\<close>

definition user_of_json :: "json \<Rightarrow> user option" where
  "user_of_json j =
     Option.bind (string_opt (js_prop ''id'' j)) (\<lambda>i.
     Option.bind (string_opt (js_prop ''full_name'' j)) (\<lambda>n.
     Option.bind (bool_opt (js_prop ''is_adult'' j)) (\<lambda>a.
     Option.bind (Option.bind (string_opt (js_prop ''role'' j)) (map_of role_names)) (\<lambda>r.
     Option.bind (Option.bind (string_opt (js_prop ''status'' j)) (map_of status_names)) (\<lambda>s.
     Option.bind (string_opt (js_prop ''created_at'' j)) (\<lambda>c.
     Some \<lparr>user_id = i, full_name = n, is_adult = a, user_role = r, user_status = s, created_at = c\<rparr>))))))"

definition auth_response_of_json :: "json \<Rightarrow> (user \<times> string \<times> string) option" where
  "auth_response_of_json j =
     Option.bind (Option.bind (js_prop ''user'' j) user_of_json) (\<lambda>u.
     Option.bind (string_opt (js_prop ''access_token'' j)) (\<lambda>t.
     Option.bind (string_opt (js_prop ''refresh_token'' j)) (\<lambda>r. Some (u, t, r))))"

record session =
  ss_user :: user
  ss_token :: string
  ss_refreshToken :: "string option"
  ss_deviceId :: "string option"

definition session_of_json :: "json \<Rightarrow> session option" where
  "session_of_json j =
     Option.bind (Option.bind (js_prop ''user'' j) user_of_json) (\<lambda>u.
     Option.bind (string_opt (js_prop ''token'' j)) (\<lambda>t.
     Option.bind (nullable_string (js_prop ''refreshToken'' j)) (\<lambda>r.
     Option.bind (nullable_string (js_prop ''deviceId'' j)) (\<lambda>d.
     Some \<lparr>ss_user = u, ss_token = t, ss_refreshToken = r, ss_deviceId = d\<rparr>))))"

text \<open>What is written to the session file.\<close>

fun role_name :: "user_role \<Rightarrow> string" where
  "role_name Admin = ''admin''"
| "role_name Operator = ''operator''"
| "role_name Director = ''director''"
| "role_name Player = ''player''"

fun status_name :: "user_status \<Rightarrow> string" where
  "status_name Active = ''active''"
| "status_name Suspended = ''suspended''"
| "status_name PendingTutorConsent = ''pending_tutor_consent''"
| "status_name Deleted = ''deleted''"

definition json_of_user :: "user \<Rightarrow> json" where
  "json_of_user u = JObj [(''id'', JStr (user_id u)), (''full_name'', JStr (full_name u)), (''is_adult'', JBool (is_adult u)),
     (''role'', JStr (role_name (user_role u))), (''status'', JStr (status_name (user_status u))),
     (''created_at'', JStr (created_at u))]"

definition json_or_null :: "string option \<Rightarrow> json" where
  "json_or_null v = (case v of None \<Rightarrow> JNull | Some s \<Rightarrow> JStr s)"

definition json_of_session :: "session \<Rightarrow> json" where
  "json_of_session s = JObj [(''user'', json_of_user (ss_user s)), (''token'', JStr (ss_token s)),
     (''refreshToken'', json_or_null (ss_refreshToken s)), (''deviceId'', json_or_null (ss_deviceId s))]"

section \<open>The session file: \<open>secureSession.ts\<close>\<close>

text \<open>Outside the desktop application there is no session file and the three functions do nothing.\<close>

definition persistSecureSession :: "'w host \<Rightarrow> session \<Rightarrow> 'w client \<Rightarrow> 'w client" where
  "persistSecureSession H s c = (if h_tauri H then c\<lparr>cl_session := Some (json_of_session s)\<rparr> else c)"

definition clearSecureSession :: "'w host \<Rightarrow> 'w client \<Rightarrow> 'w client" where
  "clearSecureSession H c = (if h_tauri H then c\<lparr>cl_session := None\<rparr> else c)"

text \<open>\<open>if (!raw) return\<close>: the falsy values.\<close>

definition falsy :: "json option \<Rightarrow> bool" where
  "falsy v = (case v of None \<Rightarrow> True | Some JNull \<Rightarrow> True | Some (JBool b) \<Rightarrow> \<not> b | Some (JNum x) \<Rightarrow> x = 0
     | Some (JStr s) \<Rightarrow> s = [] | _ \<Rightarrow> False)"

definition restoreSecureSession :: "'w host \<Rightarrow> 'w client \<Rightarrow> 'w client" where
  "restoreSecureSession H c =
     (if \<not> h_tauri H then c
      else case cl_session c of
             None \<Rightarrow> c
           | Some raw \<Rightarrow>
               if falsy (Some raw) then c
               else if \<not> h_accepts H lib_StoredSessionSchema (Some raw) then clearSecureSession H c
               else case session_of_json raw of
                      None \<Rightarrow> c
                    | Some s \<Rightarrow> c\<lparr>cl_auth := login (ss_user s) (ss_token s) (ss_refreshToken s) (cl_auth c),
                                 cl_sync := setDeviceId (ss_deviceId s) (cl_sync c)\<rparr>)"

section \<open>The HTTP client: \<open>apiClient.ts\<close>\<close>

text \<open>The request interceptor: the token of the session, when there is one, becomes the \<open>Authorization\<close> header.\<close>

definition bearer :: "auth_state \<Rightarrow> string option" where
  "bearer st = (case au_token st of Some t \<Rightarrow> if t = [] then None else Some t | None \<Rightarrow> None)"

definition raw_send :: "'w host \<Rightarrow> http_request \<Rightarrow> 'w client \<Rightarrow> http_result \<times> 'w client" where
  "raw_send H rq c = (let (r, w) = h_send H rq (cl_world c) in (r, c\<lparr>cl_world := w, cl_sent := cl_sent c @ [(rq, r)]\<rparr>))"

text \<open>Logging out on the way: the stores, the session file and the event the router listens to.\<close>

definition drop_session :: "'w host \<Rightarrow> 'w client \<Rightarrow> 'w client" where
  "drop_session H c =
     (let c = c\<lparr>cl_auth := logout (cl_auth c)\<rparr>; c = clearSecureSession H c
      in c\<lparr>cl_unauthorized := cl_unauthorized c + 1\<rparr>)"

text \<open>
  One request through both interceptors. \<open>retried\<close> is the \<open>_retry\<close> mark of the request configuration. The
  refresh call bypasses the interceptors; the repeated request goes through them again, marked. A failed
  refresh and the final 401 or 403 each drop the session.
\<close>

function api_request :: "'w host \<Rightarrow> bool \<Rightarrow> string \<Rightarrow> json \<Rightarrow> 'w client \<Rightarrow> http_result \<times> 'w client" where
  "api_request H retried url body c =
     (let (result, c) = raw_send H \<lparr>rq_url = url, rq_body = body, rq_token = bearer (cl_auth c)\<rparr> c
      in case result of
           HttpError status problem \<Rightarrow>
             let rejected = (\<lambda>c. (HttpError status problem,
                   if status = 401 \<or> status = 403 then drop_session H c else c))
             in (case (if status = 401 \<and> \<not> retried then au_refreshToken (cl_auth c) else None) of
                   None \<Rightarrow> rejected c
                 | Some refreshToken \<Rightarrow>
                     if refreshToken = [] then rejected c
                     else let (refreshed, c) = raw_send H \<lparr>rq_url = ''/auth/refresh'',
                                rq_body = JObj [(''refresh_token'', JStr refreshToken)], rq_token = None\<rparr> c
                          in case refreshed of
                               HttpOk data \<Rightarrow>
                                 (case (if h_accepts H lib_AuthResponseSchema (Some data)
                                        then auth_response_of_json data else None) of
                                    Some (user, access, refresh) \<Rightarrow>
                                      let c = c\<lparr>cl_auth := login user access (Some refresh) (cl_auth c)\<rparr>;
                                          c = persistSecureSession H \<lparr>ss_user = user, ss_token = access,
                                                ss_refreshToken = Some refresh, ss_deviceId = sy_deviceId (cl_sync c)\<rparr> c
                                      in api_request H True url body c
                                  | None \<Rightarrow> rejected (drop_session H c))
                             | _ \<Rightarrow> rejected (drop_session H c))
         | _ \<Rightarrow> (result, c))"
  by pat_completeness auto

text \<open>The repeated request is marked, so it is never repeated again.\<close>

termination
  by (relation "measure (\<lambda>(H, retried, url, body, c). if retried then 0 else 1)") (auto split: if_splits)

declare api_request.simps [simp del]


section \<open>Validated values are typed\<close>

context zod
begin

lemma enum_named: "accepts (ZEnum names) v \<Longrightarrow> set names = fst ` set table \<Longrightarrow>
  \<exists>x. Option.bind (string_opt v) (map_of table) = Some x"
proof -
  assume v: "accepts (ZEnum names) v" and eq: "set names = fst ` set table"
  obtain s where s: "v = Some (JStr s)" "s \<in> set names" using v unfolding z_enum by blast
  then have "map_of table s \<noteq> None" using eq by (simp add: map_of_eq_None_iff)
  then show ?thesis using s(1) by auto
qed

lemma string_typed: "accepts (ZString cs) v \<Longrightarrow> \<exists>s. v = Some (JStr s) \<and> string_opt v = Some s"
  unfolding z_string by fastforce

lemma boolean_typed: "accepts ZBoolean v \<Longrightarrow> \<exists>b. v = Some (JBool b) \<and> bool_opt v = Some b"
  unfolding z_boolean by (elim exE) (simp add: bool_opt_def)

lemma nullable_typed: "accepts (ZNullable (ZString cs)) v \<Longrightarrow> \<exists>s. nullable_string v = Some s"
  unfolding z_nullable z_string by (elim disjE exE conjE) (simp_all add: nullable_string_def)

text \<open>A user that passes the schema is a user of the program, with one of the four roles.\<close>

lemma user_typed:
  assumes "accepts lib_UserSchema v"
  shows "\<exists>u. Option.bind v user_of_json = Some u"
proof -
  obtain kvs where kvs: "v = Some (JObj kvs)"
      and f: "\<And>k sch. (k, sch) \<in> set (zfields lib_UserSchema) \<Longrightarrow> accepts sch (map_of kvs k)"
    using assms by (auto simp: lib_UserSchema_def z_object)
  have p: "accepts (ZString [CUuid]) (map_of kvs ''id'')" "accepts (ZString []) (map_of kvs ''full_name'')"
      "accepts ZBoolean (map_of kvs ''is_adult'')" "accepts (ZString []) (map_of kvs ''created_at'')"
      "accepts lib_UserRoleSchema (map_of kvs ''role'')" "accepts lib_UserStatusSchema (map_of kvs ''status'')"
    by (rule f, simp add: lib_UserSchema_def)+
  obtain i where "map_of kvs ''id'' = Some (JStr i)" using string_typed [OF p(1)] by blast
  moreover obtain n where "map_of kvs ''full_name'' = Some (JStr n)" using string_typed [OF p(2)] by blast
  moreover obtain a where "map_of kvs ''is_adult'' = Some (JBool a)" using boolean_typed [OF p(3)] by blast
  moreover obtain c where "map_of kvs ''created_at'' = Some (JStr c)" using string_typed [OF p(4)] by blast
  moreover obtain r where "Option.bind (string_opt (map_of kvs ''role'')) (map_of role_names) = Some r"
    using enum_named [OF p(5) [unfolded lib_UserRoleSchema_def], of role_names] by (auto simp: role_names_def)
  moreover obtain s where "Option.bind (string_opt (map_of kvs ''status'')) (map_of status_names) = Some s"
    using enum_named [OF p(6) [unfolded lib_UserStatusSchema_def], of status_names] by (auto simp: status_names_def)
  ultimately show ?thesis by (simp add: kvs user_of_json_def js_prop_def bool_opt_def)
qed

lemma auth_response_typed:
  assumes "accepts lib_AuthResponseSchema (Some j)"
  shows "\<exists>u t r. auth_response_of_json j = Some (u, t, r) \<and> t \<noteq> []"
proof -
  obtain kvs where kvs: "j = JObj kvs"
      and f: "\<And>k sch. (k, sch) \<in> set (zfields lib_AuthResponseSchema) \<Longrightarrow> accepts sch (map_of kvs k)"
    using assms by (auto simp: lib_AuthResponseSchema_def z_object)
  have p: "accepts lib_UserSchema (map_of kvs ''user'')" "accepts (ZString [CMin 1]) (map_of kvs ''access_token'')"
      "accepts (ZString []) (map_of kvs ''refresh_token'')"
    by (rule f, simp add: lib_AuthResponseSchema_def)+
  obtain u where "Option.bind (map_of kvs ''user'') user_of_json = Some u" using user_typed [OF p(1)] by blast
  moreover obtain t where "map_of kvs ''access_token'' = Some (JStr t)" "t \<noteq> []"
    using p(2) by (auto simp: z_string Suc_le_eq)
  moreover obtain r where "map_of kvs ''refresh_token'' = Some (JStr r)" using string_typed [OF p(3)] by blast
  ultimately show ?thesis by (simp add: kvs auth_response_of_json_def js_prop_def)
qed

lemma session_typed:
  assumes "accepts lib_StoredSessionSchema (Some j)"
  shows "\<exists>s. session_of_json j = Some s \<and> ss_token s \<noteq> []"
proof -
  obtain kvs where kvs: "j = JObj kvs"
      and f: "\<And>k sch. (k, sch) \<in> set (zfields lib_StoredSessionSchema) \<Longrightarrow> accepts sch (map_of kvs k)"
    using assms by (auto simp: lib_StoredSessionSchema_def z_object)
  have p: "accepts lib_UserSchema (map_of kvs ''user'')" "accepts (ZString [CMin 1]) (map_of kvs ''token'')"
      "accepts (ZNullable (ZString [])) (map_of kvs ''refreshToken'')" "accepts (ZNullable (ZString [])) (map_of kvs ''deviceId'')"
    by (rule f, simp add: lib_StoredSessionSchema_def)+
  obtain u where "Option.bind (map_of kvs ''user'') user_of_json = Some u" using user_typed [OF p(1)] by blast
  moreover obtain t where "map_of kvs ''token'' = Some (JStr t)" "t \<noteq> []"
    using p(2) by (auto simp: z_string Suc_le_eq)
  moreover obtain r where "nullable_string (map_of kvs ''refreshToken'') = Some r" using nullable_typed [OF p(3)] by blast
  moreover obtain d where "nullable_string (map_of kvs ''deviceId'') = Some d" using nullable_typed [OF p(4)] by blast
  ultimately show ?thesis by (simp add: kvs session_of_json_def js_prop_def)
qed

lemma role_accepted: "accepts lib_UserRoleSchema (Some (JStr (role_name r)))"
  by (cases r) (auto simp: lib_UserRoleSchema_def z_enum)

lemma status_accepted: "accepts lib_UserStatusSchema (Some (JStr (status_name s)))"
  by (cases s) (auto simp: lib_UserStatusSchema_def z_enum)

lemma json_of_session_accepted:
  assumes "uuid (user_id (ss_user s))" "ss_token s \<noteq> []"
  shows "accepts lib_StoredSessionSchema (Some (json_of_session s))"
  using assms role_accepted [of "user_role (ss_user s)"] status_accepted [of "user_status (ss_user s)"]
  by (auto simp: lib_StoredSessionSchema_def json_of_session_def lib_UserSchema_def json_of_user_def json_or_null_def
      z_laws Suc_le_eq split: option.splits)

end

lemma role_of_name: "map_of role_names (role_name r) = Some r"
  by (cases r) (simp_all add: role_names_def)

lemma status_of_name: "map_of status_names (status_name s) = Some s"
  by (cases s) (simp_all add: status_names_def)

lemma user_of_json_of_user [simp]: "user_of_json (json_of_user u) = Some u"
  by (simp add: user_of_json_def json_of_user_def js_prop_def role_of_name status_of_name bool_opt_def)

lemma nullable_json_or_null [simp]: "nullable_string (Some (json_or_null v)) = Some v"
  by (cases v) (simp_all add: nullable_string_def json_or_null_def)

lemma session_of_json_of_session [simp]: "session_of_json (json_of_session s) = Some s"
  by (simp add: session_of_json_def json_of_session_def js_prop_def)


section \<open>What a request may change\<close>

lemma raw_send_simps [simp]:
  "cl_auth (snd (raw_send H rq c)) = cl_auth c" "cl_sync (snd (raw_send H rq c)) = cl_sync c"
  "cl_session (snd (raw_send H rq c)) = cl_session c" "cl_queue (snd (raw_send H rq c)) = cl_queue c"
  "cl_sent (snd (raw_send H rq c)) = cl_sent c @ [(rq, fst (raw_send H rq c))]" "cl_waits (snd (raw_send H rq c)) = cl_waits c"
  by (simp_all add: raw_send_def case_prod_beta Let_def)

lemma drop_session_simps [simp]:
  "cl_auth (drop_session H c) = logout (cl_auth c)" "cl_sync (drop_session H c) = cl_sync c"
  "cl_session (drop_session H c) = (if h_tauri H then None else cl_session c)"
  "cl_queue (drop_session H c) = cl_queue c" "cl_sent (drop_session H c) = cl_sent c" "cl_waits (drop_session H c) = cl_waits c"
  by (simp_all add: drop_session_def clearSecureSession_def Let_def)

lemma persist_simps [simp]:
  "cl_auth (persistSecureSession H s c) = cl_auth c" "cl_sync (persistSecureSession H s c) = cl_sync c"
  "cl_session (persistSecureSession H s c) = (if h_tauri H then Some (json_of_session s) else cl_session c)"
  "cl_queue (persistSecureSession H s c) = cl_queue c" "cl_sent (persistSecureSession H s c) = cl_sent c"
  "cl_waits (persistSecureSession H s c) = cl_waits c"
  by (simp_all add: persistSecureSession_def)

text \<open>The session file agrees with the store.\<close>

definition session_in_step :: "'w host \<Rightarrow> 'w client \<Rightarrow> bool" where
  "session_in_step H c \<longleftrightarrow> (h_tauri H \<longrightarrow>
     (case cl_session c of
        None \<Rightarrow> \<not> au_isAuthenticated (cl_auth c)
      | Some j \<Rightarrow> \<exists>s. session_of_json j = Some s \<and> au_user (cl_auth c) = Some (ss_user s)
          \<and> au_token (cl_auth c) = Some (ss_token s) \<and> au_refreshToken (cl_auth c) = ss_refreshToken s))"

text \<open>The refresh step: a new session in the stores and in the file.\<close>

definition refreshed :: "'w host \<Rightarrow> user \<Rightarrow> string \<Rightarrow> string \<Rightarrow> 'w client \<Rightarrow> 'w client" where
  "refreshed H user access refresh c =
     persistSecureSession H \<lparr>ss_user = user, ss_token = access, ss_refreshToken = Some refresh,
        ss_deviceId = sy_deviceId (cl_sync c)\<rparr> (c\<lparr>cl_auth := login user access (Some refresh) (cl_auth c)\<rparr>)"

definition reject :: "'w host \<Rightarrow> nat \<Rightarrow> json \<Rightarrow> 'w client \<Rightarrow> http_result \<times> 'w client" where
  "reject H status problem c = (HttpError status problem, if status = 401 \<or> status = 403 then drop_session H c else c)"

text \<open>The outcomes of one pass through the interceptors.\<close>

lemma api_request_cases:
  obtains (passed) result c1 where "raw_send H \<lparr>rq_url = url, rq_body = body, rq_token = bearer (cl_auth c)\<rparr> c = (result, c1)"
      "\<forall>status problem. result \<noteq> HttpError status problem" "api_request H retried url body c = (result, c1)"
  | (rejected) status problem c1 where "raw_send H \<lparr>rq_url = url, rq_body = body, rq_token = bearer (cl_auth c)\<rparr> c = (HttpError status problem, c1)"
      "api_request H retried url body c = reject H status problem c1"
  | (not_refreshed) problem c1 rq r2 c2 where "\<not> retried"
      "raw_send H \<lparr>rq_url = url, rq_body = body, rq_token = bearer (cl_auth c)\<rparr> c = (HttpError 401 problem, c1)"
      "raw_send H rq c1 = (r2, c2)" "rq_url rq = ''/auth/refresh''"
      "api_request H retried url body c = reject H 401 problem (drop_session H c2)"
  | (again) problem c1 rq data c2 user access refresh where "\<not> retried"
      "raw_send H \<lparr>rq_url = url, rq_body = body, rq_token = bearer (cl_auth c)\<rparr> c = (HttpError 401 problem, c1)"
      "raw_send H rq c1 = (HttpOk data, c2)" "rq_url rq = ''/auth/refresh''" "h_accepts H lib_AuthResponseSchema (Some data)"
      "auth_response_of_json data = Some (user, access, refresh)"
      "api_request H retried url body c = api_request H True url body (refreshed H user access refresh c2)"
proof -
  obtain result c1 where s1: "raw_send H \<lparr>rq_url = url, rq_body = body, rq_token = bearer (cl_auth c)\<rparr> c = (result, c1)"
    by fastforce
  show thesis
  proof (cases result)
    case (HttpError status problem)
    note s1' = s1 [unfolded HttpError]
    show thesis
    proof (cases "status = 401 \<and> \<not> retried \<and> (\<exists>rt. au_refreshToken (cl_auth c1) = Some rt \<and> rt \<noteq> [])")
      case False
      then have "api_request H retried url body c = reject H status problem c1"
        by (subst api_request.simps) (auto simp: s1' reject_def Let_def split: option.splits)
      then show thesis using rejected s1' by blast
    next
      case True
      then obtain rt where rt: "status = 401" "\<not> retried" "au_refreshToken (cl_auth c1) = Some rt" "rt \<noteq> []" by blast
      let ?rq = "\<lparr>rq_url = ''/auth/refresh'', rq_body = JObj [(''refresh_token'', JStr rt)], rq_token = None\<rparr>"
      obtain r2 c2 where s2: "raw_send H ?rq c1 = (r2, c2)" by fastforce
      show thesis
      proof (cases "\<exists>data u t r. r2 = HttpOk data \<and> h_accepts H lib_AuthResponseSchema (Some data)
          \<and> auth_response_of_json data = Some (u, t, r)")
        case True
        then obtain data u t r where d: "r2 = HttpOk data" "h_accepts H lib_AuthResponseSchema (Some data)"
            "auth_response_of_json data = Some (u, t, r)" by blast
        have "api_request H retried url body c = api_request H True url body (refreshed H u t r c2)"
          by (subst api_request.simps) (simp add: s1' rt s2 d refreshed_def Let_def)
        then show thesis using again [OF rt(2) s1' [unfolded rt(1)] s2 [unfolded d(1)] _ d(2,3)] by simp
      next
        case no: False
        have "api_request H retried url body c = reject H 401 problem (drop_session H c2)"
        proof (cases r2)
          case (HttpOk data)
          then have "(if h_accepts H lib_AuthResponseSchema (Some data) then auth_response_of_json data else None) = None"
            using no by (cases "auth_response_of_json data") auto
          then show ?thesis by (subst api_request.simps) (simp add: s1' rt s2 HttpOk reject_def Let_def)
        qed (subst api_request.simps, simp add: s1' rt s2 reject_def Let_def)+
        then show thesis using not_refreshed [OF rt(2) s1' [unfolded rt(1)] s2] by simp
      qed
    qed
  next
    case (HttpOk j)
    have "api_request H retried url body c = (result, c1)" by (subst api_request.simps) (simp add: s1 HttpOk)
    then show thesis using passed [OF s1] HttpOk by simp
  next
    case NetError
    have "api_request H retried url body c = (result, c1)" by (subst api_request.simps) (simp add: s1 NetError)
    then show thesis using passed [OF s1] NetError by simp
  qed
qed

lemma api_request_marked:
  obtains (passed) result c1 where "raw_send H \<lparr>rq_url = url, rq_body = body, rq_token = bearer (cl_auth c)\<rparr> c = (result, c1)"
      "\<forall>status problem. result \<noteq> HttpError status problem" "api_request H True url body c = (result, c1)"
  | (rejected) status problem c1 where "raw_send H \<lparr>rq_url = url, rq_body = body, rq_token = bearer (cl_auth c)\<rparr> c = (HttpError status problem, c1)"
      "api_request H True url body c = reject H status problem c1"
  by (rule api_request_cases [of H url body c True thesis]) blast+

lemma sent_of: "raw_send H rq c = (r, c') \<Longrightarrow> cl_sent c' = cl_sent c @ [(rq, r)] \<and> cl_auth c' = cl_auth c \<and> cl_sync c' = cl_sync c
    \<and> cl_session c' = cl_session c \<and> cl_queue c' = cl_queue c \<and> cl_waits c' = cl_waits c"
  by (metis raw_send_simps fst_conv snd_conv)

lemma reject_simps [simp]:
  "cl_sent (snd (reject H st p c)) = cl_sent c" "cl_queue (snd (reject H st p c)) = cl_queue c"
  "cl_sync (snd (reject H st p c)) = cl_sync c" "cl_waits (snd (reject H st p c)) = cl_waits c"
  "fst (reject H st p c) = HttpError st p"
  by (simp_all add: reject_def)

lemma refreshed_simps [simp]:
  "cl_sent (refreshed H u t r c) = cl_sent c" "cl_queue (refreshed H u t r c) = cl_queue c"
  "cl_sync (refreshed H u t r c) = cl_sync c" "cl_waits (refreshed H u t r c) = cl_waits c"
  "cl_auth (refreshed H u t r c) = login u t (Some r) (cl_auth c)"
  by (simp_all add: refreshed_def)

text \<open>
  The exchanges of one request: its own ones and a refresh. Only the last one of its own can be a success, and
  then it is the result.
\<close>

definition request_log :: "string \<Rightarrow> json \<Rightarrow> http_result \<Rightarrow> (http_request \<times> http_result) list \<Rightarrow> bool" where
  "request_log url body r trace \<longleftrightarrow>
     (\<exists>own. rq_url (fst own) = url \<and> rq_body (fst own) = body
        \<and> (trace = [own] \<and> snd own = r
           \<or> (\<exists>refresh problem. rq_url (fst refresh) = ''/auth/refresh'' \<and> snd own = HttpError 401 problem
                \<and> (trace = [own, refresh] \<and> r = HttpError 401 problem
                   \<or> (\<exists>again. rq_url (fst again) = url \<and> rq_body (fst again) = body \<and> snd again = r
                        \<and> trace = [own, refresh, again])))))"

lemma marked_sends: "\<exists>own. rq_url (fst own) = url \<and> rq_body (fst own) = body
    \<and> snd own = fst (api_request H True url body c) \<and> cl_sent (snd (api_request H True url body c)) = cl_sent c @ [own]"
  by (cases rule: api_request_marked [of H url body c]) (auto dest!: sent_of)

lemma marked_frame:
  "cl_queue (snd (api_request H True url body c)) = cl_queue c \<and> cl_sync (snd (api_request H True url body c)) = cl_sync c
   \<and> cl_waits (snd (api_request H True url body c)) = cl_waits c"
  by (cases rule: api_request_marked [of H url body c]) (auto dest!: sent_of)

text \<open>Requests never touch the queue, the synchronisation status or the waits.\<close>

lemma api_request_frame:
  "cl_queue (snd (api_request H b url body c)) = cl_queue c \<and> cl_sync (snd (api_request H b url body c)) = cl_sync c
   \<and> cl_waits (snd (api_request H b url body c)) = cl_waits c"
  by (cases rule: api_request_cases [of H url body c b]) (auto dest!: sent_of simp: marked_frame)

lemma api_request_log:
  obtains trace where "cl_sent (snd (api_request H retried url body c)) = cl_sent c @ trace"
    "request_log url body (fst (api_request H retried url body c)) trace" "length trace \<le> (if retried then 1 else 3)"
proof (cases rule: api_request_cases [of H url body c retried])
  case (passed result c1)
  then show thesis using sent_of [OF passed(1)]
    by (intro that [of "[(\<lparr>rq_url = url, rq_body = body, rq_token = bearer (cl_auth c)\<rparr>, result)]"]) (simp_all add: request_log_def)
next
  case (rejected status problem c1)
  then show thesis using sent_of [OF rejected(1)]
    by (intro that [of "[(\<lparr>rq_url = url, rq_body = body, rq_token = bearer (cl_auth c)\<rparr>, HttpError status problem)]"])
      (simp_all add: request_log_def)
next
  case (not_refreshed problem c1 rq r2 c2)
  then show thesis using sent_of [OF not_refreshed(2)] sent_of [OF not_refreshed(3)]
    by (intro that [of "[(\<lparr>rq_url = url, rq_body = body, rq_token = bearer (cl_auth c)\<rparr>, HttpError 401 problem), (rq, r2)]"])
      (simp_all add: request_log_def)
next
  case (again problem c1 rq data c2 user access refresh)
  let ?c = "refreshed H user access refresh c2"
  obtain ab where ab: "rq_url ab = url" "rq_body ab = body"
      "cl_sent (snd (api_request H True url body ?c)) = cl_sent ?c @ [(ab, fst (api_request H True url body ?c))]"
    using marked_sends [of url body H ?c] by (metis prod.collapse)
  have "request_log url body (fst (api_request H True url body ?c))
      [(\<lparr>rq_url = url, rq_body = body, rq_token = bearer (cl_auth c)\<rparr>, HttpError 401 problem), (rq, HttpOk data),
       (ab, fst (api_request H True url body ?c))]"
    using again(4) ab(1,2) by (simp add: request_log_def)
  then show thesis using again(1,7) ab(3) sent_of [OF again(2)] sent_of [OF again(3)]
    by (intro that [of "[(\<lparr>rq_url = url, rq_body = body, rq_token = bearer (cl_auth c)\<rparr>, HttpError 401 problem),
        (rq, HttpOk data), (ab, fst (api_request H True url body ?c))]"]) simp_all
qed

text \<open>C39: A request always comes back after at most three exchanges with the server: the request, one refresh
  of the session, and the request once more; a request that is already a repetition is sent once.\<close>

theorem api_request_bounded:
  "\<exists>trace. cl_sent (snd (api_request H retried url body c)) = cl_sent c @ trace \<and> 1 \<le> length trace
     \<and> length trace \<le> (if retried then 1 else 3)"
  using api_request_log [of H retried url body c] by (metis One_nat_def Suc_le_eq length_greater_0_conv list.distinct(1) request_log_def)

lemma session_in_step_drop [simp]: "session_in_step H (drop_session H c)"
  by (simp add: session_in_step_def logout_def)

lemma session_in_step_refreshed [simp]: "session_in_step H (refreshed H u t r c)"
  by (simp add: session_in_step_def refreshed_def login_def)

lemma in_step_sent: "raw_send H rq c = (r, c') \<Longrightarrow> session_in_step H c' = session_in_step H c"
proof -
  assume "raw_send H rq c = (r, c')"
  then have e: "cl_auth c' = cl_auth c" "cl_session c' = cl_session c" by (simp_all add: sent_of)
  show ?thesis unfolding session_in_step_def e ..
qed

lemma in_step_reject: "session_in_step H c \<Longrightarrow> session_in_step H (snd (reject H st p c))"
  by (simp add: reject_def)

definition logged_out :: "'w host \<Rightarrow> 'w client \<Rightarrow> bool" where
  "logged_out H c \<longleftrightarrow> \<not> au_isAuthenticated (cl_auth c) \<and> au_token (cl_auth c) = None \<and> (h_tauri H \<longrightarrow> cl_session c = None)"

definition unauthorized :: "http_result \<Rightarrow> bool" where
  "unauthorized r = (case r of HttpError status _ \<Rightarrow> status = 401 \<or> status = 403 | _ \<Rightarrow> False)"

lemma reject_unauthorized: "unauthorized (fst (reject H st p c)) \<Longrightarrow> logged_out H (snd (reject H st p c))"
  by (auto simp: unauthorized_def reject_def logged_out_def logout_def split: if_splits)

lemma auth_ok_reject: "auth_ok (cl_auth c) \<Longrightarrow> auth_ok (cl_auth (snd (reject H st p c)))"
  by (simp add: reject_def)

definition request_ok :: "'w host \<Rightarrow> http_result \<times> 'w client \<Rightarrow> bool" where
  "request_ok H = (\<lambda>(r, c). session_in_step H c \<and> auth_ok (cl_auth c) \<and> (unauthorized r \<longrightarrow> logged_out H c))"

lemma request_ok_reject: "session_in_step H c \<Longrightarrow> auth_ok (cl_auth c) \<Longrightarrow> request_ok H (reject H st p c)"
  using in_step_reject reject_unauthorized auth_ok_reject unfolding request_ok_def by (auto simp: case_prod_beta)

lemma request_ok_passed:
  "session_in_step H c \<Longrightarrow> auth_ok (cl_auth c) \<Longrightarrow> raw_send H rq c = (r, c1) \<Longrightarrow>
   \<forall>status problem. r \<noteq> HttpError status problem \<Longrightarrow> request_ok H (r, c1)"
  using sent_of [of H rq c r c1] in_step_sent [of H rq c r c1]
  by (auto simp: request_ok_def unauthorized_def split: http_result.splits)

lemma marked_request_ok:
  assumes "session_in_step H c" "auth_ok (cl_auth c)"
  shows "request_ok H (api_request H True url body c)"
proof (cases rule: api_request_marked [of H url body c])
  case (passed result c1)
  then show ?thesis using request_ok_passed [OF assms] by simp
next
  case (rejected status problem c1)
  then have "session_in_step H c1" "auth_ok (cl_auth c1)"
    using assms in_step_sent [OF rejected(1)] sent_of [OF rejected(1)] by simp_all
  then show ?thesis unfolding rejected(2) by (rule request_ok_reject)
qed

text \<open>C4: A request never leaves the session half changed. Whatever the server answers, the session file and
  the store agree afterwards if they did before (a refreshed session is written to both), and a request
  that is finally answered with 401 or 403 leaves the user logged out in the store and in the file.\<close>

theorem api_request_session:
  assumes "session_in_step H c" "auth_ok (cl_auth c)"
  shows "case api_request H retried url body c of (r, c') \<Rightarrow>
    session_in_step H c' \<and> auth_ok (cl_auth c') \<and> (unauthorized r \<longrightarrow> logged_out H c')"
proof -
  have "request_ok H (api_request H retried url body c)"
  proof (cases rule: api_request_cases [of H url body c retried])
    case (passed result c1)
    then show ?thesis using request_ok_passed [OF assms] by simp
  next
    case (rejected status problem c1)
    then have "session_in_step H c1" "auth_ok (cl_auth c1)"
    using assms in_step_sent [OF rejected(1)] sent_of [OF rejected(1)] by simp_all
  then show ?thesis unfolding rejected(2) by (rule request_ok_reject)
  next
    case (not_refreshed problem c1 rq r2 c2)
    then show ?thesis using request_ok_reject [of H "drop_session H c2"] by simp
  next
    case (again problem c1 rq data c2 user access refresh)
    then show ?thesis using marked_request_ok [of H "refreshed H user access refresh c2"] by simp
  qed
  then show ?thesis by (simp add: request_ok_def)
qed

text \<open>A small host for the examples: the desktop application, a server that always gives the same answer.\<close>

definition accept_any :: "string \<Rightarrow> bool" where
  "accept_any s = True"

definition sample_host :: "(http_request \<Rightarrow> http_result) \<Rightarrow> nat host" where
  "sample_host answer = \<lparr>h_tauri = True, h_accepts = conforms accept_any accept_any,
     h_send = (\<lambda>rq w. (answer rq, w + 1)), h_random = (\<lambda>w. (1 / 2, w)), h_wait = (\<lambda>t w. w), h_now = (\<lambda>w. (''2026-01-01'', w)),
     h_uuid = (\<lambda>w. (show_nat w, w + 1)), h_game_status = (\<lambda>w. (Some False, w)), h_sign = (\<lambda>s w. (Some ''sig'', w)),
     h_wipe = (\<lambda>rows w. ((True, []), w))\<rparr>"

definition sample_session :: session where
  "sample_session = \<lparr>ss_user = sample_user Player, ss_token = ''t'', ss_refreshToken = Some ''r'', ss_deviceId = Some ''d''\<rparr>"

definition sample_client :: "nat client" where
  "sample_client = \<lparr>cl_world = 0, cl_auth = login (sample_user Player) ''t'' (Some ''r'') auth_initial,
     cl_sync = setDeviceId (Some ''d'') sync_initial, cl_session = Some (json_of_session sample_session), cl_queue = [],
     cl_sent = [], cl_waits = [], cl_unauthorized = 0\<rparr>"

theorem api_request_session_witness:
  "logged_out (sample_host (\<lambda>rq. HttpError 401 JNull))
     (snd (api_request (sample_host (\<lambda>rq. HttpError 401 JNull)) False ''/levels'' JNull sample_client))"
proof -
  have "session_in_step (sample_host (\<lambda>rq. HttpError 401 JNull)) sample_client"
    by (simp add: session_in_step_def sample_client_def login_def sample_session_def)
  moreover have "auth_ok (cl_auth sample_client)" by (simp add: sample_client_def)
  moreover have "unauthorized (fst (api_request (sample_host (\<lambda>rq. HttpError 401 JNull)) False ''/levels'' JNull sample_client))"
    by (subst api_request.simps) (simp add: raw_send_def sample_host_def sample_client_def login_def unauthorized_def)
  ultimately show ?thesis
    using api_request_session [of "sample_host (\<lambda>rq. HttpError 401 JNull)" sample_client False "''/levels''" JNull]
    by (auto simp: case_prod_beta)
qed

section \<open>Restarting the application\<close>

text \<open>In the desktop application both stores live in memory: a restart empties them, the file stays.\<close>

definition restart :: "'w client \<Rightarrow> 'w client" where
  "restart c = c\<lparr>cl_auth := auth_initial, cl_sync := sync_initial\<rparr>"

text \<open>C37: A session survives a restart: persisting a session of a user with a valid identifier and a non-empty
  token, restarting and restoring logs the same user in with the same tokens and the same device.\<close>

theorem session_restart:
  assumes "zod (h_accepts H) email uuid" "h_tauri H" "uuid (user_id (ss_user s))" "ss_token s \<noteq> []"
  shows "let c' = restoreSecureSession H (restart (persistSecureSession H s c)) in
    cl_auth c' = login (ss_user s) (ss_token s) (ss_refreshToken s) auth_initial
    \<and> sy_deviceId (cl_sync c') = ss_deviceId s \<and> cl_session c' = Some (json_of_session s)"
proof -
  have "h_accepts H lib_StoredSessionSchema (Some (json_of_session s))"
    by (rule zod.json_of_session_accepted [OF assms(1,3,4)])
  moreover have "\<not> falsy (Some (json_of_session s))" by (simp add: falsy_def json_of_session_def)
  ultimately show ?thesis using assms(2)
    by (simp add: restoreSecureSession_def restart_def setDeviceId_def Let_def)
qed

theorem session_restart_witness:
  "let H = sample_host (\<lambda>rq. NetError); c' = restoreSecureSession H (restart (persistSecureSession H sample_session sample_client))
   in au_user (cl_auth c') = Some (sample_user Player)"
proof -
  have "zod (h_accepts (sample_host (\<lambda>rq. NetError))) accept_any accept_any"
    by (simp add: sample_host_def zod_ref.zod_axioms)
  then show ?thesis
    using session_restart [of "sample_host (\<lambda>rq. NetError)" accept_any accept_any sample_session sample_client]
    by (simp add: sample_host_def accept_any_def sample_session_def login_def Let_def)
qed

text \<open>C9: The session file is not trusted. Restoring from any file content authenticates exactly when the content
  passes the schema, and then with the validated user (a typed user with one of the four roles) and a
  non-empty token; any other content that is not empty is deleted and leaves nobody logged in.\<close>

theorem session_file_validated:
  assumes "zod (h_accepts H) email uuid" "h_tauri H" "cl_session c = Some raw" "\<not> falsy (Some raw)"
  shows "let c' = restoreSecureSession H (restart c); valid = h_accepts H lib_StoredSessionSchema (Some raw) in
    (au_isAuthenticated (cl_auth c') \<longleftrightarrow> valid)
    \<and> (if valid then \<exists>s. session_of_json raw = Some s \<and> au_user (cl_auth c') = Some (ss_user s)
                       \<and> au_token (cl_auth c') = Some (ss_token s) \<and> ss_token s \<noteq> [] \<and> cl_session c' = Some raw
       else cl_auth c' = auth_initial \<and> cl_session c' = None)"
proof (cases "h_accepts H lib_StoredSessionSchema (Some raw)")
  case True
  then obtain s where "session_of_json raw = Some s" "ss_token s \<noteq> []"
    using zod.session_typed [OF assms(1)] by blast
  then show ?thesis using True assms(2-4) by (simp add: restoreSecureSession_def restart_def login_def Let_def)
next
  case False
  then show ?thesis using assms(2-4)
    by (simp add: restoreSecureSession_def restart_def clearSecureSession_def auth_initial_def Let_def)
qed

definition tampered :: json where
  "tampered = JObj [(''user'', JObj [(''id'', JStr ''u1''), (''full_name'', JStr ''Ana''), (''is_adult'', JBool True),
     (''role'', JStr ''root''), (''status'', JStr ''active''), (''created_at'', JStr ''x'')]), (''token'', JStr ''t''),
     (''refreshToken'', JNull), (''deviceId'', JNull)]"

theorem session_file_validated_witness:
  "let H = sample_host (\<lambda>rq. NetError); c' = restoreSecureSession H (restart (sample_client\<lparr>cl_session := Some tampered\<rparr>))
   in cl_auth c' = auth_initial \<and> cl_session c' = None"
proof -
  have "zod (h_accepts (sample_host (\<lambda>rq. NetError))) accept_any accept_any"
    by (simp add: sample_host_def zod_ref.zod_axioms)
  moreover have "\<not> h_accepts (sample_host (\<lambda>rq. NetError)) lib_StoredSessionSchema (Some tampered)" by code_simp
  moreover have "\<not> falsy (Some tampered)" by (simp add: falsy_def tampered_def)
  ultimately show ?thesis
    using session_file_validated [of "sample_host (\<lambda>rq. NetError)" accept_any accept_any
        "sample_client\<lparr>cl_session := Some tampered\<rparr>" tampered]
    by (auto simp: sample_host_def Let_def)
qed

end
