(* ===== verification/Accounts.thy ===== *)
theory Accounts
  imports Session
begin

text \<open>
  The account pages: signing in (\<open>src/features/auth/LoginPage.tsx\<close>), registering (\<open>RegisterPage.tsx\<close>),
  signing out (\<open>DashboardPage.tsx\<close>), the age-up of a minor (\<open>ProfilePage.tsx\<close>) and the requests about
  personal data (\<open>src/features/arco/ArcoPage.tsx\<close>). A GET request has the body \<open>null\<close>.
\<close>

section \<open>Error texts\<close>

datatype shown_error = PendingTutorMsg | DetailMsg json | FallbackMsg | BadShapeMsg | NoConnectionMsg
  | TypeErrorMsg
  | PasswordsDiffer | PrivacyNotAccepted | TutorMissing

definition ends_with :: "string \<Rightarrow> string \<Rightarrow> bool" where
  "ends_with s suffix \<longleftrightarrow> length suffix \<le> length s \<and> drop (length s - length suffix) s = suffix"

text \<open>\<open>problem.detail ?? fallback\<close>.\<close>

definition detail_or :: "json option \<Rightarrow> shown_error" where
  "detail_or v = (case v of None \<Rightarrow> FallbackMsg | Some d \<Rightarrow> if d = JNull then FallbackMsg else DetailMsg d)"

text \<open>The catch block of the login: a problem that is null, or whose type is neither missing nor a string, throws there.\<close>

definition login_problem :: "json \<Rightarrow> shown_error res" where
  "login_problem problem =
     bind_res (get_prop problem ''type'') (\<lambda>t.
       case t of
         Some (JStr s) \<Rightarrow>
           if ends_with s ''/pending-tutor-consent'' then Inr PendingTutorMsg
           else bind_res (get_prop problem ''detail'') (\<lambda>d. Inr (detail_or d))
       | None \<Rightarrow> bind_res (get_prop problem ''detail'') (\<lambda>d. Inr (detail_or d))
       | Some JNull \<Rightarrow> bind_res (get_prop problem ''detail'') (\<lambda>d. Inr (detail_or d))
       | Some _ \<Rightarrow> Inl TypeErr)"

text \<open>\<open>errorMessage\<close> of the other pages: the server's detail, if there is one.\<close>

definition errorMessage :: "json \<Rightarrow> shown_error" where
  "errorMessage problem = detail_or (js_prop ''detail'' problem)"

section \<open>Signing in\<close>

record form_page =
  pg_error :: "shown_error option"
  pg_navigated :: "string option"

definition blank_page :: form_page where
  "blank_page = \<lparr>pg_error = None, pg_navigated = None\<rparr>"

definition show_error :: "shown_error res \<Rightarrow> form_page" where
  "show_error e = (case e of Inl _ \<Rightarrow> blank_page | Inr m \<Rightarrow> blank_page\<lparr>pg_error := Some m\<rparr>)"

definition login_failed :: "http_result \<Rightarrow> form_page" where
  "login_failed r = (case r of HttpError _ problem \<Rightarrow> show_error (login_problem problem) | _ \<Rightarrow> show_error (Inr NoConnectionMsg))"

definition credentials :: "string \<Rightarrow> string \<Rightarrow> json" where
  "credentials email password = JObj [(''email'', JStr email), (''password'', JStr password)]"

definition device_body :: "string \<Rightarrow> bool \<Rightarrow> json" where
  "device_body userAgent tauri =
     JObj [(''device_label'', JStr (if take 80 userAgent = [] then ''USBI Web'' else take 80 userAgent)),
           (''platform'', JStr (if tauri then ''tauri'' else ''web''))]"

text \<open>
  \<open>handleSubmit\<close>. The device answer is not validated: \<open>device.data.id\<close> of \<open>null\<close> throws; an identifier that is
  not a string is outside the model and read as none.
\<close>

definition login_submit :: "'w host \<Rightarrow> string \<Rightarrow> string \<Rightarrow> string \<Rightarrow> string \<Rightarrow> 'w client \<Rightarrow> form_page \<times> 'w client" where
  "login_submit H userAgent email password from c =
     (let (r, c) = api_request H False ''/auth/login'' (credentials email password) c
      in case r of
           HttpOk data \<Rightarrow>
             if \<not> h_accepts H lib_AuthResponseSchema (Some data) then (show_error (Inr BadShapeMsg), c)
             else (case auth_response_of_json data of
                     None \<Rightarrow> (show_error (Inr BadShapeMsg), c)
                   | Some (user, access, refresh) \<Rightarrow>
                       let c = c\<lparr>cl_auth := login user access (Some refresh) (cl_auth c)\<rparr>;
                           (d, c) = api_request H False ''/devices'' (device_body userAgent (h_tauri H)) c
                       in case d of
                            HttpOk device \<Rightarrow>
                              (case get_prop device ''id'' of
                                 Inl _ \<Rightarrow> (show_error (Inr NoConnectionMsg), c)
                               | Inr i \<Rightarrow>
                                   let deviceId = string_opt i;
                                       c = c\<lparr>cl_sync := setDeviceId deviceId (cl_sync c)\<rparr>;
                                       c = persistSecureSession H \<lparr>ss_user = user, ss_token = access,
                                             ss_refreshToken = Some refresh, ss_deviceId = deviceId\<rparr> c
                                   in (blank_page\<lparr>pg_navigated := Some from\<rparr>, c))
                          | _ \<Rightarrow> (login_failed d, c))
         | _ \<Rightarrow> (login_failed r, c))"

section \<open>Signing out and growing up\<close>

text \<open>\<open>handleLogout\<close>: the \<open>finally\<close> block runs whatever the request did.\<close>

definition handleLogout :: "'w host \<Rightarrow> 'w client \<Rightarrow> 'w client" where
  "handleLogout H c =
     (let (r, c) = api_request H False ''/auth/logout'' JNull c;
          c = c\<lparr>cl_auth := logout (cl_auth c)\<rparr>;
          c = c\<lparr>cl_sync := setDeviceId None (cl_sync c)\<rparr>
      in clearSecureSession H c)"

datatype age_up = AgeIdle | AgeDone | AgeFailed shown_error

text \<open>\<open>handleAgeUp\<close>: user, token and device are those of the render, read before the request.\<close>

definition handleAgeUp :: "'w host \<Rightarrow> 'w client \<Rightarrow> age_up \<times> 'w client" where
  "handleAgeUp H c =
     (case (au_user (cl_auth c), au_token (cl_auth c)) of
        (Some user, Some token) \<Rightarrow>
          if token = [] then (AgeIdle, c)
          else let refreshToken = au_refreshToken (cl_auth c); deviceId = sy_deviceId (cl_sync c);
                   (r, c) = api_request H False ''/auth/age-up'' JNull c
               in (case r of
                     HttpOk _ \<Rightarrow>
                       let updatedUser = user\<lparr>is_adult := True, user_status := Active\<rparr>;
                           c = c\<lparr>cl_auth := updateUser updatedUser (cl_auth c)\<rparr>
                       in (AgeDone, persistSecureSession H \<lparr>ss_user = updatedUser, ss_token = token,
                             ss_refreshToken = refreshToken, ss_deviceId = deviceId\<rparr> c)
                   | HttpError _ problem \<Rightarrow> (AgeFailed (errorMessage problem), c)
                   | NetError \<Rightarrow> (AgeFailed FallbackMsg, c))
      | _ \<Rightarrow> (AgeIdle, c))"

section \<open>Registering\<close>

record registration =
  rg_fullName :: string
  rg_email :: string
  rg_password :: string
  rg_confirmPassword :: string
  rg_isAdult :: bool
  rg_tutorName :: string
  rg_tutorEmail :: string
  rg_privacyAccepted :: bool

definition register_body :: "string \<Rightarrow> registration \<Rightarrow> json" where
  "register_body version g = JObj [(''full_name'', JStr (rg_fullName g)), (''email'', JStr (rg_email g)),
     (''password'', JStr (rg_password g)), (''is_adult'', JBool (rg_isAdult g)), (''privacy_notice_version'', JStr version)]"

text \<open>An absent registration token leaves the property out.\<close>

definition consent_body :: "string \<Rightarrow> registration \<Rightarrow> json \<Rightarrow> json" where
  "consent_body version g data = JObj ([(''user_id'', JStr (string_or [] (js_prop ''user_id'' data))),
     (''tutor_name'', JStr (rg_tutorName g)), (''tutor_email'', JStr (rg_tutorEmail g)), (''privacy_notice_version'', JStr version)]
     @ (case js_prop ''registration_token'' data of Some t \<Rightarrow> [(''registration_token'', t)] | None \<Rightarrow> []))"

definition register_failed :: "http_result \<Rightarrow> form_page" where
  "register_failed r = (case r of
     HttpError _ problem \<Rightarrow> show_error (bind_res (get_prop problem ''detail'') (\<lambda>d. Inr (detail_or d)))
   | _ \<Rightarrow> show_error (Inr NoConnectionMsg))"

definition register_submit :: "'w host \<Rightarrow> string \<Rightarrow> registration \<Rightarrow> 'w client \<Rightarrow> form_page \<times> 'w client" where
  "register_submit H version g c =
     (if rg_password g \<noteq> rg_confirmPassword g then (show_error (Inr PasswordsDiffer), c)
      else if \<not> rg_privacyAccepted g then (show_error (Inr PrivacyNotAccepted), c)
      else if \<not> rg_isAdult g \<and> (rg_tutorName g = [] \<or> rg_tutorEmail g = []) then (show_error (Inr TutorMissing), c)
      else let (r, c) = api_request H False ''/auth/register'' (register_body version g) c
           in case r of
                HttpOk data \<Rightarrow>
                  if \<not> h_accepts H lib_RegisterResponseSchema (Some data) then (show_error (Inr BadShapeMsg), c)
                  else if js_prop ''status'' data = Some (JStr ''pending_tutor_consent'')
                  then let (r, c) = api_request H False ''/auth/tutor-consent'' (consent_body version g data) c
                       in (case r of HttpOk _ \<Rightarrow> blank_page\<lparr>pg_navigated := Some ''/login''\<rparr> | _ \<Rightarrow> register_failed r, c)
                  else (blank_page\<lparr>pg_navigated := Some ''/login''\<rparr>, c)
              | _ \<Rightarrow> (register_failed r, c))"

section \<open>Requests about personal data\<close>

datatype arco_type = Acceso | Rectificacion | Cancelacion | Oposicion

fun arco_name :: "arco_type \<Rightarrow> string" where
  "arco_name Acceso = ''acceso''"
| "arco_name Rectificacion = ''rectificacion''"
| "arco_name Cancelacion = ''cancelacion''"
| "arco_name Oposicion = ''oposicion''"

record arco_page =
  ar_requestType :: arco_type
  ar_details :: string
  ar_requestID :: "json option"
  ar_status :: "json option"
  ar_error :: "shown_error option"

definition arco_body :: "arco_page \<Rightarrow> json" where
  "arco_body p = JObj ((''request_type'', JStr (arco_name (ar_requestType p)))
     # (if trim (ar_details p) = [] then [] else [(''details'', JStr (trim (ar_details p)))]))"

text \<open>An answer \<open>null\<close> makes the handler throw a TypeError, whose message is shown.\<close>

definition submitRequest :: "'w host \<Rightarrow> arco_page \<times> 'w client \<Rightarrow> arco_page \<times> 'w client" where
  "submitRequest H = (\<lambda>(p, c).
     let p = p\<lparr>ar_error := None, ar_status := None\<rparr>;
         (r, c) = api_request H False ''/arco'' (arco_body p) c
     in (case r of
           HttpOk data \<Rightarrow>
             (if data = JNull then p\<lparr>ar_error := Some TypeErrorMsg\<rparr>
              else p\<lparr>ar_requestID := js_prop ''request_id'' data, ar_status := js_prop ''status'' data, ar_details := []\<rparr>)
         | HttpError _ problem \<Rightarrow> p\<lparr>ar_error := Some (errorMessage problem)\<rparr>
         | NetError \<Rightarrow> p\<lparr>ar_error := Some FallbackMsg\<rparr>, c))"

record arco_admin =
  aa_requestID :: string
  aa_approved :: bool
  aa_responseSummary :: string
  aa_message :: bool
  aa_error :: "shown_error option"

definition resolveRequest :: "'w host \<Rightarrow> arco_admin \<times> 'w client \<Rightarrow> arco_admin \<times> 'w client" where
  "resolveRequest H = (\<lambda>(p, c).
     let p = p\<lparr>aa_error := None, aa_message := False\<rparr>;
         (r, c) = api_request H False (''/arco/'' @ trim (aa_requestID p) @ ''/resolve'')
           (JObj [(''approved'', JBool (aa_approved p)), (''response_summary'', JStr (trim (aa_responseSummary p)))]) c
     in (case r of
           HttpOk _ \<Rightarrow> p\<lparr>aa_message := True, aa_requestID := [], aa_responseSummary := [], aa_approved := True\<rparr>
         | HttpError _ problem \<Rightarrow> p\<lparr>aa_error := Some (errorMessage problem)\<rparr>
         | NetError \<Rightarrow> p\<lparr>aa_error := Some FallbackMsg\<rparr>, c))"

section \<open>What the pages guarantee\<close>

lemma ok_keeps_auth:
  assumes "api_request H b url body c = (HttpOk d, c')" "au_isAuthenticated (cl_auth c)"
  shows "au_isAuthenticated (cl_auth c')"
proof (cases rule: api_request_cases [of H url body c b])
  case (passed result c1)
  then show ?thesis using assms sent_of [OF passed(1)] by simp
next
  case (again problem c1 rq data c2 user access refresh)
  have r: "api_request H True url body (refreshed H user access refresh c2) = (HttpOk d, c')" using again(7) assms(1) by simp
  show ?thesis
  proof (cases rule: api_request_marked [of H url body "refreshed H user access refresh c2"])
    case (passed result c1)
    then show ?thesis using r sent_of [OF passed(1)] by (simp add: login_def)
  qed (use r in \<open>simp add: reject_def\<close>)
qed (use assms in \<open>simp_all add: reject_def\<close>)

text \<open>A request that succeeds without a token refresh leaves the session alone.\<close>

definition refreshes :: "'w client \<Rightarrow> 'w client \<Rightarrow> bool" where
  "refreshes c c' \<longleftrightarrow> (\<exists>x \<in> set (drop (length (cl_sent c)) (cl_sent c')). rq_url (fst x) = ''/auth/refresh'')"

lemma ok_without_refresh:
  assumes "api_request H False url body c = (HttpOk d, c')" "\<not> refreshes c c'"
  shows "cl_auth c' = cl_auth c"
proof (cases rule: api_request_cases [of H url body c False])
  case (passed result c1)
  then show ?thesis using assms(1) sent_of [OF passed(1)] by simp
next
  case (again problem c1 rq data c2 user access refresh)
  obtain own where "cl_sent (snd (api_request H True url body (refreshed H user access refresh c2)))
      = cl_sent (refreshed H user access refresh c2) @ [own]"
    using marked_sends by blast
  moreover have "cl_sent (refreshed H user access refresh c2) = cl_sent c2" by (simp add: refreshed_def)
  ultimately have "cl_sent c' = cl_sent c2 @ [own]" using trans [OF again(7) [symmetric] assms(1)] by simp
  then have "refreshes c c'" using sent_of [OF again(2)] sent_of [OF again(3)] again(4) by (simp add: refreshes_def)
  then show ?thesis using assms(2) by simp
qed (use assms in \<open>simp_all add: reject_def\<close>)

text \<open>C36: The login page leaves only a signed-in user. It navigates only when the request to log in was answered with data that
  pass the schema and then the request to register the device succeeded; then the user is authenticated, in the store
  is the session the registration left, the device is the one of its answer and, in the desktop application,
  the session file holds the user, the tokens and that device of the two answers; if registering needed no token
  refresh, store and file agree. In every other case it stays.\<close>

theorem login_navigates_signed_in:
  assumes "login_submit H agent email password from c = (p, c')"
  shows "pg_navigated p = None \<or>
    (\<exists>data user access refresh c1 device i c2.
       api_request H False ''/auth/login'' (credentials email password) c = (HttpOk data, c1)
       \<and> h_accepts H lib_AuthResponseSchema (Some data) \<and> auth_response_of_json data = Some (user, access, refresh)
       \<and> api_request H False ''/devices'' (device_body agent (h_tauri H))
            (c1\<lparr>cl_auth := login user access (Some refresh) (cl_auth c1)\<rparr>) = (HttpOk device, c2)
       \<and> get_prop device ''id'' = Inr i
       \<and> pg_navigated p = Some from \<and> pg_error p = None
       \<and> au_isAuthenticated (cl_auth c') \<and> cl_auth c' = cl_auth c2 \<and> sy_deviceId (cl_sync c') = string_opt i
       \<and> (h_tauri H \<longrightarrow> cl_session c' = Some (json_of_session \<lparr>ss_user = user, ss_token = access,
            ss_refreshToken = Some refresh, ss_deviceId = string_opt i\<rparr>))
       \<and> (\<not> refreshes c1 c2 \<longrightarrow> session_in_step H c' \<and> au_user (cl_auth c') = Some user
            \<and> au_token (cl_auth c') = Some access \<and> au_refreshToken (cl_auth c') = Some refresh))"
proof -
  obtain r c1 where r: "api_request H False ''/auth/login'' (credentials email password) c = (r, c1)" by fastforce
  have stay: "pg_navigated (login_failed x) = None" "pg_navigated (show_error e) = None" for x e
    by (auto simp: login_failed_def show_error_def blank_page_def split: http_result.splits sum.splits)
  show ?thesis
  proof (cases "\<exists>data u a t. r = HttpOk data \<and> h_accepts H lib_AuthResponseSchema (Some data) \<and> auth_response_of_json data = Some (u, a, t)")
    case False
    then show ?thesis using assms stay by (auto simp: login_submit_def r split: http_result.splits option.splits if_splits)
  next
    case True
    then obtain data u a t where d: "r = HttpOk data" "h_accepts H lib_AuthResponseSchema (Some data)"
        "auth_response_of_json data = Some (u, a, t)" by blast
    let ?c = "c1\<lparr>cl_auth := login u a (Some t) (cl_auth c1)\<rparr>"
    obtain dv c2 where dv: "api_request H False ''/devices'' (device_body agent (h_tauri H)) ?c = (dv, c2)"
      by fastforce
    show ?thesis
    proof (cases "\<exists>device i. dv = HttpOk device \<and> get_prop device ''id'' = Inr i")
      case False
      then show ?thesis using assms stay
        by (auto simp: login_submit_def r d dv Let_def split: http_result.splits sum.splits)
    next
      case True
      then obtain device i where dev: "dv = HttpOk device" "get_prop device ''id'' = Inr i" by blast
      let ?s = "\<lparr>ss_user = u, ss_token = a, ss_refreshToken = Some t, ss_deviceId = string_opt i\<rparr>"
      have p: "p = blank_page\<lparr>pg_navigated := Some from\<rparr>"
        and c': "c' = persistSecureSession H ?s (c2\<lparr>cl_sync := setDeviceId (string_opt i) (cl_sync c2)\<rparr>)"
        using assms by (simp_all add: login_submit_def r d dv dev Let_def)
      have auth: "au_isAuthenticated (cl_auth c2)" using ok_keeps_auth [OF dv [unfolded dev(1)]] by (simp add: login_def)
      have same: "cl_auth c2 = login u a (Some t) (cl_auth c1)" if "\<not> refreshes c1 c2"
        using ok_without_refresh [OF dv [unfolded dev(1)]] that by (simp add: refreshes_def)
      have step: "session_in_step H c' \<and> au_user (cl_auth c') = Some u \<and> au_token (cl_auth c') = Some a
          \<and> au_refreshToken (cl_auth c') = Some t" if "\<not> refreshes c1 c2"
        unfolding c' using same [OF that] by (simp add: session_in_step_def login_def)
      have "pg_navigated p = Some from" "pg_error p = None" "au_isAuthenticated (cl_auth c')" "cl_auth c' = cl_auth c2"
          "sy_deviceId (cl_sync c') = string_opt i" "h_tauri H \<longrightarrow> cl_session c' = Some (json_of_session ?s)"
        using auth by (simp_all add: p c' blank_page_def setDeviceId_def)
      then show ?thesis using r d dv dev step by blast
    qed
  qed
qed

definition sample_auth :: "string \<Rightarrow> json" where
  "sample_auth token = JObj [(''user'', json_of_user (sample_user Player)), (''access_token'', JStr token), (''refresh_token'', JStr ''r2''),
     (''token_type'', JStr ''Bearer'')]"

definition login_server :: "http_result \<Rightarrow> http_request \<Rightarrow> http_result" where
  "login_server device rq = (if rq_url rq = ''/auth/login'' then HttpOk (sample_auth ''t2'') else device)"

definition logged_out_client :: "nat client" where
  "logged_out_client = sample_client\<lparr>cl_auth := auth_initial, cl_session := None, cl_sync := sync_initial\<rparr>"

theorem login_navigates_signed_in_witness:
  "pg_navigated (fst (login_submit (sample_host (login_server (HttpOk (JObj [(''id'', JStr ''d1'')])))) ''ua'' ''e'' ''p'' ''/dashboard'' logged_out_client))
      = Some ''/dashboard''
   \<and> au_isAuthenticated (cl_auth (snd (login_submit (sample_host (login_server (HttpOk (JObj [(''id'', JStr ''d1'')])))) ''ua'' ''e'' ''p'' ''/dashboard'' logged_out_client)))"
proof -
  let ?r = "login_submit (sample_host (login_server (HttpOk (JObj [(''id'', JStr ''d1'')])))) ''ua'' ''e'' ''p'' ''/dashboard'' logged_out_client"
  have "pg_navigated (fst ?r) = Some ''/dashboard''" by code_simp
  then show ?thesis using login_navigates_signed_in [OF prod.collapse [symmetric, of ?r]] by auto
qed

text \<open>Half a login: if the server accepts the credentials and the device registration then fails on the network, the page shows a
  connection error and stays, but the store already holds an authenticated user, with no device and no
  session file.\<close>

theorem login_half_done:
  assumes "\<And>rq w. fst (h_send H rq w) = (if rq_url rq = ''/auth/login'' then HttpOk data else NetError)"
    and "h_accepts H lib_AuthResponseSchema (Some data)" "auth_response_of_json data = Some (user, access, refresh)"
  shows "case login_submit H agent email password from c of (p, c') \<Rightarrow>
    pg_error p = Some NoConnectionMsg \<and> pg_navigated p = None \<and> au_isAuthenticated (cl_auth c')
    \<and> sy_deviceId (cl_sync c') = sy_deviceId (cl_sync c) \<and> cl_session c' = cl_session c"
proof -
  let ?rq = "\<lparr>rq_url = ''/auth/login'', rq_body = credentials email password, rq_token = bearer (cl_auth c)\<rparr>"
  obtain r c1 where s: "raw_send H ?rq c = (r, c1)" by fastforce
  have r: "r = HttpOk data" using s assms(1) by (auto simp: raw_send_def case_prod_beta)
  have a: "api_request H False ''/auth/login'' (credentials email password) c = (HttpOk data, c1)"
    by (subst api_request.simps) (simp add: s r)
  let ?c = "c1\<lparr>cl_auth := login user access (Some refresh) (cl_auth c1)\<rparr>"
  let ?rq2 = "\<lparr>rq_url = ''/devices'', rq_body = device_body agent (h_tauri H), rq_token = bearer (cl_auth ?c)\<rparr>"
  obtain r2 c2 where s2: "raw_send H ?rq2 ?c = (r2, c2)" by fastforce
  have r2: "r2 = NetError" using s2 assms(1) by (auto simp: raw_send_def case_prod_beta)
  have b: "api_request H False ''/devices'' (device_body agent (h_tauri H)) ?c = (NetError, c2)"
    by (subst api_request.simps) (use s2 r2 in simp)
  have "login_submit H agent email password from c = (login_failed NetError, c2)"
    by (simp add: login_submit_def a assms(2,3) b Let_def)
  then show ?thesis using sent_of [OF s] sent_of [OF s2]
    by (simp add: login_failed_def show_error_def blank_page_def login_def)
qed

theorem login_half_done_witness:
  "let H = sample_host (login_server NetError); r = login_submit H ''ua'' ''e'' ''p'' ''/dashboard'' logged_out_client in
   pg_error (fst r) = Some NoConnectionMsg \<and> au_isAuthenticated (cl_auth (snd r)) \<and> cl_session (snd r) = None"
proof -
  have "h_accepts (sample_host (login_server NetError)) lib_AuthResponseSchema (Some (sample_auth ''t2''))" by code_simp
  moreover have "auth_response_of_json (sample_auth ''t2'') = Some (sample_user Player, ''t2'', ''r2'')" by code_simp
  ultimately show ?thesis
    using login_half_done [of "sample_host (login_server NetError)" "sample_auth ''t2''" "sample_user Player" "''t2''" "''r2''"
        logged_out_client "''ua''" "''e''" "''p''" "''/dashboard''"]
    by (simp add: sample_host_def login_server_def case_prod_beta logged_out_client_def Let_def)
qed

text \<open>Signing out always works: whatever the server does with the request (errors, refreshed tokens, no answer), afterwards nobody is
  signed in, no token is left in the store, the device is forgotten and the session file is empty.\<close>

theorem logout_complete:
  "logged_out H (handleLogout H c) \<and> sy_deviceId (cl_sync (handleLogout H c)) = None
   \<and> au_token (cl_auth (handleLogout H c)) = None \<and> au_refreshToken (cl_auth (handleLogout H c)) = None"
  by (auto simp: handleLogout_def Let_def case_prod_beta logged_out_def clearSecureSession_def logout_def setDeviceId_def)

text \<open>A server whose access token \<open>t\<close> has expired.\<close>

definition expired_server :: "http_request \<Rightarrow> http_result" where
  "expired_server rq =
     (if rq_url rq = ''/auth/refresh'' then HttpOk (sample_auth ''t2'')
      else if rq_token rq = Some ''t'' then HttpError 401 JNull else HttpOk JNull)"

text \<open>The age-up writes stale tokens: when its request makes the interceptor refresh the session, the page still saves the tokens it
  read before, so the session file ends up with the replaced token while the store has the new one.\<close>

theorem age_up_stale_tokens:
  "session_in_step (sample_host expired_server) sample_client
   \<and> (let (r, c') = handleAgeUp (sample_host expired_server) sample_client in
        r = AgeDone \<and> au_token (cl_auth c') = Some ''t2'' \<and> \<not> session_in_step (sample_host expired_server) c'
        \<and> Option.bind (cl_session c') (js_prop ''token'') = Some (JStr ''t''))"
proof -
  have "session_in_step (sample_host expired_server) sample_client"
    by (simp add: session_in_step_def sample_client_def login_def sample_session_def)
  moreover obtain c' where c': "handleAgeUp (sample_host expired_server) sample_client = (AgeDone, c')"
      "au_token (cl_auth c') = Some ''t2''" "cl_session c' = Some (json_of_session \<lparr>ss_user =
         (sample_user Player)\<lparr>is_adult := True, user_status := Active\<rparr>, ss_token = ''t'', ss_refreshToken = Some ''r'', ss_deviceId = Some ''d''\<rparr>)"
  proof -
    let ?r = "handleAgeUp (sample_host expired_server) sample_client"
    have "fst ?r = AgeDone \<and> au_token (cl_auth (snd ?r)) = Some ''t2'' \<and> cl_session (snd ?r) = Some (json_of_session \<lparr>ss_user =
         (sample_user Player)\<lparr>is_adult := True, user_status := Active\<rparr>, ss_token = ''t'', ss_refreshToken = Some ''r'', ss_deviceId = Some ''d''\<rparr>)"
      by code_simp
    then show thesis using that [of "snd ?r"] by (metis prod.collapse)
  qed
  moreover have "h_tauri (sample_host expired_server)" by (simp add: sample_host_def)
  ultimately show ?thesis by (simp add: session_in_step_def) (simp add: json_of_session_def js_prop_def)
qed

text \<open>So does the login: if the server asks for a refresh during the registration of the device, the page saves the tokens of the
  login, which the refresh has replaced.\<close>

definition rotating_server :: "http_request \<Rightarrow> http_result" where
  "rotating_server rq =
     (if rq_url rq = ''/auth/login'' then HttpOk (sample_auth ''t'')
      else if rq_url rq = ''/auth/refresh'' then HttpOk (sample_auth ''t2'')
      else if rq_token rq = Some ''t'' then HttpError 401 JNull else HttpOk (JObj [(''id'', JStr ''d1'')]))"

lemma login_stale_tokens:
  "let (p, c') = login_submit (sample_host rotating_server) ''ua'' ''e'' ''p'' ''/dashboard'' logged_out_client in
     pg_navigated p = Some ''/dashboard'' \<and> au_token (cl_auth c') = Some ''t2''
     \<and> Option.bind (cl_session c') (js_prop ''token'') = Some (JStr ''t'')"
  by code_simp

end
