(* ===== verification/Sync.thy ===== *)
theory Sync
  imports Session "HOL-Library.List_Lexorder" "HOL-Library.Char_ord"
begin

text \<open>
  Synchronising offline progress: the engine \<open>src/lib/syncEngine.ts\<close> (signing, sending with retries, the
  order to wipe) and the queue \<open>src/lib/localSyncQueue.ts\<close>, a table of the local database. The table is the
  list of its rows; \<open>ORDER BY created_at ASC LIMIT 50\<close> is a stable sort followed by \<open>take 50\<close>.
\<close>

section \<open>Messages\<close>

record sync_request =
  sr_sync_event_id :: string
  sr_user_id :: string
  sr_device_id :: string
  sr_crypto_key_version :: int
  sr_payload :: sync_payload
  sr_hmac_signature :: string

record sync_response =
  sp_status :: string
  sp_wipe_local_data :: bool
  sp_server_xp_total :: rat

definition sync_response_of_json :: "json \<Rightarrow> sync_response option" where
  "sync_response_of_json j =
     Option.bind (string_opt (js_prop ''status'' j)) (\<lambda>s.
     Option.bind (bool_opt (js_prop ''wipe_local_data'' j)) (\<lambda>w.
     Option.bind (num_opt (js_prop ''server_xp_total'' j)) (\<lambda>x.
     Some \<lparr>sp_status = s, sp_wipe_local_data = w, sp_server_xp_total = x\<rparr>)))"

definition json_of_attempt :: "level_attempt \<Rightarrow> json" where
  "json_of_attempt a = JObj [(''level_id'', JStr (la_level_id a)), (''attempt_date'', JStr (la_attempt_date a)),
     (''attempt_number'', JNum (of_int (la_attempt_number a))), (''xp_awarded'', JNum (of_int (la_xp_awarded a))),
     (''score'', JNum (of_int (la_score a))), (''completed'', JBool (la_completed a))]"

definition json_strings :: "string \<Rightarrow> string list option \<Rightarrow> (string \<times> json) list" where
  "json_strings k v = (case v of None \<Rightarrow> [] | Some xs \<Rightarrow> [(k, JArr (map JStr xs))])"

definition json_of_request :: "sync_request \<Rightarrow> json" where
  "json_of_request r = JObj [(''sync_event_id'', JStr (sr_sync_event_id r)), (''user_id'', JStr (sr_user_id r)),
     (''device_id'', JStr (sr_device_id r)), (''crypto_key_version'', JNum (of_int (sr_crypto_key_version r))),
     (''payload'', JObj ((''level_attempts'', JArr (map json_of_attempt (sp_level_attempts (sr_payload r))))
        # json_strings ''daily_streak_dates'' (sp_daily_streak_dates (sr_payload r))
        @ json_strings ''badge_ids_earned'' (sp_badge_ids_earned (sr_payload r)))),
     (''hmac_signature'', JStr (sr_hmac_signature r))]"

section \<open>Signing\<close>

definition attempt_line :: "level_attempt \<Rightarrow> string" where
  "attempt_line a = join '','' [la_level_id a, la_attempt_date a, show_int (la_attempt_number a), show_int (la_xp_awarded a),
     show_int (la_score a), (if la_completed a then ''true'' else ''false'')]"

definition or_empty :: "string list option \<Rightarrow> string list" where
  "or_empty v = (case v of None \<Rightarrow> [] | Some xs \<Rightarrow> xs)"

definition buildCanonicalSigningPayload :: "sync_request \<Rightarrow> string" where
  "buildCanonicalSigningPayload r =
     (let attempts = join '';'' (sort (map attempt_line (sp_level_attempts (sr_payload r))));
          streakDates = join '';'' (sort (or_empty (sp_daily_streak_dates (sr_payload r))));
          badges = join '';'' (sort (or_empty (sp_badge_ids_earned (sr_payload r))))
      in join ''|'' [sr_sync_event_id r, sr_user_id r, sr_device_id r, show_int (sr_crypto_key_version r),
                    attempts, streakDates, badges])"

text \<open>\<open>sign_payload\<close> runs in the desktop process; \<open>None\<close> is a rejected call.\<close>

definition buildSignedRequest :: "'w host \<Rightarrow> sync_request \<Rightarrow> 'w client \<Rightarrow> sync_request option \<times> 'w client" where
  "buildSignedRequest H request c =
     (let draft = request\<lparr>sr_hmac_signature := []\<rparr>; (signature, w) = h_sign H (buildCanonicalSigningPayload draft) (cl_world c)
      in (map_option (\<lambda>s. draft\<lparr>sr_hmac_signature := s\<rparr>) signature, c\<lparr>cl_world := w\<rparr>))"

section \<open>Sending with retries\<close>

datatype failure = FHttp nat | FNetwork | FParse | FHost

definition sync_outcome :: "'w host \<Rightarrow> http_result \<Rightarrow> failure + sync_response" where
  "sync_outcome H r =
     (case r of
        HttpOk data \<Rightarrow>
          if h_accepts H lib_SyncEventResponseSchema (Some data)
          then (case sync_response_of_json data of Some s \<Rightarrow> Inr s | None \<Rightarrow> Inl FParse) else Inl FParse
      | HttpError status _ \<Rightarrow> Inl (FHttp status)
      | NetError \<Rightarrow> Inl FNetwork)"

text \<open>\<open>baseDelay + baseDelay * 0.2 * (random * 2 - 1)\<close> milliseconds.\<close>

definition retry_delay :: "nat \<Rightarrow> rat \<Rightarrow> rat" where
  "retry_delay attempt r =
     (let baseDelay = 2 ^ (attempt - 1) * 1000; jitter = fl (fl (baseDelay * fl (1 / 5)) * fl (fl (r * 2) - 1))
      in fl (baseDelay + jitter))"

definition sleep :: "'w host \<Rightarrow> nat \<Rightarrow> 'w client \<Rightarrow> 'w client" where
  "sleep H attempt c =
     (let (r, w) = h_random H (cl_world c); t = retry_delay attempt r
      in c\<lparr>cl_world := h_wait H t w, cl_waits := cl_waits c @ [t]\<rparr>)"

function fetchWithRetry :: "'w host \<Rightarrow> string \<Rightarrow> sync_request \<Rightarrow> nat \<Rightarrow> nat \<Rightarrow> 'w client \<Rightarrow> (failure + sync_response) \<times> 'w client" where
  "fetchWithRetry H url data attempt maxAttempts c =
     (let (r, c) = api_request H False url (json_of_request data) c
      in case sync_outcome H r of
           Inr response \<Rightarrow> (Inr response, c)
         | Inl f \<Rightarrow>
             if f = FHttp 401 then (Inl f, c)
             else if attempt \<ge> maxAttempts then (Inl f, c)
             else fetchWithRetry H url data (attempt + 1) maxAttempts (sleep H attempt c))"
  by pat_completeness auto

termination
  by (relation "measure (\<lambda>(H, url, data, attempt, maxAttempts, c). maxAttempts - attempt)") auto

declare fetchWithRetry.simps [simp del]

section \<open>The synchronisation loop\<close>

definition hasInvalidXP :: "sync_request \<Rightarrow> bool" where
  "hasInvalidXP request = list_ex (\<lambda>a. la_xp_awarded a < 0) (sp_level_attempts (sr_payload request))"

text \<open>The first component is the exception that ended the loop, if any; then the confirmed identifiers.\<close>

fun sync_loop :: "'w host \<Rightarrow> sync_request list \<Rightarrow> string list \<Rightarrow> 'w client \<Rightarrow> failure option \<times> string list \<times> 'w client" where
  "sync_loop H [] confirmedIds c = (None, confirmedIds, c)"
| "sync_loop H (request # requests) confirmedIds c =
     (if hasInvalidXP request then sync_loop H requests confirmedIds c
      else let (signed, c) = buildSignedRequest H request c
           in case signed of
                None \<Rightarrow> (Some FHost, confirmedIds, c)
              | Some signedRequest \<Rightarrow>
                  let (r, c) = fetchWithRetry H ''/sync'' signedRequest 1 3 c
                  in case r of
                       Inl f \<Rightarrow> (Some f, confirmedIds, c)
                     | Inr response \<Rightarrow>
                         let confirmedIds = (if sp_status response = ''synced'' \<or> sp_status response = ''already_processed''
                               then confirmedIds @ [sr_sync_event_id request] else confirmedIds)
                         in if sp_wipe_local_data response
                            then let ((ok, rows), w) = h_wipe H (cl_queue c) (cl_world c)
                                 in (if ok then None else Some FHost, confirmedIds, c\<lparr>cl_world := w, cl_queue := rows\<rparr>)
                            else sync_loop H requests confirmedIds c)"

definition game_active :: "'w host \<Rightarrow> 'w client \<Rightarrow> bool \<times> 'w client" where
  "game_active H c = (let (b, w) = h_game_status H (cl_world c) in (b = Some True, c\<lparr>cl_world := w\<rparr>))"

definition syncLocalProgress :: "'w host \<Rightarrow> sync_request list \<Rightarrow> 'w client \<Rightarrow> (bool \<times> string list) \<times> 'w client" where
  "syncLocalProgress H requests c =
     (if sy_isSyncing (cl_sync c) \<or> \<not> sy_isOnline (cl_sync c) then ((False, []), c)
      else let (active, c) = game_active H c in
      if active then ((False, []), c)
      else let c = c\<lparr>cl_sync := setSyncing True (cl_sync c)\<rparr>;
               (err, confirmedIds, c) = sync_loop H requests [] c;
               (completed, c) =
                 (case err of
                    None \<Rightarrow>
                      let (now, w) = h_now H (cl_world c)
                      in (length confirmedIds = length requests, c\<lparr>cl_world := w, cl_sync := recordSyncSuccess now (cl_sync c)\<rparr>)
                  | Some f \<Rightarrow> (False, if f = FHttp 401 then c\<lparr>cl_auth := logout (cl_auth c)\<rparr> else c))
           in ((completed, confirmedIds), c\<lparr>cl_sync := setSyncing False (cl_sync c)\<rparr>))"

section \<open>The queue\<close>

definition refresh_count :: "'w client \<Rightarrow> 'w client" where
  "refresh_count c = c\<lparr>cl_sync := setPendingCount (length (cl_queue c)) (cl_sync c)\<rparr>"

definition initLocalSyncQueue :: "'w host \<Rightarrow> 'w client \<Rightarrow> 'w client" where
  "initLocalSyncQueue H c = (if h_tauri H then refresh_count c else c)"

text \<open>The boolean is false when the insertion violates the primary key.\<close>

definition enqueueProgress :: "'w host \<Rightarrow> sync_payload \<Rightarrow> 'w client \<Rightarrow> bool \<times> 'w client" where
  "enqueueProgress H payload c =
     (if \<not> h_tauri H then (True, c)
      else case (au_user (cl_auth c), sy_deviceId (cl_sync c)) of
             (Some user, Some deviceId) \<Rightarrow>
               if deviceId = [] then (True, c)
               else let c = initLocalSyncQueue H c; (uid, w) = h_uuid H (cl_world c); (now, w) = h_now H w;
                        c = c\<lparr>cl_world := w\<rparr>
                    in if uid \<in> qr_id ` set (cl_queue c) then (False, c)
                       else (True, refresh_count (c\<lparr>cl_queue := cl_queue c @
                              [\<lparr>qr_id = uid, qr_user_id = user_id user, qr_device_id = deviceId, qr_payload = payload,
                                qr_created_at = now\<rparr>]\<rparr>))
           | _ \<Rightarrow> (True, c))"

definition oldest_rows :: "queue_row list \<Rightarrow> queue_row list" where
  "oldest_rows rows = take 50 (sort_key qr_created_at rows)"

definition request_of_row :: "user \<Rightarrow> string \<Rightarrow> queue_row \<Rightarrow> sync_request" where
  "request_of_row user deviceId row = \<lparr>sr_sync_event_id = qr_id row, sr_user_id = user_id user, sr_device_id = deviceId,
     sr_crypto_key_version = 1, sr_payload = qr_payload row, sr_hmac_signature = []\<rparr>"

definition delete_rows :: "string list \<Rightarrow> queue_row list \<Rightarrow> queue_row list \<Rightarrow> queue_row list" where
  "delete_rows confirmedIDs rows table =
     foldl (\<lambda>table row. if qr_id row \<in> set confirmedIDs then filter (\<lambda>r. qr_id r \<noteq> qr_id row) table else table) table rows"

definition syncLocalQueue :: "'w host \<Rightarrow> 'w client \<Rightarrow> 'w client" where
  "syncLocalQueue H c =
     (if \<not> h_tauri H then c
      else case (au_user (cl_auth c), sy_deviceId (cl_sync c)) of
             (Some user, Some deviceId) \<Rightarrow>
               if deviceId = [] then c
               else let c = initLocalSyncQueue H c; rows = oldest_rows (cl_queue c)
                    in if rows = [] then c
                       else let requests = map (request_of_row user deviceId) rows;
                                ((completed, confirmedIDs), c) = syncLocalProgress H requests c
                            in if confirmedIDs = [] then refresh_count c
                               else refresh_count (c\<lparr>cl_queue := delete_rows confirmedIDs rows (cl_queue c)\<rparr>)
           | _ \<Rightarrow> c)"

text \<open>\<open>Math.max(0, Math.trunc(score))\<close>; \<open>today\<close> is the date part of the clock.\<close>

definition buildAttemptPayload :: "string \<Rightarrow> string \<Rightarrow> bool \<Rightarrow> rat \<Rightarrow> sync_payload" where
  "buildAttemptPayload now levelID completed score =
     (let today = take 10 now in
      \<lparr>sp_level_attempts = [\<lparr>la_level_id = levelID, la_attempt_date = today, la_attempt_number = 1, la_xp_awarded = 0,
          la_score = max 0 (js_trunc score), la_completed = completed\<rparr>],
       sp_daily_streak_dates = Some (if completed then [today] else []), sp_badge_ids_earned = None\<rparr>)"

section \<open>What the server has been told and has answered\<close>

text \<open>The validated answers to \<open>/sync\<close> among a list of exchanges, with the bodies they answer.\<close>

fun answers :: "'w host \<Rightarrow> (http_request \<times> http_result) list \<Rightarrow> (json \<times> sync_response) list" where
  "answers H [] = []"
| "answers H ((rq, r) # xs) =
     (case sync_outcome H r of
        Inr resp \<Rightarrow> if rq_url rq = ''/sync'' then (rq_body rq, resp) # answers H xs else answers H xs
      | Inl _ \<Rightarrow> answers H xs)"

lemma answers_append [simp]: "answers H (xs @ ys) = answers H xs @ answers H ys"
  by (induction H xs rule: answers.induct) (auto split: sum.splits)

definition confirms :: "sync_response \<Rightarrow> bool" where
  "confirms resp \<longleftrightarrow> sp_status resp = ''synced'' \<or> sp_status resp = ''already_processed''"

definition acknowledged :: "'w host \<Rightarrow> (http_request \<times> http_result) list \<Rightarrow> string \<Rightarrow> bool" where
  "acknowledged H trace i = list_ex (\<lambda>(body, resp). js_prop ''sync_event_id'' body = Some (JStr i) \<and> confirms resp) (answers H trace)"

definition ordered_wipe :: "'w host \<Rightarrow> (http_request \<times> http_result) list \<Rightarrow> bool" where
  "ordered_wipe H trace = list_ex (\<lambda>(body, resp). sp_wipe_local_data resp) (answers H trace)"

text \<open>The bodies sent to \<open>/sync\<close>.\<close>

definition synced_bodies :: "(http_request \<times> http_result) list \<Rightarrow> json list" where
  "synced_bodies trace = map (rq_body \<circ> fst) (filter (\<lambda>x. rq_url (fst x) = ''/sync'') trace)"

lemma synced_bodies_append [simp]: "synced_bodies (xs @ ys) = synced_bodies xs @ synced_bodies ys"
  by (simp add: synced_bodies_def)

lemma acknowledged_append [simp]: "acknowledged H (xs @ ys) i \<longleftrightarrow> acknowledged H xs i \<or> acknowledged H ys i"
  by (simp add: acknowledged_def)

lemma ordered_wipe_append [simp]: "ordered_wipe H (xs @ ys) \<longleftrightarrow> ordered_wipe H xs \<or> ordered_wipe H ys"
  by (simp add: ordered_wipe_def)

lemma outcome_error [simp]: "sync_outcome H (HttpError status p) = Inl (FHttp status)"
  by (simp add: sync_outcome_def)

definition answer_of :: "json \<Rightarrow> failure + sync_response \<Rightarrow> (json \<times> sync_response) list" where
  "answer_of body r = (case r of Inr resp \<Rightarrow> [(body, resp)] | Inl _ \<Rightarrow> [])"

lemma request_log_answers:
  assumes "request_log ''/sync'' body r trace"
  shows "answers H trace = answer_of body (sync_outcome H r)" "set (synced_bodies trace) \<subseteq> {body}"
proof -
  obtain own where own: "rq_url (fst own) = ''/sync''" "rq_body (fst own) = body"
    and rest: "trace = [own] \<and> snd own = r
       \<or> (\<exists>refresh problem. rq_url (fst refresh) = ''/auth/refresh'' \<and> snd own = HttpError 401 problem
            \<and> (trace = [own, refresh] \<and> r = HttpError 401 problem
               \<or> (\<exists>again. rq_url (fst again) = ''/sync'' \<and> rq_body (fst again) = body \<and> snd again = r
                    \<and> trace = [own, refresh, again])))"
    using assms unfolding request_log_def by blast
  have one: "answers H [x] = (case sync_outcome H (snd x) of Inr resp \<Rightarrow>
      if rq_url (fst x) = ''/sync'' then [(rq_body (fst x), resp)] else [] | Inl _ \<Rightarrow> [])" for x
    by (cases x) (simp split: sum.splits)
  have more: "answers H (x # xs) = answers H [x] @ answers H xs" for x xs
    using answers_append [of H "[x]" xs] by simp
  show "answers H trace = answer_of body (sync_outcome H r)"
    using rest
  proof (elim disjE exE conjE)
    assume "trace = [own]" "snd own = r"
    then show ?thesis using own by (simp add: one answer_of_def split: sum.splits)
  next
    fix refresh problem
    assume "rq_url (fst refresh) = ''/auth/refresh''" "snd own = HttpError 401 problem" "trace = [own, refresh]" "r = HttpError 401 problem"
    then show ?thesis by (simp add: more [of own "[refresh]"] one answer_of_def split: sum.splits)
  next
    fix refresh problem again
    assume a: "rq_url (fst refresh) = ''/auth/refresh''" "snd own = HttpError 401 problem"
      "rq_url (fst again) = ''/sync''" "rq_body (fst again) = body" "snd again = r" "trace = [own, refresh, again]"
    have "answers H [own] = []" "answers H [refresh] = []"
      using a(1,2) unfolding one by (auto split: sum.splits)
    then show ?thesis using a(3-6) by (simp add: more [of own "[refresh, again]"] more [of refresh "[again]"] one answer_of_def split: sum.splits)
  qed
  show "set (synced_bodies trace) \<subseteq> {body}"
    using rest own by (auto simp: synced_bodies_def)
qed

lemma sleep_simps [simp]:
  "cl_sent (sleep H n c) = cl_sent c" "cl_queue (sleep H n c) = cl_queue c" "cl_sync (sleep H n c) = cl_sync c"
  by (simp_all add: sleep_def Let_def case_prod_beta)

text \<open>
  One event through \<open>fetchWithRetry\<close>: at most three exchanges per attempt, one pause between two attempts,
  and the server's validated answer, if there is one, is the result.
\<close>

definition delays_ok :: "nat \<Rightarrow> rat list \<Rightarrow> bool" where
  "delays_ok attempt ws \<longleftrightarrow> (\<exists>rs. ws = map (\<lambda>(i, r). retry_delay (attempt + i) r) (enumerate 0 rs))"

lemma fetch_unfold:
  assumes "api_request H False url (json_of_request data) c = (r1, c1)"
  shows "fetchWithRetry H url data attempt maxAttempts c =
    (case sync_outcome H r1 of
       Inr response \<Rightarrow> (Inr response, c1)
     | Inl f \<Rightarrow> if f = FHttp 401 \<or> attempt \<ge> maxAttempts then (Inl f, c1)
               else fetchWithRetry H url data (attempt + 1) maxAttempts (sleep H attempt c1))"
  unfolding fetchWithRetry.simps [of H url data attempt maxAttempts c] assms by (simp split: sum.splits)

lemma fetch_cases:
  assumes "api_request H False url (json_of_request data) c = (r1, c1)"
    and "fetchWithRetry H url data attempt maxAttempts c = (r, c')"
  obtains (stop) "r = sync_outcome H r1" "c' = c1"
  | (again) f where "sync_outcome H r1 = Inl f" "attempt < maxAttempts"
      "fetchWithRetry H url data (attempt + 1) maxAttempts (sleep H attempt c1) = (r, c')"
proof (cases "sync_outcome H r1")
  case (Inr response)
  then show thesis using stop assms(2) unfolding fetch_unfold [OF assms(1)] by simp
next
  case (Inl f)
  show thesis
  proof (cases "f = FHttp 401 \<or> attempt \<ge> maxAttempts")
    case True
    then show thesis using stop Inl assms(2) unfolding fetch_unfold [OF assms(1)] by simp
  next
    case False
    then show thesis using again [OF Inl] assms(2) unfolding fetch_unfold [OF assms(1)] Inl by simp
  qed
qed

lemma fetch_spec:
  assumes "fetchWithRetry H ''/sync'' data attempt maxAttempts c = (r, c')" "attempt \<le> maxAttempts"
  obtains trace where "cl_sent c' = cl_sent c @ trace" "length trace \<le> 3 * (maxAttempts - attempt + 1)"
    "answers H trace = answer_of (json_of_request data) r" "set (synced_bodies trace) \<subseteq> {json_of_request data}"
    "cl_queue c' = cl_queue c" "cl_sync c' = cl_sync c"
  using assms
proof (induction "maxAttempts - attempt" arbitrary: attempt c thesis)
  case (0 attempt c)
  obtain r1 c1 where a: "api_request H False ''/sync'' (json_of_request data) c = (r1, c1)" by fastforce
  obtain trace where t: "cl_sent c1 = cl_sent c @ trace" "request_log ''/sync'' (json_of_request data) r1 trace" "length trace \<le> 3"
    using api_request_log [of H False "''/sync''" "json_of_request data" c] a by auto
  have f: "cl_queue c1 = cl_queue c" "cl_sync c1 = cl_sync c"
    using api_request_frame [of H False "''/sync''" "json_of_request data" c] a by auto
  have "r = sync_outcome H r1 \<and> c' = c1"
    using fetch_cases [OF a 0(3)] 0(1) by (metis diff_is_0_eq not_le)
  then show ?case using 0(2) [of trace] t f request_log_answers(1) [OF t(2), of H] request_log_answers(2) [OF t(2)] by simp
next
  case (Suc n attempt c)
  obtain r1 c1 where a: "api_request H False ''/sync'' (json_of_request data) c = (r1, c1)" by fastforce
  obtain trace where t: "cl_sent c1 = cl_sent c @ trace" "request_log ''/sync'' (json_of_request data) r1 trace" "length trace \<le> 3"
    using api_request_log [of H False "''/sync''" "json_of_request data" c] a by auto
  have f: "cl_queue c1 = cl_queue c" "cl_sync c1 = cl_sync c"
    using api_request_frame [of H False "''/sync''" "json_of_request data" c] a by auto
  show ?case
    using a Suc.prems(2)
  proof (cases rule: fetch_cases)
    case stop
    then show ?thesis using Suc.prems(1) [of trace] t f request_log_answers(1) [OF t(2), of H] request_log_answers(2) [OF t(2)] Suc.hyps(2) by simp
  next
    case again
    have le: "attempt + 1 \<le> maxAttempts" and n: "n = maxAttempts - (attempt + 1)" using Suc.hyps(2) by simp_all
    obtain trace' where t': "cl_sent c' = cl_sent (sleep H attempt c1) @ trace'" "length trace' \<le> 3 * (maxAttempts - (attempt + 1) + 1)"
        "answers H trace' = answer_of (json_of_request data) r" "set (synced_bodies trace') \<subseteq> {json_of_request data}"
        "cl_queue c' = cl_queue (sleep H attempt c1)" "cl_sync c' = cl_sync (sleep H attempt c1)"
      using Suc.hyps(1) [OF n _ again(3) le] by blast
    have "answers H trace = []" using request_log_answers(1) [OF t(2), of H] again(1) by (simp add: answer_of_def)
    then show ?thesis
      using Suc.prems(1) [of "trace @ trace'"] t t' f request_log_answers(2) [OF t(2)] Suc.hyps(2) by auto
  qed
qed

lemma event_id_of_body [simp]: "js_prop ''sync_event_id'' (json_of_request r) = Some (JStr (sr_sync_event_id r))"
  by (simp add: js_prop_def json_of_request_def)

text \<open>The loop: exactly the acknowledged events are confirmed, only events without negative XP are sent.\<close>

definition may_send :: "sync_request list \<Rightarrow> json \<Rightarrow> bool" where
  "may_send requests body \<longleftrightarrow>
     (\<exists>r \<in> set requests. \<not> hasInvalidXP r \<and> (\<exists>sig. body = json_of_request (r\<lparr>sr_hmac_signature := sig\<rparr>)))"

lemma may_send_cons: "may_send rs body \<Longrightarrow> may_send (r # rs) body"
  by (auto simp: may_send_def)

definition loop_spec :: "'w host \<Rightarrow> sync_request list \<Rightarrow> string list \<Rightarrow> 'w client \<Rightarrow> string list \<Rightarrow> 'w client \<Rightarrow> bool" where
  "loop_spec H requests conf c conf' c' \<longleftrightarrow>
     (\<exists>trace. cl_sent c' = cl_sent c @ trace \<and> set conf' = set conf \<union> {i. acknowledged H trace i}
        \<and> (\<forall>body \<in> set (synced_bodies trace). may_send requests body)
        \<and> cl_sync c' = cl_sync c \<and> (cl_queue c' = cl_queue c \<or> ordered_wipe H trace))"

lemma unanswered: "answers H trace = [] \<Longrightarrow> Collect (acknowledged H trace) = {}"
  by (auto simp: acknowledged_def)

lemma loop_spec_none:
  "cl_sent c' = cl_sent c \<Longrightarrow> cl_sync c' = cl_sync c \<Longrightarrow> cl_queue c' = cl_queue c \<Longrightarrow> loop_spec H requests conf c conf c'"
  unfolding loop_spec_def by (intro exI [of _ "[]"]) (simp add: unanswered synced_bodies_def)

lemma loop_spec_step:
  assumes "cl_sent c1 = cl_sent c @ trace" "set conf1 = set conf \<union> {i. acknowledged H trace i}"
    and "\<forall>body \<in> set (synced_bodies trace). may_send (r # rs) body" "cl_sync c1 = cl_sync c" "cl_queue c1 = cl_queue c"
    and "loop_spec H rs conf1 c1 conf' c'"
  shows "loop_spec H (r # rs) conf c conf' c'"
proof -
  obtain trace' where t: "cl_sent c' = cl_sent c1 @ trace'" "set conf' = set conf1 \<union> {i. acknowledged H trace' i}"
      "\<forall>body \<in> set (synced_bodies trace'). may_send rs body" "cl_sync c' = cl_sync c1"
      "cl_queue c' = cl_queue c1 \<or> ordered_wipe H trace'"
    using assms(6) unfolding loop_spec_def by blast
  show ?thesis unfolding loop_spec_def
    using assms(1-5) t may_send_cons by (intro exI [of _ "trace @ trace'"]) auto
qed

lemma signed_cases:
  obtains (unsigned) w where "buildSignedRequest H request c = (None, c\<lparr>cl_world := w\<rparr>)"
  | (signed) sig w where "buildSignedRequest H request c = (Some (request\<lparr>sr_hmac_signature := sig\<rparr>), c\<lparr>cl_world := w\<rparr>)"
proof -
  obtain s w where s: "h_sign H (buildCanonicalSigningPayload (request\<lparr>sr_hmac_signature := []\<rparr>)) (cl_world c) = (s, w)"
    by fastforce
  show thesis
    by (cases s) (use s unsigned signed in \<open>auto simp: buildSignedRequest_def Let_def\<close>)
qed

lemma sync_loop_spec:
  "sync_loop H requests conf c = (err, conf', c') \<Longrightarrow> loop_spec H requests conf c conf' c'"
proof (induction requests arbitrary: conf c)
  case Nil
  then show ?case by (auto intro: loop_spec_none)
next
  case (Cons request requests)
  show ?case
  proof (cases "hasInvalidXP request")
    case True
    then have "loop_spec H requests conf c conf' c'" using Cons by simp
    then show ?thesis using loop_spec_step [of c c "[]" conf conf H request requests conf' c']
      by (simp add: acknowledged_def synced_bodies_def)
  next
    case valid: False
    show ?thesis
    proof (cases rule: signed_cases [of H request c])
      case (unsigned w)
      then show ?thesis using Cons.prems valid by (auto intro: loop_spec_none)
    next
      case (signed sig w)
      let ?signed = "request\<lparr>sr_hmac_signature := sig\<rparr>" and ?c = "c\<lparr>cl_world := w\<rparr>"
      obtain r c1 where f: "fetchWithRetry H ''/sync'' ?signed 1 3 ?c = (r, c1)" by fastforce
      obtain trace where t: "cl_sent c1 = cl_sent ?c @ trace" "answers H trace = answer_of (json_of_request ?signed) r"
          "set (synced_bodies trace) \<subseteq> {json_of_request ?signed}" "cl_queue c1 = cl_queue ?c" "cl_sync c1 = cl_sync ?c"
        by (rule fetch_spec [OF f]) auto
      have send: "\<forall>body \<in> set (synced_bodies trace). may_send (request # requests) body"
        using t(3) valid by (auto simp: may_send_def)
      show ?thesis
      proof (cases r)
        case (Inl fl)
        then have "c' = c1" "conf' = conf" using Cons.prems valid signed f by simp_all
        then show ?thesis unfolding loop_spec_def
          using t send Inl by (intro exI [of _ trace]) (simp add: unanswered answer_of_def)
      next
        case (Inr resp)
        let ?conf = "if confirms resp then conf @ [sr_sync_event_id request] else conf"
        have ack: "{i. acknowledged H trace i} = (if confirms resp then {sr_sync_event_id request} else {})"
          using t(2) Inr by (auto simp: acknowledged_def answer_of_def)
        then have conf: "set ?conf = set conf \<union> {i. acknowledged H trace i}" by simp
        show ?thesis
        proof (cases "sp_wipe_local_data resp")
          case True
          then have "ordered_wipe H trace" using t(2) Inr by (simp add: ordered_wipe_def answer_of_def)
          moreover have "conf' = ?conf" "cl_sent c' = cl_sent c1" "cl_sync c' = cl_sync c1"
            using Cons.prems valid signed f Inr True
            by (auto simp: Let_def case_prod_beta confirms_def split: if_splits)
          ultimately show ?thesis unfolding loop_spec_def
            using t send conf by (intro exI [of _ trace]) simp
        next
          case False
          then have "sync_loop H requests ?conf c1 = (err, conf', c')"
            using Cons.prems valid signed f Inr by (simp add: Let_def confirms_def)
          then have "loop_spec H requests ?conf c1 conf' c'" by (rule Cons.IH)
          then show ?thesis using t send conf by (intro loop_spec_step [of c1 c trace ?conf]) simp_all
        qed
      qed
    qed
  qed
qed

lemma game_active_simps:
  assumes "game_active H c = (b, c')"
  shows "cl_sent c' = cl_sent c" "cl_queue c' = cl_queue c" "cl_sync c' = cl_sync c"
  using assms by (auto simp: game_active_def Let_def case_prod_beta)

text \<open>One synchronisation: what it confirms, and that the \<open>isSyncing\<close> flag is lowered again.\<close>

lemma progress_spec:
  assumes "syncLocalProgress H requests c = ((completed, conf), c')"
  shows "\<exists>trace. cl_sent c' = cl_sent c @ trace \<and> set conf = {i. acknowledged H trace i}
        \<and> (\<forall>body \<in> set (synced_bodies trace). may_send requests body)
        \<and> sy_isSyncing (cl_sync c') = sy_isSyncing (cl_sync c) \<and> sy_isOnline (cl_sync c') = sy_isOnline (cl_sync c)
        \<and> sy_deviceId (cl_sync c') = sy_deviceId (cl_sync c)
        \<and> (cl_queue c' = cl_queue c \<or> ordered_wipe H trace)
        \<and> (sy_isSyncing (cl_sync c) \<or> \<not> sy_isOnline (cl_sync c) \<longrightarrow> trace = [] \<and> c' = c)"
proof (cases "sy_isSyncing (cl_sync c) \<or> \<not> sy_isOnline (cl_sync c)")
  case True
  then have "c' = c" "conf = []" using assms by (simp_all add: syncLocalProgress_def split: if_splits)
  then show ?thesis by (intro exI [of _ "[]"]) (simp add: acknowledged_def synced_bodies_def)
next
  case idle: False
  obtain active c1 where g: "game_active H c = (active, c1)" by fastforce
  note g' = game_active_simps [OF g]
  show ?thesis
  proof (cases active)
    case True
    then have "c' = c1" "conf = []" using assms g idle by (simp_all add: syncLocalProgress_def)
    then show ?thesis using g' idle by (intro exI [of _ "[]"]) (simp add: acknowledged_def synced_bodies_def)
  next
    case False
    let ?c = "c1\<lparr>cl_sync := setSyncing True (cl_sync c1)\<rparr>"
    obtain err conf2 c2 where l: "sync_loop H requests [] ?c = (err, conf2, c2)" by (metis prod_cases3)
    obtain trace where t: "cl_sent c2 = cl_sent ?c @ trace" "set conf2 = {i. acknowledged H trace i}"
        "\<forall>body \<in> set (synced_bodies trace). may_send requests body" "cl_sync c2 = cl_sync ?c"
        "cl_queue c2 = cl_queue ?c \<or> ordered_wipe H trace"
      using sync_loop_spec [OF l] unfolding loop_spec_def by auto
    have "conf = conf2" "cl_sent c' = cl_sent c2" "cl_queue c' = cl_queue c2" "sy_isSyncing (cl_sync c') = False"
      "sy_isOnline (cl_sync c') = sy_isOnline (cl_sync c2)" "sy_deviceId (cl_sync c') = sy_deviceId (cl_sync c2)"
      using assms g idle False l
      by (auto simp: syncLocalProgress_def Let_def case_prod_beta setSyncing_def recordSyncSuccess_def split: option.splits if_splits)
    then show ?thesis using t g' idle
      by (intro exI [of _ trace]) (simp add: setSyncing_def)
  qed
qed

section \<open>The queue afterwards\<close>

lemma delete_rows_filter:
  "delete_rows confirmed rows table = filter (\<lambda>r. \<not> (qr_id r \<in> set confirmed \<and> qr_id r \<in> qr_id ` set rows)) table"
proof (induction rows arbitrary: table)
  case Nil
  then show ?case by (simp add: delete_rows_def)
next
  case (Cons row rows)
  have "delete_rows confirmed (row # rows) table =
    delete_rows confirmed rows (if qr_id row \<in> set confirmed then filter (\<lambda>r. qr_id r \<noteq> qr_id row) table else table)"
    by (simp add: delete_rows_def)
  also have "\<dots> = filter (\<lambda>r. \<not> (qr_id r \<in> set confirmed \<and> qr_id r \<in> qr_id ` set (row # rows))) table"
    unfolding Cons.IH by (auto intro: filter_cong)
  finally show ?case .
qed

lemma answers_bodies: "(body, resp) \<in> set (answers H trace) \<Longrightarrow> body \<in> set (synced_bodies trace)"
  by (induction H trace rule: answers.induct) (auto simp: synced_bodies_def split: sum.splits if_splits)

lemma acknowledged_sent:
  assumes "acknowledged H trace i" "\<forall>body \<in> set (synced_bodies trace). may_send requests body"
  shows "i \<in> sr_sync_event_id ` set requests"
proof -
  obtain body resp where "(body, resp) \<in> set (answers H trace)" "js_prop ''sync_event_id'' body = Some (JStr i)"
    using assms(1) by (auto simp: acknowledged_def list_ex_iff)
  moreover obtain r sig where "r \<in> set requests" "body = json_of_request (r\<lparr>sr_hmac_signature := sig\<rparr>)"
    using assms(2) answers_bodies [OF calculation(1)] unfolding may_send_def by blast
  ultimately show ?thesis by (intro image_eqI [of _ _ r]) simp_all
qed

lemma set_oldest_rows: "set (oldest_rows rows) \<subseteq> set rows"
  by (auto simp: oldest_rows_def dest: in_set_takeD)

lemma refresh_count_simps [simp]:
  "cl_sent (refresh_count c) = cl_sent c" "cl_queue (refresh_count c) = cl_queue c" "cl_auth (refresh_count c) = cl_auth c"
  "cl_world (refresh_count c) = cl_world c"
  "sy_isSyncing (cl_sync (refresh_count c)) = sy_isSyncing (cl_sync c)"
  "sy_isOnline (cl_sync (refresh_count c)) = sy_isOnline (cl_sync c)"
  "sy_deviceId (cl_sync (refresh_count c)) = sy_deviceId (cl_sync c)"
  "sy_pendingItemsCount (cl_sync (refresh_count c)) = length (cl_queue c)"
  by (simp_all add: refresh_count_def setPendingCount_def)

definition signed_in :: "'w host \<Rightarrow> 'w client \<Rightarrow> bool" where
  "signed_in H c \<longleftrightarrow> h_tauri H \<and> au_user (cl_auth c) \<noteq> None \<and> sy_deviceId (cl_sync c) \<noteq> None \<and> sy_deviceId (cl_sync c) \<noteq> Some []"

lemma sync_signed_in:
  assumes "signed_in H c"
  obtains user deviceId where "au_user (cl_auth c) = Some user" "sy_deviceId (cl_sync c) = Some deviceId" "deviceId \<noteq> []"
    "syncLocalQueue H c =
      (let c = refresh_count c; rows = oldest_rows (cl_queue c)
       in if rows = [] then c
          else let ((completed, confirmedIDs), c) = syncLocalProgress H (map (request_of_row user deviceId) rows) c
               in if confirmedIDs = [] then refresh_count c
                  else refresh_count (c\<lparr>cl_queue := delete_rows confirmedIDs rows (cl_queue c)\<rparr>))"
  using assms that unfolding signed_in_def syncLocalQueue_def initLocalSyncQueue_def by (auto simp: Let_def)

lemma sync_signed_out: "\<not> signed_in H c \<Longrightarrow> syncLocalQueue H c = c"
  by (auto simp: signed_in_def syncLocalQueue_def split: option.splits)

definition harmless :: "queue_row \<Rightarrow> bool" where
  "harmless row \<longleftrightarrow> (\<forall>a \<in> set (sp_level_attempts (qr_payload row)). 0 \<le> la_xp_awarded a)"

lemma hasInvalidXP_of_row [simp]: "hasInvalidXP (request_of_row user deviceId row) \<longleftrightarrow> \<not> harmless row"
  by (auto simp: hasInvalidXP_def request_of_row_def harmless_def list_ex_iff not_le)

text \<open>A request for a row of the queue: the row's identifier and payload under the current user and device.\<close>

definition reports :: "user \<Rightarrow> string \<Rightarrow> queue_row \<Rightarrow> json \<Rightarrow> bool" where
  "reports user deviceId row body \<longleftrightarrow>
     (\<exists>sig. body = json_of_request ((request_of_row user deviceId row)\<lparr>sr_hmac_signature := sig\<rparr>))"

lemma may_send_rows:
  "may_send (map (request_of_row user deviceId) rows) body \<longleftrightarrow> (\<exists>row \<in> set rows. harmless row \<and> reports user deviceId row body)"
  by (auto simp: may_send_def reports_def)

lemma sync_queue_spec:
  assumes "signed_in H c"
  obtains user deviceId trace where "au_user (cl_auth c) = Some user" "sy_deviceId (cl_sync c) = Some deviceId"
    "cl_sent (syncLocalQueue H c) = cl_sent c @ trace"
    "\<forall>body \<in> set (synced_bodies trace). \<exists>row \<in> set (oldest_rows (cl_queue c)). harmless row \<and> reports user deviceId row body"
    "ordered_wipe H trace \<or>
     cl_queue (syncLocalQueue H c) = filter (\<lambda>row. \<not> acknowledged H trace (qr_id row)) (cl_queue c)"
    "sy_pendingItemsCount (cl_sync (syncLocalQueue H c)) = length (cl_queue (syncLocalQueue H c))"
    "sy_isSyncing (cl_sync (syncLocalQueue H c)) = sy_isSyncing (cl_sync c)"
    "sy_isSyncing (cl_sync c) \<or> \<not> sy_isOnline (cl_sync c) \<Longrightarrow> trace = []"
proof -
  obtain user deviceId where u: "au_user (cl_auth c) = Some user" "sy_deviceId (cl_sync c) = Some deviceId"
    and eq: "syncLocalQueue H c =
      (let c = refresh_count c; rows = oldest_rows (cl_queue c)
       in if rows = [] then c
          else let ((completed, confirmedIDs), c) = syncLocalProgress H (map (request_of_row user deviceId) rows) c
               in if confirmedIDs = [] then refresh_count c
                  else refresh_count (c\<lparr>cl_queue := delete_rows confirmedIDs rows (cl_queue c)\<rparr>))"
    by (rule sync_signed_in [OF assms])
  let ?rows = "oldest_rows (cl_queue c)"
  show thesis
  proof (cases "?rows = []")
    case True
    then show ?thesis using that [of user deviceId "[]"] u unfolding eq
      by (simp add: acknowledged_def synced_bodies_def)
  next
    case False
    let ?requests = "map (request_of_row user deviceId) ?rows"
    obtain completed conf c1 where p: "syncLocalProgress H ?requests (refresh_count c) = ((completed, conf), c1)"
      by (metis surj_pair)
    obtain trace where t: "cl_sent c1 = cl_sent c @ trace" "set conf = {i. acknowledged H trace i}"
      "\<forall>body \<in> set (synced_bodies trace). may_send ?requests body"
      "sy_isSyncing (cl_sync c1) = sy_isSyncing (cl_sync c)"
      "cl_queue c1 = cl_queue c \<or> ordered_wipe H trace"
      "sy_isSyncing (cl_sync c) \<or> \<not> sy_isOnline (cl_sync c) \<longrightarrow> trace = []"
      using progress_spec [OF p] by auto
    have c': "syncLocalQueue H c = refresh_count (c1\<lparr>cl_queue := delete_rows conf ?rows (cl_queue c1)\<rparr>)
        \<or> conf = [] \<and> syncLocalQueue H c = refresh_count c1"
      unfolding eq using False p by (simp add: Let_def)
    have ids: "i \<in> qr_id ` set ?rows" if "acknowledged H trace i" for i
    proof -
      have "i \<in> sr_sync_event_id ` set ?requests" by (rule acknowledged_sent [OF that t(3)])
      then show ?thesis by (simp add: request_of_row_def image_image)
    qed
    have conf: "i \<in> set conf \<longleftrightarrow> acknowledged H trace i" for i using t(2) by simp
    have "cl_queue (syncLocalQueue H c) = filter (\<lambda>row. \<not> acknowledged H trace (qr_id row)) (cl_queue c)"
      if q: "cl_queue c1 = cl_queue c"
    proof (rule disjE [OF c'])
      assume "syncLocalQueue H c = refresh_count (c1\<lparr>cl_queue := delete_rows conf ?rows (cl_queue c1)\<rparr>)"
      then have "cl_queue (syncLocalQueue H c) = delete_rows conf ?rows (cl_queue c)" using q by simp
      also have "\<dots> = filter (\<lambda>row. \<not> acknowledged H trace (qr_id row)) (cl_queue c)"
        unfolding delete_rows_filter conf using ids by (intro filter_cong) blast+
      finally show ?thesis .
    next
      assume "conf = [] \<and> syncLocalQueue H c = refresh_count c1"
      then have "\<not> acknowledged H trace i" for i using conf [of i] by simp
      then show ?thesis using \<open>conf = [] \<and> syncLocalQueue H c = refresh_count c1\<close> q by simp
    qed
    moreover have "cl_sent (syncLocalQueue H c) = cl_sent c1" "sy_isSyncing (cl_sync (syncLocalQueue H c)) = sy_isSyncing (cl_sync c1)"
      "sy_pendingItemsCount (cl_sync (syncLocalQueue H c)) = length (cl_queue (syncLocalQueue H c))"
      using c' by auto
    ultimately show ?thesis using that [of user deviceId trace] u t(1,3-6) unfolding may_send_rows by argo
  qed
qed

end
