(* ===== verification/SyncQueue.thy ===== *)
theory SyncQueue
  imports Sync
begin

text \<open>
  The promises of the progress queue: what a synchronisation removes, that the queue drains, what the
  signature covers, how often a request is repeated, and what happens when two synchronisations overlap.
\<close>

section \<open>What one synchronisation removes\<close>

text \<open>C2: No progress is lost and none is invented. One run of the synchronisation only posts requests that report a
  row of the queue for the signed-in user without negative XP; unless the server ordered a wipe, the
  rows it removes are exactly the rows whose identifier the server acknowledged in a validated answer of this run; the
  displayed count is the number of rows left; and nothing is posted while another run is under way or
  the device is offline.\<close>

theorem sync_queue_exact:
  assumes "signed_in H c"
  shows "\<exists>user deviceId trace. au_user (cl_auth c) = Some user \<and> sy_deviceId (cl_sync c) = Some deviceId
    \<and> cl_sent (syncLocalQueue H c) = cl_sent c @ trace
    \<and> (\<forall>body \<in> set (synced_bodies trace). \<exists>row \<in> set (cl_queue c). harmless row \<and> reports user deviceId row body)
    \<and> (ordered_wipe H trace \<or>
       cl_queue (syncLocalQueue H c) = filter (\<lambda>row. \<not> acknowledged H trace (qr_id row)) (cl_queue c))
    \<and> sy_pendingItemsCount (cl_sync (syncLocalQueue H c)) = length (cl_queue (syncLocalQueue H c))
    \<and> sy_isSyncing (cl_sync (syncLocalQueue H c)) = sy_isSyncing (cl_sync c)
    \<and> (sy_isSyncing (cl_sync c) \<or> \<not> sy_isOnline (cl_sync c) \<longrightarrow> trace = [])"
  using set_oldest_rows [of "cl_queue c"]
  by (rule_tac sync_queue_spec [OF assms], rule_tac x = user in exI, rule_tac x = deviceId in exI,
      rule_tac x = trace in exI) blast

text \<open>A queue row and a client with some rows.\<close>

definition sample_row :: "string \<Rightarrow> int \<Rightarrow> queue_row" where
  "sample_row i xp = \<lparr>qr_id = i, qr_user_id = ''u1'', qr_device_id = ''d'',
     qr_payload = \<lparr>sp_level_attempts = [\<lparr>la_level_id = ''l1'', la_attempt_date = ''2026-01-01'', la_attempt_number = 1,
        la_xp_awarded = xp, la_score = 3, la_completed = True\<rparr>], sp_daily_streak_dates = Some [''2026-01-01''], sp_badge_ids_earned = None\<rparr>,
     qr_created_at = ''2026-01-01''\<rparr>"

definition with_rows :: "queue_row list \<Rightarrow> nat client" where
  "with_rows rows = sample_client\<lparr>cl_queue := rows\<rparr>"

lemma signed_in_sample: "signed_in (sample_host answer) (with_rows rows)"
  by (simp add: signed_in_def sample_host_def with_rows_def sample_client_def login_def setDeviceId_def)

theorem sync_queue_exact_witness:
  "let H = sample_host (\<lambda>rq. NetError); c = with_rows [sample_row ''a'' 0] in
     \<exists>trace. cl_sent (syncLocalQueue H c) = cl_sent c @ trace \<and>
       (ordered_wipe H trace \<or> cl_queue (syncLocalQueue H c) = filter (\<lambda>row. \<not> acknowledged H trace (qr_id row)) (cl_queue c))"
  using sync_queue_exact [OF signed_in_sample [of "\<lambda>rq. NetError" "[sample_row ''a'' 0]"]] unfolding Let_def by blast

section \<open>The queue drains\<close>

text \<open>A host that lets a synchronisation through: the server confirms every event, the signing command works,
  no game is running.\<close>

definition obliging :: "'w host \<Rightarrow> bool" where
  "obliging H \<longleftrightarrow> (\<forall>w. fst (h_game_status H w) \<noteq> Some True) \<and> (\<forall>s w. fst (h_sign H s w) \<noteq> None)
     \<and> (\<forall>rq w. rq_url rq = ''/sync'' \<longrightarrow> (\<exists>data resp. fst (h_send H rq w) = HttpOk data
          \<and> sync_outcome H (HttpOk data) = Inr resp \<and> confirms resp \<and> \<not> sp_wipe_local_data resp))"

lemma fetch_obliging:
  assumes "obliging H"
  obtains resp c' where "fetchWithRetry H ''/sync'' data attempt maxAttempts c = (Inr resp, c')" "confirms resp"
    "\<not> sp_wipe_local_data resp" "cl_queue c' = cl_queue c" "cl_sync c' = cl_sync c" "cl_auth c' = cl_auth c"
    "\<exists>rq r. cl_sent c' = cl_sent c @ [(rq, r)] \<and> rq_url rq = ''/sync'' \<and> rq_body rq = json_of_request data"
proof -
  let ?rq = "\<lparr>rq_url = ''/sync'', rq_body = json_of_request data, rq_token = bearer (cl_auth c)\<rparr>"
  obtain r c1 where s: "raw_send H ?rq c = (r, c1)" by fastforce
  then have "r = fst (h_send H ?rq (cl_world c))" by (auto simp: raw_send_def case_prod_beta)
  moreover obtain d resp where "fst (h_send H ?rq (cl_world c)) = HttpOk d" "sync_outcome H (HttpOk d) = Inr resp"
      "confirms resp" "\<not> sp_wipe_local_data resp"
    using assms unfolding obliging_def by (metis http_request.select_convs(1))
  ultimately obtain d resp where d: "r = HttpOk d" "sync_outcome H (HttpOk d) = Inr resp" "confirms resp" "\<not> sp_wipe_local_data resp"
    by simp
  have "api_request H False ''/sync'' (json_of_request data) c = (HttpOk d, c1)"
    unfolding api_request.simps [of H False "''/sync''" "json_of_request data" c] s d(1) by simp
  from fetch_unfold [OF this] have "fetchWithRetry H ''/sync'' data attempt maxAttempts c = (Inr resp, c1)"
    by (simp add: d(2))
  moreover have "\<exists>rq r. cl_sent c1 = cl_sent c @ [(rq, r)] \<and> rq_url rq = ''/sync'' \<and> rq_body rq = json_of_request data"
    using sent_of [OF s] by (intro exI [of _ ?rq]) auto
  ultimately show thesis using that sent_of [OF s] d(3,4) by metis
qed

text \<open>The bodies posted while the record of exchanges grew from the first list to the second.\<close>

definition posted_between :: "(http_request \<times> http_result) list \<Rightarrow> (http_request \<times> http_result) list \<Rightarrow> json set" where
  "posted_between before after = set (synced_bodies (drop (length before) after))"

lemma posted_trans:
  assumes "\<exists>t. b = a @ t" "\<exists>t. c = b @ t"
  shows "posted_between a c = posted_between a b \<union> posted_between b c"
  using assms by (auto simp: posted_between_def)

lemma loop_obliging:
  assumes "obliging H"
  shows "list_all (\<lambda>r. \<not> hasInvalidXP r) requests \<Longrightarrow>
    \<exists>c'. sync_loop H requests conf c = (None, conf @ map sr_sync_event_id requests, c')
       \<and> cl_queue c' = cl_queue c \<and> cl_sync c' = cl_sync c \<and> cl_auth c' = cl_auth c
       \<and> (\<exists>t. cl_sent c' = cl_sent c @ t)
       \<and> (\<forall>request \<in> set requests. \<exists>sig. json_of_request (request\<lparr>sr_hmac_signature := sig\<rparr>)
            \<in> posted_between (cl_sent c) (cl_sent c'))"
proof (induction requests arbitrary: conf c)
  case Nil
  then show ?case by simp
next
  case (Cons request requests)
  show ?case
  proof (cases rule: signed_cases [of H request c])
    case (unsigned w)
    then show ?thesis using assms unfolding obliging_def buildSignedRequest_def Let_def
      by (auto simp: case_prod_beta)
  next
    case (signed sig w)
    obtain resp c1 where f: "fetchWithRetry H ''/sync'' (request\<lparr>sr_hmac_signature := sig\<rparr>) 1 3 (c\<lparr>cl_world := w\<rparr>) = (Inr resp, c1)"
        and r: "confirms resp" "\<not> sp_wipe_local_data resp"
        and c1: "cl_queue c1 = cl_queue c" "cl_sync c1 = cl_sync c" "cl_auth c1 = cl_auth c"
        and sent: "\<exists>rq r. cl_sent c1 = cl_sent c @ [(rq, r)] \<and> rq_url rq = ''/sync''
          \<and> rq_body rq = json_of_request (request\<lparr>sr_hmac_signature := sig\<rparr>)"
      by (rule fetch_obliging [OF assms, of "request\<lparr>sr_hmac_signature := sig\<rparr>" 1 3 "c\<lparr>cl_world := w\<rparr>"]) simp
    have "sync_loop H (request # requests) conf c = sync_loop H requests (conf @ [sr_sync_event_id request]) c1"
      using Cons.prems signed f r by (simp add: confirms_def)
    moreover obtain c2 where c2: "sync_loop H requests (conf @ [sr_sync_event_id request]) c1
          = (None, (conf @ [sr_sync_event_id request]) @ map sr_sync_event_id requests, c2)"
        "cl_queue c2 = cl_queue c1" "cl_sync c2 = cl_sync c1" "cl_auth c2 = cl_auth c1" "\<exists>t. cl_sent c2 = cl_sent c1 @ t"
        "\<forall>request \<in> set requests. \<exists>sig. json_of_request (request\<lparr>sr_hmac_signature := sig\<rparr>)
           \<in> posted_between (cl_sent c1) (cl_sent c2)"
      using Cons.IH [of "conf @ [sr_sync_event_id request]" c1] Cons.prems by auto
    moreover have here: "\<exists>t. cl_sent c1 = cl_sent c @ t"
        "json_of_request (request\<lparr>sr_hmac_signature := sig\<rparr>) \<in> posted_between (cl_sent c) (cl_sent c1)"
      using sent by (auto simp: posted_between_def synced_bodies_def intro!: image_eqI)
    moreover have "posted_between (cl_sent c) (cl_sent c2)
        = posted_between (cl_sent c) (cl_sent c1) \<union> posted_between (cl_sent c1) (cl_sent c2)"
      using posted_trans [OF here(1) c2(5)] .
    moreover have "\<exists>t. cl_sent c2 = cl_sent c @ t" using here(1) c2(5) by auto
    ultimately show ?thesis using c1 by (intro exI [of _ c2]) auto
  qed
qed

text \<open>A client whose synchronisation is free to run, with a well-formed queue.\<close>

definition ready :: "'w host \<Rightarrow> 'w client \<Rightarrow> bool" where
  "ready H c \<longleftrightarrow> signed_in H c \<and> sy_isOnline (cl_sync c) \<and> \<not> sy_isSyncing (cl_sync c)
     \<and> distinct (map qr_id (cl_queue c)) \<and> list_all harmless (cl_queue c)"

lemma progress_obliging:
  assumes "obliging H" "list_all (\<lambda>r. \<not> hasInvalidXP r) requests" "sy_isOnline (cl_sync c)" "\<not> sy_isSyncing (cl_sync c)"
  obtains completed c' where "syncLocalProgress H requests c = ((completed, map sr_sync_event_id requests), c')"
    "cl_queue c' = cl_queue c" "cl_auth c' = cl_auth c" "sy_isOnline (cl_sync c')" "\<not> sy_isSyncing (cl_sync c')"
    "sy_deviceId (cl_sync c') = sy_deviceId (cl_sync c)" "\<exists>t. cl_sent c' = cl_sent c @ t"
    "\<forall>request \<in> set requests. \<exists>sig. json_of_request (request\<lparr>sr_hmac_signature := sig\<rparr>)
       \<in> posted_between (cl_sent c) (cl_sent c')"
proof -
  obtain c1 where g: "game_active H c = (False, c1)"
    using assms(1) by (auto simp: game_active_def obliging_def case_prod_beta)
  have c1: "cl_queue c1 = cl_queue c" "cl_sync c1 = cl_sync c" "cl_auth c1 = cl_auth c" "cl_sent c1 = cl_sent c"
    using g by (auto simp: game_active_def case_prod_beta)
  obtain c2 where l: "sync_loop H requests [] (c1\<lparr>cl_sync := setSyncing True (cl_sync c1)\<rparr>) = (None, map sr_sync_event_id requests, c2)"
      "cl_queue c2 = cl_queue c" "cl_sync c2 = setSyncing True (cl_sync c)" "cl_auth c2 = cl_auth c"
      "\<exists>t. cl_sent c2 = cl_sent c @ t"
      "\<forall>request \<in> set requests. \<exists>sig. json_of_request (request\<lparr>sr_hmac_signature := sig\<rparr>)
         \<in> posted_between (cl_sent c) (cl_sent c2)"
    using loop_obliging [OF assms(1,2), of "[]" "c1\<lparr>cl_sync := setSyncing True (cl_sync c1)\<rparr>"] c1 by auto
  show thesis
    using that assms(3,4) g l unfolding syncLocalProgress_def
    by (auto simp: Let_def case_prod_beta setSyncing_def recordSyncSuccess_def)
qed

lemma oldest_removed:
  fixes rows :: "queue_row list"
  assumes "distinct (map qr_id rows)"
  shows "length (filter (\<lambda>r. qr_id r \<notin> qr_id ` set (oldest_rows rows)) rows) = length rows - 50"
proof -
  let ?sorted = "sort_key qr_created_at rows" and ?P = "\<lambda>r. qr_id r \<notin> qr_id ` set (oldest_rows rows)"
  have dist: "distinct (map qr_id ?sorted)"
    using assms by (metis distinct_map distinct_sort inj_on_def set_sort)
  have "length (filter ?P rows) = length (filter ?P ?sorted)"
    by (metis mset_filter mset_sort size_mset)
  also have "filter ?P ?sorted = filter ?P (take 50 ?sorted) @ filter ?P (drop 50 ?sorted)"
    by (metis append_take_drop_id filter_append)
  also have "filter ?P (take 50 ?sorted) = []" by (auto simp: oldest_rows_def filter_empty_conv)
  also have "filter ?P (drop 50 ?sorted) = drop 50 ?sorted"
  proof (rule filter_True, rule ballI)
    fix r assume r: "r \<in> set (drop 50 ?sorted)"
    have "distinct (map qr_id (take 50 ?sorted) @ map qr_id (drop 50 ?sorted))"
      using dist by (metis append_take_drop_id map_append)
    then show "?P r" using r by (auto simp: oldest_rows_def dest: imageI [of _ _ qr_id])
  qed
  finally show ?thesis by simp
qed

text \<open>Between two states of the client the row has been posted for the user and device of the first.\<close>

definition posted :: "queue_row \<Rightarrow> 'w client \<Rightarrow> 'w client \<Rightarrow> bool" where
  "posted row c c' \<longleftrightarrow> (\<exists>user deviceId. au_user (cl_auth c) = Some user \<and> sy_deviceId (cl_sync c) = Some deviceId
     \<and> (\<exists>body \<in> posted_between (cl_sent c) (cl_sent c'). reports user deviceId row body))"

lemma sync_obliging:
  assumes "obliging H" "ready H c"
  shows "ready H (syncLocalQueue H c) \<and> length (cl_queue (syncLocalQueue H c)) = length (cl_queue c) - 50
    \<and> cl_auth (syncLocalQueue H c) = cl_auth c \<and> sy_deviceId (cl_sync (syncLocalQueue H c)) = sy_deviceId (cl_sync c)
    \<and> (\<exists>t. cl_sent (syncLocalQueue H c) = cl_sent c @ t)
    \<and> (\<forall>row \<in> set (cl_queue c). row \<in> set (cl_queue (syncLocalQueue H c)) \<or> posted row c (syncLocalQueue H c))"
proof -
  have s: "signed_in H c" and on: "sy_isOnline (cl_sync c)" "\<not> sy_isSyncing (cl_sync c)"
    and rows: "distinct (map qr_id (cl_queue c))" "list_all harmless (cl_queue c)"
    using assms(2) by (simp_all add: ready_def)
  obtain user deviceId where u: "au_user (cl_auth c) = Some user" "sy_deviceId (cl_sync c) = Some deviceId" "deviceId \<noteq> []"
    and eq: "syncLocalQueue H c =
      (let c = refresh_count c; rows = oldest_rows (cl_queue c)
       in if rows = [] then c
          else let ((completed, confirmedIDs), c) = syncLocalProgress H (map (request_of_row user deviceId) rows) c
               in if confirmedIDs = [] then refresh_count c
                  else refresh_count (c\<lparr>cl_queue := delete_rows confirmedIDs rows (cl_queue c)\<rparr>))"
    by (rule sync_signed_in [OF s])
  let ?rows = "oldest_rows (cl_queue c)"
  have tauri: "h_tauri H" using s by (simp add: signed_in_def)
  show ?thesis
  proof (cases "?rows = []")
    case True
    then have "cl_queue c = []" unfolding oldest_rows_def by (metis length_0_conv length_sort take_eq_Nil zero_neq_numeral)
    moreover have "syncLocalQueue H c = refresh_count c" unfolding eq using True by simp
    ultimately show ?thesis using assms(2) by (simp add: ready_def signed_in_def)
  next
    case False
    let ?requests = "map (request_of_row user deviceId) ?rows"
    have "list_all (\<lambda>r. \<not> hasInvalidXP r) ?requests"
      using rows(2) set_oldest_rows [of "cl_queue c"] by (auto simp: list_all_iff)
    from progress_obliging [OF assms(1) this, of "refresh_count c"] obtain completed c' where
      p: "syncLocalProgress H ?requests (refresh_count c) = ((completed, map sr_sync_event_id ?requests), c')"
      and c': "cl_queue c' = cl_queue c" "cl_auth c' = cl_auth c" "sy_isOnline (cl_sync c')" "\<not> sy_isSyncing (cl_sync c')"
        "sy_deviceId (cl_sync c') = sy_deviceId (cl_sync c)" "\<exists>t. cl_sent c' = cl_sent c @ t"
      and sent: "\<forall>request \<in> set ?requests. \<exists>sig. json_of_request (request\<lparr>sr_hmac_signature := sig\<rparr>)
         \<in> posted_between (cl_sent c) (cl_sent c')"
      using on by auto
    have "map sr_sync_event_id ?requests = map qr_id ?rows" by (simp add: request_of_row_def)
    note p = p [unfolded this]
    let ?left = "filter (\<lambda>r. qr_id r \<notin> qr_id ` set ?rows) (cl_queue c)"
    have "delete_rows (map qr_id ?rows) ?rows (cl_queue c') = ?left"
      unfolding delete_rows_filter c'(1) by simp
    then have "syncLocalQueue H c = refresh_count (c'\<lparr>cl_queue := ?left\<rparr>)"
      unfolding eq using False p by (simp add: Let_def)
    moreover have "distinct (map qr_id ?left)" "list_all harmless ?left"
      using rows by (simp_all add: distinct_map_filter list_all_iff)
    moreover have "row \<in> set ?left \<or> posted row c (refresh_count (c'\<lparr>cl_queue := ?left\<rparr>))" if row: "row \<in> set (cl_queue c)" for row
    proof (cases "qr_id row \<in> qr_id ` set ?rows")
      case True
      then obtain row' where row': "row' \<in> set ?rows" "qr_id row' = qr_id row" by auto
      have "row' \<in> set (cl_queue c)" using row'(1) set_oldest_rows [of "cl_queue c"] by blast
      then have "row \<in> set ?rows" using rows(1) row row' by (metis distinct_map inj_onD)
      then obtain sig where "json_of_request ((request_of_row user deviceId row)\<lparr>sr_hmac_signature := sig\<rparr>)
          \<in> posted_between (cl_sent c) (cl_sent c')"
        using sent by auto
      then show ?thesis using u by (auto simp: posted_def reports_def)
    qed (use row in simp)
    ultimately show ?thesis
      using c' u tauri oldest_removed [OF rows(1)] by (simp add: ready_def signed_in_def)
  qed
qed

lemma sync_obliging_many:
  assumes "obliging H" "ready H c"
  shows "ready H ((syncLocalQueue H ^^ n) c) \<and> length (cl_queue ((syncLocalQueue H ^^ n) c)) = length (cl_queue c) - 50 * n
    \<and> cl_auth ((syncLocalQueue H ^^ n) c) = cl_auth c \<and> sy_deviceId (cl_sync ((syncLocalQueue H ^^ n) c)) = sy_deviceId (cl_sync c)
    \<and> (\<exists>t. cl_sent ((syncLocalQueue H ^^ n) c) = cl_sent c @ t)
    \<and> (\<forall>row \<in> set (cl_queue c). row \<in> set (cl_queue ((syncLocalQueue H ^^ n) c)) \<or> posted row c ((syncLocalQueue H ^^ n) c))"
proof (induction n)
  case 0
  then show ?case using assms(2) by simp
next
  case (Suc n)
  let ?d = "(syncLocalQueue H ^^ n) c"
  have d: "ready H ?d" "length (cl_queue ?d) = length (cl_queue c) - 50 * n" "cl_auth ?d = cl_auth c"
      "sy_deviceId (cl_sync ?d) = sy_deviceId (cl_sync c)" "\<exists>t. cl_sent ?d = cl_sent c @ t"
      "\<And>row. row \<in> set (cl_queue c) \<Longrightarrow> row \<in> set (cl_queue ?d) \<or> posted row c ?d"
    using Suc.IH by blast+
  note s = sync_obliging [OF assms(1) d(1)]
  let ?e = "syncLocalQueue H ?d"
  have t: "\<exists>t. cl_sent ?e = cl_sent ?d @ t" using s by blast
  have p: "posted_between (cl_sent c) (cl_sent ?e) = posted_between (cl_sent c) (cl_sent ?d) \<union> posted_between (cl_sent ?d) (cl_sent ?e)"
    by (rule posted_trans [OF d(5) t])
  have "row \<in> set (cl_queue ?e) \<or> posted row c ?e" if "row \<in> set (cl_queue c)" for row
    using d(6) [OF that] s d(3,4) unfolding posted_def p by (metis UnCI)
  moreover have "\<exists>t. cl_sent ?e = cl_sent c @ t" using d(5) t by (metis append.assoc)
  ultimately show ?case using s d(2,3,4) by simp
qed

text \<open>C20: The queue drains. When the server confirms events and no game is running, every run of the
  synchronisation removes the fifty oldest rows, so after \<open>n\<close> runs at most \<open>length - 50 n\<close> rows remain, and enough runs
  empty the queue.\<close>

theorem sync_queue_drains:
  assumes "obliging H" "ready H c"
  shows "length (cl_queue ((syncLocalQueue H ^^ n) c)) = length (cl_queue c) - 50 * n
    \<and> cl_queue ((syncLocalQueue H ^^ length (cl_queue c)) c) = []"
  using sync_obliging_many [OF assms, of n] sync_obliging_many [OF assms, of "length (cl_queue c)"] by simp

definition synced_answer :: http_result where
  "synced_answer = HttpOk (JObj [(''status'', JStr ''synced''), (''wipe_local_data'', JBool False), (''server_xp_total'', JNum 10)])"

lemma synced_outcome: "sync_outcome (sample_host answer) synced_answer =
    Inr \<lparr>sp_status = ''synced'', sp_wipe_local_data = False, sp_server_xp_total = 10\<rparr>"
  by code_simp

theorem sync_queue_drains_witness:
  "cl_queue ((syncLocalQueue (sample_host (\<lambda>rq. synced_answer)) ^^ 2) (with_rows [sample_row ''a'' 0, sample_row ''b'' 7])) = []"
proof -
  let ?H = "sample_host (\<lambda>rq. synced_answer)" and ?c = "with_rows [sample_row ''a'' 0, sample_row ''b'' 7]"
  have "obliging ?H" unfolding obliging_def using synced_outcome [of "\<lambda>rq. synced_answer"]
    by (simp add: sample_host_def synced_answer_def confirms_def)
  moreover have "ready ?H ?c"
    using signed_in_sample by (simp add: ready_def with_rows_def sample_client_def setDeviceId_def sync_initial_def sample_row_def harmless_def)
  ultimately show ?thesis
    using sync_queue_drains [of ?H ?c] by (simp add: with_rows_def numeral_2_eq_2)
qed
section \<open>What the signature covers\<close>

lemma split_at_separator:
  assumes "d \<notin> set x" "d \<notin> set y"
  shows "x @ d # r = y @ d # s \<longleftrightarrow> x = y \<and> r = s"
proof
  assume eq: "x @ d # r = y @ d # s"
  have "takeWhile (\<lambda>c. c \<noteq> d) (z @ d # t) = z" if "d \<notin> set z" for z t :: "'a list"
    using that by (induction z) auto
  then have "x = y" using assms eq by metis
  then show "x = y \<and> r = s" using eq by simp
qed simp

lemma join_inj:
  assumes "\<forall>x \<in> set xs \<union> set ys. d \<notin> set x" "xs \<noteq> []" "ys \<noteq> []"
  shows "join [d] xs = join [d] ys \<longleftrightarrow> xs = ys"
  using assms
proof (induction xs arbitrary: ys)
  case Nil
  then show ?case by simp
next
  case (Cons x xs)
  obtain y zs where ys: "ys = y # zs" using Cons.prems(3) by (cases ys) auto
  have d: "d \<notin> set x" "d \<notin> set y" using Cons.prems(1) ys by auto
  have single: "x @ d # r \<noteq> y" "y @ d # r \<noteq> x" for r using d by auto
  show ?case
  proof (cases "xs = [] \<or> zs = []")
    case True
    then show ?thesis using ys single by (cases xs; cases zs) (auto dest: sym)
  next
    case False
    then have "join [d] (x # xs) = x @ d # join [d] xs" "join [d] (y # zs) = y @ d # join [d] zs"
      by (cases xs; simp; cases zs; simp)+
    then show ?thesis using Cons.IH [of zs] Cons.prems(1) False d ys by (simp add: split_at_separator)
  qed
qed

lemma join_inj_nonempty:
  assumes "\<forall>x \<in> set xs \<union> set ys. d \<notin> set x \<and> x \<noteq> []"
  shows "join [d] xs = join [d] ys \<longleftrightarrow> xs = ys"
proof -
  have empty: "join [d] zs = [] \<longleftrightarrow> zs = []" if "\<forall>x \<in> set zs. x \<noteq> []" for zs
    using that by (cases zs rule: list.exhaust; cases "tl zs") auto
  show ?thesis
  proof (cases "xs = [] \<or> ys = []")
    case True
    then show ?thesis using empty [of xs] empty [of ys] assms by auto
  next
    case False
    then show ?thesis using join_inj [of xs ys d] assms by auto
  qed
qed

lemma join_set: "c \<in> set (join sep xs) \<Longrightarrow> c \<in> set sep \<or> (\<exists>x \<in> set xs. c \<in> set x)"
  by (induction sep xs rule: join.induct) auto

lemma sort_eq_iff: "sort xs = sort ys \<longleftrightarrow> mset xs = mset ys"
  by (metis mset_sort properties_for_sort sorted_sort)

text \<open>Fields without the three separators, and non-empty where the list could be confused with the empty one.\<close>

definition free_of_separators :: "string \<Rightarrow> bool" where
  "free_of_separators s \<longleftrightarrow> CHR ''|'' \<notin> set s \<and> CHR '';'' \<notin> set s \<and> CHR '','' \<notin> set s"

definition signable :: "sync_request \<Rightarrow> bool" where
  "signable r \<longleftrightarrow> free_of_separators (sr_sync_event_id r) \<and> free_of_separators (sr_user_id r) \<and> free_of_separators (sr_device_id r)
     \<and> list_all (\<lambda>a. free_of_separators (la_level_id a) \<and> free_of_separators (la_attempt_date a)) (sp_level_attempts (sr_payload r))
     \<and> list_all (\<lambda>s. free_of_separators s \<and> s \<noteq> []) (or_empty (sp_daily_streak_dates (sr_payload r)))
     \<and> list_all (\<lambda>s. free_of_separators s \<and> s \<noteq> []) (or_empty (sp_badge_ids_earned (sr_payload r)))"

lemma separators_not_in_int [simp]:
  "CHR ''|'' \<notin> set (show_int i)" "CHR '';'' \<notin> set (show_int i)" "CHR '','' \<notin> set (show_int i)"
  using show_int_set by (auto simp: is_digit_def dest!: show_int_set)

definition clean_attempt :: "level_attempt \<Rightarrow> bool" where
  "clean_attempt a \<longleftrightarrow> free_of_separators (la_level_id a) \<and> free_of_separators (la_attempt_date a)"

lemma attempt_line_inj:
  assumes "clean_attempt a" "clean_attempt b" "attempt_line a = attempt_line b"
  shows "a = b"
proof -
  have "[la_level_id a, la_attempt_date a, show_int (la_attempt_number a), show_int (la_xp_awarded a),
     show_int (la_score a), (if la_completed a then ''true'' else ''false'')] =
    [la_level_id b, la_attempt_date b, show_int (la_attempt_number b), show_int (la_xp_awarded b),
     show_int (la_score b), (if la_completed b then ''true'' else ''false'')]"
    using assms(3) unfolding attempt_line_def
    by (subst (asm) join_inj) (use assms(1,2) in \<open>auto simp: clean_attempt_def free_of_separators_def\<close>)
  then show ?thesis by (cases a; cases b) (auto split: if_splits)
qed

lemma attempt_line_clean:
  assumes "clean_attempt a"
  shows "CHR ''|'' \<notin> set (attempt_line a)" "CHR '';'' \<notin> set (attempt_line a)" "attempt_line a \<noteq> []"
  using assms unfolding attempt_line_def clean_attempt_def free_of_separators_def
  by auto

lemma attempts_mset:
  assumes "list_all clean_attempt as" "list_all clean_attempt bs"
  shows "join '';'' (sort (map attempt_line as)) = join '';'' (sort (map attempt_line bs)) \<longleftrightarrow> mset as = mset bs"
proof -
  have "join '';'' (sort (map attempt_line as)) = join '';'' (sort (map attempt_line bs))
      \<longleftrightarrow> sort (map attempt_line as) = sort (map attempt_line bs)"
    by (rule join_inj_nonempty) (use assms attempt_line_clean in \<open>auto simp: list_all_iff\<close>)
  also have "\<dots> \<longleftrightarrow> image_mset attempt_line (mset as) = image_mset attempt_line (mset bs)"
    unfolding sort_eq_iff by simp
  also have "\<dots> \<longleftrightarrow> mset as = mset bs"
    using multiset.inj_map_strong [of "mset as" "mset bs" attempt_line attempt_line] assms attempt_line_inj
    by (auto simp: list_all_iff)
  finally show ?thesis .
qed

lemma strings_mset:
  assumes "list_all (\<lambda>s. free_of_separators s \<and> s \<noteq> []) xs" "list_all (\<lambda>s. free_of_separators s \<and> s \<noteq> []) ys"
  shows "join '';'' (sort xs) = join '';'' (sort ys) \<longleftrightarrow> mset xs = mset ys"
proof -
  have "join '';'' (sort xs) = join '';'' (sort ys) \<longleftrightarrow> sort xs = sort ys"
    by (rule join_inj_nonempty) (use assms in \<open>auto simp: list_all_iff free_of_separators_def\<close>)
  then show ?thesis by (simp add: sort_eq_iff)
qed

lemma no_bar_in_join:
  "\<forall>x \<in> set xs. CHR ''|'' \<notin> set x \<Longrightarrow> CHR ''|'' \<notin> set (join '';'' (sort xs))"
  using join_set [of "CHR ''|''" "'';''" "sort xs"] by auto

text \<open>C10: The signature covers the whole report and nothing but the report: two requests have the same signed text exactly
  when they agree in the identifiers, the key version and, up to the order of the lists, in every field of
  every attempt, in the streak dates and in the badges (fields that contain one of the separators excluded).\<close>

theorem signature_covers_report:
  assumes "signable r" "signable s"
  shows "buildCanonicalSigningPayload r = buildCanonicalSigningPayload s \<longleftrightarrow>
    sr_sync_event_id r = sr_sync_event_id s \<and> sr_user_id r = sr_user_id s \<and> sr_device_id r = sr_device_id s
    \<and> sr_crypto_key_version r = sr_crypto_key_version s
    \<and> mset (sp_level_attempts (sr_payload r)) = mset (sp_level_attempts (sr_payload s))
    \<and> mset (or_empty (sp_daily_streak_dates (sr_payload r))) = mset (or_empty (sp_daily_streak_dates (sr_payload s)))
    \<and> mset (or_empty (sp_badge_ids_earned (sr_payload r))) = mset (or_empty (sp_badge_ids_earned (sr_payload s)))"
proof -
  have clean: "list_all clean_attempt (sp_level_attempts (sr_payload r))" "list_all clean_attempt (sp_level_attempts (sr_payload s))"
    using assms by (auto simp: signable_def clean_attempt_def list_all_iff)
  have bars: "CHR ''|'' \<notin> set (join '';'' (sort (map attempt_line (sp_level_attempts (sr_payload q)))))"
    "CHR ''|'' \<notin> set (join '';'' (sort (or_empty (sp_daily_streak_dates (sr_payload q)))))"
    "CHR ''|'' \<notin> set (join '';'' (sort (or_empty (sp_badge_ids_earned (sr_payload q)))))" if "signable q" for q
    by (rule no_bar_in_join; use that attempt_line_clean(1) in
        \<open>auto simp: signable_def list_all_iff clean_attempt_def free_of_separators_def\<close>)+
  show ?thesis
    unfolding buildCanonicalSigningPayload_def Let_def
    by (subst join_inj)
      (use assms bars [OF assms(1)] bars [OF assms(2)] clean in
        \<open>auto simp: signable_def free_of_separators_def attempts_mset strings_mset\<close>)
qed

definition sample_request :: "int \<Rightarrow> sync_request" where
  "sample_request xp = request_of_row (sample_user Player) ''d'' (sample_row ''a'' xp)"

theorem signature_covers_report_witness:
  "buildCanonicalSigningPayload (sample_request 0) \<noteq> buildCanonicalSigningPayload (sample_request 5)"
  using signature_covers_report [of "sample_request 0" "sample_request 5"]
  by (simp add: signable_def sample_request_def request_of_row_def sample_row_def free_of_separators_def or_empty_def
      sample_user_def)

section \<open>How often a request is repeated\<close>

lemma fl_abs: "\<bar>fl x\<bar> \<le> \<bar>x\<bar> + \<bar>x\<bar> / 2 ^ 53"
  using fl_error [of x] by linarith

lemma retry_delay_near:
  assumes "0 \<le> r" "r \<le> 1" "b = 2 ^ (attempt - 1) * 1000" "attempt \<le> 2"
  shows "\<bar>retry_delay attempt r - b\<bar> \<le> b / 5 + 1"
proof -
  have b: "1000 \<le> b" "b \<le> 2000" using assms(3,4) by (auto simp: le_Suc_eq numeral_2_eq_2)
  define a1 where "a1 = fl (1 / 5)"
  define a2 where "a2 = fl (b * a1)"
  define m1 where "m1 = fl (r * 2)"
  define m2 where "m2 = fl (m1 - 1)"
  define j where "j = fl (a2 * m2)"
  have a1: "\<bar>a1\<bar> \<le> 1 / 5 + 1 / 1000000" using fl_abs [of "1 / 5"] unfolding a1_def by simp
  have "\<bar>b * a1\<bar> \<le> b * (1 / 5 + 1 / 1000000)" using a1 b by (simp add: abs_mult mult_left_mono)
  then have a2: "\<bar>a2\<bar> \<le> b / 5 + 1 / 100" using fl_abs [of "b * a1"] b unfolding a2_def by (simp add: distrib_left)
  have m1: "0 \<le> m1" "m1 \<le> 2 + 1 / 1000000"
    using fl_nonneg [of "r * 2"] fl_upper [of "r * 2"] assms(1,2) unfolding m1_def by simp_all
  then have "\<bar>m1 - 1\<bar> \<le> 1 + 1 / 1000000" by linarith
  then have m2: "\<bar>m2\<bar> \<le> 1 + 1 / 100000" using fl_abs [of "m1 - 1"] unfolding m2_def by simp
  have "\<bar>a2 * m2\<bar> \<le> (b / 5 + 1 / 100) * (1 + 1 / 100000)"
    unfolding abs_mult using a2 m2 b by (intro mult_mono) auto
  also have "\<dots> \<le> b / 5 + 1 / 10" using b by (simp add: field_simps)
  finally have j: "\<bar>j\<bar> \<le> b / 5 + 1 / 5" using fl_abs [of "a2 * m2"] b unfolding j_def by simp
  have "\<bar>fl (b + j) - (b + j)\<bar> \<le> 1 / 5"
    using fl_error [of "b + j"] j b by (simp add: abs_le_iff)
  moreover have "retry_delay attempt r = fl (b + j)"
    unfolding retry_delay_def Let_def j_def a2_def a1_def m1_def m2_def assms(3) by simp
  ultimately show ?thesis using j by linarith
qed

lemma sleep_waits: "\<exists>r w. h_random H (cl_world c) = (r, w) \<and> cl_waits (sleep H n c) = cl_waits c @ [retry_delay n r]"
  by (cases "h_random H (cl_world c)") (simp add: sleep_def Let_def)

definition fair_random :: "'w host \<Rightarrow> bool" where
  "fair_random H \<longleftrightarrow> (\<forall>w. 0 \<le> fst (h_random H w) \<and> fst (h_random H w) < 1)"

definition wait_ok :: "nat \<Rightarrow> rat \<Rightarrow> bool" where
  "wait_ok attempt t \<longleftrightarrow> \<bar>t - 2 ^ (attempt - 1) * 1000\<bar> \<le> 2 ^ (attempt - 1) * 200 + 1"

lemma sleep_wait_ok:
  assumes "fair_random H" "attempt \<le> 2"
  obtains t where "cl_waits (sleep H attempt c) = cl_waits c @ [t]" "wait_ok attempt t"
proof -
  obtain r w where r: "h_random H (cl_world c) = (r, w)" "cl_waits (sleep H attempt c) = cl_waits c @ [retry_delay attempt r]"
    using sleep_waits [of H c attempt] by blast
  have "0 \<le> r" "r \<le> 1" using assms(1) r(1) unfolding fair_random_def by (metis fst_conv, metis fst_conv less_imp_le)
  then show thesis using that [OF r(2)] retry_delay_near [of r _ attempt, OF _ _ refl assms(2)] by (simp add: wait_ok_def)
qed

lemma fetch_waits:
  assumes "fair_random H" "fetchWithRetry H url data attempt 3 c = (r, c')" "1 \<le> attempt" "attempt \<le> 3"
  shows "\<exists>ws. cl_waits c' = cl_waits c @ ws \<and> length ws \<le> 3 - attempt
    \<and> (\<forall>i < length ws. wait_ok (attempt + i) (ws ! i))"
  using assms(2-4)
proof (induction "3 - attempt" arbitrary: attempt c)
  case (0 attempt c)
  obtain r1 c1 where a: "api_request H False url (json_of_request data) c = (r1, c1)" by fastforce
  have f: "cl_waits c1 = cl_waits c"
    using api_request_frame [of H False url "json_of_request data" c] a by auto
  have "c' = c1" using fetch_cases [OF a 0(2)] 0(1) by (metis diff_is_0_eq not_le)
  then show ?case using f by (intro exI [of _ "[]"]) simp
next
  case (Suc n attempt c)
  obtain r1 c1 where a: "api_request H False url (json_of_request data) c = (r1, c1)" by fastforce
  have f: "cl_waits c1 = cl_waits c"
    using api_request_frame [of H False url "json_of_request data" c] a by auto
  show ?case
    using a Suc.prems(1)
  proof (cases rule: fetch_cases)
    case stop
    then show ?thesis using f by (intro exI [of _ "[]"]) simp
  next
    case again
    have n: "n = 3 - (attempt + 1)" "attempt + 1 \<le> 3" "attempt \<le> 2" using Suc.hyps(2) by simp_all
    obtain t where t: "cl_waits (sleep H attempt c1) = cl_waits c @ [t]" "wait_ok attempt t"
      using sleep_wait_ok [OF assms(1) n(3), of c1] f by metis
    obtain ws where ws: "cl_waits c' = cl_waits (sleep H attempt c1) @ ws" "length ws \<le> 3 - (attempt + 1)"
        "\<forall>i < length ws. wait_ok (attempt + 1 + i) (ws ! i)"
      using Suc.hyps(1) [OF n(1) again(3)] n(2) by auto
    have "wait_ok (attempt + i) ((t # ws) ! i)" if "i < length (t # ws)" for i
      using that t(2) ws(3) by (cases i) auto
    then show ?thesis using t(1) ws(1,2) n(2) by (intro exI [of _ "t # ws"]) auto
  qed
qed

text \<open>The retries are bounded. An event is posted with at most nine exchanges (three attempts, each with at most
  one token refresh and one repetition), with at most two waits: about one second and then about two
  seconds, each within twenty per cent (and a millisecond for rounding). There is never a wait of four seconds.\<close>

theorem sync_retries_bounded:
  assumes "fair_random H"
  shows "case fetchWithRetry H ''/sync'' data 1 3 c of (r, c') \<Rightarrow>
    (\<exists>trace ws. cl_sent c' = cl_sent c @ trace \<and> length trace \<le> 9
       \<and> cl_waits c' = cl_waits c @ ws \<and> length ws \<le> 2
       \<and> (\<forall>i < length ws. \<bar>ws ! i - 2 ^ i * 1000\<bar> \<le> 2 ^ i * 200 + 1))"
proof -
  obtain r c' where f: "fetchWithRetry H ''/sync'' data 1 3 c = (r, c')" by fastforce
  obtain trace where "cl_sent c' = cl_sent c @ trace" "length trace \<le> 9"
    by (rule fetch_spec [OF f]) auto
  moreover obtain ws where "cl_waits c' = cl_waits c @ ws" "length ws \<le> 2" "\<forall>i < length ws. wait_ok (1 + i) (ws ! i)"
    using fetch_waits [OF assms f] by auto
  ultimately show ?thesis unfolding f wait_ok_def by auto
qed

theorem sync_retries_bounded_witness:
  "\<exists>ws. cl_waits (snd (fetchWithRetry (sample_host (\<lambda>rq. NetError)) ''/sync'' (sample_request 0) 1 3 sample_client)) = ws \<and> length ws \<le> 2"
proof -
  have "fair_random (sample_host (\<lambda>rq. NetError))" by (simp add: fair_random_def sample_host_def)
  from sync_retries_bounded [OF this, of sample_client "sample_request 0"] show ?thesis
    by (auto simp: case_prod_beta sample_client_def)
qed

section \<open>Overlapping runs\<close>

text \<open>
  \<open>main.tsx\<close> starts a synchronisation from the network-status listener and from a timer, without waiting for an
  earlier one. A run has the three segments of \<open>syncLocalProgress\<close> between its awaits: the test of the
  flag, the call of \<open>get_game_status\<close>, and from raising the flag to the \<open>finally\<close> block. The segments
  of several runs interleave.
\<close>

datatype run_phase = Starting | Asking | Sending | Finished

record runs =
  rs_isSyncing :: bool
  rs_isOnline :: bool
  rs_phases :: "run_phase list"

inductive sync_step :: "runs \<Rightarrow> runs \<Rightarrow> bool" where
  launch: "sync_step s (s\<lparr>rs_phases := rs_phases s @ [Starting]\<rparr>)"
| network: "sync_step s (s\<lparr>rs_isOnline := b\<rparr>)"
| refuse: "i < length (rs_phases s) \<Longrightarrow> rs_phases s ! i = Starting \<Longrightarrow> rs_isSyncing s \<or> \<not> rs_isOnline s \<Longrightarrow>
    sync_step s (s\<lparr>rs_phases := (rs_phases s)[i := Finished]\<rparr>)"
| ask: "i < length (rs_phases s) \<Longrightarrow> rs_phases s ! i = Starting \<Longrightarrow> \<not> rs_isSyncing s \<Longrightarrow> rs_isOnline s \<Longrightarrow>
    sync_step s (s\<lparr>rs_phases := (rs_phases s)[i := Asking]\<rparr>)"
| playing: "i < length (rs_phases s) \<Longrightarrow> rs_phases s ! i = Asking \<Longrightarrow>
    sync_step s (s\<lparr>rs_phases := (rs_phases s)[i := Finished]\<rparr>)"
| send: "i < length (rs_phases s) \<Longrightarrow> rs_phases s ! i = Asking \<Longrightarrow>
    sync_step s (s\<lparr>rs_phases := (rs_phases s)[i := Sending], rs_isSyncing := True\<rparr>)"
| finish: "i < length (rs_phases s) \<Longrightarrow> rs_phases s ! i = Sending \<Longrightarrow>
    sync_step s (s\<lparr>rs_phases := (rs_phases s)[i := Finished], rs_isSyncing := False\<rparr>)"

definition no_runs :: runs where
  "no_runs = \<lparr>rs_isSyncing = False, rs_isOnline = True, rs_phases = []\<rparr>"

definition sending :: "runs \<Rightarrow> nat" where
  "sending s = length (filter (\<lambda>p. p = Sending) (rs_phases s))"

text \<open>The flag never sticks: in every interleaving of runs, a raised \<open>isSyncing\<close> means that some run is still sending,
  so once every run has finished the next one is let through.\<close>

theorem sync_flag_never_sticks:
  "sync_step\<^sup>*\<^sup>* no_runs s \<Longrightarrow> rs_isSyncing s \<Longrightarrow> Sending \<in> set (rs_phases s)"
proof (induction rule: rtranclp_induct)
  case base
  then show ?case by (simp add: no_runs_def)
next
  case (step s t)
  have keep: "Sending \<in> set (xs[i := p])" if "Sending \<in> set xs" "xs ! i \<noteq> Sending" for xs i p
    using that by (metis in_set_conv_nth length_list_update nth_list_update_neq)
  show ?case
    using step.hyps(2) step.IH step.prems
    by (cases rule: sync_step.cases) (auto intro!: keep simp: set_update_memI)
qed

definition overlap :: "runs" where
  "overlap = no_runs\<lparr>rs_phases := [Sending, Sending], rs_isSyncing := True\<rparr>"

lemma two_starting: "sync_step\<^sup>*\<^sup>* no_runs (no_runs\<lparr>rs_phases := [Asking, Asking]\<rparr>)"
proof -
  let ?s = "\<lambda>xs. no_runs\<lparr>rs_phases := xs\<rparr>"
  have "sync_step\<^sup>*\<^sup>* no_runs (?s [Starting])" using launch [of no_runs] by (simp add: no_runs_def r_into_rtranclp)
  also have "sync_step (?s [Starting]) (?s [Starting, Starting])" using launch [of "?s [Starting]"] by simp
  also have "sync_step (?s [Starting, Starting]) (?s [Asking, Starting])"
    using ask [of 0 "?s [Starting, Starting]"] by (simp add: no_runs_def)
  also have "sync_step (?s [Asking, Starting]) (?s [Asking, Asking])"
    using ask [of 1 "?s [Asking, Starting]"] by (simp add: no_runs_def)
  finally show ?thesis .
qed

lemma two_sending: "sync_step\<^sup>*\<^sup>* no_runs overlap"
proof -
  let ?s = "no_runs\<lparr>rs_phases := [Asking, Asking]\<rparr>"
  let ?t = "no_runs\<lparr>rs_phases := [Sending, Asking], rs_isSyncing := True\<rparr>"
  have "sync_step ?s ?t" using send [of 0 ?s] by simp
  moreover have "sync_step ?t overlap" using send [of 1 ?t] by (simp add: overlap_def)
  ultimately show ?thesis using two_starting by (meson rtranclp.rtrancl_into_rtrancl)
qed

text \<open>The flag does not exclude overlapping runs: it is tested before the call of \<open>get_game_status\<close> and raised
  after it, so two runs can both be sending the same rows, and the first to finish lowers the flag
  while the other still sends, which lets a third one in.\<close>

theorem sync_runs_overlap:
  "\<exists>s t. sync_step\<^sup>*\<^sup>* no_runs s \<and> sending s = 2 \<and> sync_step s t \<and> sending t = 1 \<and> \<not> rs_isSyncing t"
proof -
  have "sync_step overlap (overlap\<lparr>rs_phases := [Finished, Sending], rs_isSyncing := False\<rparr>)"
    using finish [of 0 overlap] by (simp add: overlap_def)
  moreover have "sending overlap = 2" by (simp add: sending_def overlap_def no_runs_def)
  ultimately show ?thesis using two_sending
    by (intro exI [of _ overlap] exI [of _ "overlap\<lparr>rs_phases := [Finished, Sending], rs_isSyncing := False\<rparr>"])
      (simp add: sending_def)
qed

theorem sync_flag_never_sticks_witness: "Sending \<in> set (rs_phases overlap)"
  by (rule sync_flag_never_sticks [OF two_sending]) (simp add: overlap_def)

section \<open>Whose progress is it\<close>

text \<open>Rows are reported under whoever is signed in: the row's own user and device are stored but never read back, so
  progress that one user left in the queue of a shared computer is posted and signed as the next user's.\<close>

theorem queue_ignores_row_owner:
  "request_of_row user deviceId (row\<lparr>qr_user_id := owner, qr_device_id := source\<rparr>) = request_of_row user deviceId row
   \<and> sr_user_id (request_of_row user deviceId row) = user_id user"
  by (simp add: request_of_row_def)

section \<open>Starting up: \<open>main.tsx\<close>\<close>

text \<open>The desktop start-up restores the session and creates the queue table; the network-status event and the timer start a
  synchronisation.\<close>

definition startup :: "'w host \<Rightarrow> 'w client \<Rightarrow> 'w client" where
  "startup H c = (if h_tauri H then initLocalSyncQueue H (restoreSecureSession H c) else c)"

definition on_network_status :: "'w host \<Rightarrow> bool \<Rightarrow> 'w client \<Rightarrow> 'w client" where
  "on_network_status H online c =
     (let c = c\<lparr>cl_sync := setOnlineStatus online (cl_sync c)\<rparr> in if online then syncLocalQueue H c else c)"

definition on_timer :: "'w host \<Rightarrow> 'w client \<Rightarrow> 'w client" where
  "on_timer H c = (if sy_isOnline (cl_sync c) then syncLocalQueue H c else c)"

text \<open>Playing a level adds one row to the queue; the row carries the score, truncated and never negative.\<close>

lemma enqueue_attempt:
  assumes "h_tauri H" "au_user (cl_auth c) = Some user" "sy_deviceId (cl_sync c) = Some d" "d \<noteq> []"
    and "h_uuid H (cl_world c) = (uid, w)" "uid \<notin> qr_id ` set (cl_queue c)"
  shows "\<exists>stamp. cl_queue (snd (enqueueProgress H payload c)) = cl_queue c @
      [\<lparr>qr_id = uid, qr_user_id = user_id user, qr_device_id = d, qr_payload = payload, qr_created_at = stamp\<rparr>]
    \<and> sy_pendingItemsCount (cl_sync (snd (enqueueProgress H payload c))) = length (cl_queue c) + 1"
  using assms by (auto simp: enqueueProgress_def initLocalSyncQueue_def Let_def case_prod_beta refresh_count_def setPendingCount_def)

lemma timer_obliging:
  assumes "obliging H" "ready H c"
  shows "(on_timer H ^^ n) c = (syncLocalQueue H ^^ n) c"
proof (induction n)
  case (Suc n)
  have "sy_isOnline (cl_sync ((syncLocalQueue H ^^ n) c))"
    using sync_obliging_many [OF assms, of n] by (simp add: ready_def)
  then show ?case using Suc.IH by (simp add: on_timer_def)
qed simp

text \<open>C21: From the end of a level to the server: on a device that is signed in and online, with any queue of
  harmless rows with different identifiers and a fresh one drawn for the new row, the attempt is appended as one row of the signed-in user; the row
  holds the level, whether it was completed, the truncated score, at least zero (a negative score is
  reported as zero), and no XP. When the server confirms events and no game is running, then after timer ticks
  enough for fifty rows each the request that reports this row has been posted and the queue is empty.\<close>

theorem played_attempt_reaches_server:
  assumes "obliging H" "ready H c" "fst (h_uuid H (cl_world c)) \<notin> qr_id ` set (cl_queue c)"
    and "snd (enqueueProgress H (buildAttemptPayload now level completed score) c) = c'"
    and "length (cl_queue c) < 50 * n"
  shows "\<exists>row a user deviceId trace. au_user (cl_auth c) = Some user \<and> sy_deviceId (cl_sync c) = Some deviceId
    \<and> cl_queue c' = cl_queue c @ [row] \<and> qr_user_id row = user_id user \<and> qr_device_id row = deviceId
    \<and> sp_level_attempts (qr_payload row) = [a] \<and> la_level_id a = level \<and> la_completed a = completed
    \<and> la_score a = max 0 (js_trunc score) \<and> la_xp_awarded a = 0
    \<and> cl_sent ((on_timer H ^^ n) c') = cl_sent c @ trace
    \<and> (\<exists>body \<in> set (synced_bodies trace). reports user deviceId row body)
    \<and> cl_queue ((on_timer H ^^ n) c') = []"
proof -
  obtain user d where u: "h_tauri H" "au_user (cl_auth c) = Some user" "sy_deviceId (cl_sync c) = Some d" "d \<noteq> []"
    using assms(2) by (auto simp: ready_def signed_in_def)
  obtain uid w where uid: "h_uuid H (cl_world c) = (uid, w)" by fastforce
  define row where "row = (\<lambda>stamp. \<lparr>qr_id = uid, qr_user_id = user_id user, qr_device_id = d,
      qr_payload = buildAttemptPayload now level completed score, qr_created_at = stamp\<rparr>)"
  obtain stamp where q: "cl_queue c' = cl_queue c @ [row stamp]"
    using enqueue_attempt [OF u uid, of "buildAttemptPayload now level completed score"] assms(3,4) uid by (auto simp: row_def)
  have frame: "cl_auth c' = cl_auth c" "sy_deviceId (cl_sync c') = sy_deviceId (cl_sync c)" "cl_sent c' = cl_sent c"
    "sy_isOnline (cl_sync c') = sy_isOnline (cl_sync c)" "sy_isSyncing (cl_sync c') = sy_isSyncing (cl_sync c)"
    using assms(3,4) u uid by (auto simp: enqueueProgress_def initLocalSyncQueue_def Let_def case_prod_beta)
  have "harmless (row stamp)" by (simp add: row_def harmless_def buildAttemptPayload_def Let_def)
  moreover have "distinct (map qr_id (cl_queue c @ [row stamp]))"
    using assms(2,3) uid by (auto simp: ready_def row_def)
  ultimately have ready: "ready H c'" using assms(2) frame q by (simp add: ready_def signed_in_def)
  let ?e = "(on_timer H ^^ n) c'"
  have e: "?e = (syncLocalQueue H ^^ n) c'" by (rule timer_obliging [OF assms(1) ready])
  note m = sync_obliging_many [OF assms(1) ready, of n, folded e]
  have empty: "cl_queue ?e = []" using m assms(5) q by simp
  then have "posted (row stamp) c' ?e" using m q by auto
  then obtain body where b: "body \<in> posted_between (cl_sent c') (cl_sent ?e)" "reports user d (row stamp) body"
    using u frame by (auto simp: posted_def)
  obtain trace where t: "cl_sent ?e = cl_sent c @ trace" using m frame(3) by auto
  then have "body \<in> set (synced_bodies trace)" using b(1) frame(3) by (simp add: posted_between_def)
  then show ?thesis using u q b(2) t empty
    by (intro exI [of _ "row stamp"] exI [of _ "hd (sp_level_attempts (buildAttemptPayload now level completed score))"]
        exI [of _ user] exI [of _ d] exI [of _ trace])
      (auto simp: row_def buildAttemptPayload_def Let_def)
qed

theorem played_attempt_reaches_server_witness:
  "let H = sample_host (\<lambda>rq. synced_answer); c = with_rows [sample_row ''a'' 0] in
   \<exists>trace. cl_sent (on_timer H (snd (enqueueProgress H (buildAttemptPayload ''2026-01-01T10'' ''l1'' True (-3)) c))) = cl_sent c @ trace
     \<and> synced_bodies trace \<noteq> []"
proof -
  let ?H = "sample_host (\<lambda>rq. synced_answer)" and ?c = "with_rows [sample_row ''a'' 0]"
  have o: "obliging ?H" unfolding obliging_def using synced_outcome [of "\<lambda>rq. synced_answer"]
    by (simp add: sample_host_def synced_answer_def confirms_def)
  have r: "ready ?H ?c"
    using signed_in_sample by (simp add: ready_def with_rows_def sample_client_def setDeviceId_def sync_initial_def sample_row_def harmless_def)
  have f: "fst (h_uuid ?H (cl_world ?c)) \<notin> qr_id ` set (cl_queue ?c)"
    by code_simp
  show ?thesis
    using played_attempt_reaches_server [OF o r f refl, of 1 "''2026-01-01T10''" "''l1''" True "-3"]
    unfolding Let_def by (auto simp: with_rows_def)
qed

end
