(* ===== verification/Content.thy ===== *)
theory Content
  imports Schema MemoryPalette CrosswordLayout FakeNews Trivia Puzzle
begin

text \<open>
  Reading the content of a level: the normalisers of \<open>src/features/content/types.ts\<close> (every game page
  goes through them), \<open>hasPlayableContent\<close> of the level pages, and the registry of the level maker
  (\<open>src/features/content/maker/registry.ts\<close>) with its schemas and defaults. A missing content is
  read like \<open>null\<close>.
\<close>

section \<open>Templates\<close>

datatype template_type = TTrivia | TPuzzle | TWordSearch | TFakeNews | TCrossword | TMemory | TSnakesLadders

fun template_name :: "template_type \<Rightarrow> string" where
  "template_name TTrivia = ''trivia''"
| "template_name TPuzzle = ''puzzle''"
| "template_name TWordSearch = ''word_search''"
| "template_name TFakeNews = ''fake_news''"
| "template_name TCrossword = ''crossword''"
| "template_name TMemory = ''memory''"
| "template_name TSnakesLadders = ''snakes_ladders''"

definition all_templates :: "template_type list" where
  "all_templates = [TTrivia, TPuzzle, TWordSearch, TFakeNews, TCrossword, TMemory, TSnakesLadders]"

text \<open>The lookup by name in the registries whose keys are the template names.\<close>

definition template_of_name :: "string \<Rightarrow> template_type option" where
  "template_of_name s = find (\<lambda>t. template_name t = s) all_templates"

definition TEMPLATE_TYPE_LABELS :: "(string \<times> string) list" where
  "TEMPLATE_TYPE_LABELS = [(''trivia'', ''Trivia''), (''memory'', ''Memorama''), (''fake_news'', ''Noticias falsas''),
     (''word_search'', ''Sopa de letras''), (''puzzle'', ''Rompecabezas''), (''crossword'', ''Crucigrama''),
     (''snakes_ladders'', ''Serpientes y escaleras'')]"

definition templateTypeLabel :: "string \<Rightarrow> string" where
  "templateTypeLabel type = (case map_of TEMPLATE_TYPE_LABELS type of Some label \<Rightarrow> label | None \<Rightarrow> type)"

section \<open>Normalisers\<close>

definition readArray :: "json \<Rightarrow> string \<Rightarrow> json list" where
  "readArray content key =
     (case content of
        JArr xs \<Rightarrow> xs
      | JObj kvs \<Rightarrow> (case map_of kvs key of Some (JArr xs) \<Rightarrow> xs | _ \<Rightarrow> [])
      | _ \<Rightarrow> [])"

definition strings_of :: "json option \<Rightarrow> string list" where
  "strings_of v = (case v of Some (JArr xs) \<Rightarrow> List.map_filter (\<lambda>x. string_opt (Some x)) xs | _ \<Rightarrow> [])"

definition trivia_item :: "json \<Rightarrow> multiple_choice res" where
  "trivia_item q =
     bind_res (get_prop q ''question'') (\<lambda>question.
     bind_res (get_prop q ''options'') (\<lambda>opts.
     bind_res (get_prop q ''correct_index'') (\<lambda>correct.
     bind_res (get_prop q ''media_url'') (\<lambda>media.
       Inr \<lparr>mcq_question = string_or [] question, mcq_options = strings_of opts,
            mcq_correct_index = num_or 0 correct, mcq_media_url = string_opt media\<rparr>))))"

definition trivia_ok :: "multiple_choice \<Rightarrow> bool" where
  "trivia_ok q \<longleftrightarrow> mcq_question q \<noteq> [] \<and> 2 \<le> length (mcq_options q) \<and> 0 \<le> mcq_correct_index q
     \<and> mcq_correct_index q < of_nat (length (mcq_options q))"

definition normalizeTriviaContent :: "json \<Rightarrow> multiple_choice list res" where
  "normalizeTriviaContent content =
     bind_res (map_res trivia_item (readArray content ''questions'')) (\<lambda>qs. Inr (filter trivia_ok qs))"

definition normalizeMemoryContent :: "json \<Rightarrow> memory_pair list res" where
  "normalizeMemoryContent content =
     bind_res (normalizeMemoryPairs (JArr (readArray content ''pairs''))) (\<lambda>ps. Inr (filterPlayableMemoryPairs ps))"

definition normalizeMemoryBackColorContent :: "json \<Rightarrow> string" where
  "normalizeMemoryBackColorContent content = normalizeMemoryBackColor (js_prop ''back_color'' content)"

definition fake_news_item :: "json \<Rightarrow> news_item res" where
  "fake_news_item news =
     bind_res (get_prop news ''title'') (\<lambda>title.
     bind_res (get_prop news ''content'') (\<lambda>content.
     bind_res (get_prop news ''isFake'') (\<lambda>isFake.
     bind_res (get_prop news ''explanation'') (\<lambda>explanation.
     bind_res (get_prop news ''imageUrl'') (\<lambda>imageUrl.
     bind_res (get_prop news ''reference'') (\<lambda>reference.
       Inr \<lparr>ni_title = string_or [] title, ni_content = string_or [] content, ni_isFake = bool_or False isFake,
            ni_explanation = string_opt explanation, ni_imageUrl = string_opt imageUrl,
            ni_reference = string_or [] reference\<rparr>))))))"

definition normalizeFakeNewsContent :: "json \<Rightarrow> news_item list res" where
  "normalizeFakeNewsContent content =
     bind_res (map_res fake_news_item (readArray content ''news''))
       (\<lambda>items. Inr (filter (\<lambda>item. ni_title item \<noteq> [] \<and> ni_content item \<noteq> []) items))"

record word_search_content =
  wc_words :: "string list"
  wc_width :: "rat option"
  wc_height :: "rat option"
  wc_seed :: "rat option"

definition normalizeWordSearchContent :: "json \<Rightarrow> word_search_content" where
  "normalizeWordSearchContent content =
     \<lparr>wc_words = filter (\<lambda>word. 2 \<le> length (trim word)) (strings_of (js_prop ''words'' content)),
      wc_width = num_opt (js_prop ''width'' content), wc_height = num_opt (js_prop ''height'' content),
      wc_seed = num_opt (js_prop ''seed'' content)\<rparr>"

record puzzle_content =
  pt_phrase :: string
  pt_pieces :: "rat option"
  pt_seed :: "rat option"

definition normalizePuzzleContent :: "json \<Rightarrow> puzzle_content option" where
  "normalizePuzzleContent content =
     (let ph = string_or [] (js_prop ''phrase'' content)
      in if ph = [] then None
         else Some \<lparr>pt_phrase = ph, pt_pieces = num_opt (js_prop ''pieces'' content),
                   pt_seed = num_opt (js_prop ''seed'' content)\<rparr>)"

definition crossword_item :: "json \<Rightarrow> crossword_word res" where
  "crossword_item word =
     bind_res (get_prop word ''word'') (\<lambda>w.
     bind_res (get_prop word ''clue'') (\<lambda>clue.
       Inr \<lparr>cw_word = string_or [] w, cw_clue = string_or [] clue\<rparr>))"

definition normalizeCrosswordContent :: "json \<Rightarrow> crossword_word list res" where
  "normalizeCrosswordContent content =
     bind_res (map_res crossword_item (readArray content ''words''))
       (\<lambda>ws. Inr (filter (\<lambda>w. 2 \<le> length (cw_word w) \<and> cw_clue w \<noteq> []) ws))"

record snakes_content =
  sn_board_width :: rat
  sn_board_height :: rat
  sn_start_position :: rat
  sn_end_position :: rat
  sn_seed :: "rat option"
  sn_snakes :: "json list"
  sn_ladders :: "json list"
  sn_ai_config :: "json option"
  sn_questions :: "json list"

definition normalizeSnakesContent :: "json \<Rightarrow> snakes_content option" where
  "normalizeSnakesContent content =
     (case (num_opt (js_prop ''board_width'' content), num_opt (js_prop ''board_height'' content)) of
        (Some width, Some height) \<Rightarrow>
          (case (num_opt (js_prop ''start_position'' content), num_opt (js_prop ''end_position'' content)) of
             (Some start, Some finish) \<Rightarrow>
               Some \<lparr>sn_board_width = width, sn_board_height = height, sn_start_position = start, sn_end_position = finish,
                     sn_seed = num_opt (js_prop ''seed'' content), sn_snakes = js_items ''snakes'' content,
                     sn_ladders = js_items ''ladders'' content, sn_ai_config = js_prop ''ai_config'' content,
                     sn_questions = js_items ''questions'' content\<rparr>
           | _ \<Rightarrow> None)
      | _ \<Rightarrow> None)"

text \<open>The test of the level pages; a normaliser that throws throws here too.\<close>

fun hasPlayableContent :: "template_type \<Rightarrow> json \<Rightarrow> bool res" where
  "hasPlayableContent TTrivia content = bind_res (normalizeTriviaContent content) (\<lambda>qs. Inr (length qs > 0))"
| "hasPlayableContent TMemory content = bind_res (normalizeMemoryContent content) (\<lambda>ps. Inr (length ps \<ge> 2))"
| "hasPlayableContent TFakeNews content = bind_res (normalizeFakeNewsContent content) (\<lambda>ns. Inr (length ns > 0))"
| "hasPlayableContent TWordSearch content = Inr (length (wc_words (normalizeWordSearchContent content)) > 0)"
| "hasPlayableContent TPuzzle content = Inr (normalizePuzzleContent content \<noteq> None)"
| "hasPlayableContent TCrossword content = bind_res (normalizeCrosswordContent content) (\<lambda>ws. Inr (length ws \<ge> 2))"
| "hasPlayableContent TSnakesLadders content = Inr (normalizeSnakesContent content \<noteq> None)"

section \<open>The registry of the level maker\<close>

definition LocalMultipleChoiceSchema :: zschema where
  "LocalMultipleChoiceSchema =
    ZObject [(''question'', ZString [CMin 1]), (''options'', ZArray (ZString []) [CMin 2, CMax 4]),
     (''correct_index'', ZNumber [CInt, CMin 0, CMax 3]), (''media_url'', ZOptional (ZString []))]"

definition crossword_words :: "json \<Rightarrow> crossword_word list" where
  "crossword_words content =
     map (\<lambda>w. \<lparr>cw_word = string_or [] (js_prop ''word'' w), cw_clue = string_or [] (js_prop ''clue'' w)\<rparr>) (js_items ''words'' content)"

definition crossword_issues :: "json \<Rightarrow> string list" where
  "crossword_issues content =
     (let ws = crossword_words content; answers = map (\<lambda>w. normalizeCrosswordAnswer (cw_word w)) ws
      in (if distinct answers then [] else [''Las respuestas del crucigrama no pueden repetirse.''])
         @ (if canBuildConnectedCrossword ws then []
            else [''Las palabras deben compartir letras suficientes para generar un crucigrama conectado.'']))"

definition MakerCrosswordSchema :: zschema where
  "MakerCrosswordSchema =
     ZRefine pkg_CrosswordSchema (\<lambda>v. case v of Some content \<Rightarrow> crossword_issues content = [] | None \<Rightarrow> True)"

fun registry_schema :: "template_type \<Rightarrow> zschema" where
  "registry_schema TTrivia = ZArray LocalMultipleChoiceSchema [CMin 3]"
| "registry_schema TCrossword = MakerCrosswordSchema"
| "registry_schema TWordSearch = pkg_WordSearchSchema"
| "registry_schema TPuzzle = pkg_PuzzleSchema"
| "registry_schema TFakeNews = pkg_FakeNewsSchema"
| "registry_schema TMemory = pkg_MemorySchema"
| "registry_schema TSnakesLadders = pkg_SnakesSchema"

section \<open>What the normalisers return\<close>

lemma get_prop_js: "j \<noteq> JNull \<Longrightarrow> get_prop j k = Inr (js_prop k j)"
  by (cases j) (simp_all add: js_prop_def)

lemma get_prop_null: "get_prop j k = Inl e \<longleftrightarrow> j = JNull \<and> e = TypeErr"
  by (cases j) auto

lemma map_res_null:
  assumes "\<And>x e. f x = Inl e \<longleftrightarrow> x = JNull \<and> e = TypeErr"
  shows "map_res f xs = Inl e \<longleftrightarrow> JNull \<in> set xs \<and> e = TypeErr"
proof (induction xs)
  case (Cons x xs)
  then show ?case using assms [of x] by (cases "f x") (auto simp: bind_res_def split: sum.splits)
qed simp

lemma trivia_item_null: "trivia_item q = Inl e \<longleftrightarrow> q = JNull \<and> e = TypeErr"
  by (cases q) (auto simp: trivia_item_def)

lemma fake_news_item_null: "fake_news_item q = Inl e \<longleftrightarrow> q = JNull \<and> e = TypeErr"
  by (cases q) (auto simp: fake_news_item_def)

lemma crossword_item_null: "crossword_item q = Inl e \<longleftrightarrow> q = JNull \<and> e = TypeErr"
  by (cases q) (auto simp: crossword_item_def)

lemma bind_res_pure_Inl [simp]: "bind_res r (\<lambda>x. Inr (g x)) = Inl e \<longleftrightarrow> r = Inl e"
  by (cases r) simp_all

text \<open>The readers of stored content are not defensive against null entries: reading the content of a trivia,
  memory, fake-news or crossword level raises a TypeError exactly when its item array holds a null,
  whatever else it holds; the other three templates never raise.\<close>

theorem content_null_items:
  "hasPlayableContent t content = Inl e \<longleftrightarrow> e = TypeErr \<and>
    (case t of TTrivia \<Rightarrow> JNull \<in> set (readArray content ''questions'') | TMemory \<Rightarrow> JNull \<in> set (readArray content ''pairs'')
       | TFakeNews \<Rightarrow> JNull \<in> set (readArray content ''news'') | TCrossword \<Rightarrow> JNull \<in> set (readArray content ''words'')
       | _ \<Rightarrow> False)"
  by (cases t)
    (auto simp: normalizeTriviaContent_def normalizeMemoryContent_def normalizeFakeNewsContent_def normalizeCrosswordContent_def
      map_res_null [OF trivia_item_null] map_res_null [OF fake_news_item_null] map_res_null [OF crossword_item_null]
      normalizeMemoryPairs_def normalize_loop_null readMemoryPairs_def)
section \<open>Validated content\<close>

definition trivia_of :: "json \<Rightarrow> multiple_choice" where
  "trivia_of q = \<lparr>mcq_question = string_or [] (js_prop ''question'' q), mcq_options = strings_of (js_prop ''options'' q),
     mcq_correct_index = num_or 0 (js_prop ''correct_index'' q), mcq_media_url = string_opt (js_prop ''media_url'' q)\<rparr>"

definition news_of :: "json \<Rightarrow> news_item" where
  "news_of n = \<lparr>ni_title = string_or [] (js_prop ''title'' n), ni_content = string_or [] (js_prop ''content'' n),
     ni_isFake = bool_or False (js_prop ''isFake'' n), ni_explanation = string_opt (js_prop ''explanation'' n),
     ni_imageUrl = string_opt (js_prop ''imageUrl'' n), ni_reference = string_or [] (js_prop ''reference'' n)\<rparr>"

definition crossword_of :: "json \<Rightarrow> crossword_word" where
  "crossword_of w = \<lparr>cw_word = string_or [] (js_prop ''word'' w), cw_clue = string_or [] (js_prop ''clue'' w)\<rparr>"

lemma item_reads:
  "j \<noteq> JNull \<Longrightarrow> trivia_item j = Inr (trivia_of j)"
  "j \<noteq> JNull \<Longrightarrow> fake_news_item j = Inr (news_of j)"
  "j \<noteq> JNull \<Longrightarrow> crossword_item j = Inr (crossword_of j)"
  by (simp_all add: get_prop_js trivia_item_def trivia_of_def fake_news_item_def news_of_def crossword_item_def crossword_of_def)

text \<open>The pairs a memory level is played with: both sides filled in.\<close>

definition playable_pair :: "json \<Rightarrow> bool" where
  "playable_pair p \<longleftrightarrow> string_or [] (js_prop ''content1'' p) \<noteq> [] \<and> string_or [] (js_prop ''content2'' p) \<noteq> []"

lemma normalize_loop_playable:
  "normalize_loop used i vs = Inr ps \<Longrightarrow> length (filterPlayableMemoryPairs ps) = length (filter playable_pair vs)"
proof (induction used i vs arbitrary: ps rule: normalize_loop.induct)
  case (1 used index)
  then show ?case by (simp add: filterPlayableMemoryPairs_def)
next
  case (2 used index v vs)
  from "2.prems" obtain q qs where q: "normalize_pair used index v = Inr q"
      and qs: "normalize_loop (used @ [mp_color q]) (Suc index) vs = Inr qs" and ps: "ps = q # qs"
    by (auto simp: bind_res_eq_Inr)
  have "v \<noteq> JNull" using q by (auto simp: normalize_pair_def)
  then have "mp_content1 q = string_or [] (js_prop ''content1'' v)" "mp_content2 q = string_or [] (js_prop ''content2'' v)"
    using q by (auto simp: normalize_pair_def get_prop_js)
  then show ?case using "2.IH" [OF qs] ps by (simp add: filterPlayableMemoryPairs_def playable_pair_def)
qed

lemma memory_reads:
  assumes "JNull \<notin> set (readArray content ''pairs'')"
  obtains ps where "normalizeMemoryContent content = Inr ps"
    "length ps = length (filter playable_pair (readArray content ''pairs''))"
proof -
  obtain ps where ps: "normalize_loop [] 0 (readArray content ''pairs'') = Inr ps"
    using assms normalize_loop_null [of "[]" 0 "readArray content ''pairs''"]
    by (cases "normalize_loop [] 0 (readArray content ''pairs'')") auto
  then show thesis using that normalize_loop_playable [OF ps]
    by (simp add: normalizeMemoryContent_def normalizeMemoryPairs_def readMemoryPairs_def)
qed

text \<open>Whether validated content can be played.\<close>

fun playable :: "template_type \<Rightarrow> json \<Rightarrow> bool" where
  "playable TTrivia content = list_ex (\<lambda>q. js_num ''correct_index'' q < of_nat (length (js_items ''options'' q)))
     (readArray content ''questions'')"
| "playable TMemory content = (2 \<le> length (filter playable_pair (readArray content ''pairs'')))"
| "playable TWordSearch content = list_ex (\<lambda>w. 2 \<le> length (trim w)) (strings_of (js_prop ''words'' content))"
| "playable _ content = True"

context zod
begin

lemma object_not_null: "accepts (ZObject fs) (Some x) \<Longrightarrow> x \<noteq> JNull"
  unfolding z_object by blast

lemma object_field: "accepts (ZObject fs) (Some x) \<Longrightarrow> (k, sch) \<in> set fs \<Longrightarrow> accepts sch (js_prop k x)"
  unfolding z_object by (auto simp: js_prop_def)

lemma array_field:
  assumes "accepts (ZObject fs) (Some content)" "(k, ZArray sch cs) \<in> set fs"
  shows "\<forall>x \<in> set (readArray content k). accepts sch (Some x)" "\<forall>c \<in> set cs. array_check c (readArray content k)"
    "js_items k content = readArray content k"
proof -
  have a: "accepts (ZArray sch cs) (js_prop k content)" by (rule object_field [OF assms])
  obtain kvs where kvs: "content = JObj kvs" using object_or_array [OF assms(1)] by blast
  obtain xs where xs: "js_prop k content = Some (JArr xs)" "\<forall>x \<in> set xs. accepts sch (Some x)" "\<forall>c \<in> set cs. array_check c xs"
    using a unfolding z_array by blast
  have r: "readArray content k = xs" "js_items k content = xs"
    using xs(1) kvs by (simp_all add: readArray_def js_prop_def js_items_def)
  show "\<forall>x \<in> set (readArray content k). accepts sch (Some x)" "\<forall>c \<in> set cs. array_check c (readArray content k)"
    "js_items k content = readArray content k"
    using xs r by simp_all
qed

lemma min_length: "accepts (ZString [CMin 1]) v \<Longrightarrow> string_or [] v \<noteq> []"
  using string_min [of 1 v] by auto

lemma strings_of_accepted:
  assumes "accepts (ZArray (ZString sc) cs) v"
  shows "length (strings_of v) = length (case v of Some (JArr xs) \<Rightarrow> xs | _ \<Rightarrow> [])"
    "\<forall>c \<in> set cs. array_check c (strings_of v)"
proof -
  obtain xs where xs: "v = Some (JArr xs)" "\<forall>x \<in> set xs. accepts (ZString sc) (Some x)" "\<forall>c \<in> set cs. array_check c xs"
    using assms unfolding z_array by blast
  have "\<forall>x \<in> set xs. \<exists>s. x = JStr s" using xs(2) unfolding z_string by auto
  then have l: "length (strings_of v) = length xs"
    unfolding xs(1) strings_of_def by (induction xs) (auto simp: List.map_filter_simps)
  then show "length (strings_of v) = length (case v of Some (JArr xs) \<Rightarrow> xs | _ \<Rightarrow> [])" by (simp add: xs(1))
  have "array_check c (strings_of v) = array_check c xs" for c by (cases c) (simp_all add: l)
  then show "\<forall>c \<in> set cs. array_check c (strings_of v)" using xs(3) by simp
qed

lemma trivia_question_ok:
  assumes "accepts LocalMultipleChoiceSchema (Some q)"
  shows "q \<noteq> JNull" "trivia_ok (trivia_of q) \<longleftrightarrow> js_num ''correct_index'' q < of_nat (length (js_items ''options'' q))"
proof -
  note a = assms [unfolded LocalMultipleChoiceSchema_def]
  show "q \<noteq> JNull" by (rule object_not_null [OF a])
  have f: "accepts (ZString [CMin 1]) (js_prop ''question'' q)"
    "accepts (ZArray (ZString []) [CMin 2, CMax 4]) (js_prop ''options'' q)"
    "accepts (ZNumber [CInt, CMin 0, CMax 3]) (js_prop ''correct_index'' q)"
    by (rule object_field [OF a], simp)+
  have "0 \<le> num_or 0 (js_prop ''correct_index'' q)" using z_number [OF f(3)] by auto
  moreover have "2 \<le> length (strings_of (js_prop ''options'' q))"
    using strings_of_accepted(2) [OF f(2)] by simp
  moreover have "length (strings_of (js_prop ''options'' q)) = length (js_items ''options'' q)"
    using strings_of_accepted(1) [OF f(2)] by (simp add: js_items_def)
  ultimately show "trivia_ok (trivia_of q) \<longleftrightarrow> js_num ''correct_index'' q < of_nat (length (js_items ''options'' q))"
    using min_length [OF f(1)] by (simp add: trivia_ok_def trivia_of_def js_num_def)
qed

end
context zod
begin

lemma trivia_accepted:
  assumes "accepts (registry_schema TTrivia) (Some content)"
  shows "hasPlayableContent TTrivia content = Inr (playable TTrivia content)"
proof -
  obtain xs where xs: "content = JArr xs" "\<forall>x \<in> set xs. accepts LocalMultipleChoiceSchema (Some x)"
    using assms array_items unfolding registry_schema.simps by blast
  have r: "readArray content ''questions'' = xs" by (simp add: xs(1) readArray_def)
  have ok: "x \<noteq> JNull" "trivia_ok (trivia_of x) \<longleftrightarrow> js_num ''correct_index'' x < of_nat (length (js_items ''options'' x))"
    if "x \<in> set xs" for x using that xs(2) trivia_question_ok by blast+
  have "map_res trivia_item xs = Inr (map trivia_of xs)" using ok(1) item_reads(1) by (intro map_res_all) blast
  then have "normalizeTriviaContent content = Inr (filter trivia_ok (map trivia_of xs))"
    by (simp add: normalizeTriviaContent_def r)
  moreover have "length (filter trivia_ok (map trivia_of xs)) > 0 \<longleftrightarrow>
      list_ex (\<lambda>q. js_num ''correct_index'' q < of_nat (length (js_items ''options'' q))) xs"
    using ok(2) by (auto simp: list_ex_iff filter_empty_conv)
  ultimately show ?thesis unfolding hasPlayableContent.simps playable.simps r by (simp add: filter_map)
qed

lemma memory_accepted:
  assumes "accepts (registry_schema TMemory) (Some content)"
  shows "hasPlayableContent TMemory content = Inr (playable TMemory content)"
proof -
  have "\<forall>x \<in> set (readArray content ''pairs''). accepts pkg_MemoryPairSchema (Some x)"
    using assms unfolding registry_schema.simps pkg_MemorySchema_def by (rule array_field(1)) simp
  then have "JNull \<notin> set (readArray content ''pairs'')"
    using object_not_null unfolding pkg_MemoryPairSchema_def by blast
  then show ?thesis by (rule memory_reads [of content]) simp
qed

lemma fake_news_accepted:
  assumes "accepts (registry_schema TFakeNews) (Some content)"
  shows "hasPlayableContent TFakeNews content = Inr True"
proof -
  note a = assms [unfolded registry_schema.simps pkg_FakeNewsSchema_def]
  let ?xs = "readArray content ''news''"
  have xs: "\<forall>x \<in> set ?xs. accepts pkg_FakeNewsItemSchema (Some x)" "1 \<le> length ?xs"
    using array_field(1,2) [OF a, of "''news''" pkg_FakeNewsItemSchema "[CMin 1]"] by simp_all
  have ok: "x \<noteq> JNull" "ni_title (news_of x) \<noteq> []" "ni_content (news_of x) \<noteq> []" if "x \<in> set ?xs" for x
  proof -
    have x: "accepts pkg_FakeNewsItemSchema (Some x)" using that xs(1) by blast
    note b = x [unfolded pkg_FakeNewsItemSchema_def]
    show "x \<noteq> JNull" by (rule object_not_null [OF b])
    have "accepts (ZString [CMin 1]) (js_prop ''title'' x)" "accepts (ZString [CMin 1]) (js_prop ''content'' x)"
      by (rule object_field [OF b], simp)+
    then show "ni_title (news_of x) \<noteq> []" "ni_content (news_of x) \<noteq> []" using min_length by (simp_all add: news_of_def)
  qed
  have "map_res fake_news_item ?xs = Inr (map news_of ?xs)" using ok(1) item_reads(2) by (intro map_res_all) blast
  moreover have "filter (\<lambda>i. ni_title i \<noteq> [] \<and> ni_content i \<noteq> []) (map news_of ?xs) = map news_of ?xs"
    using ok(2,3) by (intro filter_True) auto
  ultimately show ?thesis using xs(2) by (cases ?xs) (simp_all add: normalizeFakeNewsContent_def)
qed

lemma crossword_accepted:
  assumes "accepts (registry_schema TCrossword) (Some content)"
  shows "normalizeCrosswordContent content = Inr (crossword_words content)" "canBuildConnectedCrossword (crossword_words content)"
    "distinct (map (\<lambda>w. normalizeCrosswordAnswer (cw_word w)) (crossword_words content))" "2 \<le> length (crossword_words content)"
proof -
  have a: "accepts pkg_CrosswordSchema (Some content)" and issues: "crossword_issues content = []"
    using assms unfolding registry_schema.simps MakerCrosswordSchema_def z_refine by simp_all
  note b = a [unfolded pkg_CrosswordSchema_def]
  let ?xs = "readArray content ''words''"
  have xs: "\<forall>x \<in> set ?xs. accepts pkg_CrosswordWordSchema (Some x)" "2 \<le> length ?xs" "js_items ''words'' content = ?xs"
    using array_field [OF b, of "''words''" pkg_CrosswordWordSchema "[CMin 2]"] by simp_all
  have ok: "x \<noteq> JNull" "2 \<le> length (cw_word (crossword_of x))" "cw_clue (crossword_of x) \<noteq> []" if "x \<in> set ?xs" for x
  proof -
    have x: "accepts pkg_CrosswordWordSchema (Some x)" using that xs(1) by blast
    note c = x [unfolded pkg_CrosswordWordSchema_def]
    show "x \<noteq> JNull" by (rule object_not_null [OF c])
    have f: "accepts (ZString [CMin 2]) (js_prop ''word'' x)" "accepts (ZString [CMin 1]) (js_prop ''clue'' x)"
      by (rule object_field [OF c], simp)+
    show "2 \<le> length (cw_word (crossword_of x))" "cw_clue (crossword_of x) \<noteq> []"
      using string_min [of 2, simplified, OF f(1)] min_length [OF f(2)] by (simp_all add: crossword_of_def)
  qed
  have words: "crossword_words content = map crossword_of ?xs" by (simp add: crossword_words_def crossword_of_def xs(3))
  have "map_res crossword_item ?xs = Inr (map crossword_of ?xs)" using ok(1) item_reads(3) by (intro map_res_all) blast
  moreover have "filter (\<lambda>w. 2 \<le> length (cw_word w) \<and> cw_clue w \<noteq> []) (map crossword_of ?xs) = map crossword_of ?xs"
    using ok(2,3) by (intro filter_True) auto
  ultimately show "normalizeCrosswordContent content = Inr (crossword_words content)"
    by (simp add: normalizeCrosswordContent_def words)
  show "canBuildConnectedCrossword (crossword_words content)"
    "distinct (map (\<lambda>w. normalizeCrosswordAnswer (cw_word w)) (crossword_words content))"
    using issues by (simp_all add: crossword_issues_def Let_def split: if_splits)
  show "2 \<le> length (crossword_words content)" using xs(2) by (simp add: words)
qed

lemma puzzle_accepted:
  assumes "accepts (registry_schema TPuzzle) (Some content)"
  shows "hasPlayableContent TPuzzle content = Inr True"
proof -
  have "accepts (ZString [CMin 1]) (js_prop ''phrase'' content)"
    using assms unfolding registry_schema.simps pkg_PuzzleSchema_def by (rule object_field) simp
  then show ?thesis using min_length by (simp add: normalizePuzzleContent_def Let_def)
qed

lemma snakes_accepted:
  assumes "accepts (registry_schema TSnakesLadders) (Some content)"
  shows "hasPlayableContent TSnakesLadders content = Inr True"
proof -
  have a: "accepts pkg_SnakesObject (Some content)"
    using assms unfolding registry_schema.simps pkg_SnakesSchema_def z_refine by simp
  have f: "accepts (ZNumber [CInt, CMin 1]) (js_prop k content)"
    if "k \<in> {''board_width'', ''board_height'', ''start_position'', ''end_position''}" for k
    using a unfolding pkg_SnakesObject_def by (rule object_field) (use that in auto)
  have "\<exists>n. num_opt (js_prop k content) = Some n"
    if "k \<in> {''board_width'', ''board_height'', ''start_position'', ''end_position''}" for k
    using z_number [OF f [OF that]] by auto
  from this [of "''board_width''"] this [of "''board_height''"] this [of "''start_position''"] this [of "''end_position''"]
  show ?thesis by (auto simp: normalizeSnakesContent_def)
qed

end

lemma accepted_reads:
  assumes "zod accepts email uuid" "accepts (registry_schema t) (Some content)"
  shows "hasPlayableContent t content = Inr (playable t content)"
proof (cases t)
  case TCrossword
  have "normalizeCrosswordContent content = Inr (crossword_words content)" "2 \<le> length (crossword_words content)"
    using zod.crossword_accepted(1,4) [OF assms(1)] assms(2) TCrossword by blast+
  then show ?thesis using TCrossword by simp
next
  case TWordSearch
  then show ?thesis by (auto simp: normalizeWordSearchContent_def list_ex_iff filter_empty_conv)
qed (use assms(2) zod.trivia_accepted [OF assms(1)] zod.memory_accepted [OF assms(1)] zod.fake_news_accepted [OF assms(1)]
    zod.puzzle_accepted [OF assms(1)] zod.snakes_accepted [OF assms(1)] in simp_all)

text \<open>C11: What the level maker accepts the game pages can read: on content that passes the template's schema no normaliser
  throws; fake news, crosswords, puzzles and snakes-and-ladders levels are always playable; trivia is playable
  exactly when some question marks an option it has, memory when two pairs have both sides filled in,
  and a word search when some word has two letters after trimming.\<close>

theorem accepted_content_reads:
  assumes "zod accepts email uuid" "accepts (registry_schema t) (Some content)"
  shows "hasPlayableContent t content = Inr (playable t content)"
  by (rule accepted_reads [OF assms])

definition sample_puzzle :: json where
  "sample_puzzle = JObj [(''phrase'', JStr ''hola''), (''pieces'', JNum 3)]"

theorem accepted_content_reads_witness: "hasPlayableContent TPuzzle sample_puzzle = Inr True"
proof -
  have "conforms (\<lambda>s. True) (\<lambda>s. True) (registry_schema TPuzzle) (Some sample_puzzle)" by code_simp
  from accepted_content_reads [OF zod_ref.zod_axioms this] show ?thesis by simp
qed

text \<open>Contents the maker accepts and the pages refuse to play.\<close>

definition wrong_index_question :: json where
  "wrong_index_question = JObj [(''question'', JStr ''q''), (''options'', JArr [JStr ''a'', JStr ''b'']), (''correct_index'', JNum 3)]"

definition blank_pair :: json where
  "blank_pair = JObj [(''id'', JStr ''p''), (''content1'', JStr []), (''content2'', JStr [])]"

definition unplayable :: "template_type \<Rightarrow> json" where
  "unplayable t = (case t of
     TTrivia \<Rightarrow> JArr (replicate 3 wrong_index_question)
   | TMemory \<Rightarrow> JObj [(''pairs'', JArr (replicate 4 blank_pair))]
   | _ \<Rightarrow> JObj [(''words'', JArr [JStr ''  '', JStr ''  ''])])"
text \<open>The maker accepts levels nobody can play: a trivia whose marked answer is not among the options (the schema bounds the
  index by three, not by the options), a memory of blank pairs, and a word search of blank words all pass
  their schema, for every behaviour of the validation library, and are refused by the level page.\<close>

theorem accepted_unplayable:
  assumes "zod accepts email uuid" "t \<in> {TTrivia, TMemory, TWordSearch}"
  shows "accepts (registry_schema t) (Some (unplayable t)) \<and> hasPlayableContent t (unplayable t) = Inr False"
proof -
  have "conforms email uuid (registry_schema t) (Some (unplayable t))" "\<not> playable t (unplayable t)"
    using assms(2) by (auto simp: unplayable_def readArray_def wrong_index_question_def blank_pair_def js_num_def js_items_def
        js_prop_def playable_pair_def strings_of_def numeral_eq_Suc List.map_filter_simps trim_def is_space_def
        LocalMultipleChoiceSchema_def pkg_MemorySchema_def pkg_MemoryPairSchema_def pkg_WordSearchSchema_def)
  moreover have "safe_json (unplayable t)"
    by (simp add: unplayable_def wrong_index_question_def blank_pair_def safe_integer_def list_all_iff split: template_type.splits)
  ultimately have "accepts (registry_schema t) (Some (unplayable t))" "\<not> playable t (unplayable t)"
    by (simp_all add: zod_unique [OF assms(1)])
  then show ?thesis using accepted_reads [OF assms(1)] by simp
qed

theorem accepted_unplayable_witness: "hasPlayableContent TWordSearch (unplayable TWordSearch) = Inr False"
  using accepted_unplayable [OF zod_ref.zod_axioms, of TWordSearch "\<lambda>s. True" "\<lambda>s. True"] by simp

text \<open>A crossword that passes the maker's check is played complete: the words the game page reads from it, with their clues,
  are exactly the words its grid places.\<close>

theorem maker_crossword_complete:
  assumes "zod accepts email uuid" "accepts (registry_schema TCrossword) (Some content)"
  shows "\<exists>words. normalizeCrosswordContent content = Inr words \<and> ly_unplacedWords (buildCrosswordLayout words) = []
    \<and> length (ly_placedWords (buildCrosswordLayout words)) = length words \<and> 2 \<le> length words"
proof -
  note c = zod.crossword_accepted [OF assms]
  show ?thesis using c(1,2,4) by (auto simp: canBuildConnectedCrossword_def Let_def)
qed

definition sample_crossword :: json where
  "sample_crossword = JObj [(''words'', JArr [JObj [(''word'', JStr ''sol''), (''clue'', JStr ''a'')],
     JObj [(''word'', JStr ''Luna''), (''clue'', JStr ''b'')]])]"

theorem maker_crossword_complete_witness:
  "\<exists>words. normalizeCrosswordContent sample_crossword = Inr words \<and> ly_unplacedWords (buildCrosswordLayout words) = []"
proof -
  have "conforms (\<lambda>s. True) (\<lambda>s. True) (registry_schema TCrossword) (Some sample_crossword)" by code_simp
  from maker_crossword_complete [OF zod_ref.zod_axioms this] show ?thesis by blast
qed

text \<open>A puzzle that passes the maker's check starts: with a seed that is not negative the engine deals it, a permutation of the
  pieces the phrase is cut into, not yet solved.\<close>

theorem maker_puzzle_starts:
  assumes "zod accepts email uuid" "accepts (registry_schema TPuzzle) (Some content)"
    and "normalizePuzzleContent content = Some p" "pt_pieces p = Some n" "pt_seed p = Some seed" "0 \<le> seed"
  shows "\<exists>e. puzzle_new (pt_phrase p) \<lfloor>n\<rfloor> seed = Inr e \<and> of_int \<lfloor>n\<rfloor> = n \<and> pz_phrase (pz_state e) = pt_phrase p
    \<and> \<not> pz_isFinished (pz_state e)"
proof -
  note a = assms(2) [unfolded registry_schema.simps pkg_PuzzleSchema_def]
  have f: "accepts (ZDefault (ZNumber [CInt, CMin 3, CMax 20])) (js_prop ''pieces'' content)"
    "accepts (ZOptional (ZNumber [CInt])) (js_prop ''seed'' content)"
    by (rule zod.object_field [OF assms(1) a], simp)+
  have p: "pt_phrase p \<noteq> []" "num_opt (js_prop ''pieces'' content) = Some n" "num_opt (js_prop ''seed'' content) = Some seed"
    using assms(3-5) by (auto simp: normalizePuzzleContent_def Let_def split: if_splits)
  have "n = of_int \<lfloor>n\<rfloor>" "3 \<le> n" "n \<le> 20"
    using f(1) p(2) unfolding zod.z_default [OF assms(1)] by (auto dest!: zod.z_number [OF assms(1)])
  moreover have "nonneg_int seed"
    using f(2) p(3) assms(6) unfolding zod.z_optional [OF assms(1)] nonneg_int_def by (auto dest!: zod.z_number [OF assms(1)])
  moreover have "3 \<le> \<lfloor>n\<rfloor>" "\<lfloor>n\<rfloor> \<le> 20" using calculation(2,3) by linarith+
  ultimately show ?thesis using wf_puzzle_new [of "\<lfloor>n\<rfloor>" "pt_phrase p" seed] p(1) by metis
qed
definition seeded_puzzle :: json where
  "seeded_puzzle = JObj [(''phrase'', JStr ''hola''), (''pieces'', JNum 3), (''seed'', JNum 7)]"

theorem maker_puzzle_starts_witness: "\<exists>e. puzzle_new ''hola'' 3 7 = Inr e \<and> \<not> pz_isFinished (pz_state e)"
proof -
  have "conforms (\<lambda>s. True) (\<lambda>s. True) (registry_schema TPuzzle) (Some seeded_puzzle)" by code_simp
  from maker_puzzle_starts [OF zod_ref.zod_axioms this, of "\<lparr>pt_phrase = ''hola'', pt_pieces = Some 3, pt_seed = Some 7\<rparr>" 3 7]
  show ?thesis by (auto simp: seeded_puzzle_def normalizePuzzleContent_def js_prop_def Let_def)
qed

end
