(* ===== verification/Levels.thy ===== *)
theory Levels
  imports SyncQueue Content
begin

text \<open>
  Levels outside the games: saving and exporting in the maker (\<open>src/features/maker/MakerPage.tsx\<close>), importing and
  deleting on the dashboard (\<open>src/features/dashboard/DashboardPage.tsx\<close>), opening a local level
  (\<open>src/features/content/LocalLevelPage.tsx\<close>) and finishing an official one
  (\<open>src/features/content/OfficialLevelPage.tsx\<close>).
\<close>

section \<open>The level store in \<open>localStorage\<close>\<close>

text \<open>The item \<open>usbi_local_levels\<close>: absent (or the empty string), a text that is not JSON, or the value it parses to.
  Writing may fail for lack of space; which values fit is the browser's business (\<open>fits\<close>).\<close>

datatype stored = NoItem | Unparsable | Parsed json

text \<open>\<open>===\<close> on JSON values: objects and arrays are never identical to other ones.\<close>

fun strict_eq :: "json option \<Rightarrow> json option \<Rightarrow> bool" where
  "strict_eq (Some (JArr _)) _ = False"
| "strict_eq (Some (JObj _)) _ = False"
| "strict_eq a b = (a = b)"

text \<open>\<open>level.metadata.id\<close>.\<close>

definition metadata_of :: "json \<Rightarrow> json res" where
  "metadata_of level = bind_res (get_prop level ''metadata'') (\<lambda>m. case m of None \<Rightarrow> Inl TypeErr
     | Some v \<Rightarrow> if v = JNull then Inl TypeErr else Inr v)"

definition level_id_of :: "json \<Rightarrow> json option res" where
  "level_id_of level = bind_res (metadata_of level) (\<lambda>m. Inr (js_prop ''id'' m))"

text \<open>\<open>findIndex\<close> with a callback that may throw; the length stands for \<open>-1\<close>.\<close>

fun find_level :: "json option \<Rightarrow> json list \<Rightarrow> nat res" where
  "find_level i [] = Inr 0"
| "find_level i (l # ls) =
     bind_res (level_id_of l) (\<lambda>j. if strict_eq j i then Inr 0 else bind_res (find_level i ls) (\<lambda>n. Inr (Suc n)))"

definition put_level :: "json option \<Rightarrow> json \<Rightarrow> json list \<Rightarrow> json list res" where
  "put_level i export levels =
     bind_res (find_level i levels) (\<lambda>n. Inr (if n < length levels then levels[n := export] else levels @ [export]))"

section \<open>The maker: \<open>MakerPage.tsx\<close>\<close>

datatype export_status = StatusIdle | StatusSuccess | StatusError

record maker_metadata =
  mm_id :: string
  mm_title :: string
  mm_author :: string
  mm_color :: string
  mm_difficulty :: rat
  mm_template :: template_type

record maker =
  mk_metadata :: maker_metadata
  mk_content :: json
  mk_status :: export_status

definition maker_errors :: "(zschema \<Rightarrow> json option \<Rightarrow> bool) \<Rightarrow> maker \<Rightarrow> bool" where
  "maker_errors accepts m = (\<not> accepts (registry_schema (mm_template (mk_metadata m))) (Some (mk_content m)))"

definition json_of_metadata :: "maker_metadata \<Rightarrow> string \<Rightarrow> json" where
  "json_of_metadata d now = JObj [(''id'', JStr (mm_id d)), (''title'', JStr (mm_title d)), (''author'', JStr (mm_author d)),
     (''color'', JStr (mm_color d)), (''difficulty'', JNum (mm_difficulty d)),
     (''template_type'', JStr (template_name (mm_template d))), (''creation_date'', JStr now)]"

definition level_export :: "maker \<Rightarrow> string \<Rightarrow> json" where
  "level_export m now = JObj [(''metadata'', json_of_metadata (mk_metadata m) now), (''content'', mk_content m)]"

text \<open>A new template brings its defaults, which are a parameter here.\<close>

definition handleTemplateChange :: "(template_type \<Rightarrow> json) \<Rightarrow> template_type \<Rightarrow> maker \<Rightarrow> maker" where
  "handleTemplateChange defaults newType m =
     m\<lparr>mk_metadata := (mk_metadata m)\<lparr>mm_template := newType\<rparr>, mk_content := defaults newType\<rparr>"

definition saveLocal :: "(zschema \<Rightarrow> json option \<Rightarrow> bool) \<Rightarrow> (json \<Rightarrow> bool) \<Rightarrow> string \<Rightarrow> maker \<Rightarrow> stored \<Rightarrow> maker \<times> stored" where
  "saveLocal accepts fits now m store =
     (if maker_errors accepts m \<or> mm_title (mk_metadata m) = [] then (m\<lparr>mk_status := StatusError\<rparr>, store)
      else case store of
             Unparsable \<Rightarrow> (m\<lparr>mk_status := StatusError\<rparr>, store)
           | _ \<Rightarrow>
               (let levels = (case store of Parsed (JArr ls) \<Rightarrow> ls | _ \<Rightarrow> [])
                in case put_level (Some (JStr (mm_id (mk_metadata m)))) (level_export m now) levels of
                     Inl _ \<Rightarrow> (m\<lparr>mk_status := StatusError\<rparr>, store)
                   | Inr levels' \<Rightarrow>
                       if fits (JArr levels') then (m\<lparr>mk_status := StatusSuccess\<rparr>, Parsed (JArr levels'))
                       else (m\<lparr>mk_status := StatusError\<rparr>, store)))"

text \<open>\<open>onExport\<close>: what is written, if the dialog gives a path or the browser downloads; \<open>None\<close> when nothing is.\<close>

definition onExport :: "(zschema \<Rightarrow> json option \<Rightarrow> bool) \<Rightarrow> string \<Rightarrow> maker \<Rightarrow> json option" where
  "onExport accepts now m =
     (if maker_errors accepts m \<or> mm_title (mk_metadata m) = [] then None else Some (level_export m now))"

section \<open>The dashboard: \<open>DashboardPage.tsx\<close>\<close>

datatype import_alert = TooLarge | NoMetadata | NotJson | Imported

text \<open>\<open>!v\<close>.\<close>

definition falsy_value :: "json option \<Rightarrow> bool" where
  "falsy_value v = (case v of None \<Rightarrow> True | Some JNull \<Rightarrow> True | Some (JBool b) \<Rightarrow> \<not> b | Some (JNum x) \<Rightarrow> x = 0
     | Some (JStr s) \<Rightarrow> s = [] | _ \<Rightarrow> False)"

text \<open>The file as its length and the value it parses to.\<close>

definition processImportedJSON :: "(json \<Rightarrow> bool) \<Rightarrow> nat \<Rightarrow> json option \<Rightarrow> stored \<Rightarrow> import_alert \<times> stored" where
  "processImportedJSON fits len parsed store =
     (if len > 5 * 1024 * 1024 then (TooLarge, store)
      else case parsed of
             None \<Rightarrow> (NotJson, store)
           | Some data \<Rightarrow>
               let i = Option.bind (js_prop ''metadata'' data) (js_prop ''id'')
               in if falsy_value i then (NoMetadata, store)
                  else case store of
                         Unparsable \<Rightarrow> (NotJson, store)
                       | _ \<Rightarrow>
                           (case (case store of NoItem \<Rightarrow> Some [] | Parsed (JArr ls) \<Rightarrow> Some ls | _ \<Rightarrow> None) of
                              None \<Rightarrow> (NotJson, store)
                            | Some levels \<Rightarrow>
                                (case put_level i data levels of
                                   Inl _ \<Rightarrow> (NotJson, store)
                                 | Inr levels' \<Rightarrow> if fits (JArr levels') then (Imported, Parsed (JArr levels')) else (NotJson, store))))"

fun drop_levels :: "json option \<Rightarrow> json list \<Rightarrow> json list res" where
  "drop_levels i [] = Inr []"
| "drop_levels i (l # ls) =
     bind_res (level_id_of l) (\<lambda>j. bind_res (drop_levels i ls) (\<lambda>rest. Inr (if strict_eq j i then rest else l # rest)))"

text \<open>The list on the page is what was last read from the store; a delete that throws leaves it alone.\<close>

definition handleDelete :: "bool \<Rightarrow> string \<Rightarrow> json list \<Rightarrow> stored \<Rightarrow> json list \<times> stored" where
  "handleDelete confirmed i localLevels store =
     (if \<not> confirmed then (localLevels, store)
      else case drop_levels (Some (JStr i)) localLevels of
             Inl _ \<Rightarrow> (localLevels, store)
           | Inr filtered \<Rightarrow> (filtered, Parsed (JArr filtered)))"

section \<open>Opening a local level: \<open>LocalLevelPage.tsx\<close>\<close>

record local_level =
  ll_id :: "json option"
  ll_title :: "json option"
  ll_difficulty :: "json option"
  ll_template :: "json option"
  ll_content :: "json option"
  ll_color :: "json option"

text \<open>\<open>None\<close> is the error page.\<close>

definition load_local :: "stored \<Rightarrow> string \<Rightarrow> local_level option" where
  "load_local store levelId =
     (case store of
        Parsed (JArr levels) \<Rightarrow>
          (case find_level (Some (JStr levelId)) levels of
             Inl _ \<Rightarrow> None
           | Inr n \<Rightarrow>
               if n < length levels
               then (case metadata_of (levels ! n) of
                       Inl _ \<Rightarrow> None
                     | Inr m \<Rightarrow> Some \<lparr>ll_id = js_prop ''id'' m, ll_title = js_prop ''title'' m, ll_difficulty = js_prop ''difficulty'' m,
                         ll_template = js_prop ''template_type'' m, ll_content = js_prop ''content'' (levels ! n),
                         ll_color = js_prop ''color'' m\<rparr>)
               else None)
      | _ \<Rightarrow> None)"

text \<open>The switch on the template name; an unknown name falls through and the result is \<open>undefined\<close>, which is falsy.\<close>

definition local_playable :: "local_level \<Rightarrow> bool res" where
  "local_playable l =
     (case Option.bind (string_opt (ll_template l)) template_of_name of
        None \<Rightarrow> Inr False
      | Some t \<Rightarrow> hasPlayableContent t (case ll_content l of Some c \<Rightarrow> c | None \<Rightarrow> JNull))"

record local_page =
  lp_level :: "local_level option"
  lp_submitted :: bool
  lp_result :: "rat option"

definition local_finish :: "rat \<Rightarrow> local_page \<Rightarrow> local_page" where
  "local_finish score p =
     (if lp_submitted p \<or> lp_level p = None then p else p\<lparr>lp_submitted := True, lp_result := Some score\<rparr>)"

section \<open>Saving and opening again\<close>

lemma strict_eq_string [simp]: "strict_eq a (Some (JStr s)) \<longleftrightarrow> a = Some (JStr s)"
  by (cases "(a, Some (JStr s))" rule: strict_eq.cases) auto

lemma find_level_hit:
  "find_level i ls = Inr n \<Longrightarrow> n < length ls \<Longrightarrow> \<exists>j. level_id_of (ls ! n) = Inr j \<and> strict_eq j i"
  by (induction ls arbitrary: n) (auto simp: bind_res_eq_Inr split: if_splits)

lemma find_level_le: "find_level i ls = Inr n \<Longrightarrow> n \<le> length ls"
  by (induction ls arbitrary: n) (auto simp: bind_res_eq_Inr split: if_splits)

lemma put_level_Cons:
  "level_id_of l = Inr j \<Longrightarrow> \<not> strict_eq j i \<Longrightarrow>
   put_level i export (l # ls) = bind_res (put_level i export ls) (\<lambda>r. Inr (l # r))"
  by (cases "find_level i ls") (simp_all add: put_level_def)

lemma find_after_put:
  assumes "level_id_of export = Inr (Some (JStr s))" "put_level (Some (JStr s)) export ls = Inr ls'"
  shows "\<exists>n. find_level (Some (JStr s)) ls' = Inr n \<and> n < length ls' \<and> ls' ! n = export"
  using assms
proof (induction ls arbitrary: ls')
  case Nil
  then show ?case by (auto simp: put_level_def)
next
  case (Cons l ls)
  then obtain j where j: "level_id_of l = Inr j" by (auto simp: put_level_def bind_res_eq_Inr)
  show ?case
  proof (cases "j = Some (JStr s)")
    case True
    then show ?thesis using Cons.prems j by (auto simp: put_level_def)
  next
    case False
    obtain ls0 where ls0: "put_level (Some (JStr s)) export ls = Inr ls0" "ls' = l # ls0"
      using Cons.prems(2) j False by (auto simp: put_level_Cons bind_res_eq_Inr)
    obtain n where "find_level (Some (JStr s)) ls0 = Inr n" "n < length ls0" "ls0 ! n = export"
      using Cons.IH [OF Cons.prems(1) ls0(1)] by blast
    then show ?thesis using ls0(2) j False by (intro exI [of _ "Suc n"]) simp
  qed
qed

text \<open>What \<open>find\<close> returns for another identifier is the same before and after.\<close>

definition found :: "string \<Rightarrow> json list \<Rightarrow> json option res" where
  "found s ls = bind_res (find_level (Some (JStr s)) ls) (\<lambda>n. Inr (if n < length ls then Some (ls ! n) else None))"

lemma found_Cons:
  "found s (l # ls) = bind_res (level_id_of l) (\<lambda>j. if j = Some (JStr s) then Inr (Some l) else found s ls)"
  by (cases "level_id_of l"; cases "find_level (Some (JStr s)) ls") (auto simp: found_def)

lemma found_after_put:
  assumes "level_id_of export = Inr (Some (JStr s))" "put_level (Some (JStr s)) export ls = Inr ls'" "s' \<noteq> s"
  shows "found s' ls' = found s' ls"
  using assms(2)
proof (induction ls arbitrary: ls')
  case Nil
  then show ?case using assms(1,3) by (auto simp: put_level_def found_def)
next
  case (Cons l ls)
  then obtain j where j: "level_id_of l = Inr j" by (auto simp: put_level_def bind_res_eq_Inr)
  show ?case
  proof (cases "j = Some (JStr s)")
    case True
    then show ?thesis using Cons.prems j assms(1,3) by (auto simp: put_level_def found_Cons)
  next
    case False
    obtain ls0 where ls0: "put_level (Some (JStr s)) export ls = Inr ls0" "ls' = l # ls0"
      using Cons.prems j False by (auto simp: put_level_Cons bind_res_eq_Inr)
    then show ?thesis using Cons.IH [OF ls0(1)] j by (simp add: found_Cons)
  qed
qed

lemma load_local_found:
  "load_local (Parsed (JArr ls)) s =
    (case found s ls of Inl _ \<Rightarrow> None | Inr None \<Rightarrow> None
     | Inr (Some l) \<Rightarrow> (case metadata_of l of Inl _ \<Rightarrow> None
         | Inr m \<Rightarrow> Some \<lparr>ll_id = js_prop ''id'' m, ll_title = js_prop ''title'' m, ll_difficulty = js_prop ''difficulty'' m,
             ll_template = js_prop ''template_type'' m, ll_content = js_prop ''content'' l, ll_color = js_prop ''color'' m\<rparr>))"
  by (cases "find_level (Some (JStr s)) ls") (simp_all add: load_local_def found_def)

lemma export_id: "level_id_of (level_export m now) = Inr (Some (JStr (mm_id (mk_metadata m))))"
  by (simp add: level_id_of_def metadata_of_def level_export_def json_of_metadata_def js_prop_def)

lemma saveLocal_success:
  assumes "saveLocal accepts fits now m store = (m', store')" "mk_status m' = StatusSuccess" "mk_status m \<noteq> StatusSuccess"
  obtains ls ls' where "store' = Parsed (JArr ls')" "put_level (Some (JStr (mm_id (mk_metadata m)))) (level_export m now) ls = Inr ls'"
    "store = Parsed (JArr ls) \<or> ls = [] \<and> (\<forall>i. load_local store i = None)"
    "\<not> maker_errors accepts m"
proof -
  define ls where "ls = (case store of Parsed (JArr ls) \<Rightarrow> ls | _ \<Rightarrow> [])"
  obtain ls' where "store' = Parsed (JArr ls')" "put_level (Some (JStr (mm_id (mk_metadata m)))) (level_export m now) ls = Inr ls'"
    "\<not> maker_errors accepts m"
    using assms by (auto simp: saveLocal_def ls_def Let_def split: if_splits stored.splits sum.splits json.splits)
  moreover have "store = Parsed (JArr ls) \<or> ls = [] \<and> (\<forall>i. load_local store i = None)"
    by (cases store) (auto simp: ls_def load_local_def split: json.splits)
  ultimately show thesis using that by blast
qed

text \<open>C35: A level saved in the maker can be opened again: after a successful save the local level page finds it under its
  identifier, with the same title, colour, difficulty, template and content; every other level in the
  store is found exactly as before.\<close>

theorem save_then_open:
  assumes "saveLocal accepts fits now m store = (m', store')" "mk_status m' = StatusSuccess" "mk_status m \<noteq> StatusSuccess"
  shows "load_local store' (mm_id (mk_metadata m)) =
      Some \<lparr>ll_id = Some (JStr (mm_id (mk_metadata m))), ll_title = Some (JStr (mm_title (mk_metadata m))),
            ll_difficulty = Some (JNum (mm_difficulty (mk_metadata m))),
            ll_template = Some (JStr (template_name (mm_template (mk_metadata m)))), ll_content = Some (mk_content m),
            ll_color = Some (JStr (mm_color (mk_metadata m)))\<rparr>
    \<and> (\<forall>i. i \<noteq> mm_id (mk_metadata m) \<longrightarrow> load_local store' i = load_local store i)"
proof -
  obtain ls ls' where s: "store' = Parsed (JArr ls')" "put_level (Some (JStr (mm_id (mk_metadata m)))) (level_export m now) ls = Inr ls'"
    "store = Parsed (JArr ls) \<or> ls = [] \<and> (\<forall>i. load_local store i = None)"
    by (rule saveLocal_success [OF assms])
  obtain n where "find_level (Some (JStr (mm_id (mk_metadata m)))) ls' = Inr n" "n < length ls'" "ls' ! n = level_export m now"
    using find_after_put [OF export_id s(2)] by blast
  then have "load_local store' (mm_id (mk_metadata m)) =
      Some \<lparr>ll_id = Some (JStr (mm_id (mk_metadata m))), ll_title = Some (JStr (mm_title (mk_metadata m))),
            ll_difficulty = Some (JNum (mm_difficulty (mk_metadata m))),
            ll_template = Some (JStr (template_name (mm_template (mk_metadata m)))), ll_content = Some (mk_content m),
            ll_color = Some (JStr (mm_color (mk_metadata m)))\<rparr>"
    by (simp add: load_local_def s(1) metadata_of_def level_export_def json_of_metadata_def js_prop_def)
  moreover have "load_local store' i = load_local store i" if "i \<noteq> mm_id (mk_metadata m)" for i
    using s(3)
  proof
    assume "store = Parsed (JArr ls)"
    then show ?thesis using found_after_put [OF export_id s(2) that] by (simp add: s(1) load_local_found)
  next
    assume none: "ls = [] \<and> (\<forall>i. load_local store i = None)"
    have "found i ls' = found i ls" by (rule found_after_put [OF export_id s(2) that])
    then have "load_local store' i = None" using none by (simp add: s(1) load_local_found found_def)
    then show ?thesis using none by simp
  qed
  ultimately show ?thesis by blast
qed

text \<open>Sample: a puzzle in an empty store.\<close>

definition sample_maker :: maker where
  "sample_maker = \<lparr>mk_metadata = \<lparr>mm_id = ''m1'', mm_title = ''Uno'', mm_author = [], mm_color = ''#18529D'', mm_difficulty = 1,
     mm_template = TPuzzle\<rparr>, mk_content = sample_puzzle, mk_status = StatusIdle\<rparr>"

definition any_fits :: "json \<Rightarrow> bool" where
  "any_fits j = True"

lemma sample_saved:
  "saveLocal (conforms accept_any accept_any) any_fits ''now'' sample_maker NoItem =
    (sample_maker\<lparr>mk_status := StatusSuccess\<rparr>, Parsed (JArr [level_export sample_maker ''now'']))"
  by code_simp

theorem save_then_open_witness:
  "ll_content (the (load_local (Parsed (JArr [level_export sample_maker ''now''])) ''m1'')) = Some sample_puzzle"
proof -
  have "mk_status (sample_maker\<lparr>mk_status := StatusSuccess\<rparr>) = StatusSuccess" "mk_status sample_maker \<noteq> StatusSuccess"
    by (simp_all add: sample_maker_def)
  from save_then_open [OF sample_saved this] show ?thesis by (simp add: sample_maker_def)
qed

lemma template_of_template_name [simp]: "template_of_name (template_name t) = Some t"
  by (cases t) (simp_all add: template_of_name_def all_templates_def)

text \<open>From the maker to the game page: a level that the maker saves is opened by the local level page without an error, under
  any behaviour of the validation library, and the page offers to play it exactly when its content is
  playable; fake news, crosswords, puzzles and snakes-and-ladders levels always are.\<close>

theorem saved_level_opens:
  assumes "zod accepts email uuid"
    and "saveLocal accepts fits now m store = (m', store')" "mk_status m' = StatusSuccess" "mk_status m \<noteq> StatusSuccess"
  shows "\<exists>l. load_local store' (mm_id (mk_metadata m)) = Some l
    \<and> local_playable l = Inr (playable (mm_template (mk_metadata m)) (mk_content m))"
proof -
  obtain ls ls' where s: "store' = Parsed (JArr ls')" "put_level (Some (JStr (mm_id (mk_metadata m)))) (level_export m now) ls = Inr ls'"
    "\<not> maker_errors accepts m"
    by (rule saveLocal_success [OF assms(2-4)])
  obtain n where "find_level (Some (JStr (mm_id (mk_metadata m)))) ls' = Inr n" "n < length ls'" "ls' ! n = level_export m now"
    using find_after_put [OF export_id s(2)] by blast
  moreover have "hasPlayableContent (mm_template (mk_metadata m)) (mk_content m) = Inr (playable (mm_template (mk_metadata m)) (mk_content m))"
    using s(3) accepted_reads [OF assms(1)] by (simp add: maker_errors_def)
  ultimately show ?thesis
    by (simp add: load_local_def s(1) metadata_of_def level_export_def json_of_metadata_def js_prop_def local_playable_def)
qed

theorem saved_level_opens_witness:
  "\<exists>l. load_local (Parsed (JArr [level_export sample_maker ''now''])) ''m1'' = Some l \<and> local_playable l = Inr True"
proof -
  have "mk_status (sample_maker\<lparr>mk_status := StatusSuccess\<rparr>) = StatusSuccess" "mk_status sample_maker \<noteq> StatusSuccess"
    by (simp_all add: sample_maker_def)
  from saved_level_opens [OF zod_ref.zod_axioms sample_saved this] show ?thesis by (simp add: sample_maker_def)
qed

section \<open>Deleting and importing\<close>

lemma drop_levels_found:
  "drop_levels (Some (JStr s)) ls = Inr ls' \<Longrightarrow> found s' ls' = (if s' = s then Inr None else found s' ls)"
proof (induction ls arbitrary: ls')
  case Nil
  then show ?case by (simp add: found_def)
next
  case (Cons l ls)
  then obtain j rest where "level_id_of l = Inr j" "drop_levels (Some (JStr s)) ls = Inr rest"
      "ls' = (if j = Some (JStr s) then rest else l # rest)"
    by (auto simp: bind_res_eq_Inr)
  then show ?case using Cons.IH by (auto simp: found_Cons)
qed

text \<open>Deleting a local level is exact: with the page showing what is stored, a confirmed delete removes every level with the
  identifier and no other (all others open exactly as before), the page again shows what is stored,
  and an unconfirmed one changes nothing.\<close>

theorem delete_exact:
  assumes "handleDelete confirmed i ls (Parsed (JArr ls)) = (ls', store')" "drop_levels (Some (JStr i)) ls = Inr kept"
  shows "store' = Parsed (JArr ls') \<and>
    (\<forall>k. load_local store' k = (if confirmed \<and> k = i then None else load_local (Parsed (JArr ls)) k))"
proof (cases confirmed)
  case True
  then have "ls' = kept" "store' = Parsed (JArr kept)" using assms by (auto simp: handleDelete_def)
  then show ?thesis using True drop_levels_found [OF assms(2)] by (simp add: load_local_found)
next
  case False
  then show ?thesis using assms(1) by (auto simp: handleDelete_def)
qed

theorem delete_exact_witness:
  "load_local (snd (handleDelete True ''m1'' [level_export sample_maker ''now''] (Parsed (JArr [level_export sample_maker ''now''])))) ''m1'' = None"
proof -
  have "drop_levels (Some (JStr ''m1'')) [level_export sample_maker ''now''] = Inr []" by code_simp
  from delete_exact [OF prod.collapse [symmetric] this, THEN conjunct2, THEN spec, of True "''m1''"] show ?thesis by simp
qed

definition not_a_level :: json where
  "not_a_level = JObj [(''metadata'', JObj [(''id'', JNum 7), (''title'', JStr ''x'')])]"

text \<open>An import checks nothing but an identifier: although a schema for exported levels exists, an object with nothing but a
  numeric identifier and a title is imported as a level; the exported-level schema rejects it, and the level
  can never be opened, because the page looks identifiers up as strings.\<close>

theorem import_unchecked:
  assumes "zod accepts email uuid" "fits (JArr [not_a_level])"
  shows "processImportedJSON fits 40 (Some not_a_level) NoItem = (Imported, Parsed (JArr [not_a_level]))
    \<and> \<not> accepts pkg_LevelExportSchema (Some not_a_level) \<and> load_local (Parsed (JArr [not_a_level])) i = None"
proof -
  have "\<not> conforms email uuid pkg_LevelExportSchema (Some not_a_level)" "safe_json not_a_level" by code_simp+
  moreover have "processImportedJSON fits 40 (Some not_a_level) NoItem = (Imported, Parsed (JArr [not_a_level]))"
    using assms(2) by (simp add: processImportedJSON_def not_a_level_def js_prop_def falsy_value_def put_level_def)
  moreover have "load_local (Parsed (JArr [not_a_level])) i = None"
    by (simp add: load_local_def not_a_level_def level_id_of_def metadata_of_def js_prop_def)
  ultimately show ?thesis by (simp add: zod_unique [OF assms(1)])
qed

theorem import_unchecked_witness:
  "processImportedJSON any_fits 40 (Some not_a_level) NoItem = (Imported, Parsed (JArr [not_a_level]))"
  using import_unchecked [OF zod_ref.zod_axioms, of any_fits accept_any accept_any "[]"] by (simp add: any_fits_def)

section \<open>Finishing an official level: \<open>OfficialLevelPage.tsx\<close>\<close>

record official_page =
  op_submitted :: bool
  op_result :: "json option"
  op_saveError :: bool

definition official_new :: official_page where
  "official_new = \<lparr>op_submitted = False, op_result = None, op_saveError = False\<rparr>"

definition complete_body :: "rat \<Rightarrow> string \<Rightarrow> json" where
  "complete_body score now = JObj [(''score'', JNum score), (''completed'', JBool True), (''client_finished_at'', JStr now)]"

definition complete_url :: "string \<Rightarrow> string" where
  "complete_url levelId = ''/levels/'' @ levelId @ ''/complete''"

definition finishLevel :: "'w host \<Rightarrow> string \<Rightarrow> bool \<Rightarrow> rat \<Rightarrow> official_page \<times> 'w client \<Rightarrow> official_page \<times> 'w client" where
  "finishLevel H levelId published score = (\<lambda>(p, c).
     if levelId = [] \<or> op_submitted p \<or> \<not> published then (p, c)
     else let p = p\<lparr>op_submitted := True, op_saveError := False\<rparr>;
              (now, w) = h_now H (cl_world c);
              (r, c) = api_request H False (complete_url levelId) (complete_body score now) (c\<lparr>cl_world := w\<rparr>);
              good = (case r of HttpOk data \<Rightarrow> h_accepts H lib_CompleteLevelResponseSchema (Some data) | _ \<Rightarrow> False)
          in if good then (p\<lparr>op_result := (case r of HttpOk data \<Rightarrow> Some data | _ \<Rightarrow> None)\<rparr>, c)
             else let (now, w) = h_now H (cl_world c);
                      (ok, c) = enqueueProgress H (buildAttemptPayload now levelId True score) (c\<lparr>cl_world := w\<rparr>)
                  in (if ok then p\<lparr>op_saveError := True\<rparr> else p, c))"





text \<open>An expired session loses the result: if the server rejects the completion with 401 and there is no token to refresh with, the
  interceptor has logged the user out before the page queues the attempt, so nothing is queued; the page
  still says that the attempt was queued.\<close>

theorem expired_session_loses_result:
  assumes "\<And>rq w. fst (h_send H rq w) = HttpError 401 problem" "au_refreshToken (cl_auth c) = None" "levelId \<noteq> []"
  shows "case finishLevel H levelId True score (official_new, c) of (p, c') \<Rightarrow>
    op_result p = None \<and> op_saveError p \<and> cl_queue c' = cl_queue c \<and> au_user (cl_auth c') = None"
proof -
  obtain now w where n: "h_now H (cl_world c) = (now, w)" by fastforce
  let ?rq = "\<lparr>rq_url = complete_url levelId, rq_body = complete_body score now, rq_token = bearer (cl_auth c)\<rparr>"
  obtain r c1 where s: "raw_send H ?rq (c\<lparr>cl_world := w\<rparr>) = (r, c1)" by fastforce
  have r: "r = HttpError 401 problem" using s assms(1) by (auto simp: raw_send_def case_prod_beta)
  have c1: "cl_auth c1 = cl_auth c" "cl_queue c1 = cl_queue c" using sent_of [OF s] by simp_all
  have a: "api_request H False (complete_url levelId) (complete_body score now) (c\<lparr>cl_world := w\<rparr>) =
      (HttpError 401 problem, drop_session H c1)"
    by (subst api_request.simps) (simp add: s r c1 assms(2))
  have out: "au_user (cl_auth (drop_session H c1)) = None" by (simp add: logout_def)
  obtain now2 w2 where n2: "h_now H (cl_world (drop_session H c1)) = (now2, w2)" by fastforce
  have e: "enqueueProgress H payload ((drop_session H c1)\<lparr>cl_world := w2\<rparr>) = (True, (drop_session H c1)\<lparr>cl_world := w2\<rparr>)" for payload
    using out by (simp add: enqueueProgress_def)
  show ?thesis
    using assms(3) c1 by (simp add: finishLevel_def n a n2 e official_new_def Let_def logout_def)
qed

theorem expired_session_loses_result_witness:
  "op_saveError (fst (finishLevel (sample_host (\<lambda>rq. HttpError 401 JNull)) ''l1'' True 90
      (official_new, sample_client\<lparr>cl_auth := login (sample_user Player) ''t'' None auth_initial\<rparr>)))"
  using expired_session_loses_result [of "sample_host (\<lambda>rq. HttpError 401 JNull)" JNull
      "sample_client\<lparr>cl_auth := login (sample_user Player) ''t'' None auth_initial\<rparr>" "''l1''" 90]
  by (simp add: sample_host_def login_def case_prod_beta)

section \<open>Pages that close\<close>

text \<open>
  What a game can rely on when it reports scores to a page: the first report closes the page, and a closed page ignores
  all others. Both level pages keep this contract.
\<close>

locale closing_page =
  fixes finish :: "rat \<Rightarrow> 'p \<Rightarrow> 'p"
    and closed :: "'p \<Rightarrow> bool"
  assumes closed_stays: "closed p \<Longrightarrow> finish score p = p"
    and finish_closes: "closed (finish score p)"
begin

lemma closed_fold: "closed p \<Longrightarrow> fold finish scores p = p"
  by (induction scores) (simp_all add: closed_stays)

lemma first_report: "fold finish scores p = (case scores of [] \<Rightarrow> p | score # _ \<Rightarrow> finish score p)"
  by (cases scores) (simp_all add: closed_fold finish_closes)

lemma later_reports: "scores \<noteq> [] \<Longrightarrow> fold finish (scores @ rest) p = fold finish scores p"
  by (cases scores) (simp_all add: closed_fold finish_closes)

end

definition local_closed :: "local_page \<Rightarrow> bool" where
  "local_closed p \<longleftrightarrow> lp_submitted p \<or> lp_level p = None"

interpretation local_closing: closing_page local_finish local_closed
  by unfold_locales (auto simp: local_finish_def local_closed_def)

definition official_closed :: "string \<Rightarrow> bool \<Rightarrow> official_page \<times> 'w client \<Rightarrow> bool" where
  "official_closed levelId published = (\<lambda>(p, c). levelId = [] \<or> op_submitted p \<or> \<not> published)"

interpretation official_closing: closing_page "finishLevel H levelId published" "official_closed levelId published" for H levelId published
proof unfold_locales
  fix pc :: "official_page \<times> 'a client" and score
  show "official_closed levelId published pc \<Longrightarrow> finishLevel H levelId published score pc = pc"
    by (auto simp: finishLevel_def official_closed_def split: prod.splits)
  show "official_closed levelId published (finishLevel H levelId published score pc)"
    by (auto simp: finishLevel_def official_closed_def Let_def split: prod.splits)
qed

end
