(* ===== verification/SnakesContent.thy ===== *)
theory SnakesContent
  imports Content SnakesEngine
begin

text \<open>
  Snakes-and-ladders levels as content: the engine configuration the game builds from them
  (\<open>SnakeLadderGame.tsx\<close>), what the schema \<open>packages/schema/snakes.ts\<close> guarantees about it, and the form
  of the maker (\<open>forms/SnakeLadderForm.tsx\<close>), which regenerates the links on every change.
\<close>

section \<open>The engine configuration\<close>

text \<open>Numbers of a validated level are integers; \<open>\<lfloor>x\<rfloor>\<close> is then the same number.\<close>

definition link_of_json :: "json \<Rightarrow> snake_link" where
  "link_of_json j = \<lparr>link_start = \<lfloor>js_num ''start'' j\<rfloor>, link_end = \<lfloor>js_num ''end'' j\<rfloor>\<rparr>"

definition ai_levels :: "(string \<times> ai_level) list" where
  "ai_levels = [(''EASY'', EASY), (''MEDIUM'', MEDIUM), (''HARD'', HARD)]"

definition ai_of_json :: "json option \<Rightarrow> ai_level" where
  "ai_of_json ai = (case Option.bind (string_opt (Option.bind ai (js_prop ''difficulty''))) (map_of ai_levels) of
     Some l \<Rightarrow> l | None \<Rightarrow> MEDIUM)"

definition engineConfig :: "snakes_content \<Rightarrow> sl_config" where
  "engineConfig level =
     \<lparr>sl_boardSize = \<lfloor>fl (sn_board_width level * sn_board_height level)\<rfloor>, sl_startPosition = Some \<lfloor>sn_start_position level\<rfloor>,
      sl_endPosition = Some \<lfloor>sn_end_position level\<rfloor>, sl_snakes = map link_of_json (sn_snakes level),
      sl_ladders = map link_of_json (sn_ladders level), sl_aiDifficulty = ai_of_json (sn_ai_config level)\<rparr>"

section \<open>What the schema guarantees\<close>

lemma link_issues_origins: "snd (link_issues wrong m ls os) = rev (map (js_num ''start'') ls) @ os"
  by (induction wrong m ls os rule: link_issues.induct) (simp_all add: Let_def case_prod_beta)

lemma link_issues_none:
  "fst (link_issues wrong m ls os) = [] \<longleftrightarrow>
     list_all (\<lambda>l. \<not> wrong (js_num ''start'' l) (js_num ''end'' l)) ls
     \<and> distinct (map (js_num ''start'') ls) \<and> set (map (js_num ''start'') ls) \<inter> set os = {}"
  by (induction wrong m ls os rule: link_issues.induct) (auto simp: Let_def case_prod_beta)

lemma snakes_issues_none:
  "snakes_issues data = [] \<longleftrightarrow>
     js_num ''end_position'' data \<le> fl (js_num ''board_width'' data * js_num ''board_height'' data)
     \<and> list_all (\<lambda>l. js_num ''end'' l < js_num ''start'' l) (js_items ''snakes'' data)
     \<and> list_all (\<lambda>l. js_num ''start'' l < js_num ''end'' l) (js_items ''ladders'' data)
     \<and> distinct (map (js_num ''start'') (js_items ''snakes'' data @ js_items ''ladders'' data))
     \<and> list_all (\<lambda>q. js_num ''correct_index'' q < of_nat (length (js_items ''options'' q))
          \<and> list_all (\<lambda>x. trim (string_or [] (Some x)) \<noteq> []) (js_items ''options'' q)) (js_items ''questions'' data)"
proof -
  let ?sn = "js_items ''snakes'' data" and ?la = "js_items ''ladders'' data"
  let ?ws = "\<lambda>s e :: rat. s \<le> e" and ?wl = "\<lambda>s e :: rat. s \<ge> e"
  have q: "question_issues q = [] \<longleftrightarrow> js_num ''correct_index'' q < of_nat (length (js_items ''options'' q))
      \<and> list_all (\<lambda>x. trim (string_or [] (Some x)) \<noteq> []) (js_items ''options'' q)" for q
    by (auto simp: question_issues_def Let_def list_all_iff)
  obtain si os where s: "link_issues ?ws ''Snake must go down'' ?sn [] = (si, os)" by fastforce
  obtain li os' where l: "link_issues ?wl ''Ladder must go up'' ?la os = (li, os')" by fastforce
  have os: "os = rev (map (js_num ''start'') ?sn)" using link_issues_origins [of ?ws _ ?sn "[]"] s by (metis append_Nil2 snd_conv)
  have si: "si = [] \<longleftrightarrow> list_all (\<lambda>l. js_num ''end'' l < js_num ''start'' l) ?sn \<and> distinct (map (js_num ''start'') ?sn)"
    using link_issues_none [of ?ws "''Snake must go down''" ?sn "[]"] s by (simp add: not_le)
  have li: "li = [] \<longleftrightarrow> list_all (\<lambda>l. js_num ''start'' l < js_num ''end'' l) ?la \<and> distinct (map (js_num ''start'') ?la)
      \<and> set (map (js_num ''start'') ?la) \<inter> set (map (js_num ''start'') ?sn) = {}"
    using link_issues_none [of ?wl "''Ladder must go up''" ?la os] l os by (simp add: not_le)
  have "snakes_issues data = [] \<longleftrightarrow>
      js_num ''end_position'' data \<le> fl (js_num ''board_width'' data * js_num ''board_height'' data)
      \<and> si = [] \<and> li = [] \<and> list_all (\<lambda>q. question_issues q = []) (js_items ''questions'' data)"
    unfolding snakes_issues_def Let_def s by (auto simp: l list_all_iff)
  then show ?thesis unfolding si li q by (auto simp: Int_commute)
qed

text \<open>A level is within the board when every link ends on it.\<close>

definition links_on_board :: "snakes_content \<Rightarrow> bool" where
  "links_on_board level \<longleftrightarrow> list_all (\<lambda>l. js_num ''end'' l \<le> sn_end_position level) (sn_snakes level @ sn_ladders level)"

context zod
begin

lemma int_field:
  assumes "accepts (ZObject fs) (Some j)" "(k, ZNumber (CInt # cs)) \<in> set fs"
  shows "of_int \<lfloor>js_num k j\<rfloor> = js_num k j" "num_opt (js_prop k j) = Some (js_num k j)"
    "\<forall>c \<in> set cs. number_check c (js_num k j)"
  using z_number [OF object_field [OF assms]] unfolding js_num_def by auto

lemma link_fields:
  assumes "accepts pkg_SnakeLadderItemSchema (Some l)"
  shows "of_int \<lfloor>js_num ''start'' l\<rfloor> = js_num ''start'' l" "of_int \<lfloor>js_num ''end'' l\<rfloor> = js_num ''end'' l" "1 \<le> js_num ''end'' l"
  using int_field [OF assms [unfolded pkg_SnakeLadderItemSchema_def], of "''start''" "[CMin 1]"]
    int_field [OF assms [unfolded pkg_SnakeLadderItemSchema_def], of "''end''" "[CMin 1]"] by simp_all

lemma optional_items:
  assumes "accepts (ZObject fs) (Some j)" "(k, ZOptional (ZArray sch cs)) \<in> set fs"
  shows "\<forall>x \<in> set (js_items k j). accepts sch (Some x)"
proof -
  have "js_prop k j = None \<or> accepts (ZArray sch cs) (js_prop k j)"
    using object_field [OF assms] unfolding z_optional .
  then show ?thesis
  proof
    assume "accepts (ZArray sch cs) (js_prop k j)"
    then obtain xs where "js_prop k j = Some (JArr xs)" "\<forall>x \<in> set xs. accepts sch (Some x)" unfolding z_array by blast
    then show ?thesis by (simp add: js_items_def)
  qed (simp add: js_items_def)
qed

lemma snakes_level:
  assumes "accepts pkg_SnakesSchema (Some content)"
  obtains level where "normalizeSnakesContent content = Some level"
    "1 \<le> sn_start_position level" "1 \<le> sn_end_position level"
    "of_int \<lfloor>sn_start_position level\<rfloor> = sn_start_position level" "of_int \<lfloor>sn_end_position level\<rfloor> = sn_end_position level"
    "sn_end_position level \<le> fl (sn_board_width level * sn_board_height level)"
    "\<forall>l \<in> set (sn_snakes level @ sn_ladders level). accepts pkg_SnakeLadderItemSchema (Some l)"
    "list_all (\<lambda>l. js_num ''end'' l < js_num ''start'' l) (sn_snakes level)"
    "list_all (\<lambda>l. js_num ''start'' l < js_num ''end'' l) (sn_ladders level)"
    "distinct (map (js_num ''start'') (sn_snakes level @ sn_ladders level))"
proof -
  have a: "accepts pkg_SnakesObject (Some content)" and i: "snakes_issues content = []"
    using assms unfolding pkg_SnakesSchema_def z_refine by simp_all
  note o = a [unfolded pkg_SnakesObject_def]
  note w = int_field [OF o, of "''board_width''" "[CMin 1]"] and h = int_field [OF o, of "''board_height''" "[CMin 1]"]
    and st = int_field [OF o, of "''start_position''" "[CMin 1]"] and en = int_field [OF o, of "''end_position''" "[CMin 1]"]
  have links: "\<forall>l \<in> set (js_items ''snakes'' content). accepts pkg_SnakeLadderItemSchema (Some l)"
    "\<forall>l \<in> set (js_items ''ladders'' content). accepts pkg_SnakeLadderItemSchema (Some l)"
    using optional_items [OF o, of "''snakes''" pkg_SnakeLadderItemSchema "[]"]
      optional_items [OF o, of "''ladders''" pkg_SnakeLadderItemSchema "[]"] by simp_all
  let ?level = "\<lparr>sn_board_width = js_num ''board_width'' content, sn_board_height = js_num ''board_height'' content,
    sn_start_position = js_num ''start_position'' content, sn_end_position = js_num ''end_position'' content,
    sn_seed = num_opt (js_prop ''seed'' content), sn_snakes = js_items ''snakes'' content,
    sn_ladders = js_items ''ladders'' content, sn_ai_config = js_prop ''ai_config'' content,
    sn_questions = js_items ''questions'' content\<rparr>"
  have n: "normalizeSnakesContent content = Some ?level"
    using w(2) h(2) st(2) en(2) by (simp add: normalizeSnakesContent_def)
  note i' = i [unfolded snakes_issues_none]
  show thesis
    by (rule that [OF n]) (use st en i' links in auto)
qed

lemma config_of_level:
  assumes "\<forall>l \<in> set (sn_snakes level @ sn_ladders level). accepts pkg_SnakeLadderItemSchema (Some l)"
    and "1 \<le> sn_start_position level" "sn_start_position level < sn_end_position level" "6 \<le> sn_end_position level"
    and "of_int \<lfloor>sn_start_position level\<rfloor> = sn_start_position level" "of_int \<lfloor>sn_end_position level\<rfloor> = sn_end_position level"
    and "links_on_board level"
  shows "sl_config_ok (engineConfig level)"
proof -
  have l: "1 \<le> \<lfloor>js_num ''end'' l\<rfloor> \<and> \<lfloor>js_num ''end'' l\<rfloor> \<le> \<lfloor>sn_end_position level\<rfloor>"
    if "l \<in> set (sn_snakes level @ sn_ladders level)" for l
  proof -
    have "accepts pkg_SnakeLadderItemSchema (Some l)" using assms(1) that by blast
    then have "1 \<le> js_num ''end'' l" by (rule link_fields(3))
    moreover have "js_num ''end'' l \<le> sn_end_position level" using assms(7) that unfolding links_on_board_def list_all_iff by blast
    ultimately show ?thesis by (intro conjI floor_mono) (simp_all add: le_floor_iff)
  qed
  have "1 \<le> \<lfloor>sn_start_position level\<rfloor>" "6 \<le> \<lfloor>sn_end_position level\<rfloor>" using assms(2,4) by (simp_all add: le_floor_iff)
  moreover have "\<lfloor>sn_start_position level\<rfloor> < \<lfloor>sn_end_position level\<rfloor>"
    using assms(3,5,6) by (metis of_int_less_iff)
  ultimately show ?thesis using l by (auto simp: sl_config_ok_def engineConfig_def winPosition_def link_of_json_def list_all_iff)
qed

end

text \<open>C14: From the schema to the engine: a level that passes the schema, whose last cell is at least six and after the start and
  whose links end on the board, gives the engine a configuration for which a whole game stays on the
  board, and in it snakes go down, ladders go up and no two links share a start.\<close>

theorem accepted_snakes_config:
  assumes "zod accepts email uuid" "accepts (registry_schema TSnakesLadders) (Some content)"
    and "normalizeSnakesContent content = Some level" "links_on_board level"
    and "6 \<le> sn_end_position level" "sn_start_position level < sn_end_position level"
  shows "sl_config_ok (engineConfig level)
    \<and> list_all (\<lambda>l. link_end l < link_start l) (sl_snakes (engineConfig level))
    \<and> list_all (\<lambda>l. link_start l < link_end l) (sl_ladders (engineConfig level))
    \<and> distinct (map link_start (sl_snakes (engineConfig level) @ sl_ladders (engineConfig level)))"
proof -
  note f = zod.snakes_level [OF assms(1) assms(2) [unfolded registry_schema.simps]]
  obtain lv where lv: "normalizeSnakesContent content = Some lv" "1 \<le> sn_start_position lv"
    "of_int \<lfloor>sn_start_position lv\<rfloor> = sn_start_position lv" "of_int \<lfloor>sn_end_position lv\<rfloor> = sn_end_position lv"
    "\<forall>l \<in> set (sn_snakes lv @ sn_ladders lv). accepts pkg_SnakeLadderItemSchema (Some l)"
    "list_all (\<lambda>l. js_num ''end'' l < js_num ''start'' l) (sn_snakes lv)"
    "list_all (\<lambda>l. js_num ''start'' l < js_num ''end'' l) (sn_ladders lv)"
    "distinct (map (js_num ''start'') (sn_snakes lv @ sn_ladders lv))"
    by (rule f) blast
  have eq: "lv = level" using lv(1) assms(3) by simp
  note lv = lv [unfolded eq]
  let ?ls = "sn_snakes level @ sn_ladders level"
  have ints: "of_int (link_start (link_of_json l)) = js_num ''start'' l" "of_int (link_end (link_of_json l)) = js_num ''end'' l"
    if "l \<in> set ?ls" for l
    using zod.link_fields [OF assms(1)] lv(5) that by (simp_all add: link_of_json_def)
  have "sl_config_ok (engineConfig level)"
    by (rule zod.config_of_level [OF assms(1) lv(5,2) assms(6,5) lv(3,4) assms(4)])
  moreover have "link_end (link_of_json l) < link_start (link_of_json l)" if "l \<in> set (sn_snakes level)" for l
  proof -
    have "js_num ''end'' l < js_num ''start'' l" using lv(6) that unfolding list_all_iff by blast
    then show ?thesis using ints [of l] that by (metis Un_iff of_int_less_iff set_append)
  qed
  moreover have "link_start (link_of_json l) < link_end (link_of_json l)" if "l \<in> set (sn_ladders level)" for l
  proof -
    have "js_num ''start'' l < js_num ''end'' l" using lv(7) that unfolding list_all_iff by blast
    then show ?thesis using ints [of l] that by (metis Un_iff of_int_less_iff set_append)
  qed
  moreover have "distinct (map link_start (map link_of_json ?ls))"
  proof -
    have "map (js_num ''start'') ?ls = map of_int (map link_start (map link_of_json ?ls))"
      using ints by simp
    then show ?thesis using lv(8) distinct_map by metis
  qed
  ultimately show ?thesis by (simp add: engineConfig_def list_all_iff)
qed

text \<open>Examples: a level with one link.\<close>

definition num_field :: "string \<Rightarrow> rat \<Rightarrow> string \<times> json" where
  "num_field k x = (k, JNum x)"

definition easy_question :: json where
  "easy_question = JObj [(''question'', JStr ''q''), (''options'', JArr [JStr ''a'', JStr ''b'']), num_field ''correct_index'' 0]"

definition snakes_level_json :: "rat \<Rightarrow> rat \<Rightarrow> json list \<Rightarrow> json" where
  "snakes_level_json width height ladders = JObj [num_field ''board_width'' width, num_field ''board_height'' height,
     num_field ''start_position'' 1, num_field ''end_position'' (width * height), (''ladders'', JArr ladders),
     (''questions'', JArr (replicate 8 easy_question))]"

definition ladder_json :: "rat \<Rightarrow> rat \<Rightarrow> json" where
  "ladder_json a b = JObj [num_field ''start'' a, num_field ''end'' b]"
theorem accepted_snakes_config_witness:
  "\<exists>level. normalizeSnakesContent (snakes_level_json 6 6 [ladder_json 4 20]) = Some level \<and> sl_config_ok (engineConfig level)"
proof -
  let ?c = "snakes_level_json 6 6 [ladder_json 4 20]"
  have "conforms (\<lambda>s. True) (\<lambda>s. True) (registry_schema TSnakesLadders) (Some ?c)" by code_simp
  moreover obtain level where "normalizeSnakesContent ?c = Some level" "sn_start_position level = 1" "sn_end_position level = 36"
      "sn_snakes level = []" "sn_ladders level = [ladder_json 4 20]"
    by (simp add: normalizeSnakesContent_def snakes_level_json_def num_field_def js_prop_def js_items_def)
  ultimately show ?thesis
    using accepted_snakes_config [OF zod_ref.zod_axioms, of "\<lambda>s. True" "\<lambda>s. True" ?c level]
    by (auto simp: links_on_board_def ladder_json_def num_field_def js_num_def js_prop_def)
qed

text \<open>The schema does not keep ladders on the board: a six by six level with a ladder from cell 5 to cell 99 is accepted,
  and a first roll of four puts the player on cell 99, where no further roll can reach the last cell.\<close>

theorem ladder_off_board:
  assumes "zod accepts email uuid"
  shows "accepts (registry_schema TSnakesLadders) (Some (snakes_level_json 6 6 [ladder_json 5 99]))
    \<and> (\<exists>level st s. normalizeSnakesContent (snakes_level_json 6 6 [ladder_json 5 99]) = Some level
        \<and> bind_res (sl_start (sl_new (engineConfig level))) (\<lambda>st. rollPlayer (engineConfig level) half (st, 0)) = Inr (st, s)
        \<and> sl_playerPosition st = 99 \<and> winPosition (engineConfig level) = 36
        \<and> list_all (\<lambda>d. land 36 99 d < 0) [1..6])"
proof -
  let ?c = "snakes_level_json 6 6 [ladder_json 5 99]"
  have "conforms email uuid (registry_schema TSnakesLadders) (Some ?c)" "safe_json ?c" by code_simp+
  moreover have "\<exists>level st s. normalizeSnakesContent ?c = Some level
      \<and> bind_res (sl_start (sl_new (engineConfig level))) (\<lambda>st. rollPlayer (engineConfig level) half (st, 0)) = Inr (st, s)
      \<and> sl_playerPosition st = 99 \<and> winPosition (engineConfig level) = 36"
  proof -
    have "normalizeSnakesContent ?c \<noteq> None" by code_simp
    then obtain level where l: "normalizeSnakesContent ?c = Some level" by blast
    have "(case normalizeSnakesContent ?c of None \<Rightarrow> False | Some level \<Rightarrow>
        winPosition (engineConfig level) = 36 \<and>
        (case bind_res (sl_start (sl_new (engineConfig level))) (\<lambda>st. rollPlayer (engineConfig level) half (st, 0)) of
           Inl _ \<Rightarrow> False | Inr (st, s) \<Rightarrow> sl_playerPosition st = 99))"
      by code_simp
    then show ?thesis unfolding l by (auto split: sum.splits prod.splits)
  qed
  moreover have "list_all (\<lambda>d. land 36 99 d < 0) [1..6]" by code_simp
  ultimately show ?thesis by (simp add: zod_unique [OF assms])
qed

theorem ladder_off_board_witness:
  "conforms (\<lambda>s. True) (\<lambda>s. True) (registry_schema TSnakesLadders) (Some (snakes_level_json 6 6 [ladder_json 5 99]))"
  using ladder_off_board [OF zod_ref.zod_axioms] by blast
section \<open>The form: \<open>SnakeLadderForm.tsx\<close>\<close>

text \<open>\<open>None\<close> is a missing property; a \<open>js_num\<close> is \<open>None\<close> when it is NaN or infinite.\<close>

record snake_question =
  sq_question :: string
  sq_options :: "string list"
  sq_correct_index :: nat

record snakes_form =
  sf_board_width :: "js_num option"
  sf_board_height :: "js_num option"
  sf_start_position :: int
  sf_end_position :: int
  sf_seed :: "js_num option"
  sf_snakes :: "snake_link list option"
  sf_ladders :: "snake_link list option"
  sf_ai :: "ai_level option"
  sf_questions :: "snake_question list option"

definition MIN_QUESTIONS :: nat where
  "MIN_QUESTIONS = 8"

definition createEmptyQuestion :: snake_question where
  "createEmptyQuestion = \<lparr>sq_question = [], sq_options = [[], []], sq_correct_index = 0\<rparr>"

definition clampCount :: "js_num \<Rightarrow> int \<Rightarrow> int" where
  "clampCount value mx = (let normalized = (case value of Some v \<Rightarrow> js_trunc v | None \<Rightarrow> 0) in max 0 (min mx normalized))"

definition normalizeContent :: "snakes_form \<Rightarrow> int \<Rightarrow> int \<Rightarrow> int \<Rightarrow> int \<Rightarrow> rat \<Rightarrow> snakes_form res" where
  "normalizeContent current boardWidth boardHeight snakeCount ladderCount seed =
     bind_res (generateSnakeLadderLinks boardWidth boardHeight (Some (of_int snakeCount)) (Some (of_int ladderCount)) seed)
       (\<lambda>(snakes, ladders).
         Inr (current\<lparr>sf_board_width := Some (Some (of_int boardWidth)), sf_board_height := Some (Some (of_int boardHeight)),
           sf_start_position := 1, sf_end_position := boardWidth * boardHeight, sf_seed := Some (Some seed),
           sf_snakes := Some snakes, sf_ladders := Some ladders,
           sf_ai := Some (case sf_ai current of Some l \<Rightarrow> l | None \<Rightarrow> MEDIUM),
           sf_questions := Some (case sf_questions current of Some qs \<Rightarrow> qs | None \<Rightarrow> [])\<rparr>))"

text \<open>The values the form reads off the content it is given.\<close>

definition form_width :: "snakes_form \<Rightarrow> int" where
  "form_width value = clampBoardSize (case sf_board_width value of Some w \<Rightarrow> w | None \<Rightarrow> Some 6)"

definition form_height :: "snakes_form \<Rightarrow> int" where
  "form_height value = clampBoardSize (case sf_board_height value of Some h \<Rightarrow> h | None \<Rightarrow> Some 6)"

definition form_seed :: "snakes_form \<Rightarrow> rat" where
  "form_seed value = (case sf_seed value of Some (Some s) \<Rightarrow> s | _ \<Rightarrow> 2026)"

definition form_count :: "snake_link list option \<Rightarrow> snakes_form \<Rightarrow> int" where
  "form_count links value =
     min (case links of Some ls \<Rightarrow> int (length ls) | None \<Rightarrow> 3) (maxFeatureCount (form_width value) (form_height value))"

definition form_questions :: "snakes_form \<Rightarrow> snake_question list" where
  "form_questions value = (case sf_questions value of Some qs \<Rightarrow> qs | None \<Rightarrow> [])"

record form_updates =
  up_boardWidth :: "js_num option"
  up_boardHeight :: "js_num option"
  up_seed :: "js_num option"
  up_snakeCount :: "js_num option"
  up_ladderCount :: "js_num option"

definition updated_or :: "js_num option \<Rightarrow> int \<Rightarrow> js_num" where
  "updated_or u d = (case u of Some v \<Rightarrow> v | None \<Rightarrow> Some (of_int d))"

definition regenerate :: "snakes_form \<Rightarrow> form_updates \<Rightarrow> snakes_form res" where
  "regenerate value updates =
     (let nextWidth = clampBoardSize (updated_or (up_boardWidth updates) (form_width value));
          nextHeight = clampBoardSize (updated_or (up_boardHeight updates) (form_height value));
          nextSeed = (case up_seed updates of Some (Some s) \<Rightarrow> s | _ \<Rightarrow> form_seed value);
          nextMax = maxFeatureCount nextWidth nextHeight;
          nextSnakeCount = clampCount (updated_or (up_snakeCount updates) (form_count (sf_snakes value) value)) nextMax;
          nextLadderCount = clampCount (updated_or (up_ladderCount updates) (form_count (sf_ladders value) value)) nextMax
      in normalizeContent value nextWidth nextHeight nextSnakeCount nextLadderCount nextSeed)"

definition form_preview :: "snakes_form \<Rightarrow> snakes_form res" where
  "form_preview value = normalizeContent value (form_width value) (form_height value) (form_count (sf_snakes value) value)
     (form_count (sf_ladders value) value) (form_seed value)"

definition chooseDifficulty :: "ai_level \<Rightarrow> snakes_form \<Rightarrow> snakes_form res" where
  "chooseDifficulty level value = bind_res (form_preview value) (\<lambda>preview. Inr (preview\<lparr>sf_ai := Some level\<rparr>))"

definition addQuestion :: "snakes_form \<Rightarrow> snakes_form" where
  "addQuestion value = value\<lparr>sf_questions := Some (form_questions value @ [createEmptyQuestion])\<rparr>"

text \<open>\<open>filter((_, i) => i !== idx)\<close> is \<open>remove_at\<close> of the prelude.\<close>

definition removeQuestion :: "nat \<Rightarrow> snakes_form \<Rightarrow> snakes_form" where
  "removeQuestion idx value =
     (if length (form_questions value) \<le> MIN_QUESTIONS then value
      else value\<lparr>sf_questions := Some (remove_at idx (form_questions value))\<rparr>)"

definition updateQuestion :: "nat \<Rightarrow> snake_question \<Rightarrow> snakes_form \<Rightarrow> snakes_form" where
  "updateQuestion idx updated value = value\<lparr>sf_questions := Some ((form_questions value)[idx := updated])\<rparr>"

text \<open>The three ways the inputs of a question call it.\<close>

definition setQuestionText :: "nat \<Rightarrow> string \<Rightarrow> snakes_form \<Rightarrow> snakes_form" where
  "setQuestionText idx s value = updateQuestion idx ((form_questions value ! idx)\<lparr>sq_question := s\<rparr>) value"

definition markOption :: "nat \<Rightarrow> nat \<Rightarrow> snakes_form \<Rightarrow> snakes_form" where
  "markOption idx optIdx value = updateQuestion idx ((form_questions value ! idx)\<lparr>sq_correct_index := optIdx\<rparr>) value"

definition setOption :: "nat \<Rightarrow> nat \<Rightarrow> string \<Rightarrow> snakes_form \<Rightarrow> snakes_form" where
  "setOption idx optIdx s value =
     (let q = form_questions value ! idx in updateQuestion idx (q\<lparr>sq_options := (sq_options q)[optIdx := s]\<rparr>) value)"

text \<open>The defaults of the registry (\<open>snakeLadderDefaults\<close>).\<close>

definition snakeLadderDefaults :: "snakes_form res" where
  "snakeLadderDefaults =
     (let boardWidth = 6; boardHeight = 6; seed = 2026
      in bind_res (generateSnakeLadderLinks boardWidth boardHeight (Some 3) (Some 3) seed) (\<lambda>(snakes, ladders).
         Inr \<lparr>sf_board_width = Some (Some 6), sf_board_height = Some (Some 6), sf_start_position = 1,
           sf_end_position = boardWidth * boardHeight, sf_seed = Some (Some seed), sf_snakes = Some snakes,
           sf_ladders = Some ladders, sf_ai = Some MEDIUM,
           sf_questions = Some (map (\<lambda>_. createEmptyQuestion) [0..<8])\<rparr>))"

section \<open>What the form guarantees\<close>

text \<open>What the form hands over: a board of the allowed size whose links are valid, and two options per question.\<close>

definition question_ok :: "snake_question \<Rightarrow> bool" where
  "question_ok q \<longleftrightarrow> length (sq_options q) = 2 \<and> sq_correct_index q < 2"

definition board_ok :: "snakes_form \<Rightarrow> bool" where
  "board_ok f \<longleftrightarrow> (\<exists>w h sn la. 2 \<le> w \<and> w \<le> 10 \<and> 2 \<le> h \<and> h \<le> 10
     \<and> sf_board_width f = Some (Some (of_int w)) \<and> sf_board_height f = Some (Some (of_int h))
     \<and> sf_start_position f = 1 \<and> sf_end_position f = w * h
     \<and> sf_snakes f = Some sn \<and> sf_ladders f = Some la
     \<and> list_all (link_ok SnakeLink (w * h)) sn \<and> list_all (link_ok LadderLink (w * h)) la
     \<and> distinct (map link_start sn @ map link_start la))"

definition form_ok :: "snakes_form \<Rightarrow> bool" where
  "form_ok f \<longleftrightarrow> board_ok f \<and> MIN_QUESTIONS \<le> length (form_questions f) \<and> list_all question_ok (form_questions f)"

lemma clampBoardSize_range: "2 \<le> clampBoardSize v" "clampBoardSize v \<le> 10"
  by (simp_all add: clampBoardSize_def clampInt_def Let_def)

lemma normalizeContent_ok:
  assumes "2 \<le> w" "w \<le> 10" "2 \<le> h" "h \<le> 10"
  obtains f' where "normalizeContent f w h sc lc seed = Inr f'" "board_ok f'" "form_questions f' = form_questions f"
proof -
  obtain sn la where g: "generateSnakeLadderLinks w h (Some (of_int sc)) (Some (of_int lc)) seed = Inr (sn, la)"
    "list_all (link_ok SnakeLink (w * h)) sn" "list_all (link_ok LadderLink (w * h)) la" "distinct (map link_start sn @ map link_start la)"
    using links_valid [of w h "Some (of_int sc)" "Some (of_int lc)" seed] by blast
  let ?f = "f\<lparr>sf_board_width := Some (Some (of_int w)), sf_board_height := Some (Some (of_int h)),
           sf_start_position := 1, sf_end_position := w * h, sf_seed := Some (Some seed),
           sf_snakes := Some sn, sf_ladders := Some la, sf_ai := Some (case sf_ai f of Some l \<Rightarrow> l | None \<Rightarrow> MEDIUM),
           sf_questions := Some (case sf_questions f of Some qs \<Rightarrow> qs | None \<Rightarrow> [])\<rparr>"
  have "normalizeContent f w h sc lc seed = Inr ?f" by (simp add: normalizeContent_def g(1))
  moreover have "board_ok ?f"
    unfolding board_ok_def using assms g(2-4)
    by (intro exI [of _ w] exI [of _ h] exI [of _ sn] exI [of _ la]) simp
  moreover have "form_questions ?f = form_questions f" by (simp add: form_questions_def)
  ultimately show thesis by (rule that)
qed

lemma questions_change:
  "form_questions (f\<lparr>sf_questions := Some qs\<rparr>) = qs" "board_ok (f\<lparr>sf_questions := Some qs\<rparr>) = board_ok f"
  "form_questions (f\<lparr>sf_ai := a\<rparr>) = form_questions f" "board_ok (f\<lparr>sf_ai := a\<rparr>) = board_ok f"
  by (simp_all add: form_questions_def board_ok_def)

datatype form_edit = Regenerate form_updates | Difficulty ai_level | AddQuestion | RemoveQuestion nat
  | QuestionText nat string | MarkOption nat nat | OptionText nat nat string

text \<open>The controls exist for the questions and options that are shown.\<close>

fun form_edit_shown :: "form_edit \<Rightarrow> snakes_form \<Rightarrow> bool" where
  "form_edit_shown (RemoveQuestion i) f = (i < length (form_questions f))"
| "form_edit_shown (QuestionText i s) f = (i < length (form_questions f))"
| "form_edit_shown (MarkOption i j) f = (i < length (form_questions f) \<and> j < length (sq_options (form_questions f ! i)))"
| "form_edit_shown (OptionText i j s) f = (i < length (form_questions f) \<and> j < length (sq_options (form_questions f ! i)))"
| "form_edit_shown _ f = True"

fun form_apply :: "form_edit \<Rightarrow> snakes_form \<Rightarrow> snakes_form res" where
  "form_apply (Regenerate u) f = regenerate f u"
| "form_apply (Difficulty l) f = chooseDifficulty l f"
| "form_apply AddQuestion f = Inr (addQuestion f)"
| "form_apply (RemoveQuestion i) f = Inr (removeQuestion i f)"
| "form_apply (QuestionText i s) f = Inr (setQuestionText i s f)"
| "form_apply (MarkOption i j) f = Inr (markOption i j f)"
| "form_apply (OptionText i j s) f = Inr (setOption i j s f)"

text \<open>The form of the maker never leaves the valid boards: every edit, with any number typed into its fields (NaN
  included), succeeds and keeps at least eight questions with two options and a marked option each, a
  board between 2 by 2 and 10 by 10, and links that go the right way, end on the board and do not share
  a start.\<close>

theorem snakes_form_invariant:
  assumes "form_ok f" "form_edit_shown edit f"
  shows "\<exists>f'. form_apply edit f = Inr f' \<and> form_ok f'"
proof (cases edit)
  case (Regenerate u)
  show ?thesis unfolding Regenerate form_apply.simps regenerate_def Let_def
    by (rule normalizeContent_ok [OF clampBoardSize_range clampBoardSize_range]) (use assms in \<open>auto simp: form_ok_def\<close>)
next
  case (Difficulty l)
  obtain f' where f': "form_preview f = Inr f'" "board_ok f'" "form_questions f' = form_questions f"
    unfolding form_preview_def form_width_def form_height_def
    by (rule normalizeContent_ok [OF clampBoardSize_range clampBoardSize_range])
  then show ?thesis unfolding Difficulty form_apply.simps chooseDifficulty_def
    using assms by (simp add: form_ok_def questions_change)
next
  case (RemoveQuestion i)
  then show ?thesis using assms set_remove_at [of i "form_questions f"]
    by (auto simp: form_ok_def removeQuestion_def questions_change length_remove_at list_all_iff)
next
  case (QuestionText i s)
  then show ?thesis using assms
    by (auto simp: form_ok_def setQuestionText_def updateQuestion_def questions_change list_all_length nth_list_update question_ok_def)
next
  case (MarkOption i j)
  then show ?thesis using assms
    by (auto simp: form_ok_def markOption_def updateQuestion_def questions_change list_all_length nth_list_update question_ok_def)
next
  case (OptionText i j s)
  then show ?thesis using assms
    by (auto simp: form_ok_def setOption_def Let_def updateQuestion_def questions_change list_all_length nth_list_update question_ok_def)
qed (use assms in \<open>auto simp: form_ok_def addQuestion_def questions_change question_ok_def createEmptyQuestion_def\<close>)

definition sample_form :: snakes_form where
  "sample_form = \<lparr>sf_board_width = Some (Some 3), sf_board_height = Some (Some 3), sf_start_position = 1, sf_end_position = 9,
     sf_seed = None, sf_snakes = Some [], sf_ladders = Some [], sf_ai = None, sf_questions = Some (replicate 8 createEmptyQuestion)\<rparr>"

lemma sample_form_ok: "form_ok sample_form"
proof -
  have "board_ok sample_form"
    unfolding board_ok_def by (intro exI [of _ 3] exI [of _ 3] exI [of _ "[]"]) (simp add: sample_form_def)
  then show ?thesis
    by (simp add: form_ok_def sample_form_def form_questions_def MIN_QUESTIONS_def question_ok_def createEmptyQuestion_def list_all_iff)
qed

theorem snakes_form_invariant_witness:
  "\<exists>f'. form_apply (Regenerate \<lparr>up_boardWidth = Some None, up_boardHeight = None, up_seed = None, up_snakeCount = Some (Some 50),
      up_ladderCount = None\<rparr>) sample_form = Inr f' \<and> form_ok f'"
  by (rule snakes_form_invariant [OF sample_form_ok]) simp

definition tiny_board :: sl_config where
  "tiny_board = \<lparr>sl_boardSize = 4, sl_startPosition = Some 1, sl_endPosition = Some 4, sl_snakes = [], sl_ladders = [],
     sl_aiDifficulty = MEDIUM\<rparr>"

definition rolls_six :: "nat \<Rightarrow> rat \<times> nat" where
  "rolls_six s = (9 / 10, Suc s)"

text \<open>Small boards break the rules: the form offers boards of two by two, where the overshoot of the die bounces back by more
  than the board; a player on cell three of four who rolls a six moves to cell minus one.\<close>

theorem small_board_bounce:
  "clampBoardSize (Some 2) = 2
   \<and> (case rollPlayer tiny_board rolls_six ((sl_new tiny_board)\<lparr>sl_phase := PlayerTurn, sl_playerPosition := 3\<rparr>, 0) of
        Inr (st, _) \<Rightarrow> sl_lastRoll st = 6 \<and> sl_playerPosition st = -1 | Inl _ \<Rightarrow> False)"
  by code_simp

end
