(* ===== verification/LevelPages.thy ===== *)
theory LevelPages
  imports Levels SnakesContent WordSearchScreen Memory FakeNews Crossword SnakesScreen
begin

text \<open>
  What the two level pages play: \<open>src/features/content/OfficialLevelPage.tsx\<close> and \<open>LocalLevelPage.tsx\<close> read the content of
  the level once per template (the memos), render the game component the template asks for, and tell the
  native shell whether a game is being played. The game components start the engines.
\<close>

section \<open>The memos\<close>

record page_memos =
  pm_trivia :: "multiple_choice list"
  pm_memory :: "memory_pair list"
  pm_backColor :: "string option"
  pm_news :: "news_item list"
  pm_wordSearch :: "word_search_content option"
  pm_puzzle :: "puzzle_content option"
  pm_crossword :: "crossword_word list"
  pm_snakes :: "snakes_content option"

definition official_memos :: "template_type \<Rightarrow> json \<Rightarrow> page_memos res" where
  "official_memos t content =
     bind_res (if t = TTrivia then normalizeTriviaContent content else Inr []) (\<lambda>triviaQuestions.
     bind_res (if t = TMemory then normalizeMemoryContent content else Inr []) (\<lambda>memoryPairs.
     bind_res (if t = TFakeNews then normalizeFakeNewsContent content else Inr []) (\<lambda>fakeNews.
     bind_res (if t = TCrossword then normalizeCrosswordContent content else Inr []) (\<lambda>crosswordWords.
       Inr \<lparr>pm_trivia = triviaQuestions, pm_memory = memoryPairs,
            pm_backColor = (if t = TMemory then Some (normalizeMemoryBackColorContent content) else None),
            pm_news = fakeNews,
            pm_wordSearch = (if t = TWordSearch then Some (normalizeWordSearchContent content) else None),
            pm_puzzle = (if t = TPuzzle then normalizePuzzleContent content else None),
            pm_crossword = crosswordWords,
            pm_snakes = (if t = TSnakesLadders then normalizeSnakesContent content else None)\<rparr>))))"

text \<open>The local page does the same with a template that is any stored value, \<open>None\<close> when it names no template, and with
  content that may be missing. The readers treat missing content like \<open>null\<close>.\<close>

definition template_of_json :: "json option \<Rightarrow> template_type option" where
  "template_of_json v = Option.bind (string_opt v) template_of_name"

definition local_memos :: "local_level \<Rightarrow> page_memos res" where
  "local_memos l =
     (let t = template_of_json (ll_template l); content = (case ll_content l of Some c \<Rightarrow> c | None \<Rightarrow> JNull)
      in bind_res (if t = Some TTrivia then normalizeTriviaContent content else Inr []) (\<lambda>triviaQuestions.
         bind_res (if t = Some TMemory then normalizeMemoryContent content else Inr []) (\<lambda>memoryPairs.
         bind_res (if t = Some TFakeNews then normalizeFakeNewsContent content else Inr []) (\<lambda>fakeNews.
         bind_res (if t = Some TCrossword then normalizeCrosswordContent content else Inr []) (\<lambda>crosswordWords.
           Inr \<lparr>pm_trivia = triviaQuestions, pm_memory = memoryPairs,
                pm_backColor = (if t = Some TMemory then Some (normalizeMemoryBackColorContent content) else None),
                pm_news = fakeNews,
                pm_wordSearch = (if t = Some TWordSearch then Some (normalizeWordSearchContent content) else None),
                pm_puzzle = (if t = Some TPuzzle then normalizePuzzleContent content else None),
                pm_crossword = crosswordWords,
                pm_snakes = (if t = Some TSnakesLadders then normalizeSnakesContent content else None)\<rparr>)))))"

section \<open>The games rendered\<close>

datatype game = GTrivia "multiple_choice list" | GMemory "memory_pair list" "string option" | GFakeNews "news_item list"
  | GWordSearch word_search_content | GPuzzle puzzle_content | GCrossword "crossword_word list" | GSnakes snakes_content

definition shown_game :: "bool \<Rightarrow> game \<Rightarrow> game list" where
  "shown_game b g = (if b then [g] else [])"

definition shown_opt :: "('a \<Rightarrow> bool) \<Rightarrow> ('a \<Rightarrow> game) \<Rightarrow> bool \<Rightarrow> 'a option \<Rightarrow> game list" where
  "shown_opt ok mk b v = (case v of Some x \<Rightarrow> shown_game (b \<and> ok x) (mk x) | None \<Rightarrow> [])"

definition official_games :: "template_type \<Rightarrow> page_memos \<Rightarrow> game list" where
  "official_games t m =
     shown_game (t = TTrivia \<and> length (pm_trivia m) > 0) (GTrivia (pm_trivia m))
     @ shown_game (t = TMemory \<and> length (pm_memory m) \<ge> 2) (GMemory (pm_memory m) (pm_backColor m))
     @ shown_game (t = TFakeNews \<and> length (pm_news m) > 0) (GFakeNews (pm_news m))
     @ shown_opt (\<lambda>w. length (wc_words w) > 0) GWordSearch (t = TWordSearch) (pm_wordSearch m)
     @ shown_opt (\<lambda>_. True) GPuzzle (t = TPuzzle) (pm_puzzle m)
     @ shown_game (t = TCrossword \<and> length (pm_crossword m) \<ge> 2) (GCrossword (pm_crossword m))
     @ shown_opt (\<lambda>_. True) GSnakes (t = TSnakesLadders) (pm_snakes m)"

definition local_games :: "template_type option \<Rightarrow> page_memos \<Rightarrow> game list" where
  "local_games t m =
     shown_game (t = Some TTrivia \<and> length (pm_trivia m) > 0) (GTrivia (pm_trivia m))
     @ shown_game (t = Some TMemory \<and> length (pm_memory m) \<ge> 2) (GMemory (pm_memory m) (pm_backColor m))
     @ shown_game (t = Some TFakeNews \<and> length (pm_news m) > 0) (GFakeNews (pm_news m))
     @ shown_opt (\<lambda>w. length (wc_words w) > 0) GWordSearch (t = Some TWordSearch) (pm_wordSearch m)
     @ shown_opt (\<lambda>_. True) GPuzzle (t = Some TPuzzle) (pm_puzzle m)
     @ shown_game (t = Some TCrossword \<and> length (pm_crossword m) \<ge> 2) (GCrossword (pm_crossword m))
     @ shown_opt (\<lambda>_. True) GSnakes (t = Some TSnakesLadders) (pm_snakes m)"

text \<open>The second copy of the playability test.\<close>

fun official_hasPlayableContent :: "template_type \<Rightarrow> json \<Rightarrow> bool res" where
  "official_hasPlayableContent TTrivia content = bind_res (normalizeTriviaContent content) (\<lambda>qs. Inr (length qs > 0))"
| "official_hasPlayableContent TMemory content = bind_res (normalizeMemoryContent content) (\<lambda>ps. Inr (length ps \<ge> 2))"
| "official_hasPlayableContent TFakeNews content = bind_res (normalizeFakeNewsContent content) (\<lambda>ns. Inr (length ns > 0))"
| "official_hasPlayableContent TWordSearch content = Inr (length (wc_words (normalizeWordSearchContent content)) > 0)"
| "official_hasPlayableContent TPuzzle content = Inr (normalizePuzzleContent content \<noteq> None)"
| "official_hasPlayableContent TCrossword content = bind_res (normalizeCrosswordContent content) (\<lambda>ws. Inr (length ws \<ge> 2))"
| "official_hasPlayableContent TSnakesLadders content = Inr (normalizeSnakesContent content \<noteq> None)"

text \<open>What a page with a loaded level shows: the games, and whether the note that the content is not playable. An exception while
  rendering takes the whole page down.\<close>

definition official_view :: "template_type \<Rightarrow> json \<Rightarrow> (game list \<times> bool) res" where
  "official_view t content =
     bind_res (official_memos t content) (\<lambda>m.
     bind_res (official_hasPlayableContent t content) (\<lambda>ok. Inr (official_games t m, \<not> ok)))"

definition local_view :: "local_level \<Rightarrow> (game list \<times> bool) res" where
  "local_view l =
     bind_res (local_memos l) (\<lambda>m.
     bind_res (local_playable l) (\<lambda>ok. Inr (local_games (template_of_json (ll_template l)) m, \<not> ok)))"

section \<open>Starting the engines\<close>







section \<open>The game status told to the native shell\<close>

text \<open>\<open>isPlaying\<close> of the effect; the effect runs after every change of the level or the result, its cleanup before the next run
  and at the end. The calls are listed in order.\<close>

definition isPlaying :: "bool option \<Rightarrow> bool \<Rightarrow> bool" where
  "isPlaying playableLevel hasResult = (case playableLevel of Some ok \<Rightarrow> ok \<and> \<not> hasResult | None \<Rightarrow> False)"

fun status_calls :: "bool option \<Rightarrow> (bool option \<times> bool) list \<Rightarrow> bool list" where
  "status_calls prev [] = (if prev = Some True then [False] else [])"
| "status_calls prev ((lvl, result) # rest) =
     (if prev = Some True then [False] else []) @ [isPlaying lvl result]
     @ status_calls (Some (isPlaying lvl result)) rest"

section \<open>The two pages agree\<close>

lemma official_copy [simp]: "official_hasPlayableContent t content = hasPlayableContent t content"
  by (cases t) simp_all

lemma local_memos_official:
  "template_of_json (ll_template l) = Some t \<Longrightarrow> ll_content l = Some content \<Longrightarrow> local_memos l = official_memos t content"
  by (simp add: local_memos_def official_memos_def)

lemma local_games_official: "local_games (Some t) m = official_games t m"
  by (simp add: local_games_def official_games_def)

lemma views_agree:
  "template_of_json (ll_template l) = Some t \<Longrightarrow> ll_content l = Some content \<Longrightarrow> local_view l = official_view t content"
  by (simp add: local_view_def official_view_def local_memos_official local_games_official local_playable_def
      template_of_json_def)

text \<open>Whatever the content is, a page shows a game exactly when its content is playable, and then one; otherwise the note.\<close>

lemma official_view_cases:
  "official_view t content = bind_res (hasPlayableContent t content) (\<lambda>ok.
     Inr (if ok then case t of
            TTrivia \<Rightarrow> [GTrivia (projr (normalizeTriviaContent content))]
          | TMemory \<Rightarrow> [GMemory (projr (normalizeMemoryContent content)) (Some (normalizeMemoryBackColorContent content))]
          | TFakeNews \<Rightarrow> [GFakeNews (projr (normalizeFakeNewsContent content))]
          | TWordSearch \<Rightarrow> [GWordSearch (normalizeWordSearchContent content)]
          | TPuzzle \<Rightarrow> [GPuzzle (the (normalizePuzzleContent content))]
          | TCrossword \<Rightarrow> [GCrossword (projr (normalizeCrosswordContent content))]
          | TSnakesLadders \<Rightarrow> [GSnakes (the (normalizeSnakesContent content))]
          else [], \<not> ok))"
proof (cases t)
  case TTrivia
  then show ?thesis by (cases "normalizeTriviaContent content")
    (simp_all add: official_view_def official_memos_def official_games_def shown_game_def shown_opt_def)
next
  case TMemory
  then show ?thesis by (cases "normalizeMemoryContent content")
    (simp_all add: official_view_def official_memos_def official_games_def shown_game_def shown_opt_def)
next
  case TFakeNews
  then show ?thesis by (cases "normalizeFakeNewsContent content")
    (simp_all add: official_view_def official_memos_def official_games_def shown_game_def shown_opt_def)
next
  case TCrossword
  then show ?thesis by (cases "normalizeCrosswordContent content")
    (simp_all add: official_view_def official_memos_def official_games_def shown_game_def shown_opt_def)
next
  case TPuzzle
  then show ?thesis by (cases "normalizePuzzleContent content")
    (simp_all add: official_view_def official_memos_def official_games_def shown_game_def shown_opt_def)
next
  case TSnakesLadders
  then show ?thesis by (cases "normalizeSnakesContent content")
    (simp_all add: official_view_def official_memos_def official_games_def shown_game_def shown_opt_def)
next
  case TWordSearch
  then show ?thesis
    by (simp add: official_view_def official_memos_def official_games_def shown_game_def shown_opt_def)
qed

text \<open>C13: The official and the local level page play the same: they carry separate copies of the readers' calls, the render conditions
  and the playability test, and for the same template and content, of any shape, both fail or both show
  the same, which is one game if the content is playable and otherwise only the note that it is not.\<close>

theorem level_pages_agree:
  assumes "template_of_json (ll_template l) = Some t" "ll_content l = Some content"
  shows "local_view l = official_view t content
    \<and> (\<forall>e. official_view t content = Inl e \<longleftrightarrow> hasPlayableContent t content = Inl e)
    \<and> (\<forall>games blank. official_view t content = Inr (games, blank) \<longrightarrow>
         hasPlayableContent t content = Inr (\<not> blank) \<and> length games = (if blank then 0 else 1))"
proof -
  have "local_view l = official_view t content" by (rule views_agree [OF assms])
  moreover have "official_view t content = Inl e \<longleftrightarrow> hasPlayableContent t content = Inl e" for e
    unfolding official_view_cases by (cases "hasPlayableContent t content") simp_all
  moreover have "hasPlayableContent t content = Inr (\<not> blank) \<and> length games = (if blank then 0 else 1)"
    if "official_view t content = Inr (games, blank)" for games blank
    using that unfolding official_view_cases
    by (cases "hasPlayableContent t content") (auto split: template_type.splits)
  ultimately show ?thesis by blast
qed

theorem level_pages_agree_witness:
  "local_view \<lparr>ll_id = None, ll_title = None, ll_difficulty = None, ll_template = Some (JStr ''puzzle''),
     ll_content = Some sample_puzzle, ll_color = None\<rparr> = official_view TPuzzle sample_puzzle"
proof -
  have "template_of_json (ll_template \<lparr>ll_id = None, ll_title = None, ll_difficulty = None, ll_template = Some (JStr ''puzzle''),
      ll_content = Some sample_puzzle, ll_color = None\<rparr>) = Some TPuzzle" by code_simp
  from level_pages_agree [OF this, of sample_puzzle] show ?thesis by simp
qed

section \<open>What is accepted can be started\<close>












section \<open>Telling the native shell\<close>

text \<open>After the result is there, and after the page is left, the last status told is that nobody is playing, so that the
  synchronisation is not held back.\<close>

lemma status_after_true: "status_calls (Some True) evs \<noteq> []"
  by (cases evs) auto

lemma status_ends_false: "status_calls prev evs \<noteq> [] \<Longrightarrow> \<not> last (status_calls prev evs)"
  by (induction prev evs rule: status_calls.induct) (use status_after_true in \<open>auto simp: last_append\<close>)

lemma status_with_result: "\<not> isPlaying lvl True"
  by (simp add: isPlaying_def split: option.splits)

end
