(* ===== verification/GameScreens.thy ===== *)
theory GameScreens
  imports Levels Trivia Puzzle CrosswordScreen
begin

text \<open>
  The components that show an observable engine (\<open>src/features/games/TriviaGame.tsx\<close> and \<open>PuzzleGame.tsx\<close>) and what
  the level pages make of the scores they report. A component subscribes in an effect, copies every state
  it is handed into its own, and calls \<open>onFinish\<close> when that state is finished; the cleanup of the effect
  unsubscribes and destroys the engine.
\<close>

section \<open>A subscribed component\<close>

record ('e, 'st) game_screen =
  gs_engine :: 'e
  gs_shown :: "'st option"
  gs_reported :: "int list"

text \<open>The subscribed callback, and a call of the engine with what the callback does during it.\<close>

definition screen_hears :: "('st \<Rightarrow> bool) \<Rightarrow> ('st \<Rightarrow> int) \<Rightarrow> 'st \<Rightarrow> ('e, 'st, 'z) game_screen_scheme \<Rightarrow> ('e, 'st, 'z) game_screen_scheme" where
  "screen_hears fin pts st s =
     (let s = s\<lparr>gs_shown := Some st\<rparr>
      in if fin st then s\<lparr>gs_reported := gs_reported s @ [pts st]\<rparr> else s)"

definition screen_call :: "('e \<Rightarrow> 'st subject) \<Rightarrow> ('st \<Rightarrow> bool) \<Rightarrow> ('st \<Rightarrow> int) \<Rightarrow> ('e \<Rightarrow> 'e res)
    \<Rightarrow> ('e, 'st, 'z) game_screen_scheme \<Rightarrow> ('e, 'st, 'z) game_screen_scheme res" where
  "screen_call sub fin pts f s =
     bind_res (f (gs_engine s)) (\<lambda>e'.
       Inr (fold (screen_hears fin pts) (drop (length (told 0 (sub (gs_engine s)))) (told 0 (sub e'))) (s\<lparr>gs_engine := e'\<rparr>)))"

fun run_res :: "('a \<Rightarrow> 's \<Rightarrow> 's res) \<Rightarrow> 'a list \<Rightarrow> 's \<Rightarrow> 's res" where
  "run_res act [] s = Inr s"
| "run_res act (ev # evs) s = bind_res (act ev s) (run_res act evs)"

lemma run_res_append: "run_res act (xs @ ys) s = bind_res (run_res act xs s) (run_res act ys)"
  by (induction xs arbitrary: s) (auto simp: bind_res_def split: sum.splits)

lemma run_res_invariant:
  assumes "\<And>ev s. P s \<Longrightarrow> Q ev \<Longrightarrow> \<exists>s'. act ev s = Inr s' \<and> P s'" "P s" "list_all Q evs"
  shows "\<exists>s'. run_res act evs s = Inr s' \<and> P s'"
  using assms(2,3)
proof (induction evs arbitrary: s)
  case (Cons ev evs)
  then obtain s1 where "act ev s = Inr s1" "P s1" using assms(1) [of s ev] by auto
  then show ?case using Cons.IH Cons.prems by auto
qed simp

text \<open>
  What a component relies on: every step of the engine keeps its invariant and its listeners, and either changes nothing
  a listener could see or tells each listener the new state, once; a finished engine is silent.
\<close>

locale telling_engine =
  fixes sub :: "'e \<Rightarrow> 'st subject"
    and st :: "'e \<Rightarrow> 'st"
    and fin :: "'st \<Rightarrow> bool"
    and step :: "'ev \<Rightarrow> 'e \<Rightarrow> 'e res"
    and inv :: "'e \<Rightarrow> bool"
  assumes step_tells: "inv e \<Longrightarrow> \<exists>e'. step ev e = Inr e' \<and> inv e' \<and> listeners (sub e') = listeners (sub e)
    \<and> (st e' = st e \<and> deliveries (sub e') = deliveries (sub e)
       \<or> \<not> fin (st e) \<and> (\<forall>l \<in> set (listeners (sub e)). told l (sub e') = told l (sub e) @ [st e']))"
begin

definition in_step :: "('e, 'st, 'z) game_screen_scheme \<Rightarrow> bool" where
  "in_step s \<longleftrightarrow> inv (gs_engine s) \<and> 0 \<in> set (listeners (sub (gs_engine s))) \<and> gs_shown s = Some (st (gs_engine s))"

text \<open>A step leaves the component in step with its engine, and reports exactly when the step finished the game.\<close>

lemma screen_step:
  assumes "in_step s"
  obtains e' where "step ev (gs_engine s) = Inr e'" "fin (st (gs_engine s)) \<longrightarrow> st e' = st (gs_engine s)"
    "screen_call sub fin pts (step ev) s = Inr (s\<lparr>gs_engine := e', gs_shown := Some (st e'),
        gs_reported := gs_reported s @ (if fin (st e') \<and> \<not> fin (st (gs_engine s)) then [pts (st e')] else [])\<rparr>)"
    "\<forall>r. in_step (s\<lparr>gs_engine := e', gs_shown := Some (st e'), gs_reported := r\<rparr>)"
proof -
  let ?e = "gs_engine s"
  from assms have e: "inv ?e" "0 \<in> set (listeners (sub ?e))" "gs_shown s = Some (st ?e)" by (auto simp: in_step_def)
  obtain e' where e': "step ev ?e = Inr e'" "inv e'" "listeners (sub e') = listeners (sub ?e)"
    and t: "st e' = st ?e \<and> deliveries (sub e') = deliveries (sub ?e)
      \<or> \<not> fin (st ?e) \<and> told 0 (sub e') = told 0 (sub ?e) @ [st e']"
    using step_tells [OF e(1), of ev] e(2) by blast
  have "in_step (s\<lparr>gs_engine := e', gs_shown := Some (st e'), gs_reported := r\<rparr>)" for r using e' e(2) by (simp add: in_step_def)
  moreover have "screen_call sub fin pts (step ev) s = Inr (s\<lparr>gs_engine := e', gs_shown := Some (st e'),
        gs_reported := gs_reported s @ (if fin (st e') \<and> \<not> fin (st ?e) then [pts (st e')] else [])\<rparr>)"
    using t
  proof
    assume "st e' = st ?e \<and> deliveries (sub e') = deliveries (sub ?e)"
    then show ?thesis using e(3) by (simp add: screen_call_def e'(1) told_def)
  next
    assume "\<not> fin (st ?e) \<and> told 0 (sub e') = told 0 (sub ?e) @ [st e']"
    then show ?thesis by (simp add: screen_call_def e'(1) screen_hears_def)
  qed
  ultimately show thesis using e'(1) t by (intro that [of e']) auto
qed

lemma screen_runs:
  assumes "in_step s"
  shows "\<exists>s'. run_res (\<lambda>ev. screen_call sub fin pts (step ev)) evs s = Inr s' \<and> in_step s'
    \<and> gs_reported s' = gs_reported s
        @ (if fin (st (gs_engine s')) \<and> \<not> fin (st (gs_engine s)) then [pts (st (gs_engine s'))] else [])
    \<and> (fin (st (gs_engine s)) \<longrightarrow> st (gs_engine s') = st (gs_engine s))"
  using assms
proof (induction evs arbitrary: s)
  case (Cons ev evs)
  let ?e = "gs_engine s"
  let ?s1 = "\<lambda>e'. s\<lparr>gs_engine := e', gs_shown := Some (st e'),
        gs_reported := gs_reported s @ (if fin (st e') \<and> \<not> fin (st ?e) then [pts (st e')] else [])\<rparr>"
  obtain e' where e': "fin (st ?e) \<longrightarrow> st e' = st ?e" "screen_call sub fin pts (step ev) s = Inr (?s1 e')" "\<forall>r. in_step (s\<lparr>gs_engine := e', gs_shown := Some (st e'), gs_reported := r\<rparr>)"
    by (rule screen_step [OF Cons.prems, of ev pts]) (rule that)
  have i: "in_step (?s1 e')" using e'(3) by (rule spec)
  from Cons.IH [OF this]
  obtain s' where s': "run_res (\<lambda>ev. screen_call sub fin pts (step ev)) evs (?s1 e') = Inr s'" "in_step s'"
    "gs_reported s' = gs_reported (?s1 e')
        @ (if fin (st (gs_engine s')) \<and> \<not> fin (st (gs_engine (?s1 e'))) then [pts (st (gs_engine s'))] else [])"
    "fin (st (gs_engine (?s1 e'))) \<longrightarrow> st (gs_engine s') = st (gs_engine (?s1 e'))"
    by (elim exE conjE) (rule that)
  have "run_res (\<lambda>ev. screen_call sub fin pts (step ev)) (ev # evs) s = Inr s'" using s'(1) by (simp add: e'(2))
  moreover have "gs_reported s' = gs_reported s @ (if fin (st (gs_engine s')) \<and> \<not> fin (st ?e) then [pts (st (gs_engine s'))] else [])"
    using s'(3,4) e'(1) by (cases "fin (st e')"; cases "fin (st ?e)") simp_all
  ultimately show ?case using s'(2,4) e'(1) by auto
qed simp

end

section \<open>The engines that tell\<close>

definition trivia_playing :: "trivia_engine \<Rightarrow> bool" where
  "trivia_playing e \<longleftrightarrow>
     (let st = tr_state e in
      trivia_wf e \<and> tr_currentQuestionIndex st < length (tr_questions st)
      \<and> tr_pending e = (if \<not> tr_isFinished st \<and> tr_selectedAnswer st \<noteq> None then 1 else 0)
      \<and> tr_timer e = (\<not> tr_isFinished st \<and> tr_selectedAnswer st = None))"

definition trivia_played :: "trivia_event \<Rightarrow> trivia_engine \<Rightarrow> trivia_engine res" where
  "trivia_played ev e = (if on_screen ev then trivia_step ev e else Inr e)"

interpretation trivia_tells: telling_engine tr_subject tr_state tr_isFinished trivia_played trivia_playing
proof unfold_locales
  fix e :: trivia_engine and ev
  assume p: "trivia_playing e"
  then have w: "trivia_wf e" and s: "subject_wf (tr_subject e)" by (simp_all add: trivia_playing_def trivia_wf_def Let_def)
  obtain e' where e': "trivia_step ev e = Inr e'" "trivia_wf e'" using trivia_step_wf [OF w] by blast
  have submit: "trivia_playing e' \<and> listeners (tr_subject e') = listeners (tr_subject e)
      \<and> (tr_state e' = tr_state e \<and> deliveries (tr_subject e') = deliveries (tr_subject e)
         \<or> \<not> tr_isFinished (tr_state e)
           \<and> (\<forall>l \<in> set (listeners (tr_subject e)). told l (tr_subject e') = told l (tr_subject e) @ [tr_state e']))"
    if "submitAnswer a e = Inr e'" for a
    using that p s e'(2) by (auto simp: submitAnswer_def trivia_playing_def trivia_notify_def stopTimer_def told_notify Let_def split: if_splits)
  show "\<exists>e'. trivia_played ev e = Inr e' \<and> trivia_playing e' \<and> listeners (tr_subject e') = listeners (tr_subject e)
      \<and> (tr_state e' = tr_state e \<and> deliveries (tr_subject e') = deliveries (tr_subject e)
         \<or> \<not> tr_isFinished (tr_state e)
           \<and> (\<forall>l \<in> set (listeners (tr_subject e)). told l (tr_subject e') = told l (tr_subject e) @ [tr_state e']))"
  proof (cases ev)
    case Tick
    show ?thesis
    proof (cases "tr_timer e \<and> tr_timeLeft (tr_state e) \<le> 0")
      case True
      then show ?thesis using submit [of "-1"] e' Tick by (simp add: trivia_played_def trivia_tick_def)
    next
      case False
      then show ?thesis using p s e' Tick
        by (auto simp: trivia_played_def trivia_tick_def trivia_playing_def trivia_notify_def told_notify Let_def split: if_splits)
    qed
  next
    case Fire
    then show ?thesis using p s e'
      by (auto simp: trivia_played_def trivia_fire_def nextQuestion_def trivia_playing_def trivia_notify_def startTimer_def stopTimer_def
          told_notify Let_def split: if_splits)
  next
    case (Submit a)
    then show ?thesis using submit [of a] e' by (simp add: trivia_played_def)
  qed (use p in \<open>simp_all add: trivia_played_def\<close>)
qed

definition puzzle_moved :: "int \<times> int \<Rightarrow> puzzle_engine \<Rightarrow> puzzle_engine res" where
  "puzzle_moved = (\<lambda>(i, j) e. Inr (reorderPieces i j e))"

interpretation puzzle_tells: telling_engine pz_subject pz_state pz_isFinished puzzle_moved puzzle_wf
proof unfold_locales
  fix e :: puzzle_engine and ev :: "int \<times> int"
  assume w: "puzzle_wf e"
  then have "subject_wf (pz_subject e)" by (simp add: puzzle_wf_def Let_def)
  then show "\<exists>e'. puzzle_moved ev e = Inr e' \<and> puzzle_wf e' \<and> listeners (pz_subject e') = listeners (pz_subject e)
      \<and> (pz_state e' = pz_state e \<and> deliveries (pz_subject e') = deliveries (pz_subject e)
         \<or> \<not> pz_isFinished (pz_state e)
           \<and> (\<forall>l \<in> set (listeners (pz_subject e)). told l (pz_subject e') = told l (pz_subject e) @ [pz_state e']))"
    using wf_reorderPieces [OF w]
    by (cases ev) (auto simp: puzzle_moved_def reorderPieces_def puzzle_notify_def told_notify Let_def)
qed

section \<open>The trivia component\<close>

text \<open>
  The effect depends on the questions and on \<open>onFinish\<close>: when they change it cleans up and starts a new engine. The engines left
  behind keep their timeouts, \<open>tg_old\<close> holds them. \<open>tg_status\<close> lists the calls of \<open>set_game_status\<close>.
\<close>

record trivia_game = "(trivia_engine, trivia_state) game_screen" +
  tg_old :: "trivia_engine list"
  tg_status :: "bool list"
  tg_mounted :: bool

definition trivia_call :: "(trivia_engine \<Rightarrow> trivia_engine res) \<Rightarrow> trivia_game \<Rightarrow> trivia_game res" where
  "trivia_call = screen_call tr_subject tr_isFinished tr_score"

definition trivia_effect :: "multiple_choice list \<Rightarrow> trivia_game \<Rightarrow> trivia_game res" where
  "trivia_effect questions g =
     bind_res (trivia_call (\<lambda>e. Inr (trivia_subscribe 0 e))
         (g\<lparr>tg_status := tg_status g @ [True], tg_mounted := True, gs_engine := trivia_new questions\<rparr>))
       (trivia_call (\<lambda>e. Inr (startTimer e)))"

definition trivia_cleanup :: "trivia_game \<Rightarrow> trivia_game" where
  "trivia_cleanup g = g\<lparr>tg_old := tg_old g @ [trivia_destroy (trivia_unsubscribe 0 (gs_engine g))],
     tg_status := tg_status g @ [False], tg_mounted := False\<rparr>"

definition trivia_game_start :: "multiple_choice list \<Rightarrow> trivia_game res" where
  "trivia_game_start questions = trivia_effect questions \<lparr>gs_engine = trivia_new questions, gs_shown = None, gs_reported = [],
     tg_old = [], tg_status = [], tg_mounted = False\<rparr>"

datatype button_variant = Primary | Danger | Outline

text \<open>The buttons of the options: text, variant and whether disabled.\<close>

definition option_variant :: "multiple_choice \<Rightarrow> int option \<Rightarrow> nat \<Rightarrow> button_variant" where
  "option_variant q selected idx =
     (case selected of
        None \<Rightarrow> Outline
      | Some a \<Rightarrow> if of_nat idx = mcq_correct_index q then Primary else if int idx = a then Danger else Outline)"

datatype trivia_view = Loading | Completed int
  | Asking rat nat nat int int string "string option" "(string \<times> button_variant \<times> bool) list"

definition trivia_bar :: "int \<Rightarrow> rat" where
  "trivia_bar timeLeft = fl (fl (of_int timeLeft / 30) * 100)"

definition trivia_render :: "trivia_state option \<Rightarrow> trivia_view res" where
  "trivia_render shown =
     (case shown of
        None \<Rightarrow> Inr Loading
      | Some st \<Rightarrow>
          if tr_isFinished st then Inr (Completed (tr_score st))
          else if tr_currentQuestionIndex st \<ge> length (tr_questions st) then Inl TypeErr
          else let q = tr_questions st ! tr_currentQuestionIndex st
               in Inr (Asking (trivia_bar (tr_timeLeft st)) (tr_currentQuestionIndex st + 1) (length (tr_questions st))
                    (tr_score st) (tr_timeLeft st) (mcq_question q)
                    (if mcq_media_url q = Some [] then None else mcq_media_url q)
                    (map (\<lambda>(idx, option). (option, option_variant q (tr_selectedAnswer st) idx, tr_selectedAnswer st \<noteq> None))
                       (enumerate 0 (mcq_options q)))))"

text \<open>What happens to the component: its engine's interval and timeout, clicks on the buttons that are shown, new props, the unmount,
  and the timers of the engines left behind.\<close>

datatype trivia_input = TiTick | TiTimeout | TiOption nat | TiAgain | TiProps "multiple_choice list" | TiUnmount
  | TiOldTick nat | TiOldTimeout nat

fun trivia_act :: "trivia_input \<Rightarrow> trivia_game \<Rightarrow> trivia_game res" where
  "trivia_act TiTick g = (if tg_mounted g then trivia_call (trivia_step Tick) g else Inr g)"
| "trivia_act TiTimeout g = (if tg_mounted g then trivia_call (trivia_step Fire) g else Inr g)"
| "trivia_act (TiOption idx) g =
     (case trivia_render (gs_shown g) of
        Inr (Asking _ _ _ _ _ _ _ buttons) \<Rightarrow>
          if tg_mounted g \<and> idx < length buttons \<and> \<not> snd (snd (buttons ! idx))
          then trivia_call (trivia_step (Submit (int idx))) g else Inr g
      | _ \<Rightarrow> Inr g)"
| "trivia_act TiAgain g =
     (case trivia_render (gs_shown g) of
        Inr (Completed _) \<Rightarrow> if tg_mounted g then trivia_call (trivia_step Reset) g else Inr g
      | _ \<Rightarrow> Inr g)"
| "trivia_act (TiProps questions) g = (if tg_mounted g then trivia_effect questions (trivia_cleanup g) else Inr g)"
| "trivia_act TiUnmount g = Inr (if tg_mounted g then trivia_cleanup g else g)"
| "trivia_act (TiOldTick k) g =
     (if k < length (tg_old g) then bind_res (trivia_tick (tg_old g ! k)) (\<lambda>e. Inr (g\<lparr>tg_old := (tg_old g)[k := e]\<rparr>)) else Inr g)"
| "trivia_act (TiOldTimeout k) g =
     Inr (if k < length (tg_old g) then g\<lparr>tg_old := (tg_old g)[k := trivia_fire (tg_old g ! k)]\<rparr> else g)"

section \<open>The trivia component stays in step\<close>

definition trivia_over :: "trivia_game \<Rightarrow> bool" where
  "trivia_over g = tr_isFinished (tr_state (gs_engine g))"

definition trivia_game_ok :: "trivia_game \<Rightarrow> bool" where
  "trivia_game_ok g \<longleftrightarrow> trivia_tells.in_step g \<and> list_all (\<lambda>e. trivia_wf e \<and> listeners (tr_subject e) = []) (tg_old g)
     \<and> tg_status g \<noteq> [] \<and> last (tg_status g) = tg_mounted g"

definition trivia_input_ok :: "trivia_input \<Rightarrow> bool" where
  "trivia_input_ok ev = (case ev of TiProps questions \<Rightarrow> questions \<noteq> [] | _ \<Rightarrow> True)"

lemma trivia_call_step:
  assumes "trivia_game_ok g" "on_screen ev"
  obtains g' where "trivia_call (trivia_step ev) g = Inr g'" "trivia_game_ok g'"
    "gs_reported g' = gs_reported g @ (if trivia_over g' \<and> \<not> trivia_over g then [tr_score (tr_state (gs_engine g'))] else [])"
    "trivia_over g \<longrightarrow> trivia_over g'"
proof -
  have i: "trivia_tells.in_step g" using assms(1) by (simp add: trivia_game_ok_def)
  have p: "trivia_played ev e = trivia_step ev e" for e using assms(2) by (simp add: trivia_played_def)
  obtain e' where e': "trivia_played ev (gs_engine g) = Inr e'" "tr_isFinished (tr_state (gs_engine g)) \<longrightarrow> tr_state e' = tr_state (gs_engine g)"
    "screen_call tr_subject tr_isFinished tr_score (trivia_played ev) g = Inr (g\<lparr>gs_engine := e', gs_shown := Some (tr_state e'),
        gs_reported := gs_reported g @ (if tr_isFinished (tr_state e') \<and> \<not> tr_isFinished (tr_state (gs_engine g)) then [tr_score (tr_state e')] else [])\<rparr>)"
    "\<forall>r. trivia_tells.in_step (g\<lparr>gs_engine := e', gs_shown := Some (tr_state e'), gs_reported := r\<rparr>)"
    by (rule trivia_tells.screen_step [OF i, of ev tr_score]) (rule that)
  have c: "trivia_call (trivia_step ev) = screen_call tr_subject tr_isFinished tr_score (trivia_played ev)"
    unfolding trivia_call_def by (rule arg_cong [where f = "screen_call tr_subject tr_isFinished tr_score"]) (simp add: p fun_eq_iff)
  let ?r = "gs_reported g @ (if tr_isFinished (tr_state e') \<and> \<not> tr_isFinished (tr_state (gs_engine g)) then [tr_score (tr_state e')] else [])"
  have ok: "trivia_game_ok (g\<lparr>gs_engine := e', gs_shown := Some (tr_state e'), gs_reported := ?r\<rparr>)"
    using spec [OF e'(4), of ?r] assms(1) by (simp add: trivia_game_ok_def)
  show thesis
    by (rule that [OF e'(3) [folded c] ok]) (simp add: trivia_over_def, use e'(2) in \<open>simp add: trivia_over_def\<close>)
qed

lemma trivia_effect_ok:
  assumes "questions \<noteq> []" "list_all (\<lambda>e. trivia_wf e \<and> listeners (tr_subject e) = []) (tg_old g)"
  shows "\<exists>g'. trivia_effect questions g = Inr g' \<and> trivia_game_ok g' \<and> gs_reported g' = gs_reported g \<and> \<not> trivia_over g'
    \<and> tg_mounted g'"
proof -
  let ?e = "startTimer (trivia_subscribe 0 (trivia_new questions))"
  let ?g = "g\<lparr>tg_status := tg_status g @ [True], tg_mounted := True, gs_engine := ?e, gs_shown := Some (tr_state ?e)\<rparr>"
  have f: "tr_isFinished (tr_state (trivia_new questions)) = False" using assms(1) by (simp add: trivia_new_def)
  have t: "told 0 (tr_subject (trivia_new questions)) = []" by (simp add: trivia_new_def told_def)
  have s: "told 0 (tr_subject (trivia_subscribe 0 (trivia_new questions))) = [tr_state (trivia_new questions)]"
    by (simp add: trivia_subscribe_def told_add t)
  have sub: "tr_subject (startTimer e) = tr_subject e" "tr_state (startTimer e) = tr_state e" for e
    by (simp_all add: startTimer_def stopTimer_def)
  have st: "tr_state (trivia_subscribe 0 e) = tr_state e" for e by (simp add: trivia_subscribe_def)
  have eff: "trivia_effect questions g = Inr ?g"
    by (simp add: trivia_effect_def trivia_call_def screen_call_def t s sub st screen_hears_def f)
  have "trivia_wf ?e" using trivia_step_wf [of _ Start] trivia_step_wf [OF trivia_new_wf, of "Subscribe 0"] by force
  then have "trivia_playing ?e" using assms(1)
    by (simp add: trivia_playing_def Let_def) (simp add: startTimer_def stopTimer_def trivia_subscribe_def trivia_new_def)
  then have "trivia_tells.in_step ?g" by (simp add: trivia_tells.in_step_def sub) (simp add: trivia_subscribe_def)
  then have "trivia_game_ok ?g" using assms(2) by (simp add: trivia_game_ok_def)
  then show ?thesis using eff by (simp add: trivia_over_def sub st f)
qed

lemma trivia_reset_ok:
  assumes "trivia_game_ok g" "trivia_over g"
  shows "\<exists>g'. trivia_call (trivia_step Reset) g = Inr g' \<and> trivia_game_ok g' \<and> gs_reported g' = gs_reported g \<and> \<not> trivia_over g'"
proof -
  let ?e = "gs_engine g"
  let ?e' = "trivia_reset ?e"
  let ?g = "g\<lparr>gs_engine := ?e', gs_shown := Some (tr_state ?e')\<rparr>"
  have p: "trivia_playing ?e" "0 \<in> set (listeners (tr_subject ?e))" and rest: "list_all (\<lambda>e. trivia_wf e \<and> listeners (tr_subject e) = []) (tg_old g)"
    "tg_status g \<noteq> []" "last (tg_status g) = tg_mounted g"
    using assms(1) by (simp_all add: trivia_game_ok_def trivia_tells.in_step_def)
  then have q: "tr_questions (tr_state ?e) \<noteq> []" "tr_pending ?e = 0" "subject_wf (tr_subject ?e)" "trivia_wf ?e"
    using assms(2) by (auto simp: trivia_playing_def trivia_wf_def trivia_over_def Let_def)
  have f: "\<not> tr_isFinished (tr_state ?e')" "listeners (tr_subject ?e') = listeners (tr_subject ?e)"
    "told 0 (tr_subject ?e') = told 0 (tr_subject ?e) @ [tr_state ?e']"
    using q p(2) by (simp_all add: trivia_reset_def trivia_notify_def startTimer_def stopTimer_def told_notify Let_def)
  have w: "trivia_wf ?e'" using trivia_step_wf [OF q(4), of Reset] by simp
  have "tr_pending ?e' = 0" "tr_timer ?e'" "tr_currentQuestionIndex (tr_state ?e') = 0" "tr_selectedAnswer (tr_state ?e') = None"
    "tr_questions (tr_state ?e') = tr_questions (tr_state ?e)"
    using q(2) by (simp_all add: trivia_reset_def trivia_notify_def startTimer_def stopTimer_def Let_def)
  then have "trivia_playing ?e'" using w f(1) q(1) by (simp add: trivia_playing_def Let_def)
  then have "trivia_game_ok ?g" using rest p(2) f(2) by (simp add: trivia_game_ok_def trivia_tells.in_step_def)
  moreover have "trivia_call (trivia_step Reset) g = Inr ?g"
    using f by (simp add: trivia_call_def screen_call_def screen_hears_def)
  ultimately show ?thesis using f(1) by (simp add: trivia_over_def)
qed

lemma old_engine_step:
  assumes "trivia_wf e" "listeners (tr_subject e) = []" "ev = Tick \<or> ev = Fire"
  shows "\<exists>e'. trivia_step ev e = Inr e' \<and> trivia_wf e' \<and> listeners (tr_subject e') = []"
proof -
  obtain e' where e': "trivia_step ev e = Inr e'" "trivia_wf e'" using trivia_step_wf [OF assms(1)] by blast
  then have "listeners (tr_subject e') = []" using assms(2,3)
    by (auto simp: trivia_tick_def trivia_fire_def submitAnswer_def nextQuestion_def trivia_notify_def startTimer_def stopTimer_def Let_def
        split: if_splits)
  with e' show ?thesis by blast
qed

lemma cleanup_old:
  assumes "trivia_game_ok g"
  shows "list_all (\<lambda>e. trivia_wf e \<and> listeners (tr_subject e) = []) (tg_old (trivia_cleanup g))"
proof -
  have w: "trivia_wf (gs_engine g)" using assms by (simp add: trivia_game_ok_def trivia_tells.in_step_def trivia_playing_def Let_def)
  have "trivia_wf (trivia_unsubscribe 0 (gs_engine g))" using trivia_step_wf [OF w, of "Unsubscribe 0"] by simp
  from trivia_step_wf [OF this, of Destroy] show ?thesis
    using assms by (simp add: trivia_cleanup_def trivia_game_ok_def) (simp add: trivia_destroy_def Let_def)
qed

lemma trivia_act_ok:
  assumes "trivia_game_ok g" "trivia_input_ok ev"
  obtains g' where "trivia_act ev g = Inr g'" "trivia_game_ok g'"
    "gs_reported g' = gs_reported g @ (if trivia_over g' \<and> \<not> trivia_over g then [tr_score (tr_state (gs_engine g'))] else [])"
proof -
  note give = that
  note step = trivia_call_step [OF assms(1)]
  have w: "trivia_playing (gs_engine g)" "gs_shown g = Some (tr_state (gs_engine g))"
    "list_all (\<lambda>e. trivia_wf e \<and> listeners (tr_subject e) = []) (tg_old g)"
    using assms(1) by (simp_all add: trivia_game_ok_def trivia_tells.in_step_def)
  have same: thesis if "trivia_act ev g = Inr g" by (rule give [OF that assms(1)]) simp
  have called: thesis if c: "on_screen e" "trivia_act ev g = trivia_call (trivia_step e) g" for e
  proof (rule step [OF c(1)])
    fix g'
    assume "trivia_call (trivia_step e) g = Inr g'" "trivia_game_ok g'"
      "gs_reported g' = gs_reported g @ (if trivia_over g' \<and> \<not> trivia_over g then [tr_score (tr_state (gs_engine g'))] else [])"
    then show thesis using c(2) by (intro give [of g']) simp_all
  qed
  have old: thesis if "k < length (tg_old g)" "trivia_step e (tg_old g ! k) = Inr e'" "trivia_wf e'" "listeners (tr_subject e') = []"
      "trivia_act ev g = Inr (g\<lparr>tg_old := (tg_old g)[k := e']\<rparr>)" for k e e'
  proof (rule give [OF \<open>trivia_act ev g = _\<close>])
    show "trivia_game_ok (g\<lparr>tg_old := (tg_old g)[k := e']\<rparr>)"
      using assms(1) \<open>k < length (tg_old g)\<close> \<open>trivia_wf e'\<close> \<open>listeners (tr_subject e') = []\<close>
      by (auto simp: trivia_game_ok_def trivia_tells.in_step_def list_all_length nth_list_update)
  qed (simp add: trivia_over_def)
  have oldk: "\<exists>e'. trivia_step e (tg_old g ! k) = Inr e' \<and> trivia_wf e' \<and> listeners (tr_subject e') = []"
    if "k < length (tg_old g)" "e = Tick \<or> e = Fire" for k e
    using old_engine_step [OF _ _ that(2), of "tg_old g ! k"] w(3) that(1) by (simp add: list_all_length)
  show thesis
  proof (cases ev)
    case TiTick
    then show ?thesis using same called [of Tick] by (cases "tg_mounted g") simp_all
  next
    case TiTimeout
    then show ?thesis using same called [of Fire] by (cases "tg_mounted g") simp_all
  next
    case (TiOption idx)
    have "trivia_act ev g = Inr g \<or> trivia_act ev g = trivia_call (trivia_step (Submit (int idx))) g"
      using TiOption by (simp split: sum.splits trivia_view.splits)
    then show ?thesis using same called [of "Submit (int idx)"] by auto
  next
    case TiAgain
    show ?thesis
    proof (cases "trivia_over g \<and> tg_mounted g")
      case True
      then have "trivia_act ev g = trivia_call (trivia_step Reset) g"
        using TiAgain w(2) by (simp add: trivia_render_def trivia_over_def)
      then show ?thesis using trivia_reset_ok [OF assms(1)] True give by auto
    next
      case False
      then show ?thesis using TiAgain w(2) same by (simp add: trivia_render_def trivia_over_def Let_def split: if_splits)
    qed
  next
    case (TiProps questions)
    then show ?thesis using same trivia_effect_ok [OF _ cleanup_old [OF assms(1)], of questions] assms(2) give
      by (cases "tg_mounted g") (auto simp: trivia_input_ok_def trivia_cleanup_def)
  next
    case TiUnmount
    have "trivia_game_ok (trivia_cleanup g)" using cleanup_old [OF assms(1)] assms(1)
      by (simp add: trivia_game_ok_def trivia_tells.in_step_def) (simp add: trivia_cleanup_def)
    then show ?thesis using TiUnmount same give [of "trivia_cleanup g"] by (cases "tg_mounted g") (simp_all add: trivia_over_def trivia_cleanup_def)
  next
    case (TiOldTick k)
    show ?thesis
    proof (cases "k < length (tg_old g)")
      case True
      then obtain e' where "trivia_step Tick (tg_old g ! k) = Inr e'" "trivia_wf e'" "listeners (tr_subject e') = []"
        using oldk [of k Tick] by auto
      then show ?thesis using old [of k Tick e'] True TiOldTick by simp
    qed (use same TiOldTick in simp)
  next
    case (TiOldTimeout k)
    show ?thesis
    proof (cases "k < length (tg_old g)")
      case True
      then obtain e' where "trivia_step Fire (tg_old g ! k) = Inr e'" "trivia_wf e'" "listeners (tr_subject e') = []"
        using oldk [of k Fire] by auto
      then show ?thesis using old [of k Fire e'] True TiOldTimeout by simp
    qed (use same TiOldTimeout in simp)
  qed
qed

lemma trivia_acts_ok:
  assumes "trivia_game_ok g" "list_all trivia_input_ok evs"
  shows "\<exists>g'. run_res trivia_act evs g = Inr g' \<and> trivia_game_ok g'"
proof (rule run_res_invariant [where P = trivia_game_ok and Q = trivia_input_ok, OF _ assms])
  fix ev g
  assume "trivia_game_ok g" "trivia_input_ok ev"
  then show "\<exists>g'. trivia_act ev g = Inr g' \<and> trivia_game_ok g'" by (rule trivia_act_ok) blast
qed

lemma trivia_start_ok:
  assumes "questions \<noteq> []"
  shows "\<exists>g. trivia_game_start questions = Inr g \<and> trivia_game_ok g \<and> gs_reported g = [] \<and> \<not> trivia_over g"
  using trivia_effect_ok [OF assms, of "\<lparr>gs_engine = trivia_new questions, gs_shown = None, gs_reported = [],
     tg_old = [], tg_status = [], tg_mounted = False\<rparr>"]
  by (auto simp: trivia_game_start_def)

lemma trivia_bar_range:
  assumes "0 \<le> t" "t \<le> 30"
  shows "0 \<le> trivia_bar t \<and> trivia_bar t \<le> 100"
proof (cases "t = 30")
  case True
  then show ?thesis using fl_of_int [of 1] fl_of_int [of 100] by (simp add: trivia_bar_def)
next
  case False
  then have t: "(0 :: rat) \<le> of_int t / 30" "(of_int t :: rat) / 30 \<le> 29 / 30" using assms by simp_all
  have lo: "0 \<le> fl (of_int t / 30)" by (rule fl_nonneg [OF t(1)])
  have "fl (of_int t / 30) \<le> 98 / 100" using fl_upper [OF t(1)] t(2) by simp
  then have "0 \<le> fl (of_int t / 30) * 100" "fl (of_int t / 30) * 100 \<le> 98" using lo by simp_all
  then show ?thesis using fl_nonneg [of "fl (of_int t / 30) * 100"] fl_upper [of "fl (of_int t / 30) * 100"] by (simp add: trivia_bar_def)
qed

section \<open>Properties of the trivia component\<close>

text \<open>C40: Whatever happens to a mounted trivia component (its interval and timeouts, clicks on the buttons it shows, replays, new
  questions, an unmount, and timers of engines it left behind) no error is raised, it shows the state of its engine, the
  rendering succeeds with the time bar between 0 and 100 percent, the last \<open>set_game_status\<close> call says whether
  it is mounted, and the next event reports a score exactly when it finishes the game.
\<close>

theorem trivia_screen_in_step:
  assumes "questions \<noteq> []" "\<forall>qs. TiProps qs \<in> set evs \<longrightarrow> qs \<noteq> []"
  shows "\<exists>g. bind_res (trivia_game_start questions) (run_res trivia_act evs) = Inr g
    \<and> gs_shown g = Some (tr_state (gs_engine g)) \<and> last (tg_status g) = tg_mounted g
    \<and> (\<exists>v. trivia_render (gs_shown g) = Inr v \<and>
          (case v of Loading \<Rightarrow> False
           | Completed score \<Rightarrow> tr_isFinished (tr_state (gs_engine g)) \<and> score = tr_score (tr_state (gs_engine g))
           | Asking bar number n score left question media buttons \<Rightarrow> 0 \<le> bar \<and> bar \<le> 100 \<and> 1 \<le> number \<and> number \<le> n))
    \<and> (\<forall>ev. ev \<noteq> TiProps [] \<longrightarrow> (\<exists>g'. trivia_act ev g = Inr g'
          \<and> gs_reported g' = gs_reported g
              @ (if tr_isFinished (tr_state (gs_engine g')) \<and> \<not> tr_isFinished (tr_state (gs_engine g))
                 then [tr_score (tr_state (gs_engine g'))] else [])))"
proof -
  obtain g0 where g0: "trivia_game_start questions = Inr g0" "trivia_game_ok g0"
    using trivia_start_ok [OF assms(1)] by blast
  have "list_all trivia_input_ok evs"
    using assms(2) by (auto simp: list_all_iff trivia_input_ok_def split: trivia_input.split)
  then obtain g where g: "run_res trivia_act evs g0 = Inr g" "trivia_game_ok g" using trivia_acts_ok [OF g0(2)] by blast
  let ?st = "tr_state (gs_engine g)"
  have ok: "gs_shown g = Some ?st" "last (tg_status g) = tg_mounted g" "trivia_playing (gs_engine g)"
    using g(2) by (simp_all add: trivia_game_ok_def trivia_tells.in_step_def)
  then have w: "tr_currentQuestionIndex ?st < length (tr_questions ?st)" "0 \<le> tr_timeLeft ?st" "tr_timeLeft ?st \<le> 30"
    by (simp_all add: trivia_playing_def trivia_wf_def Let_def)
  have view: "\<exists>v. trivia_render (gs_shown g) = Inr v \<and>
          (case v of Loading \<Rightarrow> False
           | Completed score \<Rightarrow> tr_isFinished ?st \<and> score = tr_score ?st
           | Asking bar number n score left question media buttons \<Rightarrow> 0 \<le> bar \<and> bar \<le> 100 \<and> 1 \<le> number \<and> number \<le> n)"
    using w trivia_bar_range [OF w(2,3)] by (simp add: trivia_render_def ok(1) Let_def)
  have "\<exists>g'. trivia_act ev g = Inr g' \<and> gs_reported g' = gs_reported g
      @ (if tr_isFinished (tr_state (gs_engine g')) \<and> \<not> tr_isFinished ?st then [tr_score (tr_state (gs_engine g'))] else [])"
    if "ev \<noteq> TiProps []" for ev
  proof -
    have "trivia_input_ok ev" using that by (auto simp: trivia_input_ok_def split: trivia_input.split)
    from trivia_act_ok [OF g(2) this] show ?thesis unfolding trivia_over_def by metis
  qed
  then show ?thesis using g0(1) g(1) ok(1,2) view by auto
qed

theorem trivia_screen_in_step_witness:
  "\<exists>g. bind_res (trivia_game_start [sample_question 1]) (run_res trivia_act [TiTick, TiOption 1, TiTimeout, TiAgain, TiUnmount]) = Inr g
    \<and> last (tg_status g) = tg_mounted g"
  using trivia_screen_in_step [of "[sample_question 1]" "[TiTick, TiOption 1, TiTimeout, TiAgain, TiUnmount]"] by auto

lemma trivia_acts_report:
  assumes "trivia_game_ok g" "list_all trivia_input_ok evs" "run_res trivia_act evs g = Inr g'"
  shows "\<exists>rest. gs_reported g' = gs_reported g @ rest"
  using assms
proof (induction evs arbitrary: g)
  case (Cons ev evs)
  then have e: "trivia_input_ok ev" "list_all trivia_input_ok evs" by simp_all
  show ?case
  proof (rule trivia_act_ok [OF Cons.prems(1) e(1)])
    fix g1
    assume g1: "trivia_act ev g = Inr g1" "trivia_game_ok g1"
      "gs_reported g1 = gs_reported g @ (if trivia_over g1 \<and> \<not> trivia_over g then [tr_score (tr_state (gs_engine g1))] else [])"
    have "run_res trivia_act evs g1 = Inr g'" using Cons.prems(3) g1(1) by simp
    from Cons.IH [OF g1(2) e(2) this] show "\<exists>rest. gs_reported g' = gs_reported g @ rest" unfolding g1(3) by auto
  qed
qed simp

text \<open>The result of a level with a trivia game is the score of the first finished round, however often the player
  starts again: the local page shows it, and the official page does what it does for that score and nothing more.
\<close>

theorem trivia_replay_keeps_result:
  assumes "questions \<noteq> []" "\<forall>qs. TiProps qs \<in> set (evs @ ev # rest) \<longrightarrow> qs \<noteq> []"
    and "bind_res (trivia_game_start questions) (run_res trivia_act evs) = Inr g1" "gs_reported g1 = []"
    and "trivia_act ev g1 = Inr g2" "gs_reported g2 \<noteq> []" "run_res trivia_act rest g2 = Inr g3"
    and "lp_level p = Some l" "\<not> lp_submitted p"
  shows "let score = of_int (tr_score (tr_state (gs_engine g2))); reports = map of_int (gs_reported g3) in
    lp_result (fold local_finish reports p) = Some score
    \<and> fold (finishLevel H levelId published) reports pc = finishLevel H levelId published score pc"
proof -
  have oks: "list_all trivia_input_ok (evs @ ev # rest)"
    using assms(2) by (auto simp: list_all_iff trivia_input_ok_def split: trivia_input.split)
  obtain g0 where g0: "trivia_game_start questions = Inr g0" "trivia_game_ok g0" using trivia_start_ok [OF assms(1)] by blast
  have i: "list_all trivia_input_ok evs" "trivia_input_ok ev" "list_all trivia_input_ok rest" using oks by simp_all
  obtain g where "run_res trivia_act evs g0 = Inr g" "trivia_game_ok g" using trivia_acts_ok [OF g0(2) i(1)] by blast
  then have g1: "trivia_game_ok g1" using assms(3) g0(1) by simp
  have g2: "trivia_game_ok g2 \<and> gs_reported g2 = [tr_score (tr_state (gs_engine g2))]"
  proof (rule trivia_act_ok [OF g1 i(2)])
    fix g'
    assume g': "trivia_act ev g1 = Inr g'" "trivia_game_ok g'"
      "gs_reported g' = gs_reported g1 @ (if trivia_over g' \<and> \<not> trivia_over g1 then [tr_score (tr_state (gs_engine g'))] else [])"
    have "g' = g2" using g'(1) assms(5) by simp
    then show ?thesis using g'(2,3) assms(4,6) by (simp split: if_splits)
  qed
  obtain r where "gs_reported g3 = gs_reported g2 @ r" using trivia_acts_report [OF conjunct1 [OF g2] i(3) assms(7)] by blast
  then have r: "map of_int (gs_reported g3) = (of_int (tr_score (tr_state (gs_engine g2))) :: rat) # map of_int r" using g2 by simp
  show ?thesis unfolding Let_def r local_closing.first_report official_closing.first_report
    using assms(8,9) by (simp add: local_finish_def)
qed

lemma sample_trivia_rounds:
  "case bind_res (trivia_game_start [sample_question 1]) (run_res trivia_act [TiOption 1]) of
     Inl _ \<Rightarrow> False
   | Inr g1 \<Rightarrow> gs_reported g1 = [] \<and> (case trivia_act TiTimeout g1 of
         Inl _ \<Rightarrow> False
       | Inr g2 \<Rightarrow> gs_reported g2 = [160] \<and> tr_score (tr_state (gs_engine g2)) = 160 \<and>
          (case run_res trivia_act [TiAgain, TiOption 0, TiTimeout] g2 of Inl _ \<Rightarrow> False | Inr g3 \<Rightarrow> gs_reported g3 = [160, 0]))"
  by (simp add: trivia_game_start_def trivia_effect_def trivia_call_def screen_call_def screen_hears_def trivia_render_def sample_question_def
      trivia_defs trivia_new_def told_def subject_add_def subject_notify_def new_subject_def)

theorem trivia_replay_keeps_result_witness:
  "\<exists>g3 :: trivia_game. gs_reported g3 = [160, 0] \<and> lp_result (fold local_finish (map of_int (gs_reported g3))
     \<lparr>lp_level = Some \<lparr>ll_id = None, ll_title = None, ll_difficulty = None, ll_template = None, ll_content = None, ll_color = None\<rparr>,
      lp_submitted = False, lp_result = None\<rparr>) = Some 160"
proof -
  let ?l = "\<lparr>ll_id = None, ll_title = None, ll_difficulty = None, ll_template = None, ll_content = None, ll_color = None\<rparr>"
  obtain g1 g2 g3 where g: "bind_res (trivia_game_start [sample_question 1]) (run_res trivia_act [TiOption 1]) = Inr g1" "gs_reported g1 = []"
    "trivia_act TiTimeout g1 = Inr g2" "gs_reported g2 \<noteq> []" "run_res trivia_act [TiAgain, TiOption 0, TiTimeout] g2 = Inr g3"
    and v: "gs_reported g3 = [160, 0]" "tr_score (tr_state (gs_engine g2)) = 160"
    using sample_trivia_rounds by (auto split: sum.splits)
  have "lp_result (fold local_finish (map of_int (gs_reported g3)) \<lparr>lp_level = Some ?l, lp_submitted = False, lp_result = None\<rparr>) = Some 160"
    using trivia_replay_keeps_result [OF _ _ g, where p = "\<lparr>lp_level = Some ?l, lp_submitted = False, lp_result = None\<rparr>" and l = ?l and published = False
        and H = "undefined :: unit host" and levelId = "[]" and pc = undefined] v(2)
    by (simp add: Let_def)
  with v(1) show ?thesis by blast
qed

section \<open>The puzzle component\<close>

text \<open>
  The engine is made once per phrase; the effect is run again when \<open>onFinish\<close> changes, on the same engine. A second effect copies the
  pieces of the shown state into the items that can be dragged.
\<close>

record puzzle_game = "(puzzle_engine, puzzle_state) game_screen" +
  pg_items :: "puzzle_piece list"
  pg_status :: "bool list"

definition puzzle_call :: "(puzzle_engine \<Rightarrow> puzzle_engine res) \<Rightarrow> puzzle_game \<Rightarrow> puzzle_game res" where
  "puzzle_call = screen_call pz_subject pz_isFinished pz_score"

text \<open>\<open>setItems(state.pieces)\<close>, run after a change of the shown state.\<close>

definition sync_items :: "puzzle_game \<Rightarrow> puzzle_game" where
  "sync_items g = (case gs_shown g of Some st \<Rightarrow> g\<lparr>pg_items := pz_pieces st\<rparr> | None \<Rightarrow> g)"

definition puzzle_effect :: "puzzle_game \<Rightarrow> puzzle_game res" where
  "puzzle_effect g =
     bind_res (puzzle_call (\<lambda>e. Inr (puzzle_subscribe 0 e))
         (g\<lparr>pg_status := pg_status g @ [True], gs_shown := Some (pz_state (gs_engine g))\<rparr>))
       (\<lambda>g. Inr (sync_items g))"

definition puzzle_cleanup :: "puzzle_game \<Rightarrow> puzzle_game" where
  "puzzle_cleanup g = g\<lparr>gs_engine := puzzle_destroy (puzzle_unsubscribe 0 (gs_engine g)), pg_status := pg_status g @ [False]\<rparr>"

definition puzzle_game_start :: "puzzle_engine \<Rightarrow> puzzle_game res" where
  "puzzle_game_start e = puzzle_effect \<lparr>gs_engine = e, gs_shown = Some (pz_state e), gs_reported = [],
     pg_items = pz_pieces (pz_state e), pg_status = []\<rparr>"

text \<open>\<open>handleReorder\<close> over the component's own copies.\<close>

definition shown_reorder :: "puzzle_piece list \<Rightarrow> puzzle_game \<Rightarrow> puzzle_game res" where
  "shown_reorder newItems g =
     (case diff_index (pg_items g) newItems of
        None \<Rightarrow> Inr g
      | Some diffIndex \<Rightarrow>
          (case find_index (\<lambda>p. piece_id p = piece_id (pg_items g ! diffIndex)) newItems of
             None \<Rightarrow> Inr g
           | Some newIndex \<Rightarrow>
               if map_option pz_isFinished (gs_shown g) \<noteq> Some False then Inr g
               else bind_res (puzzle_call (puzzle_moved (int diffIndex, int newIndex)) g) (\<lambda>g. Inr (sync_items g))))"

datatype puzzle_input = PiReorder "puzzle_piece list" | PiOnFinish

fun puzzle_act :: "puzzle_input \<Rightarrow> puzzle_game \<Rightarrow> puzzle_game res" where
  "puzzle_act (PiReorder newItems) g = shown_reorder newItems g"
| "puzzle_act PiOnFinish g = puzzle_effect (puzzle_cleanup g)"

definition puzzle_game_ok :: "puzzle_game \<Rightarrow> bool" where
  "puzzle_game_ok g \<longleftrightarrow>
     (let st = pz_state (gs_engine g) in
      puzzle_tells.in_step g \<and> pg_items g = pz_pieces st
      \<and> set (gs_reported g) = (if pz_isFinished st then {pz_score st} else {}))"

lemma puzzle_effect_ok:
  assumes "puzzle_wf (gs_engine g)"
    and "set (gs_reported g) = {} \<or> pz_isFinished (pz_state (gs_engine g)) \<and> set (gs_reported g) = {pz_score (pz_state (gs_engine g))}"
  shows "\<exists>g'. puzzle_effect g = Inr g' \<and> puzzle_game_ok g' \<and> pz_state (gs_engine g') = pz_state (gs_engine g)"
proof -
  let ?e = "puzzle_subscribe 0 (gs_engine g)" and ?st = "pz_state (gs_engine g)"
  let ?g = "g\<lparr>pg_status := pg_status g @ [True], gs_engine := ?e, gs_shown := Some ?st,
     gs_reported := gs_reported g @ (if pz_isFinished ?st then [pz_score ?st] else []), pg_items := pz_pieces ?st\<rparr>"
  have t: "told 0 (pz_subject ?e) = told 0 (pz_subject (gs_engine g)) @ [?st]" by (simp add: puzzle_subscribe_def told_add)
  have eff: "puzzle_effect g = Inr ?g"
    by (simp add: puzzle_effect_def puzzle_call_def screen_call_def t screen_hears_def sync_items_def)
  have e: "pz_state ?e = ?st" "0 \<in> set (listeners (pz_subject ?e))" by (simp_all add: puzzle_subscribe_def)
  have "puzzle_game_ok ?g" using wf_puzzle_listeners(1) [OF assms(1), of 0] assms(2) e
    by (auto simp: puzzle_game_ok_def puzzle_tells.in_step_def Let_def)
  then show ?thesis using eff e(1) by simp
qed

lemma puzzle_act_ok:
  assumes "puzzle_game_ok g"
  shows "\<exists>g'. puzzle_act ev g = Inr g' \<and> puzzle_game_ok g'"
proof (cases ev)
  case (PiReorder newItems)
  have i: "puzzle_tells.in_step g" using assms by (simp add: puzzle_game_ok_def Let_def)
  have s: "gs_shown g = Some (pz_state (gs_engine g))" using i by (simp add: puzzle_tells.in_step_def)
  show ?thesis
  proof (cases "puzzle_act ev g = Inr g")
    case True
    then show ?thesis using assms by blast
  next
    case False
    then obtain i j where f: "\<not> pz_isFinished (pz_state (gs_engine g))"
      and a: "puzzle_act ev g = bind_res (puzzle_call (puzzle_moved (i, j)) g) (\<lambda>g. Inr (sync_items g))"
      using PiReorder s by (auto simp: shown_reorder_def split: option.splits if_splits)
    show ?thesis
    proof (rule puzzle_tells.screen_step [OF i, of "(i, j)" pz_score])
      fix e'
      assume e': "screen_call pz_subject pz_isFinished pz_score (puzzle_moved (i, j)) g = Inr (g\<lparr>gs_engine := e', gs_shown := Some (pz_state e'),
          gs_reported := gs_reported g @ (if pz_isFinished (pz_state e') \<and> \<not> pz_isFinished (pz_state (gs_engine g)) then [pz_score (pz_state e')] else [])\<rparr>)"
        "\<forall>r. puzzle_tells.in_step (g\<lparr>gs_engine := e', gs_shown := Some (pz_state e'), gs_reported := r\<rparr>)"
      let ?r = "gs_reported g @ (if pz_isFinished (pz_state e') \<and> \<not> pz_isFinished (pz_state (gs_engine g)) then [pz_score (pz_state e')] else [])"
      have "gs_reported g = []" using assms f by (simp add: puzzle_game_ok_def Let_def)
      then have "puzzle_game_ok (sync_items (g\<lparr>gs_engine := e', gs_shown := Some (pz_state e'), gs_reported := ?r\<rparr>))"
        using spec [OF e'(2), of ?r] f by (simp add: puzzle_game_ok_def sync_items_def puzzle_tells.in_step_def Let_def)
      then show ?thesis by (simp add: a puzzle_call_def e'(1))
    qed
  qed
next
  case PiOnFinish
  have w: "puzzle_wf (gs_engine g)" using assms by (simp add: puzzle_game_ok_def puzzle_tells.in_step_def Let_def)
  have "puzzle_wf (gs_engine (puzzle_cleanup g))"
    using wf_puzzle_listeners(3) [OF wf_puzzle_listeners(2) [OF w, of 0]] by (simp add: puzzle_cleanup_def)
  moreover have "pz_state (gs_engine (puzzle_cleanup g)) = pz_state (gs_engine g)" "gs_reported (puzzle_cleanup g) = gs_reported g"
    by (simp_all add: puzzle_cleanup_def puzzle_destroy_def puzzle_unsubscribe_def)
  ultimately show ?thesis using puzzle_effect_ok [of "puzzle_cleanup g"] assms PiOnFinish
    by (auto simp: puzzle_game_ok_def Let_def split: if_splits)
qed

text \<open>
  Whatever is dragged and however often the effect runs again, the puzzle component shows the state of its engine and
  offers its pieces for dragging, and the scores it reports are exactly the final score, once the puzzle is finished;
  the local page shows that score.
\<close>

theorem puzzle_screen_in_step:
  assumes "puzzle_wf e" "\<not> pz_isFinished (pz_state e)" "lp_level p = Some l" "\<not> lp_submitted p"
  shows "\<exists>g. bind_res (puzzle_game_start e) (run_res puzzle_act evs) = Inr g
    \<and> gs_shown g = Some (pz_state (gs_engine g)) \<and> pg_items g = pz_pieces (pz_state (gs_engine g))
    \<and> set (gs_reported g) = (if pz_isFinished (pz_state (gs_engine g)) then {pz_score (pz_state (gs_engine g))} else {})
    \<and> (let p' = fold local_finish (map of_int (gs_reported g)) p in
        if pz_isFinished (pz_state (gs_engine g)) then lp_result p' = Some (of_int (pz_score (pz_state (gs_engine g)))) else p' = p)"
proof -
  obtain g0 where g0: "puzzle_game_start e = Inr g0" "puzzle_game_ok g0"
    using puzzle_effect_ok [of "\<lparr>gs_engine = e, gs_shown = Some (pz_state e), gs_reported = [],
     pg_items = pz_pieces (pz_state e), pg_status = []\<rparr>"] assms(1) by (auto simp: puzzle_game_start_def)
  obtain g where g: "run_res puzzle_act evs g0 = Inr g" "puzzle_game_ok g"
    using run_res_invariant [where P = puzzle_game_ok and Q = "\<lambda>_. True" and act = puzzle_act and s = g0 and evs = evs]
      puzzle_act_ok g0(2) by (auto simp: list_all_iff)
  let ?st = "pz_state (gs_engine g)" and ?p = "fold local_finish (map of_int (gs_reported g)) p"
  have ok: "gs_shown g = Some ?st" "pg_items g = pz_pieces ?st" "set (gs_reported g) = (if pz_isFinished ?st then {pz_score ?st} else {})"
    using g(2) by (simp_all add: puzzle_game_ok_def puzzle_tells.in_step_def Let_def)
  have "if pz_isFinished ?st then lp_result ?p = Some (of_int (pz_score ?st)) else ?p = p"
  proof (cases "gs_reported g")
    case Nil
    then show ?thesis using ok(3) by (auto split: if_splits)
  next
    case (Cons s ss)
    then have "pz_isFinished ?st" "s = pz_score ?st" using ok(3) by (auto split: if_splits)
    then show ?thesis using Cons assms(3,4) by (simp only: local_closing.first_report list.map list.case) (simp add: local_finish_def)
  qed
  then show ?thesis using g0(1) g(1) ok by (simp add: Let_def)
qed

theorem puzzle_screen_in_step_witness:
  "\<exists>g. bind_res (puzzle_game_start Puzzle.sample_puzzle) (run_res puzzle_act [PiOnFinish, PiReorder []]) = Inr g
    \<and> gs_shown g = Some (pz_state (gs_engine g))"
  using puzzle_screen_in_step [of Puzzle.sample_puzzle "\<lparr>lp_level = Some \<lparr>ll_id = None, ll_title = None, ll_difficulty = None,
     ll_template = None, ll_content = None, ll_color = None\<rparr>, lp_submitted = False, lp_result = None\<rparr>" _ "[PiOnFinish, PiReorder []]"]
    Puzzle.sample_puzzle_wf by (auto simp: Puzzle.sample_puzzle_def)

section \<open>The crossword on a page\<close>

text \<open>
  The crossword scene reports its end again after every later click; the page keeps the first score, which is ten points
  for every cell.
\<close>

lemma crossword_result_once:
  assumes "ly_grid (buildCrosswordLayout words) \<noteq> []" "lp_level p = Some lvl" "\<not> lp_submitted p"
  shows "let sc = fold scene_act evs (scene_create l (crossword_new words));
             p' = fold local_finish (map of_nat (xs_finished sc)) p;
             cells = ly_grid (buildCrosswordLayout words) in
    if list_all (cell_right (cs_userGrid (ce_state (xs_engine sc)))) cells
    then lp_result p' = Some (of_nat (10 * length cells)) else p' = p"
proof -
  let ?sc = "fold scene_act evs (scene_create l (crossword_new words))" and ?g = "ly_grid (buildCrosswordLayout words)"
  have "scene_shows (scene_create l (crossword_new words))"
    using assms crossword_new_inv by (intro scene_create_shows) (simp_all add: crossword_new_def)
  then have s: "scene_shows ?sc" by (rule scene_run_shows)
  moreover have "ce_layout (xs_engine ?sc) = buildCrosswordLayout words"
    unfolding scene_run_layout by (simp add: scene_create_def crossword_new_def crossword_subscribe_def Let_def)
  ultimately have f: "xs_finished ?sc \<noteq> [] \<longleftrightarrow> list_all (cell_right (cs_userGrid (ce_state (xs_engine ?sc)))) ?g"
    "\<forall>n \<in> set (xs_finished ?sc). n = 10 * length ?g"
    using assms by (auto simp: scene_shows_def attached_def ce_inv_def cs_inv_def Let_def)
  show ?thesis
  proof (cases "xs_finished ?sc")
    case Nil
    then show ?thesis using f(1) by (simp add: Let_def)
  next
    case (Cons n ns)
    then have "n = 10 * length ?g" "list_all (cell_right (cs_userGrid (ce_state (xs_engine ?sc)))) ?g" using f by auto
    moreover have "lp_result (fold local_finish (map of_nat (n # ns)) p) = Some (of_nat n)"
      by (simp only: local_closing.first_report list.map list.case) (use assms(2,3) in \<open>simp add: local_finish_def\<close>)
    ultimately show ?thesis using Cons by (simp add: Let_def)
  qed
qed

end
