(* ===== verification/AdminContent.thy ===== *)
theory AdminContent
  imports Levels Accounts
begin

text \<open>
  The administration of official content: the page \<open>src/features/content/AdminContentPage.tsx\<close> and the level form it opens
  (\<open>src/features/content/maker/LevelMakerForm.tsx\<close>, \<open>LevelMetadataForm.tsx\<close>). A GET request, and a POST without data,
  has the body \<open>null\<close>; path and body together determine the method. The two requests that
  \<open>loadContent\<close> starts together are run one after the other. Unknown keys, which a schema strips, are never read.
\<close>

section \<open>The page\<close>

record section_edit =
  se_id :: string
  se_title :: string
  se_description :: string
  se_color :: string

datatype admin_error = ServerError shown_error | ShapeError | BadFormat | BadFile

record admin_page =
  ad_sections :: "json list"
  ad_levels :: "json list"
  ad_sectionTitle :: string
  ad_sectionDescription :: string
  ad_sectionColor :: string
  ad_editingSection :: "section_edit option"
  ad_error :: "admin_error option"
  ad_showMaker :: bool
  ad_makerInitialData :: "json option"
  ad_expanded :: "string \<Rightarrow> bool"

definition admin_new :: admin_page where
  "admin_new = \<lparr>ad_sections = [], ad_levels = [], ad_sectionTitle = [], ad_sectionDescription = [], ad_sectionColor = ''#18529D'',
     ad_editingSection = None, ad_error = None, ad_showMaker = False, ad_makerInitialData = None, ad_expanded = (\<lambda>_. False)\<rparr>"

definition section_of :: "json \<Rightarrow> string" where
  "section_of lvl = string_or [] (js_prop ''section_id'' lvl)"

text \<open>The section identifiers are UUIDs, so none is the name of an inherited property.\<close>

definition group_level :: "(string \<Rightarrow> json list option) \<Rightarrow> json \<Rightarrow> string \<Rightarrow> json list option" where
  "group_level groups lvl =
     (let k = section_of lvl; old = (case groups k of None \<Rightarrow> [] | Some ls \<Rightarrow> ls) in groups(k \<mapsto> old @ [lvl]))"

definition levelsBySection :: "json list \<Rightarrow> string \<Rightarrow> json list option" where
  "levelsBySection levels = foldl group_level (\<lambda>_. None) levels"

definition shown_levels :: "admin_page \<Rightarrow> string \<Rightarrow> json list" where
  "shown_levels p i = (case levelsBySection (ad_levels p) i of Some ls \<Rightarrow> ls | None \<Rightarrow> [])"

definition toggleSection :: "string \<Rightarrow> admin_page \<Rightarrow> admin_page" where
  "toggleSection i p = p\<lparr>ad_expanded := (ad_expanded p)(i := \<not> ad_expanded p i)\<rparr>"

definition request_error :: "http_result \<Rightarrow> admin_error" where
  "request_error r = (case r of HttpError _ problem \<Rightarrow> ServerError (errorMessage problem) | _ \<Rightarrow> ServerError FallbackMsg)"

definition items_of :: "json \<Rightarrow> json list" where
  "items_of data = js_items ''items'' data"

definition loadContent :: "'w host \<Rightarrow> admin_page \<times> 'w client \<Rightarrow> admin_page \<times> 'w client" where
  "loadContent H = (\<lambda>(p, c).
     let p = p\<lparr>ad_error := None\<rparr>;
         (r1, c) = api_request H False ''/sections?include_unpublished=true'' JNull c;
         (r2, c) = api_request H False ''/levels?include_unpublished=true&page_size=50'' JNull c
     in (case (r1, r2) of
           (HttpOk sectionData, HttpOk levelData) \<Rightarrow>
             (if \<not> h_accepts H lib_SectionsResponseSchema (Some sectionData) then p\<lparr>ad_error := Some ShapeError\<rparr>
              else let p = p\<lparr>ad_sections := items_of sectionData\<rparr>
                   in if \<not> h_accepts H lib_LevelsPageDTOSchema (Some levelData) then p\<lparr>ad_error := Some ShapeError\<rparr>
                      else p\<lparr>ad_levels := items_of levelData\<rparr>)
         | (HttpOk _, _) \<Rightarrow> p\<lparr>ad_error := Some (request_error r2)\<rparr>
         | _ \<Rightarrow> p\<lparr>ad_error := Some (request_error r1)\<rparr>, c))"

definition createSection :: "'w host \<Rightarrow> admin_page \<times> 'w client \<Rightarrow> admin_page \<times> 'w client" where
  "createSection H = (\<lambda>(p, c).
     let p = p\<lparr>ad_error := None\<rparr>;
         (r, c) = api_request H False ''/sections'' (JObj [(''title'', JStr (ad_sectionTitle p)),
           (''description'', JStr (ad_sectionDescription p)), (''color'', JStr (ad_sectionColor p))]) c
     in case r of
          HttpOk _ \<Rightarrow> loadContent H (p\<lparr>ad_sectionTitle := [], ad_sectionDescription := []\<rparr>, c)
        | _ \<Rightarrow> (p\<lparr>ad_error := Some (request_error r)\<rparr>, c))"

definition saveSectionEdit :: "'w host \<Rightarrow> admin_page \<times> 'w client \<Rightarrow> admin_page \<times> 'w client" where
  "saveSectionEdit H = (\<lambda>(p, c).
     case ad_editingSection p of
       None \<Rightarrow> (p, c)
     | Some e \<Rightarrow>
         let p = p\<lparr>ad_error := None\<rparr>;
             (r, c) = api_request H False (''/sections/'' @ se_id e) (JObj [(''title'', JStr (se_title e)),
               (''description'', JStr (se_description e)), (''color'', JStr (se_color e))]) c
         in case r of
              HttpOk _ \<Rightarrow> loadContent H (p\<lparr>ad_editingSection := None\<rparr>, c)
            | _ \<Rightarrow> (p\<lparr>ad_error := Some (request_error r)\<rparr>, c))"

text \<open>A property that is absent stays absent.\<close>

definition field :: "string \<Rightarrow> json option \<Rightarrow> (string \<times> json) list" where
  "field k v = (case v of None \<Rightarrow> [] | Some j \<Rightarrow> [(k, j)])"

definition edit_data :: "json \<Rightarrow> json" where
  "edit_data data = JObj (field ''id'' (js_prop ''id'' data) @ field ''section_id'' (js_prop ''section_id'' data)
     @ field ''title'' (js_prop ''title'' data) @ field ''color'' (js_prop ''color'' data)
     @ field ''difficulty'' (js_prop ''difficulty'' data) @ field ''templateType'' (js_prop ''template_type'' data)
     @ field ''content'' (js_prop ''content'' data))"

definition startLevelEdit :: "'w host \<Rightarrow> string \<Rightarrow> admin_page \<times> 'w client \<Rightarrow> admin_page \<times> 'w client" where
  "startLevelEdit H levelID = (\<lambda>(p, c).
     let p = p\<lparr>ad_error := None\<rparr>;
         (r, c) = api_request H False (''/levels/'' @ levelID) JNull c
     in (case r of
           HttpOk data \<Rightarrow>
             (if data = JNull then p\<lparr>ad_error := Some (ServerError TypeErrorMsg)\<rparr>
              else p\<lparr>ad_makerInitialData := Some (edit_data data), ad_showMaker := True\<rparr>)
         | _ \<Rightarrow> p\<lparr>ad_error := Some (request_error r)\<rparr>, c))"

text \<open>Identifiers are strings; what a template literal makes of any other JSON value is the parameter \<open>text_of\<close>.\<close>

definition js_text :: "(json \<Rightarrow> string) \<Rightarrow> json option \<Rightarrow> string" where
  "js_text text_of v = (case v of Some (JStr s) \<Rightarrow> s | Some j \<Rightarrow> text_of j | None \<Rightarrow> ''undefined'')"

definition maker_url :: "(json \<Rightarrow> string) \<Rightarrow> json option \<Rightarrow> string" where
  "maker_url text_of initial =
     (let i = Option.bind initial (js_prop ''id'')
      in if \<not> falsy_value i then ''/levels/'' @ js_text text_of i else ''/levels'')"

text \<open>\<open>handleMakerSave\<close>; the answer that it rethrows is returned.\<close>

definition handleMakerSave ::
    "'w host \<Rightarrow> (json \<Rightarrow> string) \<Rightarrow> json \<Rightarrow> admin_page \<times> 'w client \<Rightarrow> http_result option \<times> admin_page \<times> 'w client" where
  "handleMakerSave H text_of data = (\<lambda>(p, c).
     let (r, c) = api_request H False (maker_url text_of (ad_makerInitialData p)) data c
     in case r of
          HttpOk _ \<Rightarrow> (None, loadContent H (p\<lparr>ad_showMaker := False, ad_makerInitialData := None\<rparr>, c))
        | _ \<Rightarrow> (Some r, p\<lparr>ad_error := Some (request_error r)\<rparr>, c))"

definition cancelMaker :: "admin_page \<Rightarrow> admin_page" where
  "cancelMaker p = p\<lparr>ad_showMaker := False, ad_makerInitialData := None\<rparr>"

text \<open>\<open>v || d\<close>.\<close>

definition or_value :: "json option \<Rightarrow> json \<Rightarrow> json" where
  "or_value v d = (case v of Some j \<Rightarrow> if falsy_value v then d else j | None \<Rightarrow> d)"

definition imported_data :: "json \<Rightarrow> json \<Rightarrow> json" where
  "imported_data metadata content = JObj [(''section_id'', JStr []), (''title'', or_value (js_prop ''title'' metadata) (JStr [])),
     (''color'', or_value (js_prop ''color'' metadata) (JStr ''#18529D'')),
     (''difficulty'', or_value (js_prop ''difficulty'' metadata) (JStr ''medium'')),
     (''templateType'', or_value (js_prop ''templateType'' metadata) (JStr ''memory'')), (''content'', content)]"

text \<open>\<open>onFileSelected\<close> with the value the file parses to, \<open>None\<close> if it is not JSON or cannot be read.\<close>

definition onFileSelected :: "json option \<Rightarrow> admin_page \<Rightarrow> admin_page" where
  "onFileSelected parsed p =
     (case parsed of
        None \<Rightarrow> p\<lparr>ad_error := Some BadFile\<rparr>
      | Some data \<Rightarrow>
          (case (js_prop ''metadata'' data, js_prop ''content'' data) of
             (Some m, Some content) \<Rightarrow>
               if falsy_value (Some m) \<or> falsy_value (Some content) then p\<lparr>ad_error := Some BadFormat\<rparr>
               else p\<lparr>ad_makerInitialData := Some (imported_data m content), ad_showMaker := True\<rparr>
           | _ \<Rightarrow> p\<lparr>ad_error := Some BadFormat\<rparr>))"

text \<open>The six one-line actions: the request, and if it succeeds a reload; a failure is not caught.\<close>

definition post_then_load :: "'w host \<Rightarrow> string \<Rightarrow> admin_page \<times> 'w client \<Rightarrow> admin_page \<times> 'w client" where
  "post_then_load H url = (\<lambda>(p, c).
     let (r, c) = api_request H False url JNull c in case r of HttpOk _ \<Rightarrow> loadContent H (p, c) | _ \<Rightarrow> (p, c))"

definition publishSection :: "'w host \<Rightarrow> string \<Rightarrow> admin_page \<times> 'w client \<Rightarrow> admin_page \<times> 'w client" where
  "publishSection H i = post_then_load H (''/sections/'' @ i @ ''/publish'')"

definition archiveSection :: "'w host \<Rightarrow> string \<Rightarrow> admin_page \<times> 'w client \<Rightarrow> admin_page \<times> 'w client" where
  "archiveSection H i = post_then_load H (''/sections/'' @ i @ ''/archive'')"

definition publishLevel :: "'w host \<Rightarrow> string \<Rightarrow> admin_page \<times> 'w client \<Rightarrow> admin_page \<times> 'w client" where
  "publishLevel H i = post_then_load H (''/levels/'' @ i @ ''/publish'')"

definition unpublishSection :: "'w host \<Rightarrow> string \<Rightarrow> admin_page \<times> 'w client \<Rightarrow> admin_page \<times> 'w client" where
  "unpublishSection H i = post_then_load H (''/sections/'' @ i @ ''/unpublish'')"

definition unpublishLevel :: "'w host \<Rightarrow> string \<Rightarrow> admin_page \<times> 'w client \<Rightarrow> admin_page \<times> 'w client" where
  "unpublishLevel H i = post_then_load H (''/levels/'' @ i @ ''/unpublish'')"

definition archiveLevel :: "'w host \<Rightarrow> string \<Rightarrow> admin_page \<times> 'w client \<Rightarrow> admin_page \<times> 'w client" where
  "archiveLevel H i = post_then_load H (''/levels/'' @ i @ ''/archive'')"

section \<open>The level form\<close>

record level_form =
  lf_initial :: "json option"
  lf_title :: json
  lf_color :: json
  lf_difficulty :: json
  lf_sectionId :: json
  lf_templateType :: template_type
  lf_content :: json
  lf_submitError :: "json option option"

text \<open>\<open>v ?? d\<close>.\<close>

definition nullish_or :: "json option \<Rightarrow> json \<Rightarrow> json" where
  "nullish_or v d = (case v of None \<Rightarrow> d | Some j \<Rightarrow> if j = JNull then d else j)"

definition initial_prop :: "string \<Rightarrow> json option \<Rightarrow> json option" where
  "initial_prop k initial = Option.bind initial (js_prop k)"

definition resolveTemplateType :: "json option \<Rightarrow> template_type" where
  "resolveTemplateType initial =
     (let raw = nullish_or (initial_prop ''template_type'' initial) (nullish_or (initial_prop ''templateType'' initial) (JStr ''trivia''))
      in case Option.bind (string_opt (Some raw)) template_of_name of Some t \<Rightarrow> t | None \<Rightarrow> TTrivia)"

text \<open>\<open>JSON.parse\<close> is the parameter \<open>parse\<close>.\<close>

definition resolveContent :: "(string \<Rightarrow> json option) \<Rightarrow> json \<Rightarrow> json option \<Rightarrow> json" where
  "resolveContent parse defaults initial =
     (if falsy_value initial then defaults
      else case initial_prop ''content'' initial of
             None \<Rightarrow> defaults
           | Some JNull \<Rightarrow> defaults
           | Some (JStr s) \<Rightarrow> (case parse s of Some j \<Rightarrow> j | None \<Rightarrow> defaults)
           | Some raw \<Rightarrow> raw)"

definition first_section :: "json list \<Rightarrow> json" where
  "first_section sections = (case sections of [] \<Rightarrow> JStr [] | s # _ \<Rightarrow> nullish_or (js_prop ''id'' s) (JStr []))"

definition level_form_new :: "(template_type \<Rightarrow> json) \<Rightarrow> (string \<Rightarrow> json option) \<Rightarrow> json list \<Rightarrow> json option \<Rightarrow> level_form" where
  "level_form_new defaults parse sections initial =
     \<lparr>lf_initial = initial, lf_title = nullish_or (initial_prop ''title'' initial) (JStr []),
      lf_color = nullish_or (initial_prop ''color'' initial) (JStr ''#28AD56''),
      lf_difficulty = nullish_or (initial_prop ''difficulty'' initial) (JNum 1),
      lf_sectionId = nullish_or (initial_prop ''section_id'' initial) (first_section sections),
      lf_templateType = resolveTemplateType initial,
      lf_content = resolveContent parse (defaults (resolveTemplateType initial)) initial, lf_submitError = None\<rparr>"

definition isEditing :: "level_form \<Rightarrow> bool" where
  "isEditing f = (\<not> falsy_value (lf_initial f))"

definition form_errors :: "(zschema \<Rightarrow> json option \<Rightarrow> bool) \<Rightarrow> level_form \<Rightarrow> bool" where
  "form_errors accepts f = (\<not> accepts (registry_schema (lf_templateType f)) (Some (lf_content f)))"

definition form_changeTemplate :: "(template_type \<Rightarrow> json) \<Rightarrow> template_type \<Rightarrow> level_form \<Rightarrow> level_form" where
  "form_changeTemplate defaults newType f =
     (let f' = f\<lparr>lf_templateType := newType\<rparr>;
          old = or_value (initial_prop ''template_type'' (lf_initial f)) (nullish_or (initial_prop ''templateType'' (lf_initial f)) JNull)
      in if \<not> isEditing f \<and> JStr (template_name newType) \<noteq> old then f'\<lparr>lf_content := defaults newType\<rparr> else f')"

definition form_changeSection :: "json list \<Rightarrow> string \<Rightarrow> level_form \<Rightarrow> level_form" where
  "form_changeSection sections newId f =
     (let f = f\<lparr>lf_sectionId := JStr newId\<rparr>
      in case find (\<lambda>s. js_prop ''id'' s = Some (JStr newId)) sections of
           Some s \<Rightarrow> f\<lparr>lf_color := nullish_or (js_prop ''color'' s) JNull\<rparr>
         | None \<Rightarrow> f)"

text \<open>What the user can do in the form. The section and the template cannot be chosen while an existing level is edited.\<close>

datatype form_event = ChooseSection string | TypeTitle string | TypeDifficulty rat | PickColor string
  | ChooseTemplate template_type | EditContent json

fun form_act :: "(template_type \<Rightarrow> json) \<Rightarrow> json list \<Rightarrow> form_event \<Rightarrow> level_form \<Rightarrow> level_form" where
  "form_act defaults sections (ChooseSection i) f = (if isEditing f then f else form_changeSection sections i f)"
| "form_act defaults sections (TypeTitle s) f = f\<lparr>lf_title := JStr s\<rparr>"
| "form_act defaults sections (TypeDifficulty d) f = f\<lparr>lf_difficulty := JNum d\<rparr>"
| "form_act defaults sections (PickColor s) f = f\<lparr>lf_color := JStr s\<rparr>"
| "form_act defaults sections (ChooseTemplate t) f = (if isEditing f then f else form_changeTemplate defaults t f)"
| "form_act defaults sections (EditContent j) f = f\<lparr>lf_content := j\<rparr>"

definition level_body :: "level_form \<Rightarrow> json" where
  "level_body f = JObj [(''section_id'', lf_sectionId f), (''title'', lf_title f), (''color'', lf_color f),
     (''difficulty'', lf_difficulty f), (''template_type'', JStr (template_name (lf_templateType f))), (''content'', lf_content f)]"

text \<open>What \<open>handleSave\<close> passes to \<open>onSave\<close>, if its guard lets it.\<close>

definition form_saved :: "(zschema \<Rightarrow> json option \<Rightarrow> bool) \<Rightarrow> level_form \<Rightarrow> json option" where
  "form_saved accepts f =
     (if form_errors accepts f \<or> falsy_value (Some (lf_title f)) \<or> falsy_value (Some (lf_sectionId f)) then None
      else Some (level_body f))"

text \<open>The error shown is the server's detail or, as \<open>Some None\<close>, the text of the exception.\<close>

definition submit_error :: "http_result \<Rightarrow> json option" where
  "submit_error r = (case r of HttpError _ problem \<Rightarrow>
       (let d = js_prop ''detail'' problem in if falsy_value d then None else d) | _ \<Rightarrow> None)"

definition handleSave ::
    "'w host \<Rightarrow> (json \<Rightarrow> string) \<Rightarrow> level_form \<times> admin_page \<times> 'w client \<Rightarrow> level_form \<times> admin_page \<times> 'w client" where
  "handleSave H text_of = (\<lambda>(f, p, c).
     case form_saved (h_accepts H) f of
       None \<Rightarrow> (f, p, c)
     | Some body \<Rightarrow>
         let (failed, p, c) = handleMakerSave H text_of body (p, c)
         in (f\<lparr>lf_submitError := map_option submit_error failed\<rparr>, p, c))"

section \<open>What the form keeps\<close>

definition form_run :: "(template_type \<Rightarrow> json) \<Rightarrow> json list \<Rightarrow> form_event list \<Rightarrow> level_form \<Rightarrow> level_form" where
  "form_run defaults sections evs f = foldl (\<lambda>f e. form_act defaults sections e f) f evs"

lemma form_run_simps [simp]:
  "form_run defaults sections [] f = f"
  "form_run defaults sections (e # evs) f = form_run defaults sections evs (form_act defaults sections e f)"
  by (simp_all add: form_run_def)

text \<open>While an existing level is edited its section and its template stay.\<close>

lemma edit_keeps:
  "isEditing f \<Longrightarrow> lf_initial (form_run defaults sections evs f) = lf_initial f
     \<and> lf_sectionId (form_run defaults sections evs f) = lf_sectionId f
     \<and> lf_templateType (form_run defaults sections evs f) = lf_templateType f"
proof (induction evs arbitrary: f)
  case (Cons e evs)
  have keep: "isEditing (form_act defaults sections e f)" "lf_initial (form_act defaults sections e f) = lf_initial f"
    "lf_sectionId (form_act defaults sections e f) = lf_sectionId f"
    "lf_templateType (form_act defaults sections e f) = lf_templateType f"
    using Cons.prems by (cases e; simp add: isEditing_def)+
  show ?case using Cons.IH [OF keep(1)] keep(2-4) by simp
qed simp

lemma isEditing_new [simp]: "isEditing (level_form_new defaults parse sections (Some (JObj kvs)))"
  by (simp add: isEditing_def level_form_new_def falsy_value_def)

text \<open>C28: A level shared from the maker can never become an official one: the administration page accepts the file that the
  maker exported, opens the form with the template memory whatever the level is (it looks for
  \<open>templateType\<close>, the file says \<open>template_type\<close>), and the section is empty while the form counts as
  editing, which locks the choice of the section; so no sequence of inputs makes the save button send
  anything.\<close>

theorem community_level_never_saved:
  assumes "onExport accepts now m = Some exported" "\<not> falsy_value (Some (mk_content m))"
  shows "\<exists>initial. onFileSelected (Some exported) p = p\<lparr>ad_makerInitialData := Some initial, ad_showMaker := True\<rparr>
    \<and> lf_templateType (level_form_new defaults parse sections (Some initial)) = TMemory
    \<and> (\<forall>evs. form_saved accepts' (form_run defaults sections evs (level_form_new defaults parse sections (Some initial))) = None)"
proof -
  let ?m = "json_of_metadata (mk_metadata m) now"
  let ?i = "imported_data ?m (mk_content m)"
  let ?f = "level_form_new defaults parse sections (Some ?i)"
  have exp: "exported = level_export m now" using assms(1) by (simp add: onExport_def split: if_splits)
  have meta: "js_prop ''metadata'' exported = Some ?m" "js_prop ''content'' exported = Some (mk_content m)" "\<not> falsy_value (Some ?m)"
    by (simp_all add: exp level_export_def js_prop_def json_of_metadata_def falsy_value_def)
  have none: "js_prop ''templateType'' ?m = None" by (simp add: json_of_metadata_def js_prop_def)
  have obj: "\<exists>kvs. ?i = JObj kvs" by (simp add: imported_data_def)
  have i: "?i = JObj [(''section_id'', JStr []), (''title'', or_value (js_prop ''title'' ?m) (JStr [])),
     (''color'', or_value (js_prop ''color'' ?m) (JStr ''#18529D'')), (''difficulty'', or_value (js_prop ''difficulty'' ?m) (JStr ''medium'')),
     (''templateType'', JStr ''memory''), (''content'', mk_content m)]"
    by (simp add: imported_data_def none or_value_def)
  have t: "lf_templateType ?f = TMemory"
    unfolding i by (simp add: level_form_new_def resolveTemplateType_def initial_prop_def nullish_or_def js_prop_def)
      (simp add: template_of_name_def all_templates_def)
  have "lf_sectionId ?f = JStr []"
    by (simp add: level_form_new_def initial_prop_def nullish_or_def imported_data_def js_prop_def)
  moreover have "isEditing ?f" using obj by auto
  ultimately have "form_saved accepts' (form_run defaults sections evs ?f) = None" for evs
    using edit_keeps [of ?f defaults sections evs] by (simp add: form_saved_def falsy_value_def)
  moreover have "onFileSelected (Some exported) p = p\<lparr>ad_makerInitialData := Some ?i, ad_showMaker := True\<rparr>"
    using meta assms(2) by (simp add: onFileSelected_def)
  ultimately show ?thesis using t by blast
qed

theorem community_level_never_saved_witness:
  "\<exists>initial. onFileSelected (Some (level_export sample_maker ''now'')) admin_new
      = admin_new\<lparr>ad_makerInitialData := Some initial, ad_showMaker := True\<rparr>
    \<and> form_saved (conforms accept_any accept_any)
        (level_form_new (\<lambda>_. JNull) (\<lambda>_. None) [JObj [(''id'', JStr ''s1''), (''color'', JStr ''#000000'')]] (Some initial)) = None"
proof -
  have "onExport (conforms accept_any accept_any) ''now'' sample_maker = Some (level_export sample_maker ''now'')" by code_simp
  moreover have "\<not> falsy_value (Some (mk_content sample_maker))"
    by (simp add: sample_maker_def sample_puzzle_def falsy_value_def)
  ultimately obtain initial where
    i: "onFileSelected (Some (level_export sample_maker ''now'')) admin_new
      = admin_new\<lparr>ad_makerInitialData := Some initial, ad_showMaker := True\<rparr>"
    and never: "\<forall>evs. form_saved (conforms accept_any accept_any)
        (form_run (\<lambda>_. JNull) [JObj [(''id'', JStr ''s1''), (''color'', JStr ''#000000'')]] evs
          (level_form_new (\<lambda>_. JNull) (\<lambda>_. None) [JObj [(''id'', JStr ''s1''), (''color'', JStr ''#000000'')]] (Some initial))) = None"
    using community_level_never_saved by blast
  from i never [THEN spec, of "[]"] show ?thesis by auto
qed

section \<open>Editing an official level\<close>

definition level_json :: "string \<Rightarrow> string \<Rightarrow> string \<Rightarrow> string \<Rightarrow> rat \<Rightarrow> template_type \<Rightarrow> json \<Rightarrow> json" where
  "level_json i section title color difficulty template content = JObj [(''section_id'', JStr section), (''title'', JStr title),
     (''color'', JStr color), (''difficulty'', JNum difficulty), (''template_type'', JStr (template_name template)),
     (''content'', content)]"

text \<open>C27: Editing is lossless: opening an official level in the form and saving it without a change sends back to the same
  level exactly the section, title, colour, difficulty, template and content the server gave; and
  whatever is changed in between, what is sent goes to that level and keeps its section and template.\<close>

theorem edit_sends_back_level:
  assumes "api_request H False (''/levels/'' @ i) JNull c = (HttpOk level, c1)"
    and "js_prop ''id'' level = Some (JStr i)" "i \<noteq> []" "js_prop ''section_id'' level = Some (JStr section)" "section \<noteq> []"
    and "js_prop ''title'' level = Some (JStr title)" "title \<noteq> []" "js_prop ''color'' level = Some (JStr color)"
    and "js_prop ''difficulty'' level = Some (JNum difficulty)" "js_prop ''template_type'' level = Some (JStr (template_name template))"
    and "js_prop ''content'' level = Some content" "content \<noteq> JNull" "\<forall>s. content \<noteq> JStr s"
    and "accepts (registry_schema template) (Some content)"
  shows "case startLevelEdit H i (p, c) of (p1, c') \<Rightarrow>
    (let f = level_form_new defaults parse (ad_sections p1) (ad_makerInitialData p1) in
       ad_showMaker p1 \<and> maker_url text_of (ad_makerInitialData p1) = ''/levels/'' @ i
       \<and> form_saved accepts f = Some (level_json i section title color difficulty template content)
       \<and> (\<forall>evs body. form_saved accepts (form_run defaults (ad_sections p1) evs f) = Some body \<longrightarrow>
            js_prop ''section_id'' body = Some (JStr section)
            \<and> js_prop ''template_type'' body = Some (JStr (template_name template))))"
proof -
  let ?d = "edit_data level"
  let ?p = "p\<lparr>ad_error := None, ad_makerInitialData := Some ?d, ad_showMaker := True\<rparr>"
  let ?f = "level_form_new defaults parse (ad_sections p) (Some ?d)"
  have notnull: "level \<noteq> JNull" using assms(2) by (auto simp: js_prop_def)
  have s: "startLevelEdit H i (p, c) = (?p, c1)" using notnull assms(1) by (simp add: startLevelEdit_def)
  have d: "?d = JObj [(''id'', JStr i), (''section_id'', JStr section), (''title'', JStr title), (''color'', JStr color),
      (''difficulty'', JNum difficulty), (''templateType'', JStr (template_name template)), (''content'', content)]"
    by (simp add: edit_data_def field_def assms)
  have k: "resolveContent parse dflt (Some ?d) = content" for dflt
    using assms(12,13) by (cases content) (simp_all add: resolveContent_def initial_prop_def js_prop_def d falsy_value_def)
  have t: "resolveTemplateType (Some ?d) = template"
    by (simp add: resolveTemplateType_def initial_prop_def js_prop_def d nullish_or_def)
  have f: "?f = \<lparr>lf_initial = Some ?d, lf_title = JStr title, lf_color = JStr color, lf_difficulty = JNum difficulty,
      lf_sectionId = JStr section, lf_templateType = template, lf_content = content, lf_submitError = None\<rparr>"
    by (simp add: level_form_new_def t k) (simp add: initial_prop_def js_prop_def d nullish_or_def)
  have "isEditing ?f" by (simp add: d)
  from edit_keeps [OF this] have kept: "lf_sectionId (form_run defaults (ad_sections p) evs ?f) = JStr section"
    "lf_templateType (form_run defaults (ad_sections p) evs ?f) = template" for evs by (simp_all add: f)
  have "maker_url text_of (Some ?d) = ''/levels/'' @ i"
    using assms(3) by (simp add: maker_url_def js_prop_def d falsy_value_def js_text_def)
  moreover have "form_saved accepts ?f = Some (level_json i section title color difficulty template content)"
    using assms(5,7,14) by (simp add: form_saved_def form_errors_def f falsy_value_def level_body_def level_json_def)
  moreover have "js_prop ''section_id'' body = Some (JStr section) \<and> js_prop ''template_type'' body = Some (JStr (template_name template))"
    if "form_saved accepts (form_run defaults (ad_sections p) evs ?f) = Some body" for evs body
    using that kept [of evs] by (auto simp: form_saved_def level_body_def js_prop_def split: if_splits)
  ultimately show ?thesis unfolding s by (simp add: Let_def)
qed

definition sample_level :: json where
  "sample_level = JObj [(''id'', JStr ''l1''), (''section_id'', JStr ''s1''), (''title'', JStr ''Uno''), (''color'', JStr ''#18529D''),
     (''difficulty'', JNum 2), (''template_type'', JStr ''puzzle''), (''content'', sample_puzzle)]"

theorem edit_sends_back_level_witness:
  "case startLevelEdit (sample_host (\<lambda>_. HttpOk sample_level)) ''l1'' (admin_new, sample_client) of (p1, c') \<Rightarrow>
     form_saved (conforms accept_any accept_any)
       (level_form_new (\<lambda>_. JNull) (\<lambda>_. None) (ad_sections p1) (ad_makerInitialData p1))
     = Some (level_json ''l1'' ''s1'' ''Uno'' ''#18529D'' 2 TPuzzle sample_puzzle)"
proof -
  let ?r = "api_request (sample_host (\<lambda>_. HttpOk sample_level)) False (''/levels/'' @ ''l1'') JNull sample_client"
  have "fst ?r = HttpOk sample_level" by (subst api_request.simps) (simp add: raw_send_def sample_host_def)
  then have r: "?r = (HttpOk sample_level, snd ?r)" by (metis prod.collapse)
  have "conforms accept_any accept_any (registry_schema TPuzzle) (Some sample_puzzle)" by code_simp
  then have "case startLevelEdit (sample_host (\<lambda>_. HttpOk sample_level)) ''l1'' (admin_new, sample_client) of (p1, c') \<Rightarrow>
    (let f = level_form_new (\<lambda>_. JNull) (\<lambda>_. None) (ad_sections p1) (ad_makerInitialData p1) in
       ad_showMaker p1 \<and> maker_url (\<lambda>_. []) (ad_makerInitialData p1) = ''/levels/'' @ ''l1''
       \<and> form_saved (conforms accept_any accept_any) f = Some (level_json ''l1'' ''s1'' ''Uno'' ''#18529D'' 2 TPuzzle sample_puzzle)
       \<and> (\<forall>evs body. form_saved (conforms accept_any accept_any) (form_run (\<lambda>_. JNull) (ad_sections p1) evs f) = Some body \<longrightarrow>
            js_prop ''section_id'' body = Some (JStr ''s1'')
            \<and> js_prop ''template_type'' body = Some (JStr (template_name TPuzzle))))"
    by (intro edit_sends_back_level [OF r]) (simp_all add: sample_level_def js_prop_def sample_puzzle_def)
  then show ?thesis by (auto simp: Let_def split: prod.splits)
qed

text \<open>What the administration saves the level page can open: a save that passes the guard of the form sends a level whose content
  the reader of its template takes without an error, whatever was done in the form before.\<close>

theorem official_level_opens:
  assumes "zod accepts email uuid" "form_saved accepts f = Some body"
  shows "\<exists>content. js_prop ''template_type'' body = Some (JStr (template_name (lf_templateType f)))
    \<and> js_prop ''content'' body = Some content
    \<and> hasPlayableContent (lf_templateType f) content = Inr (playable (lf_templateType f) content)"
proof -
  have "body = level_body f" "accepts (registry_schema (lf_templateType f)) (Some (lf_content f))"
    using assms(2) by (auto simp: form_saved_def form_errors_def split: if_splits)
  then show ?thesis using accepted_reads [OF assms(1)] by (simp add: level_body_def js_prop_def)
qed

theorem official_level_opens_witness:
  "\<exists>content. js_prop ''content'' (level_json ''l1'' ''s1'' ''Uno'' ''#18529D'' 2 TPuzzle sample_puzzle) = Some content
    \<and> hasPlayableContent TPuzzle content = Inr (playable TPuzzle content)"
proof -
  let ?f = "\<lparr>lf_initial = None, lf_title = JStr ''Uno'', lf_color = JStr ''#18529D'', lf_difficulty = JNum 2, lf_sectionId = JStr ''s1'',
    lf_templateType = TPuzzle, lf_content = sample_puzzle, lf_submitError = None\<rparr>"
  have "conforms accept_any accept_any (registry_schema TPuzzle) (Some sample_puzzle)" by code_simp
  then have "form_saved (conforms accept_any accept_any) ?f = Some (level_json ''l1'' ''s1'' ''Uno'' ''#18529D'' 2 TPuzzle sample_puzzle)"
    by (simp add: form_saved_def form_errors_def falsy_value_def level_body_def level_json_def)
  from official_level_opens [OF zod_ref.zod_axioms this] show ?thesis by auto
qed

section \<open>The lists on the page\<close>

lemma levelsBySection_snoc: "levelsBySection (ls @ [l]) = group_level (levelsBySection ls) l"
  by (simp add: levelsBySection_def)

lemma levelsBySection_eq:
  "levelsBySection ls i = (let own = filter (\<lambda>l. section_of l = i) ls in if own = [] then None else Some own)"
proof (induction ls rule: rev_induct)
  case (snoc l ls)
  then show ?case
    by (cases "section_of l = i") (simp_all add: levelsBySection_snoc group_level_def Let_def)
qed (simp add: levelsBySection_def)

text \<open>Every level is listed under its own section, once, in the order of the server; a level of a section that is not on
  the page is not shown.\<close>

lemma shown_levels_exact: "shown_levels p i = filter (\<lambda>l. section_of l = i) (ad_levels p)"
  by (simp add: shown_levels_def levelsBySection_eq Let_def)

text \<open>Loading: on success the page shows exactly the validated answers, otherwise it keeps the levels it had and shows an error.\<close>

lemma loadContent_cases:
  "case loadContent H (p, c) of (p', c') \<Rightarrow>
     (ad_error p' = None \<and> (\<exists>s l. h_accepts H lib_SectionsResponseSchema (Some s) \<and> h_accepts H lib_LevelsPageDTOSchema (Some l)
        \<and> ad_sections p' = items_of s \<and> ad_levels p' = items_of l))
     \<or> (ad_error p' \<noteq> None \<and> ad_levels p' = ad_levels p)"
  by (auto simp: loadContent_def Let_def split: prod.splits http_result.splits)

end
