(* ===== verification/Dashboard.thy ===== *)
theory Dashboard
  imports AdminContent
begin

text \<open>
  What the pages around the levels show: the dashboard with its menu, its list of local levels and its sections
  (\<open>src/features/dashboard/DashboardPage.tsx\<close>), the page of one section
  (\<open>src/features/content/SectionLevelsPage.tsx\<close>) and the progress on the profile page
  (\<open>src/features/profile/ProfilePage.tsx\<close>). The query library is not modelled; a page's key, its query function and what it
  renders from the cached data are.
\<close>

section \<open>The list of local levels\<close>

text \<open>\<open>loadLocal\<close>: run when the section is mounted and on every storage event. An item that is not JSON throws in the effect; a value
  that is not an array throws when the list is rendered.\<close>

definition loadLocal :: "stored \<Rightarrow> json list \<Rightarrow> json list res" where
  "loadLocal store localLevels =
     (case store of
        NoItem \<Rightarrow> Inr localLevels
      | Unparsable \<Rightarrow> Inl (JsError ''SyntaxError'')
      | Parsed (JArr levels) \<Rightarrow> Inr levels
      | Parsed _ \<Rightarrow> Inl TypeErr)"

text \<open>What can be rendered as a child: React throws on an object, and renders the entries of an array.\<close>

fun react_child :: "json \<Rightarrow> bool" where
  "react_child (JObj kvs) \<longleftrightarrow> False"
| "react_child (JArr xs) \<longleftrightarrow> list_all react_child xs"
| "react_child _ \<longleftrightarrow> True"

definition child_ok :: "json option \<Rightarrow> bool" where
  "child_ok v \<longleftrightarrow> (case v of Some j \<Rightarrow> react_child j | None \<Rightarrow> True)"

text \<open>The label of the template is the value itself when it is not a known name.\<close>

definition card_children :: "json \<Rightarrow> bool" where
  "card_children m \<longleftrightarrow> child_ok (js_prop ''title'' m) \<and> child_ok (js_prop ''template_type'' m) \<and> child_ok (js_prop ''difficulty'' m)"

text \<open>One card: key and delete button, colour, template icon and label, title, difficulty, and where it leads.\<close>

record local_card =
  lc_id :: "json option"
  lc_color :: json
  lc_template :: "json option"
  lc_title :: "json option"
  lc_difficulty :: "json option"

definition local_card_of :: "json \<Rightarrow> local_card res" where
  "local_card_of lvl =
     bind_res (metadata_of lvl) (\<lambda>m.
       if card_children m then Inr \<lparr>lc_id = js_prop ''id'' m, lc_color = or_value (js_prop ''color'' m) (JStr ''#4caf50''),
         lc_template = js_prop ''template_type'' m, lc_title = js_prop ''title'' m, lc_difficulty = js_prop ''difficulty'' m\<rparr>
       else Inl (JsError ''Objects are not valid as a React child''))"

definition local_cards :: "json list \<Rightarrow> local_card list res" where
  "local_cards localLevels = map_res local_card_of localLevels"

text \<open>The list on the page and the store behind it, changed by the maker and by the buttons of the list. A successful import
  shows what it wrote.\<close>

record local_library =
  ly_levels :: "json list"
  ly_store :: stored

datatype library_event = Mount | SaveLevel maker string | ImportFile nat "json option" | DeleteLevel bool string

fun library_act :: "(zschema \<Rightarrow> json option \<Rightarrow> bool) \<Rightarrow> (json \<Rightarrow> bool) \<Rightarrow> library_event \<Rightarrow> local_library \<Rightarrow> local_library res" where
  "library_act accepts fits Mount b =
     bind_res (loadLocal (ly_store b) (ly_levels b)) (\<lambda>levels. Inr (b\<lparr>ly_levels := levels\<rparr>))"
| "library_act accepts fits (SaveLevel m now) b = Inr (b\<lparr>ly_store := snd (saveLocal accepts fits now m (ly_store b))\<rparr>)"
| "library_act accepts fits (ImportFile len parsed) b =
     (case processImportedJSON fits len parsed (ly_store b) of
        (Imported, Parsed (JArr levels)) \<Rightarrow> Inr (b\<lparr>ly_levels := levels, ly_store := Parsed (JArr levels)\<rparr>)
      | _ \<Rightarrow> Inr b)"
| "library_act accepts fits (DeleteLevel confirmed i) b =
     (case handleDelete confirmed i (ly_levels b) (ly_store b) of (levels, store) \<Rightarrow> Inr (b\<lparr>ly_levels := levels, ly_store := store\<rparr>))"

fun library_run :: "(zschema \<Rightarrow> json option \<Rightarrow> bool) \<Rightarrow> (json \<Rightarrow> bool) \<Rightarrow> library_event list \<Rightarrow> local_library \<Rightarrow> local_library res" where
  "library_run accepts fits [] b = Inr b"
| "library_run accepts fits (ev # evs) b = bind_res (library_act accepts fits ev b) (library_run accepts fits evs)"

section \<open>The list stays good\<close>






lemma strict_eq_str: "strict_eq (Some (JStr s)) i \<longleftrightarrow> i = Some (JStr s)"
  by auto



























text \<open>An import checks the identifier only: a level with an object as title is accepted, and from then on the list cannot be rendered.\<close>

definition object_title :: json where
  "object_title = JObj [(''metadata'', JObj [(''id'', JStr ''m1''), (''title'', JObj [])]), (''content'', JObj [])]"

lemma imported_object_breaks_list:
  "library_run (conforms accept_any accept_any) any_fits [ImportFile 40 (Some object_title)] \<lparr>ly_levels = [], ly_store = NoItem\<rparr>
     = Inr \<lparr>ly_levels = [object_title], ly_store = Parsed (JArr [object_title])\<rparr>"
  "local_cards [object_title] = Inl (JsError ''Objects are not valid as a React child'')"
  by (simp_all add: object_title_def processImportedJSON_def put_level_def js_prop_def falsy_value_def any_fits_def Let_def
      local_cards_def local_card_of_def metadata_of_def card_children_def child_ok_def)

section \<open>The dashboard menu\<close>

datatype dashboard_tab = PublicTab | LocalTab

record dashboard =
  da_tab :: dashboard_tab
  da_menuOpen :: bool
  da_page :: page

definition dashboard_new :: dashboard where
  "dashboard_new = \<lparr>da_tab = PublicTab, da_menuOpen = False, da_page = PDashboard\<rparr>"

definition menu_pages :: "auth_state \<Rightarrow> page list" where
  "menu_pages st = [PProfile, PMaker, PSettings] @ (if canManageContent st then [PAdmin] else [])"

text \<open>The Escape listener is only there while the menu is open. A closed menu is only moved off the screen, so the keyboard still
  reaches its entries.\<close>

datatype dashboard_event = OpenMenu | CloseMenu | PressKey string | ChooseEntry page | ChooseTab dashboard_tab | CreateContent

fun dashboard_act :: "auth_state \<Rightarrow> dashboard_event \<Rightarrow> dashboard \<Rightarrow> dashboard" where
  "dashboard_act st OpenMenu d = d\<lparr>da_menuOpen := True\<rparr>"
| "dashboard_act st CloseMenu d = d\<lparr>da_menuOpen := False\<rparr>"
| "dashboard_act st (PressKey k) d = (if da_menuOpen d \<and> k = ''Escape'' then d\<lparr>da_menuOpen := False\<rparr> else d)"
| "dashboard_act st (ChooseEntry p) d =
     (if p \<in> set (menu_pages st) then d\<lparr>da_menuOpen := False, da_page := p\<rparr> else d)"
| "dashboard_act st (ChooseTab t) d = d\<lparr>da_tab := t\<rparr>"
| "dashboard_act st CreateContent d = (if da_tab d = PublicTab \<and> canManageContent st then d\<lparr>da_page := PAdmin\<rparr> else d)"

definition toggleTheme :: "settings \<times> string list \<Rightarrow> settings \<times> string list" where
  "toggleTheme = (\<lambda>(st, html). setTheme (if se_theme st = Dark then Light else Dark) (st, html))"

section \<open>Queries about sections and progress\<close>

definition accordion_key :: "string \<Rightarrow> string list" where
  "accordion_key sectionId = [''section-levels'', sectionId]"

definition section_key :: "string \<Rightarrow> string list" where
  "section_key sectionId = [''section-levels'', sectionId]"

text \<open>A query function: its value, or \<open>None\<close> when it throws.\<close>

definition fetch_items :: "'w host \<Rightarrow> zschema \<Rightarrow> string \<Rightarrow> 'w client \<Rightarrow> json list option \<times> 'w client" where
  "fetch_items H schema url c =
     (let (r, c) = api_request H False url JNull c
      in (case r of HttpOk data \<Rightarrow> if h_accepts H schema (Some data) then Some (items_of data) else None | _ \<Rightarrow> None, c))"

definition dashboard_query :: "'w host \<Rightarrow> 'w client \<Rightarrow> json list option \<times> 'w client" where
  "dashboard_query H = fetch_items H lib_SectionsResponseSchema ''/sections''"

definition levels_url :: "string \<Rightarrow> string" where
  "levels_url sectionId = ''/levels?section_id='' @ sectionId @ ''&page_size=50''"

definition accordion_query :: "'w host \<Rightarrow> string \<Rightarrow> 'w client \<Rightarrow> json option \<times> 'w client" where
  "accordion_query H sectionId c =
     (let (items, c) = fetch_items H lib_LevelsPageDTOSchema (levels_url sectionId) c in (map_option JArr items, c))"

text \<open>Both requests are made before the answers are looked at.\<close>

definition section_query :: "'w host \<Rightarrow> string \<Rightarrow> 'w client \<Rightarrow> json option \<times> 'w client" where
  "section_query H sectionId c =
     (let (sections, c) = fetch_items H lib_SectionsResponseSchema ''/sections'' c;
          (levels, c) = fetch_items H lib_LevelsPageDTOSchema (levels_url sectionId) c
      in (case (sections, levels) of
            (Some ss, Some ls) \<Rightarrow> Some (JObj [(''section'', case find (\<lambda>s. js_prop ''id'' s = Some (JStr sectionId)) ss of Some s \<Rightarrow> s | None \<Rightarrow> JNull),
                                             (''levels'', JArr ls)])
          | _ \<Rightarrow> None, c))"

text \<open>What is rendered from the data of the key: \<open>data ?? []\<close>, a test of the length, a map. Only an array has \<open>map\<close>; the length of anything
  but an array or a text is \<open>undefined\<close>, which is not zero.\<close>

definition shown_list :: "json option \<Rightarrow> json list res" where
  "shown_list levels =
     (case nullish_or levels (JArr []) of
        JArr ls \<Rightarrow> Inr ls
      | JStr [] \<Rightarrow> Inr []
      | _ \<Rightarrow> Inl TypeErr)"

definition accordion_view :: "json option \<Rightarrow> json list res" where
  "accordion_view data = shown_list data"

text \<open>The section page: its heading (\<open>None\<close> is the fallback) and its levels.\<close>

definition section_view :: "json option \<Rightarrow> (json option \<times> json list) res" where
  "section_view data =
     (let section = nullish_or (Option.bind data (js_prop ''section'')) JNull
      in bind_res (shown_list (Option.bind data (js_prop ''levels''))) (\<lambda>ls.
         Inr (if section = JNull then None else js_prop ''title'' section, ls)))"

definition profile_key :: "string list" where
  "profile_key = [''profile-progress'']"

definition profile_query :: "'w host \<Rightarrow> 'w client \<Rightarrow> json option \<times> 'w client" where
  "profile_query H c =
     (let (r, c) = api_request H False ''/profile/progress'' JNull c
      in (case r of HttpOk data \<Rightarrow> if h_accepts H lib_ProfileProgressResponseSchema (Some data) then Some data else None | _ \<Rightarrow> None, c))"

text \<open>The documented behaviour of the query cache that the pages share: data belongs to its key, whoever asks.\<close>

definition keyed_cache :: "('q \<Rightarrow> string list \<Rightarrow> json option) \<Rightarrow> (string list \<Rightarrow> json \<Rightarrow> 'q \<Rightarrow> 'q) \<Rightarrow> bool" where
  "keyed_cache read store \<longleftrightarrow> (\<forall>k k' data q. read (store k data q) k' = (if k' = k then Some data else read q k'))"

text \<open>The dashboard and the section page keep different data under one key: after the section page has loaded a section, expanding
  it on the dashboard raises a TypeError while the data is cached; after the dashboard has loaded it, the
  section page shows no levels and no heading, whatever the server sent. Data a page stored itself it shows in full.
\<close>

theorem section_cache_clash:
  assumes "keyed_cache read store"
  shows "(\<forall>data c c1. section_query H i c = (Some data, c1) \<longrightarrow>
        accordion_view (read (store (section_key i) data q) (accordion_key i)) = Inl TypeErr
        \<and> (\<exists>heading ls. section_view (read (store (section_key i) data q) (section_key i)) = Inr (heading, ls) \<and> js_prop ''levels'' data = Some (JArr ls)))
    \<and> (\<forall>data c c1. accordion_query H i c = (Some data, c1) \<longrightarrow>
        section_view (read (store (accordion_key i) data q) (section_key i)) = Inr (None, [])
        \<and> (\<exists>ls. data = JArr ls \<and> accordion_view (read (store (accordion_key i) data q) (accordion_key i)) = Inr ls))"
proof -
  have r: "read (store k data q) k = Some data" for k data using assms by (simp add: keyed_cache_def)
  have keys: "accordion_key i = section_key i" by (simp add: accordion_key_def section_key_def)
  have "accordion_view (Some data) = Inl TypeErr
      \<and> (\<exists>heading ls. section_view (Some data) = Inr (heading, ls) \<and> js_prop ''levels'' data = Some (JArr ls))"
    if "section_query H i c = (Some data, c1)" for data c c1
    using that by (auto simp: section_query_def accordion_view_def section_view_def shown_list_def nullish_or_def js_prop_def Let_def
        split: prod.splits option.splits)
  moreover have "section_view (Some data) = Inr (None, []) \<and> (\<exists>ls. data = JArr ls \<and> accordion_view (Some data) = Inr ls)"
    if "accordion_query H i c = (Some data, c1)" for data c c1
    using that by (auto simp: accordion_query_def accordion_view_def section_view_def shown_list_def nullish_or_def js_prop_def Let_def
        split: prod.splits)
  ultimately show ?thesis by (simp only: keys r) blast
qed

text \<open>A section with a level, as the section page stores it, breaks the dashboard.\<close>

definition sample_sections :: "http_request \<Rightarrow> http_result" where
  "sample_sections rq = HttpOk (JObj [(''items'', JArr [])])"

theorem section_cache_clash_witness:
  "\<exists>data. fst (section_query (sample_host sample_sections) ''s1'' sample_client) = Some data
    \<and> accordion_view ((Map.empty (section_key ''s1'' \<mapsto> data)) (accordion_key ''s1'')) = Inl TypeErr"
proof -
  have k: "keyed_cache (\<lambda>q. q) (\<lambda>k data q. q(k \<mapsto> data))" by (simp add: keyed_cache_def)
  have f: "fetch_items (sample_host sample_sections) schema url c = (Some [], snd (fetch_items (sample_host sample_sections) schema url c))"
    if "conforms accept_any accept_any schema (Some (JObj [(''items'', JArr [])]))" for schema url c
  proof -
    have "fst (api_request (sample_host sample_sections) False url JNull c) = HttpOk (JObj [(''items'', JArr [])])"
      by (subst api_request.simps) (simp add: raw_send_def sample_host_def sample_sections_def)
    then show ?thesis using that
      by (simp add: fetch_items_def case_prod_beta sample_host_def items_of_def js_items_def js_prop_def)
  qed
  have "conforms accept_any accept_any lib_SectionsResponseSchema (Some (JObj [(''items'', JArr [])]))"
    "conforms accept_any accept_any lib_LevelsPageDTOSchema (Some (JObj [(''items'', JArr [])]))" by code_simp+
  then have "\<exists>data. fst (section_query (sample_host sample_sections) ''s1'' sample_client) = Some data"
    by (subst section_query_def) (subst f, simp, subst f, simp, simp add: case_prod_beta)
  then obtain data where d: "fst (section_query (sample_host sample_sections) ''s1'' sample_client) = Some data" by blast
  then have "section_query (sample_host sample_sections) ''s1'' sample_client
      = (Some data, snd (section_query (sample_host sample_sections) ''s1'' sample_client))" by (metis prod.collapse)
  from section_cache_clash [OF k, of "sample_host sample_sections" "''s1''" Map.empty] this d show ?thesis by blast
qed

text \<open>
  Signed-in users reach only pages that open for them from the dashboard, and the menu offers the administration exactly to
  those for whom its route opens.
\<close>

lemma dashboard_opens:
  assumes "auth_ok st" "au_isAuthenticated st"
  shows "list_all (opens st) (PDashboard # menu_pages st)"
    and "canManageContent st \<longleftrightarrow> opens st PAdmin"
  using assms by (auto simp: menu_pages_def opens_def app_routes_def route_element_def ProtectedRoute_def auth_ok_def canManageContent_def
      split: option.splits)

theorem dashboard_reaches_open_pages:
  assumes "auth_ok st" "au_isAuthenticated st"
  shows "opens st (da_page (fold (dashboard_act st) evs dashboard_new)) \<and> (PAdmin \<in> set (menu_pages st) \<longleftrightarrow> opens st PAdmin)"
proof -
  have ok: "list_all (opens st) (PDashboard # menu_pages st)" by (rule dashboard_opens [OF assms])
  have "opens st (da_page (fold (dashboard_act st) evs d))" if "opens st (da_page d)" for d
    using that
  proof (induction evs arbitrary: d)
    case (Cons ev evs)
    have "opens st (da_page (dashboard_act st ev d))"
      using Cons.prems ok dashboard_opens(2) [OF assms] by (cases ev) (auto simp: list_all_iff)
    then show ?case using Cons.IH by simp
  qed simp
  moreover have "opens st (da_page dashboard_new)" using ok by (simp add: dashboard_new_def)
  ultimately show ?thesis using dashboard_opens(2) [OF assms] by (auto simp: menu_pages_def)
qed

theorem dashboard_reaches_open_pages_witness:
  "opens (cl_auth sample_client) (da_page (fold (dashboard_act (cl_auth sample_client)) [OpenMenu, ChooseEntry PProfile] dashboard_new))"
proof -
  have "auth_ok (cl_auth sample_client)" "au_isAuthenticated (cl_auth sample_client)"
    by (simp_all add: sample_client_def login_def auth_ok_def)
  from dashboard_reaches_open_pages [OF this, of "[OpenMenu, ChooseEntry PProfile]"] show ?thesis by blast
qed

end
