(* ===== verification/Forms.thy ===== *)
theory Forms
  imports SnakesContent WordSearch Crossword
begin

text \<open>
  The other forms of the level maker (\<open>src/features/content/maker/forms\<close>): trivia, crossword, word
  search, fake news, memory and puzzle. An edit is what one control hands to \<open>onChange\<close>; a control that
  is not on the screen makes no edit.
\<close>

section \<open>Trivia: \<open>TriviaForm.tsx\<close>\<close>

definition empty_question :: multiple_choice where
  "empty_question = \<lparr>mcq_question = [], mcq_options = [[], []], mcq_correct_index = 0, mcq_media_url = None\<rparr>"

definition triviaDefaults :: "multiple_choice list" where
  "triviaDefaults = [empty_question, empty_question, empty_question]"

definition trivia_addQuestion :: "multiple_choice list \<Rightarrow> multiple_choice list" where
  "trivia_addQuestion value = value @ [empty_question]"

definition trivia_removeQuestion :: "nat \<Rightarrow> multiple_choice list \<Rightarrow> multiple_choice list" where
  "trivia_removeQuestion idx value = (if length value \<le> 3 then value else remove_at idx value)"

definition updateQ :: "nat \<Rightarrow> (multiple_choice \<Rightarrow> multiple_choice) \<Rightarrow> multiple_choice list \<Rightarrow> multiple_choice list" where
  "updateQ idx updates value = value[idx := updates (value ! idx)]"

definition trivia_setOption :: "nat \<Rightarrow> string \<Rightarrow> multiple_choice \<Rightarrow> multiple_choice" where
  "trivia_setOption optIdx s q = q\<lparr>mcq_options := (mcq_options q)[optIdx := s]\<rparr>"

definition trivia_removeOption :: "nat \<Rightarrow> multiple_choice \<Rightarrow> multiple_choice" where
  "trivia_removeOption optIdx q =
     (let newOpts = remove_at optIdx (mcq_options q)
      in q\<lparr>mcq_options := newOpts, mcq_correct_index := min (mcq_correct_index q) (of_int (int (length newOpts) - 1))\<rparr>)"

definition trivia_addOption :: "multiple_choice \<Rightarrow> multiple_choice" where
  "trivia_addOption q = q\<lparr>mcq_options := mcq_options q @ [[]]\<rparr>"

datatype trivia_edit = TAdd | TRemove nat | TQuestion nat string | TMark nat nat | TOption nat nat string
  | TRemoveOption nat nat | TAddOption nat

fun trivia_shown :: "trivia_edit \<Rightarrow> multiple_choice list \<Rightarrow> bool" where
  "trivia_shown TAdd value = True"
| "trivia_shown (TRemove i) value = (i < length value)"
| "trivia_shown (TQuestion i s) value = (i < length value)"
| "trivia_shown (TMark i j) value = (i < length value \<and> j < length (mcq_options (value ! i)))"
| "trivia_shown (TOption i j s) value = (i < length value \<and> j < length (mcq_options (value ! i)))"
| "trivia_shown (TRemoveOption i j) value =
     (i < length value \<and> j < length (mcq_options (value ! i)) \<and> length (mcq_options (value ! i)) > 2)"
| "trivia_shown (TAddOption i) value = (i < length value \<and> length (mcq_options (value ! i)) < 4)"

fun trivia_form :: "trivia_edit \<Rightarrow> multiple_choice list \<Rightarrow> multiple_choice list" where
  "trivia_form TAdd value = trivia_addQuestion value"
| "trivia_form (TRemove i) value = trivia_removeQuestion i value"
| "trivia_form (TQuestion i s) value = updateQ i (\<lambda>q. q\<lparr>mcq_question := s\<rparr>) value"
| "trivia_form (TMark i j) value = updateQ i (\<lambda>q. q\<lparr>mcq_correct_index := of_nat j\<rparr>) value"
| "trivia_form (TOption i j s) value = updateQ i (trivia_setOption j s) value"
| "trivia_form (TRemoveOption i j) value = updateQ i (trivia_removeOption j) value"
| "trivia_form (TAddOption i) value = updateQ i trivia_addOption value"

definition markable :: "multiple_choice \<Rightarrow> bool" where
  "markable q \<longleftrightarrow> 2 \<le> length (mcq_options q) \<and> length (mcq_options q) \<le> 4
     \<and> (\<exists>k < length (mcq_options q). mcq_correct_index q = of_nat k)"

definition trivia_form_ok :: "multiple_choice list \<Rightarrow> bool" where
  "trivia_form_ok value \<longleftrightarrow> 3 \<le> length value \<and> list_all markable value"

lemma list_all_update:
  fixes f :: "multiple_choice \<Rightarrow> multiple_choice"
  assumes "list_all P xs" "i < length xs \<Longrightarrow> P (xs ! i) \<Longrightarrow> P (f (xs ! i))"
  shows "list_all P (updateQ i f xs)"
  unfolding updateQ_def list_all_length
proof (intro allI impI)
  fix n assume n: "n < length (xs[i := f (xs ! i)])"
  then show "P (xs[i := f (xs ! i)] ! n)" using assms by (cases "n = i") (auto simp: list_all_length)
qed

lemma length_updateQ [simp]: "length (updateQ i f xs) = length xs"
  by (simp add: updateQ_def)

lemma markable_edits:
  "markable q \<Longrightarrow> markable (q\<lparr>mcq_question := s\<rparr>)"
  "markable q \<Longrightarrow> j < length (mcq_options q) \<Longrightarrow> markable (q\<lparr>mcq_correct_index := of_nat j\<rparr>)"
  "markable q \<Longrightarrow> markable (trivia_setOption j s q)"
  "markable q \<Longrightarrow> length (mcq_options q) < 4 \<Longrightarrow> markable (trivia_addOption q)"
  by (auto simp: markable_def trivia_setOption_def trivia_addOption_def)

lemma markable_removeOption:
  assumes "markable q" "j < length (mcq_options q)" "length (mcq_options q) > 2"
  shows "markable (trivia_removeOption j q)"
proof -
  obtain k where k: "k < length (mcq_options q)" "mcq_correct_index q = of_nat k" using assms(1) by (auto simp: markable_def)
  have len: "length (remove_at j (mcq_options q)) = length (mcq_options q) - 1" by (rule length_remove_at [OF assms(2)])
  have "min (of_nat k :: rat) (of_int (int (length (mcq_options q) - 1) - 1)) = of_nat (min k (length (mcq_options q) - 2))"
    using assms(3) by (auto simp: min_def of_nat_diff)
  then show ?thesis
    using assms(1,3) k len unfolding markable_def trivia_removeOption_def Let_def
    by (auto intro!: exI [of _ "min k (length (mcq_options q) - 2)"])
qed

text \<open>A trivia written in the form can be played: every edit keeps at least three questions with two to four options
  each and a marked option among them, so once the questions have a text the level page keeps all of them.\<close>

theorem trivia_form_invariant:
  assumes "trivia_form_ok value" "trivia_shown edit value"
  shows "trivia_form_ok (trivia_form edit value)
    \<and> (list_all (\<lambda>q. mcq_question q \<noteq> []) (trivia_form edit value) \<longrightarrow>
         filter trivia_ok (trivia_form edit value) = trivia_form edit value)"
proof -
  have ok: "trivia_form_ok (trivia_form edit value)"
  proof (cases edit)
    case TAdd
    then show ?thesis using assms by (auto simp: trivia_form_ok_def trivia_addQuestion_def empty_question_def markable_def intro: exI [of _ 0])
  next
    case (TRemove i)
    then show ?thesis using assms set_remove_at [of i "value"]
      by (auto simp: trivia_form_ok_def trivia_removeQuestion_def length_remove_at list_all_iff)
  next
    case (TRemoveOption i j)
    then show ?thesis using assms unfolding trivia_form_ok_def
      by (auto intro!: list_all_update markable_removeOption)
  qed (use assms in \<open>auto simp: trivia_form_ok_def intro!: list_all_update markable_edits\<close>)
  moreover have "trivia_ok q" if "markable q" "mcq_question q \<noteq> []" for q
    using that by (auto simp: markable_def trivia_ok_def)
  ultimately show ?thesis by (auto simp: trivia_form_ok_def list_all_iff intro!: filter_True)
qed

theorem trivia_form_invariant_witness:
  "trivia_form_ok (trivia_form (TRemoveOption 0 0) (updateQ 0 trivia_addOption triviaDefaults))"
proof -
  have "trivia_form_ok triviaDefaults"
    by (auto simp: trivia_form_ok_def triviaDefaults_def empty_question_def markable_def intro: exI [of _ 0])
  then have "trivia_form_ok (updateQ 0 trivia_addOption triviaDefaults)"
    by (auto simp: trivia_form_ok_def triviaDefaults_def empty_question_def intro!: list_all_update markable_edits)
  then show ?thesis
    using trivia_form_invariant [of "updateQ 0 trivia_addOption triviaDefaults" "TRemoveOption 0 0"]
    by (simp add: triviaDefaults_def updateQ_def trivia_addOption_def empty_question_def)
qed

lemma nth_remove_at:
  "idx < length xs \<Longrightarrow> k < length xs - 1 \<Longrightarrow> remove_at idx xs ! k = (if k < idx then xs ! k else xs ! Suc k)"
  by (auto simp: remove_at_def nth_append min_def)

text \<open>Removing an option moves the mark: when an option before the marked one is removed and the marked one is not the
  last, the marked index stays and the option after the right one becomes the right answer.\<close>

theorem trivia_form_moves_mark:
  assumes "mcq_correct_index q = of_nat k" "j < k" "k + 1 < length (mcq_options q)"
  shows "mcq_correct_index (trivia_removeOption j q) = of_nat k
    \<and> mcq_options (trivia_removeOption j q) ! k = mcq_options q ! (k + 1)
    \<and> mcq_options (trivia_removeOption j q) ! (k - 1) = mcq_options q ! k"
proof -
  have len: "length (remove_at j (mcq_options q)) = length (mcq_options q) - 1"
    using assms by (intro length_remove_at) simp
  have "int k \<le> int (length (mcq_options q) - 1) - 1" using assms(3) by linarith
  then have "(of_nat k :: rat) \<le> of_int (int (length (mcq_options q) - 1) - 1)"
    by (metis of_int_le_iff of_int_of_nat_eq)
  moreover have "\<not> k < j" "\<not> k - 1 < j" "Suc (k - 1) = k" using assms(2) by simp_all
  ultimately show ?thesis using assms len by (simp add: trivia_removeOption_def Let_def nth_remove_at)
qed

definition three_options :: multiple_choice where
  "three_options = \<lparr>mcq_question = ''q'', mcq_options = [''A'', ''B'', ''C''], mcq_correct_index = 1, mcq_media_url = None\<rparr>"

theorem trivia_form_moves_mark_witness:
  "mcq_options three_options ! 1 = ''B'' \<and> mcq_correct_index (trivia_removeOption 0 three_options) = 1
   \<and> mcq_options (trivia_removeOption 0 three_options) ! 1 = ''C''"
  using trivia_form_moves_mark [of three_options 1 0] by (simp add: three_options_def)

section \<open>Crossword: \<open>CrosswordForm.tsx\<close>\<close>

definition cwf_complete :: "crossword_word list \<Rightarrow> crossword_word list" where
  "cwf_complete words = filter (\<lambda>w. 2 \<le> length (cw_word w) \<and> length (trim (cw_clue w)) > 0) words"

definition hasDuplicateAnswers :: "crossword_word list \<Rightarrow> bool" where
  "hasDuplicateAnswers words = (\<not> distinct (map (\<lambda>w. normalizeCrosswordAnswer (cw_word w)) (cwf_complete words)))"

definition canBuildCrossword :: "crossword_word list \<Rightarrow> bool" where
  "canBuildCrossword words \<longleftrightarrow>
     (let completeWords = cwf_complete words; hasEnoughWords = length completeWords \<ge> 2
      in \<not> hasEnoughWords \<or> canBuildConnectedCrossword completeWords)"

definition cwf_addWord :: "crossword_word list \<Rightarrow> crossword_word list" where
  "cwf_addWord words = words @ [\<lparr>cw_word = [], cw_clue = []\<rparr>]"

definition cwf_removeWord :: "nat \<Rightarrow> crossword_word list \<Rightarrow> crossword_word list" where
  "cwf_removeWord idx words = remove_at idx words"

definition cwf_updateWord :: "nat \<Rightarrow> string \<Rightarrow> crossword_word list \<Rightarrow> crossword_word list" where
  "cwf_updateWord idx s words = words[idx := (words ! idx)\<lparr>cw_word := normalizeCrosswordAnswer s\<rparr>]"

definition cwf_updateClue :: "nat \<Rightarrow> string \<Rightarrow> crossword_word list \<Rightarrow> crossword_word list" where
  "cwf_updateClue idx s words = words[idx := (words ! idx)\<lparr>cw_clue := s\<rparr>]"

section \<open>Word search: \<open>WordSearchForm.tsx\<close>\<close>

definition wsf_addWord :: "string list \<Rightarrow> string list" where
  "wsf_addWord words = words @ [[]]"

definition wsf_removeWord :: "nat \<Rightarrow> string list \<Rightarrow> string list" where
  "wsf_removeWord idx words = remove_at idx words"

definition wsf_updateWord :: "nat \<Rightarrow> string \<Rightarrow> string list \<Rightarrow> string list" where
  "wsf_updateWord idx s words = words[idx := filter is_upper (to_upper s)]"

text \<open>Typed words are their own normal form, in both games.\<close>

lemma normalizeWord_uppercase: "\<forall>c \<in> set w. is_upper c \<Longrightarrow> normalizeWord w = w"
proof -
  assume up: "\<forall>c \<in> set w. is_upper c"
  then have "filter ascii_letter w = w" by (auto simp: ascii_letter_def intro: filter_True)
  then show ?thesis using up by (simp add: normalizeWord_def)
qed

text \<open>What is typed is what is played: whatever text is typed into the word field of the crossword form or the word-search form,
  the stored word consists of capital letters and is its own normal form, so the engine plays it unchanged
  and, once it has two letters, the page keeps it.\<close>

theorem typed_words_normal:
  assumes "idx < length words" "idx < length ws"
  shows "(let w = cw_word (cwf_updateWord idx s words ! idx) in list_all is_upper w \<and> normalizeCrosswordAnswer w = w)
    \<and> (let w = wsf_updateWord idx s ws ! idx in list_all is_upper w \<and> normalizeWord w = w
         \<and> (2 \<le> length w \<longrightarrow> 2 \<le> length (trim w)))"
proof -
  have "\<forall>c \<in> set (normalizeCrosswordAnswer s). is_upper c" using normalizeCrosswordAnswer_upper by blast
  moreover from this have "normalizeCrosswordAnswer (normalizeCrosswordAnswer s) = normalizeCrosswordAnswer s"
    by (subst normalizeCrosswordAnswer_def) (auto simp: answer_letter_def intro: filter_True)
  moreover have "\<forall>c \<in> set (filter is_upper (to_upper s)). is_upper c" by simp
  moreover from this have "normalizeWord (filter is_upper (to_upper s)) = filter is_upper (to_upper s)"
    "trim (filter is_upper (to_upper s)) = filter is_upper (to_upper s)"
    by (rule normalizeWord_uppercase, rule trim_upper)
  moreover have "cw_word (cwf_updateWord idx s words ! idx) = normalizeCrosswordAnswer s"
    "wsf_updateWord idx s ws ! idx = filter is_upper (to_upper s)"
    using assms by (simp_all add: cwf_updateWord_def wsf_updateWord_def)
  ultimately show ?thesis unfolding Let_def list_all_iff by metis
qed

theorem typed_words_normal_witness:
  "normalizeWord (wsf_updateWord 0 ''sol 2'' [''x''] ! 0) = wsf_updateWord 0 ''sol 2'' [''x''] ! 0"
  using typed_words_normal [of 0 "[\<lparr>cw_word = [], cw_clue = []\<rparr>]" "[''x'']" "''sol 2''"] by (simp add: Let_def)

section \<open>Fake news: \<open>FakeNewsForm.tsx\<close>\<close>

definition empty_news :: news_item where
  "empty_news = \<lparr>ni_title = [], ni_content = [], ni_isFake = False, ni_explanation = None, ni_imageUrl = None, ni_reference = []\<rparr>"

definition addNews :: "news_item list \<Rightarrow> news_item list" where
  "addNews news = news @ [empty_news]"

definition removeNews :: "nat \<Rightarrow> news_item list \<Rightarrow> news_item list" where
  "removeNews idx news = remove_at idx news"

definition updateNews :: "nat \<Rightarrow> (news_item \<Rightarrow> news_item) \<Rightarrow> news_item list \<Rightarrow> news_item list" where
  "updateNews idx updates news = news[idx := updates (news ! idx)]"

section \<open>Memory: \<open>MemoryForm.tsx\<close>\<close>

text \<open>The value is the stored JSON; the form works on its normalised pairs. A falsy \<open>pairs\<close> gives four empty pairs.\<close>

definition falsy_json :: "json option \<Rightarrow> bool" where
  "falsy_json v = (case v of None \<Rightarrow> True | Some JNull \<Rightarrow> True | Some (JBool b) \<Rightarrow> \<not> b | Some (JNum x) \<Rightarrow> x = 0
     | Some (JStr s) \<Rightarrow> s = [] | _ \<Rightarrow> False)"

definition memory_form_pairs :: "json \<Rightarrow> memory_pair list res" where
  "memory_form_pairs content =
     (let p = js_prop ''pairs'' content
      in if falsy_json p then normalizeMemoryPairs (JArr (map pair_json (createMemoryPairs 4))) else normalizeMemoryPairs (the p))"

definition memory_palette :: "memory_pair list \<Rightarrow> string list" where
  "memory_palette pairs = createMemoryColorOptions (max 12 (int (length pairs) + 6))"

definition next_color :: "memory_pair list \<Rightarrow> string" where
  "next_color pairs =
     (let palette = memory_palette pairs
      in case find (\<lambda>color. \<not> list_ex (\<lambda>p. mp_color p = color) pairs) palette of
           Some color \<Rightarrow> color | None \<Rightarrow> palette ! (length pairs mod length palette))"

definition addPair :: "string \<Rightarrow> memory_pair list \<Rightarrow> memory_pair list" where
  "addPair uid pairs = pairs @ [\<lparr>mp_id = uid, mp_content1 = [], mp_content2 = [], mp_color = next_color pairs\<rparr>]"

definition removePair :: "nat \<Rightarrow> memory_pair list \<Rightarrow> memory_pair list" where
  "removePair idx pairs = remove_at idx pairs"

definition updatePair :: "nat \<Rightarrow> (memory_pair \<Rightarrow> memory_pair) \<Rightarrow> memory_pair list \<Rightarrow> memory_pair list res" where
  "updatePair idx f pairs = normalizeMemoryPairs (JArr (map pair_json (pairs[idx := f (pairs ! idx)])))"

definition updateColor :: "nat \<Rightarrow> string \<Rightarrow> memory_pair list \<Rightarrow> memory_pair list res" where
  "updateColor idx color pairs =
     normalizeMemoryPairs (JArr (map pair_json (map (\<lambda>(i, p). if i = idx then p\<lparr>mp_color := color\<rparr> else p) (enumerate 0 pairs))))"

text \<open>The colours offered for a pair: its own and those no other pair has.\<close>

definition offered_colors :: "nat \<Rightarrow> memory_pair list \<Rightarrow> string list" where
  "offered_colors idx pairs =
     filter (\<lambda>color. color = mp_color (pairs ! idx)
        \<or> \<not> list_ex (\<lambda>(i, p). i \<noteq> idx \<and> mp_color p = color) (enumerate 0 pairs)) (memory_palette pairs)"

definition pairs_ok :: "memory_pair list \<Rightarrow> bool" where
  "pairs_ok ps \<longleftrightarrow> (\<forall>p \<in> set ps. pair_valid p) \<and> distinct (map mp_color ps)"

lemma pairs_ok_normal: "pairs_ok ps \<Longrightarrow> normalizeMemoryPairs (JArr (map pair_json ps)) = Inr ps"
  using normalize_loop_json [of ps "[]" 0] by (simp add: pairs_ok_def normalizeMemoryPairs_def readMemoryPairs_def)

lemma offered_fresh:
  assumes "idx < length pairs" "distinct (map mp_color pairs)" "color \<in> set (offered_colors idx pairs)" "i < length pairs" "i \<noteq> idx"
  shows "mp_color (pairs ! i) \<noteq> color"
proof -
  have "color = mp_color (pairs ! idx) \<or> (\<forall>(j, p) \<in> set (enumerate 0 pairs). \<not> (j \<noteq> idx \<and> mp_color p = color))"
    using assms(3) by (auto simp: offered_colors_def list_ex_iff)
  then show ?thesis
  proof
    assume "color = mp_color (pairs ! idx)"
    then show ?thesis using assms(1,2,4,5) by (auto simp: distinct_conv_nth)
  next
    assume a: "\<forall>(j, p) \<in> set (enumerate 0 pairs). \<not> (j \<noteq> idx \<and> mp_color p = color)"
    have "(i, pairs ! i) \<in> set (enumerate 0 pairs)" using assms(4) by (simp add: in_set_enumerate_eq)
    then show ?thesis using a assms(5) by blast
  qed
qed

lemma offered_valid: "color \<in> set (offered_colors idx pairs) \<Longrightarrow> lower_hex_color color"
proof -
  assume "color \<in> set (offered_colors idx pairs)"
  then have "color \<in> set (memory_palette pairs)" by (simp add: offered_colors_def)
  then obtain i where "color = generateMemoryColor i" unfolding memory_palette_def createMemoryColorOptions_def by auto
  then show ?thesis by (simp add: generateMemoryColor_valid)
qed

lemma pairs_ok_update:
  assumes "pairs_ok pairs" "idx < length pairs" "pair_valid p" "\<And>i. i < length pairs \<Longrightarrow> i \<noteq> idx \<Longrightarrow> mp_color (pairs ! i) \<noteq> mp_color p"
  shows "pairs_ok (pairs[idx := p])"
proof -
  have "distinct (map mp_color (pairs[idx := p]))"
    unfolding distinct_conv_nth length_map length_list_update
  proof (intro allI impI)
    fix i j assume ij: "i < length pairs" "j < length pairs" "i \<noteq> j"
    have "mp_color (pairs ! i) \<noteq> mp_color (pairs ! j)"
      using assms(1) ij by (auto simp: pairs_ok_def distinct_conv_nth)
    then show "map mp_color (pairs[idx := p]) ! i \<noteq> map mp_color (pairs[idx := p]) ! j"
      using ij assms(2) assms(4) [of i] assms(4) [of j] by (cases "i = idx"; cases "j = idx") auto
  qed
  moreover have "\<forall>q \<in> set (pairs[idx := p]). pair_valid q"
    using assms(1,3) set_update_subset_insert [of pairs idx p] by (auto simp: pairs_ok_def)
  ultimately show ?thesis by (simp add: pairs_ok_def)
qed

text \<open>In the memory form the colours stay one per pair: choosing any colour the list offers, or typing into a card, stores exactly
  the chosen value and leaves every other pair as it was; the pairs stay valid with pairwise different
  colours.\<close>

theorem memory_form_exact:
  assumes "pairs_ok pairs" "idx < length pairs" "color \<in> set (offered_colors idx pairs)"
  shows "updateColor idx color pairs = Inr (pairs[idx := (pairs ! idx)\<lparr>mp_color := color\<rparr>])
    \<and> pairs_ok (pairs[idx := (pairs ! idx)\<lparr>mp_color := color\<rparr>])
    \<and> updatePair idx (\<lambda>p. p\<lparr>mp_content1 := s\<rparr>) pairs = Inr (pairs[idx := (pairs ! idx)\<lparr>mp_content1 := s\<rparr>])"
proof -
  let ?ps = "pairs[idx := (pairs ! idx)\<lparr>mp_color := color\<rparr>]" and ?qs = "pairs[idx := (pairs ! idx)\<lparr>mp_content1 := s\<rparr>]"
  have list: "map (\<lambda>(i, p). if i = idx then p\<lparr>mp_color := color\<rparr> else p) (enumerate 0 pairs) = ?ps"
    using assms(2) by (intro nth_equalityI) (auto simp: nth_enumerate_eq nth_list_update)
  have dist: "distinct (map mp_color pairs)" and valid: "pair_valid (pairs ! idx)"
    using assms(1,2) by (simp_all add: pairs_ok_def)
  have ps: "pairs_ok ?ps"
    using valid offered_valid [OF assms(3)] offered_fresh [OF assms(2) dist assms(3)]
    by (intro pairs_ok_update [OF assms(1,2)]) (auto simp: pair_valid_def)
  have qs: "pairs_ok ?qs"
    using valid dist assms(2) by (intro pairs_ok_update [OF assms(1,2)]) (auto simp: pair_valid_def distinct_conv_nth)
  show ?thesis using pairs_ok_normal [OF ps] pairs_ok_normal [OF qs] ps unfolding updateColor_def updatePair_def list by blast
qed

section \<open>Puzzle: \<open>PuzzleForm.tsx\<close>\<close>

text \<open>\<open>Number(e.target.value)\<close> may be NaN; \<open>value.pieces || 3\<close> is what the field shows.\<close>

record puzzle_form =
  pf_phrase :: string
  pf_pieces :: js_num
  pf_seed :: js_num

definition pf_setPhrase :: "string \<Rightarrow> puzzle_form \<Rightarrow> puzzle_form" where
  "pf_setPhrase s f = f\<lparr>pf_phrase := s\<rparr>"

definition pf_setPieces :: "js_num \<Rightarrow> puzzle_form \<Rightarrow> puzzle_form" where
  "pf_setPieces n f = f\<lparr>pf_pieces := n\<rparr>"

definition pf_randomSeed :: "rat \<Rightarrow> puzzle_form \<Rightarrow> puzzle_form" where
  "pf_randomSeed r f = f\<lparr>pf_seed := Some (of_int (rand_index r 10000))\<rparr>"

definition pf_shownPieces :: "puzzle_form \<Rightarrow> rat" where
  "pf_shownPieces f = (case pf_pieces f of Some n \<Rightarrow> if n = 0 then 3 else n | None \<Rightarrow> 3)"

theorem memory_form_exact_witness:
  "updateColor 0 (generateMemoryColor 1) [sample_pair] = Inr [sample_pair\<lparr>mp_color := generateMemoryColor 1\<rparr>]"
proof -
  have "pairs_ok [sample_pair]"
    by (simp add: pairs_ok_def sample_pair_def pair_valid_def lower_hex_color_def is_lower_hex_def is_digit_def trim_def is_space_def)
  moreover have "generateMemoryColor 1 \<in> set (offered_colors 0 [sample_pair])"
    by (auto simp: offered_colors_def memory_palette_def createMemoryColorOptions_def list_ex_iff)
  ultimately show ?thesis using memory_form_exact [of "[sample_pair]" 0 "generateMemoryColor 1" "[]"] by simp
qed

end
