(* ===== verification/SnakesBoard.thy ===== *)
theory SnakesBoard
  imports SnakesContent MemoryPalette
begin

text \<open>
  Where the snakes-and-ladders board is drawn: the layout, the cells, the tokens and the die of the game scene
  (\<open>src/features/games/phaser/SnakeLadderScene.ts\<close>) and the preview of the maker
  (\<open>src/features/content/maker/previews/SnakeLadderPreview.tsx\<close>). Coordinates are pixels of the canvas or percentages;
  halves of small integers are exact in double precision, all other results are rounded.
\<close>

section \<open>The game scene\<close>

record board_layout =
  bl_cols :: int
  bl_rows :: int
  bl_cellSize :: int
  bl_offsetX :: int
  bl_offsetY :: int
  bl_boardWidth :: int
  bl_boardHeight :: int

text \<open>The canvas is 720 by 780 pixels. The game always passes the width and the height of the board.\<close>

definition calculateLayout :: "int \<Rightarrow> int \<Rightarrow> int \<Rightarrow> int \<Rightarrow> board_layout" where
  "calculateLayout width height cols rows =
     (let hudHeight = 82; padding = 24;
          availableWidth = width - padding * 2;
          availableHeight = height - hudHeight - padding * 2;
          cellSize = \<lfloor>min (fl (of_int availableWidth / of_int cols)) (fl (of_int availableHeight / of_int rows))\<rfloor>;
          boardWidth = cellSize * cols;
          boardHeight = cellSize * rows
      in \<lparr>bl_cols = cols, bl_rows = rows, bl_cellSize = cellSize,
          bl_offsetX = js_round (of_int (width - boardWidth) / 2),
          bl_offsetY = js_round (of_int hudHeight + of_int (height - hudHeight - boardHeight) / 2),
          bl_boardWidth = boardWidth, bl_boardHeight = boardHeight\<rparr>)"

datatype cell_mark = StartCell | EndCell | PlainCell

text \<open>One cell of \<open>drawBoard\<close>: its number, the upper left corner, and how it is filled and labelled.\<close>

definition draw_cell :: "board_layout \<Rightarrow> int \<Rightarrow> int \<Rightarrow> int \<Rightarrow> (int \<times> int \<times> int \<times> cell_mark) res" where
  "draw_cell l startPosition endPosition i =
     bind_res (mapToGrid i (bl_cols l) (bl_rows l)) (\<lambda>(x, y).
       Inr (i, bl_offsetX l + x * bl_cellSize l, bl_offsetY l + y * bl_cellSize l,
         if i = startPosition then StartCell else if i = endPosition then EndCell else PlainCell))"

definition drawBoard :: "board_layout \<Rightarrow> int option \<Rightarrow> int option \<Rightarrow> (int \<times> int \<times> int \<times> cell_mark) list res" where
  "drawBoard l start finish =
     (let totalCells = bl_cols l * bl_rows l;
          startPosition = (case start of Some s \<Rightarrow> s | None \<Rightarrow> 1);
          endPosition = (case finish of Some e \<Rightarrow> e | None \<Rightarrow> totalCells)
      in map_res (draw_cell l startPosition endPosition) [1..totalCells])"

text \<open>Phaser's clamp is a parameter.\<close>

definition cellCenter :: "(int \<Rightarrow> int \<Rightarrow> int \<Rightarrow> int) \<Rightarrow> board_layout \<Rightarrow> int \<Rightarrow> (rat \<times> rat) res" where
  "cellCenter clamp l position =
     bind_res (mapToGrid (clamp position 1 (bl_cols l * bl_rows l)) (bl_cols l) (bl_rows l)) (\<lambda>(x, y).
       Inr (of_int (bl_offsetX l + x * bl_cellSize l) + of_int (bl_cellSize l) / 2,
            of_int (bl_offsetY l + y * bl_cellSize l) + of_int (bl_cellSize l) / 2))"

definition token_spread :: "int \<Rightarrow> rat" where
  "token_spread c = max 7 (fl (of_int c * fl (16 / 100)))"

definition tokenPoint :: "(int \<Rightarrow> int \<Rightarrow> int \<Rightarrow> int) \<Rightarrow> board_layout \<Rightarrow> int \<Rightarrow> bool \<Rightarrow> (rat \<times> rat) res" where
  "tokenPoint clamp l position isPlayer =
     bind_res (cellCenter clamp l position) (\<lambda>(cx, cy).
       let spread = token_spread (bl_cellSize l)
       in Inr (fl (cx + (if isPlayer then - spread else spread)), fl (cy + fl (spread * fl (35 / 100)))))"

text \<open>The spots of a face of the die.\<close>

definition facePips :: "rat \<Rightarrow> int \<Rightarrow> (rat \<times> rat) list" where
  "facePips box face =
     (let pad = fl (box * fl (24 / 100)); mid = box / 2; far = fl (box - pad)
      in if face = 1 then [(mid, mid)]
         else if face = 2 then [(pad, pad), (far, far)]
         else if face = 3 then [(pad, pad), (mid, mid), (far, far)]
         else if face = 4 then [(pad, pad), (far, pad), (pad, far), (far, far)]
         else if face = 5 then [(pad, pad), (far, pad), (mid, mid), (pad, far), (far, far)]
         else if face = 6 then [(pad, pad), (far, pad), (pad, mid), (far, mid), (pad, far), (far, far)]
         else [])"

section \<open>The preview\<close>

record preview_cell =
  pc_cell :: int
  pc_isStart :: bool
  pc_isEnd :: bool
  pc_hasSnake :: bool
  pc_hasLadder :: bool

definition preview_size :: "int \<Rightarrow> int" where
  "preview_size n = max 2 (if n = 0 then 6 else n)"

definition preview_cell :: "int \<Rightarrow> int \<Rightarrow> int \<Rightarrow> int \<Rightarrow> snake_link list \<Rightarrow> snake_link list \<Rightarrow> int \<Rightarrow> preview_cell" where
  "preview_cell boardWidth boardHeight start finish snakes ladders visualIdx =
     (let row = visualIdx div boardWidth; col = visualIdx mod boardWidth;
          cell = cellAt row col boardWidth boardHeight
      in \<lparr>pc_cell = cell, pc_isStart = (cell = start), pc_isEnd = (cell = finish),
          pc_hasSnake = list_ex (\<lambda>s. link_start s = cell) snakes, pc_hasLadder = list_ex (\<lambda>l. link_start l = cell) ladders\<rparr>)"

definition preview_cells :: "int \<Rightarrow> int \<Rightarrow> int \<Rightarrow> int \<Rightarrow> snake_link list \<Rightarrow> snake_link list \<Rightarrow> preview_cell list" where
  "preview_cells width height start finish snakes ladders =
     (let w = preview_size width; h = preview_size height
      in map (preview_cell w h start finish snakes ladders) [0..w * h - 1])"

text \<open>The curve of a link: both ends, and the control point of a snake.\<close>

definition board_link :: "int \<Rightarrow> int \<Rightarrow> bool \<Rightarrow> snake_link \<Rightarrow> (rat \<times> rat) \<times> (rat \<times> rat) option \<times> (rat \<times> rat)" where
  "board_link w h curved l =
     (let from = cellCenterPercent (link_start l) w h; to = cellCenterPercent (link_end l) w h
      in (from, if curved then Some (fl (fl (fl (fst from + fst to) / 2) + 8), fl (fl (snd from + snd to) / 2)) else None, to))"

section \<open>The layout fits the canvas\<close>

lemma div_le_self:
  fixes a c :: int
  assumes "0 \<le> a" "0 < c"
  shows "a div c \<le> a"
proof -
  have "a div c \<le> a div 1" by (rule zdiv_mono2) (use assms in simp_all)
  then show ?thesis by simp
qed

lemma div_mult_below: "0 < c \<Longrightarrow> a div c * c \<le> a" for a c :: int
  using pos_mod_sign [of c a] div_mult_mod_eq [of a c] by linarith

lemma floor_fl_div:
  fixes a c :: int
  assumes "0 \<le> a" "a < 2 ^ 20" "0 < c"
  shows "\<lfloor>fl (of_int a / of_int c)\<rfloor> = a div c"
proof (cases "a mod c = 0")
  case True
  then have "a = c * (a div c)" using div_mult_mod_eq [of a c] by (simp add: mult.commute)
  then have "(of_int a :: rat) = of_int c * of_int (a div c)" by (metis of_int_mult)
  then have "(of_int a / of_int c :: rat) = of_int (a div c)" using assms(3) by simp
  moreover have "\<bar>a div c\<bar> \<le> 2 ^ 53"
    using div_le_self [OF assms(1,3)] pos_imp_zdiv_nonneg_iff [OF assms(3), of a] assms(1,2) by simp
  ultimately show ?thesis using fl_of_int by simp
next
  case False
  define k r where "k = a div c" and "r = a mod c"
  have a: "a = k * c + r" by (simp add: k_def r_def)
  have r: "1 \<le> r" "r \<le> c - 1"
    using False pos_mod_bound [OF assms(3), of a] pos_mod_sign [OF assms(3), of a] unfolding r_def by linarith+
  let ?q = "of_int a / of_int c :: rat"
  have c0: "(0 :: rat) < of_int c" using assms(3) by simp
  have q: "?q = of_int k + of_int r / of_int c" using c0 by (simp add: a add_divide_distrib)
  have "(1 :: rat) \<le> of_int r" using r(1) by simp
  then have lo: "of_int k + 1 / of_int c \<le> ?q" using c0 by (simp add: q divide_right_mono)
  have "of_int r \<le> (of_int (c - 1) :: rat)" using r(2) by (simp only: of_int_le_iff)
  then have "of_int r / of_int c \<le> (of_int (c - 1) / of_int c :: rat)" using c0 by (intro divide_right_mono) simp_all
  moreover have "(of_int (c - 1) / of_int c :: rat) = 1 - 1 / of_int c" using c0 by (simp add: diff_divide_distrib)
  ultimately have hi: "?q \<le> of_int k + 1 - 1 / of_int c" by (simp add: q)
  have a53: "(of_int a :: rat) < 2 ^ 53"
  proof -
    have "(of_int a :: rat) < of_int (2 ^ 53)" using assms(2) by (simp only: of_int_less_iff) simp
    then show ?thesis by simp
  qed
  have "\<bar>fl ?q - ?q\<bar> \<le> \<bar>?q\<bar> / 2 ^ 53" by (rule fl_error)
  also have "\<dots> = of_int a / 2 ^ 53 / of_int c" using assms(1) c0 by simp
  also have "\<dots> < 1 / of_int c" using a53 c0 by (intro divide_strict_right_mono) simp_all
  finally have "\<lfloor>fl ?q\<rfloor> = k" by (rule floor_near [OF lo hi])
  then show ?thesis by (simp add: k_def)
qed


lemma cellSize_exact:
  assumes "0 \<le> aw" "aw < 2 ^ 20" "0 \<le> ah" "ah < 2 ^ 20" "0 < cols" "0 < rows"
  shows "\<lfloor>min (fl (of_int aw / of_int cols)) (fl (of_int ah / of_int rows))\<rfloor> = min (aw div cols) (ah div rows)"
proof -
  have "\<lfloor>min x y\<rfloor> = min \<lfloor>x\<rfloor> \<lfloor>y\<rfloor>" for x y :: rat by (simp add: min_def floor_mono antisym)
  then show ?thesis using assms by (simp add: floor_fl_div)
qed

lemma layout_fields:
  assumes "0 < cols" "0 < rows"
  defines "l \<equiv> calculateLayout 720 780 cols rows"
  shows "bl_cols l = cols" "bl_rows l = rows" "bl_cellSize l = min (672 div cols) (650 div rows)"
    "bl_boardWidth l = bl_cellSize l * cols" "bl_boardHeight l = bl_cellSize l * rows"
    "bl_offsetX l = (721 - bl_boardWidth l) div 2" "bl_offsetY l = (863 - bl_boardHeight l) div 2"
proof -
  have c: "\<lfloor>min (fl (672 / of_int cols)) (fl (650 / of_int rows))\<rfloor> = min (672 div cols) (650 div rows)"
    using cellSize_exact [of 672 650 cols rows] assms by simp
  show "bl_cols l = cols" "bl_rows l = rows" "bl_cellSize l = min (672 div cols) (650 div rows)"
    "bl_boardWidth l = bl_cellSize l * cols" "bl_boardHeight l = bl_cellSize l * rows"
    by (simp_all add: l_def calculateLayout_def Let_def c)
  have half: "\<lfloor>(of_int a / 2 + 1 / 2 :: rat)\<rfloor> = (a + 1) div 2" for a
  proof -
    have "(of_int a / 2 + 1 / 2 :: rat) = of_int (a + 1) / of_int 2" by simp
    then show ?thesis by (simp only: floor_divide_of_int_eq)
  qed
  show "bl_offsetX l = (721 - bl_boardWidth l) div 2"
    using half [of "720 - bl_boardWidth l"] by (simp add: l_def calculateLayout_def Let_def js_round_def algebra_simps)
  show "bl_offsetY l = (863 - bl_boardHeight l) div 2"
  proof -
    have "bl_offsetY l = \<lfloor>(82 + of_int (698 - bl_boardHeight l) / 2 + 1 / 2 :: rat)\<rfloor>"
      by (simp add: l_def calculateLayout_def Let_def js_round_def)
    moreover have "(82 + of_int (698 - bl_boardHeight l) / 2 + 1 / 2 :: rat) = of_int (862 - bl_boardHeight l) / 2 + 1 / 2"
      by (simp add: field_simps)
    ultimately show ?thesis using half [of "862 - bl_boardHeight l"] by (simp del: of_int_diff)
  qed
qed

lemma layout_bounds:
  assumes "2 \<le> cols" "cols \<le> 10" "2 \<le> rows" "rows \<le> 10"
  defines "l \<equiv> calculateLayout 720 780 cols rows"
  shows "65 \<le> bl_cellSize l" "bl_cellSize l \<le> 336" "24 \<le> bl_offsetX l" "bl_offsetX l + bl_cellSize l * cols \<le> 696"
    "106 \<le> bl_offsetY l" "bl_offsetY l + bl_cellSize l * rows \<le> 756"
proof -
  have pos: "0 < cols" "0 < rows" using assms by simp_all
  note f = layout_fields [OF pos, folded l_def]
  have "672 div 10 \<le> 672 div cols" "650 div 10 \<le> 650 div rows" "672 div cols \<le> 672 div 2"
    by (intro zdiv_mono2; use assms in simp)+
  then show "65 \<le> bl_cellSize l" "bl_cellSize l \<le> 336" unfolding f by simp_all
  have "bl_cellSize l * cols \<le> 672 div cols * cols" using f(3) pos by (intro mult_right_mono) simp_all
  then have w: "bl_boardWidth l \<le> 672" using f(4) div_mult_below [OF pos(1), of 672] by simp
  have "bl_cellSize l * rows \<le> 650 div rows * rows" using f(3) pos by (intro mult_right_mono) simp_all
  then have h: "bl_boardHeight l \<le> 650" using f(5) div_mult_below [OF pos(2), of 650] by simp
  show "24 \<le> bl_offsetX l" "106 \<le> bl_offsetY l" using w h f(6,7) by linarith+
  have "bl_offsetX l + bl_boardWidth l \<le> 696" "bl_offsetY l + bl_boardHeight l \<le> 756" using w h f(6,7) by linarith+
  then show "bl_offsetX l + bl_cellSize l * cols \<le> 696" "bl_offsetY l + bl_cellSize l * rows \<le> 756" using f(4,5) by simp_all
qed


section \<open>Cells and tokens\<close>

lemma drawBoard_cells:
  assumes "0 < bl_cols l" "0 < bl_rows l"
  shows "\<exists>cells. drawBoard l start finish = Inr cells \<and> map fst cells = [1..bl_cols l * bl_rows l]
    \<and> (\<forall>i x y. mapToGrid i (bl_cols l) (bl_rows l) = Inr (x, y) \<longrightarrow>
          (\<exists>m. (i, bl_offsetX l + x * bl_cellSize l, bl_offsetY l + y * bl_cellSize l, m) \<in> set cells))"
proof -
  let ?s = "case start of Some s \<Rightarrow> s | None \<Rightarrow> 1" and ?e = "case finish of Some e \<Rightarrow> e | None \<Rightarrow> bl_cols l * bl_rows l"
  have one: "\<exists>c. draw_cell l ?s ?e i = Inr c \<and> fst c = i" if "i \<in> set [1..bl_cols l * bl_rows l]" for i
  proof -
    have "1 \<le> i" "i \<le> bl_cols l * bl_rows l" using that by auto
    with assms(1) obtain x y where "mapToGrid i (bl_cols l) (bl_rows l) = Inr (x, y)" by (rule mapToGrid_ok) blast
    then show ?thesis by (simp add: draw_cell_def)
  qed
  have run: "(\<forall>i \<in> set is. \<exists>c. draw_cell l ?s ?e i = Inr c \<and> fst c = i) \<Longrightarrow>
      \<exists>cells. map_res (draw_cell l ?s ?e) is = Inr cells \<and> map fst cells = is
        \<and> (\<forall>i \<in> set is. \<exists>c \<in> set cells. draw_cell l ?s ?e i = Inr c)" for "is"
    by (induction "is") fastforce+
  obtain cells where cells: "drawBoard l start finish = Inr cells" "map fst cells = [1..bl_cols l * bl_rows l]"
      "\<forall>i \<in> set [1..bl_cols l * bl_rows l]. \<exists>c \<in> set cells. draw_cell l ?s ?e i = Inr c"
    using run [of "[1..bl_cols l * bl_rows l]"] one by (auto simp: drawBoard_def Let_def)
  have "\<exists>m. (i, bl_offsetX l + x * bl_cellSize l, bl_offsetY l + y * bl_cellSize l, m) \<in> set cells"
    if g: "mapToGrid i (bl_cols l) (bl_rows l) = Inr (x, y)" for i x y
  proof -
    have "i \<in> set [1..bl_cols l * bl_rows l]" using g by (auto simp: mapToGrid_def split: if_splits)
    with cells(3) obtain c where "c \<in> set cells" "draw_cell l ?s ?e i = Inr c" by blast
    then show ?thesis using g by (auto simp: draw_cell_def)
  qed
  with cells show ?thesis by blast
qed

lemma token_spread_range:
  assumes "65 \<le> c" "c \<le> 336"
  shows "7 \<le> token_spread c \<and> token_spread c \<le> of_int c * (17 / 100)"
proof -
  have c: "(65 :: rat) \<le> of_int c" "of_int c \<le> (336 :: rat)" using assms by simp_all
  let ?f = "fl (16 / 100)"
  have f: "16 / 100 - 1 / 1000000 \<le> ?f" "?f \<le> 16 / 100 + 1 / 1000000"
    using fl_between [of "16 / 100" "16 / 100" "16 / 100"] by simp_all
  have up: "of_int c * ?f \<le> of_int c * (160001 / 1000000)" using f c by (intro mult_left_mono) simp_all
  have "0 \<le> of_int c * ?f" using f c by (intro mult_nonneg_nonneg) simp_all
  then have "\<bar>of_int c * ?f\<bar> \<le> 1000" using up c by linarith
  from fl_close [OF this] have "fl (of_int c * ?f) \<le> of_int c * (17 / 100)" using up c by linarith
  then show ?thesis using c by (simp add: token_spread_def)
qed

lemma fl_inside:
  assumes "lo + 1 / 1000 \<le> v" "v \<le> hi - 1 / 1000" "-1000 \<le> lo" "hi \<le> 1000"
  shows "lo < fl v \<and> fl v < hi"
  using fl_between [of "lo + 1 / 1000" v "hi - 1 / 1000"] assms by linarith

lemma token_in_cell:
  assumes "65 \<le> bl_cellSize l" "bl_cellSize l \<le> 336" "0 \<le> bl_offsetX l + x * bl_cellSize l" "bl_offsetX l + x * bl_cellSize l + bl_cellSize l \<le> 720"
    "0 \<le> bl_offsetY l + y * bl_cellSize l" "bl_offsetY l + y * bl_cellSize l + bl_cellSize l \<le> 780"
    "mapToGrid (clamp position 1 (bl_cols l * bl_rows l)) (bl_cols l) (bl_rows l) = Inr (x, y)"
  shows "\<exists>tx ty. tokenPoint clamp l position isPlayer = Inr (tx, ty)
    \<and> of_int (bl_offsetX l + x * bl_cellSize l) < tx \<and> tx < of_int (bl_offsetX l + x * bl_cellSize l + bl_cellSize l)
    \<and> of_int (bl_offsetY l + y * bl_cellSize l) < ty \<and> ty < of_int (bl_offsetY l + y * bl_cellSize l + bl_cellSize l)"
proof -
  define c px py where "c = (of_int (bl_cellSize l) :: rat)" and "px = (of_int (bl_offsetX l + x * bl_cellSize l) :: rat)"
    and "py = (of_int (bl_offsetY l + y * bl_cellSize l) :: rat)"
  have b: "65 \<le> c" "c \<le> 336" "0 \<le> px" "px + c \<le> 720" "0 \<le> py" "py + c \<le> 780"
    unfolding c_def px_def py_def of_int_add [symmetric]
    using assms(1-6) by (simp_all only: of_int_le_numeral_iff of_int_numeral_le_iff of_int_0_le_iff)
  define s where "s = token_spread (bl_cellSize l)"
  have s: "7 \<le> s" "s \<le> c * (17 / 100)" using token_spread_range [OF assms(1,2)] by (simp_all add: s_def c_def)
  let ?u = "fl (s * fl (35 / 100))"
  have f: "0 \<le> fl (35 / 100)" "fl (35 / 100) \<le> 1" using fl_between [of "35 / 100" "35 / 100" "35 / 100"] by simp_all
  have "0 \<le> s * fl (35 / 100)" using f s by (intro mult_nonneg_nonneg) simp_all
  moreover have "s * fl (35 / 100) \<le> s" using f s mult_left_mono [of "fl (35 / 100)" 1 s] by simp
  ultimately have u: "- (1 / 1000000) \<le> ?u" "?u \<le> s + 1 / 1000000"
    using fl_between [of 0 "s * fl (35 / 100)" s] s b by simp_all
  define d where "d = (if isPlayer then - s else s)"
  have d: "- s \<le> d" "d \<le> s" using s by (simp_all add: d_def)
  have x: "px < fl (px + c / 2 + d) \<and> fl (px + c / 2 + d) < px + c" by (rule fl_inside) (use b s d in linarith)+
  have y: "py < fl (py + c / 2 + ?u) \<and> fl (py + c / 2 + ?u) < py + c" by (rule fl_inside) (use b s u in linarith)+
  have "tokenPoint clamp l position isPlayer = Inr (fl (px + c / 2 + d), fl (py + c / 2 + ?u))"
    using assms(7) by (simp add: tokenPoint_def cellCenter_def Let_def s_def d_def c_def px_def py_def)
  moreover have "of_int (bl_offsetX l + x * bl_cellSize l + bl_cellSize l) = px + c" "of_int (bl_offsetY l + y * bl_cellSize l + bl_cellSize l) = py + c"
    by (simp_all add: px_def py_def c_def)
  ultimately show ?thesis using x y unfolding px_def [symmetric] py_def [symmetric] by auto
qed


text \<open>
  For the boards the form offers, the board lies on the canvas below the status line, every cell is drawn once, and each
  token is drawn inside the cell of its position; a position off the board is drawn on the first or the last cell.
\<close>

theorem snakes_board_drawn:
  assumes "2 \<le> cols" "cols \<le> 10" "2 \<le> rows" "rows \<le> 10" "clamp_law clamp"
  shows "let l = calculateLayout 720 780 cols rows; c = bl_cellSize l in
    0 < c \<and> 24 \<le> bl_offsetX l \<and> bl_offsetX l + bl_boardWidth l \<le> 696 \<and> 106 \<le> bl_offsetY l \<and> bl_offsetY l + bl_boardHeight l \<le> 756
    \<and> (\<exists>cells. drawBoard l start finish = Inr cells \<and> map fst cells = [1..cols * rows]
      \<and> (\<forall>position isPlayer. \<exists>left top mark tx ty.
            (max 1 (min (cols * rows) position), left, top, mark) \<in> set cells
            \<and> tokenPoint clamp l position isPlayer = Inr (tx, ty)
            \<and> of_int left < tx \<and> tx < of_int (left + c) \<and> of_int top < ty \<and> ty < of_int (top + c)))"
proof -
  let ?l = "calculateLayout 720 780 cols rows" and ?c = "bl_cellSize (calculateLayout 720 780 cols rows)"
  note b = layout_bounds [OF assms(1-4)]
  have pos: "0 < cols" "0 < rows" using assms by simp_all
  note f = layout_fields [OF pos]
  obtain cells where cells: "drawBoard ?l start finish = Inr cells" "map fst cells = [1..cols * rows]"
    "\<forall>i x y. mapToGrid i cols rows = Inr (x, y) \<longrightarrow> (\<exists>m. (i, bl_offsetX ?l + x * ?c, bl_offsetY ?l + y * ?c, m) \<in> set cells)"
    using drawBoard_cells [of ?l start finish] pos f(1,2) by auto
  have "\<exists>left top mark tx ty. (max 1 (min (cols * rows) position), left, top, mark) \<in> set cells
      \<and> tokenPoint clamp ?l position isPlayer = Inr (tx, ty)
      \<and> of_int left < tx \<and> tx < of_int (left + ?c) \<and> of_int top < ty \<and> ty < of_int (top + ?c)" for position isPlayer
  proof -
    have size: "1 \<le> cols * rows" using mult_mono [of 1 cols 1 rows] pos by simp
    let ?p = "max 1 (min (cols * rows) position)"
    have p: "clamp position 1 (cols * rows) = ?p" using clamp_lawD [OF assms(5) size] .
    have pr: "1 \<le> ?p" "?p \<le> cols * rows" using size by simp_all
    obtain x y where g: "mapToGrid ?p cols rows = Inr (x, y)" "0 \<le> x" "x < cols" "0 \<le> y" "y < rows"
      by (rule mapToGrid_ok [OF pos(1) pr])
    have "0 \<le> x * ?c" "0 \<le> y * ?c" using g b by simp_all
    moreover have "(x + 1) * ?c \<le> ?c * cols" "(y + 1) * ?c \<le> ?c * rows"
      using g b(1) mult_left_mono [of "x + 1" cols ?c] mult_left_mono [of "y + 1" rows ?c] by (simp_all add: mult.commute)
    then have "x * ?c + ?c \<le> ?c * cols" "y * ?c + ?c \<le> ?c * rows" by (simp_all add: algebra_simps)
    ultimately have "\<exists>tx ty. tokenPoint clamp ?l position isPlayer = Inr (tx, ty)
      \<and> of_int (bl_offsetX ?l + x * ?c) < tx \<and> tx < of_int (bl_offsetX ?l + x * ?c + ?c)
      \<and> of_int (bl_offsetY ?l + y * ?c) < ty \<and> ty < of_int (bl_offsetY ?l + y * ?c + ?c)"
      using b by (intro token_in_cell) (linarith | simp only: f(1,2) p g(1))+
    with cells(3) g(1) show ?thesis by blast
  qed
  moreover have "0 < ?c" "bl_offsetX ?l + bl_boardWidth ?l \<le> 696" "bl_offsetY ?l + bl_boardHeight ?l \<le> 756"
    using b f(4,5) by linarith+
  ultimately show ?thesis unfolding Let_def using b(3,5) cells(1,2) by blast
qed

theorem snakes_board_drawn_witness:
  "\<exists>cells. drawBoard (calculateLayout 720 780 6 6) None None = Inr cells \<and> map fst cells = [1..36]"
  using snakes_board_drawn [of 6 6 std_clamp None None, OF _ _ _ _ std_clamp_law] by (simp add: Let_def) blast

text \<open>The die shows as many spots as its value.\<close>

lemma facePips_length:
  assumes "1 \<le> face" "face \<le> 6"
  shows "int (length (facePips box face)) = face"
proof -
  have "face \<in> {1, 2, 3, 4, 5, 6}" using assms by auto
  then show ?thesis by (auto simp: facePips_def Let_def)
qed

text \<open>
  The cells of the preview, read row by row, carry the numbers under which the game draws them: every cell once, and the
  cell in row \<open>y\<close> and column \<open>x\<close> is the one the game maps there.
\<close>

theorem preview_numbers_game_cells:
  assumes "0 \<le> x" "x < preview_size width" "0 \<le> y" "y < preview_size height"
  shows "let w = preview_size width; h = preview_size height; cells = preview_cells width height start finish snakes ladders in
    length cells = nat (w * h)
    \<and> mapToGrid (pc_cell (cells ! nat (y * w + x))) w h = Inr (x, y)"
proof -
  let ?w = "preview_size width" and ?h = "preview_size height"
  have "(y + 1) * ?w \<le> ?h * ?w" using assms by (intro mult_right_mono) simp_all
  then have i: "0 \<le> y * ?w + x" "y * ?w + x < ?w * ?h" using assms by (simp_all add: algebra_simps)
  have len: "length (preview_cells width height start finish snakes ladders) = nat (?w * ?h)"
    by (simp add: preview_cells_def Let_def)
  have "preview_cells width height start finish snakes ladders ! nat (y * ?w + x)
      = preview_cell ?w ?h start finish snakes ladders (y * ?w + x)"
    using i by (simp add: preview_cells_def Let_def nth_upto)
  moreover have "(y * ?w + x) div ?w = y" "(y * ?w + x) mod ?w = x" using assms by simp_all
  ultimately show ?thesis using len cellAt_ok [OF assms] by (simp add: preview_cell_def Let_def)
qed

theorem preview_numbers_game_cells_witness:
  "mapToGrid (pc_cell (preview_cells 0 0 1 36 [] [] ! nat (1 * preview_size 0 + 2))) (preview_size 0) (preview_size 0) = Inr (2, 1)"
proof -
  have "(0::int) \<le> 2" "2 < preview_size 0" "(0::int) \<le> 1" "1 < preview_size 0" by (simp_all add: preview_size_def)
  from preview_numbers_game_cells [OF this, of 1 36 "[]" "[]"] show ?thesis by (simp add: Let_def)
qed

end
