(* ===== verification/MemoryContrast.thy ===== *)
theory MemoryContrast
  imports MemoryPalette
begin

text \<open>
  Which text colour the memory cards use (\<open>packages/engine/src/games/memory/MemoryPalette.ts\<close>): the contrast of a colour with
  white and with dark text, in double arithmetic. The power \<open>x ** 2.4\<close> of the host is the parameter \<open>pow\<close>; JavaScript leaves
  its last digits to the implementation.
\<close>

section \<open>Colours\<close>

definition hex_value :: "char \<Rightarrow> int" where
  "hex_value c = (if is_digit c then int (code c) - 48 else if code c \<ge> 97 then int (code c) - 87 else int (code c) - 55)"

definition hex_pair :: "string \<Rightarrow> int" where
  "hex_pair s = foldl (\<lambda>n c. n * 16 + hex_value c) 0 s"

definition hexToRgb :: "string \<Rightarrow> (int \<times> int \<times> int) option" where
  "hexToRgb hex =
     (let normalized = trim hex
      in if \<not> hex_color_string normalized then None
         else Some (hex_pair (substring 1 3 normalized), hex_pair (substring 3 5 normalized), hex_pair (substring 5 7 normalized)))"

definition channel_luminance :: "(rat \<Rightarrow> rat) \<Rightarrow> int \<Rightarrow> rat" where
  "channel_luminance pow n =
     (let normalized = fl (of_int n / 255)
      in if normalized \<le> fl (3928 / 100000) then fl (normalized / fl (1292 / 100))
         else pow (fl (fl (normalized + fl (55 / 1000)) / fl (1055 / 1000))))"

definition relativeLuminance :: "(rat \<Rightarrow> rat) \<Rightarrow> int \<times> int \<times> int \<Rightarrow> rat" where
  "relativeLuminance pow = (\<lambda>(r, g, b).
     fl (fl (fl (channel_luminance pow r * fl (2126 / 10000)) + fl (channel_luminance pow g * fl (7152 / 10000)))
       + fl (channel_luminance pow b * fl (722 / 10000))))"

definition contrastRatio :: "(rat \<Rightarrow> rat) \<Rightarrow> int \<times> int \<times> int \<Rightarrow> int \<times> int \<times> int \<Rightarrow> rat" where
  "contrastRatio pow a b =
     (let luminanceA = relativeLuminance pow a; luminanceB = relativeLuminance pow b;
          lighter = max luminanceA luminanceB; darker = min luminanceA luminanceB
      in fl (fl (lighter + fl (5 / 100)) / fl (darker + fl (5 / 100))))"

definition getMemoryReadableTextColor :: "(rat \<Rightarrow> rat) \<Rightarrow> string \<Rightarrow> string" where
  "getMemoryReadableTextColor pow background =
     (case hexToRgb background of
        None \<Rightarrow> ''#ffffff''
      | Some rgb \<Rightarrow>
          let whiteContrast = contrastRatio pow rgb (255, 255, 255); darkContrast = contrastRatio pow rgb (15, 23, 42)
          in if whiteContrast \<ge> darkContrast then ''#ffffff'' else ''#0f172a'')"

record card_style =
  sty_backgroundColor :: string
  sty_backgroundImage :: string
  sty_backgroundBlendMode :: "string option"
  sty_color :: string

definition getMemoryBackCardStyle :: "(rat \<Rightarrow> rat) \<Rightarrow> json option \<Rightarrow> card_style" where
  "getMemoryBackCardStyle pow color =
     (let backColor = normalizeMemoryBackColor color
      in \<lparr>sty_backgroundColor = backColor,
          sty_backgroundImage = join '', ''
            [''radial-gradient(circle at 20% 22%, rgba(255,255,255,0.25) 0 7%, transparent 8%)'',
             ''radial-gradient(circle at 78% 28%, rgba(255,255,255,0.18) 0 5%, transparent 6%)'',
             ''radial-gradient(circle at 30% 78%, rgba(255,255,255,0.12) 0 4%, transparent 5%)'',
             ''radial-gradient(circle at 72% 76%, rgba(0,0,0,0.12) 0 4%, transparent 5%)'',
             ''repeating-linear-gradient(135deg, rgba(255,255,255,0.10) 0 12px, rgba(255,255,255,0.02) 12px 24px)''],
          sty_backgroundBlendMode = Some ''soft-light'',
          sty_color = getMemoryReadableTextColor pow backColor\<rparr>)"

definition getMemoryFrontCardStyle :: "(rat \<Rightarrow> rat) \<Rightarrow> string \<Rightarrow> card_style" where
  "getMemoryFrontCardStyle pow color =
     \<lparr>sty_backgroundColor = color,
      sty_backgroundImage = ''linear-gradient(180deg, rgba(255,255,255,0.18) 0%, rgba(255,255,255,0.04) 40%, rgba(0,0,0,0.08) 100%)'',
      sty_backgroundBlendMode = None, sty_color = getMemoryReadableTextColor pow color\<rparr>"

section \<open>Reading colours back\<close>

lemma hex_value_range: "is_hex c \<Longrightarrow> 0 \<le> hex_value c \<and> hex_value c \<le> 15"
  by (auto simp: is_hex_def is_digit_def hex_value_def)

lemma hex_pair_two:
  "is_hex a \<Longrightarrow> is_hex b \<Longrightarrow> 0 \<le> hex_pair [a, b] \<and> hex_pair [a, b] \<le> 255"
  using hex_value_range [of a] hex_value_range [of b] by (simp add: hex_pair_def)

definition rgb_range :: "int \<times> int \<times> int \<Rightarrow> bool" where
  "rgb_range = (\<lambda>(r, g, b). 0 \<le> r \<and> r \<le> 255 \<and> 0 \<le> g \<and> g \<le> 255 \<and> 0 \<le> b \<and> b \<le> 255)"

lemma hex_color_chars:
  assumes "hex_color_string s"
  obtains a b c d e f where "s = [CHR ''#'', a, b, c, d, e, f]" "is_hex a" "is_hex b" "is_hex c"
    "is_hex d" "is_hex e" "is_hex f"
  using assms by (auto simp: hex_color_string_def length_Suc_conv numeral_eq_Suc)

lemma hexToRgb_Some:
  "hex_color_string (trim s) \<Longrightarrow> \<exists>rgb. hexToRgb s = Some rgb \<and> rgb_range rgb"
  by (erule hex_color_chars) (simp add: hexToRgb_def Let_def substring_def rgb_range_def hex_pair_two
      hex_color_string_def numeral_eq_Suc)

lemma hexToRgb_None: "hexToRgb s = None \<longleftrightarrow> \<not> hex_color_string (trim s)"
  by (simp add: hexToRgb_def Let_def)


section \<open>Luminance in double arithmetic\<close>

text \<open>What is asked of \<open>x ** 2.4\<close> on the channels (at most 1, up to rounding): it lies between the cube and the square,
  with a hundred-thousandth to spare on either side.\<close>

definition pow_law :: "(rat \<Rightarrow> rat) \<Rightarrow> bool" where
  "pow_law pow \<longleftrightarrow> (\<forall>x. 0 \<le> x \<and> x \<le> 100001 / 100000 \<longrightarrow>
     0 \<le> pow x \<and> x * x * x - 1 / 100000 \<le> pow x \<and> pow x \<le> x * x + 1 / 100000)"

lemma pow_lawD:
  assumes "pow_law pow" "0 \<le> x" "x \<le> 100001 / 100000"
  shows "0 \<le> pow x" "x * x * x - 1 / 100000 \<le> pow x" "pow x \<le> x * x + 1 / 100000"
  using assms by (auto simp: pow_law_def)

definition gamma_input :: "int \<Rightarrow> rat" where
  "gamma_input n = fl (fl (fl (of_int n / 255) + fl (55 / 1000)) / fl (1055 / 1000))"

lemma quotient_close:
  fixes X y d :: rat
  assumes X: "52 / 1000 \<le> X" "X \<le> 1" and y: "X * (211 / 200) - 3 / 1000000 \<le> y" "y \<le> X * (211 / 200) + 3 / 1000000"
    and d: "1054999 / 1000000 \<le> d" "d \<le> 1055001 / 1000000"
  shows "X - 4 / 1000000 \<le> y / d \<and> y / d \<le> X + 4 / 1000000"
proof -
  have "(X + 4 / 1000000) * (1054999 / 1000000) \<le> (X + 4 / 1000000) * d"
    using d X by (intro mult_left_mono) linarith+
  then have "y \<le> (X + 4 / 1000000) * d" using y(2) X unfolding distrib_right by linarith
  then have 1: "y / d \<le> X + 4 / 1000000" using d(1) by (intro divide_le_eq [THEN iffD2]) auto
  have "(X - 4 / 1000000) * d \<le> (X - 4 / 1000000) * (1055001 / 1000000)"
    using d X by (intro mult_left_mono) linarith+
  then have "(X - 4 / 1000000) * d \<le> y" using y(1) X unfolding left_diff_distrib by linarith
  then have 2: "X - 4 / 1000000 \<le> y / d" using d(1) by (intro le_divide_eq [THEN iffD2]) auto
  from 1 2 show ?thesis by simp
qed

lemma gamma_input_close:
  assumes "0 \<le> n" "n \<le> 255"
  shows "(of_int n / 255 + 55 / 1000) * (200 / 211) - 5 / 1000000 \<le> gamma_input n
       \<and> gamma_input n \<le> (of_int n / 255 + 55 / 1000) * (200 / 211) + 5 / 1000000"
proof -
  define v where "v = (of_int n / 255 :: rat)"
  define X where "X = (v + 55 / 1000) * (200 / 211)"
  define d where "d = fl (1055 / 1000)"
  define y where "y = fl (fl v + fl (55 / 1000))"
  have v: "0 \<le> v" "v \<le> 1" using assms by (simp_all add: v_def)
  have "v - 1 / 1000000 \<le> fl v" "fl v \<le> v + 1 / 1000000" using fl_between [of v v v] v by auto
  moreover have "54999 / 1000000 \<le> fl (55 / 1000)" "fl (55 / 1000) \<le> 55001 / 1000000"
    using fl_between [of "55 / 1000" "55 / 1000" "55 / 1000"] by auto
  ultimately have "v + 54998 / 1000000 \<le> fl v + fl (55 / 1000)" "fl v + fl (55 / 1000) \<le> v + 55002 / 1000000"
    by linarith+
  then have y: "v + 54997 / 1000000 \<le> y" "y \<le> v + 55003 / 1000000"
    using fl_between [of "v + 54998 / 1000000" "fl v + fl (55 / 1000)" "v + 55002 / 1000000"] v by (auto simp: y_def)
  have d: "1054999 / 1000000 \<le> d" "d \<le> 1055001 / 1000000"
    using fl_between [of "1055 / 1000" "1055 / 1000" "1055 / 1000"] by (auto simp: d_def)
  have X: "52 / 1000 \<le> X" "X \<le> 1" and vX: "X * (211 / 200) = v + 55 / 1000"
    using v by (simp_all add: X_def)
  have "X - 4 / 1000000 \<le> y / d \<and> y / d \<le> X + 4 / 1000000"
    by (rule quotient_close [OF X _ _ d]) (use y vX in linarith)+
  then have "X - 5 / 1000000 \<le> fl (y / d) \<and> fl (y / d) \<le> X + 5 / 1000000"
    using fl_between [of "X - 4 / 1000000" "y / d" "X + 4 / 1000000"] X by simp
  then show ?thesis unfolding gamma_input_def v_def [symmetric] d_def [symmetric] y_def [symmetric] X_def [symmetric] .
qed

lemma channel_luminance_cases:
  "channel_luminance pow n =
    (if fl (of_int n / 255) \<le> fl (3928 / 100000) then fl (fl (of_int n / 255) / fl (1292 / 100)) else pow (gamma_input n))"
  by (simp add: channel_luminance_def gamma_input_def Let_def)

lemma dark_branch:
  assumes "0 \<le> n" "fl (of_int n / 255) \<le> fl (3928 / 100000)"
  shows "0 \<le> fl (fl (of_int n / 255) / fl (1292 / 100)) \<and> fl (fl (of_int n / 255) / fl (1292 / 100)) \<le> 306 / 100000"
proof -
  define v where "v = fl (of_int n / 255)"
  define d where "d = fl (1292 / 100)"
  have v: "0 \<le> v" using assms(1) by (simp add: v_def fl_nonneg)
  have "fl (3928 / 100000) \<le> 3929 / 100000" using fl_between [of "3928 / 100000" "3928 / 100000" "3928 / 100000"] by auto
  with assms(2) have v': "v \<le> 3929 / 100000" by (simp add: v_def)
  have d: "1291 / 100 \<le> d" using fl_between [of "1292 / 100" "1292 / 100" "1292 / 100"] by (auto simp: d_def)
  have "0 \<le> v / d" using v d by simp
  moreover have "v / d \<le> 305 / 100000" using v' d by (simp add: pos_divide_le_eq)
  ultimately show ?thesis using fl_between [of 0 "v / d" "305 / 100000"] fl_nonneg [of "v / d"]
    unfolding v_def [symmetric] d_def [symmetric] by simp
qed

lemma channel_upper:
  assumes pow: "pow_law pow" and n: "0 \<le> n" "n \<le> 255"
    and t: "(of_int n / 255 + 55 / 1000) * (200 / 211) + 5 / 1000000 \<le> t" "t * t + 1 / 100000 \<le> u" "306 / 100000 \<le> u"
  shows "0 \<le> channel_luminance pow n \<and> channel_luminance pow n \<le> u"
proof (cases "fl (of_int n / 255) \<le> fl (3928 / 100000)")
  case True
  then show ?thesis using dark_branch [OF n(1) True] t by (simp add: channel_luminance_cases)
next
  case False
  let ?X = "(of_int n / 255 + 55 / 1000) * (200 / 211) :: rat"
  note g = gamma_input_close [OF n]
  have "5 / 1000000 \<le> ?X" "?X \<le> 1" using n by (simp_all add: field_simps)
  with g have r: "0 \<le> gamma_input n" "gamma_input n \<le> 100001 / 100000" by linarith+
  have "gamma_input n \<le> t" using g t by linarith
  then have "gamma_input n * gamma_input n \<le> t * t" using r by (intro mult_mono) simp_all
  with pow_lawD [OF pow r] t False show ?thesis by (simp add: channel_luminance_cases)
qed

lemma channel_unit:
  "pow_law pow \<Longrightarrow> 0 \<le> n \<Longrightarrow> n \<le> 255 \<Longrightarrow> 0 \<le> channel_luminance pow n \<and> channel_luminance pow n \<le> 1001 / 1000"
  by (rule channel_upper [where t = "100001 / 100000"]) (simp_all add: field_simps)

lemma channel_white: "pow_law pow \<Longrightarrow> 9999 / 10000 \<le> channel_luminance pow 255"
proof -
  assume pow: "pow_law pow"
  have g: "999995 / 1000000 \<le> gamma_input 255" "gamma_input 255 \<le> 100001 / 100000"
    using gamma_input_close [of 255] by simp_all
  have "fl (3928 / 100000) \<le> 4 / 100" using fl_between [of "3928 / 100000" "3928 / 100000" "3928 / 100000"] by auto
  moreover have "9 / 10 \<le> fl 1" using fl_between [of 1 1 1] by auto
  ultimately have "channel_luminance pow 255 = pow (gamma_input 255)" by (simp add: channel_luminance_cases)
  moreover have "(999995 / 1000000) * (999995 / 1000000) * (999995 / 1000000) \<le> gamma_input 255 * gamma_input 255 * gamma_input 255"
    using g by (intro mult_mono) simp_all
  ultimately show ?thesis using pow_lawD(2) [OF pow _ g(2)] g by simp
qed

text \<open>One weighted channel.\<close>

lemma weighted:
  assumes "0 \<le> lo" "lo \<le> v" "v \<le> hi" "hi \<le> 2" "0 \<le> c" "c \<le> 1"
  shows "lo * c - 3 / 1000000 \<le> fl (v * fl c) \<and> fl (v * fl c) \<le> hi * c + 3 / 1000000"
proof -
  have c: "c - 1 / 1000000 \<le> fl c" "fl c \<le> c + 1 / 1000000" "0 \<le> fl c"
    using fl_between [of c c c] fl_nonneg [of c] assms by auto
  have "v * fl c \<le> hi * (c + 1 / 1000000)" using assms c by (intro mult_mono) simp_all
  then have 1: "v * fl c \<le> hi * c + 2 / 1000000" using assms by (simp add: algebra_simps)
  have "lo * (c - 1 / 1000000) \<le> lo * fl c" using assms c by (intro mult_left_mono) simp_all
  moreover have "lo * fl c \<le> v * fl c" using assms c by (intro mult_right_mono) simp_all
  ultimately have 2: "lo * c - 2 / 1000000 \<le> v * fl c" using assms by (simp add: algebra_simps)
  have "hi * c \<le> 2 * 1" using assms by (intro mult_mono) simp_all
  moreover have "0 \<le> lo * c" using assms by simp
  ultimately show ?thesis using fl_between [OF 2 1] by simp
qed

lemma luminance_between:
  assumes r: "0 \<le> lr" "lr \<le> channel_luminance pow r" "channel_luminance pow r \<le> hr" "hr \<le> 2"
    and g: "0 \<le> lg" "lg \<le> channel_luminance pow g" "channel_luminance pow g \<le> hg" "hg \<le> 2"
    and b: "0 \<le> lb" "lb \<le> channel_luminance pow b" "channel_luminance pow b \<le> hb" "hb \<le> 2"
  shows "lr * (2126 / 10000) + lg * (7152 / 10000) + lb * (722 / 10000) - 12 / 1000000 \<le> relativeLuminance pow (r, g, b)"
    "relativeLuminance pow (r, g, b) \<le> hr * (2126 / 10000) + hg * (7152 / 10000) + hb * (722 / 10000) + 12 / 1000000"
    "0 \<le> relativeLuminance pow (r, g, b)"
proof -
  define R where "R = fl (channel_luminance pow r * fl (2126 / 10000))"
  define G where "G = fl (channel_luminance pow g * fl (7152 / 10000))"
  define B where "B = fl (channel_luminance pow b * fl (722 / 10000))"
  have R: "lr * (2126 / 10000) - 3 / 1000000 \<le> R" "R \<le> hr * (2126 / 10000) + 3 / 1000000" "0 \<le> R"
    using weighted [OF r, of "2126 / 10000"] r fl_nonneg by (simp_all add: R_def fl_nonneg)
  have G: "lg * (7152 / 10000) - 3 / 1000000 \<le> G" "G \<le> hg * (7152 / 10000) + 3 / 1000000" "0 \<le> G"
    using weighted [OF g, of "7152 / 10000"] g by (simp_all add: G_def fl_nonneg)
  have B: "lb * (722 / 10000) - 3 / 1000000 \<le> B" "B \<le> hb * (722 / 10000) + 3 / 1000000" "0 \<le> B"
    using weighted [OF b, of "722 / 10000"] b by (simp_all add: B_def fl_nonneg)
  have hi: "R + G + B \<le> 10" using R G B r g b by linarith
  have 1: "R + G - 1 / 1000000 \<le> fl (R + G)" "fl (R + G) \<le> R + G + 1 / 1000000" "0 \<le> fl (R + G)"
    using fl_between [of "R + G" "R + G" "R + G"] R G B hi by (simp_all add: fl_nonneg)
  have 2: "fl (R + G) + B - 1 / 1000000 \<le> fl (fl (R + G) + B)" "fl (fl (R + G) + B) \<le> fl (R + G) + B + 1 / 1000000"
      "0 \<le> fl (fl (R + G) + B)"
    using fl_between [of "fl (R + G) + B" "fl (R + G) + B" "fl (R + G) + B"] 1 R G B hi by (simp_all add: fl_nonneg)
  have "relativeLuminance pow (r, g, b) = fl (fl (R + G) + B)"
    by (simp add: relativeLuminance_def R_def G_def B_def)
  then show "lr * (2126 / 10000) + lg * (7152 / 10000) + lb * (722 / 10000) - 12 / 1000000 \<le> relativeLuminance pow (r, g, b)"
    "relativeLuminance pow (r, g, b) \<le> hr * (2126 / 10000) + hg * (7152 / 10000) + hb * (722 / 10000) + 12 / 1000000"
    "0 \<le> relativeLuminance pow (r, g, b)"
    using 1 2 R G B by linarith+
qed

lemma luminance_unit:
  "pow_law pow \<Longrightarrow> rgb_range c \<Longrightarrow> 0 \<le> relativeLuminance pow c \<and> relativeLuminance pow c \<le> 1002 / 1000"
proof (cases c)
  case (fields r g b)
  assume "pow_law pow" "rgb_range c"
  then show ?thesis
    using luminance_between [of 0 pow r "1001 / 1000" 0 g "1001 / 1000" 0 b "1001 / 1000"]
      channel_unit [of pow r] channel_unit [of pow g] channel_unit [of pow b]
    by (simp add: fields rgb_range_def)
qed

lemma luminance_white: "pow_law pow \<Longrightarrow> 9998 / 10000 \<le> relativeLuminance pow (255, 255, 255)"
  using luminance_between(1) [of "9999 / 10000" pow 255 "1001 / 1000" "9999 / 10000" 255 "1001 / 1000" "9999 / 10000" 255 "1001 / 1000"]
    channel_unit [of pow 255] channel_white [of pow] by simp

lemma luminance_dark: "pow_law pow \<Longrightarrow> relativeLuminance pow (15, 23, 42) \<le> 193 / 10000"
  using luminance_between(2) [of 0 pow 15 "117 / 10000" 0 23 "19 / 1000" 0 42 "434 / 10000"]
    channel_upper [of pow 15 "108 / 1000" "117 / 10000"] channel_upper [of pow 23 "1377 / 10000" "19 / 1000"]
    channel_upper [of pow 42 "2083 / 10000" "434 / 10000"] by simp


section \<open>The contrast reached\<close>

lemma contrast_at_least:
  assumes pow: "pow_law pow" and c: "rgb_range c" "rgb_range c'"
    and a: "a \<le> max (relativeLuminance pow c) (relativeLuminance pow c')"
    and b: "min (relativeLuminance pow c) (relativeLuminance pow c') \<le> b"
    and q: "381 * b + 141 / 10 \<le> 100 * a"
  shows "38 / 10 \<le> contrastRatio pow c c'"
proof -
  define hi where "hi = max (relativeLuminance pow c) (relativeLuminance pow c')"
  define lo where "lo = min (relativeLuminance pow c) (relativeLuminance pow c')"
  define n where "n = fl (hi + fl (5 / 100))"
  define d where "d = fl (lo + fl (5 / 100))"
  have u: "0 \<le> lo" "lo \<le> hi" "hi \<le> 1002 / 1000"
    using luminance_unit [OF pow c(1)] luminance_unit [OF pow c(2)] by (auto simp: hi_def lo_def)
  have e: "49999 / 1000000 \<le> fl (5 / 100)" "fl (5 / 100) \<le> 50001 / 1000000"
    using fl_between [of "5 / 100" "5 / 100" "5 / 100"] by auto
  have n: "hi + 49998 / 1000000 \<le> n" "n \<le> 2"
    using fl_between [of "hi + 49999 / 1000000" "hi + fl (5 / 100)" "hi + 50001 / 1000000"] u e by (auto simp: n_def)
  have d: "d \<le> lo + 50002 / 1000000" "4 / 100 \<le> d"
    using fl_between [of "lo + 49999 / 1000000" "lo + fl (5 / 100)" "lo + 50001 / 1000000"] u e by (auto simp: d_def)
  have "381 * d \<le> 100 * n" using n(1) d(1) a b q unfolding hi_def [symmetric] lo_def [symmetric] by linarith
  then have 1: "381 / 100 \<le> n / d" using d(2) by (intro le_divide_eq [THEN iffD2]) auto
  have 2: "n / d \<le> 50" using n(2) d(2) by (intro divide_le_eq [THEN iffD2]) auto
  have "contrastRatio pow c c' = fl (n / d)"
    by (simp only: contrastRatio_def Let_def hi_def lo_def n_def d_def)
  then show ?thesis using fl_between [OF 1 2] by simp
qed

lemma white_or_dark:
  assumes pow: "pow_law pow" and c: "rgb_range c"
  shows "38 / 10 \<le> contrastRatio pow c (255, 255, 255) \<or> 38 / 10 \<le> contrastRatio pow c (15, 23, 42)"
proof (cases "relativeLuminance pow c \<le> 22 / 100")
  case True
  have "38 / 10 \<le> contrastRatio pow c (255, 255, 255)"
    by (rule contrast_at_least [OF pow c, where a = "9998 / 10000" and b = "22 / 100"])
      (use luminance_white [OF pow] True in \<open>auto simp: rgb_range_def\<close>)
  then show ?thesis ..
next
  case False
  have "38 / 10 \<le> contrastRatio pow c (15, 23, 42)"
    by (rule contrast_at_least [OF pow c, where a = "22 / 100" and b = "193 / 10000"])
      (use luminance_dark [OF pow] False in \<open>auto simp: rgb_range_def\<close>)
  then show ?thesis ..
qed

lemma text_colours_read:
  "hexToRgb ''#ffffff'' = Some (255, 255, 255)" "hexToRgb ''#0f172a'' = Some (15, 23, 42)"
  by (simp_all add: hexToRgb_def trim_def is_space_def hex_color_string_def is_hex_def is_digit_def substring_def
      hex_pair_def hex_value_def)

text \<open>The other of the two text colours.\<close>

definition other_text :: "string \<Rightarrow> string" where
  "other_text t = (if t = ''#ffffff'' then ''#0f172a'' else ''#ffffff'')"

lemma normalized_back_color: "lower_hex_color (normalizeMemoryBackColor v)"
proof -
  have "lower_hex_color DEFAULT_MEMORY_BACK_COLOR"
    by (simp add: DEFAULT_MEMORY_BACK_COLOR_def lower_hex_color_def is_lower_hex_def is_digit_def)
  then show ?thesis
    by (simp add: normalizeMemoryBackColor_def to_lower_hex_color split: option.split json.split)
qed

lemma is_hex_not_space: "is_hex c \<Longrightarrow> \<not> is_space c"
  by (auto simp: is_hex_def is_digit_def is_space_def)

lemma trim_hex_color: "hex_color_string s \<Longrightarrow> trim s = s"
proof (erule hex_color_chars)
  fix a b c d e f
  assume "s = [CHR ''#'', a, b, c, d, e, f]" "is_hex f"
  moreover have "\<not> is_space (CHR ''#'')" by (simp add: is_space_def)
  ultimately show "trim s = s" by (simp add: trim_def is_hex_not_space)
qed

lemma getMemoryReadableTextColor_best:
  assumes "hexToRgb s = Some c"
  shows "\<exists>b o'. hexToRgb (getMemoryReadableTextColor pow s) = Some b
    \<and> hexToRgb (other_text (getMemoryReadableTextColor pow s)) = Some o'
    \<and> contrastRatio pow c o' \<le> contrastRatio pow c b
    \<and> (b = (255, 255, 255) \<and> o' = (15, 23, 42) \<or> b = (15, 23, 42) \<and> o' = (255, 255, 255))"
proof (cases "contrastRatio pow c (15, 23, 42) \<le> contrastRatio pow c (255, 255, 255)")
  case True
  have t: "getMemoryReadableTextColor pow s = ''#ffffff''"
    unfolding getMemoryReadableTextColor_def assms option.case Let_def using True by (rule if_P)
  have o': "other_text ''#ffffff'' = ''#0f172a''" by (simp add: other_text_def)
  show ?thesis unfolding t o' text_colours_read using True by blast
next
  case False
  have t: "getMemoryReadableTextColor pow s = ''#0f172a''"
    unfolding getMemoryReadableTextColor_def assms option.case Let_def using False by (rule if_not_P)
  have o': "other_text ''#0f172a'' = ''#ffffff''" by (simp add: other_text_def)
  show ?thesis unfolding t o' text_colours_read using False linear by blast
qed

lemma readable_contrast:
  assumes pow: "pow_law pow" and s: "hexToRgb s = Some c" and c: "rgb_range c"
    and b: "hexToRgb (getMemoryReadableTextColor pow s) = Some b"
  shows "38 / 10 \<le> contrastRatio pow c b"
proof -
  obtain o' where o': "contrastRatio pow c o' \<le> contrastRatio pow c b"
      "b = (255, 255, 255) \<and> o' = (15, 23, 42) \<or> b = (15, 23, 42) \<and> o' = (255, 255, 255)"
    using getMemoryReadableTextColor_best [OF s, of pow] b by auto
  from o'(2) show ?thesis
  proof
    assume "b = (255, 255, 255) \<and> o' = (15, 23, 42)"
    with white_or_dark [OF pow c] o'(1) show ?thesis by auto
  next
    assume "b = (15, 23, 42) \<and> o' = (255, 255, 255)"
    with white_or_dark [OF pow c] o'(1) show ?thesis by auto
  qed
qed

section \<open>Properties\<close>

text \<open>C31: whatever six-digit colour a memory card has, with or without blanks around it, the text put on it is white or
  dark and its contrast with the card is at least 3.8, computed in double arithmetic (above the 3:1 that large text
  needs); the other text colour would give no more. The law asked of the host's \<open>** 2.4\<close> leaves it a rounding error of
  a hundred-thousandth.\<close>

theorem memory_text_readable:
  assumes "pow_law pow" and "hex_color_string (trim s)"
  shows "\<exists>t c b o'. getMemoryReadableTextColor pow s = t \<and> t \<in> {''#ffffff'', ''#0f172a''}
    \<and> hexToRgb s = Some c \<and> hexToRgb t = Some b \<and> hexToRgb (other_text t) = Some o'
    \<and> 38 / 10 \<le> contrastRatio pow c b \<and> contrastRatio pow c o' \<le> contrastRatio pow c b"
proof -
  obtain c where c: "hexToRgb s = Some c" "rgb_range c" using hexToRgb_Some [OF assms(2)] by auto
  obtain b o' where b: "hexToRgb (getMemoryReadableTextColor pow s) = Some b"
      "hexToRgb (other_text (getMemoryReadableTextColor pow s)) = Some o'" "contrastRatio pow c o' \<le> contrastRatio pow c b"
    using getMemoryReadableTextColor_best [OF c(1), of pow] by auto
  have "getMemoryReadableTextColor pow s \<in> {''#ffffff'', ''#0f172a''}"
    using c by (simp add: getMemoryReadableTextColor_def Let_def)
  with b c readable_contrast [OF assms(1) c b(1)] show ?thesis by blast
qed

text \<open>The weighted mean of the square and the cube is one such power.\<close>

definition mean_pow :: "rat \<Rightarrow> rat" where
  "mean_pow x = (3 * (x * x) + 2 * (x * x * x)) / 5"

lemma mean_pow_law: "pow_law mean_pow"
proof -
  have "0 \<le> mean_pow x \<and> x * x * x - 1 / 100000 \<le> mean_pow x \<and> mean_pow x \<le> x * x + 1 / 100000"
    if x: "0 \<le> x" "x \<le> 100001 / 100000" for x
  proof -
    define q where "q = x * x"
    define k where "k = q * x"
    have q: "0 \<le> q" by (simp add: q_def)
    have k: "0 \<le> k" using q x by (simp add: k_def)
    have "q * (x - 1) \<le> 11 / 1000000"
    proof (cases "x \<le> 1")
      case True
      then have "q * (x - 1) \<le> 0" using q by (simp add: mult_nonneg_nonpos)
      then show ?thesis by linarith
    next
      case False
      have "q \<le> (100001 / 100000) * (100001 / 100000)" unfolding q_def using x by (intro mult_mono) linarith+
      then have "q * (x - 1) \<le> (100001 / 100000) * (100001 / 100000) * (1 / 100000)"
        using x False by (intro mult_mono) simp_all
      then show ?thesis by simp
    qed
    then have d: "k - q \<le> 11 / 1000000" by (simp add: k_def right_diff_distrib)
    have p: "5 * mean_pow x = 3 * q + 2 * k" by (simp add: mean_pow_def q_def k_def)
    show ?thesis unfolding q_def [symmetric] k_def [symmetric]
    proof (intro conjI)
      show "0 \<le> mean_pow x" using p q k by linarith
      show "k - 1 / 100000 \<le> mean_pow x" using p d by linarith
      show "mean_pow x \<le> q + 1 / 100000" using p d by linarith
    qed
  qed
  then show ?thesis by (simp add: pow_law_def)
qed

theorem memory_text_readable_witness:
  "\<exists>t c b o'. getMemoryReadableTextColor mean_pow '' #7a8c9f'' = t \<and> t \<in> {''#ffffff'', ''#0f172a''}
    \<and> hexToRgb '' #7a8c9f'' = Some c \<and> hexToRgb t = Some b \<and> hexToRgb (other_text t) = Some o'
    \<and> 38 / 10 \<le> contrastRatio mean_pow c b \<and> contrastRatio mean_pow c o' \<le> contrastRatio mean_pow c b"
  by (rule memory_text_readable [OF mean_pow_law])
    (simp add: trim_def is_space_def hex_color_string_def is_hex_def is_digit_def)

text \<open>Both faces of a card are readable: the back whatever JSON value was stored as its colour, the front for every pair of
  a normalised list.\<close>

lemma memory_cards_readable:
  assumes pow: "pow_law pow" and c: "lower_hex_color f"
  shows "\<exists>s c b. getMemoryBackCardStyle pow v = s \<and> hexToRgb (sty_backgroundColor s) = Some c
      \<and> hexToRgb (sty_color s) = Some b \<and> 38 / 10 \<le> contrastRatio pow c b"
    "\<exists>s c b. getMemoryFrontCardStyle pow f = s \<and> sty_backgroundColor s = f \<and> hexToRgb f = Some c
      \<and> hexToRgb (sty_color s) = Some b \<and> 38 / 10 \<le> contrastRatio pow c b"
proof -
  have *: "\<exists>c b. hexToRgb x = Some c \<and> hexToRgb (getMemoryReadableTextColor pow x) = Some b
      \<and> 38 / 10 \<le> contrastRatio pow c b" if x: "lower_hex_color x" for x
  proof -
    have "hex_color_string x" using x by (rule lower_hex_color_hex)
    then obtain c where c: "hexToRgb x = Some c" "rgb_range c" using hexToRgb_Some [of x] by (auto simp: trim_hex_color)
    then obtain b where "hexToRgb (getMemoryReadableTextColor pow x) = Some b"
      using getMemoryReadableTextColor_best [OF c(1), of pow] by auto
    with c readable_contrast [OF pow c this] show ?thesis by auto
  qed
  show "\<exists>s c b. getMemoryBackCardStyle pow v = s \<and> hexToRgb (sty_backgroundColor s) = Some c
      \<and> hexToRgb (sty_color s) = Some b \<and> 38 / 10 \<le> contrastRatio pow c b"
    using * [OF normalized_back_color [of v]] by (simp add: getMemoryBackCardStyle_def Let_def)
  show "\<exists>s c b. getMemoryFrontCardStyle pow f = s \<and> sty_backgroundColor s = f \<and> hexToRgb f = Some c
      \<and> hexToRgb (sty_color s) = Some b \<and> 38 / 10 \<le> contrastRatio pow c b"
    using * [OF c] by (simp add: getMemoryFrontCardStyle_def)
qed

end
