(* ===== verification/Canvas.thy ===== *)
theory Canvas
  imports JsNumber
begin

text \<open>
  What the scenes put on a Phaser \<open>Graphics\<close> object: the commands called since the last \<open>clear()\<close>, in order. Colours
  are 24-bit integers, lengths and coordinates pixels.
\<close>

type_synonym point = "rat \<times> rat"

datatype draw_op =
    LineStyle rat int rat
  | FillStyle int rat
  | BeginPath
  | MoveTo point
  | LineTo point
  | StrokePath
  | StrokeRect point rat rat
  | FillRoundedRect point rat rat rat
  | StrokeRoundedRect point rat rat rat
  | FillCircle point rat
  | LineBetween point point
  | DrawQuadratic point point point nat

text \<open>The points a path goes through.\<close>

fun path_points :: "draw_op list \<Rightarrow> point list" where
  "path_points [] = []"
| "path_points (MoveTo p # ops) = p # path_points ops"
| "path_points (LineTo p # ops) = p # path_points ops"
| "path_points (op # ops) = path_points ops"

lemma path_points_append [simp]: "path_points (xs @ ys) = path_points xs @ path_points ys"
  by (induction xs rule: path_points.induct) simp_all

lemma path_points_lines [simp]: "path_points (map LineTo ps) = ps"
  by (induction ps) simp_all

text \<open>A line through some points, as the scenes draw it.\<close>

definition polyline :: "point list \<Rightarrow> draw_op list" where
  "polyline ps = (case ps of [] \<Rightarrow> [] | p # ps \<Rightarrow> BeginPath # MoveTo p # map LineTo ps @ [StrokePath])"

lemma path_points_polyline [simp]: "path_points (polyline ps) = ps"
  by (cases ps) (simp_all add: polyline_def)

end
