(* ===== verification/WordSearchStage.thy ===== *)
theory WordSearchStage
  imports Canvas WordSearchScreen GameScreens
begin

text \<open>
  What the word search shows: the graphics of the scene (\<open>src/features/games/WordSearchScene.ts\<close>) and the component around
  it (\<open>src/features/games/WordSearchGame.tsx\<close>). The component listens to the engine as listener 0, the scene as listener 1.
\<close>

section \<open>Drawing\<close>

definition cell_middle :: "point \<Rightarrow> int \<times> int \<Rightarrow> point" where
  "cell_middle off c = (fl (fl (fst off + fl (of_int (fst c) * cellSize)) + fl (cellSize / 2)),
                        fl (fl (snd off + fl (of_int (snd c) * cellSize)) + fl (cellSize / 2)))"

definition drawCursor :: "point \<Rightarrow> int \<times> int \<Rightarrow> draw_op list" where
  "drawCursor off c =
     [LineStyle 3 0x18529d 1,
      StrokeRect (fl (fl (fst off + fl (of_int (fst c) * cellSize)) + 2), fl (fl (snd off + fl (of_int (snd c) * cellSize)) + 2))
        (cellSize - 4) (cellSize - 4)]"

definition drawSelection :: "point \<Rightarrow> (int \<times> int) list \<Rightarrow> draw_op list" where
  "drawSelection off coords =
     (case coords of
        [] \<Rightarrow> []
      | start # rest \<Rightarrow> LineStyle 20 0x000000 (fl (2 / 10)) # BeginPath # MoveTo (cell_middle off start)
          # map (\<lambda>p. LineTo (cell_middle off p)) rest @ [StrokePath])"

definition redrawFound :: "point \<Rightarrow> string list \<Rightarrow> letter_grid \<Rightarrow> nat \<Rightarrow> nat \<Rightarrow> draw_op list" where
  "redrawFound off foundWords g width height =
     concat (map (\<lambda>word.
       case findWordInGrid word g width height of
         Some (c # cs) \<Rightarrow> LineStyle 20 0x4caf50 (fl (4 / 10)) # BeginPath # MoveTo (cell_middle off c)
           # map (\<lambda>p. LineTo (cell_middle off p)) cs @ [StrokePath]
       | _ \<Rightarrow> []) foundWords)"

section \<open>The scene and the component\<close>

record ws_stage =
  wg_scene :: ws_scene
  wg_offset :: point
  wg_texts :: "(point \<times> string) list"
  wg_selection :: "draw_op list"
  wg_foundGraphics :: "draw_op list"
  wg_cursorGraphics :: "draw_op list"
  wg_shown :: word_search_state
  wg_reported :: "int list"

abbreviation wg_engine :: "ws_stage \<Rightarrow> word_search_engine" where
  "wg_engine g \<equiv> sc_engine (wg_scene g)"

text \<open>The callback the scene subscribes.\<close>

definition stage_hears :: "word_search_state \<Rightarrow> ws_stage \<Rightarrow> ws_stage" where
  "stage_hears st g =
     (let g = g\<lparr>wg_foundGraphics := redrawFound (wg_offset g) (ws_foundWords st) (ws_grid st) (ws_width st) (ws_height st)\<rparr>
      in if ws_isFinished st then g\<lparr>wg_reported := wg_reported g @ [int (ws_score st)]\<rparr> else g)"

text \<open>The letters of the grid, row by row.\<close>

definition grid_texts :: "point \<Rightarrow> word_search_state \<Rightarrow> (point \<times> string) list" where
  "grid_texts off st =
     concat (map (\<lambda>y. map (\<lambda>x. (cell_middle off (int x, int y), ws_grid st ! y ! x)) [0..<ws_width st]) [0..<ws_height st])"

text \<open>
  \<open>create\<close> with an engine (without one it returns at once): the layout, the letters, the cursor, the subscription, whose first
  call comes at once, and the words found already. The component has subscribed before.
\<close>

definition stage_create :: "rat \<Rightarrow> rat \<Rightarrow> word_search_engine \<Rightarrow> ws_stage" where
  "stage_create cameraWidth cameraHeight e =
     (let st = we_state e;
          off = (gridOffset cameraWidth (ws_width st), gridOffset cameraHeight (ws_height st));
          g = \<lparr>wg_scene = ws_scene_new 1 e, wg_offset = off, wg_texts = grid_texts off st, wg_selection = [], wg_foundGraphics = [],
               wg_cursorGraphics = drawCursor off (0, 0), wg_shown = st, wg_reported = []\<rparr>;
          g = stage_hears st g
      in g\<lparr>wg_foundGraphics := redrawFound off (ws_foundWords st) (ws_grid st) (ws_width st) (ws_height st)\<rparr>)"

text \<open>The effect of the component: the state is copied, then the engine subscribed.\<close>

definition stage_mount :: "rat \<Rightarrow> rat \<Rightarrow> word_search_engine \<Rightarrow> ws_stage" where
  "stage_mount cameraWidth cameraHeight e = stage_create cameraWidth cameraHeight (word_search_subscribe 0 e)"

text \<open>The drawing calls of the handlers.\<close>

definition paint_selection :: "ws_stage \<Rightarrow> ws_stage" where
  "paint_selection g = g\<lparr>wg_selection := drawSelection (wg_offset g) (sc_selectedCoords (wg_scene g))\<rparr>"

definition paint_cursor :: "ws_stage \<Rightarrow> ws_stage" where
  "paint_cursor g = g\<lparr>wg_cursorGraphics := drawCursor (wg_offset g) (sc_cursor (wg_scene g))\<rparr>"

definition paint_clear :: "ws_stage \<Rightarrow> ws_stage" where
  "paint_clear g = g\<lparr>wg_selection := []\<rparr>"

definition arrow_key :: "string \<Rightarrow> bool" where
  "arrow_key k \<longleftrightarrow> k \<in> {''ArrowRight'', ''ArrowLeft'', ''ArrowDown'', ''ArrowUp''}"

text \<open>What an event makes the scene draw: \<open>s\<close> is the scene before it, \<open>g\<close> already holds the scene after it.\<close>

fun paint :: "rat \<Rightarrow> rat \<Rightarrow> ws_event \<Rightarrow> ws_scene \<Rightarrow> ws_stage \<Rightarrow> ws_stage" where
  "paint cw ch (WsPointerDown x y) s g = (if getGridCoord cw ch (sc_state s) x y \<noteq> None then paint_selection g else g)"
| "paint cw ch (WsPointerMove x y) s g =
     (case getGridCoord cw ch (sc_state s) x y of
        Some c \<Rightarrow> if sc_isSelecting s \<and> straight (sc_selectedCoords s ! 0) c then paint_selection g else g
      | None \<Rightarrow> g)"
| "paint cw ch WsPointerUp s g = (if sc_isSelecting s then paint_clear g else g)"
| "paint cw ch (WsKey k) s g =
     (if arrow_key k
      then (let g = paint_cursor g
            in if sc_isSelecting s \<and> straight (sc_selectedCoords s ! 0) (sc_cursor (wg_scene g)) then paint_selection g else g)
      else if k = ''Enter'' \<or> k = '' '' then (if sc_isSelecting s then paint_clear g else paint_selection g)
      else if k = ''Escape'' \<and> sc_isSelecting s then paint_clear g
      else g)"

text \<open>An event on the stage: the scene's handler with its drawing, and what both listeners do with what they are told during it.\<close>

definition news :: "nat \<Rightarrow> word_search_engine \<Rightarrow> word_search_engine \<Rightarrow> word_search_state list" where
  "news l e e' = drop (length (told l (we_subject e))) (told l (we_subject e'))"

definition stage_act :: "(int \<Rightarrow> int \<Rightarrow> int \<Rightarrow> int) \<Rightarrow> rat \<Rightarrow> rat \<Rightarrow> ws_event \<Rightarrow> ws_stage \<Rightarrow> ws_stage res" where
  "stage_act clamp cw ch ev g =
     bind_res (ws_scene_step clamp cw ch ev (wg_scene g)) (\<lambda>s'.
       let e = wg_engine g; e' = sc_engine s';
           g' = paint cw ch ev (wg_scene g) (g\<lparr>wg_scene := s'\<rparr>);
           g' = fold (\<lambda>st g. g\<lparr>wg_shown := st\<rparr>) (news 0 e e') g'
       in Inr (fold stage_hears (news 1 e e') g'))"

text \<open>The list beside the board: every word, and whether it is struck through.\<close>

definition word_list :: "ws_stage \<Rightarrow> (string \<times> bool) list" where
  "word_list g = map (\<lambda>word. (word, word \<in> set (ws_foundWords (wg_shown g)))) (ws_words (wg_shown g))"

definition shutdown_scene :: "ws_stage \<Rightarrow> ws_stage" where
  "shutdown_scene g = g\<lparr>wg_scene := (wg_scene g)\<lparr>sc_engine := (wg_engine g)\<lparr>we_subject := subject_remove 1 (we_subject (wg_engine g))\<rparr>\<rparr>\<rparr>"

definition stage_unmount :: "ws_stage \<Rightarrow> ws_stage" where
  "stage_unmount g = g\<lparr>wg_scene := (wg_scene g)\<lparr>sc_engine :=
     word_search_destroy ((wg_engine g)\<lparr>we_subject := subject_remove 0 (we_subject (wg_engine g))\<rparr>)\<rparr>\<rparr>"


section \<open>The graphics follow the state\<close>

lemma extend_parts [simp]:
  "sc_isSelecting (extendSelectionTo c s) = sc_isSelecting s" "sc_cursor (extendSelectionTo c s) = sc_cursor s"
  "sc_engine (extendSelectionTo c s) = sc_engine s"
  by (simp_all add: extendSelectionTo_def Let_def)

lemma moveCursor_parts [simp]:
  "sc_isSelecting (moveCursor clamp dx dy s) = sc_isSelecting s" "sc_engine (moveCursor clamp dx dy s) = sc_engine s"
  by (simp_all add: moveCursor_def Let_def)

text \<open>What a scene event does to the engine: nothing, or one word more and every listener told.\<close>

lemma submit_engine:
  assumes "submitSelection s = Inr s'"
  shows "sc_engine s' = sc_engine s \<or> (\<exists>w. new_word (sc_state s) w \<and> \<not> ws_isFinished (sc_state s)
      \<and> sc_engine s' = word_search_notify ((sc_engine s)\<lparr>we_state := ws_found w (sc_state s)\<rparr>))"
proof -
  from assms obtain e' where e': "checkWord (sc_selectedCoords s) (sc_engine s) = Inr e'" "sc_engine s' = e'"
    by (auto simp: submitSelection_def bind_res_eq_Inr)
  show ?thesis using checkWord_cases [OF e'(1)] e'(2) by metis
qed

lemma key_cases [consumes 1, case_names arrow submits starts escapes other]:
  assumes "ws_handleKeyDown clamp k s = Inr s'"
  obtains dx dy where "arrow_key k" "s' = moveCursor clamp dx dy s"
  | "\<not> arrow_key k" "k = ''Enter'' \<or> k = '' ''" "sc_isSelecting s" "submitSelection s = Inr s'"
  | "\<not> arrow_key k" "k = ''Enter'' \<or> k = '' ''" "\<not> sc_isSelecting s" "s' = s\<lparr>sc_isSelecting := True, sc_selectedCoords := [sc_cursor s]\<rparr>"
  | "\<not> arrow_key k" "\<not> (k = ''Enter'' \<or> k = '' '')" "k = ''Escape''" "sc_isSelecting s" "s' = s\<lparr>sc_isSelecting := False, sc_selectedCoords := []\<rparr>"
  | "\<not> arrow_key k" "\<not> (k = ''Enter'' \<or> k = '' '')" "\<not> (k = ''Escape'' \<and> sc_isSelecting s)" "s' = s"
proof (cases "arrow_key k")
  case True
  then have "k = ''ArrowRight'' \<or> k = ''ArrowLeft'' \<or> k = ''ArrowDown'' \<or> k = ''ArrowUp''" by (simp add: arrow_key_def)
  then have "\<exists>dx dy. s' = moveCursor clamp dx dy s" using assms by (elim disjE) (simp_all add: ws_handleKeyDown_def, metis+)
  then show ?thesis using that(1) True by blast
next
  case False
  then have a: "k \<noteq> ''ArrowRight''" "k \<noteq> ''ArrowLeft''" "k \<noteq> ''ArrowDown''" "k \<noteq> ''ArrowUp''" by (simp_all add: arrow_key_def)
  have eq: "Inr s' = (if k = ''Enter'' \<or> k = '' ''
      then (if sc_isSelecting s then submitSelection s
            else Inr (s\<lparr>sc_isSelecting := True, sc_selectedCoords := [sc_cursor s]\<rparr>))
      else if k = ''Escape''
      then Inr (if sc_isSelecting s then s\<lparr>sc_isSelecting := False, sc_selectedCoords := []\<rparr> else s)
      else Inr s)"
    unfolding assms [symmetric] ws_handleKeyDown_def using a by (simp only: if_False simp_thms)
  show ?thesis
  proof (cases "k = ''Enter'' \<or> k = '' ''")
    case True
    show ?thesis
    proof (cases "sc_isSelecting s")
      case sel: True
      then have "submitSelection s = Inr s'" using eq True by (simp only: if_True)
      then show ?thesis using that(2) False True sel by blast
    next
      case sel: False
      then have "s' = s\<lparr>sc_isSelecting := True, sc_selectedCoords := [sc_cursor s]\<rparr>" using eq True by (simp only: if_True if_False sum.inject)
      then show ?thesis using that(3) False True sel by blast
    qed
  next
    case nEnter: False
    show ?thesis
    proof (cases "k = ''Escape'' \<and> sc_isSelecting s")
      case True
      then have "s' = s\<lparr>sc_isSelecting := False, sc_selectedCoords := []\<rparr>" using eq nEnter by (simp only: if_True if_False sum.inject simp_thms)
      then show ?thesis using that(4) False True nEnter by blast
    next
      case nEsc: False
      then have "s' = s" using eq nEnter by (cases "k = ''Escape''") (simp_all only: if_True if_False sum.inject simp_thms)
      then show ?thesis using that(5) False nEsc nEnter by blast
    qed
  qed
qed

lemma scene_step_submits:
  assumes "ws_scene_step clamp cw ch ev s = Inr s'"
  shows "sc_engine s' = sc_engine s \<or> submitSelection s = Inr s'"
proof (cases ev)
  case (WsPointerDown x y)
  then have "s' = handlePointerDown (getGridCoord cw ch (sc_state s) x y) s" using assms by simp
  then show ?thesis by (simp add: handlePointerDown_def split: option.split)
next
  case (WsPointerMove x y)
  then have "s' = handlePointerMove (getGridCoord cw ch (sc_state s) x y) s" using assms by simp
  then show ?thesis by (simp add: handlePointerMove_def split: option.split)
next
  case WsPointerUp
  then show ?thesis using assms by (simp add: handlePointerUp_def split: if_splits)
next
  case (WsKey k)
  then have "ws_handleKeyDown clamp k s = Inr s'" using assms by simp
  then show ?thesis by (cases rule: key_cases) simp_all
qed

lemma scene_step_engine:
  assumes "ws_scene_step clamp cw ch ev s = Inr s'"
  obtains (same) "sc_engine s' = sc_engine s"
  | (found) w where "new_word (sc_state s) w" "\<not> ws_isFinished (sc_state s)"
      "sc_engine s' = word_search_notify ((sc_engine s)\<lparr>we_state := ws_found w (sc_state s)\<rparr>)"
  using scene_step_submits [OF assms] submit_engine [of s s'] by blast

definition drawn_selection :: "ws_stage \<Rightarrow> bool" where
  "drawn_selection g \<longleftrightarrow> wg_selection g = drawSelection (wg_offset g) (sc_selectedCoords (wg_scene g))
     \<and> (\<not> sc_isSelecting (wg_scene g) \<longrightarrow> sc_selectedCoords (wg_scene g) = [])
     \<and> wg_cursorGraphics g = drawCursor (wg_offset g) (sc_cursor (wg_scene g))"

definition stage_ok :: "ws_stage \<Rightarrow> bool" where
  "stage_ok g \<longleftrightarrow> scene_ok (wg_scene g) \<and> drawn_selection g
     \<and> subject_wf (we_subject (wg_engine g)) \<and> {0, 1} \<subseteq> set (listeners (we_subject (wg_engine g)))
     \<and> wg_shown g = we_state (wg_engine g)
     \<and> wg_foundGraphics g = (let st = we_state (wg_engine g)
          in redrawFound (wg_offset g) (ws_foundWords st) (ws_grid st) (ws_width st) (ws_height st))
     \<and> wg_reported g = (if ws_isFinished (we_state (wg_engine g)) then [int (ws_score (we_state (wg_engine g)))] else [])"

lemma drawSelection_Nil [simp]: "drawSelection off [] = []"
  by (simp add: drawSelection_def)

lemma paint_parts [simp]:
  "wg_scene (paint cw ch ev s g) = wg_scene g" "wg_offset (paint cw ch ev s g) = wg_offset g"
  "wg_shown (paint cw ch ev s g) = wg_shown g" "wg_reported (paint cw ch ev s g) = wg_reported g"
  "wg_foundGraphics (paint cw ch ev s g) = wg_foundGraphics g" "wg_texts (paint cw ch ev s g) = wg_texts g"
  by (cases ev; simp add: paint_selection_def paint_cursor_def paint_clear_def Let_def split: option.split)+

text \<open>Painting after an event keeps selection and cursor on the screen true.\<close>

lemma drawn_now:
  "drawn_selection g \<longleftrightarrow> wg_selection g = drawSelection (wg_offset g) (sc_selectedCoords (wg_scene g))
     \<and> (sc_isSelecting (wg_scene g) \<or> sc_selectedCoords (wg_scene g) = [])
     \<and> wg_cursorGraphics g = drawCursor (wg_offset g) (sc_cursor (wg_scene g))"
  by (auto simp: drawn_selection_def)

lemma submit_parts:
  "submitSelection s = Inr s' \<Longrightarrow> \<not> sc_isSelecting s' \<and> sc_selectedCoords s' = [] \<and> sc_cursor s' = sc_cursor s"
  by (auto simp: submitSelection_def bind_res_eq_Inr)

lemma extend_same: "\<not> straight (sc_selectedCoords s ! 0) c \<Longrightarrow> extendSelectionTo c s = s"
  by (auto simp: extendSelectionTo_def straight_def Let_def)

lemma moveCursor_same:
  "\<not> sc_isSelecting s \<or> \<not> straight (sc_selectedCoords s ! 0) (sc_cursor (moveCursor clamp dx dy s))
    \<Longrightarrow> sc_selectedCoords (moveCursor clamp dx dy s) = sc_selectedCoords s"
  by (auto simp: moveCursor_def Let_def extend_same split: if_splits)

lemma paint_arrow:
  assumes "drawn_selection g"
  shows "drawn_selection (let g' = paint_cursor (g\<lparr>wg_scene := moveCursor clamp dx dy (wg_scene g)\<rparr>)
    in if sc_isSelecting (wg_scene g) \<and> straight (sc_selectedCoords (wg_scene g) ! 0) (sc_cursor (wg_scene g'))
       then paint_selection g' else g')"
  using assms moveCursor_same [of "wg_scene g" clamp dx dy]
  by (simp add: drawn_now paint_cursor_def paint_selection_def Let_def)

lemma paint_drawn:
  assumes d: "drawn_selection g" and s: "ws_scene_step clamp cw ch ev (wg_scene g) = Inr s'"
  shows "drawn_selection (paint cw ch ev (wg_scene g) (g\<lparr>wg_scene := s'\<rparr>))"
proof (cases ev)
  case (WsPointerDown x y)
  then show ?thesis using d s by (auto simp: handlePointerDown_def drawn_now paint_selection_def split: option.split)
next
  case (WsPointerMove x y)
  then have s': "s' = handlePointerMove (getGridCoord cw ch (sc_state (wg_scene g)) x y) (wg_scene g)" using s by simp
  show ?thesis
  proof (cases "getGridCoord cw ch (sc_state (wg_scene g)) x y")
    case None
    then show ?thesis using d s' WsPointerMove by (simp add: handlePointerMove_def)
  next
    case (Some c)
    then show ?thesis using d s' WsPointerMove
      by (cases "sc_isSelecting (wg_scene g)") (simp_all add: handlePointerMove_def drawn_now paint_selection_def extend_same)
  qed
next
  case WsPointerUp
  then show ?thesis using d s by (auto simp: handlePointerUp_def drawn_now paint_clear_def dest!: submit_parts)
next
  case (WsKey k)
  then have k: "ws_handleKeyDown clamp k (wg_scene g) = Inr s'" using s by simp
  let ?g = "g\<lparr>wg_scene := s'\<rparr>"
  from k show ?thesis
  proof (cases rule: key_cases)
    case (arrow dx dy)
    then show ?thesis using paint_arrow [OF d, of clamp dx dy] WsKey by simp
  next
    case submits
    then have "paint cw ch ev (wg_scene g) ?g = paint_clear ?g" using WsKey by simp
    then show ?thesis using submit_parts [OF submits(4)] d by (simp add: drawn_now paint_clear_def)
  next
    case starts
    then have "paint cw ch ev (wg_scene g) ?g = paint_selection ?g" using WsKey by simp
    then show ?thesis using starts(4) d by (simp add: drawn_now paint_selection_def)
  next
    case escapes
    then have "paint cw ch ev (wg_scene g) ?g = paint_clear ?g" using WsKey by simp
    then show ?thesis using escapes(5) d by (simp add: drawn_now paint_clear_def)
  next
    case other
    then have "paint cw ch ev (wg_scene g) ?g = ?g" using WsKey by auto
    then show ?thesis using other(4) d by (simp add: drawn_now)
  qed
qed


section \<open>In step\<close>

lemma news_same [simp]: "news l e e = []"
  by (simp add: news_def)

lemma news_found:
  assumes "subject_wf (we_subject e)" "l \<in> set (listeners (we_subject e))"
  shows "news l e (word_search_notify (e\<lparr>we_state := st\<rparr>)) = [st]"
  using assms by (simp add: news_def word_search_notify_def told_notify)

text \<open>An event that changes nothing in the engine, and one that finds a word.\<close>

lemma stage_act_quiet:
  assumes "ws_scene_step clamp cw ch ev (wg_scene g) = Inr s'" "sc_engine s' = wg_engine g"
  shows "stage_act clamp cw ch ev g = Inr (paint cw ch ev (wg_scene g) (g\<lparr>wg_scene := s'\<rparr>))"
  using assms by (simp add: stage_act_def Let_def)

lemma stage_act_found:
  assumes "ws_scene_step clamp cw ch ev (wg_scene g) = Inr s'" "subject_wf (we_subject (wg_engine g))"
    and "{0, 1} \<subseteq> set (listeners (we_subject (wg_engine g)))" "sc_engine s' = word_search_notify ((wg_engine g)\<lparr>we_state := st\<rparr>)"
  shows "stage_act clamp cw ch ev g =
    Inr (stage_hears st ((paint cw ch ev (wg_scene g) (g\<lparr>wg_scene := s'\<rparr>))\<lparr>wg_shown := st\<rparr>))"
  using assms by (simp add: stage_act_def Let_def news_found)

lemma stage_hears_parts [simp]:
  "wg_scene (stage_hears st g) = wg_scene g" "wg_offset (stage_hears st g) = wg_offset g" "wg_shown (stage_hears st g) = wg_shown g"
  "wg_selection (stage_hears st g) = wg_selection g" "wg_cursorGraphics (stage_hears st g) = wg_cursorGraphics g"
  "wg_texts (stage_hears st g) = wg_texts g"
  "wg_foundGraphics (stage_hears st g) = redrawFound (wg_offset g) (ws_foundWords st) (ws_grid st) (ws_width st) (ws_height st)"
  "wg_reported (stage_hears st g) = wg_reported g @ (if ws_isFinished st then [int (ws_score st)] else [])"
  by (simp_all add: stage_hears_def Let_def)

lemma drawn_hears [simp]: "drawn_selection (stage_hears st g) = drawn_selection g" "drawn_selection (g\<lparr>wg_shown := st\<rparr>) = drawn_selection g"
  by (simp_all add: drawn_selection_def)

definition same_layout :: "ws_stage \<Rightarrow> ws_stage \<Rightarrow> bool" where
  "same_layout g g' \<longleftrightarrow> wg_offset g' = wg_offset g \<and> wg_texts g' = wg_texts g \<and> scene_frame (wg_scene g) (wg_scene g')"

lemma stage_act_ok:
  assumes clamp: "clamp_law clamp" and g: "stage_ok g"
  shows "\<exists>g'. stage_act clamp cw ch ev g = Inr g' \<and> stage_ok g' \<and> same_layout g g'"
proof -
  from g have ok: "scene_ok (wg_scene g)" and d: "drawn_selection g" and w: "subject_wf (we_subject (wg_engine g))"
    and l: "{0, 1} \<subseteq> set (listeners (we_subject (wg_engine g)))"
    by (simp_all add: stage_ok_def)
  obtain s' where s': "ws_scene_step clamp cw ch ev (wg_scene g) = Inr s'" "scene_ok s'" "scene_frame (wg_scene g) s'"
    using scene_step_ok [OF clamp ok] by blast
  let ?p = "paint cw ch ev (wg_scene g) (g\<lparr>wg_scene := s'\<rparr>)"
  note dp = paint_drawn [OF d s'(1)]
  from s'(1) show ?thesis
  proof (cases rule: scene_step_engine)
    case same
    have "stage_ok ?p" using g s'(2) dp same by (simp add: stage_ok_def)
    moreover have "same_layout g ?p" using s'(3) by (simp add: same_layout_def)
    ultimately show ?thesis using stage_act_quiet [OF s'(1) same] by blast
  next
    case (found word)
    let ?st = "ws_found word (sc_state (wg_scene g))"
    have st: "sc_state s' = ?st" using found(3) by simp
    have sub: "subject_wf (we_subject (sc_engine s'))" "{0, 1} \<subseteq> set (listeners (we_subject (sc_engine s')))"
      using w l found(3) by (simp_all add: word_search_notify_def subject_wf_steps)
    have "stage_ok (stage_hears ?st (?p\<lparr>wg_shown := ?st\<rparr>))"
      using g s'(2) dp sub found(2) by (simp add: stage_ok_def st Let_def)
    moreover have "same_layout g (stage_hears ?st (?p\<lparr>wg_shown := ?st\<rparr>))" using s'(3) by (simp add: same_layout_def)
    ultimately show ?thesis using stage_act_found [OF s'(1) w l found(3)] by blast
  qed
qed

lemma same_layout_trans: "same_layout a b \<Longrightarrow> same_layout b c \<Longrightarrow> same_layout a c"
  by (auto simp: same_layout_def intro: frame_trans)

lemma stage_run_ok:
  assumes "clamp_law clamp"
  shows "stage_ok g \<Longrightarrow> \<exists>g'. run_res (stage_act clamp cw ch) evs g = Inr g' \<and> stage_ok g' \<and> same_layout g g'"
proof (induction evs arbitrary: g)
  case Nil
  then show ?case by (simp add: same_layout_def)
next
  case (Cons ev evs)
  obtain g1 where g1: "stage_act clamp cw ch ev g = Inr g1" "stage_ok g1" "same_layout g g1"
    using stage_act_ok [OF assms Cons.prems] by blast
  then show ?case using Cons.IH [OF g1(2)] same_layout_trans [OF g1(3)] by auto
qed

lemma stage_mount_ok:
  assumes "words \<noteq> []" "nonneg_int seed" "0 < width" "0 < height" "word_search_new words width height seed = Inr e"
  shows "stage_ok (stage_mount cw ch e)"
    "wg_offset (stage_mount cw ch e) = (gridOffset cw width, gridOffset ch height)"
    "wg_texts (stage_mount cw ch e) = grid_texts (gridOffset cw width, gridOffset ch height) (we_state e)"
    "sc_state (wg_scene (stage_mount cw ch e)) = we_state e"
proof -
  have e: "ws_board (we_state e)" "ws_progress (we_state e)" "ws_width (we_state e) = width" "ws_height (we_state e) = height"
      "ws_foundWords (we_state e) = []" "we_subject e = new_subject"
    using word_search_new_shape [OF assms(1,2), of width height] assms(5) by auto
  have nf: "\<not> ws_isFinished (we_state e)" using e(2,5) by (auto simp: ws_progress_def)
  have "scene_ok (ws_scene_new 1 (word_search_subscribe 0 e))"
    using e assms(3,4) by (auto simp: scene_ok_def ws_scene_new_def word_search_subscribe_def in_board_def)
  then show "stage_ok (stage_mount cw ch e)"
    using e nf
    by (simp add: stage_ok_def stage_mount_def stage_create_def Let_def drawn_selection_def ws_scene_new_def word_search_subscribe_def
        subject_wf_steps)
  show "wg_offset (stage_mount cw ch e) = (gridOffset cw width, gridOffset ch height)"
    "wg_texts (stage_mount cw ch e) = grid_texts (gridOffset cw width, gridOffset ch height) (we_state e)"
    "sc_state (wg_scene (stage_mount cw ch e)) = we_state e"
    using e by (simp_all add: stage_mount_def stage_create_def Let_def word_search_subscribe_def ws_scene_new_def)
qed

section \<open>What the drawing says\<close>

lemma path_points_to [simp]: "path_points (map (\<lambda>p. LineTo (cell_middle off p)) ps) = map (cell_middle off) ps"
  by (induction ps) simp_all

lemma path_points_selection: "path_points (drawSelection off coords) = map (cell_middle off) coords"
  by (simp add: drawSelection_def split: list.split)

definition word_cells :: "word_search_state \<Rightarrow> string \<Rightarrow> (int \<times> int) list" where
  "word_cells st w = (case findWordInGrid w (ws_grid st) (ws_width st) (ws_height st) of Some cs \<Rightarrow> cs | None \<Rightarrow> [])"

lemma path_points_found:
  "path_points (redrawFound off ws (ws_grid st) (ws_width st) (ws_height st)) = concat (map (\<lambda>w. map (cell_middle off) (word_cells st w)) ws)"
proof (induction ws)
  case Nil
  then show ?case by (simp add: redrawFound_def)
next
  case (Cons w ws)
  show ?case using Cons by (simp add: redrawFound_def word_cells_def split: option.split list.split)
qed

lemma word_cells_read:
  assumes "ws_board st" "w \<in> set (ws_words st)" "w \<noteq> []"
  shows "\<exists>x y dx dy. word_cells st w = map (on_line x y dx dy) [0..<length w] \<and> (dx, dy) \<in> set all_dirs \<and> reads (ws_grid st) w x y dx dy"
proof -
  have "grid_ok (ws_width st) (ws_height st) (ws_grid st)" "hidden_in (ws_grid st) w" using assms by (auto simp: ws_board_def)
  from findWordInGrid_complete [OF this assms(3)] obtain ps where "findWordInGrid w (ws_grid st) (ws_width st) (ws_height st) = Some ps" by blast
  with findWordInGrid_sound [OF this] show ?thesis by (auto simp: word_cells_def)
qed


section \<open>The pointer\<close>

text \<open>For a canvas of even size the positions are exact: pointing at the middle of a drawn letter selects its cell.\<close>

lemma gridOffset_even:
  assumes "\<bar>k\<bar> \<le> 1000000" "n \<le> 1000000"
  shows "gridOffset (of_int (2 * k)) n = of_int (k - 20 * int n)"
proof -
  have "of_int (2 * k) - of_nat n * cellSize = of_int (2 * k - 40 * int n)" by (simp add: cellSize_def)
  moreover have "fl (of_int (2 * k - 40 * int n)) = of_int (2 * k - 40 * int n)" using assms by (intro fl_of_int) simp
  moreover have "(of_int (2 * k - 40 * int n) / 2 :: rat) = of_int (k - 20 * int n)" by simp
  moreover have "fl (of_int (k - 20 * int n)) = of_int (k - 20 * int n)" using assms by (intro fl_of_int) simp
  ultimately show ?thesis by (simp only: gridOffset_def)
qed

lemma middle_coordinate:
  assumes "\<bar>a\<bar> \<le> 100000000" "0 \<le> x" "x \<le> 1000000"
  shows "fl (fl (of_int a + fl (of_int x * cellSize)) + fl (cellSize / 2)) = of_int (a + 40 * x + 20)"
    "\<lfloor>fl (fl (of_int (a + 40 * x + 20) - of_int a) / cellSize)\<rfloor> = x"
proof -
  have "of_int x * cellSize = of_int (40 * x)" "cellSize / 2 = of_int 20" by (simp_all add: cellSize_def)
  moreover have "fl (of_int (40 * x)) = of_int (40 * x)" "fl (of_int 20) = of_int 20" using assms by (intro fl_of_int; simp)+
  moreover have "fl (of_int (a + 40 * x)) = of_int (a + 40 * x)" "fl (of_int (a + 40 * x + 20)) = of_int (a + 40 * x + 20)"
    using assms by (intro fl_of_int; simp)+
  ultimately show "fl (fl (of_int a + fl (of_int x * cellSize)) + fl (cellSize / 2)) = of_int (a + 40 * x + 20)"
    by (simp only: of_int_add)
  have "of_int (a + 40 * x + 20) - of_int a = (of_int (40 * x + 20) :: rat)" by simp
  moreover have "fl (of_int (40 * x + 20)) = of_int (40 * x + 20)" using assms by (intro fl_of_int) simp
  moreover have "of_int (40 * x + 20) / cellSize = of_int x + 1 / 2" by (simp add: cellSize_def field_simps)
  ultimately have e: "fl (fl (of_int (a + 40 * x + 20) - of_int a) / cellSize) = fl (of_int x + 1 / 2)" by (simp only:)
  have "\<bar>fl (of_int x + 1 / 2) - (of_int x + 1 / 2)\<bar> \<le> \<bar>of_int x + 1 / 2\<bar> / 2 ^ 53" by (rule fl_error)
  also have "\<dots> \<le> 1 / 4"
  proof -
    have "(of_int x :: rat) \<le> 1000000" "0 \<le> (of_int x :: rat)" using assms by simp_all
    then have "\<bar>of_int x + 1 / 2 :: rat\<bar> \<le> 1000001" by simp
    then show ?thesis by simp
  qed
  finally have "of_int x \<le> fl (of_int x + 1 / 2)" "fl (of_int x + 1 / 2) < of_int x + 1" by linarith+
  then show "\<lfloor>fl (fl (of_int (a + 40 * x + 20) - of_int a) / cellSize)\<rfloor> = x" unfolding e by (simp add: floor_eq_iff)
qed

lemma pointer_on_letter:
  assumes c: "in_board st c" and k: "\<bar>k\<bar> \<le> 1000000" "\<bar>m\<bar> \<le> 1000000" and n: "ws_width st \<le> 1000000" "ws_height st \<le> 1000000"
    and off: "off = (gridOffset (of_int (2 * k)) (ws_width st), gridOffset (of_int (2 * m)) (ws_height st))"
  shows "getGridCoord (of_int (2 * k)) (of_int (2 * m)) st (fst (cell_middle off c)) (snd (cell_middle off c)) = Some c"
proof -
  let ?a = "k - 20 * int (ws_width st)" and ?b = "m - 20 * int (ws_height st)"
  have o': "off = (of_int ?a, of_int ?b)" using off gridOffset_even k n by simp
  have b: "\<bar>?a\<bar> \<le> 100000000" "\<bar>?b\<bar> \<le> 100000000" "0 \<le> fst c" "fst c \<le> 1000000" "0 \<le> snd c" "snd c \<le> 1000000"
    using k n c by (auto simp: in_board_def)
  have "fst (cell_middle off c) = of_int (?a + 40 * fst c + 20)" "snd (cell_middle off c) = of_int (?b + 40 * snd c + 20)"
    unfolding cell_middle_def o' fst_conv snd_conv by (rule middle_coordinate(1); use b in simp)+
  moreover have "gridOffset (of_int (2 * k)) (ws_width st) = of_int ?a" "gridOffset (of_int (2 * m)) (ws_height st) = of_int ?b"
    using gridOffset_even k n by blast+
  ultimately show ?thesis
    using middle_coordinate(2) [OF b(1,3,4)] middle_coordinate(2) [OF b(2,5,6)] c
    unfolding getGridCoord_def Let_def by (simp add: in_board_def prod_eq_iff)
qed

lemma texts_in_grid: "(p, t) \<in> set (grid_texts off st) \<longleftrightarrow>
    (\<exists>x y. x < ws_width st \<and> y < ws_height st \<and> p = cell_middle off (int x, int y) \<and> t = ws_grid st ! y ! x)"
  by (force simp: grid_texts_def)

section \<open>Properties\<close>

text \<open>C29: The word search shows what its engine holds. Whatever the player does with the mouse and the keys, no event fails; the
  score and the struck words beside the board are the engine's; the highlight of the selection runs through the middles
  of exactly the selected cells; each found word has a stroke of its own, in the order found, through cells that spell
  it; and \<open>onFinish\<close> is called once, with the final score, when the last word is found.\<close>

theorem word_search_stage_in_step:
  assumes "clamp_law clamp" "words \<noteq> []" "nonneg_int seed" "0 < width" "0 < height" "word_search_new words width height seed = Inr e"
  shows "\<exists>g. run_res (stage_act clamp cw ch) evs (stage_mount cw ch e) = Inr g
    \<and> wg_shown g = sc_state (wg_scene g)
    \<and> word_list g = map (\<lambda>w. (w, w \<in> set (ws_foundWords (sc_state (wg_scene g))))) (ws_words (we_state e))
    \<and> path_points (wg_selection g) = map (cell_middle (wg_offset g)) (sc_selectedCoords (wg_scene g))
    \<and> path_points (wg_foundGraphics g)
        = concat (map (\<lambda>w. map (cell_middle (wg_offset g)) (word_cells (we_state e) w)) (ws_foundWords (sc_state (wg_scene g))))
    \<and> (\<forall>w \<in> set (ws_foundWords (sc_state (wg_scene g))). \<exists>x y dx dy.
          word_cells (we_state e) w = map (on_line x y dx dy) [0..<length w] \<and> reads (ws_grid (we_state e)) w x y dx dy)
    \<and> wg_reported g = (if ws_isFinished (sc_state (wg_scene g)) then [int (100 * length (ws_words (we_state e)))] else [])"
proof -
  note m = stage_mount_ok [OF assms(2-6), of cw ch]
  obtain g where g: "run_res (stage_act clamp cw ch) evs (stage_mount cw ch e) = Inr g" "stage_ok g" "same_layout (stage_mount cw ch e) g"
    using stage_run_ok [OF assms(1) m(1)] by blast
  let ?st = "sc_state (wg_scene g)"
  have f: "ws_words ?st = ws_words (we_state e)" "ws_grid ?st = ws_grid (we_state e)" "ws_width ?st = ws_width (we_state e)"
      "ws_height ?st = ws_height (we_state e)"
    using g(3) m(4) by (simp_all add: same_layout_def scene_frame_def)
  have ok: "scene_ok (wg_scene g)" "drawn_selection g" "wg_shown g = ?st" using g(2) by (simp_all add: stage_ok_def)
  have b: "ws_board ?st" "ws_progress ?st" "[] \<notin> set (ws_foundWords ?st)" using ok(1) by (simp_all add: scene_ok_def)
  have cells: "word_cells ?st = word_cells (we_state e)" by (simp add: word_cells_def f fun_eq_iff)
  have "path_points (wg_foundGraphics g)
      = concat (map (\<lambda>w. map (cell_middle (wg_offset g)) (word_cells (we_state e) w)) (ws_foundWords ?st))"
    using g(2) path_points_found [of "wg_offset g" "ws_foundWords ?st" ?st] by (simp add: stage_ok_def Let_def cells)
  moreover have "\<exists>x y dx dy. word_cells (we_state e) w = map (on_line x y dx dy) [0..<length w] \<and> reads (ws_grid (we_state e)) w x y dx dy"
    if "w \<in> set (ws_foundWords ?st)" for w
  proof -
    have "w \<in> set (ws_words ?st)" "w \<noteq> []" using that b by (auto simp: ws_progress_def)
    from word_cells_read [OF b(1) this] show ?thesis by (auto simp: cells f)
  qed
  moreover have "ws_score ?st = 100 * length (ws_words (we_state e))" if "ws_isFinished ?st"
  proof -
    have "set (ws_foundWords ?st) = set (ws_words ?st)" "distinct (ws_foundWords ?st)" "distinct (ws_words ?st)"
      using b that by (auto simp: ws_progress_def ws_board_def)
    then have "length (ws_foundWords ?st) = length (ws_words ?st)" by (metis distinct_card)
    then show ?thesis using b(2) by (simp add: ws_progress_def f)
  qed
  ultimately show ?thesis
    using g(1,2) ok(2,3) f(1)
    by (intro exI [of _ g]) (auto simp: stage_ok_def drawn_selection_def path_points_selection word_list_def)
qed

theorem word_search_stage_in_step_witness:
  "\<exists>g. run_res (stage_act std_clamp 500 500) [WsKey ''Enter'', WsKey ''ArrowRight'', WsKey ''Enter''] (stage_mount 500 500 sample_search) = Inr g
    \<and> wg_shown g = sc_state (wg_scene g)"
  using word_search_stage_in_step [OF std_clamp_law _ _ _ _ sample_search_new, of 500 500 "[WsKey ''Enter'', WsKey ''ArrowRight'', WsKey ''Enter'']"]
  by (auto simp: nonneg_int_def)

text \<open>Clicking and dragging reach the letters: on a canvas of even size (the component's is 500 by 500) every letter is drawn where
  the pointer handlers read its cell.\<close>

theorem letters_under_pointer:
  assumes "\<bar>k\<bar> \<le> 1000000" "\<bar>m\<bar> \<le> 1000000" "ws_width st \<le> 1000000" "ws_height st \<le> 1000000"
    and "(p, t) \<in> set (grid_texts (gridOffset (of_int (2 * k)) (ws_width st), gridOffset (of_int (2 * m)) (ws_height st)) st)"
  shows "\<exists>c. getGridCoord (of_int (2 * k)) (of_int (2 * m)) st (fst p) (snd p) = Some c \<and> in_board st c
    \<and> t = ws_grid st ! nat (snd c) ! nat (fst c)"
proof -
  let ?off = "(gridOffset (of_int (2 * k)) (ws_width st), gridOffset (of_int (2 * m)) (ws_height st))"
  obtain x y where x: "x < ws_width st" "y < ws_height st" "p = cell_middle ?off (int x, int y)" "t = ws_grid st ! y ! x"
    using assms(5) by (auto simp: texts_in_grid)
  have b: "in_board st (int x, int y)" using x by (simp add: in_board_def)
  show ?thesis using pointer_on_letter [OF b assms(1-4) refl] x b by auto
qed

end
