(* ===== verification/SnakesDrawing.thy ===== *)
theory SnakesDrawing
  imports Canvas SnakesBoard Stores
begin

text \<open>
  The links, the tokens and the die of the game scene (\<open>src/features/games/phaser/SnakeLadderScene.ts\<close>): what is drawn, the
  animation of the tumbling die and its sound. \<open>Math.hypot\<close> is the parameter \<open>hypot\<close>, of which \<open>hypot_law\<close> asks what its
  approximation keeps; Phaser's clamp is \<open>clamp\<close>.
\<close>

section \<open>Links and tokens\<close>

definition drawSnake :: "(int \<Rightarrow> int \<Rightarrow> int \<Rightarrow> int) \<Rightarrow> board_layout \<Rightarrow> int \<Rightarrow> int \<Rightarrow> draw_op list res" where
  "drawSnake clamp l start finish =
     bind_res (cellCenter clamp l start) (\<lambda>from.
     bind_res (cellCenter clamp l finish) (\<lambda>to.
       let cell = of_int (bl_cellSize l);
           control = (fl (fl (fl (fst from + fst to) / 2) + fl (cell * fl (35 / 100))), fl (fl (snd from + snd to) / 2))
       in Inr [LineStyle (max 4 (fl (cell * fl (8 / 100)))) 0xdc2626 (fl (78 / 100)),
               DrawQuadratic from control to 32,
               FillStyle 0xdc2626 (fl (95 / 100)),
               FillCircle from (max 5 (fl (cell * fl (1 / 10))))]))"

definition rung :: "point \<Rightarrow> rat \<Rightarrow> rat \<Rightarrow> rat \<Rightarrow> rat \<Rightarrow> nat \<Rightarrow> draw_op" where
  "rung from dx dy normalX normalY i =
     (let t = fl (of_nat i / 5);
          rungX = fl (fst from + fl (dx * t));
          rungY = fl (snd from + fl (dy * t))
      in LineBetween (fl (rungX + normalX), fl (rungY + normalY)) (fl (rungX - normalX), fl (rungY - normalY)))"

definition drawLadder :: "(rat \<Rightarrow> rat \<Rightarrow> rat) \<Rightarrow> (int \<Rightarrow> int \<Rightarrow> int \<Rightarrow> int) \<Rightarrow> board_layout \<Rightarrow> int \<Rightarrow> int \<Rightarrow> draw_op list res" where
  "drawLadder hypot clamp l start finish =
     bind_res (cellCenter clamp l start) (\<lambda>from.
     bind_res (cellCenter clamp l finish) (\<lambda>to.
       let cell = of_int (bl_cellSize l);
           dx = fl (fst to - fst from);
           dy = fl (snd to - snd from);
           length = (if hypot dx dy = 0 then 1 else hypot dx dy);
           normalX = fl (fl (- dy / length) * max 5 (fl (cell * fl (8 / 100))));
           normalY = fl (fl (dx / length) * max 5 (fl (cell * fl (8 / 100))))
       in Inr (LineStyle (max 3 (fl (cell * fl (5 / 100)))) 0x16a34a (fl (9 / 10))
          # LineBetween (fl (fst from + normalX), fl (snd from + normalY)) (fl (fst to + normalX), fl (snd to + normalY))
          # LineBetween (fl (fst from - normalX), fl (snd from - normalY)) (fl (fst to - normalX), fl (snd to - normalY))
          # map (rung from dx dy normalX normalY) [1, 2, 3, 4])))"

definition drawLinks :: "(rat \<Rightarrow> rat \<Rightarrow> rat) \<Rightarrow> (int \<Rightarrow> int \<Rightarrow> int \<Rightarrow> int) \<Rightarrow> board_layout \<Rightarrow> snake_link list \<Rightarrow> snake_link list \<Rightarrow> draw_op list res" where
  "drawLinks hypot clamp l ladders snakes =
     bind_res (map_res (\<lambda>ladder. drawLadder hypot clamp l (link_start ladder) (link_end ladder)) ladders) (\<lambda>a.
     bind_res (map_res (\<lambda>snake. drawSnake clamp l (link_start snake) (link_end snake)) snakes) (\<lambda>b.
       Inr (concat a @ concat b)))"

text \<open>The tokens: player, AI and their radius.\<close>

definition drawTokens :: "(int \<Rightarrow> int \<Rightarrow> int \<Rightarrow> int) \<Rightarrow> board_layout \<Rightarrow> int \<Rightarrow> int \<Rightarrow> (point \<times> point \<times> rat) res" where
  "drawTokens clamp l playerPosition aiPosition =
     bind_res (tokenPoint clamp l playerPosition True) (\<lambda>p.
     bind_res (tokenPoint clamp l aiPosition False) (\<lambda>a.
       Inr (p, a, max 7 (min 13 (fl (of_int (bl_cellSize l) * fl (16 / 100)))))))"

section \<open>The die\<close>

definition diceBoxSize :: rat where
  "diceBoxSize = 46"

definition drawDieFace :: "rat \<Rightarrow> int \<Rightarrow> draw_op list" where
  "drawDieFace scaleWidth value =
     (let x = scaleWidth - diceBoxSize - 20; y = 14; pipRadius = max (25 / 10) (fl (diceBoxSize * fl (7 / 100)))
      in [FillStyle 0xffffff 1, LineStyle 2 0x0f172a 1,
          FillRoundedRect (x, y) diceBoxSize diceBoxSize 8, StrokeRoundedRect (x, y) diceBoxSize diceBoxSize 8,
          FillStyle 0x0f172a 1]
         @ map (\<lambda>(px, py). FillCircle (fl (x + px), fl (y + py)) pipRadius) (facePips diceBoxSize value))"

text \<open>The tumbling die. The timer calls back \<open>totalTicks\<close> times (\<open>repeat: totalTicks - 1\<close>).\<close>

record die_roll =
  dr_tick :: int
  dr_faces :: "int list"
  dr_sounds :: "bool list"
  dr_completions :: nat

definition totalTicks :: int where
  "totalTicks = js_round (fl (1000 / 90))"

definition random_face :: "('s \<Rightarrow> rat \<times> 's) \<Rightarrow> 's \<Rightarrow> int \<times> 's" where
  "random_face rnd s = (let (r, s) = rnd s in (1 + rand_index r 6, s))"

definition die_start :: "('s \<Rightarrow> rat \<times> 's) \<Rightarrow> 's \<Rightarrow> die_roll \<times> 's" where
  "die_start rnd s =
     (let (face, s) = random_face rnd s
      in (\<lparr>dr_tick = 0, dr_faces = [face], dr_sounds = [False], dr_completions = 0\<rparr>, s))"

definition die_callback :: "('s \<Rightarrow> rat \<times> 's) \<Rightarrow> int \<Rightarrow> die_roll \<times> 's \<Rightarrow> die_roll \<times> 's" where
  "die_callback rnd finalValue = (\<lambda>(d, s).
     let tick = dr_tick d + 1;
         isLast = (tick \<ge> totalTicks);
         (face, s) = (if isLast then (finalValue, s) else random_face rnd s)
     in (d\<lparr>dr_tick := tick, dr_faces := dr_faces d @ [face], dr_sounds := dr_sounds d @ [isLast],
           dr_completions := dr_completions d + (if isLast then 1 else 0)\<rparr>, s))"

section \<open>Sound\<close>

text \<open>A tone: wave, frequency, volume and when it stops (seconds). The context: whether there is one and whether it is suspended.\<close>

datatype wave = Triangle | Square

record tone =
  tn_wave :: wave
  tn_frequency :: rat
  tn_gain :: rat
  tn_decay :: rat
  tn_stop :: rat

record audio =
  au_ctx :: "bool option"
  au_made :: nat
  au_closed :: nat
  au_resumed :: nat
  au_tones :: "tone list"

text \<open>\<open>AudioContext\<close> may be missing; a new one may start suspended.\<close>

definition ensureAudioContext :: "bool \<Rightarrow> bool \<Rightarrow> audio \<Rightarrow> bool \<times> audio" where
  "ensureAudioContext supported suspended a =
     (if \<not> supported then (False, a)
      else let a = (if au_ctx a = None then a\<lparr>au_ctx := Some suspended, au_made := au_made a + 1\<rparr> else a);
               a = (if au_ctx a = Some True then a\<lparr>au_resumed := au_resumed a + 1\<rparr> else a)
           in (True, a))"

definition playDiceTick :: "bool \<Rightarrow> bool \<Rightarrow> settings \<Rightarrow> rat \<Rightarrow> bool \<Rightarrow> audio \<Rightarrow> audio" where
  "playDiceTick supported suspended s random isSettle a =
     (if se_muteGameSounds s then a
      else let (ok, a) = ensureAudioContext supported suspended a
           in if \<not> ok then a
              else a\<lparr>au_tones := au_tones a @ [\<lparr>tn_wave = (if isSettle then Triangle else Square),
                     tn_frequency = (if isSettle then 180 else fl (320 + fl (random * 120))),
                     tn_gain = (if isSettle then fl (12 / 100) else fl (6 / 100)),
                     tn_decay = (if isSettle then fl (18 / 100) else fl (6 / 100)),
                     tn_stop = (if isSettle then fl (2 / 10) else fl (7 / 100))\<rparr>]\<rparr>)"

definition sound_shutdown :: "audio \<Rightarrow> audio" where
  "sound_shutdown a = (if au_ctx a \<noteq> None then a\<lparr>au_ctx := None, au_closed := au_closed a + 1\<rparr> else a)"


section \<open>Nothing is drawn outside the board\<close>

text \<open>What is asked of \<open>Math.hypot\<close>: it is never negative and, up to a thousandth, not below either leg.\<close>

definition hypot_law :: "(rat \<Rightarrow> rat \<Rightarrow> rat) \<Rightarrow> bool" where
  "hypot_law hypot \<longleftrightarrow> (\<forall>a b. 0 \<le> hypot a b \<and> \<bar>a\<bar> \<le> 1001 / 1000 * hypot a b \<and> \<bar>b\<bar> \<le> 1001 / 1000 * hypot a b)"

text \<open>The corners of what a command fills, and the control polygon of a curve, in which the curve lies.\<close>

fun op_points :: "draw_op \<Rightarrow> point list" where
  "op_points (MoveTo p) = [p]"
| "op_points (LineTo p) = [p]"
| "op_points (StrokeRect p w h) = [p, (fst p + w, snd p + h)]"
| "op_points (FillRoundedRect p w h r) = [p, (fst p + w, snd p + h)]"
| "op_points (StrokeRoundedRect p w h r) = [p, (fst p + w, snd p + h)]"
| "op_points (FillCircle p r) = [(fst p - r, snd p - r), (fst p + r, snd p + r)]"
| "op_points (LineBetween p q) = [p, q]"
| "op_points (DrawQuadratic p q r n) = [p, q, r]"
| "op_points _ = []"

definition on_board :: "board_layout \<Rightarrow> point \<Rightarrow> bool" where
  "on_board l p \<longleftrightarrow> of_int (bl_offsetX l) \<le> fst p \<and> fst p \<le> of_int (bl_offsetX l + bl_boardWidth l)
     \<and> of_int (bl_offsetY l) \<le> snd p \<and> snd p \<le> of_int (bl_offsetY l + bl_boardHeight l)"

lemma quarter_shift:
  fixes a n c lo hi :: rat
  assumes "0 \<le> lo" "hi \<le> 1000" "65 \<le> c" "lo + c / 2 - 1 / 1000 \<le> a" "a \<le> hi - c / 2 + 1 / 1000" "\<bar>n\<bar> \<le> c / 4"
  shows "lo \<le> fl (a + n) \<and> fl (a + n) \<le> hi" "lo \<le> fl (a - n) \<and> fl (a - n) \<le> hi"
proof -
  have n: "n \<le> c / 4" "- n \<le> c / 4" using assms(6) by linarith+
  have "lo + 1 \<le> a + n" "a + n \<le> hi - 1" "lo + 1 \<le> a - n" "a - n \<le> hi - 1" using assms n by linarith+
  then show "lo \<le> fl (a + n) \<and> fl (a + n) \<le> hi" "lo \<le> fl (a - n) \<and> fl (a - n) \<le> hi"
    using fl_between [of "lo + 1" "a + n" "hi - 1"] fl_between [of "lo + 1" "a - n" "hi - 1"] assms(1,2) by linarith+
qed

lemma rung_between:
  fixes a b t m M :: rat
  assumes "m \<le> a" "a \<le> M" "m \<le> b" "b \<le> M" "0 \<le> t" "t \<le> 1" "0 \<le> m" "M \<le> 900"
  shows "m - 1 / 1000 \<le> fl (a + fl (fl (b - a) * t)) \<and> fl (a + fl (fl (b - a) * t)) \<le> M + 1 / 1000"
proof -
  define d where "d = fl (b - a)"
  have r: "\<bar>b - a\<bar> \<le> 900" using assms by linarith
  then have d: "\<bar>d - (b - a)\<bar> \<le> 1 / 1000000" using fl_close [of "b - a"] by (simp add: d_def)
  have "(1 - t) * m \<le> (1 - t) * a" "t * m \<le> t * b" "(1 - t) * a \<le> (1 - t) * M" "t * b \<le> t * M"
    using assms by (intro mult_left_mono; linarith)+
  then have h: "m \<le> a + (b - a) * t" "a + (b - a) * t \<le> M" by (simp_all add: algebra_simps)
  have "\<bar>d * t - (b - a) * t\<bar> = \<bar>d - (b - a)\<bar> * t" using assms(5) by (simp add: abs_mult flip: left_diff_distrib)
  also have "\<dots> \<le> 1 / 1000000 * 1" using d assms(5,6) by (intro mult_mono) simp_all
  finally have e: "\<bar>d * t - (b - a) * t\<bar> \<le> 1 / 1000000" by simp
  have "\<bar>d * t\<bar> \<le> 1000" using e h assms by linarith
  from fl_close [OF this] have "\<bar>fl (d * t) - (b - a) * t\<bar> \<le> 2 / 1000000" using e by linarith
  then have k: "m - 2 / 1000000 \<le> a + fl (d * t)" "a + fl (d * t) \<le> M + 2 / 1000000" using h by linarith+
  from fl_between [OF k] assms(7,8) have "m - 2 / 1000000 - 1 / 1000000 \<le> fl (a + fl (d * t))" "fl (a + fl (d * t)) \<le> M + 2 / 1000000 + 1 / 1000000" by simp_all
  then show ?thesis unfolding d_def [symmetric] by linarith
qed

lemma normal_small:
  assumes "\<bar>q\<bar> \<le> 1001 / 1000" "65 \<le> c" "c \<le> 336"
  shows "\<bar>fl (fl q * max 5 (fl (c * fl (8 / 100))))\<bar> \<le> c / 4"
proof -
  define w where "w = max 5 (fl (c * fl (8 / 100)))"
  have q: "\<bar>fl q\<bar> \<le> 1002 / 1000" using fl_close [of q] assms(1) by linarith
  have f: "0 \<le> fl (8 / 100)" "fl (8 / 100) \<le> 80001 / 1000000" using fl_between [of "8 / 100" "8 / 100" "8 / 100"] fl_nonneg [of "8 / 100"] by simp_all
  have "0 \<le> c * fl (8 / 100)" "c * fl (8 / 100) \<le> c * (80001 / 1000000)" using f assms by (auto intro: mult_left_mono)
  then have "fl (c * fl (8 / 100)) \<le> c * (81 / 1000)" using fl_close [of "c * fl (8 / 100)"] assms by linarith
  then have w: "5 \<le> w" "w \<le> c * (81 / 1000)" using assms by (simp_all add: w_def)
  have "\<bar>fl q * w\<bar> = \<bar>fl q\<bar> * w" using w by (simp add: abs_mult)
  also have "\<dots> \<le> (1002 / 1000) * (c * (81 / 1000))" using q w assms by (intro mult_mono) simp_all
  finally have "\<bar>fl q * w\<bar> \<le> c * (82 / 1000)" using assms by simp
  moreover from this have "\<bar>fl (fl q * w) - fl q * w\<bar> \<le> 1 / 1000000" using assms by (intro fl_close) simp
  ultimately have "\<bar>fl (fl q * w)\<bar> \<le> c / 4" using assms by linarith
  then show ?thesis by (simp only: w_def)
qed

lemma hypot_quotient:
  assumes "hypot_law hypot"
  shows "\<bar>a / (if hypot a b = 0 then 1 else hypot a b)\<bar> \<le> 1001 / 1000"
    "\<bar>b / (if hypot a b = 0 then 1 else hypot a b)\<bar> \<le> 1001 / 1000"
proof -
  have h: "0 \<le> hypot a b" "\<bar>a\<bar> \<le> 1001 / 1000 * hypot a b" "\<bar>b\<bar> \<le> 1001 / 1000 * hypot a b"
    using assms by (simp_all add: hypot_law_def)
  show "\<bar>a / (if hypot a b = 0 then 1 else hypot a b)\<bar> \<le> 1001 / 1000"
    "\<bar>b / (if hypot a b = 0 then 1 else hypot a b)\<bar> \<le> 1001 / 1000"
    using h by (cases "hypot a b = 0"; simp add: abs_divide pos_divide_le_eq)+
qed

lemma center_range:
  assumes "2 \<le> cols" "cols \<le> 10" "2 \<le> rows" "rows \<le> 10" "clamp_law clamp"
  defines "l \<equiv> calculateLayout 720 780 cols rows"
  shows "\<exists>cx cy. cellCenter clamp l position = Inr (cx, cy)
    \<and> of_int (bl_offsetX l) + of_int (bl_cellSize l) / 2 \<le> cx \<and> cx \<le> of_int (bl_offsetX l + bl_boardWidth l) - of_int (bl_cellSize l) / 2
    \<and> of_int (bl_offsetY l) + of_int (bl_cellSize l) / 2 \<le> cy \<and> cy \<le> of_int (bl_offsetY l + bl_boardHeight l) - of_int (bl_cellSize l) / 2"
proof -
  let ?c = "bl_cellSize l"
  note b = layout_bounds [OF assms(1-4), folded l_def]
  have pos: "0 < cols" "0 < rows" using assms by simp_all
  note f = layout_fields [OF pos, folded l_def]
  have size: "1 \<le> cols * rows" using mult_mono [of 1 cols 1 rows] pos by simp
  let ?p = "max 1 (min (cols * rows) position)"
  have p: "clamp position 1 (cols * rows) = ?p" using clamp_lawD [OF assms(5) size] .
  have pr: "1 \<le> ?p" "?p \<le> cols * rows" using size by simp_all
  obtain x y where g: "mapToGrid ?p cols rows = Inr (x, y)" "0 \<le> x" "x < cols" "0 \<le> y" "y < rows"
    by (rule mapToGrid_ok [OF pos(1) pr])
  have n: "0 \<le> x * ?c" "0 \<le> y * ?c" using g b by simp_all
  have "(x + 1) * ?c \<le> ?c * cols" "(y + 1) * ?c \<le> ?c * rows"
    using g b(1) mult_left_mono [of "x + 1" cols ?c] mult_left_mono [of "y + 1" rows ?c] by (simp_all add: mult.commute)
  then have m: "x * ?c + ?c \<le> bl_boardWidth l" "y * ?c + ?c \<le> bl_boardHeight l" by (simp_all add: algebra_simps f(4,5))
  have e: "cellCenter clamp l position = Inr (of_int (bl_offsetX l + x * ?c) + of_int ?c / 2, of_int (bl_offsetY l + y * ?c) + of_int ?c / 2)"
    by (simp add: cellCenter_def f(1,2) p g(1))
  have r: "(of_int (bl_offsetX l) :: rat) \<le> of_int (bl_offsetX l + x * ?c)" "(of_int (bl_offsetY l) :: rat) \<le> of_int (bl_offsetY l + y * ?c)"
    "(of_int (bl_offsetX l + x * ?c + ?c) :: rat) \<le> of_int (bl_offsetX l + bl_boardWidth l)"
    "(of_int (bl_offsetY l + y * ?c + ?c) :: rat) \<le> of_int (bl_offsetY l + bl_boardHeight l)"
    unfolding of_int_le_iff using n m by linarith+
  have a: "(of_int (bl_offsetX l + x * ?c + ?c) :: rat) = of_int (bl_offsetX l + x * ?c) + of_int ?c"
    "(of_int (bl_offsetY l + y * ?c + ?c) :: rat) = of_int (bl_offsetY l + y * ?c) + of_int ?c" by simp_all
  show ?thesis
    by (rule exI, rule exI, intro conjI, rule e) (use r in \<open>unfold a, linarith+\<close>)
qed

text \<open>What the two drawings have in common: the board and its scale.\<close>

lemma board_scale:
  assumes "2 \<le> cols" "cols \<le> 10" "2 \<le> rows" "rows \<le> 10"
  defines "l \<equiv> calculateLayout 720 780 cols rows"
  shows "(65 :: rat) \<le> of_int (bl_cellSize l)" "of_int (bl_cellSize l) \<le> (336 :: rat)"
    "(24 :: rat) \<le> of_int (bl_offsetX l)" "of_int (bl_offsetX l + bl_boardWidth l) \<le> (696 :: rat)"
    "(106 :: rat) \<le> of_int (bl_offsetY l)" "of_int (bl_offsetY l + bl_boardHeight l) \<le> (756 :: rat)"
proof -
  note b = layout_bounds [OF assms(1-4), folded l_def]
  have pos: "0 < cols" "0 < rows" using assms by simp_all
  note f = layout_fields [OF pos, folded l_def]
  have "bl_offsetX l + bl_boardWidth l \<le> 696" "bl_offsetY l + bl_boardHeight l \<le> 756" using b(4,6) f(4,5) by linarith+
  then show "(65 :: rat) \<le> of_int (bl_cellSize l)" "of_int (bl_cellSize l) \<le> (336 :: rat)"
    "(24 :: rat) \<le> of_int (bl_offsetX l)" "of_int (bl_offsetX l + bl_boardWidth l) \<le> (696 :: rat)"
    "(106 :: rat) \<le> of_int (bl_offsetY l)" "of_int (bl_offsetY l + bl_boardHeight l) \<le> (756 :: rat)"
    using b(1,2,3,5) by (simp_all only: of_int_le_numeral_iff of_int_numeral_le_iff)
qed

lemma drawLadder_on_board:
  assumes "2 \<le> cols" "cols \<le> 10" "2 \<le> rows" "rows \<le> 10" "clamp_law clamp" "hypot_law hypot"
  defines "l \<equiv> calculateLayout 720 780 cols rows"
  shows "\<exists>ops. drawLadder hypot clamp l start finish = Inr ops \<and> (\<forall>op \<in> set ops. \<forall>p \<in> set (op_points op). on_board l p)"
proof -
  define c where "c = (of_int (bl_cellSize l) :: rat)"
  define lx hx ly hy where "lx = (of_int (bl_offsetX l) :: rat)" and "hx = (of_int (bl_offsetX l + bl_boardWidth l) :: rat)"
    and "ly = (of_int (bl_offsetY l) :: rat)" and "hy = (of_int (bl_offsetY l + bl_boardHeight l) :: rat)"
  note b = board_scale [OF assms(1-4), folded l_def, folded c_def lx_def hx_def ly_def hy_def]
  obtain fx fy where f0: "cellCenter clamp l start = Inr (fx, fy)" "lx + c / 2 \<le> fx" "fx \<le> hx - c / 2" "ly + c / 2 \<le> fy" "fy \<le> hy - c / 2"
    using center_range [OF assms(1-5), of start, folded l_def, folded c_def lx_def hx_def ly_def hy_def] by blast
  obtain tx ty where t0: "cellCenter clamp l finish = Inr (tx, ty)" "lx + c / 2 \<le> tx" "tx \<le> hx - c / 2" "ly + c / 2 \<le> ty" "ty \<le> hy - c / 2"
    using center_range [OF assms(1-5), of finish, folded l_def, folded c_def lx_def hx_def ly_def hy_def] by blast
  define dx dy where "dx = fl (tx - fx)" and "dy = fl (ty - fy)"
  define len where "len = (if hypot dx dy = 0 then 1 else hypot dx dy)"
  define nx ny where "nx = fl (fl (- dy / len) * max 5 (fl (c * fl (8 / 100))))" and "ny = fl (fl (dx / len) * max 5 (fl (c * fl (8 / 100))))"
  have q: "\<bar>dx / len\<bar> \<le> 1001 / 1000" "\<bar>- dy / len\<bar> \<le> 1001 / 1000"
    using hypot_quotient [OF assms(6), where a = dx and b = dy] unfolding len_def by simp_all
  have n: "\<bar>nx\<bar> \<le> c / 4" "\<bar>ny\<bar> \<le> c / 4" unfolding nx_def ny_def using normal_small q b(1,2) by blast+
  have lo: "0 \<le> lx" "hx \<le> 1000" "0 \<le> ly" "hy \<le> 1000" using b by linarith+
  have near: "lx \<le> fl (a + nx) \<and> fl (a + nx) \<le> hx \<and> lx \<le> fl (a - nx) \<and> fl (a - nx) \<le> hx"
    if "lx + c / 2 - 1 / 1000 \<le> a" "a \<le> hx - c / 2 + 1 / 1000" for a
    using quarter_shift [OF lo(1,2) b(1) that n(1)] by blast
  have near': "ly \<le> fl (a + ny) \<and> fl (a + ny) \<le> hy \<and> ly \<le> fl (a - ny) \<and> fl (a - ny) \<le> hy"
    if "ly + c / 2 - 1 / 1000 \<le> a" "a \<le> hy - c / 2 + 1 / 1000" for a
    using quarter_shift [OF lo(3,4) b(1) that n(2)] by blast
  let ?rail = "\<lambda>s. LineBetween (fl (fx + s * nx), fl (fy + s * ny)) (fl (tx + s * nx), fl (ty + s * ny))"
  have ops: "drawLadder hypot clamp l start finish = Inr (LineStyle (max 3 (fl (c * fl (5 / 100)))) 0x16a34a (fl (9 / 10))
      # LineBetween (fl (fx + nx), fl (fy + ny)) (fl (tx + nx), fl (ty + ny))
      # LineBetween (fl (fx - nx), fl (fy - ny)) (fl (tx - nx), fl (ty - ny))
      # map (rung (fx, fy) dx dy nx ny) [1, 2, 3, 4])"
    unfolding drawLadder_def f0(1) t0(1) bind_res_simps Let_def fst_conv snd_conv dx_def [symmetric] dy_def [symmetric]
      c_def [symmetric] len_def [symmetric] nx_def [symmetric] ny_def [symmetric] ..
  have B: "on_board l p \<longleftrightarrow> lx \<le> fst p \<and> fst p \<le> hx \<and> ly \<le> snd p \<and> snd p \<le> hy" for p
    by (simp add: on_board_def lx_def hx_def ly_def hy_def)
  have r: "\<forall>p \<in> set (op_points (rung (fx, fy) dx dy nx ny i)). on_board l p" if i: "i \<le> 5" for i
  proof -
    define t where "t = fl (of_nat i / 5)"
    have "0 \<le> t" by (simp add: t_def fl_nonneg)
    have "t \<le> 1"
    proof (cases "i = 5")
      case True
      then show ?thesis using fl_of_int [of 1] by (simp add: t_def)
    next
      case False
      then have "(of_nat i :: rat) \<le> of_nat 4" using i by (intro of_nat_mono) simp
      then have "of_nat i / 5 \<le> (4 / 5 :: rat)" by simp
      then show ?thesis using fl_between [of 0 "of_nat i / 5" "4 / 5"] by (simp add: t_def)
    qed
    have X: "lx + c / 2 - 1 / 1000 \<le> fl (fx + fl (dx * t)) \<and> fl (fx + fl (dx * t)) \<le> hx - c / 2 + 1 / 1000"
      unfolding dx_def by (rule rung_between) (use f0 t0 b \<open>0 \<le> t\<close> \<open>t \<le> 1\<close> in linarith)+
    have Y: "ly + c / 2 - 1 / 1000 \<le> fl (fy + fl (dy * t)) \<and> fl (fy + fl (dy * t)) \<le> hy - c / 2 + 1 / 1000"
      unfolding dy_def by (rule rung_between) (use f0 t0 b \<open>0 \<le> t\<close> \<open>t \<le> 1\<close> in linarith)+
    show ?thesis using near [of "fl (fx + fl (dx * t))"] near' [of "fl (fy + fl (dy * t))"] X Y
      by (simp add: rung_def B Let_def flip: t_def)
  qed
  have in_x: "lx + c / 2 - 1 / 1000 \<le> fx" "fx \<le> hx - c / 2 + 1 / 1000" "lx + c / 2 - 1 / 1000 \<le> tx" "tx \<le> hx - c / 2 + 1 / 1000"
    using f0 t0 by linarith+
  have in_y: "ly + c / 2 - 1 / 1000 \<le> fy" "fy \<le> hy - c / 2 + 1 / 1000" "ly + c / 2 - 1 / 1000 \<le> ty" "ty \<le> hy - c / 2 + 1 / 1000"
    using f0 t0 by linarith+
  have "\<forall>op \<in> set (map (rung (fx, fy) dx dy nx ny) [1, 2, 3, 4]). \<forall>p \<in> set (op_points op). on_board l p"
    unfolding set_map ball_simps using r [of 1] r [of 2] r [of 3] r [of 4] by simp
  then show ?thesis
    unfolding ops using near [OF in_x(1,2)] near [OF in_x(3,4)] near' [OF in_y(1,2)] near' [OF in_y(3,4)] by (simp add: B)
qed


lemma drawSnake_on_board:
  assumes "2 \<le> cols" "cols \<le> 10" "2 \<le> rows" "rows \<le> 10" "clamp_law clamp"
  defines "l \<equiv> calculateLayout 720 780 cols rows"
  shows "\<exists>ops. drawSnake clamp l start finish = Inr ops \<and> (\<forall>op \<in> set ops. \<forall>p \<in> set (op_points op). on_board l p)"
proof -
  define c where "c = (of_int (bl_cellSize l) :: rat)"
  define lx hx ly hy where "lx = (of_int (bl_offsetX l) :: rat)" and "hx = (of_int (bl_offsetX l + bl_boardWidth l) :: rat)"
    and "ly = (of_int (bl_offsetY l) :: rat)" and "hy = (of_int (bl_offsetY l + bl_boardHeight l) :: rat)"
  note b = board_scale [OF assms(1-4), folded l_def, folded c_def lx_def hx_def ly_def hy_def]
  obtain fx fy where f0: "cellCenter clamp l start = Inr (fx, fy)" "lx + c / 2 \<le> fx" "fx \<le> hx - c / 2" "ly + c / 2 \<le> fy" "fy \<le> hy - c / 2"
    using center_range [OF assms(1-5), of start, folded l_def, folded c_def lx_def hx_def ly_def hy_def] by blast
  obtain tx ty where t0: "cellCenter clamp l finish = Inr (tx, ty)" "lx + c / 2 \<le> tx" "tx \<le> hx - c / 2" "ly + c / 2 \<le> ty" "ty \<le> hy - c / 2"
    using center_range [OF assms(1-5), of finish, folded l_def, folded c_def lx_def hx_def ly_def hy_def] by blast
  have mid': "m - 2 / 1000000 \<le> fl (fl (u + v) / 2) \<and> fl (fl (u + v) / 2) \<le> M + 2 / 1000000"
    if h: "m \<le> u" "u \<le> M" "m \<le> v" "v \<le> M" "0 \<le> m" "M \<le> 800" for m M u v
  proof -
    have "\<bar>fl (u + v) - (u + v)\<bar> \<le> \<bar>u + v\<bar> / 2 ^ 53" by (rule fl_error)
    also have "\<dots> \<le> 1600 / 2 ^ 53" using h by (intro divide_right_mono) auto
    also have "\<dots> \<le> 1 / 1000000" by simp
    finally have "\<bar>fl (u + v) - (u + v)\<bar> \<le> 1 / 1000000" .
    then have "2 * m - 1 / 1000000 \<le> fl (u + v)" "fl (u + v) \<le> 2 * M + 1 / 1000000" using h by linarith+
    then show ?thesis using fl_between [of "m - 1 / 1000000" "fl (u + v) / 2" "M + 1 / 1000000"] h by linarith
  qed
  define e where "e = fl (c * fl (35 / 100))"
  have f: "0 \<le> fl (35 / 100)" "fl (35 / 100) \<le> 350001 / 1000000" using fl_between [of "35 / 100" "35 / 100" "35 / 100"] fl_nonneg [of "35 / 100"] by simp_all
  have "0 \<le> c * fl (35 / 100)" "c * fl (35 / 100) \<le> c * (350001 / 1000000)" using f b(1) by (auto intro: mult_left_mono)
  moreover have "c * (350001 / 1000000) \<le> 1000" using b(2) by linarith
  ultimately have k: "\<bar>c * fl (35 / 100)\<bar> \<le> 1000" "c * fl (35 / 100) \<le> c * (350001 / 1000000)" "0 \<le> c * fl (35 / 100)" by linarith+
  then have "0 \<le> e" "e \<le> c * (350001 / 1000000) + 1 / 1000000" using fl_close [OF k(1)] fl_nonneg [OF k(3)] unfolding e_def by linarith+
  then have e: "0 \<le> e" "e \<le> c * (36 / 100)" using b(1,2) by linarith+
  define mx my where "mx = fl (fl (fx + tx) / 2)" and "my = fl (fl (fy + ty) / 2)"
  have mx: "lx + c / 2 - 2 / 1000000 \<le> mx \<and> mx \<le> hx - c / 2 + 2 / 1000000"
    unfolding mx_def by (rule mid') (use f0 t0 b in linarith)+
  have my: "ly + c / 2 - 2 / 1000000 \<le> my \<and> my \<le> hy - c / 2 + 2 / 1000000"
    unfolding my_def by (rule mid') (use f0 t0 b in linarith)+
  have cx: "lx \<le> fl (mx + e) \<and> fl (mx + e) \<le> hx"
    using fl_between [of "lx + 1" "mx + e" "hx - 1"] mx e b by linarith
  define r where "r = max 5 (fl (c * fl (1 / 10)))"
  have g: "0 \<le> fl (1 / 10)" "fl (1 / 10) \<le> 100001 / 1000000" using fl_between [of "1 / 10" "1 / 10" "1 / 10"] fl_nonneg [of "1 / 10"] by simp_all
  have "0 \<le> c * fl (1 / 10)" "c * fl (1 / 10) \<le> c * (100001 / 1000000)" using g b(1) by (auto intro: mult_left_mono)
  then have "fl (c * fl (1 / 10)) \<le> c / 2" using fl_close [of "c * fl (1 / 10)"] b(1,2) by linarith
  then have r: "r \<le> c / 2" "0 \<le> r" using b(1) by (simp_all add: r_def)
  have B: "on_board l p \<longleftrightarrow> lx \<le> fst p \<and> fst p \<le> hx \<and> ly \<le> snd p \<and> snd p \<le> hy" for p
    by (simp add: on_board_def lx_def hx_def ly_def hy_def)
  have ops: "drawSnake clamp l start finish = Inr [LineStyle (max 4 (fl (c * fl (8 / 100)))) 0xdc2626 (fl (78 / 100)),
      DrawQuadratic (fx, fy) (fl (mx + e), my) (tx, ty) 32, FillStyle 0xdc2626 (fl (95 / 100)), FillCircle (fx, fy) r]"
    unfolding drawSnake_def f0(1) t0(1) bind_res_simps Let_def fst_conv snd_conv c_def [symmetric] mx_def [symmetric] my_def [symmetric]
      e_def [symmetric] r_def [symmetric] ..
  have "lx \<le> fx" "fx \<le> hx" "ly \<le> fy" "fy \<le> hy" "lx \<le> tx" "tx \<le> hx" "ly \<le> ty" "ty \<le> hy" "ly \<le> my" "my \<le> hy"
    "lx \<le> fx - r" "fx - r \<le> hx" "ly \<le> fy - r" "fy - r \<le> hy" "lx \<le> fx + r" "fx + r \<le> hx" "ly \<le> fy + r" "fy + r \<le> hy"
    using f0 t0 b my r by linarith+
  then show ?thesis unfolding ops using cx by (simp add: B)
qed

text \<open>A mean of the legs that is never below the longer one serves as \<open>hypot\<close>.\<close>

definition leg_hypot :: "rat \<Rightarrow> rat \<Rightarrow> rat" where
  "leg_hypot a b = max \<bar>a\<bar> \<bar>b\<bar> + 3 / 8 * min \<bar>a\<bar> \<bar>b\<bar>"

lemma leg_hypot_law: "hypot_law leg_hypot"
proof -
  have "0 \<le> leg_hypot a b \<and> \<bar>a\<bar> \<le> 1001 / 1000 * leg_hypot a b \<and> \<bar>b\<bar> \<le> 1001 / 1000 * leg_hypot a b" for a b
  proof -
    have "max \<bar>a\<bar> \<bar>b\<bar> \<le> leg_hypot a b" by (simp add: leg_hypot_def)
    then have "\<bar>a\<bar> \<le> leg_hypot a b" "\<bar>b\<bar> \<le> leg_hypot a b" "0 \<le> leg_hypot a b" by linarith+
    then show ?thesis by linarith
  qed
  then show ?thesis by (simp add: hypot_law_def)
qed

text \<open>C30: On every board the form offers, and for all links whatever squares they name, drawing the snakes and ladders succeeds
  and everything drawn (rails and rungs, heads, and the control polygons of the curves) lies on the board.\<close>

theorem links_on_board:
  assumes "2 \<le> cols" "cols \<le> 10" "2 \<le> rows" "rows \<le> 10" "clamp_law clamp" "hypot_law hypot"
  shows "\<exists>ops. drawLinks hypot clamp (calculateLayout 720 780 cols rows) ladders snakes = Inr ops
    \<and> (\<forall>op \<in> set ops. \<forall>p \<in> set (op_points op). on_board (calculateLayout 720 780 cols rows) p)"
proof -
  let ?l = "calculateLayout 720 780 cols rows"
  let ?good = "\<lambda>ops. \<forall>op \<in> set ops. \<forall>p \<in> set (op_points op). on_board ?l p"
  have all: "\<exists>xs. map_res f ys = Inr xs \<and> (\<forall>x \<in> set xs. ?good x)" if f: "\<And>y. \<exists>x. f y = Inr x \<and> ?good x" for f :: "snake_link \<Rightarrow> draw_op list res" and ys
  proof (induction ys)
    case (Cons y ys)
    then show ?case using f [of y] by auto
  qed simp
  obtain as where as: "map_res (\<lambda>ladder. drawLadder hypot clamp ?l (link_start ladder) (link_end ladder)) ladders = Inr as" "\<forall>x \<in> set as. ?good x"
    using all [of "\<lambda>ladder. drawLadder hypot clamp ?l (link_start ladder) (link_end ladder)" ladders] drawLadder_on_board [OF assms] by blast
  obtain bs where bs: "map_res (\<lambda>snake. drawSnake clamp ?l (link_start snake) (link_end snake)) snakes = Inr bs" "\<forall>x \<in> set bs. ?good x"
    using all [of "\<lambda>snake. drawSnake clamp ?l (link_start snake) (link_end snake)" snakes] drawSnake_on_board [OF assms(1-5)] by blast
  show ?thesis using as bs by (auto simp: drawLinks_def)
qed

theorem links_on_board_witness:
  "\<exists>ops. drawLinks leg_hypot std_clamp (calculateLayout 720 780 6 6) [\<lparr>link_start = 3, link_end = 20\<rparr>] [\<lparr>link_start = 33, link_end = 4\<rparr>] = Inr ops
    \<and> (\<forall>op \<in> set ops. \<forall>p \<in> set (op_points op). on_board (calculateLayout 720 780 6 6) p)"
  by (rule links_on_board [OF _ _ _ _ std_clamp_law leg_hypot_law]) simp_all

section \<open>The die comes to rest\<close>

lemma totalTicks_eq: "totalTicks = 11"
proof -
  have "11 \<le> fl (1000 / 90) \<and> fl (1000 / 90) \<le> 1125 / 100"
    using fl_between [of "1000 / 90" "1000 / 90" "1000 / 90"] by simp
  then have "\<lfloor>fl (1000 / 90) + 1 / 2\<rfloor> = 11" by (simp add: floor_eq_iff)
  then show ?thesis by (simp add: totalTicks_def js_round_def)
qed

context random_source
begin

lemma random_face_range: "ok s \<Longrightarrow> \<exists>f s'. random_face rnd s = (f, s') \<and> 1 \<le> f \<and> f \<le> 6 \<and> ok s'"
  using index_range [of s 6] rnd_ok [of s] by (cases "rnd s") (simp add: random_face_def)

lemma die_runs:
  assumes "ok s" "n \<le> 10"
  shows "\<exists>d s' faces. (die_callback rnd v ^^ n) (die_start rnd s) = (d, s') \<and> ok s' \<and> dr_tick d = int n \<and> dr_faces d = faces
    \<and> length faces = Suc n \<and> (\<forall>f \<in> set faces. 1 \<le> f \<and> f \<le> 6) \<and> dr_sounds d = replicate (Suc n) False \<and> dr_completions d = 0"
  using assms(2)
proof (induction n)
  case 0
  obtain f s' where "random_face rnd s = (f, s')" "1 \<le> f" "f \<le> 6" "ok s'" using random_face_range [OF assms(1)] by blast
  then show ?case by (simp add: die_start_def)
next
  case (Suc n)
  then obtain d s1 where d: "(die_callback rnd v ^^ n) (die_start rnd s) = (d, s1)" "ok s1" "dr_tick d = int n"
      "length (dr_faces d) = Suc n" "\<forall>f \<in> set (dr_faces d). 1 \<le> f \<and> f \<le> 6" "dr_sounds d = replicate (Suc n) False" "dr_completions d = 0"
    by auto
  obtain f s2 where f: "random_face rnd s1 = (f, s2)" "1 \<le> f" "f \<le> 6" "ok s2" using random_face_range [OF d(2)] by blast
  have "(die_callback rnd v ^^ Suc n) (die_start rnd s) = die_callback rnd v (d, s1)" using d(1) by simp
  also have "\<dots> = (d\<lparr>dr_tick := int (Suc n), dr_faces := dr_faces d @ [f], dr_sounds := dr_sounds d @ [False], dr_completions := 0\<rparr>, s2)"
    using d(3,7) f(1) Suc.prems by (simp add: die_callback_def totalTicks_eq Let_def)
  finally show ?case using d f by (simp add: replicate_append_same)
qed

lemma die_rests:
  assumes "ok s"
  shows "\<exists>d s' faces. (die_callback rnd v ^^ 11) (die_start rnd s) = (d, s') \<and> ok s' \<and> dr_faces d = faces @ [v] \<and> length faces = 11
    \<and> (\<forall>f \<in> set faces. 1 \<le> f \<and> f \<le> 6) \<and> dr_sounds d = replicate 11 False @ [True] \<and> dr_completions d = 1"
proof -
  obtain d s1 faces where d: "(die_callback rnd v ^^ 10) (die_start rnd s) = (d, s1)" "ok s1" "dr_tick d = int 10" "dr_faces d = faces"
      "length faces = Suc 10" "\<forall>f \<in> set faces. 1 \<le> f \<and> f \<le> 6" "dr_sounds d = replicate (Suc 10) False" "dr_completions d = 0"
    using die_runs [OF assms, of 10 v] by blast
  have "(die_callback rnd v ^^ 11) (die_start rnd s) = die_callback rnd v ((die_callback rnd v ^^ 10) (die_start rnd s))"
    by (simp add: numeral_eq_Suc)
  also have "\<dots> = die_callback rnd v (d, s1)" using d(1) by simp
  also have "\<dots> = (d\<lparr>dr_tick := 11, dr_faces := faces @ [v], dr_sounds := replicate 11 False @ [True], dr_completions := 1\<rparr>, s1)"
    using d(3,4,7,8) by (simp add: die_callback_def totalTicks_eq Let_def)
  finally show ?thesis using d(2,5,6) by auto
qed

end

text \<open>The tumbling die comes to rest: the timer's eleven callbacks after the first face draw eleven faces in 1 to 6 and
  then the value the engine has rolled; ten ticks follow the first one, then the thud; the token is moved once, after the last.\<close>

theorem die_comes_to_rest:
  assumes "random_source rnd ok" "ok s"
  shows "\<exists>d s' faces. (die_callback rnd finalValue ^^ nat totalTicks) (die_start rnd s) = (d, s') \<and> dr_faces d = faces @ [finalValue]
    \<and> (\<forall>f \<in> set faces. 1 \<le> f \<and> f \<le> 6) \<and> length faces = 11 \<and> dr_sounds d = replicate 11 False @ [True] \<and> dr_completions d = 1"
  using random_source.die_rests [OF assms, of finalValue] unfolding totalTicks_eq by auto

theorem die_comes_to_rest_witness:
  "\<exists>d s' faces. (die_callback half 4 ^^ nat totalTicks) (die_start half s) = (d, s') \<and> dr_faces d = faces @ [4] \<and> dr_completions d = 1"
  using die_comes_to_rest [OF half_source, of 4 s] by auto

section \<open>Sounds\<close>

definition audio_ok :: "audio \<Rightarrow> bool" where
  "audio_ok a \<longleftrightarrow> au_made a = au_closed a + (if au_ctx a = None then 0 else 1)"

datatype sound_event = DieSound settings rat bool | SceneEnds

fun sound_act :: "bool \<Rightarrow> bool \<Rightarrow> sound_event \<Rightarrow> audio \<Rightarrow> audio" where
  "sound_act supported suspended (DieSound s r settles) a = playDiceTick supported suspended s r settles a"
| "sound_act supported suspended SceneEnds a = sound_shutdown a"

lemma sound_act_ok: "audio_ok a \<Longrightarrow> audio_ok (sound_act supported suspended ev a)"
  by (cases ev) (auto simp: audio_ok_def playDiceTick_def ensureAudioContext_def sound_shutdown_def Let_def)

definition silent :: audio where
  "silent = \<lparr>au_ctx = None, au_made = 0, au_closed = 0, au_resumed = 0, au_tones = []\<rparr>"

text \<open>At most one audio context is open, none after the scene has shut down, and a muted player hears and opens none.\<close>

theorem one_audio_context:
  "let a = fold (sound_act supported suspended) evs silent in
     au_made a \<le> au_closed a + 1 \<and> au_made (sound_act supported suspended SceneEnds a) = au_closed (sound_act supported suspended SceneEnds a)
     \<and> (se_muteGameSounds s \<longrightarrow> sound_act supported suspended (DieSound s r settles) a = a)"
proof -
  have "audio_ok a \<Longrightarrow> audio_ok (fold (sound_act supported suspended) evs a)" for a
    by (induction evs arbitrary: a) (simp_all add: sound_act_ok)
  from this [of silent] show ?thesis
    by (auto simp: audio_ok_def silent_def Let_def sound_shutdown_def playDiceTick_def)
qed

end
