(* ===== verification/PhaserHost.thy ===== *)
theory PhaserHost
  imports GameScreens
begin

text \<open>
  The React component that holds a Phaser game (\<open>src/lib/PhaserGame.tsx\<close>). Games are numbered as they are constructed. React runs
  the layout effect when the component is mounted and, when the effect returned one, its cleanup when it is unmounted; in
  development it mounts, unmounts and mounts again. Phaser tells a game's \<open>ready\<close> and \<open>step\<close> events to the callbacks registered.
\<close>

section \<open>State and operations\<close>

type_synonym game_handles = "nat option \<times> nat option"

text \<open>The forwarded ref: none, an object with its current value, or a function with the calls it got.\<close>

datatype forwarded_ref = NoRef | ObjectRef game_handles | FunctionRef "game_handles list"

fun set_ref :: "game_handles \<Rightarrow> forwarded_ref \<Rightarrow> forwarded_ref" where
  "set_ref v NoRef = NoRef"
| "set_ref v (ObjectRef c) = ObjectRef v"
| "set_ref v (FunctionRef calls) = FunctionRef (calls @ [v])"

record phaser_host =
  ph_container :: bool
  ph_instance :: "nat option"
  ph_ref :: forwarded_ref
  ph_made :: nat
  ph_destroyed :: "nat list"
  ph_waiting :: "nat list"
  ph_told :: "nat list"
  ph_cleanup :: bool

definition host_new :: "bool \<Rightarrow> forwarded_ref \<Rightarrow> phaser_host" where
  "host_new container ref = \<lparr>ph_container = container, ph_instance = None, ph_ref = ref, ph_made = 0, ph_destroyed = [],
     ph_waiting = [], ph_told = [], ph_cleanup = False\<rparr>"

text \<open>The effect. \<open>ph_cleanup\<close> records whether it returned a cleanup.\<close>

definition host_mount :: "phaser_host \<Rightarrow> phaser_host" where
  "host_mount h =
     (if \<not> ph_container h then h\<lparr>ph_cleanup := False\<rparr>
      else if ph_instance h \<noteq> None then h\<lparr>ph_cleanup := False\<rparr>
      else let game = ph_made h
           in h\<lparr>ph_made := Suc game, ph_instance := Some game, ph_ref := set_ref (Some game, None) (ph_ref h),
                ph_waiting := ph_waiting h @ [game], ph_cleanup := True\<rparr>)"

definition host_cleanup :: "phaser_host \<Rightarrow> phaser_host" where
  "host_cleanup h =
     (let h = (case ph_instance h of
                 Some game \<Rightarrow> h\<lparr>ph_destroyed := ph_destroyed h @ [game], ph_instance := None\<rparr>
               | None \<Rightarrow> h)
      in h\<lparr>ph_ref := set_ref (None, None) (ph_ref h)\<rparr>)"

definition host_unmount :: "phaser_host \<Rightarrow> phaser_host" where
  "host_unmount h = (if ph_cleanup h then (host_cleanup h)\<lparr>ph_cleanup := False\<rparr> else h)"

text \<open>\<open>game.events.once('ready', ...)\<close> and \<open>game.events.on('step', ...)\<close> with the first active scene.\<close>

definition host_ready :: "nat \<Rightarrow> phaser_host \<Rightarrow> phaser_host" where
  "host_ready game h = (if game \<in> set (ph_waiting h)
     then h\<lparr>ph_waiting := removeAll game (ph_waiting h), ph_told := ph_told h @ [game]\<rparr> else h)"

definition host_step :: "nat \<Rightarrow> nat option \<Rightarrow> phaser_host \<Rightarrow> phaser_host" where
  "host_step game activeScene h =
     (case activeScene of None \<Rightarrow> h | Some scene \<Rightarrow> h\<lparr>ph_ref := set_ref (Some game, Some scene) (ph_ref h)\<rparr>)"

text \<open>Mounting alternates with unmounting. A destroyed game takes no more steps; it may still announce that it is ready.\<close>

inductive host_reach :: "phaser_host \<Rightarrow> bool \<Rightarrow> phaser_host \<Rightarrow> bool" for h0 where
  host_start: "host_reach h0 False h0"
| host_mounts: "host_reach h0 False h \<Longrightarrow> host_reach h0 True (host_mount h)"
| host_unmounts: "host_reach h0 True h \<Longrightarrow> host_reach h0 False (host_unmount h)"
| host_is_ready: "host_reach h0 m h \<Longrightarrow> host_reach h0 m (host_ready game h)"
| host_steps: "host_reach h0 m h \<Longrightarrow> game < ph_made h \<Longrightarrow> game \<notin> set (ph_destroyed h) \<Longrightarrow> host_reach h0 m (host_step game scene h)"

definition live_games :: "phaser_host \<Rightarrow> nat set" where
  "live_games h = {0..<ph_made h} - set (ph_destroyed h)"

section \<open>One game at a time\<close>

definition ref_game :: "forwarded_ref \<Rightarrow> nat option option" where
  "ref_game r = (case r of NoRef \<Rightarrow> None | ObjectRef v \<Rightarrow> Some (fst v)
     | FunctionRef calls \<Rightarrow> if calls = [] then None else Some (fst (last calls)))"

definition ref_agrees :: "forwarded_ref \<Rightarrow> nat option \<Rightarrow> bool" where
  "ref_agrees r i \<longleftrightarrow> ref_game r = None \<or> ref_game r = Some i"

definition host_ok :: "bool \<Rightarrow> phaser_host \<Rightarrow> bool" where
  "host_ok mounted h \<longleftrightarrow>
     live_games h = set_option (ph_instance h)
     \<and> ph_cleanup h = (ph_instance h \<noteq> None) \<and> (\<not> mounted \<longrightarrow> ph_instance h = None)
     \<and> (mounted \<and> ph_container h \<longrightarrow> ph_instance h \<noteq> None) \<and> (\<not> ph_container h \<longrightarrow> ph_made h = 0)
     \<and> set (ph_destroyed h) \<subseteq> {0..<ph_made h} \<and> distinct (ph_destroyed h)
     \<and> set (ph_waiting h) \<union> set (ph_told h) = {0..<ph_made h} \<and> distinct (ph_waiting h @ ph_told h)
     \<and> ref_agrees (ph_ref h) (ph_instance h)"

lemma ref_agrees_set [simp]: "ref_agrees (set_ref (i, s) r) i"
  by (cases r) (auto simp: ref_agrees_def ref_game_def)

lemma host_mount_ok:
  assumes "host_ok False h"
  shows "host_ok True (host_mount h)"
proof (cases "ph_container h")
  case True
  have i: "ph_instance h = None" and l: "{0..<ph_made h} - set (ph_destroyed h) = {}" and d: "set (ph_destroyed h) \<subseteq> {0..<ph_made h}"
    using assms by (auto simp: host_ok_def live_games_def)
  have "{0..<Suc (ph_made h)} - set (ph_destroyed h) = {ph_made h}" using l d by (auto simp: less_Suc_eq)
  moreover have "{0..<Suc (ph_made h)} = insert (ph_made h) {0..<ph_made h}" by auto
  moreover have "ph_made h \<notin> set (ph_waiting h) \<union> set (ph_told h)" using assms by (auto simp: host_ok_def)
  ultimately show ?thesis using assms True i
    by (auto simp: host_ok_def host_mount_def Let_def live_games_def)
next
  case False
  then show ?thesis using assms by (auto simp: host_ok_def host_mount_def live_games_def)
qed

lemma host_unmount_ok:
  assumes "host_ok True h"
  shows "host_ok False (host_unmount h)"
proof (cases "ph_instance h")
  case None
  then show ?thesis using assms by (auto simp: host_ok_def host_unmount_def)
next
  case (Some game)
  then have l: "{0..<ph_made h} - set (ph_destroyed h) = {game}" and c: "ph_cleanup h" "ph_container h"
      and d: "set (ph_destroyed h) \<subseteq> {0..<ph_made h}" "distinct (ph_destroyed h)"
      and w: "set (ph_waiting h) \<union> set (ph_told h) = {0..<ph_made h}" "distinct (ph_waiting h @ ph_told h)"
    using assms by (auto simp: host_ok_def live_games_def)
  have g: "game < ph_made h" "game \<notin> set (ph_destroyed h)" "{0..<ph_made h} - insert game (set (ph_destroyed h)) = {}"
    using l by auto
  have h': "host_unmount h = h\<lparr>ph_destroyed := ph_destroyed h @ [game], ph_instance := None,
      ph_ref := set_ref (None, None) (ph_ref h), ph_cleanup := False\<rparr>"
    using Some c by (simp add: host_unmount_def host_cleanup_def)
  show ?thesis unfolding h' host_ok_def live_games_def using c d w g by simp
qed

lemma host_ready_ok: "host_ok m h \<Longrightarrow> host_ok m (host_ready game h)"
  by (auto simp: host_ok_def host_ready_def live_games_def distinct_removeAll)

lemma host_step_ok:
  "host_ok m h \<Longrightarrow> game < ph_made h \<Longrightarrow> game \<notin> set (ph_destroyed h) \<Longrightarrow> host_ok m (host_step game scene h)"
proof -
  assume h: "host_ok m h" and g: "game < ph_made h" "game \<notin> set (ph_destroyed h)"
  then have "game \<in> set_option (ph_instance h)" by (auto simp: host_ok_def live_games_def)
  then have "ph_instance h = Some game" by simp
  then show ?thesis using h by (cases scene) (auto simp: host_ok_def host_step_def live_games_def)
qed

lemma host_reach_ok: "host_reach h0 m h \<Longrightarrow> host_ok False h0 \<Longrightarrow> host_ok m h"
  by (induction rule: host_reach.induct) (simp_all add: host_mount_ok host_unmount_ok host_ready_ok host_step_ok)

lemma host_new_ok: "ref_game ref \<in> {None, Some None} \<Longrightarrow> host_ok False (host_new container ref)"
  by (auto simp: host_ok_def host_new_def live_games_def ref_agrees_def)

section \<open>Properties\<close>

text \<open>C32: however often React mounts and unmounts the component, in any interleaving with the events of the games, at most one game
  is alive: the one in the instance ref while the component is mounted in a page, none after the unmount; the forwarded ref
  names that game or none, and \<open>onGameReady\<close> is called at most once for each game.\<close>

theorem one_phaser_game:
  assumes "host_reach (host_new container ref) mounted h" and "ref_game ref \<in> {None, Some None}"
  shows "live_games h = set_option (ph_instance h) \<and> (ph_instance h \<noteq> None \<longleftrightarrow> mounted \<and> ph_container h)
    \<and> ref_agrees (ph_ref h) (ph_instance h) \<and> distinct (ph_told h)"
  using host_reach_ok [OF assms(1) host_new_ok [OF assms(2)]] by (cases mounted) (auto simp: host_ok_def live_games_def)

text \<open>The double mount of development: two games are made, the first is destroyed before the second is made.\<close>

definition strict_mode :: "phaser_host \<Rightarrow> phaser_host" where
  "strict_mode h = host_mount (host_unmount (host_mount h))"

theorem one_phaser_game_witness:
  "live_games (strict_mode (host_new True (ObjectRef (None, None)))) = set_option (ph_instance (strict_mode (host_new True (ObjectRef (None, None)))))
    \<and> (ph_instance (strict_mode (host_new True (ObjectRef (None, None)))) \<noteq> None \<longleftrightarrow> True \<and> ph_container (strict_mode (host_new True (ObjectRef (None, None)))))
    \<and> ref_agrees (ph_ref (strict_mode (host_new True (ObjectRef (None, None)))))
        (ph_instance (strict_mode (host_new True (ObjectRef (None, None)))))
    \<and> distinct (ph_told (strict_mode (host_new True (ObjectRef (None, None)))))"
  by (rule one_phaser_game [where container = True and ref = "ObjectRef (None, None)"])
    (auto simp: strict_mode_def ref_game_def intro!: host_reach.intros)

lemma strict_mode_games:
  "ph_made (strict_mode (host_new True r)) = 2" "ph_destroyed (strict_mode (host_new True r)) = [0]"
  "ph_instance (strict_mode (host_new True r)) = Some 1"
  by (simp_all add: strict_mode_def host_new_def host_mount_def host_unmount_def host_cleanup_def Let_def)

end
