(* ===== verification/Markup.thy ===== *)
theory Markup
  imports JsText JsNumber
begin

text \<open>
  The elements the React components render, and the shared components of \<open>src/components/ui/\<close>. An element has a tag, its
  attributes and its children; class names, inline styles, keys and refs are left out, except that \<open>display: none\<close> is the
  attribute \<open>hidden\<close>. Event handlers are the events they raise;
  \<open>Keyed\<close> is a handler of keys, \<open>Stop\<close> one that stops the propagation of a click. Text outside Latin-1 is a \<open>Glyph\<close> with its code point.
\<close>

section \<open>Elements\<close>

datatype 'ev attr = Str string | Glyphs "nat list" | Flag bool | Num rat | Press 'ev | Value "string \<Rightarrow> 'ev" | Checked "bool \<Rightarrow> 'ev"
  | Keyed "string \<Rightarrow> 'ev option" | Stop

datatype 'ev node = Text string | Glyph nat | El string "(string \<times> 'ev attr) list" "'ev node list"

definition Button :: "(string \<times> 'ev attr) list \<Rightarrow> 'ev node list \<Rightarrow> 'ev node" where
  "Button attrs children = El ''button'' attrs children"

definition Card :: "(string \<times> 'ev attr) list \<Rightarrow> 'ev node list \<Rightarrow> 'ev node" where
  "Card attrs children = El ''div'' attrs children"

definition CardHeader :: "(string \<times> 'ev attr) list \<Rightarrow> 'ev node list \<Rightarrow> 'ev node" where
  "CardHeader attrs children = El ''div'' attrs children"

definition CardTitle :: "(string \<times> 'ev attr) list \<Rightarrow> 'ev node list \<Rightarrow> 'ev node" where
  "CardTitle attrs children = El ''h3'' attrs children"

definition CardContent :: "(string \<times> 'ev attr) list \<Rightarrow> 'ev node list \<Rightarrow> 'ev node" where
  "CardContent attrs children = El ''div'' attrs children"

text \<open>The default identifier of an input: \<open>`input-${label.toLowerCase().replace(/\s+/g, '-')}`\<close>.\<close>

fun dashed :: "string \<Rightarrow> string" where
  "dashed [] = []"
| "dashed (c # cs) = (if is_space c then (case cs of d # _ \<Rightarrow> if is_space d then dashed cs else CHR ''-'' # dashed cs | [] \<Rightarrow> ''-'')
     else c # dashed cs)"

definition input_id :: "string option \<Rightarrow> string \<Rightarrow> string" where
  "input_id i label = (case i of Some i \<Rightarrow> i | None \<Rightarrow> ''input-'' @ dashed (to_lower label))"

definition Input :: "string option \<Rightarrow> string \<Rightarrow> string option \<Rightarrow> 'ev node list \<Rightarrow> 'ev node list \<Rightarrow> (string \<times> 'ev attr) list \<Rightarrow> 'ev node" where
  "Input i label error leftIcon rightIcon attrs =
     (let inputId = input_id i label;
          shown = (case error of Some e \<Rightarrow> e \<noteq> [] | None \<Rightarrow> False)
      in El ''div'' []
           ([El ''label'' [(''htmlFor'', Str inputId)] [Text label],
             El ''div'' []
               ((if leftIcon \<noteq> [] then [El ''span'' [(''aria-hidden'', Str ''true'')] leftIcon] else [])
                @ [El ''input'' ([(''id'', Str inputId)]
                      @ (if shown then [(''aria-describedby'', Str (inputId @ ''-error''))] else [])
                      @ [(''aria-invalid'', Str (if shown then ''true'' else ''false''))] @ attrs) []]
                @ (if rightIcon \<noteq> [] then [El ''span'' [] rightIcon] else []))]
            @ (case error of
                 Some e \<Rightarrow> if e \<noteq> [] then [El ''p'' [(''id'', Str (inputId @ ''-error'')), (''role'', Str ''alert'')]
                              [El ''span'' [(''aria-hidden'', Str ''true'')] [Glyph 0x26A0], Text e]] else []
               | None \<Rightarrow> [])))"

text \<open>\<open>UsbiEmblem\<close> and \<open>Spinner\<close> of \<open>Brand.tsx\<close>; the drawing of the emblem is hidden from assistive technology.\<close>

definition UsbiEmblem :: "int \<Rightarrow> 'ev node" where
  "UsbiEmblem s =
     El ''span'' [(''role'', Str ''img''), (''aria-label'', Str ''USBI, Universidad Veracruzana'')]
       [El ''svg'' [(''width'', Num (of_int (js_round (fl (of_int s * fl (54 / 100)))))), (''height'', Num (of_int (js_round (fl (of_int s * fl (54 / 100)))))),
            (''viewBox'', Str ''0 0 24 24''), (''fill'', Str ''none''), (''stroke'', Str ''currentColor''), (''strokeWidth'', Num 2),
            (''strokeLinecap'', Str ''round''), (''strokeLinejoin'', Str ''round''), (''aria-hidden'', Str ''true''), (''focusable'', Str ''false'')]
         [El ''path'' [(''d'', Str ''M12 7v14'')] [],
          El ''path'' [(''d'', Str ''M3 18a1 1 0 0 1-1-1V4a1 1 0 0 1 1-1h5a4 4 0 0 1 4 4 4 4 0 0 1 4-4h5a1 1 0 0 1 1 1v13a1 1 0 0 1-1 1h-6a3 3 0 0 0-3 3 3 3 0 0 0-3-3z'')] []]]"

definition Spinner :: "'ev node" where
  "Spinner = El ''span'' [(''aria-hidden'', Str ''true'')] []"

section \<open>Reading a page\<close>

definition flag :: "string \<Rightarrow> (string \<times> 'ev attr) list \<Rightarrow> bool" where
  "flag k as \<longleftrightarrow> (case map_of as k of Some (Flag b) \<Rightarrow> b | _ \<Rightarrow> False)"

definition str_attr :: "string \<Rightarrow> (string \<times> 'ev attr) list \<Rightarrow> string option" where
  "str_attr k as = (case map_of as k of Some (Str s) \<Rightarrow> Some s | _ \<Rightarrow> None)"

fun node_text :: "'ev node \<Rightarrow> string" where
  "node_text (Text s) = s"
| "node_text (Glyph c) = []"
| "node_text (El t as ks) = concat (map node_text ks)"

fun has_text :: "'ev node \<Rightarrow> bool" where
  "has_text (Text s) = (s \<noteq> [])"
| "has_text (Glyph c) = True"
| "has_text (El t as ks) = list_ex has_text ks"

text \<open>Every text shown, in document order.\<close>

fun shown_texts :: "'ev node \<Rightarrow> string list" where
  "shown_texts (Text s) = [s]"
| "shown_texts (Glyph c) = []"
| "shown_texts (El t as ks) = concat (map shown_texts ks)"

text \<open>The identifiers of a page and the identifiers that labels with a text name.\<close>

fun ids :: "'ev node \<Rightarrow> string list" where
  "ids (El t as ks) = (case str_attr ''id'' as of Some i \<Rightarrow> [i] | None \<Rightarrow> []) @ concat (map ids ks)"
| "ids _ = []"

fun label_targets :: "'ev node \<Rightarrow> string list" where
  "label_targets (El t as ks) =
     (case str_attr ''htmlFor'' as of Some i \<Rightarrow> if list_ex has_text ks then [i] else [] | None \<Rightarrow> []) @ concat (map label_targets ks)"
| "label_targets _ = []"

definition form_field :: "string \<Rightarrow> bool" where
  "form_field t \<longleftrightarrow> t \<in> {''input'', ''select'', ''textarea''}"

text \<open>A field has a name when it lies in a label with a text, has an \<open>aria-label\<close> or a label names its identifier; a hidden one needs none.\<close>

fun fields_named :: "string set \<Rightarrow> bool \<Rightarrow> 'ev node \<Rightarrow> bool" where
  "fields_named fors inside (El t as ks) \<longleftrightarrow>
     (form_field t \<and> \<not> flag ''hidden'' as \<longrightarrow>
        inside \<or> map_of as ''aria-label'' \<noteq> None \<or> (case str_attr ''id'' as of Some i \<Rightarrow> i \<in> fors | None \<Rightarrow> False))
     \<and> list_all (fields_named fors (inside \<or> t = ''label'' \<and> list_ex has_text ks)) ks"
| "fields_named fors inside _ \<longleftrightarrow> True"

definition labelled :: "'ev node \<Rightarrow> bool" where
  "labelled n \<longleftrightarrow> fields_named (set (label_targets n)) False n"

text \<open>Every button has a text or an \<open>aria-label\<close>, and no link lies in a button.\<close>

fun buttons_named :: "'ev node \<Rightarrow> bool" where
  "buttons_named (El t as ks) \<longleftrightarrow> (t = ''button'' \<longrightarrow> map_of as ''aria-label'' \<noteq> None \<or> list_ex has_text ks) \<and> list_all buttons_named ks"
| "buttons_named _ \<longleftrightarrow> True"

fun contains_tag :: "string \<Rightarrow> 'ev node \<Rightarrow> bool" where
  "contains_tag tag (El t as ks) \<longleftrightarrow> t = tag \<or> list_ex (contains_tag tag) ks"
| "contains_tag tag _ \<longleftrightarrow> False"

fun links_in_buttons :: "'ev node \<Rightarrow> bool" where
  "links_in_buttons (El t as ks) \<longleftrightarrow> (t = ''button'' \<and> list_ex (contains_tag ''a'') ks) \<or> list_ex links_in_buttons ks"
| "links_in_buttons _ \<longleftrightarrow> False"

text \<open>
  The events a user can raise on a page: clicks on what is not disabled, any text typed into a field up to its \<open>maxLength\<close>,
  one of the options of a select, the other state of a check box, and submitting a form through an enabled submit button, where
  the browser first asks for the required fields unless the form says \<open>noValidate\<close>. A button without a type submits. Other
  checks of the browser (the shape of an address, ranges of numbers) are left out.
\<close>

fun option_values :: "'ev node \<Rightarrow> string list" where
  "option_values (El t as ks) = (case str_attr ''value'' as of Some v \<Rightarrow> if t = ''option'' then [v] else [] | None \<Rightarrow> []) @ concat (map option_values ks)"
| "option_values _ = []"

fun can_submit :: "'ev node \<Rightarrow> bool" where
  "can_submit (El t as ks) \<longleftrightarrow> (t = ''button'' \<and> \<not> flag ''disabled'' as \<and> (str_attr ''type'' as = None \<or> str_attr ''type'' as = Some ''submit''))
     \<or> list_ex can_submit ks"
| "can_submit _ \<longleftrightarrow> False"

fun value_missing :: "'ev node \<Rightarrow> bool" where
  "value_missing (El t as ks) \<longleftrightarrow> (form_field t \<and> flag ''required'' as \<and> str_attr ''value'' as = Some []) \<or> list_ex value_missing ks"
| "value_missing _ \<longleftrightarrow> False"

text \<open>The keys an element listens to.\<close>

definition key_events :: "(string \<times> 'ev attr) list \<Rightarrow> 'ev set" where
  "key_events as = (case map_of as ''onKeyDown'' of Some (Keyed f) \<Rightarrow> {ev. \<exists>k. f k = Some ev} | _ \<Rightarrow> {})"

definition typed :: "(string \<times> 'ev attr) list \<Rightarrow> string set" where
  "typed as = (case map_of as ''maxLength'' of Some (Num n) \<Rightarrow> {v. of_nat (length v) \<le> n} | _ \<Rightarrow> UNIV)"

definition own_events :: "string \<Rightarrow> (string \<times> 'ev attr) list \<Rightarrow> 'ev node list \<Rightarrow> 'ev set" where
  "own_events t as ks =
     (if flag ''disabled'' as then {}
      else (case map_of as ''onClick'' of Some (Press ev) \<Rightarrow> {ev} | _ \<Rightarrow> {})
         \<union> (case map_of as ''onSubmit'' of
              Some (Press ev) \<Rightarrow> if list_ex can_submit ks \<and> (flag ''noValidate'' as \<or> \<not> list_ex value_missing ks) then {ev} else {}
            | _ \<Rightarrow> {})
         \<union> (case map_of as ''onChange'' of
              Some (Value f) \<Rightarrow> if t = ''select'' then f ` set (concat (map option_values ks)) else f ` typed as
            | Some (Checked f) \<Rightarrow> {f (\<not> flag ''checked'' as)}
            | _ \<Rightarrow> {}))"

fun offers :: "'ev node \<Rightarrow> 'ev set" where
  "offers (El t as ks) = own_events t as ks \<union> key_events as \<union> (\<Union>k \<in> set ks. offers k)"
| "offers _ = {}"

text \<open>
  What a click raises: the handlers from the element under the pointer outwards, until one stops the propagation. A disabled button
  swallows the click. Each element that can be under the pointer gives one list.
\<close>

definition bubble :: "(string \<times> 'ev attr) list \<Rightarrow> 'ev list \<times> bool \<Rightarrow> 'ev list \<times> bool" where
  "bubble as = (\<lambda>(evs, stopped).
     if stopped then (evs, True)
     else if flag ''disabled'' as then ([], True)
     else (case map_of as ''onClick'' of Some (Press ev) \<Rightarrow> (evs @ [ev], False) | Some Stop \<Rightarrow> (evs, True) | _ \<Rightarrow> (evs, False)))"

fun clicks :: "'ev node \<Rightarrow> ('ev list \<times> bool) list" where
  "clicks (El t as ks) = map (bubble as) (([], False) # concat (map clicks ks))"
| "clicks _ = []"

definition single_clicks :: "'ev node \<Rightarrow> bool" where
  "single_clicks n \<longleftrightarrow> list_all (\<lambda>(evs, stopped). length evs \<le> 1) (clicks n)"

text \<open>What a user can bring about: at every moment one of the events that are then offered.\<close>

inductive page_reach :: "('s \<Rightarrow> 'ev set) \<Rightarrow> ('ev \<Rightarrow> 's \<Rightarrow> 's) \<Rightarrow> 's \<Rightarrow> 's \<Rightarrow> bool" for offered act s0 where
  page_start: "page_reach offered act s0 s0"
| page_event: "page_reach offered act s0 s \<Longrightarrow> ev \<in> offered s \<Longrightarrow> page_reach offered act s0 (act ev s)"

lemma page_reach_trans: "page_reach offered act s1 s2 \<Longrightarrow> page_reach offered act s0 s1 \<Longrightarrow> page_reach offered act s0 s2"
  by (induction rule: page_reach.induct) (auto intro: page_reach.intros)

lemma page_invariant:
  assumes "page_reach offered act s0 s" "P s0" "\<And>ev s. P s \<Longrightarrow> ev \<in> offered s \<Longrightarrow> P (act ev s)"
  shows "P s"
  using assms by (induction rule: page_reach.induct) auto

text \<open>An operation that may fail, on a page that stays as it was then.\<close>

definition or_stay :: "('ev \<Rightarrow> 's \<Rightarrow> 's res) \<Rightarrow> 'ev \<Rightarrow> 's \<Rightarrow> 's" where
  "or_stay act ev s = (case act ev s of Inr s' \<Rightarrow> s' | Inl _ \<Rightarrow> s)"

text \<open>Every field and every button has a name, and no identifier names two elements.\<close>

definition accessible :: "'ev node \<Rightarrow> bool" where
  "accessible n \<longleftrightarrow> labelled n \<and> buttons_named n \<and> distinct (ids n)"

section \<open>Checking a page piece by piece\<close>

lemma fields_named_mono: "fields_named fors b n \<Longrightarrow> fors \<subseteq> fors' \<Longrightarrow> (b \<longrightarrow> b') \<Longrightarrow> fields_named fors' b' n"
proof (induction n arbitrary: b b')
  case (El t as ks)
  have "list_all (fields_named fors' (b' \<or> t = ''label'' \<and> list_ex has_text ks)) ks"
    using El.prems(1) unfolding fields_named.simps list_all_iff
    by (intro ballI El.IH [of _ "b \<or> t = ''label'' \<and> list_ex has_text ks"]) (use El.prems(2,3) in auto)
  then show ?case using El.prems by (auto split: option.splits)
qed simp_all

lemma labelled_simps [simp]:
  "labelled (Text s)" "labelled (Glyph c)"
  by (simp_all add: labelled_def)

lemma labelled_El:
  assumes "\<not> form_field t \<or> flag ''hidden'' as \<or> map_of as ''aria-label'' \<noteq> None" "list_all labelled ks"
  shows "labelled (El t as ks)"
proof -
  have "fields_named (set (label_targets (El t as ks))) (t = ''label'' \<and> list_ex has_text ks) k" if "k \<in> set ks" for k
  proof (rule fields_named_mono)
    show "fields_named (set (label_targets k)) False k" using assms(2) that by (simp add: list_all_iff labelled_def)
  qed (use that in auto)
  then show ?thesis using assms(1) by (auto simp: labelled_def list_all_iff)
qed

text \<open>What lies in a label needs no name of its own.\<close>

lemma fields_named_inside: "fields_named fors True n"
  by (induction n) (simp_all add: list_all_iff)

lemma labelled_label: "list_ex has_text ks \<Longrightarrow> labelled (El ''label'' as ks)"
  by (simp add: labelled_def form_field_def fields_named_inside list_all_iff)

lemma labelled_append: "list_all labelled (xs @ ys) \<longleftrightarrow> list_all labelled xs \<and> list_all labelled ys"
  by simp

lemma list_labelled:
  assumes "list_all labelled ks" "set (concat (map label_targets ks)) \<subseteq> fors"
  shows "list_all (fields_named fors b) ks"
  unfolding list_all_iff
proof
  fix k assume k: "k \<in> set ks"
  then have "fields_named (set (label_targets k)) False k" using assms(1) by (simp add: list_all_iff labelled_def)
  then show "fields_named fors b k" by (rule fields_named_mono) (use assms(2) k in auto)
qed

lemma labelled_Input:
  assumes "list_all labelled leftIcon" "list_all labelled rightIcon" "label \<noteq> []"
  shows "labelled (Input i label error leftIcon rightIcon attrs)"
proof -
  define fors where "fors = set (label_targets (Input i label error leftIcon rightIcon attrs))"
  have l: "list_all (fields_named fors False) leftIcon" by (rule list_labelled [OF assms(1)]) (auto simp: fors_def Input_def Let_def)
  have r: "list_all (fields_named fors False) rightIcon" by (rule list_labelled [OF assms(2)]) (auto simp: fors_def Input_def Let_def)
  have i: "input_id i label \<in> fors" using assms(3) by (simp add: fors_def Input_def Let_def str_attr_def)
  have "fields_named fors False (Input i label error leftIcon rightIcon attrs)"
    using l r i unfolding Input_def Let_def
    by (simp add: form_field_def str_attr_def split: option.split)
  then show ?thesis by (simp add: labelled_def fors_def)
qed

lemma labelled_intro:
  "\<not> form_field t \<Longrightarrow> list_all labelled ks \<Longrightarrow> labelled (El t as ks)"
  by (rule labelled_El) simp_all

lemma list_all_map_const: "(\<And>x. P (f x)) \<Longrightarrow> list_all P (map f xs)"
  by (simp add: list_all_iff)

lemmas page_parts = Button_def Card_def CardHeader_def CardTitle_def CardContent_def UsbiEmblem_def Spinner_def

lemma own_events_Input:
  "own_events ''input'' ((''id'', x) # (if b then [(''aria-describedby'', y)] else []) @ (''aria-invalid'', z) # attrs) [] = own_events ''input'' attrs []"
  by (cases b) (simp_all add: own_events_def typed_def flag_def cong: option.case_cong attr.case_cong)

lemma key_events_Input:
  "key_events ((''id'', x) # (if b then [(''aria-describedby'', y)] else []) @ (''aria-invalid'', z) # attrs) = key_events attrs"
  by (simp add: key_events_def)

lemma offers_Input:
  "offers (Input i label error l r attrs) = own_events ''input'' attrs [] \<union> key_events attrs \<union> (\<Union>k\<in>set l \<union> set r. offers k)"
proof -
  have [simp]: "own_events t [] ks = {}" "own_events ''label'' [(''htmlFor'', x)] ks = {}" "own_events ''span'' [(''aria-hidden'', x)] ks = {}"
    "own_events ''p'' [(''id'', x), (''role'', y)] ks = {}" for t ks x y
    by (simp_all add: own_events_def flag_def)
  have [simp]: "key_events [] = {}" "key_events [(''htmlFor'', x)] = {}" "key_events [(''aria-hidden'', x)] = {}"
    "key_events [(''id'', x), (''role'', y)] = {}" for x y
    by (simp_all add: key_events_def)
  show ?thesis
    by (cases error; cases l; cases r) (simp_all add: Input_def Let_def key_events_Input key_events_Input [where b = False, simplified] own_events_Input own_events_Input [where b = False, simplified] Un_ac)
qed

lemma ids_Input: "ids (Input i label error l r attrs) = concat (map ids l) @ [input_id i label] @ concat (map ids r)
    @ (case error of Some e \<Rightarrow> if e \<noteq> [] then [input_id i label @ ''-error''] else [] | None \<Rightarrow> [])"
  by (cases error; cases l; cases r) (simp_all add: Input_def Let_def str_attr_def)

lemma can_submit_Input: "can_submit (Input i label error l r attrs) \<longleftrightarrow> list_ex can_submit l \<or> list_ex can_submit r"
  by (cases error; cases l; cases r) (simp_all add: Input_def Let_def disj_ac)

lemma value_missing_Input:
  "value_missing (Input i label error l r attrs) \<longleftrightarrow>
     flag ''required'' attrs \<and> str_attr ''value'' attrs = Some [] \<or> list_ex value_missing l \<or> list_ex value_missing r"
  by (cases error; cases l; cases r) (auto simp: Input_def Let_def form_field_def flag_def str_attr_def)

end
