(* ===== verification/AccountPages.thy ===== *)
theory AccountPages
  imports Markup Accounts Content
begin

text \<open>
  What the account pages show and which events they offer: \<open>src/features/auth/LoginPage.tsx\<close>, \<open>RegisterPage.tsx\<close>,
  \<open>src/features/arco/ArcoPage.tsx\<close>, \<open>src/features/profile/ProfilePage.tsx\<close> and \<open>src/features/settings/SettingsPage.tsx\<close>. The
  functions behind the events are those of \<open>Accounts\<close> and \<open>Stores\<close>. A handler is one step, from the press to its end.
\<close>

section \<open>Signing in\<close>

record login_form =
  lf_email :: string
  lf_password :: string
  lf_showPassword :: bool
  lf_error :: "shown_error option"
  lf_notice :: "string option"
  lf_loading :: bool
  lf_navigated :: "string option"

datatype login_event = LoginEmail string | LoginPassword string | LoginToggle | LoginSubmit

text \<open>A message handed over by the registration is shown as a notice.\<close>

definition login_form_new :: "string option \<Rightarrow> login_form" where
  "login_form_new message = \<lparr>lf_email = [], lf_password = [], lf_showPassword = False, lf_error = None, lf_notice = message,
     lf_loading = False, lf_navigated = None\<rparr>"

text \<open>The text of an error. A detail that is no string is outside the model and shown as nothing.\<close>

definition detail_text :: "json \<Rightarrow> 'ev node" where
  "detail_text d = (case d of JStr s \<Rightarrow> Text s | _ \<Rightarrow> Text [])"

text \<open>An error is shown when its text is not empty. The message of a \<open>TypeError\<close> is the browser's and left empty.\<close>

definition error_shown :: "shown_error option \<Rightarrow> bool" where
  "error_shown e = (case e of None \<Rightarrow> False | Some m \<Rightarrow> m \<noteq> DetailMsg (JStr []))"

definition login_error_text :: "shown_error \<Rightarrow> 'ev node" where
  "login_error_text e = (case e of
     PendingTutorMsg \<Rightarrow> Text (''La cuenta est'' @ [CHR 0xE1] @ '' pendiente de consentimiento de tutor. Completa el registro del tutor antes de iniciar sesi'' @ [CHR 0xF3] @ ''n.'')
   | DetailMsg d \<Rightarrow> detail_text d
   | FallbackMsg \<Rightarrow> Text (''Error al iniciar sesi'' @ [CHR 0xF3] @ ''n. Intenta de nuevo.'')
   | BadShapeMsg \<Rightarrow> Text (''El servidor respondi'' @ [CHR 0xF3] @ '' de forma inesperada. Intenta de nuevo m'' @ [CHR 0xE1] @ ''s tarde.'')
   | _ \<Rightarrow> Text ''No se pudo conectar con el servidor.'')"

definition EyeIcon :: "'ev node" where
  "EyeIcon =
     El ''svg'' [(''xmlns'', Str ''http://www.w3.org/2000/svg''),
       (''width'', Str ''20''),
       (''height'', Str ''20''),
       (''viewBox'', Str ''0 0 24 24''),
       (''fill'', Str ''none''),
       (''stroke'', Str ''currentColor''),
       (''strokeWidth'', Str ''2''),
       (''strokeLinecap'', Str ''round''),
       (''strokeLinejoin'', Str ''round'')] [El ''path'' [(''d'', Str ''M2 12s3-7 10-7 10 7 10 7-3 7-10 7-10-7-10-7Z'')] [],
       El ''circle'' [(''cx'', Str ''12''), (''cy'', Str ''12''), (''r'', Str ''3'')] []]"

definition EyeOffIcon :: "'ev node" where
  "EyeOffIcon =
     El ''svg'' [(''xmlns'', Str ''http://www.w3.org/2000/svg''),
       (''width'', Str ''20''),
       (''height'', Str ''20''),
       (''viewBox'', Str ''0 0 24 24''),
       (''fill'', Str ''none''),
       (''stroke'', Str ''currentColor''),
       (''strokeWidth'', Str ''2''),
       (''strokeLinecap'', Str ''round''),
       (''strokeLinejoin'', Str ''round'')] [El ''path'' [(''d'', Str ''M9.88 9.88a3 3 0 1 0 4.24 4.24'')] [],
       El ''path'' [(''d'', Str ''M10.73 5.08A10.43 10.43 0 0 1 12 5c7 0 10 7 10 7a13.16 13.16 0 0 1-1.67 2.68'')] [],
       El ''path'' [(''d'', Str ''M6.61 6.61A13.526 13.526 0 0 0 2 12s3 7 10 7a9.74 9.74 0 0 0 5.39-1.61'')] [],
       El ''line'' [(''x1'', Str ''2''), (''x2'', Str ''22''), (''y1'', Str ''2''), (''y2'', Str ''22'')] []]"

definition login_page :: "login_form \<Rightarrow> login_event node" where
  "login_page f =
     El ''main'' [] [El ''div'' [] [El ''div'' [(''aria-hidden'', Str ''true'')] [],
        El ''div'' [] ([El ''header'' [] [UsbiEmblem 56, El ''div'' [] [El ''h1'' [] [Text ''USBI''], El ''p'' []
            [Text ''Universidad Veracruzana'']]]]
         @ (if lf_notice f \<noteq> None \<and> lf_notice f \<noteq> Some [] then [El ''p'' [] [Text (the (lf_notice f))]] else [])
         @ [El ''form'' [(''onSubmit'', Press LoginSubmit),
               (''aria-label'', Str (''Formulario de inicio de sesi'' @ [CHR 0xF3] @ ''n'')),
               (''noValidate'', Flag True)] ([Input (Some ''login-email'') ''Correo institucional'' None [] [] [(''type'', Str ''email''),
                    (''autoComplete'', Str ''email''),
                    (''placeholder'', Str ''correo@uv.mx''),
                    (''value'', Str (lf_email f)),
                    (''onChange'', Value LoginEmail),
                    (''required'', Flag True),
                    (''aria-required'', Str ''true'')],
                  Input (Some ''login-password'') (''Contrase'' @ [CHR 0xF1] @ ''a'') None [] [El ''button'' [(''type'', Str ''button''),
                     (''onClick'', Press LoginToggle),
                     (''aria-label'',
                       if lf_showPassword f then Str (''Ocultar contrase'' @ [CHR 0xF1] @ ''a'') else Str (''Mostrar contrase''
                           @ [CHR 0xF1] @ ''a''))] ((if lf_showPassword f then [EyeOffIcon ]
                               else [EyeIcon ]))] [(''type'', if lf_showPassword f then Str ''text'' else Str ''password''),
                    (''autoComplete'', Str ''current-password''),
                    (''placeholder'', Glyphs [0x2022, 0x2022, 0x2022, 0x2022, 0x2022, 0x2022, 0x2022, 0x2022]),
                    (''value'', Str (lf_password f)),
                    (''onChange'', Value LoginPassword),
                    (''required'', Flag True),
                    (''aria-required'', Str ''true'')]]
              @ (if error_shown (lf_error f) then [El ''p'' [(''role'', Str ''alert''), (''aria-live'', Str ''assertive'')]
                  [El ''span'' [(''aria-hidden'', Str ''true'')] [Glyph 0x26A0],
                    El ''span'' [] [login_error_text (the (lf_error f))]]] else [])
              @ [Button [(''type'', Str ''submit''), (''disabled'', Flag (lf_loading f)), (''aria-busy'', Flag (lf_loading f))] ((if lf_loading f
                  then [Spinner ] else [])
                  @ (if lf_loading f then [Text (''Iniciando sesi'' @ [CHR 0xF3] @ ''n''), Glyph 0x2026] else [Text (''Iniciar sesi''
                      @ [CHR 0xF3] @ ''n'')]))]),
             El ''div'' [] [El ''a'' [(''href'', Str ''/register'')] [Text ([CHR 0xBF] @ ''No tienes cuenta? Reg'' @ [CHR 0xED] @ ''strate'')]]])]]"

fun login_act :: "'w host \<Rightarrow> string \<Rightarrow> string \<Rightarrow> login_event \<Rightarrow> login_form \<times> 'w client \<Rightarrow> login_form \<times> 'w client" where
  "login_act H agent from (LoginEmail v) (f, c) = (f\<lparr>lf_email := v\<rparr>, c)"
| "login_act H agent from (LoginPassword v) (f, c) = (f\<lparr>lf_password := v\<rparr>, c)"
| "login_act H agent from LoginToggle (f, c) = (f\<lparr>lf_showPassword := \<not> lf_showPassword f\<rparr>, c)"
| "login_act H agent from LoginSubmit (f, c) =
     (let (p, c) = login_submit H agent (lf_email f) (lf_password f) from c
      in (f\<lparr>lf_error := pg_error p, lf_notice := None, lf_loading := False, lf_navigated := pg_navigated p\<rparr>, c))"

section \<open>Registering\<close>

record register_form =
  rf_data :: registration
  rf_showPassword :: bool
  rf_showConfirm :: bool
  rf_error :: "shown_error option"
  rf_loading :: bool
  rf_navigated :: "string option"

datatype register_event = RegName string | RegEmail string | RegPassword string | RegConfirm string | RegTutorName string | RegTutorEmail string
  | RegAdult bool | RegPrivacy bool | RegToggle | RegToggleConfirm | RegSubmit

definition register_form_new :: register_form where
  "register_form_new = \<lparr>rf_data = \<lparr>rg_fullName = [], rg_email = [], rg_password = [], rg_confirmPassword = [], rg_isAdult = False,
     rg_tutorName = [], rg_tutorEmail = [], rg_privacyAccepted = False\<rparr>, rf_showPassword = False, rf_showConfirm = False,
     rf_error = None, rf_loading = False, rf_navigated = None\<rparr>"

definition register_error_text :: "shown_error \<Rightarrow> 'ev node" where
  "register_error_text e = (case e of
     PasswordsDiffer \<Rightarrow> Text (''Las contrase'' @ [CHR 0xF1] @ ''as no coinciden.'')
   | PrivacyNotAccepted \<Rightarrow> Text ''Debes aceptar el Aviso de Privacidad.''
   | TutorMissing \<Rightarrow> Text ''Para registrar una cuenta de menor se requieren los datos del tutor.''
   | DetailMsg d \<Rightarrow> detail_text d
   | FallbackMsg \<Rightarrow> Text ''Error al registrar la cuenta.''
   | BadShapeMsg \<Rightarrow> Text (''El servidor respondi'' @ [CHR 0xF3] @ '' de forma inesperada. Intenta de nuevo m'' @ [CHR 0xE1] @ ''s tarde.'')
   | _ \<Rightarrow> Text ''No se pudo conectar con el servidor.'')"

definition register_page :: "register_form \<Rightarrow> register_event node" where
  "register_page f =
     El ''main'' [] [El ''div'' [] [El ''div'' [(''aria-hidden'', Str ''true'')] [],
        El ''div'' [] [El ''header'' [] [UsbiEmblem 56,
            El ''div'' [] [El ''h1'' [] [Text ''Registro USBI''], El ''p'' [] [Text ''Crea tu cuenta institucional'']]],
          El ''form'' [(''onSubmit'', Press RegSubmit), (''noValidate'', Flag True)]
              ([Input (Some ''reg-fullname'') ''Nombre completo'' None [] [] [(''type'', Str ''text''),
                 (''value'', Str (rg_fullName (rf_data f))),
                 (''onChange'', Value RegName),
                 (''required'', Flag True)],
               Input (Some ''reg-email'') (''Correo electr'' @ [CHR 0xF3] @ ''nico'') None [] [] [(''type'', Str ''email''),
                 (''value'', Str (rg_email (rf_data f))),
                 (''onChange'', Value RegEmail),
                 (''required'', Flag True)],
               Input (Some ''reg-password'') (''Contrase'' @ [CHR 0xF1] @ ''a'') None [] [El ''button'' [(''type'', Str ''button''),
                  (''onClick'', Press RegToggle),
                  (''aria-label'',
                    if rf_showPassword f then Str (''Ocultar contrase'' @ [CHR 0xF1] @ ''a'') else Str (''Mostrar contrase''
                        @ [CHR 0xF1] @ ''a''))] ((if rf_showPassword f then [EyeOffIcon ]
                            else [EyeIcon ]))] [(''type'', if rf_showPassword f then Str ''text'' else Str ''password''),
                 (''value'', Str (rg_password (rf_data f))),
                 (''onChange'', Value RegPassword),
                 (''required'', Flag True)],
               Input (Some ''reg-confirm-password'') (''Confirmar contrase'' @ [CHR 0xF1] @ ''a'') None [] [El ''button'' [(''type'', Str ''button''),
                  (''onClick'', Press RegToggleConfirm),
                  (''aria-label'',
                    if rf_showConfirm f then Str (''Ocultar contrase'' @ [CHR 0xF1] @ ''a'') else Str (''Mostrar contrase''
                        @ [CHR 0xF1] @ ''a''))] ((if rf_showConfirm f then [EyeOffIcon ]
                            else [EyeIcon ]))] [(''type'', if rf_showConfirm f then Str ''text'' else Str ''password''),
                 (''value'', Str (rg_confirmPassword (rf_data f))),
                 (''onChange'', Value RegConfirm),
                 (''required'', Flag True)],
               El ''div'' [] ([El ''label'' []
                   [El ''input'' [(''type'', Str ''checkbox''), (''checked'', Flag (rg_isAdult (rf_data f))), (''onChange'', Checked RegAdult)] [],
                     El ''span'' [] [Text ''Confirmo que soy mayor de edad (Ley 251)'']]]
                @ (if \<not> rg_isAdult (rf_data f)
                    then [El ''div'' [] [Input (Some ''reg-tutor-name'') ''Nombre del tutor'' None [] [] [(''type'', Str ''text''),
                        (''value'', Str (rg_tutorName (rf_data f))),
                        (''onChange'', Value RegTutorName),
                        (''required'', Flag (\<not> rg_isAdult (rf_data f)))],
                      Input (Some ''reg-tutor-email'') ''Correo del tutor'' None [] [] [(''type'', Str ''email''),
                        (''value'', Str (rg_tutorEmail (rf_data f))),
                        (''onChange'', Value RegTutorEmail),
                        (''required'', Flag (\<not> rg_isAdult (rf_data f)))]]] else [])
                @ [El ''label'' [] [El ''input'' [(''type'', Str ''checkbox''),
                       (''checked'', Flag (rg_privacyAccepted (rf_data f))),
                       (''onChange'', Checked RegPrivacy)] [],
                     El ''span'' [] [Text (''He le'' @ [CHR 0xED] @ ''do y acepto el ''),
                       El ''a'' [(''href'', Str ''/privacidad''), (''target'', Str ''_blank''), (''rel'', Str ''noreferrer'')]
                           [Text ''Aviso de Privacidad''],
                       Text ''.'']]])]
           @ (if error_shown (rf_error f) then [El ''p'' [(''role'', Str ''alert''), (''aria-live'', Str ''assertive'')]
               [El ''span'' [(''aria-hidden'', Str ''true'')] [Glyph 0x26A0],
                 El ''span'' [] [register_error_text (the (rf_error f))]]] else [])
           @ [Button [(''type'', Str ''submit''), (''disabled'', Flag (rf_loading f)), (''aria-busy'', Flag (rf_loading f))] ((if rf_loading f
               then [Spinner ] else [])
               @ (if rf_loading f then [Text ''Registrando'', Glyph 0x2026] else [Text ''Registrar'']))]),
          El ''div'' [] [El ''a'' [(''href'', Str ''/login'')] [Text ([CHR 0xBF] @ ''Ya tienes cuenta? Inicia sesi'' @ [CHR 0xF3] @ ''n'')]]]]]"

fun register_act :: "'w host \<Rightarrow> string \<Rightarrow> register_event \<Rightarrow> register_form \<times> 'w client \<Rightarrow> register_form \<times> 'w client" where
  "register_act H version (RegName v) (f, c) = (f\<lparr>rf_data := (rf_data f)\<lparr>rg_fullName := v\<rparr>\<rparr>, c)"
| "register_act H version (RegEmail v) (f, c) = (f\<lparr>rf_data := (rf_data f)\<lparr>rg_email := v\<rparr>\<rparr>, c)"
| "register_act H version (RegPassword v) (f, c) = (f\<lparr>rf_data := (rf_data f)\<lparr>rg_password := v\<rparr>\<rparr>, c)"
| "register_act H version (RegConfirm v) (f, c) = (f\<lparr>rf_data := (rf_data f)\<lparr>rg_confirmPassword := v\<rparr>\<rparr>, c)"
| "register_act H version (RegTutorName v) (f, c) = (f\<lparr>rf_data := (rf_data f)\<lparr>rg_tutorName := v\<rparr>\<rparr>, c)"
| "register_act H version (RegTutorEmail v) (f, c) = (f\<lparr>rf_data := (rf_data f)\<lparr>rg_tutorEmail := v\<rparr>\<rparr>, c)"
| "register_act H version (RegAdult b) (f, c) = (f\<lparr>rf_data := (rf_data f)\<lparr>rg_isAdult := b\<rparr>\<rparr>, c)"
| "register_act H version (RegPrivacy b) (f, c) = (f\<lparr>rf_data := (rf_data f)\<lparr>rg_privacyAccepted := b\<rparr>\<rparr>, c)"
| "register_act H version RegToggle (f, c) = (f\<lparr>rf_showPassword := \<not> rf_showPassword f\<rparr>, c)"
| "register_act H version RegToggleConfirm (f, c) = (f\<lparr>rf_showConfirm := \<not> rf_showConfirm f\<rparr>, c)"
| "register_act H version RegSubmit (f, c) =
     (let (p, c) = register_submit H version (rf_data f) c
      in (f\<lparr>rf_error := pg_error p, rf_loading := False, rf_navigated := pg_navigated p\<rparr>, c))"

section \<open>Requests about personal data\<close>

datatype arco_event = ArcoType arco_type | ArcoDetails string | ArcoSubmit

definition arco_of :: "string \<Rightarrow> arco_type" where
  "arco_of v = (if v = ''rectificacion'' then Rectificacion else if v = ''cancelacion'' then Cancelacion
     else if v = ''oposicion'' then Oposicion else Acceso)"

text \<open>The handlers of this page show the server's detail or, when there was no answer, their own text.\<close>

definition arco_error_text :: "shown_error \<Rightarrow> 'ev node" where
  "arco_error_text e = (case e of DetailMsg d \<Rightarrow> detail_text d | TypeErrorMsg \<Rightarrow> Text [] | _ \<Rightarrow> Text ''No se pudo registrar la solicitud ARCO.'')"

definition json_shown :: "json option \<Rightarrow> bool" where
  "json_shown v = (case v of Some (JStr s) \<Rightarrow> s \<noteq> [] | _ \<Rightarrow> False)"

definition json_text :: "json option \<Rightarrow> 'ev node" where
  "json_text v = (case v of Some (JStr s) \<Rightarrow> Text s | _ \<Rightarrow> Text [])"

definition arco_page_view :: "bool \<Rightarrow> arco_page \<Rightarrow> arco_event node" where
  "arco_page_view loading p =
     El ''main'' [] [El ''div'' [] ([El ''header'' [] [El ''div'' [] [El ''h1'' [] [Text ''Derechos ARCO''], El ''p'' []
    [Text ''Solicitudes sobre datos personales de la cuenta.'']],
            Button [] [El ''a'' [(''href'', Str ''/profile'')] [Text ''Perfil'']]]]
       @ (if error_shown (ar_error p) then [El ''p'' [] [arco_error_text (the (ar_error p))]] else [])
       @ (if json_shown (ar_requestID p) then [El ''section'' [] [El ''h2'' [] [Text ''Solicitud registrada''],
             El ''p'' [] [Text ''Folio: '', json_text (ar_requestID p)],
             El ''p'' [] [Text ''Estado: '',
               json_text (if ar_status p = None \<or> ar_status p = Some JNull then Some (JStr ''pending'') else ar_status p)]]] else [])
       @ [El ''section'' [] [El ''form'' [(''onSubmit'', Press ArcoSubmit)] [El ''label'' [] [Text ''Tipo de solicitud'',
               El ''select'' [(''value'', Str (arco_name (ar_requestType p))),
                 (''onChange'', Value (\<lambda>v. ArcoType (arco_of v))),
                 (''required'', Flag True)] [El ''option'' [(''value'', Str ''acceso'')] [Text ''Acceso''],
                 El ''option'' [(''value'', Str ''rectificacion'')] [Text (''Rectificaci'' @ [CHR 0xF3] @ ''n'')],
                 El ''option'' [(''value'', Str ''cancelacion'')] [Text (''Cancelaci'' @ [CHR 0xF3] @ ''n'')],
                 El ''option'' [(''value'', Str ''oposicion'')] [Text (''Oposici'' @ [CHR 0xF3] @ ''n'')]]],
             El ''label'' [(''htmlFor'', Str ''arco-details'')] [Text ''Detalles'',
               El ''textarea'' [(''id'', Str ''arco-details''),
                 (''maxLength'', Num 1000),
                 (''value'', Str (ar_details p)),
                 (''onChange'', Value ArcoDetails)] []],
             Button [(''type'', Str ''submit''), (''disabled'', Flag (loading))] [Text ''Enviar solicitud'']]]])]"

fun arco_act :: "'w host \<Rightarrow> arco_event \<Rightarrow> arco_page \<times> 'w client \<Rightarrow> arco_page \<times> 'w client" where
  "arco_act H (ArcoType t) (p, c) = (p\<lparr>ar_requestType := t\<rparr>, c)"
| "arco_act H (ArcoDetails v) (p, c) = (p\<lparr>ar_details := v\<rparr>, c)"
| "arco_act H ArcoSubmit (p, c) = submitRequest H (p, c)"

record pending_item =
  pd_id :: string
  pd_requester_type :: string
  pd_request_type :: string
  pd_status :: string
  pd_received_at :: string

record pending_query =
  pq_isError :: bool
  pq_isLoading :: bool
  pq_data :: "pending_item list option"

definition pending_items :: "pending_query \<Rightarrow> pending_item list" where
  "pending_items q = (case pq_data q of Some items \<Rightarrow> items | None \<Rightarrow> [])"

datatype resolve_event = ResolveFolio string | ResolveApproved bool | ResolveSummary string | ResolveRefetch | ResolveSubmit

definition resolve_error_text :: "shown_error \<Rightarrow> 'ev node" where
  "resolve_error_text e = (case e of DetailMsg d \<Rightarrow> detail_text d | _ \<Rightarrow> Text ''No se pudo resolver la solicitud ARCO.'')"

definition arco_admin_view :: "(string \<Rightarrow> string) \<Rightarrow> bool \<Rightarrow> pending_query \<Rightarrow> arco_admin \<Rightarrow> resolve_event node" where
  "arco_admin_view localeDate loading q p =
     El ''main'' [] [El ''div'' [] ([El ''header'' [] [El ''div'' [] [El ''h1'' [] [Text ''Resolver ARCO''],
              El ''p'' [] [Text (''Resoluci'' @ [CHR 0xF3] @ ''n administrativa por folio.'')]],
            Button [] [El ''a'' [(''href'', Str ''/admin'')] [Text ''Admin'']]]]
       @ (if error_shown (aa_error p) then [El ''p'' [] [resolve_error_text (the (aa_error p))]] else [])
       @ (if aa_message p then [El ''p'' [] [Text ''Solicitud resuelta.'']] else [])
       @ [El ''section'' [] ([El ''div'' [] [El ''h2'' [] [Text ''Pendientes''], Button [(''onClick'', Press ResolveRefetch)] [Text ''Actualizar'']]]
            @ (if pq_isError q then [El ''p'' [] [Text ''No se pudieron cargar las solicitudes pendientes.'']] else [])
            @ (if pq_isLoading q then [El ''p'' [] [Text ''Cargando solicitudes...'']] else [])
            @ [El ''div'' [] (map (\<lambda>item. El ''button'' [(''type'', Str ''button''), (''onClick'', Press (ResolveFolio (pd_id item)))]
                [El ''span'' [] [El ''span'' [] [Text (pd_request_type item)],
                       El ''span'' [] [Text (localeDate (pd_received_at item)), Text ('' '' @ [CHR 0xB7] @ '' ''), Text (pd_requester_type item)]],
                     El ''span'' [] [Text (pd_status item)]]) (pending_items q)
                @ (if (\<not> pq_isLoading q \<and> pending_items q = []) then [El ''p'' [] [Text ''No hay solicitudes pendientes.'']] else []))]),
           El ''section'' [] [El ''form'' [(''onSubmit'', Press ResolveSubmit)] [Input None ''Folio'' None [] [] [(''value'', Str (aa_requestID p)),
                (''onChange'', Value ResolveFolio),
                (''required'', Flag True)],
              El ''label'' [] [El ''input'' [(''type'', Str ''checkbox''), (''checked'', Flag (aa_approved p)), (''onChange'', Checked ResolveApproved)] [],
                Text ''Aprobada''],
              El ''label'' [(''htmlFor'', Str ''arco-response-summary'')] [Text ''Resumen de respuesta'',
                El ''textarea'' [(''id'', Str ''arco-response-summary''),
                  (''value'', Str (aa_responseSummary p)),
                  (''onChange'', Value ResolveSummary),
                  (''required'', Flag True)] []],
              Button [(''type'', Str ''submit''), (''disabled'', Flag (loading))] [Text ''Resolver solicitud'']]]])]"

fun resolve_act :: "'w host \<Rightarrow> resolve_event \<Rightarrow> arco_admin \<times> 'w client \<Rightarrow> arco_admin \<times> 'w client" where
  "resolve_act H (ResolveFolio v) (p, c) = (p\<lparr>aa_requestID := v\<rparr>, c)"
| "resolve_act H (ResolveApproved b) (p, c) = (p\<lparr>aa_approved := b\<rparr>, c)"
| "resolve_act H (ResolveSummary v) (p, c) = (p\<lparr>aa_responseSummary := v\<rparr>, c)"
| "resolve_act H ResolveRefetch (p, c) = (p, c)"
| "resolve_act H ResolveSubmit (p, c) = resolveRequest H (p, c)"

section \<open>Profile\<close>

record profile_level =
  pl_level_id :: string
  pl_title :: string
  pl_template_type :: string
  pl_xp :: int
  pl_attempts :: int

record profile_progress =
  pr_total_xp :: int
  pr_completed_levels :: int
  pr_total_attempts :: int
  pr_current_streak :: int
  pr_badges :: "(string \<times> string) list"
  pr_levels :: "profile_level list"

record profile_view =
  pv_isError :: bool
  pv_progress :: "profile_progress option"
  pv_ageUp :: age_up
  pv_ageUpLoading :: bool

datatype profile_event = ProfileAgeUp | ProfileGo string

definition age_up_text :: "age_up \<Rightarrow> 'ev node" where
  "age_up_text a = (case a of
     AgeFailed (DetailMsg d) \<Rightarrow> detail_text d
   | AgeFailed _ \<Rightarrow> Text (''No se pudo actualizar el estatus de mayor'' @ [CHR 0xED] @ ''a de edad.'')
   | _ \<Rightarrow> Text [])"

definition age_failed :: "age_up \<Rightarrow> bool" where
  "age_failed a = (case a of AgeFailed e \<Rightarrow> error_shown (Some e) | _ \<Rightarrow> False)"

definition Metric :: "string \<Rightarrow> int \<Rightarrow> 'ev node" where
  "Metric label v =
     El ''div'' [] [El ''p'' [] [Text label], El ''p'' [] [Text (show_int v)]]"

definition profile_page :: "auth_state \<Rightarrow> profile_view \<Rightarrow> profile_event node" where
  "profile_page a s =
     El ''main'' [] [El ''div'' [] ([El ''header'' [] [El ''div'' [] [El ''h1'' [] [Text ''Perfil y Progreso''], El ''p'' []
    [Text ''Avance oficial calculado por el backend.'']],
            Button [] [El ''a'' [(''href'', Str ''/dashboard'')] [Text ''Dashboard'']]]]
       @ (if pv_isError s then [El ''p'' [] [Text ''No se pudo cargar el progreso.'']] else [])
       @ (if age_failed (pv_ageUp s) then [El ''p'' [] [age_up_text (pv_ageUp s)]] else [])
       @ (if pv_ageUp s = AgeDone then [El ''p'' [] [Text ''Estatus actualizado. Los datos del tutor quedaron minimizados.'']] else [])
       @ (if (au_user a \<noteq> None \<and> \<not> is_adult (the (au_user a))) then [El ''section'' [] [El ''h2'' [] [Text (''Confirmaci''
           @ [CHR 0xF3] @ ''n de mayor'' @ [CHR 0xED] @ ''a de edad'')],
             El ''p'' [] [Text ''Al confirmar, el backend actualiza tu estatus y minimiza los datos del tutor asociados a la cuenta.''],
             Button [(''onClick'', Press ProfileAgeUp), (''disabled'', Flag (pv_ageUpLoading s))] (if pv_ageUpLoading s
                 then [Text ''Actualizando...''] else [Text (''Confirmar mayor'' @ [CHR 0xED] @ ''a de edad'')])]] else [])
       @ (if pv_progress s \<noteq> None then [El ''section'' [] [Metric ''XP total'' (pr_total_xp (the (pv_progress s))),
              Metric ''Niveles completados'' (pr_completed_levels (the (pv_progress s))),
              Metric ''Intentos'' (pr_total_attempts (the (pv_progress s))),
              Metric ''Racha'' (pr_current_streak (the (pv_progress s)))],
            El ''section'' [] [El ''h2'' [] [Text ''Insignias''],
              El ''div'' [] (map (\<lambda>badge. El ''span'' [] [Text (snd badge)]) (pr_badges (the (pv_progress s)))
               @ (if pr_badges (the (pv_progress s)) = [] then [El ''p'' [] [Text (''A'' @ [CHR 0xFA] @ ''n no hay insignias.'')]] else [])),
              El ''div'' [] [El ''div'' [] [El ''div'' [] [El ''h3'' [] [Text (''Configuraci'' @ [CHR 0xF3] @ ''n'')],
                    El ''p'' [] [Text (''Filtro de daltonizaci'' @ [CHR 0xF3] @ ''n, tema, tama''
                        @ [CHR 0xF1] @ ''o de texto, movimiento y sonido.'')]],
                  Button [(''onClick'', Press (ProfileGo ''/settings''))] [Text (''Ir a Configuraci'' @ [CHR 0xF3] @ ''n'')]],
                El ''div'' [] [El ''div'' [] [El ''h3'' [] [Text ''Derechos ARCO y Quejas''],
                    El ''p'' [] [Text (''Ejerce tus derechos ARCO (Acceso, Rectificaci''
                      @ [CHR 0xF3]
                      @ ''n, Cancelaci''
                      @ [CHR 0xF3]
                      @ ''n y Oposici''
                      @ [CHR 0xF3]
                      @ ''n) o presenta quejas sobre el servicio.'')]],
                  Button [(''onClick'', Press (ProfileGo ''/arco''))] [Text ''Ir a Centro de Quejas'']]],
              El ''h2'' [] [Text ''Niveles jugados''],
              El ''div'' [] (map (\<lambda>level. El ''div'' [] [El ''div'' [] [El ''p'' [] [Text (pl_title level)],
                      El ''p'' [] [Text (templateTypeLabel (pl_template_type level)),
                        Text ('' '' @ [CHR 0xB7] @ '' XP ''),
                        Text (show_int (pl_xp level)),
                        Text ('' '' @ [CHR 0xB7] @ '' intentos ''),
                        Text (show_int (pl_attempts level))]],
                    Button [] [El ''a'' [(''href'', Str (''/levels/'' @ pl_level_id level @ ''/play''))]
                        [Text ''Jugar de nuevo'']]]) (pr_levels (the (pv_progress s)))
               @ (if pr_levels (the (pv_progress s)) = [] then [El ''p'' [] [Text (''A'' @ [CHR 0xFA] @ ''n no hay progreso oficial.'')]] else []))]]
                   else []))]"

section \<open>Settings\<close>

fun filter_name :: "color_filter \<Rightarrow> string" where
  "filter_name NoFilter = ''none''"
| "filter_name Deuteranopia = ''deuteranopia''"
| "filter_name Protanopia = ''protanopia''"
| "filter_name Tritanopia = ''tritanopia''"

definition filter_of :: "string \<Rightarrow> color_filter" where
  "filter_of v = (if v = ''deuteranopia'' then Deuteranopia else if v = ''protanopia'' then Protanopia
     else if v = ''tritanopia'' then Tritanopia else NoFilter)"

definition SegmentButton :: "bool \<Rightarrow> 'ev \<Rightarrow> 'ev node list \<Rightarrow> 'ev node" where
  "SegmentButton active ev children =
     El ''button'' [(''type'', Str ''button''),
       (''role'', Str ''radio''),
       (''aria-checked'', Flag (active)),
       (''onClick'', Press ev)] (children)"

definition ToggleRow :: "string \<Rightarrow> bool \<Rightarrow> (bool \<Rightarrow> 'ev) \<Rightarrow> 'ev node" where
  "ToggleRow label checked onChange =
     El ''label'' [] [El ''input'' [(''type'', Str ''checkbox''), (''checked'', Flag (checked)), (''onChange'', Checked onChange)] [],
       El ''span'' [] [Text label]]"

definition settings_page :: "settings \<Rightarrow> settings_action node" where
  "settings_page s =
     El ''main'' [] [El ''div'' [] [El ''header'' [] [El ''div'' [] [El ''h1'' [] [Text (''Configuraci'' @ [CHR 0xF3] @ ''n'')],
            El ''p'' [] [Text (''Ajusta la apariencia y accesibilidad de la aplicaci'' @ [CHR 0xF3] @ ''n.'')]],
          Button [] [El ''a'' [(''href'', Str ''/dashboard'')] [Text ''Dashboard'']]],
        El ''section'' [] [El ''h2'' [] [Text ''Apariencia''],
          El ''p'' [] [Text (''Tema de color y tama'' @ [CHR 0xF1] @ ''o de texto.'')],
          El ''div'' [] [El ''fieldset'' [] [El ''legend'' [] [Text ''Tema''],
              El ''div'' [(''role'', Str ''radiogroup''), (''aria-label'', Str ''Tema'')] [SegmentButton (se_theme s = Light) (SetTheme Light) [Text ''Claro''],
                SegmentButton (se_theme s = Dark) (SetTheme Dark) [Text ''Oscuro'']]],
            El ''fieldset'' [] [El ''legend'' [] [Text (''Tama'' @ [CHR 0xF1] @ ''o de texto'')],
              El ''div'' [(''role'', Str ''radiogroup''), (''aria-label'', Str (''Tama''
                  @ [CHR 0xF1] @ ''o de texto''))] [SegmentButton (se_textScale s = ScaleNormal) (SetScale ScaleNormal) [Text ''Normal''],
                SegmentButton (se_textScale s = ScaleLarge) (SetScale ScaleLarge) [Text ''Grande''],
                SegmentButton (se_textScale s = ScaleLarger) (SetScale ScaleLarger) [Text (''M'' @ [CHR 0xE1] @ ''s grande'')]]]]],
        El ''section'' [] [El ''h2'' [] [Text ''Accesibilidad visual''],
          El ''p'' [] [Text (''Filtro de daltonizaci''
            @ [CHR 0xF3]
            @ ''n: redistribuye el color hacia tonos que s''
            @ [CHR 0xED]
            @ '' distingas (no es un simulador).'')],
          El ''label'' [] [El ''span'' [] [Text (''Filtro de daltonizaci'' @ [CHR 0xF3] @ ''n'')],
            El ''select'' [(''value'', Str (filter_name (se_colorBlindFilter s))),
              (''onChange'', Value (\<lambda>v. SetFilter (filter_of v)))] [El ''option'' [(''value'', Str ''none'')] [Text ''Normal (sin filtro)''],
              El ''option'' [(''value'', Str ''deuteranopia'')] [Text (''Deuteranop'' @ [CHR 0xED] @ ''a (Verde-Rojo)'')],
              El ''option'' [(''value'', Str ''protanopia'')] [Text (''Protanop'' @ [CHR 0xED] @ ''a (Rojo-Verde)'')],
              El ''option'' [(''value'', Str ''tritanopia'')] [Text (''Tritanop'' @ [CHR 0xED] @ ''a (Azul-Amarillo)'')]]]],
        El ''section'' [] [El ''h2'' [] [Text ''Movimiento''],
          El ''p'' [] [Text (''La aplicaci''
            @ [CHR 0xF3]
            @ ''n ya respeta la preferencia ''
            @ [CHR 0x22]
            @ ''reducir movimiento''
            @ [CHR 0x22]
            @ '' de tu sistema operativo. Act''
            @ [CHR 0xED]
            @ ''valo aqu''
            @ [CHR 0xED]
            @ '' si tu dispositivo no expone esa opci''
            @ [CHR 0xF3]
            @ ''n o prefieres anularla manualmente.'')],
          ToggleRow ''Reducir animaciones'' (se_reduceMotion s) SetMotion],
        El ''section'' [] [El ''h2'' [] [Text ''Sonido''],
          El ''p'' [] [Text ''Silencia el sonido del dado en Serpientes y escaleras '',
            Glyph 0x2014,
            Text ('' '' @ [CHR 0xFA] @ ''til en salas de c'' @ [CHR 0xF3] @ ''mputo compartidas.'')],
          ToggleRow ''Silenciar sonido de dado'' (se_muteGameSounds s) SetMute]]]"

section \<open>What the pages offer\<close>

lemma text_labelled [simp]:
  "labelled (detail_text d)" "labelled (login_error_text e)" "labelled (register_error_text e)" "labelled (arco_error_text e)"
  "labelled (resolve_error_text e)" "labelled (age_up_text a)" "labelled (json_text j)"
  by (simp_all add: detail_text_def login_error_text_def register_error_text_def arco_error_text_def resolve_error_text_def
      age_up_text_def json_text_def split: json.split shown_error.split age_up.split option.split)

lemma login_labelled: "labelled (login_page f)"
  unfolding login_page_def EyeIcon_def EyeOffIcon_def page_parts
  by (simp add: labelled_intro labelled_Input labelled_label form_field_def)

lemma register_labelled: "labelled (register_page f)"
  unfolding register_page_def EyeIcon_def EyeOffIcon_def page_parts
  by (simp add: labelled_intro labelled_Input labelled_label form_field_def)

lemma arco_labelled: "labelled (arco_page_view loading p)"
  unfolding arco_page_view_def page_parts
  by (simp add: labelled_intro labelled_Input labelled_label form_field_def)

lemma resolve_labelled: "labelled (arco_admin_view d loading q p)"
  unfolding arco_admin_view_def page_parts
  by (simp add: labelled_intro labelled_Input labelled_label form_field_def list_all_map_const)

lemma settings_labelled: "labelled (settings_page s)"
  unfolding settings_page_def page_parts ToggleRow_def SegmentButton_def
  by (simp add: labelled_intro labelled_Input labelled_label form_field_def)


lemma option_ranges:
  "range SetTheme = {SetTheme Light, SetTheme Dark}"
  "range SetScale = {SetScale ScaleNormal, SetScale ScaleLarge, SetScale ScaleLarger}"
  "range SetFilter = {SetFilter NoFilter, SetFilter Deuteranopia, SetFilter Protanopia, SetFilter Tritanopia}"
  by (auto simp: image_iff) (metis theme.exhaust text_scale.exhaust color_filter.exhaust)+

lemma settings_offers:
  "offers (settings_page s) = range SetTheme \<union> range SetScale \<union> range SetFilter \<union> {SetMotion (\<not> se_reduceMotion s), SetMute (\<not> se_muteGameSounds s)}"
  unfolding settings_page_def page_parts ToggleRow_def SegmentButton_def option_ranges
  by (simp add: own_events_def key_events_def flag_def str_attr_def filter_of_def insert_commute Un_commute)


lemma login_buttons: "buttons_named (login_page f)"
  unfolding login_page_def EyeIcon_def EyeOffIcon_def page_parts Input_def Let_def
  by (simp add: login_error_text_def detail_text_def split: json.split shown_error.split option.split)

lemma register_buttons: "buttons_named (register_page f)"
  unfolding register_page_def EyeIcon_def EyeOffIcon_def page_parts Input_def Let_def
  by (simp add: register_error_text_def detail_text_def split: json.split shown_error.split option.split)

lemma arco_buttons: "buttons_named (arco_page_view loading p)"
  unfolding arco_page_view_def page_parts
  by (simp add: arco_error_text_def detail_text_def json_text_def split: json.split shown_error.split option.split)

lemma resolve_buttons: "buttons_named (arco_admin_view d loading q p)"
  unfolding arco_admin_view_def page_parts Input_def Let_def
  by (simp add: resolve_error_text_def detail_text_def list_all_map_const split: json.split shown_error.split option.split)

lemma profile_buttons: "buttons_named (profile_page a p)"
  unfolding profile_page_def page_parts Metric_def
  by (simp add: age_up_text_def detail_text_def list_all_map_const split: json.split shown_error.split option.split age_up.split)

lemma profile_labelled: "labelled (profile_page a p)"
  unfolding profile_page_def page_parts Metric_def
  by (simp add: labelled_intro form_field_def list_all_map_const)

lemma settings_buttons: "buttons_named (settings_page s)"
  unfolding settings_page_def page_parts ToggleRow_def SegmentButton_def
  by simp

lemma arco_name_some: "arco_name t \<noteq> []"
  by (cases t) simp_all

lemma arco_offers:
  "offers (arco_page_view loading p) = range ArcoType \<union> ArcoDetails ` {v. length v \<le> 1000} \<union> (if loading then {} else {ArcoSubmit})"
proof -
  have t: "range ArcoType = {ArcoType Acceso, ArcoType Rectificacion, ArcoType Cancelacion, ArcoType Oposicion}"
    by (auto simp: image_iff) (metis arco_type.exhaust)
  have [simp]: "offers (detail_text d :: arco_event node) = {}" "offers (json_text j :: arco_event node) = {}" "offers (arco_error_text e :: arco_event node) = {}" for d j e
    by (simp_all add: detail_text_def json_text_def arco_error_text_def split: json.split shown_error.split option.split)
  have [simp]: "\<not> value_missing (detail_text d :: arco_event node)" for d by (simp add: detail_text_def split: json.split)
  show ?thesis
    unfolding arco_page_view_def page_parts t
    by (auto simp: own_events_def key_events_def flag_def str_attr_def arco_of_def typed_def form_field_def arco_name_some)
qed
lemma eye_offers [simp]: "offers EyeIcon = {}" "offers EyeOffIcon = {}" "\<not> can_submit EyeIcon" "\<not> can_submit EyeOffIcon"
  by (simp_all add: EyeIcon_def EyeOffIcon_def own_events_def key_events_def flag_def)

lemma register_text_offers: "offers (register_error_text e :: register_event node) = {}" "\<not> can_submit (register_error_text e :: register_event node)"
  by (simp_all add: register_error_text_def detail_text_def split: json.split shown_error.split)

lemma register_offers:
  "offers (register_page f) = range RegName \<union> range RegEmail \<union> range RegPassword \<union> range RegConfirm
     \<union> {RegToggle, RegToggleConfirm, RegAdult (\<not> rg_isAdult (rf_data f)), RegPrivacy (\<not> rg_privacyAccepted (rf_data f))}
     \<union> (if rg_isAdult (rf_data f) then {} else range RegTutorName \<union> range RegTutorEmail)
     \<union> (if rf_loading f then {} else {RegSubmit})"
  unfolding register_page_def page_parts
  by (simp add: offers_Input can_submit_Input own_events_def key_events_def flag_def str_attr_def typed_def register_text_offers) blast

text \<open>C33: Every choice of settings can be made on the settings page, from every other: at each moment the page offers the next event,
  and the classes of the document are at the end the ones the settings ask for, beside those that are not the settings' own.
\<close>

theorem settings_page_complete:
  assumes "other \<inter> set managed_classes = {}" "styled other (s, html)"
  shows "\<exists>html'. page_reach (\<lambda>(s, html). offers (settings_page s)) settings_step (s, html) (s', html') \<and> styled other (s', html')"
proof -
  let ?reach = "page_reach (\<lambda>(s, html). offers (settings_page s)) settings_step (s, html)"
  have move: "\<exists>h'. ?reach (t', h') \<and> styled other (t', h')"
    if "\<exists>h. ?reach (t, h) \<and> styled other (t, h)" "ev \<in> offers (settings_page t)" "\<And>h. fst (settings_step ev (t, h)) = t'" for t t' ev
  proof -
    note step = that(3)
    from that(1) obtain h where r: "?reach (t, h)" and y: "styled other (t, h)" by blast
    obtain h' where s1: "settings_step ev (t, h) = (t', h')" using step by (metis prod.collapse)
    have "?reach (t', h')" using page_event [OF r, of ev] that(2) s1 by simp
    moreover have "styled other (t', h')" using settings_step_styled [OF assms(1) y, of ev] s1 by simp
    ultimately show ?thesis by blast
  qed
  have "\<exists>h. ?reach (s, h) \<and> styled other (s, h)" using assms(2) page_start [of "\<lambda>(s, html). offers (settings_page s)" settings_step "(s, html)"] by blast
  then have "\<exists>h. ?reach (s\<lparr>se_theme := se_theme s'\<rparr>, h) \<and> styled other (s\<lparr>se_theme := se_theme s'\<rparr>, h)"
    by (rule move [where ev = "SetTheme (se_theme s')"]) (auto simp: settings_offers setTheme_def Let_def)
  then have "\<exists>h. ?reach (s\<lparr>se_theme := se_theme s', se_textScale := se_textScale s'\<rparr>, h) \<and> styled other (s\<lparr>se_theme := se_theme s', se_textScale := se_textScale s'\<rparr>, h)"
    by (rule move [where ev = "SetScale (se_textScale s')"]) (auto simp: settings_offers setTextScale_def Let_def)
  then have a: "\<exists>h. ?reach (s\<lparr>se_theme := se_theme s', se_textScale := se_textScale s', se_colorBlindFilter := se_colorBlindFilter s'\<rparr>, h)
      \<and> styled other (s\<lparr>se_theme := se_theme s', se_textScale := se_textScale s', se_colorBlindFilter := se_colorBlindFilter s'\<rparr>, h)" (is "\<exists>h. ?reach (?t, h) \<and> _")
    by (rule move [where ev = "SetFilter (se_colorBlindFilter s')"]) (auto simp: settings_offers setColorBlindFilter_def Let_def)
  have b: "\<exists>h. ?reach (?t\<lparr>se_reduceMotion := se_reduceMotion s'\<rparr>, h) \<and> styled other (?t\<lparr>se_reduceMotion := se_reduceMotion s'\<rparr>, h)"
  proof (cases "se_reduceMotion s' = se_reduceMotion s")
    case True
    then show ?thesis using a by simp
  next
    case False
    show ?thesis by (rule move [OF a, where ev = "SetMotion (se_reduceMotion s')"]) (use False in \<open>auto simp: settings_offers setReduceMotion_def Let_def\<close>)
  qed
  have c: "\<exists>h. ?reach (?t\<lparr>se_reduceMotion := se_reduceMotion s', se_muteGameSounds := se_muteGameSounds s'\<rparr>, h)
      \<and> styled other (?t\<lparr>se_reduceMotion := se_reduceMotion s', se_muteGameSounds := se_muteGameSounds s'\<rparr>, h)"
  proof (cases "se_muteGameSounds s' = se_muteGameSounds s")
    case True
    then show ?thesis using b by simp
  next
    case False
    show ?thesis by (rule move [OF b, where ev = "SetMute (se_muteGameSounds s')"]) (use False in \<open>auto simp: settings_offers setMuteGameSounds_def\<close>)
  qed
  moreover have "?t\<lparr>se_reduceMotion := se_reduceMotion s', se_muteGameSounds := se_muteGameSounds s'\<rparr> = s'" by (cases s') simp
  ultimately show ?thesis by simp
qed

lemma login_text_offers: "offers (login_error_text e :: login_event node) = {}" "\<not> can_submit (login_error_text e :: login_event node)"
  by (simp_all add: login_error_text_def detail_text_def split: json.split shown_error.split)

lemma login_offers:
  "offers (login_page f) = range LoginEmail \<union> range LoginPassword \<union> {LoginToggle} \<union> (if lf_loading f then {} else {LoginSubmit})"
  unfolding login_page_def page_parts
  by (simp add: offers_Input can_submit_Input own_events_def key_events_def flag_def str_attr_def typed_def login_text_offers)

lemma resolve_offers:
  "offers (arco_admin_view d loading q p) = range ResolveFolio \<union> range ResolveSummary \<union> {ResolveApproved (\<not> aa_approved p), ResolveRefetch}
     \<union> (if loading \<or> aa_requestID p = [] \<or> aa_responseSummary p = [] then {} else {ResolveSubmit})"
proof -
  have [simp]: "offers (resolve_error_text e :: resolve_event node) = {}" "\<not> can_submit (resolve_error_text e :: resolve_event node)" for e
    by (simp_all add: detail_text_def resolve_error_text_def split: json.split shown_error.split)
  show ?thesis
    unfolding arco_admin_view_def page_parts
    by (auto simp: offers_Input can_submit_Input value_missing_Input own_events_def key_events_def flag_def str_attr_def typed_def form_field_def)
qed

theorem settings_page_complete_witness:
  "\<exists>html'. page_reach (\<lambda>(s, html). offers (settings_page s)) settings_step (settings_initial, [''app''])
       (\<lparr>se_colorBlindFilter = Tritanopia, se_theme = Dark, se_muteGameSounds = True, se_reduceMotion = True, se_textScale = ScaleLarger\<rparr>, html')
     \<and> styled {''app''} (\<lparr>se_colorBlindFilter = Tritanopia, se_theme = Dark, se_muteGameSounds = True, se_reduceMotion = True, se_textScale = ScaleLarger\<rparr>, html')"
  by (rule settings_page_complete) (simp_all add: styled_def wanted_classes_def settings_initial_def managed_classes_def)

text \<open>However a request about personal data is edited and sent, its details keep the length the field allows.\<close>

lemma arco_details_bounded:
  assumes "page_reach (\<lambda>(p, c). offers (arco_page_view False p)) (arco_act H) (p0, c0) (p, c)" "length (ar_details p0) \<le> 1000"
  shows "length (ar_details p) \<le> 1000"
proof -
  have "length (ar_details (fst s)) \<le> 1000" if "page_reach (\<lambda>(p, c). offers (arco_page_view False p)) (arco_act H) (p0, c0) s" for s
    using that
  proof (induction rule: page_reach.induct)
    case page_start
    then show ?case using assms(2) by simp
  next
    case (page_event s ev)
    obtain p c where s: "s = (p, c)" by fastforce
    show ?case
    proof (cases ev)
      case ArcoSubmit
      then show ?thesis using page_event.IH by (auto simp: s submitRequest_def Let_def split: prod.splits http_result.splits)
    qed (use page_event in \<open>auto simp: s arco_offers\<close>)
  qed
  from this [OF assms(1)] show ?thesis by simp
qed

text \<open>Every registration can be entered in the form: some offered events lead from the empty form to exactly these values, nothing
  is sent on the way, and the form can then be submitted. The tutor's fields are filled before the mark of full age hides them.
\<close>

theorem registration_can_be_entered:
  "\<exists>f. page_reach (\<lambda>(f, c). offers (register_page f)) (register_act H version) (register_form_new, c) (f, c)
     \<and> rf_data f = g \<and> RegSubmit \<in> offers (register_page f)"
proof -
  let ?reach = "\<lambda>d. page_reach (\<lambda>(f, c). offers (register_page f)) (register_act H version) (register_form_new, c) (register_form_new\<lparr>rf_data := d\<rparr>, c)"
  have move: "?reach d'" if "?reach d" "ev \<in> offers (register_page (register_form_new\<lparr>rf_data := d\<rparr>))"
    "register_act H version ev (register_form_new\<lparr>rf_data := d\<rparr>, c) = (register_form_new\<lparr>rf_data := d'\<rparr>, c)" for d d' ev
    using page_event [OF that(1), of ev] that(2,3) by simp
  let ?d0 = "rf_data register_form_new"
  have "?reach ?d0" using page_start [of "\<lambda>(f, c). offers (register_page f)" "register_act H version" "(register_form_new, c)"] by simp
  then have "?reach (?d0\<lparr>rg_fullName := rg_fullName g\<rparr>)"
    by (rule move [where ev = "RegName (rg_fullName g)"]) (simp_all add: register_offers)
  then have "?reach (?d0\<lparr>rg_fullName := rg_fullName g, rg_email := rg_email g\<rparr>)"
    by (rule move [where ev = "RegEmail (rg_email g)"]) (simp_all add: register_offers)
  then have "?reach (?d0\<lparr>rg_fullName := rg_fullName g, rg_email := rg_email g, rg_password := rg_password g\<rparr>)"
    by (rule move [where ev = "RegPassword (rg_password g)"]) (simp_all add: register_offers)
  then have "?reach (?d0\<lparr>rg_fullName := rg_fullName g, rg_email := rg_email g, rg_password := rg_password g, rg_confirmPassword := rg_confirmPassword g\<rparr>)"
    by (rule move [where ev = "RegConfirm (rg_confirmPassword g)"]) (simp_all add: register_offers)
  then have e5: "?reach (?d0\<lparr>rg_fullName := rg_fullName g, rg_email := rg_email g, rg_password := rg_password g, rg_confirmPassword := rg_confirmPassword g, rg_tutorName := rg_tutorName g\<rparr>)"
    by (rule move [where ev = "RegTutorName (rg_tutorName g)"]) (simp_all add: register_offers register_form_new_def)
  let ?d = "?d0\<lparr>rg_fullName := rg_fullName g, rg_email := rg_email g, rg_password := rg_password g, rg_confirmPassword := rg_confirmPassword g, rg_tutorName := rg_tutorName g, rg_tutorEmail := rg_tutorEmail g\<rparr>"
  from e5 have a: "?reach ?d"
    by (rule move [where ev = "RegTutorEmail (rg_tutorEmail g)"]) (simp_all add: register_offers register_form_new_def)
  have b: "?reach (?d\<lparr>rg_privacyAccepted := rg_privacyAccepted g\<rparr>)"
  proof (cases "rg_privacyAccepted g")
    case True
    show ?thesis by (rule move [OF a, where ev = "RegPrivacy True"]) (simp_all add: register_offers register_form_new_def True)
  next
    case False
    then show ?thesis using a by (simp add: register_form_new_def)
  qed
  have "?reach (?d\<lparr>rg_privacyAccepted := rg_privacyAccepted g, rg_isAdult := rg_isAdult g\<rparr>)"
  proof (cases "rg_isAdult g")
    case True
    show ?thesis by (rule move [OF b, where ev = "RegAdult True"]) (simp_all add: register_offers register_form_new_def True)
  next
    case False
    then show ?thesis using b by (simp add: register_form_new_def)
  qed
  moreover have "?d\<lparr>rg_privacyAccepted := rg_privacyAccepted g, rg_isAdult := rg_isAdult g\<rparr> = g" by (cases g) (simp add: register_form_new_def)
  ultimately have "?reach g" by simp
  then show ?thesis by (intro exI [of _ "register_form_new\<lparr>rf_data := g\<rparr>"]) (simp add: register_offers register_form_new_def)
qed

lemma text_ids [simp]:
  "ids (detail_text d) = []" "ids (login_error_text e) = []" "ids (register_error_text e) = []" "ids (arco_error_text e) = []"
  "ids (resolve_error_text e) = []" "ids (age_up_text a) = []" "ids (json_text j) = []" "ids EyeIcon = []" "ids EyeOffIcon = []"
  by (simp_all add: detail_text_def login_error_text_def register_error_text_def arco_error_text_def resolve_error_text_def
      age_up_text_def json_text_def EyeIcon_def EyeOffIcon_def str_attr_def split: json.split shown_error.split age_up.split option.split)

lemma concat_none: "(\<And>x. f x = []) \<Longrightarrow> concat (map f xs) = []"
  by (simp add: concat_eq_Nil_conv)

lemma distinct_ids:
  "distinct (ids (login_page lf))" "distinct (ids (register_page rf))" "distinct (ids (arco_page_view loading p))"
  "distinct (ids (arco_admin_view d loading q aa))" "distinct (ids (profile_page a pv))" "distinct (ids (settings_page s))"
  subgoal unfolding login_page_def page_parts by (simp add: ids_Input input_id_def str_attr_def)
  subgoal unfolding register_page_def page_parts by (simp add: ids_Input input_id_def str_attr_def)
  subgoal unfolding arco_page_view_def page_parts by (simp add: ids_Input input_id_def str_attr_def)
  subgoal unfolding arco_admin_view_def page_parts by (simp add: ids_Input input_id_def str_attr_def concat_none to_lower_def)
  subgoal unfolding profile_page_def page_parts Metric_def by (simp add: str_attr_def concat_none)
  subgoal unfolding settings_page_def page_parts ToggleRow_def SegmentButton_def by (simp add: str_attr_def)
  done

text \<open>C34: On every account page, in every state, each field has a name that assistive technology can read, each button a text or a
  label, and no two elements share an identifier, so each label names one field: signing in, registering, the requests
  about personal data and their administration, the profile and the settings.
\<close>

theorem account_pages_accessible:
  "accessible (login_page lf) \<and> accessible (register_page rf) \<and> accessible (arco_page_view loading p)
   \<and> accessible (arco_admin_view d loading q aa) \<and> accessible (profile_page a pv) \<and> accessible (settings_page s)"
  by (simp add: accessible_def distinct_ids login_labelled login_buttons register_labelled register_buttons arco_labelled arco_buttons
      resolve_labelled resolve_buttons profile_labelled profile_buttons settings_labelled settings_buttons)

text \<open>The link to the dashboard lies in a button without a handler: a press on the button beside the link does nothing.\<close>

lemma settings_link_in_button: "links_in_buttons (settings_page s)"
  unfolding settings_page_def page_parts by simp

end
