(* ===== verification/FormPages.thy ===== *)
theory FormPages
  imports Markup Forms
begin

text \<open>
  What the maker's forms render and which edits they offer (\<open>src/features/content/maker/forms\<close>), over the handlers of \<open>Forms\<close> and
  \<open>SnakesContent\<close>. \<open>Number(text)\<close> is the parameter \<open>number\<close>, the random number and the identifier a press would draw are
  parameters; the board preview is the element \<open>preview\<close>.
\<close>

definition opt_text :: "string option \<Rightarrow> string" where
  "opt_text s = (case s of Some t \<Rightarrow> t | None \<Rightarrow> [])"

text \<open>\<open>value.width || 12\<close>.\<close>

definition number_or :: "js_num \<Rightarrow> rat \<Rightarrow> rat" where
  "number_or n d = (case n of Some x \<Rightarrow> if x = 0 then d else x | None \<Rightarrow> d)"

section \<open>The forms\<close>

definition TriviaForm :: "multiple_choice list \<Rightarrow> trivia_edit node" where
  "TriviaForm value =
     El ''div'' [] (map (\<lambda>qIdx. El ''div'' []
    ([El ''button'' [(''type'', Str ''button''), (''onClick'', Press (TRemove qIdx)), (''disabled'', Flag (length value \<le> 3))]
        [Text ''Eliminar''],
              Input None (''Pregunta '' @ show_nat (qIdx + 1)) None [] [] [(''value'', Str (mcq_question (value ! qIdx))),
                (''onChange'', Value (TQuestion qIdx)),
                (''required'', Flag True)],
              El ''div'' [] (map (\<lambda>optIdx. El ''div'' [] ([El ''label'' [] [El ''input'' [(''type'', Str ''radio''),
                         (''checked'', Flag (mcq_correct_index (value ! qIdx) = of_nat optIdx)),
                         (''onChange'', Checked (\<lambda>_. TMark qIdx optIdx))] [],
                       El ''span'' [] [Text (''Marcar opci'' @ [CHR 0xF3] @ ''n ''), Text (show_nat (optIdx + 1)), Text '' como correcta'']],
                     Input None [] None [] [] [(''value'', Str (mcq_options (value ! qIdx) ! optIdx)),
                       (''onChange'', Value (TOption qIdx optIdx)),
                       (''required'', Flag True)]]
                 @ (if length (mcq_options (value ! qIdx)) > 2 then [Button [(''type'', Str ''button''),
                       (''aria-label'', Str (''Eliminar opci'' @ [CHR 0xF3] @ ''n '' @ show_nat (optIdx + 1))),
                       (''onClick'', Press (TRemoveOption qIdx optIdx))] [Text ''X'']] else []))) [0..<length (mcq_options (value ! qIdx))])]
          @ (if length (mcq_options (value ! qIdx)) < 4 then [Button [(''type'', Str ''button''), (''onClick'', Press (TAddOption qIdx))]
              [Text (''+ Agregar opci'' @ [CHR 0xF3] @ ''n'')]] else []))) [0..<length value]
      @ [El ''p'' [] [Text (''M'' @ [CHR 0xED] @ ''nimo 3 preguntas para sostener partidas repetidas.'')],
          Button [(''type'', Str ''button''), (''onClick'', Press TAdd)] [Text ''+ Agregar Pregunta'']])"

datatype crossword_edit = CAdd | CRemove nat | CWord nat string | CClue nat string

fun crossword_form :: "crossword_edit \<Rightarrow> crossword_word list \<Rightarrow> crossword_word list" where
  "crossword_form CAdd words = cwf_addWord words"
| "crossword_form (CRemove i) words = cwf_removeWord i words"
| "crossword_form (CWord i s) words = cwf_updateWord i s words"
| "crossword_form (CClue i s) words = cwf_updateClue i s words"

definition CrosswordForm :: "crossword_word list \<Rightarrow> crossword_edit node" where
  "CrosswordForm words =
     El ''div'' [] (map (\<lambda>idx. El ''div'' [] ([El ''div'' [] [Input None ''Palabra'' None [] [] [(''value'', Str (cw_word (words ! idx))),
                 (''onChange'', Value (CWord idx)),
                 (''required'', Flag True)]],
              El ''div'' [] [Input None ''Pista'' None [] [] [(''value'', Str (cw_clue (words ! idx))),
                 (''onChange'', Value (CClue idx)),
                 (''required'', Flag True)]]]
          @ (if length words > 2 then [Button [(''type'', Str ''button''), (''onClick'', Press (CRemove idx))] [Text ''X'']]
              else []))) [0..<length words]
      @ (if \<not> canBuildCrossword words then [El ''p'' []
          [Text (''Las palabras completas no generan un crucigrama conectado. Agrega palabras con letras en com''
            @ [CHR 0xFA]
            @ ''n o cambia alguna respuesta.'')]] else [])
      @ (if hasDuplicateAnswers words then [El ''p'' [] [Text ''Hay respuestas repetidas. Cada palabra del crucigrama debe ser distinta.'']] else [])
      @ [Button [(''type'', Str ''button''), (''onClick'', Press CAdd)] [Text ''+ Agregar Palabra'']])"

datatype news_edit = NAdd | NRemove nat | NFake nat bool | NTitle nat string | NContent nat string | NReference nat string
  | NExplanation nat string | NImage nat string

fun news_form :: "news_edit \<Rightarrow> news_item list \<Rightarrow> news_item list" where
  "news_form NAdd news = addNews news"
| "news_form (NRemove i) news = removeNews i news"
| "news_form (NFake i b) news = updateNews i (\<lambda>n. n\<lparr>ni_isFake := b\<rparr>) news"
| "news_form (NTitle i s) news = updateNews i (\<lambda>n. n\<lparr>ni_title := s\<rparr>) news"
| "news_form (NContent i s) news = updateNews i (\<lambda>n. n\<lparr>ni_content := s\<rparr>) news"
| "news_form (NReference i s) news = updateNews i (\<lambda>n. n\<lparr>ni_reference := s\<rparr>) news"
| "news_form (NExplanation i s) news = updateNews i (\<lambda>n. n\<lparr>ni_explanation := Some s\<rparr>) news"
| "news_form (NImage i s) news = updateNews i (\<lambda>n. n\<lparr>ni_imageUrl := Some s\<rparr>) news"

definition FakeNewsForm :: "news_item list \<Rightarrow> news_edit node" where
  "FakeNewsForm news =
     El ''div'' [] (map (\<lambda>idx. El ''div'' [] ((if length news > 1 then [El ''button'' [(''onClick'', Press (NRemove idx))] [Text ''Eliminar'']]
    else [])
          @ [El ''div'' [] [El ''span'' [] [Text ''Noticia '', Text (show_nat (idx + 1))],
                El ''label'' [] ([El ''input'' [(''type'', Str ''checkbox''), (''checked'', Flag (ni_isFake (news ! idx))), (''onChange'', Checked (NFake idx))] []]
                 @ (if ni_isFake (news ! idx) then [El ''span'' [] [Text ''Falsa (Fake News)'']] else [El ''span'' [] [Text ''Verdadera (Real)'']]))],
              Input None (''T'' @ [CHR 0xED] @ ''tulo'') None [] [] [(''value'', Str (ni_title (news ! idx))),
                (''onChange'', Value (NTitle idx)),
                (''required'', Flag True)],
              El ''label'' [] [Text ''Contenido'',
                El ''textarea'' [(''rows'', Num 3),
                  (''value'', Str (ni_content (news ! idx))),
                  (''onChange'', Value (NContent idx)),
                  (''required'', Flag True)] []],
              Input None ''Referencia / Fuente (Obligatorio)'' None [] [] [(''value'', Str (ni_reference (news ! idx))),
                (''onChange'', Value (NReference idx)),
                (''required'', Flag True)],
              Input None (''Explicaci'' @ [CHR 0xF3] @ ''n (Opcional)'') None [] [] [(''value'', Str (opt_text (ni_explanation (news ! idx)))),
                (''onChange'', Value (NExplanation idx))],
              Input None ''URL de Imagen (Opcional)'' None [] [] [(''type'', Str ''url''),
                (''value'', Str (opt_text (ni_imageUrl (news ! idx)))),
                (''onChange'', Value (NImage idx))]])) [0..<length news]
      @ [Button [(''onClick'', Press NAdd)] [Text ''+ Agregar Noticia'']])"

record word_search_form =
  sw_words :: "string list"
  sw_width :: js_num
  sw_height :: js_num
  sw_seed :: js_num

datatype search_edit = SearchWidth js_num | SearchHeight js_num | SearchSeed rat | SearchAdd | SearchRemove nat | SearchWord nat string

fun word_search_act :: "search_edit \<Rightarrow> word_search_form \<Rightarrow> word_search_form" where
  "word_search_act (SearchWidth n) f = f\<lparr>sw_width := n\<rparr>"
| "word_search_act (SearchHeight n) f = f\<lparr>sw_height := n\<rparr>"
| "word_search_act (SearchSeed r) f = f\<lparr>sw_seed := Some (of_int (rand_index r 10000))\<rparr>"
| "word_search_act SearchAdd f = f\<lparr>sw_words := wsf_addWord (sw_words f)\<rparr>"
| "word_search_act (SearchRemove i) f = f\<lparr>sw_words := wsf_removeWord i (sw_words f)\<rparr>"
| "word_search_act (SearchWord i s) f = f\<lparr>sw_words := wsf_updateWord i s (sw_words f)\<rparr>"

definition WordSearchForm :: "(string \<Rightarrow> js_num) \<Rightarrow> rat \<Rightarrow> word_search_form \<Rightarrow> search_edit node" where
  "WordSearchForm number r f =
     El ''div'' [] [El ''div'' [] [Input None ''Ancho (5-24)'' None [] [] [(''type'', Str ''number''),
           (''min'', Num 5),
           (''max'', Num 24),
           (''value'', Num (number_or (sw_width f) 12)),
           (''onChange'', Value (\<lambda>s. SearchWidth (number s)))],
         Input None ''Alto (5-24)'' None [] [] [(''type'', Str ''number''),
           (''min'', Num 5),
           (''max'', Num 24),
           (''value'', Num (number_or (sw_height f) 12)),
           (''onChange'', Value (\<lambda>s. SearchHeight (number s)))],
         El ''div'' [] [El ''label'' [] [Text ''Semilla (Seed)''],
           El ''div'' [] [Input None ''Semilla'' None [] [] [(''value'', Num (number_or (sw_seed f) 1234)), (''readOnly'', Flag True)],
             Button [(''onClick'', Press (SearchSeed r))] [Text ''Aleatoria'']]]],
       El ''div'' [] ([El ''h4'' [] [Text ''Palabras a buscar'']]
        @ map (\<lambda>idx. El ''div'' [] ([Input None [] None [] [] [(''value'', Str (sw_words f ! idx)),
                 (''onChange'', Value (SearchWord idx)),
                 (''required'', Flag True)]]
            @ (if length (sw_words f) > 2 then [Button [(''onClick'', Press (SearchRemove idx))] [Text ''X'']] else []))) [0..<length (sw_words f)]
        @ [Button [(''onClick'', Press SearchAdd)] [Text ''+ Agregar Palabra'']])]"

datatype puzzle_edit = PuzzlePhrase string | PuzzlePieces js_num | PuzzleSeed rat

fun puzzle_form_act :: "puzzle_edit \<Rightarrow> puzzle_form \<Rightarrow> puzzle_form" where
  "puzzle_form_act (PuzzlePhrase s) f = pf_setPhrase s f"
| "puzzle_form_act (PuzzlePieces n) f = pf_setPieces n f"
| "puzzle_form_act (PuzzleSeed r) f = pf_randomSeed r f"

definition PuzzleForm :: "(string \<Rightarrow> js_num) \<Rightarrow> rat \<Rightarrow> puzzle_form \<Rightarrow> puzzle_edit node" where
  "PuzzleForm number r f =
     El ''div'' [] [El ''div'' [] [El ''label'' [] [Text ''Frase o mensaje secreto''],
         El ''textarea'' [(''rows'', Num 3),
           (''value'', Str (pf_phrase f)),
           (''onChange'', Value PuzzlePhrase),
           (''required'', Flag True),
           (''placeholder'', Str (''Escribe la frase secreta aqu'' @ [CHR 0xED] @ ''...''))] []],
       El ''div'' [] [Input None (''N'' @ [CHR 0xFA] @ ''mero de piezas (3-20)'') None [] [] [(''type'', Str ''number''),
           (''min'', Num 3),
           (''max'', Num 20),
           (''value'', Num (pf_shownPieces f)),
           (''onChange'', Value (\<lambda>s. PuzzlePieces (number s))),
           (''required'', Flag True)],
         El ''div'' [] [El ''label'' [] [Text ''Semilla (Seed)''],
           El ''div'' [] [Input None ''Semilla'' None [] [] [(''value'', Num (number_or (pf_seed f) 1234)), (''readOnly'', Flag True)],
             Button [(''type'', Str ''button''), (''onClick'', Press (PuzzleSeed r))] [Text ''Aleatoria'']]]]]"

text \<open>The memory form works on its normalised pairs; after an edit they are those of the next rendering.\<close>

record memory_form =
  mf_pairs :: "memory_pair list"
  mf_backColor :: string

datatype memory_edit = MemoryBack string | MemoryAdd string | MemoryRemove nat | MemoryCard1 nat string | MemoryCard2 nat string
  | MemoryColor nat string

definition with_pairs :: "memory_pair list res \<Rightarrow> memory_form \<Rightarrow> memory_form res" where
  "with_pairs ps f = bind_res ps (\<lambda>ps. bind_res (normalizeMemoryPairs (JArr (map pair_json ps))) (\<lambda>ps. Inr (f\<lparr>mf_pairs := ps\<rparr>)))"

fun memory_form_act :: "memory_edit \<Rightarrow> memory_form \<Rightarrow> memory_form res" where
  "memory_form_act (MemoryBack c) f = Inr (f\<lparr>mf_backColor := normalizeMemoryBackColor (Some (JStr c))\<rparr>)"
| "memory_form_act (MemoryAdd uid) f = with_pairs (Inr (addPair uid (mf_pairs f))) f"
| "memory_form_act (MemoryRemove i) f = with_pairs (Inr (removePair i (mf_pairs f))) f"
| "memory_form_act (MemoryCard1 i s) f = with_pairs (updatePair i (\<lambda>p. p\<lparr>mp_content1 := s\<rparr>) (mf_pairs f)) f"
| "memory_form_act (MemoryCard2 i s) f = with_pairs (updatePair i (\<lambda>p. p\<lparr>mp_content2 := s\<rparr>) (mf_pairs f)) f"
| "memory_form_act (MemoryColor i c) f = with_pairs (updateColor i c (mf_pairs f)) f"

definition MemoryForm :: "string \<Rightarrow> memory_form \<Rightarrow> memory_edit node" where
  "MemoryForm uid f =
     El ''div'' [] ([El ''div'' [] [Input None ''Color del dorso'' None [] [] [(''type'', Str ''color''),
             (''value'', Str (mf_backColor f)),
             (''onChange'', Value MemoryBack),
             (''required'', Flag True)],
           El ''div'' [(''aria-label'', Str (''Vista previa del dorso com'' @ [CHR 0xFA] @ ''n''))] []]]
      @ map (\<lambda>idx. El ''div'' []
          ([El ''div'' [] [Input None (''Tarjeta A (Par '' @ show_nat (idx + 1) @ '')'') None [] [] [(''value'', Str (mp_content1 (mf_pairs f ! idx))),
                 (''onChange'', Value (MemoryCard1 idx)),
                 (''required'', Flag True)]],
              El ''div'' [] [Input None (''Tarjeta B (Par '' @ show_nat (idx + 1) @ '')'') None [] [] [(''value'', Str (mp_content2 (mf_pairs f ! idx))),
                 (''onChange'', Value (MemoryCard2 idx)),
                 (''required'', Flag True)]],
              El ''label'' [] [Text ''Color del par'',
                El ''div'' [] [El ''span'' [(''aria-hidden'', Str ''true'')] [],
                  El ''select'' [(''value'', Str (mp_color (mf_pairs f ! idx))), (''onChange'', Value (MemoryColor idx))] (map (\<lambda>color.
                      El ''option'' [(''value'', Str color)] [Text (to_upper color)]) (offered_colors idx (mf_pairs f)))],
                El ''span'' [] [Text ''Cada color se reserva para un solo par.'']]]
          @ (if length (mf_pairs f) > 4 then [Button [(''type'', Str ''button''), (''onClick'', Press (MemoryRemove idx))] [Text ''X'']]
              else []))) [0..<length (mf_pairs f)]
      @ [Button [(''type'', Str ''button''), (''onClick'', Press (MemoryAdd uid))] [Text ''+ Agregar Par''],
          El ''p'' [] [Text (''M'' @ [CHR 0xED] @ ''nimo 4 pares requeridos.'')]])"

definition no_updates :: form_updates where
  "no_updates = \<lparr>up_boardWidth = None, up_boardHeight = None, up_seed = None, up_snakeCount = None, up_ladderCount = None\<rparr>"

fun ai_text :: "ai_level \<Rightarrow> string" where
  "ai_text EASY = ''EASY''"
| "ai_text MEDIUM = ''MEDIUM''"
| "ai_text HARD = ''HARD''"

definition level_of :: "string \<Rightarrow> ai_level" where
  "level_of v = (if v = ''EASY'' then EASY else if v = ''HARD'' then HARD else MEDIUM)"

definition SnakeLadderForm :: "(string \<Rightarrow> js_num) \<Rightarrow> rat \<Rightarrow> form_edit node \<Rightarrow> snakes_form \<Rightarrow> form_edit node" where
  "SnakeLadderForm number r preview f =
     El ''div'' [] [El ''div'' [] [Input None ''Columnas'' None [] [] [(''type'', Str ''number''),
           (''min'', Num 2),
           (''max'', Num 10),
           (''value'', Num (of_int (form_width f))),
           (''onChange'', Value (\<lambda>s. Regenerate (no_updates\<lparr>up_boardWidth := Some (number s)\<rparr>))),
           (''required'', Flag True)],
         Input None ''Filas'' None [] [] [(''type'', Str ''number''),
           (''min'', Num 2),
           (''max'', Num 10),
           (''value'', Num (of_int (form_height f))),
           (''onChange'', Value (\<lambda>s. Regenerate (no_updates\<lparr>up_boardHeight := Some (number s)\<rparr>))),
           (''required'', Flag True)],
         Input None ''Serpientes'' None [] [] [(''type'', Str ''number''),
           (''min'', Num 0),
           (''max'', Num (of_int (maxFeatureCount (form_width f) (form_height f)))),
           (''value'', Num (of_int (form_count (sf_snakes f) f))),
           (''onChange'', Value (\<lambda>s. Regenerate (no_updates\<lparr>up_snakeCount := Some (number s)\<rparr>))),
           (''required'', Flag True)],
         Input None ''Escaleras'' None [] [] [(''type'', Str ''number''),
           (''min'', Num 0),
           (''max'', Num (of_int (maxFeatureCount (form_width f) (form_height f)))),
           (''value'', Num (of_int (form_count (sf_ladders f) f))),
           (''onChange'', Value (\<lambda>s. Regenerate (no_updates\<lparr>up_ladderCount := Some (number s)\<rparr>))),
           (''required'', Flag True)]],
       El ''div'' [] [Input None ''Seed'' None [] [] [(''type'', Str ''number''),
           (''value'', Num (form_seed f)),
           (''onChange'', Value (\<lambda>s. Regenerate (no_updates\<lparr>up_seed := Some (number s)\<rparr>))),
           (''required'', Flag True)],
         Button [(''type'', Str ''button''),
           (''onClick'', Press (Regenerate (no_updates\<lparr>up_seed := Some (Some (of_int (rand_index r 100000)))\<rparr>)))]
               [Text ''Seed aleatoria'']],
       El ''label'' [(''htmlFor'', Str ''snakes-ai-difficulty'')] [Text ''Dificultad de IA'',
         El ''select'' [(''id'', Str ''snakes-ai-difficulty''),
           (''value'', Str (ai_text (case sf_ai f of Some l \<Rightarrow> l | None \<Rightarrow> MEDIUM))),
           (''onChange'', Value (\<lambda>v. Difficulty (level_of v)))] [El ''option'' [(''value'', Str ''EASY'')] [Text (''F''
               @ [CHR 0xE1] @ ''cil'')],
           El ''option'' [(''value'', Str ''MEDIUM'')] [Text ''Media''],
           El ''option'' [(''value'', Str ''HARD'')] [Text (''Dif'' @ [CHR 0xED] @ ''cil'')]]],
       El ''div'' [] [El ''div'' [] [El ''div'' [] [El ''h4'' [] [Text ''Preguntas de Cultura General''],
             El ''p'' [] [Text (''Cada pregunta debe tener exactamente dos opciones. M'' @ [CHR 0xED] @ ''nimo ''),
               Text (show_nat MIN_QUESTIONS),
               Text '' preguntas ('',
               Text (show_nat (length (form_questions f))),
               Text ''/'',
               Text (show_nat MIN_QUESTIONS),
               Text '').'']],
           Button [(''onClick'', Press AddQuestion)] [Text ''+ Agregar Pregunta'']],
         El ''div'' [] (map (\<lambda>idx. El ''div'' [] [Button [(''type'', Str ''button''),
               (''onClick'', Press (RemoveQuestion idx)),
               (''disabled'', Flag (length (form_questions f) \<le> MIN_QUESTIONS)),
               (''aria-label'', Str ''Eliminar pregunta''),
               (''title'', Str ''Eliminar pregunta'')] [Text ''X''],
             El ''div'' [] [Input None (''Pregunta '' @ show_nat (idx + 1)) None [] [] [(''value'', Str (sq_question (form_questions f ! idx))),
                (''onChange'', Value (QuestionText idx))]],
             El ''div'' [] ([El ''p'' [] [Text ''Opciones (marca la correcta):'']]
              @ map (\<lambda>optIdx. El ''div'' [] [El ''label'' [] [El ''input'' [(''type'', Str ''radio''),
                       (''name'', Str (''correct-'' @ show_nat idx)),
                       (''checked'', Flag (sq_correct_index (form_questions f ! idx) = optIdx)),
                       (''onChange'', Checked (\<lambda>_. MarkOption idx optIdx))] [],
                     El ''span'' [] [Text (''Marcar opci'' @ [CHR 0xF3] @ ''n ''), Text (show_nat (optIdx + 1)), Text '' como correcta'']],
                   Input None [] None [] [] [(''value'', Str (sq_options (form_questions f ! idx) ! optIdx)),
                     (''onChange'', Value (OptionText idx optIdx))]]) [0..<length (sq_options (form_questions f ! idx))])]) [0..<length (form_questions f)])],
       preview]"

text \<open>The defaults of the registry.\<close>

definition crosswordDefaults :: "crossword_word list" where
  "crosswordDefaults = [\<lparr>cw_word = [], cw_clue = []\<rparr>, \<lparr>cw_word = [], cw_clue = []\<rparr>]"

definition wordSearchDefaults :: word_search_form where
  "wordSearchDefaults = \<lparr>sw_words = [[], []], sw_width = Some 12, sw_height = Some 12, sw_seed = Some 1234\<rparr>"

definition puzzleDefaults :: puzzle_form where
  "puzzleDefaults = \<lparr>pf_phrase = [], pf_pieces = Some 3, pf_seed = Some 1234\<rparr>"

definition fakeNewsDefaults :: "news_item list" where
  "fakeNewsDefaults = [empty_news]"

definition memoryDefaults :: "memory_form res" where
  "memoryDefaults = with_pairs (Inr (createMemoryPairs 4)) \<lparr>mf_pairs = [], mf_backColor = DEFAULT_MEMORY_BACK_COLOR\<rparr>"

section \<open>The edits on offer\<close>

lemmas form_offers = offers_Input own_events_def key_events_def flag_def str_attr_def typed_def Button_def

lemma set_if: "k \<in> set (if c then xs else ys) \<longleftrightarrow> (if c then k \<in> set xs else k \<in> set ys)"
  by simp

lemma TriviaForm_offers:
  "offers (TriviaForm value) = {e. trivia_shown e value \<and> (\<forall>i. e = TRemove i \<longrightarrow> 3 < length value)}"
proof (rule set_eqI)
  fix e
  show "e \<in> offers (TriviaForm value) \<longleftrightarrow> e \<in> {e. trivia_shown e value \<and> (\<forall>i. e = TRemove i \<longrightarrow> 3 < length value)}"
    unfolding TriviaForm_def by (cases e) (auto simp: form_offers image_iff set_if bex_disj_distrib conj_disj_distribL)
qed

lemma CrosswordForm_offers:
  "offers (CrosswordForm words) = {CAdd} \<union> (if length words > 2 then CRemove ` {..<length words} else {})
     \<union> {CWord i s |i s. i < length words} \<union> {CClue i s |i s. i < length words}"
  unfolding CrosswordForm_def by (auto simp: form_offers)

lemma FakeNewsForm_offers:
  "offers (FakeNewsForm news) \<subseteq> {NAdd} \<union> (if length news > 1 then NRemove ` {..<length news} else {})
     \<union> {e. \<exists>i < length news. (\<exists>b. e = NFake i b) \<or> (\<exists>s. e \<in> {NTitle i s, NContent i s, NReference i s, NExplanation i s, NImage i s})}"
  unfolding FakeNewsForm_def by (auto simp: form_offers set_if split: if_splits)

lemma WordSearchForm_offers:
  "offers (WordSearchForm number r f) = (SearchWidth ` range number) \<union> (SearchHeight ` range number) \<union> {SearchSeed r, SearchAdd}
     \<union> (if length (sw_words f) > 2 then SearchRemove ` {..<length (sw_words f)} else {}) \<union> {SearchWord i s |i s. i < length (sw_words f)}"
  unfolding WordSearchForm_def by (auto simp: form_offers)

lemma PuzzleForm_offers:
  "offers (PuzzleForm number r f) = range PuzzlePhrase \<union> (PuzzlePieces ` range number) \<union> {PuzzleSeed r}"
  unfolding PuzzleForm_def by (auto simp: form_offers)

lemma MemoryForm_offers:
  "offers (MemoryForm uid f) = range MemoryBack \<union> {MemoryAdd uid}
     \<union> (if length (mf_pairs f) > 4 then MemoryRemove ` {..<length (mf_pairs f)} else {})
     \<union> {MemoryCard1 i s |i s. i < length (mf_pairs f)} \<union> {MemoryCard2 i s |i s. i < length (mf_pairs f)}
     \<union> {MemoryColor i c |i c. i < length (mf_pairs f) \<and> c \<in> set (offered_colors i (mf_pairs f))}"
  unfolding MemoryForm_def by (auto simp: form_offers)

lemma SnakeLadderForm_offers:
  assumes "offers preview = {}"
  shows "e \<in> offers (SnakeLadderForm number r preview f) \<Longrightarrow> form_edit_shown e f"
  unfolding SnakeLadderForm_def using assms by (cases e) (auto simp: form_offers set_if split: if_splits)

section \<open>Whatever is edited\<close>

lemma triviaDefaults_ok: "trivia_form_ok triviaDefaults"
  by (auto simp: trivia_form_ok_def triviaDefaults_def empty_question_def markable_def intro: exI [of _ 0])

lemma trivia_form_reach:
  assumes "page_reach (\<lambda>value. offers (TriviaForm value)) trivia_form triviaDefaults value"
  shows "trivia_form_ok value"
  using assms
proof (rule page_invariant)
  fix ev v assume v: "trivia_form_ok v" "ev \<in> offers (TriviaForm v)"
  then have "trivia_shown ev v" by (simp add: TriviaForm_offers)
  then show "trivia_form_ok (trivia_form ev v)" using trivia_form_invariant [OF v(1)] by blast
qed (rule triviaDefaults_ok)

definition crossword_words_ok :: "crossword_word list \<Rightarrow> bool" where
  "crossword_words_ok words \<longleftrightarrow> 2 \<le> length words \<and> (\<forall>w \<in> set words. list_all is_upper (cw_word w) \<and> normalizeCrosswordAnswer (cw_word w) = cw_word w)"

lemma answer_normal:
  "list_all is_upper (normalizeCrosswordAnswer s)" "normalizeCrosswordAnswer (normalizeCrosswordAnswer s) = normalizeCrosswordAnswer s"
  using typed_words_normal [of 0 "[\<lparr>cw_word = [], cw_clue = []\<rparr>]" "[[]]" s] by (simp_all add: cwf_updateWord_def Let_def)

lemma search_normal: "list_all is_upper (filter is_upper (to_upper s))" "normalizeWord (filter is_upper (to_upper s)) = filter is_upper (to_upper s)"
  by (simp_all add: list_all_iff normalizeWord_uppercase)

lemma set_update_cases: "x \<in> set (xs[i := y]) \<Longrightarrow> x = y \<or> x \<in> set xs"
  using set_update_subset_insert [of xs i y] by blast

lemma crossword_form_reach:
  assumes "page_reach (\<lambda>words. offers (CrosswordForm words)) crossword_form crosswordDefaults words"
  shows "crossword_words_ok words"
  using assms
proof (rule page_invariant)
  have [simp]: "normalizeCrosswordAnswer [] = []" using answer_normal(1) [of "[]"] by (simp add: normalizeCrosswordAnswer_def to_upper_def strip_accents_def)
  show "crossword_words_ok crosswordDefaults" by (simp add: crossword_words_ok_def crosswordDefaults_def)
  fix ev v assume v: "crossword_words_ok v" "ev \<in> offers (CrosswordForm v)"
  show "crossword_words_ok (crossword_form ev v)"
  proof (cases ev)
    case CAdd
    then show ?thesis using v(1) by (auto simp: crossword_words_ok_def cwf_addWord_def)
  next
    case (CRemove i)
    then have "i < length v" "2 < length v" using v(2) by (auto simp: CrosswordForm_offers split: if_splits)
    then show ?thesis using v(1) CRemove set_remove_at [of i v] by (auto simp: crossword_words_ok_def cwf_removeWord_def length_remove_at)
  next
    case (CWord i s)
    then show ?thesis using v(1) answer_normal [of s] by (auto simp: crossword_words_ok_def cwf_updateWord_def dest!: set_update_cases)
  next
    case (CClue i s)
    then have "i < length v" using v(2) by (auto simp: CrosswordForm_offers split: if_splits)
    then show ?thesis using v(1) CClue by (auto simp: crossword_words_ok_def cwf_updateClue_def dest!: set_update_cases)
  qed
qed

definition search_words_ok :: "word_search_form \<Rightarrow> bool" where
  "search_words_ok f \<longleftrightarrow> 2 \<le> length (sw_words f) \<and> (\<forall>w \<in> set (sw_words f). list_all is_upper w \<and> normalizeWord w = w)"

text \<open>What \<open>Math.random()\<close> returns, and the seeds a form draws with it.\<close>

definition math_random :: "rat set" where
  "math_random = {r. 0 \<le> r \<and> r \<le> 1 - 1 / 2 ^ 53}"

definition drawn_seed :: "js_num \<Rightarrow> bool" where
  "drawn_seed v = (case v of Some x \<Rightarrow> x = of_int \<lfloor>x\<rfloor> \<and> 0 \<le> x \<and> x < 10000 | None \<Rightarrow> False)"

lemma drawn_seed_draw: "r \<in> math_random \<Longrightarrow> drawn_seed (Some (of_int (rand_index r 10000)))"
  using rand_index_range [of r 10000] by (simp add: drawn_seed_def math_random_def)

lemma drawn_seed_nonneg: "drawn_seed v \<Longrightarrow> nonneg_int (the v)"
  by (cases v) (auto simp: drawn_seed_def nonneg_int_def)

text \<open>The phrase puzzle and the word search keep a seed their engines take; the number of pieces and the size are whatever number was
  typed last.\<close>

lemma puzzle_form_reach:
  assumes "page_reach (\<lambda>f. \<Union>r \<in> math_random. offers (PuzzleForm number r f)) puzzle_form_act puzzleDefaults f"
  shows "drawn_seed (pf_seed f) \<and> pf_pieces f \<in> insert (Some 3) (range number)"
  using assms
proof (rule page_invariant)
  show "drawn_seed (pf_seed puzzleDefaults) \<and> pf_pieces puzzleDefaults \<in> insert (Some 3) (range number)"
    by (simp add: puzzleDefaults_def drawn_seed_def)
  fix ev v
  assume "drawn_seed (pf_seed v) \<and> pf_pieces v \<in> insert (Some 3) (range number)"
    "ev \<in> (\<Union>r \<in> math_random. offers (PuzzleForm number r v))"
  then show "drawn_seed (pf_seed (puzzle_form_act ev v)) \<and> pf_pieces (puzzle_form_act ev v) \<in> insert (Some 3) (range number)"
    by (cases ev) (auto simp: PuzzleForm_offers pf_setPhrase_def pf_setPieces_def pf_randomSeed_def drawn_seed_draw)
qed

lemma search_size_reach:
  assumes "page_reach (\<lambda>f. \<Union>r \<in> math_random. offers (WordSearchForm number r f)) word_search_act wordSearchDefaults f"
  shows "drawn_seed (sw_seed f) \<and> sw_width f \<in> insert (Some 12) (range number) \<and> sw_height f \<in> insert (Some 12) (range number)"
  using assms
proof (rule page_invariant)
  show "drawn_seed (sw_seed wordSearchDefaults) \<and> sw_width wordSearchDefaults \<in> insert (Some 12) (range number)
      \<and> sw_height wordSearchDefaults \<in> insert (Some 12) (range number)"
    by (simp add: wordSearchDefaults_def drawn_seed_def)
  fix ev v
  assume "drawn_seed (sw_seed v) \<and> sw_width v \<in> insert (Some 12) (range number) \<and> sw_height v \<in> insert (Some 12) (range number)"
    "ev \<in> (\<Union>r \<in> math_random. offers (WordSearchForm number r v))"
  then show "drawn_seed (sw_seed (word_search_act ev v)) \<and> sw_width (word_search_act ev v) \<in> insert (Some 12) (range number)
      \<and> sw_height (word_search_act ev v) \<in> insert (Some 12) (range number)"
    by (cases ev) (auto simp: WordSearchForm_offers drawn_seed_draw split: if_splits)
qed

lemma word_search_form_reach:
  assumes "page_reach (\<lambda>f. \<Union>r \<in> math_random. offers (WordSearchForm number r f)) word_search_act wordSearchDefaults f"
  shows "search_words_ok f"
  using assms
proof (rule page_invariant)
  show "search_words_ok wordSearchDefaults" by (simp add: search_words_ok_def wordSearchDefaults_def normalizeWord_uppercase)
  fix ev v assume v: "search_words_ok v" "ev \<in> (\<Union>r \<in> math_random. offers (WordSearchForm number r v))"
  show "search_words_ok (word_search_act ev v)"
  proof (cases ev)
    case SearchAdd
    then show ?thesis using v(1) by (auto simp: search_words_ok_def wsf_addWord_def normalizeWord_uppercase)
  next
    case (SearchRemove i)
    then have "i < length (sw_words v)" "2 < length (sw_words v)" using v(2) by (auto simp: WordSearchForm_offers split: if_splits)
    then show ?thesis using v(1) SearchRemove set_remove_at [of i "sw_words v"] by (auto simp: search_words_ok_def wsf_removeWord_def length_remove_at)
  next
    case (SearchWord i s)
    then show ?thesis using v(1) search_normal [of s] by (auto simp: search_words_ok_def wsf_updateWord_def dest!: set_update_cases)
  qed (use v(1) in \<open>auto simp: search_words_ok_def\<close>)
qed

lemma news_form_reach:
  assumes "page_reach (\<lambda>news. offers (FakeNewsForm news)) news_form fakeNewsDefaults news"
  shows "1 \<le> length news"
  using assms
proof (rule page_invariant)
  show "1 \<le> length fakeNewsDefaults" by (simp add: fakeNewsDefaults_def)
  fix ev v assume v: "1 \<le> length v" "ev \<in> offers (FakeNewsForm v)"
  show "1 \<le> length (news_form ev v)"
  proof (cases ev)
    case (NRemove i)
    then have "i < length v" "1 < length v" using v(2) FakeNewsForm_offers [of v] by (auto split: if_splits)
    then show ?thesis using NRemove by (simp add: removeNews_def length_remove_at)
  qed (use v(1) in \<open>simp_all add: addNews_def updateNews_def\<close>)
qed

definition memory_form_ok :: "memory_form \<Rightarrow> bool" where
  "memory_form_ok f \<longleftrightarrow> 4 \<le> length (mf_pairs f) \<and> (\<forall>p \<in> set (mf_pairs f). pair_valid p)"

lemma normal_pairs: "\<exists>ps'. normalizeMemoryPairs (JArr (map pair_json ps)) = Inr ps' \<and> length ps' = length ps \<and> (\<forall>p \<in> set ps'. pair_valid p)"
  using normalizeMemoryPairs_ok [of "JArr (map pair_json ps)"] by (auto simp: readMemoryPairs_def pair_json_def)

lemma with_pairs_ok:
  assumes "4 \<le> length ps"
  shows "\<exists>f'. with_pairs (Inr ps) f = Inr f' \<and> memory_form_ok f' \<and> mf_backColor f' = mf_backColor f"
  using normal_pairs [of ps] assms by (auto simp: with_pairs_def memory_form_ok_def)

lemma memory_form_total:
  assumes "memory_form_ok f" "ev \<in> offers (MemoryForm uid f)"
  shows "\<exists>f'. memory_form_act ev f = Inr f' \<and> memory_form_ok f'"
proof -
  have p: "\<exists>f'. with_pairs (Inr ps) f = Inr f' \<and> memory_form_ok f'" if "4 \<le> length ps" for ps using with_pairs_ok [OF that] by blast
  have u: "\<exists>f'. with_pairs (normalizeMemoryPairs (JArr (map pair_json ps))) f = Inr f' \<and> memory_form_ok f'" if "4 \<le> length ps" for ps
  proof -
    obtain qs where q: "normalizeMemoryPairs (JArr (map pair_json ps)) = Inr qs" "length qs = length ps" using normal_pairs [of ps] by blast
    show ?thesis unfolding q(1) by (rule p) (use q(2) that in simp)
  qed
  have n: "4 \<le> length (mf_pairs f)" using assms(1) by (simp add: memory_form_ok_def)
  show ?thesis
  proof (cases ev)
    case (MemoryRemove i)
    then have "i < length (mf_pairs f)" "4 < length (mf_pairs f)" using assms(2) by (auto simp: MemoryForm_offers split: if_splits)
    then show ?thesis unfolding MemoryRemove memory_form_act.simps by (intro p) (simp add: removePair_def length_remove_at)
  next
    case (MemoryBack c)
    then show ?thesis using assms(1) by (simp add: memory_form_ok_def)
  next
    case (MemoryAdd u)
    then show ?thesis unfolding MemoryAdd memory_form_act.simps by (intro p) (use n in \<open>simp add: addPair_def\<close>)
  qed (use n u in \<open>auto simp: updatePair_def updateColor_def simp del: map_map\<close>)
qed

lemma memory_form_reach:
  assumes "memoryDefaults = Inr f0" "page_reach (\<lambda>f. \<Union>uid. offers (MemoryForm uid f)) (or_stay memory_form_act) f0 f"
  shows "memory_form_ok f"
  using assms(2)
proof (rule page_invariant)
  have "length (createMemoryPairs 4) = 4" by (simp add: createMemoryPairs_def)
  then show "memory_form_ok f0" using assms(1) with_pairs_ok [of "createMemoryPairs 4" "\<lparr>mf_pairs = [], mf_backColor = DEFAULT_MEMORY_BACK_COLOR\<rparr>"]
    unfolding memoryDefaults_def by auto
  fix ev v assume "memory_form_ok v" "ev \<in> (\<Union>uid. offers (MemoryForm uid v))"
  then obtain v' where "memory_form_act ev v = Inr v'" "memory_form_ok v'" using memory_form_total by blast
  then show "memory_form_ok (or_stay memory_form_act ev v)" by (simp add: or_stay_def)
qed

lemma snakeLadderDefaults_ok: "\<exists>f. snakeLadderDefaults = Inr f \<and> form_ok f"
proof -
  obtain sn la where g: "generateSnakeLadderLinks 6 6 (Some 3) (Some 3) 2026 = Inr (sn, la)"
    "list_all (link_ok SnakeLink 36) sn" "list_all (link_ok LadderLink 36) la" "distinct (map link_start sn @ map link_start la)"
    using links_valid [of 6 6 "Some 3" "Some 3" 2026] by auto
  define f where "f = \<lparr>sf_board_width = Some (Some 6), sf_board_height = Some (Some 6), sf_start_position = 1,
           sf_end_position = 36, sf_seed = Some (Some 2026), sf_snakes = Some sn, sf_ladders = Some la, sf_ai = Some MEDIUM,
           sf_questions = Some (map (\<lambda>_. createEmptyQuestion) [0..<8])\<rparr>"
  have "snakeLadderDefaults = Inr f" by (simp add: snakeLadderDefaults_def g(1) f_def)
  moreover have "board_ok f"
    unfolding board_ok_def using g(2-4)
    by (intro exI [of _ 6] exI [of _ 6] exI [of _ sn] exI [of _ la]) (simp add: f_def)
  moreover have "form_questions f = replicate 8 createEmptyQuestion"
    by (simp add: f_def form_questions_def map_replicate_const)
  ultimately have "snakeLadderDefaults = Inr f \<and> form_ok f"
    by (simp add: form_ok_def MIN_QUESTIONS_def question_ok_def createEmptyQuestion_def list_all_iff)
  then show ?thesis ..
qed

lemma snakes_form_reach:
  assumes "snakeLadderDefaults = Inr f0" "offers preview = {}"
    "page_reach (\<lambda>f. \<Union>r. offers (SnakeLadderForm number r preview f)) (or_stay form_apply) f0 f"
  shows "form_ok f"
  using assms(3)
proof (rule page_invariant)
  show "form_ok f0" using snakeLadderDefaults_ok unfolding assms(1) by auto
  fix ev v assume v: "form_ok v" "ev \<in> (\<Union>r. offers (SnakeLadderForm number r preview v))"
  then have "form_edit_shown ev v" using SnakeLadderForm_offers [OF assms(2)] by blast
  then obtain v' where "form_apply ev v = Inr v'" "form_ok v'" using snakes_form_invariant [OF v(1)] by blast
  then show "form_ok (or_stay form_apply ev v)" by (simp add: or_stay_def)
qed

text \<open>C38: What the seven forms of the maker keep, starting from the defaults of the template and raising only edits a control on
  the screen offers (the board drawn beside the snakes form offers none). Trivia keeps at least three questions with two to four options and a marked one; a crossword at least two
  words, each its own normal form; fake news at least one item. A word search keeps at least two words, each its own normal
  form, and a seed with which its engine starts in any size; its width and height are whatever number was typed. The phrase puzzle keeps a
  seed with which its engine starts for every phrase that is not empty and every count from 3 to 20; the count itself is
  whatever number was typed. Memory keeps at least four valid pairs, and no edit of it fails. Snakes and ladders keeps a
  board of 2 to 10 cells a side with valid links and at least eight questions of two options, and no edit of it fails.\<close>

theorem forms_keep_content:
  assumes "offers preview = {}"
  shows "(\<forall>value. page_reach (\<lambda>v. offers (TriviaForm v)) trivia_form triviaDefaults value \<longrightarrow> trivia_form_ok value)
    \<and> (\<forall>words. page_reach (\<lambda>v. offers (CrosswordForm v)) crossword_form crosswordDefaults words \<longrightarrow> crossword_words_ok words)
    \<and> (\<forall>f. page_reach (\<lambda>f. \<Union>r \<in> math_random. offers (WordSearchForm number r f)) word_search_act wordSearchDefaults f \<longrightarrow>
         search_words_ok f \<and> sw_width f \<in> insert (Some 12) (range number) \<and> sw_height f \<in> insert (Some 12) (range number)
         \<and> drawn_seed (sw_seed f) \<and> (\<forall>w h. \<exists>e. word_search_new (sw_words f) w h (the (sw_seed f)) = Inr e))
    \<and> (\<forall>f. page_reach (\<lambda>f. \<Union>r \<in> math_random. offers (PuzzleForm number r f)) puzzle_form_act puzzleDefaults f \<longrightarrow>
         pf_pieces f \<in> insert (Some 3) (range number) \<and> drawn_seed (pf_seed f)
         \<and> (\<forall>n. 3 \<le> n \<longrightarrow> n \<le> 20 \<longrightarrow> pf_phrase f \<noteq> [] \<longrightarrow> (\<exists>e. puzzle_new (pf_phrase f) n (the (pf_seed f)) = Inr e)))
    \<and> (\<forall>news. page_reach (\<lambda>v. offers (FakeNewsForm v)) news_form fakeNewsDefaults news \<longrightarrow> 1 \<le> length news)
    \<and> (\<exists>f0. memoryDefaults = Inr f0 \<and>
         (\<forall>f. page_reach (\<lambda>f. \<Union>uid. offers (MemoryForm uid f)) (or_stay memory_form_act) f0 f \<longrightarrow>
            memory_form_ok f \<and> (\<forall>uid. \<forall>ev \<in> offers (MemoryForm uid f). \<exists>f'. memory_form_act ev f = Inr f')))
    \<and> (\<exists>f0. snakeLadderDefaults = Inr f0 \<and>
         (\<forall>f. page_reach (\<lambda>f. \<Union>r. offers (SnakeLadderForm number r preview f)) (or_stay form_apply) f0 f \<longrightarrow>
            form_ok f \<and> (\<forall>r. \<forall>ev \<in> offers (SnakeLadderForm number r preview f). \<exists>f'. form_apply ev f = Inr f')))"
proof -
  have "length (createMemoryPairs 4) = 4" by (simp add: createMemoryPairs_def)
  then obtain m0 where m0: "memoryDefaults = Inr m0"
    using with_pairs_ok [of "createMemoryPairs 4"] unfolding memoryDefaults_def by fastforce
  obtain s0 where s0: "snakeLadderDefaults = Inr s0" using snakeLadderDefaults_ok by blast
  have "search_words_ok f \<and> sw_width f \<in> insert (Some 12) (range number) \<and> sw_height f \<in> insert (Some 12) (range number)
      \<and> drawn_seed (sw_seed f) \<and> (\<forall>w h. \<exists>e. word_search_new (sw_words f) w h (the (sw_seed f)) = Inr e)"
    if f: "page_reach (\<lambda>f. \<Union>r \<in> math_random. offers (WordSearchForm number r f)) word_search_act wordSearchDefaults f" for f
  proof -
    have "sw_words f \<noteq> []" using word_search_form_reach [OF f] by (auto simp: search_words_ok_def)
    then have "\<exists>e. word_search_new (sw_words f) w h (the (sw_seed f)) = Inr e" for w h
      using word_search_new_shape [OF _ drawn_seed_nonneg] search_size_reach [OF f] by blast
    then show ?thesis using word_search_form_reach [OF f] search_size_reach [OF f] by blast
  qed
  moreover have "pf_pieces f \<in> insert (Some 3) (range number) \<and> drawn_seed (pf_seed f)
      \<and> (\<forall>n. 3 \<le> n \<longrightarrow> n \<le> 20 \<longrightarrow> pf_phrase f \<noteq> [] \<longrightarrow> (\<exists>e. puzzle_new (pf_phrase f) n (the (pf_seed f)) = Inr e))"
    if f: "page_reach (\<lambda>f. \<Union>r \<in> math_random. offers (PuzzleForm number r f)) puzzle_form_act puzzleDefaults f" for f
    using puzzle_form_reach [OF f] wf_puzzle_new [OF _ _ _ drawn_seed_nonneg] by blast
  moreover have "memory_form_ok f \<and> (\<forall>uid. \<forall>ev \<in> offers (MemoryForm uid f). \<exists>f'. memory_form_act ev f = Inr f')"
    if "page_reach (\<lambda>f. \<Union>uid. offers (MemoryForm uid f)) (or_stay memory_form_act) m0 f" for f
    using memory_form_reach [OF m0 that] memory_form_total by blast
  moreover have "form_ok f \<and> (\<forall>r. \<forall>ev \<in> offers (SnakeLadderForm number r preview f). \<exists>f'. form_apply ev f = Inr f')"
    if "page_reach (\<lambda>f. \<Union>r. offers (SnakeLadderForm number r preview f)) (or_stay form_apply) s0 f" for f
    using snakes_form_reach [OF s0 assms that] snakes_form_invariant SnakeLadderForm_offers [OF assms] by blast
  ultimately show ?thesis
    using m0 s0 trivia_form_reach crossword_form_reach news_form_reach by (intro conjI) blast+
qed

theorem forms_keep_content_witness:
  "crossword_words_ok (crossword_form CAdd crosswordDefaults)
   \<and> (\<exists>f0. snakeLadderDefaults = Inr f0 \<and> form_ok f0) \<and> (\<exists>f0. memoryDefaults = Inr f0 \<and> memory_form_ok f0)"
proof -
  have "CAdd \<in> offers (CrosswordForm crosswordDefaults)" by (simp add: CrosswordForm_offers)
  then have "page_reach (\<lambda>v. offers (CrosswordForm v)) crossword_form crosswordDefaults (crossword_form CAdd crosswordDefaults)"
    by (rule page_event [OF page_start])
  then show ?thesis
    using forms_keep_content [of "Text []" "\<lambda>_. None"] page_start [of "\<lambda>f. \<Union>uid. offers (MemoryForm uid f)" "or_stay memory_form_act"]
      page_start [of "\<lambda>f. \<Union>r. offers (SnakeLadderForm (\<lambda>_. None) r (Text []) f)" "or_stay form_apply"]
    by (metis (no_types, lifting) offers.simps(2))
qed

section \<open>Names of the fields\<close>

text \<open>The option fields have an empty label, the words of a crossword share one identifier, and the label of the secret phrase names no
  field.\<close>

lemma option_fields_unnamed: "\<not> labelled (TriviaForm triviaDefaults)"
  by code_simp

lemma repeated_identifiers: "\<not> distinct (ids (CrosswordForm crosswordDefaults))"
  by (simp add: CrosswordForm_def crosswordDefaults_def Button_def ids_Input str_attr_def input_id_def upt_rec)

lemma phrase_unnamed: "\<not> labelled (PuzzleForm number r f)"
  by (simp add: labelled_def PuzzleForm_def Button_def Input_def Let_def str_attr_def form_field_def flag_def input_id_def)

end
