(* ===== verification/RepoTests.thy ===== *)
theory RepoTests
  imports Puzzle Trivia Crossword WordSearch Sync
begin

text \<open>
  The repository's own unit tests, replayed on the model: \<open>packages/engine/src/games/*.test.ts\<close> and
  \<open>src/lib/syncEngine.test.ts\<close>. Each lemma states the expectations of one test and is checked by evaluation.
\<close>

section \<open>\<open>TriviaEngine.test.ts\<close>\<close>

definition mock_questions :: "multiple_choice list" where
  "mock_questions =
     [\<lparr>mcq_question = ''Q1'', mcq_options = [''A'', ''B'', ''C'', ''D''], mcq_correct_index = 0, mcq_media_url = None\<rparr>,
      \<lparr>mcq_question = ''Q2'', mcq_options = [''A'', ''B'', ''C'', ''D''], mcq_correct_index = 1, mcq_media_url = None\<rparr>]"

definition trivia_test :: "trivia_event list \<Rightarrow> (trivia_state \<Rightarrow> bool) \<Rightarrow> bool" where
  "trivia_test evs expect = (case trivia_run evs (trivia_new mock_questions) of Inl _ \<Rightarrow> False | Inr e \<Rightarrow> expect (tr_state e))"

lemma trivia_test_default:
  "trivia_test [] (\<lambda>st. tr_currentQuestionIndex st = 0 \<and> tr_score st = 0 \<and> tr_selectedAnswer st = None \<and> \<not> tr_isFinished st)"
  by code_simp

lemma trivia_test_correct: "trivia_test [Submit 0] (\<lambda>st. tr_selectedAnswer st = Some 0 \<and> tr_score st > 0)"
  by code_simp

lemma trivia_test_incorrect: "trivia_test [Submit 1] (\<lambda>st. tr_selectedAnswer st = Some 1 \<and> tr_score st = 0)"
  by code_simp

lemma trivia_test_duplicate: "trivia_test [Submit 0, Submit 1] (\<lambda>st. tr_selectedAnswer st = Some 0 \<and> tr_score st = 160)"
  by code_simp

lemma trivia_test_timeout:
  "trivia_test (Start # replicate 31 Tick) (\<lambda>st. tr_selectedAnswer st = Some (-1))"
  "trivia_test (Start # replicate 31 Tick @ [Fire]) (\<lambda>st. tr_currentQuestionIndex st = 1)"
  by code_simp+

lemma trivia_test_finish: "trivia_test [Submit 0, Fire, Submit 1, Fire] tr_isFinished"
  by code_simp

lemma trivia_test_reset:
  "trivia_test [Submit 0, Fire, Reset] (\<lambda>st. tr_currentQuestionIndex st = 0 \<and> tr_score st = 0 \<and> \<not> tr_isFinished st)"
  by code_simp

section \<open>\<open>PuzzleEngine.test.ts\<close>\<close>

definition puzzle_test :: "string \<Rightarrow> int \<Rightarrow> rat \<Rightarrow> (puzzle_engine \<Rightarrow> bool) \<Rightarrow> bool" where
  "puzzle_test ph n seed expect = (case puzzle_new ph n seed of Inl _ \<Rightarrow> False | Inr e \<Rightarrow> expect e)"

lemma puzzle_test_invalid:
  "\<not> is_ok (puzzle_new ''phrase'' 2 1234)" "\<not> is_ok (puzzle_new ''phrase'' 21 1234)" "\<not> is_ok (puzzle_new [] 5 1234)"
  by code_simp+

lemma puzzle_test_shuffled: "puzzle_test ''secret message'' 4 123 (\<lambda>e. \<not> solved (pz_pieces (pz_state e)))"
  by code_simp

lemma puzzle_test_reorder:
  "puzzle_test ''secret message'' 4 123 (\<lambda>e. let old = pz_pieces (pz_state e); st = pz_state (reorderPieces 0 1 e) in
     pz_pieces st ! 0 = old ! 1 \<and> pz_pieces st ! 1 = old ! 0 \<and> pz_moves st = 1)"
  by code_simp

text \<open>The loop of the test, which moves the first misplaced piece home.\<close>

fun test_solve :: "nat \<Rightarrow> puzzle_engine \<Rightarrow> puzzle_engine" where
  "test_solve 0 e = e"
| "test_solve (Suc k) e =
     (let ps = pz_pieces (pz_state e) in
      case find_index (\<lambda>(i, p). originalIndex p \<noteq> i) (enumerate 0 ps) of
        None \<Rightarrow> e
      | Some i \<Rightarrow> (case find_index (\<lambda>p. originalIndex p = i) ps of
                    None \<Rightarrow> e
                  | Some j \<Rightarrow> test_solve k (reorderPieces (int j) (int i) e)))"

lemma puzzle_test_solve:
  "puzzle_test ''abc'' 3 123 (\<lambda>e. pz_isFinished (pz_state (test_solve 3 e)) \<and> pz_score (pz_state (test_solve 3 e)) > 0)"
  by code_simp

lemma puzzle_test_reset:
  "puzzle_test ''abc'' 3 123 (\<lambda>e. case puzzle_reset (reorderPieces 0 1 e) of Inl _ \<Rightarrow> False
     | Inr e' \<Rightarrow> pz_moves (pz_state e') = 0 \<and> pz_score (pz_state e') = 0 \<and> \<not> pz_isFinished (pz_state e'))"
  by code_simp

section \<open>\<open>WordSearchEngine.test.ts\<close>\<close>

lemma search_test_no_words: "\<not> is_ok (word_search_new [] 10 10 1234)"
  by code_simp

text \<open>The accented letters of the test are \<open>CHR 0xE9\<close> and \<open>CHR 0xF1\<close>.\<close>

lemma search_test_normalize:
  "rev (remdups (rev (map normalizeWord [''Caf'' @ [CHR 0xE9], ''caf'' @ [CHR 0xE9], ''Ni'' @ [CHR 0xF1, CHR ''o''],
       ''ni'' @ [CHR 0xF1, CHR ''o''], ''hello-world''])))
   = [''CAFE'', ''NINO'', ''HELLOWORLD'']"
  by code_simp

text \<open>The remaining tests of this file deal whole boards; \<open>WordSearchScreen\<close> proves what they check for every board.\<close>

section \<open>\<open>CrosswordEngine.test.ts\<close>\<close>

definition test_words :: "crossword_word list" where
  "test_words = [\<lparr>cw_word = ''HELLO'', cw_clue = ''Greeting''\<rparr>, \<lparr>cw_word = ''WORLD'', cw_clue = ''Earth''\<rparr>]"

definition test_cells :: cw_grid where
  "test_cells = ly_grid (buildCrosswordLayout test_words)"

lemma crossword_test_layout:
  "test_cells \<noteq> [] \<and> length (ly_placedWords (buildCrosswordLayout test_words)) = 2"
  by code_simp

lemma crossword_test_initial:
  "let st = ce_state (crossword_new test_words) in cs_score st = 0 \<and> \<not> cs_isFinished st \<and> cs_selectedCell st = None \<and> cs_orientation st = Horizontal"
  by code_simp

definition at_first :: "(int \<Rightarrow> int \<Rightarrow> crossword_engine \<Rightarrow> crossword_engine) \<Rightarrow> crossword_engine" where
  "at_first f = (let (x, y) = fst (hd test_cells) in f x y (selectCell x y (crossword_new test_words)))"

lemma crossword_test_select: "cs_selectedCell (ce_state (at_first (\<lambda>x y e. e))) = Some (fst (hd test_cells))"
  by code_simp

lemma crossword_test_toggle:
  "cs_orientation (ce_state (at_first selectCell)) \<noteq> cs_orientation (ce_state (at_first (\<lambda>x y e. e)))"
  by code_simp

lemma crossword_test_input:
  "map_of (cs_userGrid (ce_state (at_first (\<lambda>x y. inputChar ''A'')))) (fst (hd test_cells)) = Some ''A''"
  "map_of (cs_userGrid (ce_state (at_first (\<lambda>x y. inputChar [CHR 0xE1])))) (fst (hd test_cells)) = Some ''A''"
  by code_simp+

lemma crossword_test_finish:
  "let st = ce_state (fold (\<lambda>((x, y), c). inputChar [c] \<circ> selectCell x y) test_cells (crossword_new test_words))
   in cs_isFinished st \<and> cs_score st = 10 * length test_cells"
  by code_simp

lemma crossword_test_empty:
  "ly_grid (buildCrosswordLayout []) = [] \<and> \<not> cs_isFinished (ce_state (crossword_new []))"
  by code_simp

lemma crossword_test_disconnected:
  "let words = [\<lparr>cw_word = ''SI'', cw_clue = ''a''\<rparr>, \<lparr>cw_word = ''NO'', cw_clue = ''b''\<rparr>]; l = buildCrosswordLayout words in
     \<not> canBuildConnectedCrossword words \<and> \<not> isBuildComplete (crossword_new words) \<and> length (ly_placedWords l) = 1 \<and> length (ly_unplacedWords l) = 1"
  by code_simp

lemma crossword_test_reset:
  "let st = ce_state (crossword_reset (at_first (\<lambda>x y. inputChar ''A''))) in
     cs_userGrid st = [] \<and> cs_score st = 0 \<and> \<not> cs_isFinished st \<and> cs_selectedCell st = None"
  by code_simp

section \<open>\<open>syncEngine.test.ts\<close>\<close>

definition test_request :: "level_attempt list \<Rightarrow> string list \<Rightarrow> string list \<Rightarrow> sync_request" where
  "test_request attempts dates badges = \<lparr>sr_sync_event_id = ''01'', sr_user_id = ''02'', sr_device_id = ''03'', sr_crypto_key_version = 1,
     sr_payload = \<lparr>sp_level_attempts = attempts, sp_daily_streak_dates = Some dates, sp_badge_ids_earned = Some badges\<rparr>,
     sr_hmac_signature = []\<rparr>"

definition test_attempt :: "string \<Rightarrow> string \<Rightarrow> int \<Rightarrow> bool \<Rightarrow> level_attempt" where
  "test_attempt level date reached finished = \<lparr>la_level_id = level, la_attempt_date = date, la_attempt_number = 1, la_xp_awarded = 0,
     la_score = reached, la_completed = finished\<rparr>"

lemma sync_test_stable:
  "let a = test_attempt ''05'' ''2026-07-20'' 42 True; b = test_attempt ''04'' ''2026-07-19'' 0 False in
     buildCanonicalSigningPayload (test_request [a, b] [''2026-07-20'', ''2026-07-19''] [''07'', ''06''])
     = buildCanonicalSigningPayload (test_request [b, a] [''2026-07-19'', ''2026-07-20''] [''06'', ''07''])"
  by code_simp

end
