(* ===== verification/Spec2Isabelle.thy ===== *)
theory Spec2Isabelle
  imports Puzzle Memory FakeNews Trivia SnakesScreen Crossword CrosswordScreen WordSearchScreen Stores Accounts Levels
    LevelPages GameScreens Dashboard Forms SnakesBoard MemoryContrast WordSearchStage SnakesDrawing PhaserHost AccountPages FormPages RepoTests
begin

text \<open>
  The learning-game platform USBI: a model of its client (\<open>frontend/\<close>, TypeScript), with proofs about it.

  The program. Players sign in, open sections of official levels, play them and collect points; a
  desktop build (Tauri) keeps playing offline and sends the results later. Levels are written in a maker,
  checked by zod schemas, stored in the browser or sent to the server, read back by the level pages and
  played by one of seven game engines. The engines (\<open>packages/engine/src/games\<close>) are plain classes with a
  state and listeners; React components and Phaser scenes (\<open>src/features/games\<close>) drive them. The stores
  (\<open>src/stores\<close>), the API client with its token refresh (\<open>src/lib/apiClient.ts\<close>), the session file
  (\<open>src/lib/secureSession.ts\<close>) and the queue of offline results (\<open>src/lib/localSyncQueue.ts\<close>,
  \<open>src/lib/syncEngine.ts\<close>) are shared by all pages.

  How the code is represented. A class or a component is a record of its fields, each method or handler
  one function on that record; an exception is the left of a sum (\<open>'a res\<close>), everything a caller can
  observe (listeners called, requests sent, warnings of a lost session) is recorded in the state. Numbers
  of the generators are IEEE doubles: rationals with the rounding \<open>fl\<close> written out after every operation
  (\<open>JsNumber\<close>); other numbers are integers or rationals. Texts are character lists over Latin-1. JSON
  values are the datatype \<open>json\<close>. The server, the native commands, the clock, the random source and the
  file system are parameters (the record \<open>host\<close>, the locale \<open>random_source\<close>), each with an arbitrary state
  of the world that they may change; what the zod library accepts is the parameter of the locale \<open>zod\<close>,
  whose assumptions are the documented clauses of each combinator and which \<open>conforms\<close> interprets. The laws leave
  open whether integers beyond the safe ones are accepted (versions of the library differ); what is proved of accepted
  values needs no more, and that a value is accepted is proved of values whose numbers are safe.

  Theories, in the order of their dependencies.

  \<^item> \<open>Prelude\<close>, \<open>JsNumber\<close>, \<open>JsText\<close>: results, list operations, doubles, texts and JSON. \<open>RandomSource\<close>: the
    interface of a random generator, its two instances, Fisher-Yates. \<open>Observable\<close>: listeners.

  \<^item> \<open>Puzzle\<close>, \<open>MemoryPalette\<close>, \<open>Memory\<close>, \<open>FakeNews\<close>, \<open>Trivia\<close>: the engines of these games with the handlers of
    their screens. They show that dealing succeeds, that the memory game can be won and trivia ends by itself, that
    the memory game reports its end once, and that the score is the one the rules give. The puzzle is played from its constructor by any
    moves, drags and resets (\<open>puzzle_play\<close>); its 100 shuffles come from any nonnegative seed. \<open>MemoryContrast\<close>: the text on a memory card
    can be read on every colour.

  \<^item> \<open>SnakesLayout\<close>, \<open>SnakesEngine\<close>, \<open>SnakesScreen\<close>: the board and the seeded generator of its links, the engine
    with its refinement of an abstract board game, and the screen with its pending animations as a
    list of tasks that may complete in any order. The commit in which React replaces
    the board by the result is an event of its own (\<open>Commit\<close>): the end is reported once when it follows each event, while two tokens that
    arrive before it report twice (\<open>two_arrivals_two_reports\<close>). \<open>SnakesBoard\<close>: where the board, the tokens and the preview are drawn.
    \<open>SnakesDrawing\<close>: the links, the tumbling die and its sound; nothing is drawn outside the board.

  \<^item> \<open>CrosswordLayout\<close>, \<open>Crossword\<close>: the layout generator, with the properties of a correct crossword, and the
    engine with its keyboard. \<open>CrosswordScreen\<close>: the scene over the engine, whose cells always show the engine's state.

  \<^item> \<open>WordSearch\<close>, \<open>WordSearchScreen\<close>: the dealer of the letter grid, and the selection by pointer and keyboard.
    \<open>WordSearchStage\<close>: what the scene draws, which always shows the engine's state. \<open>Canvas\<close>: the drawing calls.

  \<^item> \<open>Stores\<close>: the four stores, the document classes of the settings, the route table and its guard.

  \<^item> \<open>Zod\<close>, \<open>Schema\<close>: schemas as values with their meaning, and every schema of \<open>packages/schema\<close> and
    \<open>src/lib/schema.ts\<close>.

  \<^item> \<open>Session\<close>: requests with the refresh of an expired token, and the session file. Every request ends after
    at most three exchanges, and store and file never disagree afterwards.

  \<^item> \<open>Sync\<close>, \<open>SyncQueue\<close>: the text that is signed, the retries, the loop over queued events, the queue table
    and the triggers of \<open>src/main.tsx\<close>; interleavings of several runs are a step relation.

  \<^item> \<open>Content\<close>, \<open>SnakesContent\<close>: reading stored content into game configurations, the template registry of the
    maker, and the theorems that connect what the maker accepts with what the games can play.

  \<^item> \<open>Forms\<close>: the editing handlers of the maker's forms. \<open>Levels\<close>: saving, importing, deleting, opening and
    finishing levels. \<open>Accounts\<close>: signing in and out, registering, the age change and the requests about
    personal data.

  \<^item> \<open>LevelPages\<close>: which game the two level pages mount, that they agree, and that accepted content starts: \<open>launch\<close> runs
    the constructor and the first calls of the mounted component, \<open>begun\<close> says what the game then holds.
    \<open>GameScreens\<close>: the trivia and puzzle components as clients of the interface \<open>telling_engine\<close>, and the score a
    page keeps. \<open>AdminContent\<close>: the administration of sections and levels with its level form.
    \<open>Dashboard\<close>: the library of local levels, the menu, and the queries that the dashboard, the section page and the
    profile share; it shows that the library stays usable and that two pages clash on one key of the query cache.

  \<^item> \<open>PhaserHost\<close>: the component that creates and destroys the Phaser game, under every order of mounting and game events.

  \<^item> \<open>Markup\<close>: elements with their attributes and events, the shared components of \<open>src/components/ui\<close>, and what a page offers
    its user. \<open>AccountPages\<close>: the pages of login, registration, personal data, profile and settings; every field and button has a
    name, and the settings and registrations that can be reached with offered events are all. \<open>FormPages\<close>: the forms of the maker, and what of
    the content survives every edit they offer (sizes and counts typed by the user are not limited by the code, nor here).

  \<^item> \<open>RepoTests\<close>: the repository's unit tests of the engines and of the signed text, evaluated on the model.

  Bounds. Loops that the code bounds have that bound as their fuel (500 attempts per word of a word
  search, 100 shuffles of a puzzle, 3 attempts of a request, one retry after a refresh), so no fuel can
  run out before the code would stop; all other functions are total by structural recursion or a
  measure. Theorems that something happens (a game is won, the queue drains) give the events that bring
  it about.

  Not modelled. The markup of the other pages, class names and styles (output without decisions of its own); the Go server
  with its SQL migrations and the Rust shell (other languages, seen here as parameters); the persistence
  middleware of the stores, file dialogs and the query cache (libraries the source only calls).
  The native commands that write and clear the session file and that tell the shell whether a game is running are taken to
  succeed (the code awaits the first two and only logs failures of the last). React's doubled effects in development are not part of the
  component models; \<open>second_start_throws\<close> shows what they do to snakes and ladders. Doubles have no overflow: the exponent in \<open>fl\<close> is
  unbounded, which only a seed beyond \<open>10^304\<close> could tell apart (the code multiplies the seed once before it reduces it). Texts
  outside Latin-1 and surrogate pairs are outside the model of strings. A few definitions of larger
  components are still missing; the manifest names them with their component.
\<close>

end
